(* ===== verification/Prelude.thy ===== *)
theory Prelude
  imports Main "HOL-Library.Word" "HOL-Library.Monad_Syntax"
begin

text \<open>
  Shared vocabulary of the development: the fixed-width integer types of the kernel, the error
  numbers of \<^verbatim>\<open>cos_errno.h\<close>, the compare-and-swap primitive, and the treatment of assertions.

  A kernel operation that can hit an \<^verbatim>\<open>assert\<close> is a function into \<open>option\<close>: the kernel's
  \<^verbatim>\<open>assert\<close> prints a message and halts the machine (\<^verbatim>\<open>assert.h\<close>, \<^verbatim>\<open>die\<close>), which is the value
  \<open>None\<close> here.  An operation that returns gives \<open>Some (ret, s)\<close> with the C return value \<open>ret\<close>
  (an \<open>int\<close>, negative for an error) and the new state.  Reads of an array out of its bounds are
  \<open>None\<close> as well.
\<close>

unbundle bit_operations_syntax

type_synonym u8 = "8 word"
type_synonym u16 = "16 word"
type_synonym u32 = "32 word"
type_synonym u64 = "64 word"
type_synonym addr = u32
type_synonym capid = u32
type_synonym cpuid = nat

text \<open>A step of a kernel operation over the state \<open>'s\<close>: \<open>None\<close> is a failed assertion.\<close>

type_synonym ('s, 'a) kop = "'s \<Rightarrow> ('a \<times> 's) option"

named_theorems kernel_defs \<open>definitions a component proof unfolds\<close>
named_theorems kernel_inv \<open>preservation lemmas of the component invariants\<close>

section \<open>Error numbers\<close>

abbreviation EPERM :: int where "EPERM \<equiv> 1"
abbreviation ENOENT :: int where "ENOENT \<equiv> 2"
abbreviation EAGAIN :: int where "EAGAIN \<equiv> 11"
abbreviation ENOMEM :: int where "ENOMEM \<equiv> 12"
abbreviation EFAULT :: int where "EFAULT \<equiv> 14"
abbreviation EBUSY :: int where "EBUSY \<equiv> 16"
abbreviation EEXIST :: int where "EEXIST \<equiv> 17"
abbreviation EINVAL :: int where "EINVAL \<equiv> 22"
abbreviation EOVERFLOW :: int where "EOVERFLOW \<equiv> 75"
abbreviation EQUIESCENCE :: int where "EQUIESCENCE \<equiv> 256"
abbreviation ECASFAIL :: int where "ECASFAIL \<equiv> 257"

section \<open>Assertions and compare-and-swap\<close>

definition kassert :: "bool \<Rightarrow> unit option" where
  "kassert b = (if b then Some () else None)"

lemma kassert_simps [simp]:
  "kassert True = Some ()" "kassert False = None"
  by (simp_all add: kassert_def)

lemma kassert_eq_Some [simp]: "kassert b = Some u \<longleftrightarrow> b"
  by (simp add: kassert_def)

lemma kassert_eq_None [simp]: "kassert b = None \<longleftrightarrow> \<not> b"
  by (simp add: kassert_def)

lemma kassert_bind: "(kassert b \<bind> f) = (if b then f () else None)"
  by (simp add: kassert_def)

abbreviation CAS_SUCCESS :: int where "CAS_SUCCESS \<equiv> 1"

text \<open>
  \<^verbatim>\<open>cos_cas (target, old, updated)\<close> on the word \<open>cur\<close> found at the target: the return value and
  the word left there.
\<close>

definition cos_cas :: "'a \<Rightarrow> 'a \<Rightarrow> 'a \<Rightarrow> int \<times> 'a" where
  "cos_cas cur old updated = (if cur = old then (CAS_SUCCESS, updated) else (0, cur))"

lemma cos_cas_same [simp]: "cos_cas old old updated = (CAS_SUCCESS, updated)"
  by (simp add: cos_cas_def)

lemma cos_cas_other: "cur \<noteq> old \<Longrightarrow> cos_cas cur old updated = (0, cur)"
  by (simp add: cos_cas_def)

section \<open>Arrays\<close>

text \<open>Reads and writes of an array at an index of type \<^verbatim>\<open>int\<close>; \<open>None\<close> is an access out of bounds.\<close>

definition arr_rd :: "'a list \<Rightarrow> int \<Rightarrow> 'a option" where
  "arr_rd x i = (if 0 \<le> i \<and> i < int (length x) then Some (x ! nat i) else None)"

definition arr_wr :: "'a list \<Rightarrow> int \<Rightarrow> 'a \<Rightarrow> 'a list option" where
  "arr_wr x i v = (if 0 \<le> i \<and> i < int (length x) then Some (x[nat i := v]) else None)"

lemma arr_rd_nat [simp]: "i < length x \<Longrightarrow> arr_rd x (int i) = Some (x ! i)"
  by (simp add: arr_rd_def)

lemma arr_wr_nat [simp]: "i < length x \<Longrightarrow> arr_wr x (int i) v = Some (x[i := v])"
  by (simp add: arr_wr_def)

section \<open>Machine constants\<close>

definition PAGE_ORDER :: nat where [simp]: "PAGE_ORDER = 12"

definition PAGE_SIZE :: u32 where "PAGE_SIZE = push_bit PAGE_ORDER 1"

lemma PAGE_SIZE_eq [simp]: "PAGE_SIZE = 4096"
  by (simp add: PAGE_SIZE_def push_bit_eq_mult)

definition NUM_CPU :: nat where "NUM_CPU = 16"

definition MAX_NUM_THREADS :: nat where "MAX_NUM_THREADS = NUM_CPU + 10 + 200 * (NUM_CPU - 6)"

definition NUM_CPU_COS :: nat where
  "NUM_CPU_COS = (if NUM_CPU > 1 then NUM_CPU - 1 else 1)"

lemma NUM_CPU_COS_eq: "NUM_CPU_COS = 15"
  by (simp add: NUM_CPU_COS_def NUM_CPU_def)

lemma NUM_CPU_pos [simp]: "0 < NUM_CPU"
  by (simp add: NUM_CPU_def)

text \<open>The kernel's direct mapping of physical memory.\<close>

definition COS_MEM_KERN_START_VA :: u32 where "COS_MEM_KERN_START_VA = 0xc0000000"

definition chal_pa2va :: "u32 \<Rightarrow> u32" where
  "chal_pa2va address = address + COS_MEM_KERN_START_VA"

definition chal_va2pa :: "u32 \<Rightarrow> u32" where
  "chal_va2pa address = address - COS_MEM_KERN_START_VA"

lemma chal_pa2va_va2pa [simp]:
  "chal_va2pa (chal_pa2va a) = a" "chal_pa2va (chal_va2pa a) = a"
  by (simp_all add: chal_pa2va_def chal_va2pa_def)

lemma chal_pa2va_inj [simp]: "chal_pa2va a = chal_pa2va b \<longleftrightarrow> a = b"
  by (simp add: chal_pa2va_def)

section \<open>Option binds and words\<close>

lemma bind_prod_Some:
  "(m \<bind> (\<lambda>(x, y). f x y)) = Some z \<longleftrightarrow> (\<exists>x y. m = Some (x, y) \<and> f x y = Some z)"
  by (cases m) auto

lemma unat_mono_div: "(a :: 'a::len word) \<le> b \<Longrightarrow> unat (a div c) \<le> unat (b div c)"
  by (simp add: unat_div div_le_mono word_le_nat_alt)

lemma upt_0_2: "[0..<2] = [0, 1 :: nat]"
  by (simp add: upt_rec numeral_2_eq_2)

end
