(* ===== verification/Liveness.thy ===== *)
theory Liveness
  imports Prelude
begin

text \<open>
  The liveness table (\<^verbatim>\<open>kernel/include/liveness_tbl.h\<close>, \<^verbatim>\<open>kernel/liveness_tbl.c\<close>) and the TLB
  quiescence table (\<^verbatim>\<open>kernel/pgtbl.c\<close>, \<^verbatim>\<open>kernel/capinv.c\<close>).

  The liveness table is a static array of \<open>LTBL_ENTS\<close> epoch counters; it is the depth-one instance
  of the embedded radix trie, whose lookup asserts that the identifier is below the size of the
  array.  A read of the cycle counter (\<^verbatim>\<open>rdtscll\<close>) is an argument \<open>now\<close> of the operation.
\<close>

section \<open>The liveness table\<close>

definition LTBL_ENT_ORDER :: nat where "LTBL_ENT_ORDER = 20"

definition LTBL_ENTS :: u32 where "LTBL_ENTS = push_bit LTBL_ENT_ORDER 1"

lemma LTBL_ENTS_eq: "LTBL_ENTS = 1048576"
  by (simp add: LTBL_ENTS_def LTBL_ENT_ORDER_def push_bit_eq_mult)

record liveness_entry =
  epoch :: u64
  deact_timestamp :: u64

record liveness_data =
  ld_epoch :: u64
  ld_id :: u32

type_synonym ltbl = "u32 \<Rightarrow> liveness_entry"

text \<open>\<^verbatim>\<open>__ltbl_lkupan\<close>: the trie of depth one is the array itself.\<close>

definition ltbl_lkup :: "ltbl \<Rightarrow> u32 \<Rightarrow> liveness_entry option" where
  "ltbl_lkup t lid = do { kassert (lid < LTBL_ENTS); Some (t lid) }"

definition ltbl_isalive :: "ltbl \<Rightarrow> liveness_data \<Rightarrow> bool option" where
  "ltbl_isalive t ld = do {
     ent \<leftarrow> ltbl_lkup t (ld_id ld);
     if epoch ent \<noteq> ld_epoch ld then Some False else Some True }"

text \<open>
  The compare-and-swap on the 64-bit epoch works on its low 32 bits only (the pointer is cast to
  \<^verbatim>\<open>unsigned long *\<close>, which is 32 bits wide on i386); the high half stays as it is.
\<close>

definition lo32 :: "u64 \<Rightarrow> u32" where "lo32 v = ucast v"

definition set_lo32 :: "u64 \<Rightarrow> u32 \<Rightarrow> u64" where
  "set_lo32 v w = push_bit 32 (drop_bit 32 v) OR ucast w"

definition ltbl_expire :: "u64 \<Rightarrow> liveness_data \<Rightarrow> ltbl \<Rightarrow> (int \<times> ltbl) option" where
  "ltbl_expire now ld t = do {
     ent \<leftarrow> ltbl_lkup t (ld_id ld);
     let old_v = epoch ent;
         ent = ent\<lparr>deact_timestamp := now\<rparr>;
         (r, w) = cos_cas (lo32 (epoch ent)) (lo32 old_v) (lo32 (old_v + 1));
         t = t(ld_id ld := ent\<lparr>epoch := set_lo32 (epoch ent) w\<rparr>)
     in Some (if r = 0 then - ECASFAIL else 0, t) }"

text \<open>\<^verbatim>\<open>__ltbl_setleaf\<close>: the leaf operation of the trie instance increments the epoch.\<close>

definition ltbl_setleaf :: "u32 \<Rightarrow> ltbl \<Rightarrow> int \<times> ltbl" where
  "ltbl_setleaf lid t =
     (let old = epoch (t lid);
          new = old + 1;
          (r, w) = cos_cas (lo32 (epoch (t lid))) (lo32 old) (lo32 new);
          t = t(lid := (t lid)\<lparr>epoch := set_lo32 (epoch (t lid)) w\<rparr>)
      in (if r = 0 then - ECASFAIL else 0, t))"

definition ltbl_isfreeable :: "u64 \<Rightarrow> ltbl \<Rightarrow> liveness_data \<Rightarrow> u64 \<Rightarrow> bool option" where
  "ltbl_isfreeable now t ld quiescence_period = do {
     ent \<leftarrow> ltbl_lkup t (ld_id ld);
     if deact_timestamp ent + quiescence_period < now then Some True else Some False }"

definition ltbl_get :: "ltbl \<Rightarrow> u32 \<Rightarrow> liveness_data \<Rightarrow> (int \<times> liveness_data) option" where
  "ltbl_get t lid ld =
     (if lid \<ge> LTBL_ENTS then Some (- EINVAL, ld)
      else do {
        ent \<leftarrow> ltbl_lkup t lid;
        Some (0, ld\<lparr>ld_epoch := epoch ent, ld_id := lid\<rparr>) })"

definition ltbl_get_timestamp :: "ltbl \<Rightarrow> u32 \<Rightarrow> u64 \<Rightarrow> (int \<times> u64) option" where
  "ltbl_get_timestamp t lid ts =
     (if lid \<ge> LTBL_ENTS then Some (- EINVAL, ts)
      else do { ent \<leftarrow> ltbl_lkup t lid; Some (0, deact_timestamp ent) })"

definition ltbl_timestamp_update :: "u64 \<Rightarrow> u32 \<Rightarrow> ltbl \<Rightarrow> (int \<times> ltbl) option" where
  "ltbl_timestamp_update now lid t =
     (if lid \<ge> LTBL_ENTS then Some (- EINVAL, t)
      else do {
        ent \<leftarrow> ltbl_lkup t lid;
        Some (0, t(lid := ent\<lparr>deact_timestamp := now\<rparr>)) })"

definition ltbl_init :: "ltbl \<Rightarrow> ltbl" where
  "ltbl_init t = (\<lambda>i. if i < LTBL_ENTS then \<lparr>epoch = 0, deact_timestamp = 0\<rparr> else t i)"

section \<open>Quiescence\<close>

text \<open>\<^verbatim>\<open>QUIESCENCE_CHECK (curr, past, period)\<close>: 64-bit unsigned arithmetic.\<close>

definition QUIESCENCE_CHECK :: "u64 \<Rightarrow> u64 \<Rightarrow> u64 \<Rightarrow> bool" where
  "QUIESCENCE_CHECK now past quiescence_period \<longleftrightarrow> now - past > quiescence_period"

definition KERN_QUIESCENCE_CYCLES :: u64 where
  "KERN_QUIESCENCE_CYCLES = 500 * 4000"

record tlb_quiescence =
  last_periodic_flush :: u64
  last_mandatory_flush :: u64

type_synonym tlb_tbl = "cpuid \<Rightarrow> tlb_quiescence"

text \<open>The scan of the mandatory flush times: stops at the first core that has not flushed.\<close>

fun tlb_mandatory_scan :: "tlb_tbl \<Rightarrow> u64 \<Rightarrow> cpuid list \<Rightarrow> bool" where
  "tlb_mandatory_scan q timestamp [] = True"
| "tlb_mandatory_scan q timestamp (i # is) =
     (if timestamp > last_mandatory_flush (q i) then False
      else tlb_mandatory_scan q timestamp is)"

definition tlb_quiescence_check :: "cpuid \<Rightarrow> tlb_tbl \<Rightarrow> u64 \<Rightarrow> bool" where
  "tlb_quiescence_check cpu q timestamp =
     (if timestamp > last_periodic_flush (q cpu)
      then tlb_mandatory_scan q timestamp [0..<NUM_CPU_COS]
      else True)"

text \<open>\<^verbatim>\<open>tlb_mandatory_flush\<close> on core \<open>cpu\<close>: the flush itself is a hardware effect.\<close>

definition tlb_mandatory_flush :: "cpuid \<Rightarrow> u64 \<Rightarrow> tlb_tbl \<Rightarrow> tlb_tbl" where
  "tlb_mandatory_flush cpu t q = q(cpu := (q cpu)\<lparr>last_mandatory_flush := t\<rparr>)"

section \<open>Lemmas\<close>

lemma lo32_set_lo32 [simp]: "lo32 (set_lo32 v w) = w"
  unfolding lo32_def set_lo32_def
  by (rule bit_word_eqI) (simp add: bit_simps)

lemma set_lo32_lo32 [simp]: "set_lo32 v (lo32 v) = v"
  unfolding lo32_def set_lo32_def
  by (rule bit_word_eqI) (auto simp: bit_simps)

lemma set_lo32_set_lo32 [simp]: "set_lo32 (set_lo32 v w) w' = set_lo32 v w'"
  unfolding set_lo32_def
  by (rule bit_word_eqI) (auto simp: bit_simps dest: bit_imp_le_length)

lemma set_lo32_inj: "set_lo32 v w = set_lo32 v w' \<longleftrightarrow> w = w'"
  by (metis lo32_set_lo32)

lemma take_bit_add_wider:
  "m \<le> n \<Longrightarrow> take_bit m (take_bit n a + take_bit n (b :: int)) = take_bit m (a + b)"
  by (subst take_bit_add [symmetric]) (simp add: take_bit_take_bit take_bit_add min_absorb1)

lemma lo32_add: "lo32 (a + b) = lo32 a + lo32 b"
  unfolding lo32_def by transfer (simp add: take_bit_add_wider)

lemma lo32_one [simp]: "lo32 1 = 1"
  by (simp add: lo32_def)

lemma ltbl_lkup_Some [simp]: "ltbl_lkup t lid = Some e \<longleftrightarrow> lid < LTBL_ENTS \<and> e = t lid"
  by (auto simp: ltbl_lkup_def kassert_bind)

lemma ltbl_lkup_ok: "lid < LTBL_ENTS \<Longrightarrow> ltbl_lkup t lid = Some (t lid)"
  by simp

text \<open>One expiration, as a function of the table: the epoch's low half counts up.\<close>

lemma ltbl_expire_eq:
  assumes "ld_id ld < LTBL_ENTS"
  shows "ltbl_expire now ld t =
    Some (0, t(ld_id ld := \<lparr>epoch = set_lo32 (epoch (t (ld_id ld))) (lo32 (epoch (t (ld_id ld))) + 1),
                           deact_timestamp = now\<rparr>))"
  using assms
  by (cases "t (ld_id ld)") (simp add: ltbl_expire_def ltbl_lkup_ok lo32_add Let_def)

text \<open>A run of expirations of one entry.\<close>

fun ltbl_expire_n :: "u64 list \<Rightarrow> liveness_data \<Rightarrow> ltbl \<Rightarrow> ltbl option" where
  "ltbl_expire_n [] ld t = Some t"
| "ltbl_expire_n (now # ts) ld t = do { (_, t) \<leftarrow> ltbl_expire now ld t; ltbl_expire_n ts ld t }"

lemma ltbl_expire_n_epoch:
  assumes "ld_id ld < LTBL_ENTS"
  shows "\<exists>t'. ltbl_expire_n ts ld t = Some t' \<and>
    epoch (t' (ld_id ld)) =
      set_lo32 (epoch (t (ld_id ld))) (lo32 (epoch (t (ld_id ld))) + of_nat (length ts)) \<and>
    (\<forall>i. i \<noteq> ld_id ld \<longrightarrow> t' i = t i)"
  using assms
proof (induction ts arbitrary: t)
  case Nil
  then show ?case by simp
next
  case (Cons now ts)
  define t1 where "t1 = t(ld_id ld :=
    \<lparr>epoch = set_lo32 (epoch (t (ld_id ld))) (lo32 (epoch (t (ld_id ld))) + 1), deact_timestamp = now\<rparr>)"
  have "ltbl_expire now ld t = Some (0, t1)"
    using Cons.prems by (simp add: ltbl_expire_eq t1_def)
  moreover from Cons.IH [OF Cons.prems, of t1] obtain t' where
    "ltbl_expire_n ts ld t1 = Some t'"
    "epoch (t' (ld_id ld)) =
       set_lo32 (epoch (t1 (ld_id ld))) (lo32 (epoch (t1 (ld_id ld))) + of_nat (length ts))"
    "\<forall>i. i \<noteq> ld_id ld \<longrightarrow> t' i = t1 i"
    by blast
  ultimately show ?case
    by (simp add: t1_def algebra_simps)
qed

lemma tlb_mandatory_scan_iff:
  "tlb_mandatory_scan q ts is \<longleftrightarrow> (\<forall>i \<in> set is. ts \<le> last_mandatory_flush (q i))"
  by (induction "is") auto

lemma tlb_quiescence_check_iff:
  "tlb_quiescence_check cpu q ts \<longleftrightarrow>
     ts \<le> last_periodic_flush (q cpu) \<or> (\<forall>i < NUM_CPU_COS. ts \<le> last_mandatory_flush (q i))"
  by (auto simp: tlb_quiescence_check_def tlb_mandatory_scan_iff not_less)

lemma tlb_quiescence_check_mono:
  "tlb_quiescence_check cpu q ts \<Longrightarrow> ts' \<le> ts \<Longrightarrow> tlb_quiescence_check cpu q ts'"
  by (auto simp: tlb_quiescence_check_iff intro: order_trans)

text \<open>A mandatory flush on each core of a list, core \<open>i\<close> at time \<open>flush i\<close>.\<close>

fun tlb_flush_all :: "(cpuid \<Rightarrow> u64) \<Rightarrow> cpuid list \<Rightarrow> tlb_tbl \<Rightarrow> tlb_tbl" where
  "tlb_flush_all flush [] q = q"
| "tlb_flush_all flush (i # is) q = tlb_flush_all flush is (tlb_mandatory_flush i (flush i) q)"

lemma last_mandatory_flush_all:
  "last_mandatory_flush (tlb_flush_all flush is q i) =
     (if i \<in> set is then flush i else last_mandatory_flush (q i))"
  by (induction "is" arbitrary: q) (auto simp: tlb_mandatory_flush_def)

section \<open>Properties\<close>

text \<open>
  C32.  Revocation by epoch is sound up to the width of the counter: liveness data taken from the
  table is alive, and after \<open>n\<close> expirations of its entry it is alive exactly when \<open>n\<close> is a
  multiple of \<open>2 ^ 32\<close>.  The epoch is declared 64 bits wide, but the compare-and-swap that
  advances it works on its low 32 bits, so the counter repeats after \<open>2 ^ 32\<close> steps.
\<close>

theorem ltbl_expire_revokes:
  assumes "ltbl_get t lid ld0 = Some (0, ld)"
  shows "ltbl_isalive t ld = Some True \<and>
    (\<exists>t'. ltbl_expire_n ts ld t = Some t' \<and>
          ltbl_isalive t' ld = Some (2 ^ 32 dvd length ts) \<and>
          (\<forall>i. i \<noteq> lid \<longrightarrow> t' i = t i))"
proof -
  from assms have lid: "lid < LTBL_ENTS"
    and ld: "ld_id ld = lid" "ld_epoch ld = epoch (t lid)"
    by (auto simp: ltbl_get_def ltbl_lkup_ok split: if_splits)
  from ltbl_expire_n_epoch [of ld ts t] lid ld obtain t' where t':
    "ltbl_expire_n ts ld t = Some t'"
    "epoch (t' lid) = set_lo32 (epoch (t lid)) (lo32 (epoch (t lid)) + of_nat (length ts))"
    "\<forall>i. i \<noteq> lid \<longrightarrow> t' i = t i"
    by auto
  have "epoch (t' lid) = epoch (t lid) \<longleftrightarrow> (of_nat (length ts) :: u32) = 0"
    using set_lo32_inj [of "epoch (t lid)" _ "lo32 (epoch (t lid))"] by (simp add: t'(2))
  then have "ltbl_isalive t' ld = Some (2 ^ 32 dvd length ts)"
    using lid by (simp add: ltbl_isalive_def ltbl_lkup_ok ld word_of_nat_eq_0_iff)
  moreover have "ltbl_isalive t ld = Some True"
    using lid by (simp add: ltbl_isalive_def ltbl_lkup_ok ld)
  ultimately show ?thesis using t' by blast
qed

theorem ltbl_expire_revokes_witness:
  "\<exists>t'. ltbl_expire_n [10, 20] \<lparr>ld_epoch = 7, ld_id = 5\<rparr> (\<lambda>_. \<lparr>epoch = 7, deact_timestamp = 0\<rparr>) = Some t' \<and>
     ltbl_isalive t' \<lparr>ld_epoch = 7, ld_id = 5\<rparr> = Some False"
proof -
  have "\<not> (2 :: nat) ^ 32 dvd length [10 :: u64, 20]"
    by (intro nat_dvd_not_less) simp_all
  then show ?thesis
    using ltbl_expire_revokes [of "\<lambda>_. \<lparr>epoch = 7, deact_timestamp = 0\<rparr>" 5
        "\<lparr>ld_epoch = 0, ld_id = 0\<rparr>" "\<lparr>ld_epoch = 7, ld_id = 5\<rparr>" "[10, 20]"]
    by (simp add: ltbl_get_def ltbl_lkup_ok LTBL_ENTS_eq del: ltbl_expire_n.simps) blast
qed

text \<open>
  The TLB quiescence check answers yes exactly when the timestamp lies at or before the last
  periodic flush seen by the calling core, or at or before the last mandatory flush of every core
  that runs the kernel; so it is monotone in the timestamp, and after every such core has done a
  mandatory flush it holds for every timestamp no later than the earliest of those flushes.
\<close>

theorem tlb_quiescence_after_flush:
  assumes "\<forall>i < NUM_CPU_COS. ts \<le> flush i"
  shows "tlb_quiescence_check cpu (tlb_flush_all flush [0..<NUM_CPU_COS] q) ts"
  using assms by (simp add: tlb_quiescence_check_iff last_mandatory_flush_all)

theorem tlb_quiescence_after_flush_witness:
  "tlb_quiescence_check 2
     (tlb_flush_all (\<lambda>i. if even i then 100 else 120) [0..<NUM_CPU_COS]
       (\<lambda>_. \<lparr>last_periodic_flush = 0, last_mandatory_flush = 0\<rparr>)) 100"
  by (rule tlb_quiescence_after_flush) simp

end
