(* ===== verification/Retype_Table.thy ===== *)
theory Retype_Table
  imports Liveness
begin

text \<open>
  The retype table (\<^verbatim>\<open>kernel/retype_tbl.c\<close>, \<^verbatim>\<open>kernel/include/retype_tbl.h\<close>): every memory set
  (one page here) has a type, and every core keeps its own count of the references it has taken
  to the set.  A frame may leave the types user and kernel only when the counts of all cores sum
  to zero and the TLBs are quiescent.

  \<open>kpa\<close> stands for the platform variable \<^verbatim>\<open>chal_kernel_mem_pa\<close>, \<open>cpu\<close> for \<^verbatim>\<open>get_cpuid ()\<close> and
  \<open>now\<close> for a read of the cycle counter.
\<close>

section \<open>Data\<close>

datatype mem_type = RETYPETBL_UNTYPED | RETYPETBL_USER | RETYPETBL_KERN | RETYPETBL_RETYPING

fun mem_type_code :: "mem_type \<Rightarrow> 4 word" where
  "mem_type_code RETYPETBL_UNTYPED = 0"
| "mem_type_code RETYPETBL_USER = 1"
| "mem_type_code RETYPETBL_KERN = 2"
| "mem_type_code RETYPETBL_RETYPING = 3"

definition RETYPE_ENT_TYPE_SZ :: nat where "RETYPE_ENT_TYPE_SZ = 4"
definition RETYPE_ENT_REFCNT_SZ :: nat where
  "RETYPE_ENT_REFCNT_SZ = 4 * 8 - RETYPE_ENT_TYPE_SZ"
definition RETYPE_REFCNT_MAX :: int where
  "RETYPE_REFCNT_MAX = 2 ^ RETYPE_ENT_REFCNT_SZ - 1"

lemma RETYPE_REFCNT_MAX_eq: "RETYPE_REFCNT_MAX = 2 ^ 28 - 1"
  by (simp add: RETYPE_REFCNT_MAX_def RETYPE_ENT_REFCNT_SZ_def RETYPE_ENT_TYPE_SZ_def)

text \<open>
  The union \<^verbatim>\<open>refcnt_atom\<close>: a 4-bit type and a signed 28-bit count, overlaid with one 32-bit word
  that is the unit of the compare-and-swap.
\<close>

record refcnt_atom =
  ra_type :: mem_type
  ra_cnt :: "28 word"

definition atom_v :: "refcnt_atom \<Rightarrow> u32" where
  "atom_v a = push_bit 4 (ucast (ra_cnt a)) OR ucast (mem_type_code (ra_type a))"

definition ref_cnt :: "refcnt_atom \<Rightarrow> int" where
  "ref_cnt a = sint (ra_cnt a)"

record retype_entry =
  re_atom :: refcnt_atom
  last_unmap :: u64

record retype_state =
  retype_tbl :: "cpuid \<Rightarrow> nat \<Rightarrow> retype_entry"
  glb_retype_tbl :: "nat \<Rightarrow> mem_type"

section \<open>Address arithmetic\<close>

definition COS_MEM_KERN_PA :: u32 where "COS_MEM_KERN_PA = 0x00100000"
definition COS_MEM_KERN_PA_SZ :: u32 where
  "COS_MEM_KERN_PA_SZ = push_bit 29 1 - push_bit 26 1"
definition COS_MEM_START :: u32 where "COS_MEM_START = COS_MEM_KERN_PA"
definition COS_MAX_MEMORY :: u32 where "COS_MAX_MEMORY = COS_MEM_KERN_PA_SZ div PAGE_SIZE"
definition COS_KERNEL_MEMORY :: u32 where "COS_KERNEL_MEMORY = COS_MEM_KERN_PA_SZ div PAGE_SIZE"
definition COS_MEM_BOUND :: u32 where
  "COS_MEM_BOUND = COS_MEM_KERN_PA + COS_MAX_MEMORY * PAGE_SIZE"
definition RETYPE_MEM_NPAGES :: u32 where "RETYPE_MEM_NPAGES = 1"
definition RETYPE_MEM_SIZE :: u32 where "RETYPE_MEM_SIZE = RETYPE_MEM_NPAGES * PAGE_SIZE"
definition N_USER_MEM_SETS :: u32 where
  "N_USER_MEM_SETS = COS_MAX_MEMORY div RETYPE_MEM_NPAGES + 1"
definition N_KERN_MEM_SETS :: u32 where
  "N_KERN_MEM_SETS = COS_KERNEL_MEMORY div RETYPE_MEM_NPAGES + 1"
definition N_MEM_SETS :: nat where "N_MEM_SETS = unat (N_USER_MEM_SETS + N_KERN_MEM_SETS)"

definition COS_KMEM_BOUND :: "u32 \<Rightarrow> u32" where
  "COS_KMEM_BOUND kpa = kpa + PAGE_SIZE * COS_KERNEL_MEMORY"

text \<open>\<^verbatim>\<open>PA_BOUNDARY_CHECK\<close>: the address lies in user memory or in kernel memory.\<close>

definition pa_in_bounds :: "u32 \<Rightarrow> u32 \<Rightarrow> bool" where
  "pa_in_bounds kpa pa \<longleftrightarrow>
     (pa \<ge> COS_MEM_START \<and> pa < COS_MEM_BOUND) \<or> (pa \<ge> kpa \<and> pa < COS_KMEM_BOUND kpa)"

definition GET_MEM_IDX :: "u32 \<Rightarrow> u32 \<Rightarrow> nat" where
  "GET_MEM_IDX kpa pa =
     unat (if pa \<ge> COS_MEM_START then (pa - COS_MEM_START) div RETYPE_MEM_SIZE
           else (pa - kpa) div RETYPE_MEM_SIZE + N_USER_MEM_SETS)"

section \<open>Operations\<close>

definition set_entry :: "cpuid \<Rightarrow> nat \<Rightarrow> retype_entry \<Rightarrow> retype_state \<Rightarrow> retype_state" where
  "set_entry cpu idx e s =
     s\<lparr>retype_tbl := (retype_tbl s)(cpu := (retype_tbl s cpu)(idx := e))\<rparr>"

definition set_glb :: "nat \<Rightarrow> mem_type \<Rightarrow> retype_state \<Rightarrow> retype_state" where
  "set_glb idx t s = s\<lparr>glb_retype_tbl := (glb_retype_tbl s)(idx := t)\<rparr>"

text \<open>\<^verbatim>\<open>retypetbl_cas\<close> on the per-core word: the words are compared, not the fields.\<close>

definition atom_cas :: "cpuid \<Rightarrow> nat \<Rightarrow> u32 \<Rightarrow> refcnt_atom \<Rightarrow> retype_state \<Rightarrow> int \<times> retype_state" where
  "atom_cas cpu idx old_v new s =
     (let e = retype_tbl s cpu idx
      in if atom_v (re_atom e) = old_v then (CAS_SUCCESS, set_entry cpu idx (e\<lparr>re_atom := new\<rparr>) s)
         else (0, s))"

definition glb_cas :: "nat \<Rightarrow> mem_type \<Rightarrow> mem_type \<Rightarrow> retype_state \<Rightarrow> int \<times> retype_state" where
  "glb_cas idx old new s =
     (let (r, t) = cos_cas (glb_retype_tbl s idx) old new in (r, set_glb idx t s))"

definition mod_ref_cnt ::
  "u32 \<Rightarrow> cpuid \<Rightarrow> u64 \<Rightarrow> u32 \<Rightarrow> bool \<Rightarrow> mem_type option \<Rightarrow> (retype_state, int) kop" where
  "mod_ref_cnt kpa cpu now pa op type_check s =
     (if pa \<ge> COS_MEM_BOUND then Some (0, s)
      else if \<not> pa_in_bounds kpa pa then Some (- EINVAL, s)
      else do {
        let idx = GET_MEM_IDX kpa pa;
        kassert (idx < N_MEM_SETS);
        let local_u = re_atom (retype_tbl s cpu idx);
        let old_v = atom_v local_u;
        if ra_type local_u \<noteq> RETYPETBL_USER \<and> ra_type local_u \<noteq> RETYPETBL_KERN then Some (- EPERM, s)
        else if type_check \<noteq> None \<and> the type_check \<noteq> ra_type local_u then Some (- EPERM, s)
        else if ref_cnt local_u = RETYPE_REFCNT_MAX then Some (- EOVERFLOW, s)
        else do {
          let (local_u, s) =
            (if op then (local_u\<lparr>ra_cnt := ra_cnt local_u + 1\<rparr>, s)
             else (local_u\<lparr>ra_cnt := ra_cnt local_u - 1\<rparr>,
                   set_entry cpu idx ((retype_tbl s cpu idx)\<lparr>last_unmap := now\<rparr>) s));
          let (r, s) = atom_cas cpu idx old_v local_u s;
          if r \<noteq> CAS_SUCCESS then Some (- ECASFAIL, s) else Some (0, s)
        }
      })"

definition retypetbl_kern_ref :: "u32 \<Rightarrow> cpuid \<Rightarrow> u64 \<Rightarrow> u32 \<Rightarrow> (retype_state, int) kop" where
  "retypetbl_kern_ref kpa cpu now pa = mod_ref_cnt kpa cpu now pa True (Some RETYPETBL_KERN)"

definition retypetbl_ref :: "u32 \<Rightarrow> cpuid \<Rightarrow> u64 \<Rightarrow> u32 \<Rightarrow> (retype_state, int) kop" where
  "retypetbl_ref kpa cpu now pa = mod_ref_cnt kpa cpu now pa True None"

definition retypetbl_deref :: "u32 \<Rightarrow> cpuid \<Rightarrow> u64 \<Rightarrow> u32 \<Rightarrow> (retype_state, int) kop" where
  "retypetbl_deref kpa cpu now pa = mod_ref_cnt kpa cpu now pa False None"

text \<open>The loop that writes the new type into the per-core entries.\<close>

fun set_cpu_types :: "mem_type \<Rightarrow> nat \<Rightarrow> cpuid list \<Rightarrow> retype_state \<Rightarrow> retype_state" where
  "set_cpu_types t idx [] s = s"
| "set_cpu_types t idx (i # is) s =
     (let e = retype_tbl s i idx
      in set_cpu_types t idx is (set_entry i idx (e\<lparr>re_atom := (re_atom e)\<lparr>ra_type := t\<rparr>\<rparr>) s))"

definition mod_mem_type :: "u32 \<Rightarrow> u32 \<Rightarrow> mem_type \<Rightarrow> (retype_state, int) kop" where
  "mod_mem_type kpa pa type s = do {
     kassert (pa \<noteq> 0);
     if pa \<ge> COS_MEM_BOUND then Some (0, s)
     else if \<not> pa_in_bounds kpa pa then Some (- EINVAL, s)
     else do {
       let idx = GET_MEM_IDX kpa pa;
       kassert (idx < N_MEM_SETS);
       let old_type = glb_retype_tbl s idx;
       if old_type \<noteq> RETYPETBL_UNTYPED
       then (if old_type = type then Some (- EEXIST, s) else Some (- EPERM, s))
       else if type = RETYPETBL_KERN \<and> chal_pa2va pa = 0 then Some (- EINVAL, s)
       else do {
         let (r, s) = glb_cas idx RETYPETBL_UNTYPED RETYPETBL_RETYPING s;
         if r \<noteq> CAS_SUCCESS then Some (- ECASFAIL, s)
         else do {
           let s = set_cpu_types type idx [0..<NUM_CPU] s;
           let (r, s) = glb_cas idx RETYPETBL_RETYPING type s;
           kassert (r = CAS_SUCCESS);
           Some (0, s)
         }
       }
     }
   }"

definition retypetbl_retype2user :: "u32 \<Rightarrow> u32 \<Rightarrow> (retype_state, int) kop" where
  "retypetbl_retype2user kpa pa = mod_mem_type kpa pa RETYPETBL_USER"

definition retypetbl_retype2kern :: "u32 \<Rightarrow> u32 \<Rightarrow> (retype_state, int) kop" where
  "retypetbl_retype2kern kpa pa = mod_mem_type kpa pa RETYPETBL_KERN"

text \<open>
  The first loop of \<^verbatim>\<open>retypetbl_retype2frame\<close>: lock every per-core entry, summing the counts and
  taking the latest unmap time.  The result holds the core at which a compare-and-swap failed, if
  one did.
\<close>

fun lock_cpus ::
  "mem_type \<Rightarrow> nat \<Rightarrow> cpuid list \<Rightarrow> int \<Rightarrow> u64 \<Rightarrow> (retype_state, cpuid option \<times> int \<times> u64) kop" where
  "lock_cpus old_type idx [] ref_sum lu s = Some ((None, ref_sum, lu), s)"
| "lock_cpus old_type idx (cpu # cpus) ref_sum lu s = do {
     let local_u = re_atom (retype_tbl s cpu idx);
     let old_v = atom_v local_u;
     kassert (ra_type local_u = old_type \<or> ra_type local_u = RETYPETBL_RETYPING);
     let local_u = local_u\<lparr>ra_type := RETYPETBL_RETYPING\<rparr>;
     let (r, s) = atom_cas cpu idx old_v local_u s;
     if r \<noteq> CAS_SUCCESS then Some ((Some cpu, ref_sum, lu), s)
     else do {
       let u = last_unmap (retype_tbl s cpu idx);
       lock_cpus old_type idx cpus (ref_sum + ref_cnt local_u) (if lu < u then u else lu) s
     }
   }"

text \<open>The commit loop: the counts are cleared and the entries become untyped.\<close>

fun commit_cpus :: "nat \<Rightarrow> cpuid list \<Rightarrow> retype_state \<Rightarrow> retype_state" where
  "commit_cpus idx [] s = s"
| "commit_cpus idx (cpu # cpus) s =
     (let e = retype_tbl s cpu idx
      in commit_cpus idx cpus
           (set_entry cpu idx (e\<lparr>re_atom := \<lparr>ra_type = RETYPETBL_UNTYPED, ra_cnt = 0\<rparr>\<rparr>) s))"

text \<open>The restore loop of the error path, from the failed core downwards.\<close>

fun restore_cpus :: "mem_type \<Rightarrow> nat \<Rightarrow> cpuid list \<Rightarrow> retype_state \<Rightarrow> retype_state" where
  "restore_cpus old_type idx [] s = s"
| "restore_cpus old_type idx (cpu # cpus) s =
     (let local_u = re_atom (retype_tbl s cpu idx);
          (r, s) = atom_cas cpu idx (atom_v local_u) (local_u\<lparr>ra_type := old_type\<rparr>) s
      in restore_cpus old_type idx cpus s)"

definition restore_all :: "mem_type \<Rightarrow> nat \<Rightarrow> cpuid \<Rightarrow> int \<Rightarrow> (retype_state, int) kop" where
  "restore_all old_type idx cpu ret s = do {
     let s = restore_cpus old_type idx (rev [0..<cpu]) s;
     let (r, s) = glb_cas idx RETYPETBL_RETYPING old_type s;
     kassert (r = CAS_SUCCESS);
     Some (ret, s)
   }"

definition retypetbl_retype2frame ::
  "u32 \<Rightarrow> cpuid \<Rightarrow> tlb_tbl \<Rightarrow> u32 \<Rightarrow> (retype_state, int) kop" where
  "retypetbl_retype2frame kpa cpu q pa s =
     (if \<not> pa_in_bounds kpa pa then Some (- EINVAL, s)
      else do {
        let idx = GET_MEM_IDX kpa pa;
        kassert (idx < N_MEM_SETS);
        let old_type = glb_retype_tbl s idx;
        if old_type \<noteq> RETYPETBL_USER \<and> old_type \<noteq> RETYPETBL_KERN then Some (- EPERM, s)
        else do {
          let (r, s) = glb_cas idx old_type RETYPETBL_RETYPING s;
          if r \<noteq> CAS_SUCCESS then Some (r, s)
          else do {
            ((failed, ref_sum, lu), s) \<leftarrow> lock_cpus old_type idx [0..<NUM_CPU] 0 0 s;
            (case failed of
               Some c \<Rightarrow> restore_all old_type idx c (- ECASFAIL) s
             | None \<Rightarrow>
                 if ref_sum \<noteq> 0 then restore_all old_type idx NUM_CPU (- EINVAL) s
                 else if \<not> tlb_quiescence_check cpu q lu
                 then restore_all old_type idx NUM_CPU (- EQUIESCENCE) s
                 else do {
                   let s = commit_cpus idx [0..<NUM_CPU] s;
                   let (r, s) = glb_cas idx RETYPETBL_RETYPING RETYPETBL_UNTYPED s;
                   kassert (r = CAS_SUCCESS);
                   Some (0, s)
                 })
          }
        }
      })"

definition retype_tbl_init :: "retype_state \<Rightarrow> retype_state" where
  "retype_tbl_init s =
     \<lparr>retype_tbl = (\<lambda>i j. if i < NUM_CPU \<and> j < N_MEM_SETS
        then \<lparr>re_atom = \<lparr>ra_type = RETYPETBL_UNTYPED, ra_cnt = 0\<rparr>, last_unmap = 0\<rparr>
        else retype_tbl s i j),
      glb_retype_tbl = (\<lambda>i. if i < N_MEM_SETS then RETYPETBL_UNTYPED else glb_retype_tbl s i)\<rparr>"

section \<open>The packed word\<close>

lemma mem_type_code_inj [simp]: "mem_type_code a = mem_type_code b \<longleftrightarrow> a = b"
  by (cases a; cases b) simp_all

lemma atom_v_cnt: "ucast (drop_bit 4 (atom_v a)) = ra_cnt a"
  unfolding atom_v_def
  by (rule bit_word_eqI) (auto simp: bit_simps dest: bit_imp_le_length)

lemma atom_v_type: "ucast (atom_v a) = mem_type_code (ra_type a)"
  unfolding atom_v_def
  by (rule bit_word_eqI) (auto simp: bit_simps dest: bit_imp_le_length)

lemma atom_v_inj [simp]: "atom_v a = atom_v b \<longleftrightarrow> a = b"
proof
  assume "atom_v a = atom_v b"
  then have "ra_cnt a = ra_cnt b" and "mem_type_code (ra_type a) = mem_type_code (ra_type b)"
    by (metis atom_v_cnt, metis atom_v_type)
  then show "a = b" by simp
qed simp

lemma ref_cnt_range: "- (2 ^ 27) \<le> ref_cnt a" "ref_cnt a < 2 ^ 27"
  using sint_ge [of "ra_cnt a"] sint_lt [of "ra_cnt a"] by (simp_all add: ref_cnt_def)

text \<open>The overflow guard compares a signed 28-bit field with \<open>2 ^ 28 - 1\<close>, which it never reaches.\<close>

lemma ref_cnt_not_max [simp]: "ref_cnt a \<noteq> RETYPE_REFCNT_MAX"
  using ref_cnt_range(2) [of a] by (simp add: RETYPE_REFCNT_MAX_eq)

lemma ref_cnt_update_type [simp]: "ref_cnt (a\<lparr>ra_type := t\<rparr>) = ref_cnt a"
  by (simp add: ref_cnt_def)

section \<open>Index arithmetic\<close>

lemmas mem_layout_defs =
  COS_MEM_KERN_PA_def COS_MEM_KERN_PA_SZ_def COS_MEM_START_def COS_MAX_MEMORY_def
  COS_KERNEL_MEMORY_def COS_MEM_BOUND_def RETYPE_MEM_NPAGES_def RETYPE_MEM_SIZE_def
  N_USER_MEM_SETS_def N_KERN_MEM_SETS_def

lemma mem_layout:
  "COS_MEM_START = 0x00100000" "COS_MEM_BOUND = 0x1C100000" "RETYPE_MEM_SIZE = 4096"
  "N_USER_MEM_SETS = 114689" "COS_KERNEL_MEMORY = 114688" "N_MEM_SETS = 229378"
  by (simp_all add: mem_layout_defs N_MEM_SETS_def push_bit_eq_mult)

lemma unat_div_4096: "unat ((x :: u32) div 4096) = unat x div 4096"
  by (simp add: unat_div)

lemma GET_MEM_IDX_user:
  assumes "pa \<ge> COS_MEM_START"
  shows "GET_MEM_IDX kpa pa = (unat pa - 0x100000) div 4096"
  using assms by (simp add: GET_MEM_IDX_def mem_layout unat_div_4096 unat_sub)

lemma GET_MEM_IDX_kern:
  assumes "pa < COS_MEM_START" "kpa \<le> pa"
  shows "GET_MEM_IDX kpa pa = (unat pa - unat kpa) div 4096 + 114689"
proof -
  have "unat pa < 0x100000" using assms(1) by (simp add: mem_layout word_less_nat_alt)
  moreover have "unat (pa - kpa) = unat pa - unat kpa" using assms(2) by (rule unat_sub)
  ultimately have "unat ((pa - kpa) div 4096) + 114689 < 2 ^ 32"
    by (simp add: unat_div_4096)
  then have "unat ((pa - kpa) div 4096 + 114689) = unat ((pa - kpa) div 4096) + 114689"
    by (simp add: unat_word_ariths)
  then show ?thesis
    using assms \<open>unat (pa - kpa) = _\<close> by (simp add: GET_MEM_IDX_def mem_layout unat_div_4096 not_le)
qed

lemma pa_in_bounds_below_start:
  "pa_in_bounds kpa pa \<Longrightarrow> pa < COS_MEM_START \<Longrightarrow> kpa \<le> pa"
  by (auto simp: pa_in_bounds_def)

text \<open>
  The index is always inside the table for an address below \<open>COS_MEM_BOUND\<close>, and for every checked
  address when kernel memory starts at or below \<open>COS_MEM_BOUND\<close>.
\<close>

lemma GET_MEM_IDX_bound:
  assumes "pa_in_bounds kpa pa" and "pa < COS_MEM_BOUND \<or> kpa \<le> COS_MEM_BOUND"
  shows "GET_MEM_IDX kpa pa < N_MEM_SETS"
proof (cases "pa \<ge> COS_MEM_START")
  case True
  have "unat pa < 0x38102000"
  proof (cases "pa < COS_MEM_BOUND")
    case True
    then show ?thesis by (simp add: mem_layout word_less_nat_alt)
  next
    case False
    with assms have k: "unat kpa \<le> 0x1C100000" and "pa < COS_KMEM_BOUND kpa"
      by (auto simp: pa_in_bounds_def mem_layout word_le_nat_alt)
    then have "unat pa < unat (kpa + 0x1C000000)"
      by (simp add: COS_KMEM_BOUND_def mem_layout word_less_nat_alt)
    also have "\<dots> \<le> 0x38100000" using k by (simp add: unat_word_ariths)
    finally show ?thesis by simp
  qed
  then show ?thesis using True by (simp add: GET_MEM_IDX_user mem_layout)
next
  case False
  then have lt: "pa < COS_MEM_START" by simp
  then have "unat pa < 0x100000" by (simp add: mem_layout word_less_nat_alt)
  with lt assms(1) show ?thesis
    by (simp add: GET_MEM_IDX_kern pa_in_bounds_below_start mem_layout)
qed

section \<open>Reading and writing the table\<close>

lemma retype_tbl_set_entry [simp]:
  "retype_tbl (set_entry cpu idx e s) c i = (if c = cpu \<and> i = idx then e else retype_tbl s c i)"
  by (simp add: set_entry_def)

lemma glb_set_entry [simp]: "glb_retype_tbl (set_entry cpu idx e s) = glb_retype_tbl s"
  by (simp add: set_entry_def)

lemma retype_tbl_set_glb [simp]: "retype_tbl (set_glb idx t s) = retype_tbl s"
  by (simp add: set_glb_def)

lemma glb_set_glb [simp]: "glb_retype_tbl (set_glb idx t s) i = (if i = idx then t else glb_retype_tbl s i)"
  by (simp add: set_glb_def)

lemma set_glb_same [simp]: "glb_retype_tbl s idx = t \<Longrightarrow> set_glb idx t s = s"
  by (auto simp: set_glb_def)

lemma set_glb_twice [simp]: "set_glb idx t (set_glb idx t' s) = set_glb idx t s"
  by (simp add: set_glb_def)

lemma retype_state_eqI:
  "\<lbrakk>\<And>c i. retype_tbl s c i = retype_tbl s' c i; \<And>i. glb_retype_tbl s i = glb_retype_tbl s' i\<rbrakk>
   \<Longrightarrow> s = (s' :: retype_state)"
  by (cases s; cases s') (simp add: fun_eq_iff)

lemma atom_cas_current [simp]:
  "atom_cas cpu idx (atom_v (re_atom (retype_tbl s cpu idx))) new s =
     (CAS_SUCCESS, set_entry cpu idx ((retype_tbl s cpu idx)\<lparr>re_atom := new\<rparr>) s)"
  by (simp add: atom_cas_def)

lemma glb_cas_current: "glb_cas idx (glb_retype_tbl s idx) new s = (CAS_SUCCESS, set_glb idx new s)"
  by (simp add: glb_cas_def)

lemma glb_cas_eq [simp]: "glb_retype_tbl s idx = old \<Longrightarrow> glb_cas idx old new s = (CAS_SUCCESS, set_glb idx new s)"
  using glb_cas_current by metis

lemma glb_set_cpu_types [simp]: "glb_retype_tbl (set_cpu_types t idx is s) = glb_retype_tbl s"
  by (induction "is" arbitrary: s) (simp_all add: Let_def)

lemma retype_tbl_set_cpu_types [simp]:
  "retype_tbl (set_cpu_types t idx is s) c i =
     (if c \<in> set is \<and> i = idx
      then (retype_tbl s c i)\<lparr>re_atom := (re_atom (retype_tbl s c i))\<lparr>ra_type := t\<rparr>\<rparr>
      else retype_tbl s c i)"
  by (induction "is" arbitrary: s) (auto simp: Let_def)

lemma retype_tbl_commit_cpus [simp]:
  "retype_tbl (commit_cpus idx is s) c i =
     (if c \<in> set is \<and> i = idx
      then (retype_tbl s c i)\<lparr>re_atom := \<lparr>ra_type = RETYPETBL_UNTYPED, ra_cnt = 0\<rparr>\<rparr>
      else retype_tbl s c i)"
  by (induction "is" arbitrary: s) (auto simp: Let_def)

lemma glb_commit_cpus [simp]: "glb_retype_tbl (commit_cpus idx is s) = glb_retype_tbl s"
  by (induction "is" arbitrary: s) (simp_all add: Let_def)

lemma restore_cpus_eq: "restore_cpus t idx is s = set_cpu_types t idx is s"
  by (induction "is" arbitrary: s) (simp_all add: Let_def)

text \<open>Total count and latest unmap of a memory set over a list of cores.\<close>

definition refs_on :: "retype_state \<Rightarrow> nat \<Rightarrow> cpuid list \<Rightarrow> int" where
  "refs_on s idx cpus = (\<Sum>c\<leftarrow>cpus. ref_cnt (re_atom (retype_tbl s c idx)))"

fun unmap_on :: "retype_state \<Rightarrow> nat \<Rightarrow> cpuid list \<Rightarrow> u64 \<Rightarrow> u64" where
  "unmap_on s idx [] lu = lu"
| "unmap_on s idx (c # cs) lu =
     (let u = last_unmap (retype_tbl s c idx) in unmap_on s idx cs (if lu < u then u else lu))"

lemma unmap_on_cong:
  "\<forall>c \<in> set cs. last_unmap (retype_tbl s c idx) = last_unmap (retype_tbl s' c idx) \<Longrightarrow>
   unmap_on s idx cs lu = unmap_on s' idx cs lu"
  by (induction cs arbitrary: lu) (simp_all add: Let_def)

lemma unmap_on_ge: "lu \<le> unmap_on s idx cs lu"
  and unmap_on_ge_elem: "c \<in> set cs \<Longrightarrow> last_unmap (retype_tbl s c idx) \<le> unmap_on s idx cs lu"
proof (induction cs arbitrary: lu)
  case (Cons d ds)
  {
    case 1
    show ?case using Cons.IH(1) [of "if lu < last_unmap (retype_tbl s d idx) then last_unmap (retype_tbl s d idx) else lu"]
      by (auto simp: Let_def split: if_splits)
  next
    case 2
    then show ?case
      using Cons.IH(1) [of "if lu < last_unmap (retype_tbl s d idx) then last_unmap (retype_tbl s d idx) else lu"] Cons.IH(2)
      by (auto simp: Let_def split: if_splits)
  }
qed simp_all

lemma lock_cpus_eq:
  assumes "distinct cpus"
    and "\<forall>c \<in> set cpus. ra_type (re_atom (retype_tbl s c idx)) = old_type"
  shows "lock_cpus old_type idx cpus n lu s =
    Some ((None, n + refs_on s idx cpus, unmap_on s idx cpus lu),
          set_cpu_types RETYPETBL_RETYPING idx cpus s)"
  using assms
proof (induction cpus arbitrary: n lu s)
  case Nil
  then show ?case by (simp add: refs_on_def)
next
  case (Cons c cs)
  define e where "e = retype_tbl s c idx"
  define s1 where "s1 = set_entry c idx (e\<lparr>re_atom := (re_atom e)\<lparr>ra_type := RETYPETBL_RETYPING\<rparr>\<rparr>) s"
  have keep: "\<forall>d \<in> set cs. retype_tbl s1 d idx = retype_tbl s d idx"
    using Cons.prems(1) by (auto simp: s1_def)
  then have refs: "refs_on s1 idx cs = refs_on s idx cs"
    unfolding refs_on_def by (intro arg_cong [where f = sum_list] map_cong) auto
  have unm: "unmap_on s1 idx cs l = unmap_on s idx cs l" for l
    using keep by (intro unmap_on_cong) auto
  have "lock_cpus old_type idx cs n' lu' s1 =
      Some ((None, n' + refs_on s idx cs, unmap_on s idx cs lu'),
            set_cpu_types RETYPETBL_RETYPING idx cs s1)" for n' lu'
    using Cons.IH [of s1 n' lu'] Cons.prems keep by (simp add: refs unm)
  then show ?case
    using Cons.prems(2) unfolding s1_def e_def by (simp add: Let_def kassert_bind refs_on_def)
qed

section \<open>Reference counting\<close>

definition typed_mem :: "mem_type \<Rightarrow> bool" where
  "typed_mem t \<longleftrightarrow> t = RETYPETBL_USER \<or> t = RETYPETBL_KERN"

definition bump :: "bool \<Rightarrow> u64 \<Rightarrow> retype_entry \<Rightarrow> retype_entry" where
  "bump op now e =
     (if op then e\<lparr>re_atom := (re_atom e)\<lparr>ra_cnt := ra_cnt (re_atom e) + 1\<rparr>\<rparr>
      else e\<lparr>last_unmap := now, re_atom := (re_atom e)\<lparr>ra_cnt := ra_cnt (re_atom e) - 1\<rparr>\<rparr>)"

lemma bump_fields [simp]:
  "ra_type (re_atom (bump op now e)) = ra_type (re_atom e)"
  "ra_cnt (re_atom (bump op now e)) = (if op then ra_cnt (re_atom e) + 1 else ra_cnt (re_atom e) - 1)"
  by (simp_all add: bump_def)

lemma set_entry_set_entry [simp]: "set_entry c i e (set_entry c i e' s) = set_entry c i e s"
  by (simp add: set_entry_def)

text \<open>Every outcome of \<^verbatim>\<open>mod_ref_cnt\<close>; in particular its assertion never fires.\<close>

lemma mod_ref_cnt_eq:
  "mod_ref_cnt kpa cpu now pa op tc s =
     Some (if pa \<ge> COS_MEM_BOUND then (0, s)
           else if \<not> pa_in_bounds kpa pa then (- EINVAL, s)
           else let idx = GET_MEM_IDX kpa pa; e = retype_tbl s cpu idx
                in if \<not> typed_mem (ra_type (re_atom e)) \<or> (tc \<noteq> None \<and> tc \<noteq> Some (ra_type (re_atom e)))
                   then (- EPERM, s) else (0, set_entry cpu idx (bump op now e) s))"
proof (cases "pa \<ge> COS_MEM_BOUND \<or> \<not> pa_in_bounds kpa pa")
  case True
  then show ?thesis by (auto simp: mod_ref_cnt_def)
next
  case False
  then have "GET_MEM_IDX kpa pa < N_MEM_SETS"
    by (intro GET_MEM_IDX_bound) auto
  with False show ?thesis
    by (auto simp: mod_ref_cnt_def kassert_bind Let_def typed_mem_def bump_def atom_cas_def)
qed

section \<open>The invariant\<close>

text \<open>
  Between operations no memory set is being retyped, every core's entry carries the global type,
  and an untyped set has no references recorded on any core.
\<close>

definition rt_inv :: "retype_state \<Rightarrow> bool" where
  "rt_inv s \<longleftrightarrow> (\<forall>idx < N_MEM_SETS. glb_retype_tbl s idx \<noteq> RETYPETBL_RETYPING \<and>
     (\<forall>c < NUM_CPU. ra_type (re_atom (retype_tbl s c idx)) = glb_retype_tbl s idx \<and>
        (glb_retype_tbl s idx = RETYPETBL_UNTYPED \<longrightarrow> ra_cnt (re_atom (retype_tbl s c idx)) = 0)))"

text \<open>The references to a memory set, over all cores: in the ring of 28-bit words.\<close>

definition total_refs :: "retype_state \<Rightarrow> nat \<Rightarrow> 28 word" where
  "total_refs s idx = (\<Sum>c<NUM_CPU. ra_cnt (re_atom (retype_tbl s c idx)))"

lemma sum_list_upt_lessThan: "(\<Sum>c\<leftarrow>[0..<n]. f c) = (\<Sum>c<n. f c :: 'a::comm_monoid_add)"
  by (simp add: interv_sum_list_conv_sum_set_nat atLeast0LessThan)

lemma refs_on_total: "of_int (refs_on s idx [0..<NUM_CPU]) = total_refs s idx"
  by (simp add: refs_on_def total_refs_def sum_list_upt_lessThan ref_cnt_def)

lemma refs_on_bounds:
  "- (2 ^ 31) \<le> refs_on s idx [0..<NUM_CPU] \<and> refs_on s idx [0..<NUM_CPU] < 2 ^ 31"
proof -
  have "(\<Sum>c<NUM_CPU. - (2 ^ 27)) \<le> (\<Sum>c<NUM_CPU. ref_cnt (re_atom (retype_tbl s c idx)))"
    by (intro sum_mono) (use ref_cnt_range in auto)
  moreover have "(\<Sum>c<NUM_CPU. ref_cnt (re_atom (retype_tbl s c idx))) \<le> (\<Sum>c<NUM_CPU. 2 ^ 27 - 1)"
    by (intro sum_mono) (use ref_cnt_range in \<open>metis zle_diff1_eq\<close>)
  ultimately show ?thesis
    by (simp add: refs_on_def sum_list_upt_lessThan NUM_CPU_def)
qed

lemma total_refs_set_entry:
  assumes "cpu < NUM_CPU"
  shows "total_refs (set_entry cpu idx e s) i =
    (if i = idx then total_refs s i - ra_cnt (re_atom (retype_tbl s cpu i)) + ra_cnt (re_atom e)
     else total_refs s i)"
proof (cases "i = idx")
  case True
  have "total_refs (set_entry cpu idx e s) idx =
      ra_cnt (re_atom e) + (\<Sum>c\<in>{..<NUM_CPU} - {cpu}. ra_cnt (re_atom (retype_tbl s c idx)))"
    unfolding total_refs_def using assms
    by (subst sum.remove [of _ cpu]) (auto intro!: sum.cong)
  moreover have "total_refs s idx = ra_cnt (re_atom (retype_tbl s cpu idx)) +
      (\<Sum>c\<in>{..<NUM_CPU} - {cpu}. ra_cnt (re_atom (retype_tbl s c idx)))"
    unfolding total_refs_def using assms by (subst sum.remove [of _ cpu]) auto
  ultimately show ?thesis using True by simp
next
  case False
  then show ?thesis by (simp add: total_refs_def)
qed

lemma rt_inv_init: "rt_inv (retype_tbl_init s)"
  by (simp add: rt_inv_def retype_tbl_init_def)

lemma rt_inv_typesD:
  "rt_inv s \<Longrightarrow> idx < N_MEM_SETS \<Longrightarrow> c < NUM_CPU \<Longrightarrow>
   ra_type (re_atom (retype_tbl s c idx)) = glb_retype_tbl s idx"
  by (simp add: rt_inv_def)

lemma rt_inv_notretyping: "rt_inv s \<Longrightarrow> idx < N_MEM_SETS \<Longrightarrow> glb_retype_tbl s idx \<noteq> RETYPETBL_RETYPING"
  by (simp add: rt_inv_def)

lemma rt_inv_mod_ref_cnt [kernel_inv]:
  assumes "rt_inv s" "cpu < NUM_CPU" "mod_ref_cnt kpa cpu now pa op tc s = Some (r, s')"
  shows "rt_inv s'"
proof -
  define idx where "idx = GET_MEM_IDX kpa pa"
  have "s' = s \<or> (idx < N_MEM_SETS \<and> typed_mem (ra_type (re_atom (retype_tbl s cpu idx))) \<and>
      s' = set_entry cpu idx (bump op now (retype_tbl s cpu idx)) s)"
    using assms(3) GET_MEM_IDX_bound [of kpa pa]
    by (auto simp: mod_ref_cnt_eq Let_def idx_def not_le split: if_splits)
  with assms(1,2) show ?thesis
    by (auto simp: rt_inv_def typed_mem_def)
qed

text \<open>Every outcome of \<^verbatim>\<open>mod_mem_type\<close> on a well-formed table.\<close>

lemma mod_mem_type_eq:
  assumes "pa \<noteq> 0"
  shows "mod_mem_type kpa pa t s =
     Some (if pa \<ge> COS_MEM_BOUND then (0, s)
           else if \<not> pa_in_bounds kpa pa then (- EINVAL, s)
           else let idx = GET_MEM_IDX kpa pa; old = glb_retype_tbl s idx
                in if old \<noteq> RETYPETBL_UNTYPED then (if old = t then - EEXIST else - EPERM, s)
                   else if t = RETYPETBL_KERN \<and> chal_pa2va pa = 0 then (- EINVAL, s)
                   else (0, set_glb idx t (set_cpu_types t idx [0..<NUM_CPU] s)))"
proof (cases "pa \<ge> COS_MEM_BOUND \<or> \<not> pa_in_bounds kpa pa")
  case True
  then show ?thesis using assms by (auto simp: mod_mem_type_def)
next
  case False
  have swap: "set_cpu_types t idx is (set_glb i t' s) = set_glb i t' (set_cpu_types t idx is s)"
    for idx "is" i t'
    by (rule retype_state_eqI) simp_all
  from False have "GET_MEM_IDX kpa pa < N_MEM_SETS"
    by (intro GET_MEM_IDX_bound) auto
  with False assms show ?thesis
    by (auto simp: mod_mem_type_def kassert_bind Let_def swap)
qed

lemma rt_inv_mod_mem_type [kernel_inv]:
  assumes "rt_inv s" "t = RETYPETBL_USER \<or> t = RETYPETBL_KERN"
    "mod_mem_type kpa pa t s = Some (r, s')"
  shows "rt_inv s'"
proof -
  have "pa \<noteq> 0"
    using assms(3) by (auto simp: mod_mem_type_def kassert_bind split: if_splits)
  define idx where "idx = GET_MEM_IDX kpa pa"
  have "s' = s \<or> s' = set_glb idx t (set_cpu_types t idx [0..<NUM_CPU] s)"
    using assms(3) by (auto simp: mod_mem_type_eq [OF \<open>pa \<noteq> 0\<close>] Let_def idx_def split: if_splits)
  with assms(1,2) show ?thesis
    by (auto simp: rt_inv_def split: if_splits)
qed

text \<open>
  Every outcome of \<^verbatim>\<open>retypetbl_retype2frame\<close> on a well-formed table: neither of its assertions
  fires, and each error path puts the table back exactly as it was.
\<close>

lemma set_cpu_types_undo:
  assumes "\<forall>c \<in> set cpus. ra_type (re_atom (retype_tbl s c idx)) = t"
  shows "set_cpu_types t idx (rev cpus) (set_cpu_types t' idx cpus s) = s"
proof (rule retype_state_eqI)
  fix c i
  have "re_atom (retype_tbl s c idx)\<lparr>ra_type := t\<rparr> = re_atom (retype_tbl s c idx)" if "c \<in> set cpus"
    using that assms by (cases "re_atom (retype_tbl s c idx)") auto
  then show "retype_tbl (set_cpu_types t idx (rev cpus) (set_cpu_types t' idx cpus s)) c i = retype_tbl s c i"
    by (cases "retype_tbl s c idx") auto
qed simp

lemma set_glb_swap:
  "set_cpu_types t idx is (set_glb i t' s) = set_glb i t' (set_cpu_types t idx is s)"
  "commit_cpus idx is (set_glb i t' s) = set_glb i t' (commit_cpus idx is s)"
  by (rule retype_state_eqI; simp)+

lemma commit_set_cpu_types: "commit_cpus idx is (set_cpu_types t idx is s) = commit_cpus idx is s"
  by (rule retype_state_eqI) auto

lemma refs_on_set_glb [simp]: "refs_on (set_glb i t s) idx cpus = refs_on s idx cpus"
  by (simp add: refs_on_def)

lemma unmap_on_set_glb [simp]: "unmap_on (set_glb i t s) idx cpus lu = unmap_on s idx cpus lu"
  by (rule unmap_on_cong) simp

definition can_untype :: "cpuid \<Rightarrow> tlb_tbl \<Rightarrow> nat \<Rightarrow> retype_state \<Rightarrow> bool" where
  "can_untype cpu q idx s \<longleftrightarrow> refs_on s idx [0..<NUM_CPU] = 0 \<and>
     tlb_quiescence_check cpu q (unmap_on s idx [0..<NUM_CPU] 0)"

lemma retype2frame_eq:
  assumes inv: "rt_inv s" and "pa < COS_MEM_BOUND \<or> kpa \<le> COS_MEM_BOUND"
  shows "retypetbl_retype2frame kpa cpu q pa s =
     Some (if \<not> pa_in_bounds kpa pa then (- EINVAL, s)
           else let idx = GET_MEM_IDX kpa pa
                in if \<not> typed_mem (glb_retype_tbl s idx) then (- EPERM, s)
                   else if can_untype cpu q idx s
                   then (0, set_glb idx RETYPETBL_UNTYPED (commit_cpus idx [0..<NUM_CPU] s))
                   else (if refs_on s idx [0..<NUM_CPU] \<noteq> 0 then - EINVAL else - EQUIESCENCE, s))"
proof (cases "pa_in_bounds kpa pa")
  case False
  then show ?thesis by (simp add: retypetbl_retype2frame_def)
next
  case True
  define idx where "idx = GET_MEM_IDX kpa pa"
  define t where "t = glb_retype_tbl s idx"
  define sl where "sl = set_cpu_types RETYPETBL_RETYPING idx [0..<NUM_CPU] (set_glb idx RETYPETBL_RETYPING s)"
  have idx: "idx < N_MEM_SETS"
    unfolding idx_def using True assms(2) by (rule GET_MEM_IDX_bound)
  have types: "\<forall>c \<in> set [0..<NUM_CPU]. ra_type (re_atom (retype_tbl s c idx)) = t"
    using inv idx by (simp add: rt_inv_def t_def)
  have lock: "lock_cpus t idx [0..<NUM_CPU] 0 0 (set_glb idx RETYPETBL_RETYPING s) =
      Some ((None, refs_on s idx [0..<NUM_CPU], unmap_on s idx [0..<NUM_CPU] 0), sl)"
    using types by (subst lock_cpus_eq) (simp_all add: sl_def)
  have glb: "glb_retype_tbl sl idx = RETYPETBL_RETYPING"
    by (simp add: sl_def)
  have undo: "set_glb idx t (set_cpu_types t idx (rev [0..<NUM_CPU]) sl) = s"
    using types by (simp add: sl_def set_glb_swap set_cpu_types_undo t_def)
  have restore: "restore_all t idx NUM_CPU r sl = Some (r, s)" for r
    using undo glb by (simp add: restore_all_def restore_cpus_eq kassert_bind)
  have commit: "set_glb idx RETYPETBL_UNTYPED (commit_cpus idx [0..<NUM_CPU] sl) =
      set_glb idx RETYPETBL_UNTYPED (commit_cpus idx [0..<NUM_CPU] s)"
    by (simp add: sl_def set_glb_swap commit_set_cpu_types)
  show ?thesis
    using True idx lock restore commit glb
    by (auto simp: retypetbl_retype2frame_def kassert_bind Let_def idx_def [symmetric]
        t_def [symmetric] typed_mem_def can_untype_def)
qed

lemma rt_inv_retype2frame [kernel_inv]:
  assumes "rt_inv s" "pa < COS_MEM_BOUND \<or> kpa \<le> COS_MEM_BOUND"
    "retypetbl_retype2frame kpa cpu q pa s = Some (r, s')"
  shows "rt_inv s'"
proof -
  define idx where "idx = GET_MEM_IDX kpa pa"
  have "s' = s \<or> s' = set_glb idx RETYPETBL_UNTYPED (commit_cpus idx [0..<NUM_CPU] s)"
    using assms(3) by (auto simp: retype2frame_eq [OF assms(1,2)] Let_def idx_def split: if_splits)
  with assms(1) show ?thesis
    by (auto simp: rt_inv_def split: if_splits)
qed

section \<open>The reference-counting interface\<close>

text \<open>
  What the page tables rely on: an operation on an address changes the count of the memory set the
  address belongs to by one when it returns 0, and changes no count otherwise.  Addresses that are
  not tracked (\<^verbatim>\<open>CHECK_FIXED_UMEM\<close>) have no set.
\<close>

locale ref_counting =
  fixes inv :: "'s \<Rightarrow> bool"
    and valid :: "'a \<Rightarrow> bool"
    and rc :: "'s \<Rightarrow> 'k \<Rightarrow> 'c :: ab_group_add"
    and one :: 'c
    and key :: "'a \<Rightarrow> 'k option"
    and ref :: "'a \<Rightarrow> 's \<Rightarrow> (int \<times> 's) option"
    and deref :: "'a \<Rightarrow> 's \<Rightarrow> (int \<times> 's) option"
  assumes ref_total: "\<exists>r s'. ref a s = Some (r, s')"
    and deref_total: "\<exists>r s'. deref a s = Some (r, s')"
    and ref_inv: "inv s \<Longrightarrow> valid a \<Longrightarrow> ref a s = Some (r, s') \<Longrightarrow> inv s'"
    and deref_inv: "inv s \<Longrightarrow> valid a \<Longrightarrow> deref a s = Some (r, s') \<Longrightarrow> inv s'"
    and ref_rc: "valid a \<Longrightarrow> ref a s = Some (r, s') \<Longrightarrow>
      rc s' k = (if r = 0 \<and> key a = Some k then rc s k + one else rc s k)"
    and deref_rc: "valid a \<Longrightarrow> deref a s = Some (r, s') \<Longrightarrow>
      rc s' k = (if r = 0 \<and> key a = Some k then rc s k - one else rc s k)"
begin

text \<open>A client that pairs its references, on whichever cores, is invisible in the counts.\<close>

lemma ref_deref_rc:
  assumes "ref a s = Some (0, s1)" "deref b s1 = Some (0, s2)" "key a = key b" "valid a" "valid b"
  shows "rc s2 k = rc s k"
  using ref_rc [OF assms(4,1)] deref_rc [OF assms(5,2)] assms(3) by simp

text \<open>Moving a reference from one address to another (the update of a mapping).\<close>

lemma move_rc:
  assumes "ref a s = Some (0, s1)" "deref b s1 = Some (0, s2)" "valid a" "valid b"
    and "key a = Some i" "key b = Some j" "i \<noteq> j"
  shows "rc s2 i = rc s i + one" "rc s2 j = rc s j - one" "l \<notin> {i, j} \<Longrightarrow> rc s2 l = rc s l"
  using ref_rc [OF assms(3,1)] deref_rc [OF assms(4,2)] assms(5-) by auto

end

text \<open>The set an address is counted in, when the table tracks it.\<close>

definition ref_key :: "u32 \<Rightarrow> u32 \<Rightarrow> nat option" where
  "ref_key kpa pa = (if pa < COS_MEM_BOUND \<and> pa_in_bounds kpa pa then Some (GET_MEM_IDX kpa pa) else None)"

lemma total_refs_mod_ref_cnt:
  assumes "mod_ref_cnt kpa cpu now pa op tc s = Some (r, s')" "cpu < NUM_CPU"
  shows "total_refs s' k = (if r = 0 \<and> ref_key kpa pa = Some k
     then (if op then total_refs s k + 1 else total_refs s k - 1) else total_refs s k)"
  using assms
  by (auto simp: mod_ref_cnt_eq Let_def ref_key_def total_refs_set_entry not_le split: if_splits)

lemma mod_ref_cnt_total: "\<exists>r s'. mod_ref_cnt kpa cpu now pa op tc s = Some (r, s')"
  unfolding mod_ref_cnt_eq by (metis surj_pair)

text \<open>A request names the core it runs on, the time-stamp counter and the address.\<close>

interpretation retype_rc: ref_counting rt_inv "\<lambda>(cpu, now, pa). cpu < NUM_CPU" total_refs 1
    "\<lambda>(cpu, now, pa). ref_key kpa pa"
    "\<lambda>(cpu, now, pa). retypetbl_ref kpa cpu now pa" "\<lambda>(cpu, now, pa). retypetbl_deref kpa cpu now pa"
  for kpa :: u32
  by unfold_locales
    (auto simp: retypetbl_ref_def retypetbl_deref_def total_refs_mod_ref_cnt mod_ref_cnt_total
      intro: rt_inv_mod_ref_cnt)

section \<open>Steps of the table and its abstract specification\<close>

datatype rt_op =
    RT_ref cpuid u64 u32
  | RT_kern_ref cpuid u64 u32
  | RT_deref cpuid u64 u32
  | RT_retype2user u32
  | RT_retype2kern u32
  | RT_retype2frame cpuid tlb_tbl u32

fun rt_exec :: "u32 \<Rightarrow> rt_op \<Rightarrow> (retype_state, int) kop" where
  "rt_exec kpa (RT_ref cpu now pa) = retypetbl_ref kpa cpu now pa"
| "rt_exec kpa (RT_kern_ref cpu now pa) = retypetbl_kern_ref kpa cpu now pa"
| "rt_exec kpa (RT_deref cpu now pa) = retypetbl_deref kpa cpu now pa"
| "rt_exec kpa (RT_retype2user pa) = retypetbl_retype2user kpa pa"
| "rt_exec kpa (RT_retype2kern pa) = retypetbl_retype2kern kpa pa"
| "rt_exec kpa (RT_retype2frame cpu q pa) = retypetbl_retype2frame kpa cpu q pa"

text \<open>The requests the kernel makes: on one of its cores, never retyping physical address 0.\<close>

fun rt_op_ok :: "rt_op \<Rightarrow> bool" where
  "rt_op_ok (RT_ref cpu now pa) \<longleftrightarrow> cpu < NUM_CPU"
| "rt_op_ok (RT_kern_ref cpu now pa) \<longleftrightarrow> cpu < NUM_CPU"
| "rt_op_ok (RT_deref cpu now pa) \<longleftrightarrow> cpu < NUM_CPU"
| "rt_op_ok (RT_retype2user pa) \<longleftrightarrow> pa \<noteq> 0"
| "rt_op_ok (RT_retype2kern pa) \<longleftrightarrow> pa \<noteq> 0"
| "rt_op_ok (RT_retype2frame cpu q pa) \<longleftrightarrow> cpu < NUM_CPU"

lemmas rt_op_defs = retypetbl_ref_def retypetbl_kern_ref_def retypetbl_deref_def
  retypetbl_retype2user_def retypetbl_retype2kern_def

inductive rt_reach :: "u32 \<Rightarrow> retype_state \<Rightarrow> bool" for kpa where
  rt_init: "rt_reach kpa (retype_tbl_init s)"
| rt_step: "rt_reach kpa s \<Longrightarrow> rt_op_ok op \<Longrightarrow> rt_exec kpa op s = Some (r, s') \<Longrightarrow> rt_reach kpa s'"

lemma rt_inv_exec:
  assumes "rt_inv s" "kpa \<le> COS_MEM_BOUND" "rt_op_ok op" "rt_exec kpa op s = Some (r, s')"
  shows "rt_inv s'"
  using assms
  by (cases op)
    (auto simp: rt_op_defs intro: rt_inv_mod_ref_cnt rt_inv_mod_mem_type rt_inv_retype2frame)

lemma rt_exec_total:
  assumes "rt_inv s" "kpa \<le> COS_MEM_BOUND" "rt_op_ok op"
  shows "\<exists>r s'. rt_exec kpa op s = Some (r, s')"
  using assms(3)
proof (cases op)
  case (RT_retype2frame cpu q pa)
  then show ?thesis using assms(1,2) by (simp add: retype2frame_eq)
qed (auto simp: rt_op_defs mod_ref_cnt_total mod_mem_type_eq)

text \<open>
  The abstract table.  A memory set has one type, one number of references, and the time at which each core last
  gave up a reference; there are no per-core types or counts, no locks and no words to compare and swap.  An operation of
  the specification is a function of the same request and gives the same result: an address that is not tracked is
  granted and not counted, a reference is granted to a typed set only (to a kernel set only, where the request asks
  for one) and counts up, giving it up counts down, an untyped set gets its type, and a typed set loses it when its count
  is 0 and the TLBs are quiescent.
\<close>

record frame =
  f_type :: mem_type
  f_refs :: int
  f_unmap :: "cpuid \<Rightarrow> u64"

definition frame_count :: "u32 \<Rightarrow> u32 \<Rightarrow> mem_type set \<Rightarrow> (frame \<Rightarrow> frame) \<Rightarrow> (nat \<Rightarrow> frame) \<Rightarrow> int \<times> (nat \<Rightarrow> frame)" where
  "frame_count kpa pa ts g F =
     (if pa \<ge> COS_MEM_BOUND then (0, F)
      else case ref_key kpa pa of None \<Rightarrow> (- EINVAL, F)
        | Some i \<Rightarrow> if f_type (F i) \<in> ts then (0, F(i := g (F i))) else (- EPERM, F))"

definition frame_type :: "u32 \<Rightarrow> u32 \<Rightarrow> mem_type \<Rightarrow> (nat \<Rightarrow> frame) \<Rightarrow> int \<times> (nat \<Rightarrow> frame)" where
  "frame_type kpa pa t F =
     (if pa \<ge> COS_MEM_BOUND then (0, F)
      else case ref_key kpa pa of None \<Rightarrow> (- EINVAL, F)
        | Some i \<Rightarrow>
            if f_type (F i) = t then (- EEXIST, F)
            else if f_type (F i) \<noteq> RETYPETBL_UNTYPED then (- EPERM, F)
            else if t = RETYPETBL_KERN \<and> chal_pa2va pa = 0 then (- EINVAL, F)
            else (0, F(i := (F i)\<lparr>f_type := t\<rparr>)))"

definition frame_untype :: "u32 \<Rightarrow> cpuid \<Rightarrow> tlb_tbl \<Rightarrow> u32 \<Rightarrow> (nat \<Rightarrow> frame) \<Rightarrow> int \<times> (nat \<Rightarrow> frame)" where
  "frame_untype kpa cpu q pa F =
     (if \<not> pa_in_bounds kpa pa then (- EINVAL, F)
      else let i = GET_MEM_IDX kpa pa
           in if f_type (F i) \<notin> {RETYPETBL_USER, RETYPETBL_KERN} then (- EPERM, F)
              else if f_refs (F i) \<noteq> 0 then (- EINVAL, F)
              else if \<not> tlb_quiescence_check cpu q (fold max (map (f_unmap (F i)) [0..<NUM_CPU]) 0) then (- EQUIESCENCE, F)
              else (0, F(i := (F i)\<lparr>f_type := RETYPETBL_UNTYPED\<rparr>)))"

definition frame_inc :: "frame \<Rightarrow> frame" where
  "frame_inc x = x\<lparr>f_refs := f_refs x + 1\<rparr>"

definition frame_dec :: "cpuid \<Rightarrow> u64 \<Rightarrow> frame \<Rightarrow> frame" where
  "frame_dec cpu now x = x\<lparr>f_refs := f_refs x - 1, f_unmap := (f_unmap x)(cpu := now)\<rparr>"

fun frame_op :: "u32 \<Rightarrow> rt_op \<Rightarrow> (nat \<Rightarrow> frame) \<Rightarrow> int \<times> (nat \<Rightarrow> frame)" where
  "frame_op kpa (RT_ref cpu now pa) F = frame_count kpa pa {RETYPETBL_USER, RETYPETBL_KERN} frame_inc F"
| "frame_op kpa (RT_kern_ref cpu now pa) F = frame_count kpa pa {RETYPETBL_KERN} frame_inc F"
| "frame_op kpa (RT_deref cpu now pa) F = frame_count kpa pa {RETYPETBL_USER, RETYPETBL_KERN} (frame_dec cpu now) F"
| "frame_op kpa (RT_retype2user pa) F = frame_type kpa pa RETYPETBL_USER F"
| "frame_op kpa (RT_retype2kern pa) F = frame_type kpa pa RETYPETBL_KERN F"
| "frame_op kpa (RT_retype2frame cpu q pa) F = frame_untype kpa cpu q pa F"

definition frame_abs :: "retype_state \<Rightarrow> nat \<Rightarrow> frame" where
  "frame_abs s i = \<lparr>f_type = glb_retype_tbl s i, f_refs = refs_on s i [0..<NUM_CPU], f_unmap = (\<lambda>c. last_unmap (retype_tbl s c i))\<rparr>"

text \<open>Runs of the table and of the specification, with the results of all the operations.\<close>

fun rt_run :: "u32 \<Rightarrow> rt_op list \<Rightarrow> (retype_state, int list) kop" where
  "rt_run kpa [] s = Some ([], s)"
| "rt_run kpa (op # ops) s = do { (r, s) \<leftarrow> rt_exec kpa op s; (rs, s) \<leftarrow> rt_run kpa ops s; Some (r # rs, s) }"

fun frame_run :: "u32 \<Rightarrow> rt_op list \<Rightarrow> (nat \<Rightarrow> frame) \<Rightarrow> int list \<times> (nat \<Rightarrow> frame)" where
  "frame_run kpa [] F = ([], F)"
| "frame_run kpa (op # ops) F = (let (r, F) = frame_op kpa op F; (rs, F) = frame_run kpa ops F in (r # rs, F))"

text \<open>The counts of the cores after \<open>n\<close> operations: far enough from the ends of their 28-bit range.\<close>

definition cnt_within :: "int \<Rightarrow> retype_state \<Rightarrow> bool" where
  "cnt_within n s \<longleftrightarrow> (\<forall>i<N_MEM_SETS. \<forall>c<NUM_CPU. \<bar>ref_cnt (re_atom (retype_tbl s c i))\<bar> \<le> n)"

lemma unmap_on_fold: "unmap_on s i cs lu = fold max (map (\<lambda>c. last_unmap (retype_tbl s c i)) cs) lu"
proof (induction cs arbitrary: lu)
  case (Cons c cs)
  have "(if lu < last_unmap (retype_tbl s c i) then last_unmap (retype_tbl s c i) else lu) = max (last_unmap (retype_tbl s c i)) lu"
    by (auto simp: max_def)
  then show ?case using Cons.IH by (simp add: Let_def)
qed simp

lemma refs_on_set_entry:
  assumes "cpu < NUM_CPU"
  shows "refs_on (set_entry cpu j e s) i [0..<NUM_CPU] =
    refs_on s i [0..<NUM_CPU] + (if i = j then ref_cnt (re_atom e) - ref_cnt (re_atom (retype_tbl s cpu i)) else 0)"
proof (cases "i = j")
  case True
  have "(\<Sum>c<NUM_CPU. ref_cnt (re_atom (retype_tbl (set_entry cpu j e s) c j))) = ref_cnt (re_atom e) +
      (\<Sum>c\<in>{..<NUM_CPU} - {cpu}. ref_cnt (re_atom (retype_tbl s c j)))"
    using assms by (subst sum.remove [of _ cpu]) (auto intro!: sum.cong)
  moreover have "(\<Sum>c<NUM_CPU. ref_cnt (re_atom (retype_tbl s c j))) = ref_cnt (re_atom (retype_tbl s cpu j)) +
      (\<Sum>c\<in>{..<NUM_CPU} - {cpu}. ref_cnt (re_atom (retype_tbl s c j)))"
    using assms by (subst sum.remove [of _ cpu]) auto
  ultimately show ?thesis using True by (simp add: refs_on_def sum_list_upt_lessThan)
qed (simp add: refs_on_def)

lemma ref_cnt_step:
  assumes "\<bar>ref_cnt a\<bar> < 2 ^ 27 - 1"
  shows "ref_cnt (a\<lparr>ra_cnt := ra_cnt a + 1\<rparr>) = ref_cnt a + 1" "ref_cnt (a\<lparr>ra_cnt := ra_cnt a - 1\<rparr>) = ref_cnt a - 1"
proof -
  have b: "- (2 ^ 27) + 1 < sint (ra_cnt a)" "sint (ra_cnt a) < 2 ^ 27 - 1" using assms by (simp_all add: ref_cnt_def abs_less_iff)
  show "ref_cnt (a\<lparr>ra_cnt := ra_cnt a + 1\<rparr>) = ref_cnt a + 1" "ref_cnt (a\<lparr>ra_cnt := ra_cnt a - 1\<rparr>) = ref_cnt a - 1"
    using b by (simp_all add: ref_cnt_def sint_word_ariths signed_take_bit_int_eq_self)
qed

lemma refs_on_set_glb_types [simp]: "refs_on (set_cpu_types t j cs s) i ds = refs_on s i ds"
  unfolding refs_on_def by (intro arg_cong [where f = sum_list] map_cong) auto

lemma mod_ref_cnt_frames:
  assumes "rt_inv s" "cnt_within n s" "n < 2 ^ 27 - 1" "cpu < NUM_CPU" "mod_ref_cnt kpa cpu now pa op tc s = Some (r, s')"
  shows "frame_count kpa pa (case tc of None \<Rightarrow> {RETYPETBL_USER, RETYPETBL_KERN} | Some t \<Rightarrow> {t} \<inter> {RETYPETBL_USER, RETYPETBL_KERN})
      (if op then frame_inc else frame_dec cpu now) (frame_abs s) = (r, frame_abs s')"
    and "cnt_within (n + 1) s'"
proof -
  define i where "i = GET_MEM_IDX kpa pa"
  define e where "e = retype_tbl s cpu i"
  have k: "ref_key kpa pa = (if pa_in_bounds kpa pa then Some i else None)" if "pa < COS_MEM_BOUND" using that by (simp add: ref_key_def i_def)
  have b: "i < N_MEM_SETS" "ra_type (re_atom e) = glb_retype_tbl s i" "\<bar>ref_cnt (re_atom e)\<bar> \<le> n" if "pa < COS_MEM_BOUND" "pa_in_bounds kpa pa"
    using that GET_MEM_IDX_bound [of kpa pa] assms(1,2,4) by (simp_all add: i_def e_def rt_inv_def cnt_within_def)
  have cnt: "ref_cnt (re_atom (bump op now e)) = ref_cnt (re_atom e) + (if op then 1 else - 1)" if "pa < COS_MEM_BOUND" "pa_in_bounds kpa pa"
    using b(3) [OF that] assms(3) ref_cnt_step [of "re_atom e"] by (simp add: bump_def)
  have "frame_abs (set_entry cpu i (bump op now e) s) = (frame_abs s)(i := (if op then frame_inc else frame_dec cpu now) (frame_abs s i))"
    if "pa < COS_MEM_BOUND" "pa_in_bounds kpa pa"
    using cnt [OF that]
    by (auto simp: fun_eq_iff frame_abs_def refs_on_set_entry [OF assms(4)] frame_inc_def frame_dec_def bump_def e_def split: if_splits)
  then show "frame_count kpa pa (case tc of None \<Rightarrow> {RETYPETBL_USER, RETYPETBL_KERN} | Some t \<Rightarrow> {t} \<inter> {RETYPETBL_USER, RETYPETBL_KERN})
      (if op then frame_inc else frame_dec cpu now) (frame_abs s) = (r, frame_abs s')"
    using assms(5) b k
    by (auto simp: mod_ref_cnt_eq Let_def frame_count_def i_def [symmetric] e_def [symmetric] typed_mem_def frame_abs_def not_le split: if_splits option.splits)
  have "s' = s \<or> pa < COS_MEM_BOUND \<and> pa_in_bounds kpa pa \<and> s' = set_entry cpu i (bump op now e) s"
    using assms(5) by (auto simp: mod_ref_cnt_eq Let_def i_def e_def not_le split: if_splits)
  then show "cnt_within (n + 1) s'"
  proof (elim disjE conjE)
    assume p: "pa < COS_MEM_BOUND" "pa_in_bounds kpa pa" and s': "s' = set_entry cpu i (bump op now e) s"
    have "\<bar>ref_cnt (re_atom (bump op now e))\<bar> \<le> n + 1" using cnt [OF p] b(3) [OF p] by (auto simp: abs_if split: if_splits)
    then show ?thesis using assms(2) by (force simp: s' cnt_within_def)
  qed (use assms(2) in \<open>force simp: cnt_within_def\<close>)
qed

lemma mod_mem_type_frames:
  assumes "mod_mem_type kpa pa t s = Some (r, s')" "pa \<noteq> 0" "typed_mem t" "cnt_within n s"
  shows "frame_type kpa pa t (frame_abs s) = (r, frame_abs s')" "cnt_within n s'"
proof -
  define i where "i = GET_MEM_IDX kpa pa"
  have "frame_abs (set_glb i t (set_cpu_types t i [0..<NUM_CPU] s)) = (frame_abs s)(i := (frame_abs s i)\<lparr>f_type := t\<rparr>)"
    by (auto simp: fun_eq_iff frame_abs_def)
  moreover have "t \<noteq> RETYPETBL_UNTYPED" using assms(3) by (auto simp: typed_mem_def)
  ultimately show "frame_type kpa pa t (frame_abs s) = (r, frame_abs s')"
    using assms(1) by (auto simp: mod_mem_type_eq [OF assms(2)] Let_def frame_type_def ref_key_def i_def [symmetric] frame_abs_def not_le split: if_splits)
  have "s' = s \<or> s' = set_glb i t (set_cpu_types t i [0..<NUM_CPU] s)"
    using assms(1) by (auto simp: mod_mem_type_eq [OF assms(2)] Let_def i_def split: if_splits)
  then show "cnt_within n s'" using assms(4) by (auto simp: cnt_within_def)
qed

lemma retype2frame_frames:
  assumes "rt_inv s" "kpa \<le> COS_MEM_BOUND" "retypetbl_retype2frame kpa cpu q pa s = Some (r, s')" "cnt_within n s" "0 \<le> n"
  shows "frame_untype kpa cpu q pa (frame_abs s) = (r, frame_abs s')" "cnt_within n s'"
proof -
  define i where "i = GET_MEM_IDX kpa pa"
  define c where "c = set_glb i RETYPETBL_UNTYPED (commit_cpus i [0..<NUM_CPU] s)"
  have "refs_on c j [0..<NUM_CPU] = (if j = i then 0 else refs_on s j [0..<NUM_CPU])" for j
    by (simp add: c_def refs_on_def sum_list_upt_lessThan ref_cnt_def)
  then have "frame_abs c = (frame_abs s)(i := (frame_abs s i)\<lparr>f_type := RETYPETBL_UNTYPED\<rparr>)" if "refs_on s i [0..<NUM_CPU] = 0"
    using that by (auto simp: fun_eq_iff frame_abs_def c_def)
  then show "frame_untype kpa cpu q pa (frame_abs s) = (r, frame_abs s')"
    using assms(3)
    by (auto simp: retype2frame_eq assms(1,2) Let_def frame_untype_def can_untype_def i_def [symmetric] c_def [symmetric] typed_mem_def
        frame_abs_def unmap_on_fold split: if_splits)
  have "s' = s \<or> s' = c"
    using assms(3) by (auto simp: retype2frame_eq assms(1,2) Let_def i_def c_def split: if_splits)
  then show "cnt_within n s'" using assms(4,5) by (auto simp: cnt_within_def c_def ref_cnt_def)
qed

lemma cnt_within_mono: "cnt_within n s \<Longrightarrow> n \<le> m \<Longrightarrow> cnt_within m s"
  unfolding cnt_within_def by (meson order_trans)

lemma rt_exec_frames:
  assumes "rt_inv s" "kpa \<le> COS_MEM_BOUND" "cnt_within n s" "0 \<le> n" "n < 2 ^ 27 - 1" "rt_op_ok op" "rt_exec kpa op s = Some (r, s')"
  shows "frame_op kpa op (frame_abs s) = (r, frame_abs s') \<and> cnt_within (n + 1) s'"
proof (cases op)
  case (RT_ref cpu now pa)
  then show ?thesis using mod_ref_cnt_frames [OF assms(1,3,5), of cpu kpa now pa True None r s'] assms(6,7) by (simp add: rt_op_defs)
next
  case (RT_kern_ref cpu now pa)
  then show ?thesis
    using mod_ref_cnt_frames [OF assms(1,3,5), of cpu kpa now pa True "Some RETYPETBL_KERN" r s'] assms(6,7) by (simp add: rt_op_defs)
next
  case (RT_deref cpu now pa)
  then show ?thesis using mod_ref_cnt_frames [OF assms(1,3,5), of cpu kpa now pa False None r s'] assms(6,7) by (simp add: rt_op_defs)
next
  case (RT_retype2user pa)
  then show ?thesis using mod_mem_type_frames [of kpa pa RETYPETBL_USER s r s' n] cnt_within_mono [of n s' "n + 1"] assms(3,6,7)
    by (simp add: rt_op_defs typed_mem_def)
next
  case (RT_retype2kern pa)
  then show ?thesis using mod_mem_type_frames [of kpa pa RETYPETBL_KERN s r s' n] cnt_within_mono [of n s' "n + 1"] assms(3,6,7)
    by (simp add: rt_op_defs typed_mem_def)
next
  case (RT_retype2frame cpu q pa)
  then show ?thesis using retype2frame_frames [OF assms(1,2), of cpu q pa r s' n] cnt_within_mono [of n s' "n + 1"] assms(3,4,7) by simp
qed

lemma rt_run_frames:
  assumes "rt_inv s" "kpa \<le> COS_MEM_BOUND" "cnt_within n s" "0 \<le> n" "n + int (length ops) < 2 ^ 27" "\<forall>op\<in>set ops. rt_op_ok op"
  shows "\<exists>rs s'. rt_run kpa ops s = Some (rs, s') \<and> frame_run kpa ops (frame_abs s) = (rs, frame_abs s')"
  using assms
proof (induction ops arbitrary: n s)
  case (Cons op ops)
  obtain r s1 where ex: "rt_exec kpa op s = Some (r, s1)" using rt_exec_total [OF Cons.prems(1,2), of op] Cons.prems(6) by auto
  have "n < 2 ^ 27 - 1" using Cons.prems(5) by simp
  then have st: "frame_op kpa op (frame_abs s) = (r, frame_abs s1)" "cnt_within (n + 1) s1"
    using rt_exec_frames [OF Cons.prems(1-4) _ _ ex] Cons.prems(6) by simp_all
  have "rt_inv s1" using rt_inv_exec [OF Cons.prems(1,2) _ ex] Cons.prems(6) by simp
  then obtain rs s' where "rt_run kpa ops s1 = Some (rs, s')" "frame_run kpa ops (frame_abs s1) = (rs, frame_abs s')"
    using Cons.IH [of s1 "n + 1"] Cons.prems st(2) by auto
  then show ?case using ex st(1) by simp
qed simp

lemma cnt_within_init: "cnt_within 0 (retype_tbl_init s)"
  by (simp add: cnt_within_def retype_tbl_init_def ref_cnt_def)

lemma total_refs_set_glb [simp]: "total_refs (set_glb i t s) k = total_refs s k"
  by (simp add: total_refs_def)

lemma total_refs_set_cpu_types [simp]: "total_refs (set_cpu_types t i cpus s) k = total_refs s k"
  unfolding total_refs_def by (intro sum.cong) auto

text \<open>The type invariant makes the table agree with itself and gives the same frames to every core.\<close>

lemma rt_reach_inv: "rt_reach kpa s \<Longrightarrow> kpa \<le> COS_MEM_BOUND \<Longrightarrow> rt_inv s"
  by (induction rule: rt_reach.induct) (auto intro: rt_inv_init rt_inv_exec)

section \<open>Wrap-around of the count\<close>

text \<open>A core takes \<open>n\<close> references to an address, stopping at the first refusal.\<close>

fun ref_n :: "u32 \<Rightarrow> cpuid \<Rightarrow> u64 \<Rightarrow> u32 \<Rightarrow> nat \<Rightarrow> retype_state \<Rightarrow> retype_state option" where
  "ref_n kpa cpu now pa 0 s = Some s"
| "ref_n kpa cpu now pa (Suc n) s = do {
     (r, s) \<leftarrow> retypetbl_ref kpa cpu now pa s;
     if r = 0 then ref_n kpa cpu now pa n s else None
   }"

lemma set_entry_self [simp]: "set_entry c i (retype_tbl s c i) s = s"
  by (rule retype_state_eqI) (simp_all add: set_entry_def)

lemma ref_n_eq:
  assumes "ref_key kpa pa = Some i" "typed_mem (ra_type (re_atom (retype_tbl s cpu i)))"
  shows "ref_n kpa cpu now pa n s =
    Some (set_entry cpu i ((retype_tbl s cpu i)\<lparr>re_atom := (re_atom (retype_tbl s cpu i))
       \<lparr>ra_cnt := ra_cnt (re_atom (retype_tbl s cpu i)) + of_nat n\<rparr>\<rparr>) s)"
  using assms
proof (induction n arbitrary: s)
  case 0
  have "(retype_tbl s cpu i)\<lparr>re_atom := re_atom (retype_tbl s cpu i)
      \<lparr>ra_cnt := ra_cnt (re_atom (retype_tbl s cpu i))\<rparr>\<rparr> = retype_tbl s cpu i" by simp
  then show ?case by simp
next
  case (Suc n)
  have "retypetbl_ref kpa cpu now pa s = Some (0, set_entry cpu i (bump True now (retype_tbl s cpu i)) s)"
    using Suc.prems by (auto simp: retypetbl_ref_def mod_ref_cnt_eq ref_key_def split: if_splits)
  then show ?case
    using Suc.IH [of "set_entry cpu i (bump True now (retype_tbl s cpu i)) s"] Suc.prems
    by (simp add: bump_def ac_simps)
qed

section \<open>Properties of the retype table\<close>

text \<open>A concrete table for the examples: frame 0x200000 has just been retyped to user memory.\<close>

definition ex_untyped :: retype_state where
  "ex_untyped = retype_tbl_init
     \<lparr>retype_tbl = (\<lambda>_ _. \<lparr>re_atom = \<lparr>ra_type = RETYPETBL_UNTYPED, ra_cnt = 0\<rparr>, last_unmap = 0\<rparr>),
      glb_retype_tbl = (\<lambda>_. RETYPETBL_UNTYPED)\<rparr>"

definition ex_typed :: retype_state where
  "ex_typed = snd (the (retypetbl_retype2user 0x100000 0x200000 ex_untyped))"

lemma ex_in_bounds:
  "pa_in_bounds 0x100000 0x200000" "GET_MEM_IDX 0x100000 0x200000 = 256"
  "0x100000 \<le> COS_MEM_BOUND" "(0x200000 :: u32) < COS_MEM_BOUND" "ref_key 0x100000 0x200000 = Some 256"
  by (simp_all add: pa_in_bounds_def mem_layout GET_MEM_IDX_user ref_key_def)

lemma ex_retype2user:
  "retypetbl_retype2user 0x100000 0x200000 ex_untyped = Some (0, ex_typed)"
  "ex_typed = set_glb 256 RETYPETBL_USER (set_cpu_types RETYPETBL_USER 256 [0..<NUM_CPU] ex_untyped)"
proof -
  have "glb_retype_tbl ex_untyped 256 = RETYPETBL_UNTYPED"
    by (simp add: ex_untyped_def retype_tbl_init_def)
  then have "retypetbl_retype2user 0x100000 0x200000 ex_untyped =
      Some (0, set_glb 256 RETYPETBL_USER (set_cpu_types RETYPETBL_USER 256 [0..<NUM_CPU] ex_untyped))"
    using ex_in_bounds by (simp add: retypetbl_retype2user_def mod_mem_type_eq not_le)
  then show "retypetbl_retype2user 0x100000 0x200000 ex_untyped = Some (0, ex_typed)"
    "ex_typed = set_glb 256 RETYPETBL_USER (set_cpu_types RETYPETBL_USER 256 [0..<NUM_CPU] ex_untyped)"
    by (simp_all add: ex_typed_def)
qed

lemma ex_reach: "rt_reach 0x100000 ex_untyped" "rt_reach 0x100000 ex_typed"
proof -
  show u: "rt_reach 0x100000 ex_untyped"
    unfolding ex_untyped_def by (rule rt_init)
  have "rt_exec 0x100000 (RT_retype2user 0x200000) ex_untyped = Some (0, ex_typed)"
    by (simp add: ex_retype2user(1))
  then show "rt_reach 0x100000 ex_typed"
    by (rule rt_step [OF u, rotated]) simp
qed

lemma ex_typed_entry:
  "c < NUM_CPU \<Longrightarrow> retype_tbl ex_typed c 256 = \<lparr>re_atom = \<lparr>ra_type = RETYPETBL_USER, ra_cnt = 0\<rparr>, last_unmap = 0\<rparr>"
  "glb_retype_tbl ex_typed 256 = RETYPETBL_USER"
  by (simp_all add: ex_retype2user(2) ex_untyped_def retype_tbl_init_def mem_layout)

text \<open>
  C1. In every state the kernel can bring the retype table into, starting from
  \<^verbatim>\<open>retype_tbl_init\<close>, the per-core types agree with the global type, no set is left locked and untyped
  sets have no references; and every further operation returns (no assertion of the retype code
  fires) in a state where this still holds.
\<close>

theorem retype_reachable_safe:
  assumes "rt_reach kpa s" "kpa \<le> COS_MEM_BOUND" "rt_op_ok op"
  shows "rt_inv s \<and> (\<exists>r s'. rt_exec kpa op s = Some (r, s') \<and> rt_inv s')"
proof -
  have inv: "rt_inv s" using assms(1,2) by (rule rt_reach_inv)
  then obtain r s' where "rt_exec kpa op s = Some (r, s')"
    using rt_exec_total assms(2,3) by blast
  with inv assms(2,3) show ?thesis by (blast intro: rt_inv_exec)
qed

theorem retype_reachable_safe_witness:
  "\<exists>r s'. rt_exec 0x100000 (RT_retype2user 0x200000) ex_untyped = Some (r, s') \<and> rt_inv s'"
  using retype_reachable_safe [OF ex_reach(1) ex_in_bounds(3), of "RT_retype2user 0x200000"] by simp

text \<open>
  C5. The retype table refines its specification, operation by operation and with the same results.  From the table
  that \<^verbatim>\<open>retype_tbl_init\<close> leaves, any sequence of fewer than \<open>2 ^ 27\<close> requests of the kernel runs without a failed
  assertion, returns exactly what the specification returns for the same requests -- grants, refusals and their error
  codes -- and leaves the types, the numbers of references and the unmap times that the specification has.  The
  bound keeps the counts of the cores inside their 28-bit fields.  As in the code, giving up a reference is not
  checked against the number held.
\<close>

theorem retype_refines_frames:
  assumes "kpa \<le> COS_MEM_BOUND" "\<forall>op\<in>set ops. rt_op_ok op" "length ops < 2 ^ 27"
  shows "\<exists>rs s'. rt_run kpa ops (retype_tbl_init s) = Some (rs, s') \<and>
    frame_run kpa ops (frame_abs (retype_tbl_init s)) = (rs, frame_abs s')"
  using rt_run_frames [OF rt_inv_init assms(1) cnt_within_init, of ops s] assms(2,3) by simp

definition ex_ops :: "rt_op list" where
  "ex_ops = [RT_retype2user 0x200000, RT_ref 3 7 0x200000, RT_kern_ref 3 8 0x200000,
     RT_retype2frame 3 (\<lambda>_. \<lparr>last_periodic_flush = 8, last_mandatory_flush = 8\<rparr>) 0x200000,
     RT_deref 5 9 0x200010, RT_retype2frame 3 (\<lambda>_. \<lparr>last_periodic_flush = 8, last_mandatory_flush = 8\<rparr>) 0x200000]"

text \<open>
  The example types a frame, takes a reference, is refused a kernel reference and the untyping, gives the reference up on
  another core, and is refused the untyping again, now because the TLBs have not been flushed since.
\<close>

theorem retype_refines_frames_witness:
  "\<exists>s'. rt_run 0x100000 ex_ops ex_untyped = Some ([0, 0, - EPERM, - EINVAL, 0, - EQUIESCENCE], s') \<and> f_refs (frame_abs s' 256) = 0"
proof -
  have k: "ref_key 0x100000 0x200010 = Some 256" "\<not> COS_MEM_BOUND \<le> (0x200000 :: u32)" "\<not> COS_MEM_BOUND \<le> (0x200010 :: u32)"
    by (simp_all add: ref_key_def pa_in_bounds_def mem_layout GET_MEM_IDX_user)
  obtain rs s' where run: "rt_run 0x100000 ex_ops ex_untyped = Some (rs, s')"
    and spec: "frame_run 0x100000 ex_ops (frame_abs ex_untyped) = (rs, frame_abs s')"
  proof -
    have "\<forall>op\<in>set ex_ops. rt_op_ok op" "length ex_ops < 2 ^ 27" by (simp_all add: ex_ops_def NUM_CPU_def)
    then show thesis using that retype_refines_frames [OF ex_in_bounds(3), of ex_ops] unfolding ex_untyped_def by blast
  qed
  have F: "frame_abs ex_untyped 256 = \<lparr>f_type = RETYPETBL_UNTYPED, f_refs = 0, f_unmap = (\<lambda>_. 0)\<rparr>"
    by (simp add: frame_abs_def ex_untyped_def retype_tbl_init_def mem_layout refs_on_def ref_cnt_def sum_list_upt_lessThan fun_eq_iff)
  have "0 < NUM_CPU_COS" by (simp add: NUM_CPU_COS_def NUM_CPU_def)
  then have "frame_run 0x100000 ex_ops (frame_abs ex_untyped) = ([0, 0, - EPERM, - EINVAL, 0, - EQUIESCENCE],
      (frame_abs ex_untyped)(256 := \<lparr>f_type = RETYPETBL_USER, f_refs = 0, f_unmap = (\<lambda>_. 0)(5 := 9)\<rparr>))"
    by (auto simp: ex_ops_def F frame_count_def frame_type_def frame_untype_def frame_inc_def frame_dec_def Let_def k ex_in_bounds
        tlb_quiescence_check_iff NUM_CPU_def upt_rec [of _ 16])
  then have "rs = [0, 0, - EPERM, - EINVAL, 0, - EQUIESCENCE]"
    "frame_abs s' = (frame_abs ex_untyped)(256 := \<lparr>f_type = RETYPETBL_USER, f_refs = 0, f_unmap = (\<lambda>_. 0)(5 := 9)\<rparr>)"
    using spec by simp_all
  then show ?thesis using run by simp
qed

lemma ex_can_untype: "cpu < NUM_CPU \<Longrightarrow> can_untype cpu (\<lambda>_. \<lparr>last_periodic_flush = 0, last_mandatory_flush = 0\<rparr>) 256 ex_typed"
  by (simp add: can_untype_def refs_on_def ref_cnt_def ex_typed_entry tlb_quiescence_check_iff NUM_CPU_def
      upt_rec [of _ 16])

lemma ex_retype2frame:
  "retypetbl_retype2frame 0x100000 3 (\<lambda>_. \<lparr>last_periodic_flush = 0, last_mandatory_flush = 0\<rparr>) 0x200000 ex_typed =
     Some (0, set_glb 256 RETYPETBL_UNTYPED (commit_cpus 256 [0..<NUM_CPU] ex_typed))"
  using ex_can_untype [of 3] retype2frame_eq [OF rt_reach_inv [OF ex_reach(2) ex_in_bounds(3)], of "0x200000"]
  by (simp add: ex_in_bounds ex_typed_entry typed_mem_def NUM_CPU_def)

text \<open>
  C6. \<^verbatim>\<open>retypetbl_retype2frame\<close> is all or nothing: it returns 0 exactly when the address is in bounds,
  the set is typed, the counts of all cores sum to 0 and the TLBs are quiescent since the last
  unmap on any core; then the set is untyped with every count cleared and all other sets are as
  before.  When it returns an error the table is exactly the one it started with, although it
  locked the global entry and every per-core entry on the way.
\<close>

theorem retype2frame_atomic:
  assumes "rt_reach kpa s" "kpa \<le> COS_MEM_BOUND"
    "retypetbl_retype2frame kpa cpu q pa s = Some (r, s')" "i = GET_MEM_IDX kpa pa"
  shows "(r = 0 \<longleftrightarrow> pa_in_bounds kpa pa \<and> typed_mem (glb_retype_tbl s i) \<and>
            refs_on s i [0..<NUM_CPU] = 0 \<and> tlb_quiescence_check cpu q (unmap_on s i [0..<NUM_CPU] 0)) \<and>
    (r \<noteq> 0 \<longrightarrow> r < 0 \<and> s' = s) \<and>
    (r = 0 \<longrightarrow> glb_retype_tbl s' = (glb_retype_tbl s)(i := RETYPETBL_UNTYPED) \<and>
       (\<forall>c < NUM_CPU. re_atom (retype_tbl s' c i) = \<lparr>ra_type = RETYPETBL_UNTYPED, ra_cnt = 0\<rparr>) \<and>
       (\<forall>c j. j \<noteq> i \<longrightarrow> retype_tbl s' c j = retype_tbl s c j))"
proof -
  have "rt_inv s" using assms(1,2) by (rule rt_reach_inv)
  then show ?thesis
    using assms(2-4) retype2frame_eq [of s pa kpa cpu q]
    by (auto simp: Let_def can_untype_def split: if_splits)
qed

theorem retype2frame_atomic_witness:
  "tlb_quiescence_check 3 (\<lambda>_. \<lparr>last_periodic_flush = 0, last_mandatory_flush = 0\<rparr>)
     (unmap_on ex_typed 256 [0..<NUM_CPU] 0)"
  using retype2frame_atomic [OF ex_reach(2) ex_in_bounds(3) ex_retype2frame refl] by (simp add: ex_in_bounds)

text \<open>
  C35. The overflow guard of \<^verbatim>\<open>mod_ref_cnt\<close> does not protect the count: the count is a signed 28-bit
  field and is compared with a bound it cannot reach, so one core can take \<open>2 ^ 28\<close> references to a
  frame, every one of them granted, and the table ends up exactly where it was; a frame with that
  many references can be untyped.
\<close>

theorem refcount_guard_unreachable:
  assumes "ref_key kpa pa = Some i" "typed_mem (ra_type (re_atom (retype_tbl s cpu i)))"
  shows "ref_n kpa cpu now pa (2 ^ 28) s = Some s"
proof -
  have "of_nat (2 ^ 28) = (0 :: 28 word)" by simp
  then have "(retype_tbl s cpu i)\<lparr>re_atom := (re_atom (retype_tbl s cpu i))
       \<lparr>ra_cnt := ra_cnt (re_atom (retype_tbl s cpu i)) + of_nat (2 ^ 28)\<rparr>\<rparr> = retype_tbl s cpu i"
    by simp
  then show ?thesis using ref_n_eq [OF assms, of now "2 ^ 28"] by (simp only: set_entry_self)
qed

theorem refcount_guard_unreachable_witness: "ref_n 0x100000 3 7 0x200000 (2 ^ 28) ex_typed = Some ex_typed"
  by (rule refcount_guard_unreachable [OF ex_in_bounds(5)]) (simp add: ex_typed_entry NUM_CPU_def typed_mem_def)

text \<open>
  C27. References are accounted exactly: a reference granted on one core and released on another (the
  same address, or two addresses of one set) leaves the total count of every set as it was, and the
  table well formed.
\<close>

theorem retype_ref_deref_balanced:
  assumes "rt_inv s" "c < NUM_CPU" "d < NUM_CPU" "ref_key kpa pa = ref_key kpa pa'"
    and "retypetbl_ref kpa c now pa s = Some (0, s1)" "retypetbl_deref kpa d now' pa' s1 = Some (0, s2)"
  shows "rt_inv s2 \<and> total_refs s2 k = total_refs s k"
proof -
  have "rt_inv s1" using retype_rc.ref_inv [where a = "(c, now, pa)"] assms by simp
  then have "rt_inv s2" using retype_rc.deref_inv [where a = "(d, now', pa')"] assms by simp
  moreover have "total_refs s2 k = total_refs s k"
    using retype_rc.ref_deref_rc [where a = "(c, now, pa)" and b = "(d, now', pa')"] assms by simp
  ultimately show ?thesis by simp
qed

theorem retype_ref_deref_balanced_witness:
  "\<exists>s1 s2. retypetbl_ref 0x100000 3 7 0x200000 ex_typed = Some (0, s1) \<and>
     retypetbl_deref 0x100000 5 9 0x200010 s1 = Some (0, s2) \<and> total_refs s2 256 = total_refs ex_typed 256"
proof -
  define s1 where "s1 = set_entry 3 256 (bump True 7 (retype_tbl ex_typed 3 256)) ex_typed"
  define s2 where "s2 = set_entry 5 256 (bump False 9 (retype_tbl s1 5 256)) s1"
  have k: "ref_key 0x100000 0x200010 = Some 256"
    by (simp add: ref_key_def pa_in_bounds_def mem_layout GET_MEM_IDX_user)
  have 1: "retypetbl_ref 0x100000 3 7 0x200000 ex_typed = Some (0, s1)"
    using ex_in_bounds
    by (simp add: retypetbl_ref_def mod_ref_cnt_eq ex_typed_entry NUM_CPU_def typed_mem_def s1_def not_le)
  have 2: "retypetbl_deref 0x100000 5 9 0x200010 s1 = Some (0, s2)"
    using k by (auto simp: retypetbl_deref_def mod_ref_cnt_eq ex_typed_entry NUM_CPU_def typed_mem_def s2_def
        s1_def ref_key_def not_le Let_def split: if_splits)
  have "total_refs s2 256 = total_refs ex_typed 256"
    using retype_ref_deref_balanced [OF rt_reach_inv [OF ex_reach(2) ex_in_bounds(3)] _ _ _ 1 2, of 256] k
    by (simp add: ex_in_bounds NUM_CPU_def)
  with 1 2 show ?thesis by blast
qed

end
