(* ===== verification/Ertrie.thy ===== *)
theory Ertrie
  imports Retype_Table
begin

text \<open>
  The embedded radix tries of \<^verbatim>\<open>ertrie.h\<close>, generic in the functions that read and write a node,
  as the \<^verbatim>\<open>ERT_CREATE\<close> macro makes them; \<^verbatim>\<open>Captbl\<close> and \<^verbatim>\<open>Pgtbl\<close> instantiate them.  A pointer
  \<^verbatim>\<open>struct ert_intern *\<close> is either the stack variable \<^verbatim>\<open>r\<close> that holds the root, with its content, or
  the address of a word of memory.  The accumulator \<^verbatim>\<open>*accum\<close> and the memory context \<^verbatim>\<open>*memctxt\<close> are
  threaded through the calls.
\<close>

unbundle bit_operations_syntax

section \<open>The part of the kernel state the tables live in\<close>

datatype cap_t =
    CAP_FREE | CAP_SINV | CAP_SRET | CAP_ASND | CAP_ARCV | CAP_THD | CAP_COMP | CAP_CAPTBL | CAP_PGTBL
  | CAP_FRAME | CAP_VM | CAP_QUIESCENCE | CAP_TCAP | CAP_HW

datatype cap_sz = CAP_SZ_16B | CAP_SZ_32B | CAP_SZ_64B | CAP_SZ_ERR

record cap_header =
  h_liveness_id :: u16
  h_amap :: "4 word"
  h_size :: cap_sz
  h_flags :: "3 word"
  h_type :: cap_t

text \<open>
  \<^verbatim>\<open>struct cap_captbl\<close> and \<^verbatim>\<open>struct cap_pgtbl\<close> without their headers; the two have one layout and the
  kernel casts between them.
\<close>

record cap_tbl =
  refcnt_flags :: u32
  tbl :: addr
  tbl_lvl :: u32
  tbl_parent :: addr
  frozen_ts :: u64

text \<open>
  Memory is kept in one heap per type of object: the words of trie nodes and page tables, the
  capability headers, the bodies of table capabilities, and the static tables.
\<close>

record kmem =
  mem :: "addr \<Rightarrow> u32"
  hdr :: "addr \<Rightarrow> cap_header"
  tbls :: "addr \<Rightarrow> cap_tbl"
  ltb :: ltbl
  rt :: retype_state
  tlbq :: tlb_tbl

definition wr :: "addr \<Rightarrow> u32 \<Rightarrow> 'z kmem_scheme \<Rightarrow> 'z kmem_scheme" where
  "wr a v s = s\<lparr>mem := (mem s)(a := v)\<rparr>"

definition wr_hdr :: "addr \<Rightarrow> cap_header \<Rightarrow> 'z kmem_scheme \<Rightarrow> 'z kmem_scheme" where
  "wr_hdr a h s = s\<lparr>hdr := (hdr s)(a := h)\<rparr>"

definition wr_tbl :: "addr \<Rightarrow> cap_tbl \<Rightarrow> 'z kmem_scheme \<Rightarrow> 'z kmem_scheme" where
  "wr_tbl a b s = s\<lparr>tbls := (tbls s)(a := b)\<rparr>"

lemma wr_sel [simp]:
  "mem (wr a v s) = (mem s)(a := v)" "hdr (wr a v s) = hdr s" "tbls (wr a v s) = tbls s"
  "ltb (wr a v s) = ltb s" "rt (wr a v s) = rt s" "tlbq (wr a v s) = tlbq s"
  "kmem.more (wr a v s) = kmem.more s"
  by (simp_all add: wr_def)

lemma wr_hdr_sel [simp]:
  "mem (wr_hdr a h s) = mem s" "hdr (wr_hdr a h s) = (hdr s)(a := h)" "tbls (wr_hdr a h s) = tbls s"
  "ltb (wr_hdr a h s) = ltb s" "rt (wr_hdr a h s) = rt s" "tlbq (wr_hdr a h s) = tlbq s"
  "kmem.more (wr_hdr a h s) = kmem.more s"
  by (simp_all add: wr_hdr_def)

lemma wr_tbl_sel [simp]:
  "mem (wr_tbl a b s) = mem s" "hdr (wr_tbl a b s) = hdr s" "tbls (wr_tbl a b s) = (tbls s)(a := b)"
  "ltb (wr_tbl a b s) = ltb s" "rt (wr_tbl a b s) = rt s" "tlbq (wr_tbl a b s) = tlbq s"
  "kmem.more (wr_tbl a b s) = kmem.more s"
  by (simp_all add: wr_tbl_def)

text \<open>\<^verbatim>\<open>cos_cas\<close> on a word of memory.\<close>

definition mem_cas :: "addr \<Rightarrow> u32 \<Rightarrow> u32 \<Rightarrow> 'z kmem_scheme \<Rightarrow> int \<times> 'z kmem_scheme" where
  "mem_cas a old new s = (let (r, w) = cos_cas (mem s a) old new in (r, wr a w s))"

lemma mem_cas_current [simp]: "mem s a = old \<Longrightarrow> mem_cas a old new s = (CAS_SUCCESS, wr a new s)"
  by (simp add: mem_cas_def)

section \<open>Tries\<close>

datatype ert_ptr = Imm u32 | At addr

fun ert_next :: "'z kmem_scheme \<Rightarrow> ert_ptr \<Rightarrow> u32" where
  "ert_next s (Imm v) = v"
| "ert_next s (At a) = mem s a"

record 's ert_consts =
  ert_depth :: nat
  ert_order :: nat
  ert_intern_sz :: nat
  ert_last_order :: nat
  ert_last_sz :: nat
  ert_initval :: u32
  initfn :: "addr \<Rightarrow> bool \<Rightarrow> 's \<Rightarrow> 's"
  getfn :: "'s \<Rightarrow> ert_ptr \<Rightarrow> u32 \<Rightarrow> addr \<times> u32"
  isnullfn :: "'s \<Rightarrow> ert_ptr \<Rightarrow> bool"
  setval :: "addr \<Rightarrow> u32"
  setfn :: "ert_ptr \<Rightarrow> addr \<Rightarrow> 's \<Rightarrow> (int \<times> 's) option"
  allocfn :: "nat \<Rightarrow> addr \<Rightarrow> (addr \<times> addr) option"
  setleaffn :: "ert_ptr \<Rightarrow> u32 \<Rightarrow> 's \<Rightarrow> (int \<times> 's) option"
  getleaffn :: "'s \<Rightarrow> ert_ptr \<Rightarrow> u32 \<Rightarrow> addr \<times> u32"

definition ert_maxid :: "'s ert_consts \<Rightarrow> u32" where
  "ert_maxid P =
     (let off = ert_order P * (ert_depth P - 1) + ert_last_order P; maxoff = 32
      in if off > maxoff then push_bit maxoff 1 else push_bit off 1)"

text \<open>The initialisation of a node: entry \<open>i\<close> to entry \<open>base - 1\<close>.\<close>

fun ert_init_from :: "'s ert_consts \<Rightarrow> addr \<Rightarrow> bool \<Rightarrow> nat list \<Rightarrow> 's \<Rightarrow> 's" where
  "ert_init_from P vi isleaf [] s = s"
| "ert_init_from P vi isleaf (i # is) s =
     ert_init_from P vi isleaf is
       (initfn P (vi + of_nat ((if isleaf then ert_last_sz P else ert_intern_sz P) * i)) isleaf s)"

definition ert_init :: "'s ert_consts \<Rightarrow> addr \<Rightarrow> bool \<Rightarrow> 's \<Rightarrow> 's option" where
  "ert_init P vi isleaf s = do {
     kassert (vi \<noteq> 0);
     Some (ert_init_from P vi isleaf [0..<2 ^ (if isleaf then ert_last_order P else ert_order P)] s)
   }"

text \<open>\<^verbatim>\<open>__ert_walk\<close>: one level down, to the entry of \<open>id\<close> in the node below \<open>vi\<close>.\<close>

definition ert_off :: "'s ert_consts \<Rightarrow> u32 \<Rightarrow> nat \<Rightarrow> u32" where
  "ert_off P i lvl =
     (if lvl - 1 = 0 then (i AND mask (ert_last_order P)) * of_nat (ert_last_sz P)
      else (drop_bit (ert_order P * (lvl - 2) + ert_last_order P) i AND mask (ert_order P))
             * of_nat (ert_intern_sz P))"

definition ert_walk :: "'s ert_consts \<Rightarrow> 's \<Rightarrow> ert_ptr \<Rightarrow> u32 \<Rightarrow> u32 \<Rightarrow> nat \<Rightarrow> ert_ptr \<times> u32" where
  "ert_walk P s vi i accum lvl =
     (let (v, accum) = getfn P s vi accum in (At (v + ert_off P i lvl), accum))"

fun ert_lookup_loop ::
  "'s ert_consts \<Rightarrow> 's \<Rightarrow> u32 \<Rightarrow> nat list \<Rightarrow> ert_ptr \<Rightarrow> u32 \<Rightarrow> ert_ptr option \<times> u32" where
  "ert_lookup_loop P s key [] n accum = (Some n, accum)"
| "ert_lookup_loop P s key (i # is) n accum =
     (if isnullfn P s n then (None, accum)
      else let (n, accum) = ert_walk P s n key accum (ert_depth P - i)
           in ert_lookup_loop P s key is n accum)"

text \<open>
  \<^verbatim>\<open>__ert_lookup\<close>.  The result is \<open>None\<close> for the null pointer.  Both tries of the kernel use
  \<^verbatim>\<open>ert_defresolve\<close>, which accepts every entry.
\<close>

definition ert_lookup ::
  "'s ert_consts \<Rightarrow> 's \<Rightarrow> u32 \<Rightarrow> u32 \<Rightarrow> nat \<Rightarrow> nat \<Rightarrow> u32 \<Rightarrow> (ert_ptr option \<times> u32) option" where
  "ert_lookup P s v key dstart dlimit accum = do {
     kassert (v \<noteq> 0);
     kassert (key < ert_maxid P);
     kassert (dlimit \<le> ert_depth P + 1);
     kassert (dstart \<le> dlimit);
     let limit = (if dlimit < ert_depth P then dlimit else ert_depth P);
     let (n, accum) = ert_lookup_loop P s key [dstart..<limit] (Imm v) accum;
     (case n of
        None \<Rightarrow> Some (None, accum)
      | Some n \<Rightarrow>
          if dlimit = ert_depth P + 1
          then (let (v, accum) = getleaffn P s n accum in Some (if v = 0 then None else Some (At v), accum))
          else Some (Some n, accum))
   }"

text \<open>The expansion loop; the result carries the return value when it returns early.\<close>

fun ert_expand_loop ::
  "'s ert_consts \<Rightarrow> u32 \<Rightarrow> nat list \<Rightarrow> ert_ptr \<Rightarrow> u32 \<Rightarrow> addr \<Rightarrow> 's \<Rightarrow>
   ((int option \<times> ert_ptr \<times> u32 \<times> addr) \<times> 's) option" where
  "ert_expand_loop P key [] n accum memctxt s = Some ((None, n, accum, memctxt), s)"
| "ert_expand_loop P key (i # is) n accum memctxt s = do {
     let (n, accum) = ert_walk P s n key accum (ert_depth P - i);
     if \<not> isnullfn P s n then ert_expand_loop P key is n accum memctxt s
     else do {
       (new, memctxt) \<leftarrow> (if i + 2 < ert_depth P then allocfn P (2 ^ ert_order P * ert_intern_sz P) memctxt
                          else allocfn P (2 ^ ert_last_order P * ert_last_sz P) memctxt);
       if new = 0 then Some ((Some (- 1), n, accum, memctxt), s)
       else do {
         s \<leftarrow> ert_init P new (i + 2 \<ge> ert_depth P) s;
         (r, s) \<leftarrow> setfn P n new s;
         ert_expand_loop P key is n accum memctxt s
       }
     }
   }"

text \<open>
  \<^verbatim>\<open>__ert_expand\<close>.  A limit of 0 makes the loop bound \<^verbatim>\<open>limit - 1\<close> wrap around; no caller passes it,
  and it is a failure here.
\<close>

definition ert_expand ::
  "'s ert_consts \<Rightarrow> u32 \<Rightarrow> u32 \<Rightarrow> nat \<Rightarrow> nat \<Rightarrow> u32 \<Rightarrow> addr \<Rightarrow> u32 \<Rightarrow> 's \<Rightarrow> ((int \<times> u32 \<times> addr) \<times> 's) option" where
  "ert_expand P v key dstart dlimit accum memctxt data s = do {
     kassert (v \<noteq> 0);
     kassert (key < ert_maxid P);
     kassert (dlimit \<le> ert_depth P + 1);
     kassert (dstart \<le> dlimit);
     kassert (dlimit \<noteq> 0);
     let limit = (if dlimit < ert_depth P then dlimit else ert_depth P);
     ((ret, n, accum, memctxt), s) \<leftarrow> ert_expand_loop P key [dstart..<limit - 1] (Imm v) accum memctxt s;
     (case ret of
        Some r \<Rightarrow> Some ((r, accum, memctxt), s)
      | None \<Rightarrow>
          if dlimit = ert_depth P + 1
          then (let (n, accum) = ert_walk P s n key accum (ert_depth P - max dstart (limit - 1))
                in if data \<noteq> ert_initval P \<and> \<not> isnullfn P s n then Some ((1, accum, memctxt), s)
                   else do {
                     (r, s) \<leftarrow> setleaffn P n data s;
                     Some ((if r \<noteq> 0 then - ECASFAIL else 0, accum, memctxt), s)
                   })
          else Some ((0, accum, memctxt), s))
   }"

text \<open>
  \<^verbatim>\<open>ert_alloc\<close>: the root node.  Here \<^verbatim>\<open>setfn\<close> stores into a stack variable, of which only the value
  stored is used.
\<close>

definition ert_alloc :: "'s ert_consts \<Rightarrow> addr \<Rightarrow> 's \<Rightarrow> (u32 \<times> 's) option" where
  "ert_alloc P memctxt s = do {
     kassert (ert_order P * (ert_depth P - 1) + ert_last_order P < 32);
     kassert (ert_depth P \<ge> 1);
     (v, memctxt) \<leftarrow> (if ert_depth P > 1 then allocfn P (2 ^ ert_order P * ert_intern_sz P) memctxt
                      else allocfn P (2 ^ ert_last_order P * ert_last_sz P) memctxt);
     if v = 0 then Some (0, s)
     else do {
       s \<leftarrow> ert_init P v (ert_depth P = 1) s;
       Some (setval P v, s)
     }
   }"

section \<open>Two-level tries\<close>

text \<open>
  The contract between the generic trie code and the functions a table plugs in, for the depth both
  tables have.  \<open>node_ok\<close> describes the nodes that may be linked: what is linked is found again, and
  linking or initialising one entry changes no other.
\<close>

locale ert2 =
  fixes P :: "'s ert_consts"
    and node_ok :: "addr \<Rightarrow> bool"
  assumes depth2: "ert_depth P = 2"
    and get_acc: "fst (getfn P s n a) = fst (getfn P s n b)"
    and get_root: "getfn P s (Imm v) a = getfn P s' (Imm v) a"
    and null_root: "isnullfn P s (Imm v) = isnullfn P s' (Imm v)"
    and alloc_ctxt: "allocfn P sz m = Some (x, m') \<Longrightarrow> m \<noteq> 0 \<Longrightarrow> x = m \<and> m' = 0"
    and set_get: "node_ok v \<Longrightarrow> setfn P (At a) v s = Some (r, s') \<Longrightarrow>
      \<not> isnullfn P s' (At a) \<and> fst (getfn P s' (At a) acc) = v"
    and set_frame: "setfn P (At a) v s = Some (r, s') \<Longrightarrow> b \<noteq> a \<Longrightarrow>
      isnullfn P s' (At b) = isnullfn P s (At b) \<and> getfn P s' (At b) acc = getfn P s (At b) acc"
    and init_frame: "b \<noteq> a \<Longrightarrow>
      isnullfn P (initfn P a lf s) (At b) = isnullfn P s (At b) \<and>
      getfn P (initfn P a lf s) (At b) acc = getfn P s (At b) acc"
begin

text \<open>The address of the root entry a key selects, and the leaf entry it resolves to.\<close>

definition root_entry :: "'s \<Rightarrow> u32 \<Rightarrow> u32 \<Rightarrow> addr" where
  "root_entry s v key = fst (getfn P s (Imm v) 0) + ert_off P key 2"

definition leaf_entry :: "'s \<Rightarrow> u32 \<Rightarrow> u32 \<Rightarrow> addr option" where
  "leaf_entry s v key =
     (if isnullfn P s (Imm v) \<or> isnullfn P s (At (root_entry s v key)) then None
      else Some (fst (getfn P s (At (root_entry s v key)) 0) + ert_off P key 1))"

lemma getfn_fst: "getfn P s n a = (w, b) \<Longrightarrow> fst (getfn P s n 0) = w"
  using get_acc [of s n a 0] by simp

lemma lookup_leaf_entry:
  assumes "v \<noteq> 0" "key < ert_maxid P"
  shows "\<exists>acc'. ert_lookup P s v key 0 2 acc = Some (map_option At (leaf_entry s v key), acc')"
  using assms
  by (auto simp: ert_lookup_def kassert_bind depth2 upt_0_2 leaf_entry_def root_entry_def ert_walk_def
      split: prod.splits dest!: getfn_fst)

lemma init_from_frame:
  assumes "\<forall>i \<in> set is. b \<noteq> vi + of_nat ((if leaf then ert_last_sz P else ert_intern_sz P) * i)"
  shows "isnullfn P (ert_init_from P vi leaf is s) (At b) = isnullfn P s (At b) \<and>
    getfn P (ert_init_from P vi leaf is s) (At b) acc = getfn P s (At b) acc"
  using assms
proof (induction "is" arbitrary: s)
  case (Cons i "is")
  then have "b \<noteq> vi + of_nat ((if leaf then ert_last_sz P else ert_intern_sz P) * i)" by simp
  from init_frame [OF this, of leaf s] Cons show ?case by simp
qed simp

text \<open>A successful expansion to the full depth, with a page that was used up, links that page.\<close>

lemma expand_cases:
  assumes "ert_expand P v key 0 2 acc m d s = Some ((r, acc', m'), s')" "m \<noteq> 0"
  shows "(m' = m \<and> r = 0 \<and> s' = s \<and> \<not> isnullfn P s (At (root_entry s v key))) \<or>
    (m' = 0 \<and> r = 0 \<and> isnullfn P s (At (root_entry s v key)) \<and>
     (\<exists>r'. setfn P (At (root_entry s v key)) m
        (ert_init_from P m True [0..<2 ^ ert_last_order P] s) = Some (r', s')))"
  using assms
  by (auto simp: ert_expand_def kassert_bind depth2 ert_walk_def root_entry_def ert_init_def Let_def
      split: prod.splits if_splits bind_splits dest!: getfn_fst dest: alloc_ctxt)

lemma expand_leaf_entry:
  assumes "ert_expand P v key 0 2 acc m d s = Some ((r, acc', 0), s')" "m \<noteq> 0" "node_ok m"
    and "\<not> isnullfn P s (Imm v)"
  shows "leaf_entry s' v key = Some (m + ert_off P key 1)"
proof -
  define a where "a = root_entry s v key"
  from expand_cases [OF assms(1,2)] assms(2) obtain r' where
    "setfn P (At a) m (ert_init_from P m True [0..<2 ^ ert_last_order P] s) = Some (r', s')"
    unfolding a_def by auto
  from set_get [OF assms(3) this, of 0] have "\<not> isnullfn P s' (At a)" "fst (getfn P s' (At a) 0) = m"
    by auto
  moreover have "root_entry s' v key = a" "isnullfn P s' (Imm v) = isnullfn P s (Imm v)"
    unfolding a_def root_entry_def using get_root null_root by metis+
  ultimately show ?thesis using assms(4) by (simp add: leaf_entry_def)
qed

text \<open>The entries of keys below other root entries stay, if the page does not overlap the root node.\<close>

lemma expand_leaf_entry_other:
  assumes "ert_expand P v key 0 2 acc m d s = Some ((r, acc', m'), s')" "m \<noteq> 0"
    and other: "root_entry s v key' \<noteq> root_entry s v key"
    and apart: "\<forall>i < 2 ^ ert_last_order P. root_entry s v key' \<noteq> m + of_nat (ert_last_sz P * i)"
  shows "leaf_entry s' v key' = leaf_entry s v key'"
proof -
  define a where "a = root_entry s v key"
  define b where "b = root_entry s v key'"
  have keep: "root_entry s' v key' = b" "isnullfn P s' (Imm v) = isnullfn P s (Imm v)"
    unfolding b_def root_entry_def using get_root null_root by metis+
  from expand_cases [OF assms(1,2)]
  have "isnullfn P s' (At b) = isnullfn P s (At b) \<and> getfn P s' (At b) 0 = getfn P s (At b) 0"
  proof (elim disjE conjE exE)
    fix r'
    assume "setfn P (At (root_entry s v key)) m
      (ert_init_from P m True [0..<2 ^ ert_last_order P] s) = Some (r', s')"
    from set_frame [OF this, of b 0] init_from_frame [of "[0..<2 ^ ert_last_order P]" b m True s 0] other apart
    show ?thesis by (auto simp: b_def)
  qed auto
  then show ?thesis using keep by (simp add: leaf_entry_def b_def)
qed

end

end
