(* ===== verification/Captbl.thy ===== *)
theory Captbl
  imports Ertrie
begin

text \<open>
  Capability tables (\<^verbatim>\<open>captbl.h\<close>): the trie instance, the allocation of capability slots in cache
  lines (header, allocation map and size class), lookup, addition, deletion with quiescence, and
  the expansion and pruning of tables.
\<close>

section \<open>Sizes\<close>

fun cap_sz_code :: "cap_sz \<Rightarrow> nat" where
  "cap_sz_code CAP_SZ_16B = 0"
| "cap_sz_code CAP_SZ_32B = 1"
| "cap_sz_code CAP_SZ_64B = 2"
| "cap_sz_code CAP_SZ_ERR = 3"

definition CAP_SZ_OFF :: nat where [simp]: "CAP_SZ_OFF = 4"
definition CACHELINE_SIZE :: nat where [simp]: "CACHELINE_SIZE = 64"
definition CACHELINE_ORDER :: nat where [simp]: "CACHELINE_ORDER = 6"

fun captbl_cap2sz :: "cap_t \<Rightarrow> cap_sz" where
  "captbl_cap2sz CAP_SRET = CAP_SZ_16B"
| "captbl_cap2sz CAP_THD = CAP_SZ_16B"
| "captbl_cap2sz CAP_TCAP = CAP_SZ_16B"
| "captbl_cap2sz CAP_CAPTBL = CAP_SZ_32B"
| "captbl_cap2sz CAP_PGTBL = CAP_SZ_32B"
| "captbl_cap2sz CAP_HW = CAP_SZ_32B"
| "captbl_cap2sz CAP_SINV = CAP_SZ_64B"
| "captbl_cap2sz CAP_COMP = CAP_SZ_64B"
| "captbl_cap2sz CAP_ASND = CAP_SZ_64B"
| "captbl_cap2sz CAP_ARCV = CAP_SZ_64B"
| "captbl_cap2sz _ = CAP_SZ_ERR"

definition captbl_cap2bytes :: "cap_t \<Rightarrow> nat" where
  "captbl_cap2bytes c = 2 ^ (cap_sz_code (captbl_cap2sz c) + CAP_SZ_OFF)"

definition captbl_idsize :: "cap_t \<Rightarrow> nat" where
  "captbl_idsize c = 2 ^ cap_sz_code (captbl_cap2sz c)"

definition CAP_FLAG_RO :: "3 word" where "CAP_FLAG_RO = 1"

text \<open>The allocation bits each size class may use.\<close>

fun cap_mask :: "cap_sz \<Rightarrow> 4 word" where
  "cap_mask CAP_SZ_16B = 15"
| "cap_mask CAP_SZ_32B = 5"
| "cap_mask CAP_SZ_64B = 1"
| "cap_mask CAP_SZ_ERR = 0"

definition CAP_MEM_REFCNT_SZ :: nat where "CAP_MEM_REFCNT_SZ = 30"
definition CAP_REFCNT_MAX :: u32 where "CAP_REFCNT_MAX = push_bit CAP_MEM_REFCNT_SZ 1 - 1"
definition CAP_MEM_FROZEN_FLAG :: u32 where "CAP_MEM_FROZEN_FLAG = push_bit CAP_MEM_REFCNT_SZ 1"
definition CAP_MEM_SCAN_FLAG :: u32 where "CAP_MEM_SCAN_FLAG = push_bit (CAP_MEM_REFCNT_SZ + 1) 1"

section \<open>The trie instance\<close>

definition CAPTBL_DEPTH :: nat where [simp]: "CAPTBL_DEPTH = 2"
definition CAPTBL_INTERN_ORD :: nat where [simp]: "CAPTBL_INTERN_ORD = 9"
definition CAPTBL_INTERNSZ :: nat where [simp]: "CAPTBL_INTERNSZ = 4"
definition CAPTBL_LEAF_ORD :: nat where [simp]: "CAPTBL_LEAF_ORD = 7"
definition CAPTBL_LEAFSZ :: nat where [simp]: "CAPTBL_LEAFSZ = 16"

text \<open>\<^verbatim>\<open>CT_MSK\<close>: round an address down to a multiple of \<open>2 ^ o\<close>.\<close>

definition CT_MSK :: "u32 \<Rightarrow> nat \<Rightarrow> u32" where
  "CT_MSK v ord = v AND NOT (mask ord)"

text \<open>The difference of two \<^verbatim>\<open>struct cap_min *\<close>.\<close>

definition cap_off :: "addr \<Rightarrow> addr \<Rightarrow> nat" where
  "cap_off c h = unat ((c - h) div 16)"

definition captbl_allocfn :: "nat \<Rightarrow> addr \<Rightarrow> (addr \<times> addr) option" where
  "captbl_allocfn sz m = do { kassert (sz \<le> unat PAGE_SIZE div 2); Some (m, 0) }"

definition captbl_getleaf :: "'z kmem_scheme \<Rightarrow> addr \<Rightarrow> addr" where
  "captbl_getleaf s a =
     (let h = CT_MSK a CACHELINE_ORDER;
          c = CT_MSK a (cap_sz_code (captbl_cap2sz CAP_SINV) + CAP_SZ_OFF)
      in if h_size (hdr s h) = captbl_cap2sz CAP_SINV \<and> bit (h_amap (hdr s h)) (cap_off c h) then c
         else let c = CT_MSK a (cap_sz_code (h_size (hdr s h)) + CAP_SZ_OFF);
                  m = (if bit (h_amap (hdr s h)) (cap_off c h) then 1 else 0) - 1 :: u32
              in c AND NOT m)"

definition captbl_consts :: "'z kmem_scheme ert_consts" where
  "captbl_consts =
     \<lparr>ert_depth = CAPTBL_DEPTH, ert_order = CAPTBL_INTERN_ORD, ert_intern_sz = CAPTBL_INTERNSZ,
      ert_last_order = CAPTBL_LEAF_ORD, ert_last_sz = CAPTBL_LEAFSZ, ert_initval = 0,
      initfn = (\<lambda>a leaf s. if leaf then s else wr a 0 s),
      getfn = (\<lambda>s n accum. (ert_next s n, accum)),
      isnullfn = (\<lambda>s n. ert_next s n = 0),
      setval = (\<lambda>v. v),
      setfn = (\<lambda>n v s. case n of At a \<Rightarrow> Some (0, wr a v s) | Imm _ \<Rightarrow> Some (0, s)),
      allocfn = captbl_allocfn,
      setleaffn = (\<lambda>n v s. None),
      getleaffn = (\<lambda>s n accum. (case n of At a \<Rightarrow> captbl_getleaf s a | Imm _ \<Rightarrow> 0, accum))\<rparr>"

text \<open>The zeroing of a node that is not a leaf, and the free headers of a leaf.\<close>

definition captbl_free_hdr :: cap_header where
  "captbl_free_hdr =
     \<lparr>h_liveness_id = 0, h_amap = 0, h_size = CAP_SZ_64B, h_flags = 0, h_type = CAP_FREE\<rparr>"

fun captbl_init_from :: "addr \<Rightarrow> bool \<Rightarrow> nat list \<Rightarrow> 'z kmem_scheme \<Rightarrow> 'z kmem_scheme" where
  "captbl_init_from node leaf [] s = s"
| "captbl_init_from node leaf (i # is) s =
     captbl_init_from node leaf is
       (if leaf then wr_hdr (node + of_nat (i * CAPTBL_LEAFSZ)) captbl_free_hdr s
        else wr (node + of_nat (i * CAPTBL_INTERNSZ)) 0 s)"

definition captbl_init :: "addr \<Rightarrow> bool \<Rightarrow> 'z kmem_scheme \<Rightarrow> 'z kmem_scheme" where
  "captbl_init node leaf s =
     captbl_init_from node leaf [0..<2 ^ (if leaf then CAPTBL_LEAF_ORD else CAPTBL_INTERN_ORD)] s"

definition captbl_alloc :: "addr \<Rightarrow> 'z kmem_scheme \<Rightarrow> (addr \<times> 'z kmem_scheme) option" where
  "captbl_alloc page s = ert_alloc captbl_consts page s"

definition captbl_maxid :: u32 where
  "captbl_maxid = ert_maxid (captbl_consts :: unit kmem_scheme ert_consts)"

definition captbl_maxdepth :: nat where "captbl_maxdepth = CAPTBL_DEPTH"

text \<open>A lookup that yields an address, or the null pointer.\<close>

definition lkup_addr :: "(ert_ptr option \<times> u32) option \<Rightarrow> addr option" where
  "lkup_addr r = map_option (\<lambda>(n, accum). case n of Some (At a) \<Rightarrow> a | _ \<Rightarrow> 0) r"

definition captbl_lkup_lvl :: "'z kmem_scheme \<Rightarrow> addr \<Rightarrow> capid \<Rightarrow> nat \<Rightarrow> nat \<Rightarrow> addr option" where
  "captbl_lkup_lvl s t cap start_lvl end_lvl =
     lkup_addr (ert_lookup captbl_consts s t (cap AND (captbl_maxid - 1)) start_lvl end_lvl 0)"

text \<open>\<^verbatim>\<open>__captbl_lkupan\<close>\<close>

definition captbl_lkupan :: "'z kmem_scheme \<Rightarrow> addr \<Rightarrow> capid \<Rightarrow> nat \<Rightarrow> addr option" where
  "captbl_lkupan s t cap dlimit = lkup_addr (ert_lookup captbl_consts s t cap 0 dlimit 0)"

definition captbl_lkup :: "'z kmem_scheme \<Rightarrow> addr \<Rightarrow> capid \<Rightarrow> addr option" where
  "captbl_lkup s t cap = captbl_lkup_lvl s t cap 0 (CAPTBL_DEPTH + 1)"

definition captbl_header_validate :: "cap_header \<Rightarrow> cap_sz \<Rightarrow> bool" where
  "captbl_header_validate h sz \<longleftrightarrow> sz \<noteq> h_size h \<or> h_amap h AND NOT (cap_mask sz) \<noteq> 0"

text \<open>\<^verbatim>\<open>CTSTORE\<close>: compare-and-swap of a whole header word.\<close>

definition ctstore :: "addr \<Rightarrow> cap_header \<Rightarrow> cap_header \<Rightarrow> 'z kmem_scheme \<Rightarrow> int \<times> 'z kmem_scheme" where
  "ctstore a n old s = (let (r, w) = cos_cas (hdr s a) old n in (if r = 0 then - 1 else 0, wr_hdr a w s))"

section \<open>Addition, deletion\<close>

text \<open>
  The quiescence check of a slot: a slot that was deactivated may be reused only when the kernel's
  quiescence period has passed since the time stamp of its liveness entry.
\<close>

definition slot_quiescent :: "u64 \<Rightarrow> 'z kmem_scheme \<Rightarrow> addr \<Rightarrow> int option" where
  "slot_quiescent now s p =
     (if h_liveness_id (hdr s p) \<noteq> 0 \<and> h_type (hdr s p) = CAP_QUIESCENCE
      then do {
        (r, past_ts) \<leftarrow> ltbl_get_timestamp (ltb s) (ucast (h_liveness_id (hdr s p))) 0;
        Some (if r \<noteq> 0 then - EFAULT
              else if \<not> QUIESCENCE_CHECK now past_ts KERN_QUIESCENCE_CYCLES then - EQUIESCENCE else 0)
      }
      else Some 0)"

fun line_quiescent :: "u64 \<Rightarrow> 'z kmem_scheme \<Rightarrow> addr \<Rightarrow> addr list \<Rightarrow> int option" where
  "line_quiescent now s h [] = Some 0"
| "line_quiescent now s h (a # as) = do {
     kassert (a < h + 64);
     r \<leftarrow> slot_quiescent now s a;
     if r \<noteq> 0 then Some r else line_quiescent now s h as
   }"

text \<open>The headers of the entries of a cache line whose entries have \<open>ent_size\<close> bytes.\<close>

definition line_entries :: "addr \<Rightarrow> nat \<Rightarrow> addr list" where
  "line_entries h ent_size = map (\<lambda>i. h + of_nat (i * ent_size)) [0..<CACHELINE_SIZE div ent_size]"

definition captbl_add ::
  "u64 \<Rightarrow> addr \<Rightarrow> capid \<Rightarrow> cap_t \<Rightarrow> 'z kmem_scheme \<Rightarrow> ((addr \<times> int) \<times> 'z kmem_scheme) option" where
  "captbl_add now t cap type s =
     (let sz = captbl_cap2sz type
      in if sz = CAP_SZ_ERR then Some ((0, - EINVAL), s)
         else if cap \<ge> captbl_maxid then Some ((0, - EINVAL), s)
         else do {
           p \<leftarrow> captbl_lkupan s t cap CAPTBL_DEPTH;
           if p = 0 then Some ((0, - EPERM), s)
           else do {
             let h = CT_MSK p CACHELINE_ORDER;
             let l = hdr s h;
             let old = hdr s h;
             if h_flags l AND CAP_FLAG_RO \<noteq> 0 then Some ((0, - EPERM), s)
             else do {
               let off = cap_off p h;
               kassert (off < 4);
               if bit (h_amap l) off then Some ((0, - EEXIST), s)
               else if h_amap l \<noteq> 0 \<and> h_size l \<noteq> sz then Some ((0, - EEXIST), s)
               else do {
                 let l = l\<lparr>h_amap := h_amap l OR push_bit off 1\<rparr>;
                 q \<leftarrow> (if h_type l = CAP_QUIESCENCE \<and> h_size l \<noteq> sz
                      then do {
                        kassert (cap_sz_code (h_size l) \<noteq> 0);
                        line_quiescent now s h (line_entries h (2 ^ (cap_sz_code (h_size l) + CAP_SZ_OFF)))
                      }
                      else slot_quiescent now s p);
                 if q \<noteq> 0 then Some ((0, q), s)
                 else do {
                   let l = l\<lparr>h_size := sz\<rparr>;
                   if captbl_header_validate l sz then Some ((0, - EINVAL), s)
                   else do {
                     let l = (if p = h then l\<lparr>h_liveness_id := 0, h_type := type\<rparr> else l);
                     let (r, s) = ctstore h l old s;
                     if r \<noteq> 0 then Some ((0, - EEXIST), s)
                     else do {
                       let s = (if p \<noteq> h then wr_hdr p ((hdr s p)\<lparr>h_liveness_id := 0, h_type := type\<rparr>) s else s);
                       Some ((p, 0), s)
                     }
                   }
                 }
               }
             }
           }
         })"

text \<open>
  \<^verbatim>\<open>captbl_del\<close> and \<^verbatim>\<open>captbl_clear\<close> differ in the type a removed capability gets and in the update
  of the liveness time stamp; \<open>unalloc\<close> is the part they share: it marks the slot and removes its
  allocation bit.  The liveness identifier is cut to the 16 bits of the header field.
\<close>

definition captbl_unalloc ::
  "cap_t \<Rightarrow> addr \<Rightarrow> addr \<Rightarrow> u32 \<Rightarrow> 'z kmem_scheme \<Rightarrow> int \<times> 'z kmem_scheme" where
  "captbl_unalloc mark h p lid s =
     (let l = hdr s h;
          old = hdr s h;
          off = cap_off p h;
          (l, s) = (if h = p then (l\<lparr>h_liveness_id := ucast lid, h_type := mark\<rparr>, s)
                    else (l, wr_hdr p ((hdr s p)\<lparr>h_liveness_id := ucast lid, h_type := mark\<rparr>) s));
          l = l\<lparr>h_amap := h_amap l AND (NOT (push_bit off 1))\<rparr>;
          l = (if h_amap l = 0 then l\<lparr>h_type := mark\<rparr> else l);
          (r, s) = ctstore h l old s
      in (if r \<noteq> 0 then - EEXIST else 0, s))"


definition captbl_clear ::
  "addr \<Rightarrow> capid \<Rightarrow> cap_t \<Rightarrow> u32 \<Rightarrow> ('z kmem_scheme, int) kop" where
  "captbl_clear t cap type lid s =
     (if cap \<ge> captbl_maxid then Some (- EINVAL, s)
      else do {
        p \<leftarrow> captbl_lkupan s t cap CAPTBL_DEPTH;
        if p = 0 then Some (- EPERM, s)
        else if p \<noteq> captbl_getleaf s p then Some (- EINVAL, s)
        else if h_type (hdr s p) \<noteq> type then Some (- EINVAL, s)
        else do {
          let h = CT_MSK p CACHELINE_ORDER;
          kassert (cap_off p h < 4);
          if h_flags (hdr s h) AND CAP_FLAG_RO \<noteq> 0 then Some (- EPERM, s)
          else if \<not> bit (h_amap (hdr s h)) (cap_off p h) then Some (- ENOENT, s)
          else Some (captbl_unalloc CAP_FREE h p lid s)
        }
      })"

section \<open>Expansion, pruning, creation\<close>

definition captbl_expand ::
  "addr \<Rightarrow> capid \<Rightarrow> nat \<Rightarrow> addr \<Rightarrow> ('z kmem_scheme, int) kop" where
  "captbl_expand t cap depth memctxt s =
     (if cap \<ge> captbl_maxid \<or> depth > captbl_maxdepth then Some (- EINVAL, s)
      else do {
        ((ret, _, memctxt), s) \<leftarrow> ert_expand captbl_consts t cap 0 depth 0 memctxt 0 s;
        if memctxt \<noteq> 0 then Some (- EEXIST, s)
        else if ret \<noteq> 0 then Some (1, s)
        else Some (0, s)
      })"

definition captbl_prune ::
  "addr \<Rightarrow> capid \<Rightarrow> nat \<Rightarrow> 'z kmem_scheme \<Rightarrow> ((addr \<times> int) \<times> 'z kmem_scheme) option" where
  "captbl_prune t cap depth s =
     (if cap \<ge> captbl_maxid \<or> depth \<ge> captbl_maxdepth then Some ((0, - EINVAL), s)
      else do {
        intern \<leftarrow> captbl_lkupan s t cap depth;
        if intern = 0 then Some ((0, - EPERM), s)
        else do {
          let p = mem s intern;
          let (r, s) = mem_cas intern p 0 s;
          if r = 0 then Some ((0, - EEXIST), s) else Some ((p, 0), s)
        }
      })"

definition captbl_create :: "addr \<Rightarrow> 'z kmem_scheme \<Rightarrow> (addr \<times> 'z kmem_scheme) option" where
  "captbl_create page s = do {
     kassert (page \<noteq> 0);
     (ct, s) \<leftarrow> captbl_alloc page s;
     kassert (ct \<noteq> 0);
     let s = captbl_init page False s;
     let s = captbl_init (page + PAGE_SIZE div 2) True s;
     (ret, s) \<leftarrow> captbl_expand ct 0 captbl_maxdepth (page + PAGE_SIZE div 2) s;
     kassert (ret = 0);
     Some (ct, s)
   }"

definition captbl_activate_boot :: "u64 \<Rightarrow> addr \<Rightarrow> capid \<Rightarrow> ('z kmem_scheme, int) kop" where
  "captbl_activate_boot now t cap s = do {
     ((ctc, ret), s) \<leftarrow> captbl_add now t cap CAP_CAPTBL s;
     if ctc = 0 then Some (ret, s)
     else do {
       let s = wr_tbl ctc ((tbls s ctc)\<lparr>tbl := t, tbl_lvl := 0, refcnt_flags := 1, tbl_parent := 0\<rparr>) s;
       let s = wr_hdr ctc ((hdr s ctc)\<lparr>h_type := CAP_CAPTBL\<rparr>) s;
       Some (0, s)
     }
   }"

section \<open>Joining a second-level table\<close>

text \<open>\<^verbatim>\<open>cos_faa\<close> and \<^verbatim>\<open>cos_cas\<close> on the reference count of a table capability.\<close>

definition refcnt_faa :: "addr \<Rightarrow> u32 \<Rightarrow> 'z kmem_scheme \<Rightarrow> 'z kmem_scheme" where
  "refcnt_faa a d s = wr_tbl a ((tbls s a)\<lparr>refcnt_flags := refcnt_flags (tbls s a) + d\<rparr>) s"

definition refcnt_cas :: "addr \<Rightarrow> u32 \<Rightarrow> u32 \<Rightarrow> 'z kmem_scheme \<Rightarrow> int \<times> 'z kmem_scheme" where
  "refcnt_cas a old new s =
     (let (r, w) = cos_cas (refcnt_flags (tbls s a)) old new in (r, wr_tbl a ((tbls s a)\<lparr>refcnt_flags := w\<rparr>) s))"

definition captbl_cons :: "addr \<Rightarrow> addr \<Rightarrow> capid \<Rightarrow> ('z kmem_scheme, int) kop" where
  "captbl_cons target_ct cons_cap cons_addr s =
     (if h_type (hdr s target_ct) \<noteq> CAP_CAPTBL \<or> tbl_lvl (tbls s target_ct) \<noteq> 0 then Some (- EINVAL, s)
      else if h_type (hdr s cons_cap) \<noteq> CAP_CAPTBL \<or> tbl_lvl (tbls s cons_cap) \<noteq> 1 then Some (- EINVAL, s)
      else do {
        let captbl_mem = tbl (tbls s cons_cap);
        let l = refcnt_flags (tbls s cons_cap);
        if l AND CAP_MEM_FROZEN_FLAG \<noteq> 0 \<or> refcnt_flags (tbls s target_ct) AND CAP_MEM_FROZEN_FLAG \<noteq> 0
        then Some (- EINVAL, s)
        else if l AND CAP_REFCNT_MAX = CAP_REFCNT_MAX then Some (- EOVERFLOW, s)
        else do {
          let (r, s) = refcnt_cas cons_cap l (l + 1) s;
          if r \<noteq> CAS_SUCCESS then Some (- ECASFAIL, s)
          else do {
            (ret, s) \<leftarrow> captbl_expand (tbl (tbls s target_ct)) cons_addr captbl_maxdepth captbl_mem s;
            if ret \<noteq> 0 then Some (ret, refcnt_faa cons_cap (- 1) s)
            else do {
              (ret, s) \<leftarrow> captbl_expand (tbl (tbls s target_ct)) (cons_addr + PAGE_SIZE div (2 * of_nat CAPTBL_LEAFSZ))
                             captbl_maxdepth (captbl_mem + PAGE_SIZE div 2) s;
              if ret \<noteq> 0
              then do {
                (_, s) \<leftarrow> captbl_expand (tbl (tbls s target_ct)) cons_addr captbl_maxdepth 0 s;
                Some (ret, refcnt_faa cons_cap (- 1) s)
              }
              else Some (0, s)
            }
          }
        }
      })"

section \<open>Scanning a leaf before its memory is released\<close>

fun leaflvl_scan_from :: "(nat \<Rightarrow> u64) \<Rightarrow> 'z kmem_scheme \<Rightarrow> addr \<Rightarrow> nat list \<Rightarrow> int option" where
  "leaflvl_scan_from now s ct [] = Some 0"
| "leaflvl_scan_from now s ct (i # is) = do {
     h \<leftarrow> captbl_lkup_lvl s ct (of_nat (i * (CACHELINE_SIZE div CAPTBL_LEAFSZ))) (CAPTBL_DEPTH - 1) CAPTBL_DEPTH;
     let l = hdr s h;
     if h_amap l \<noteq> 0 then Some (- EINVAL)
     else do {
       r \<leftarrow> line_quiescent (now i) s h (line_entries h (2 ^ (cap_sz_code (h_size l) + CAP_SZ_OFF)));
       if r \<noteq> 0 then Some r else leaflvl_scan_from now s ct is
     }
   }"

definition captbl_leaflvl_scan :: "(nat \<Rightarrow> u64) \<Rightarrow> 'z kmem_scheme \<Rightarrow> addr \<Rightarrow> int option" where
  "captbl_leaflvl_scan now s ct =
     leaflvl_scan_from now s ct [0..<(2 ^ CAPTBL_LEAF_ORD * CAPTBL_LEAFSZ) div CACHELINE_SIZE]"

text \<open>The two half pages of a second-level table are scanned in turn.\<close>

definition captbl_kmem_scan :: "(nat \<Rightarrow> nat \<Rightarrow> u64) \<Rightarrow> 'z kmem_scheme \<Rightarrow> addr \<Rightarrow> int option" where
  "captbl_kmem_scan now s cap = do {
     let ct = tbl (tbls s cap);
     kassert (tbl_lvl (tbls s cap) = of_nat (CAPTBL_DEPTH - 1));
     ret \<leftarrow> captbl_leaflvl_scan (now 0) s ct;
     if ret \<noteq> 0 then Some ret else captbl_leaflvl_scan (now 1) s (ct + PAGE_SIZE div 2)
   }"

section \<open>Slots of a cache line\<close>

lemma CT_MSK_push_drop: "CT_MSK v n = push_bit n (drop_bit n v)"
  unfolding CT_MSK_def by (rule bit_word_eqI) (auto simp: bit_simps)

lemma unat_CT_MSK: "unat (CT_MSK v n) = unat v div 2 ^ n * 2 ^ n"
proof -
  have "unat (push_bit n (drop_bit n v)) = take_bit 32 (push_bit n (drop_bit n (unat v)))"
    by (simp add: unsigned_push_bit_eq unat_drop_bit_eq)
  then have "unat (push_bit n (drop_bit n v)) = unat v div 2 ^ n * 2 ^ n mod 2 ^ 32"
    by (simp only: take_bit_eq_mod push_bit_eq_mult drop_bit_eq_div)
  moreover have "unat v div 2 ^ n * 2 ^ n \<le> unat v"
    by simp
  then have "unat v div 2 ^ n * 2 ^ n < 2 ^ 32"
    by (rule order.strict_trans1) (use unsigned_less [of v] in simp)
  ultimately show ?thesis
    by (simp add: CT_MSK_push_drop)
qed

definition slot_ix :: "addr \<Rightarrow> nat" where
  "slot_ix p = unat p mod 64 div 16"

text \<open>The index, within its line, of the entry of size class \<open>sz\<close> that covers slot \<open>i\<close>.\<close>

fun ent_ix :: "cap_sz \<Rightarrow> nat \<Rightarrow> nat" where
  "ent_ix CAP_SZ_16B i = i"
| "ent_ix CAP_SZ_32B i = 2 * (i div 2)"
| "ent_ix _ i = 0"

lemma slot_ix_less [simp]: "slot_ix p < 4"
  by (simp add: slot_ix_def)

lemma line_split:
  obtains q i k where "unat (p :: addr) = 64 * q + 16 * i + k" "i < 4" "k < 16" "slot_ix p = i"
proof
  show "unat p = 64 * (unat p div 64) + 16 * slot_ix p + unat p mod 64 mod 16"
    by (simp add: slot_ix_def)
  show "slot_ix p < 4" "unat p mod 64 mod 16 < 16" "slot_ix p = slot_ix p" by simp_all
qed

lemma line_divs:
  assumes "i < 4" "k < 16"
  shows "(64 * q + 16 * i + k) div 64 = q" "(64 * q + 16 * i + k) div 32 = 2 * q + i div 2"
    "(64 * q + 16 * i + k) div 16 = 4 * q + (i :: nat)"
  using assms by presburger+

lemma cap_off_eq: "unat h \<le> unat c \<Longrightarrow> cap_off c h = (unat c - unat h) div 16"
  by (simp add: cap_off_def unat_div unat_sub word_le_nat_alt)

lemma cap_off_ent:
  assumes "sz \<noteq> CAP_SZ_ERR"
  shows "cap_off (CT_MSK a (cap_sz_code sz + 4)) (CT_MSK a 6) = ent_ix sz (slot_ix a)"
proof -
  obtain q i k where a: "unat a = 64 * q + 16 * i + k" and ik: "i < 4" "k < 16" and ix: "slot_ix a = i"
    by (rule line_split)
  note divs = line_divs [OF ik, of q, folded a]
  have le: "unat (CT_MSK a 6) \<le> unat (CT_MSK a (cap_sz_code sz + 4))"
    using assms ik by (cases sz) (simp_all add: unat_CT_MSK divs)
  show ?thesis
    unfolding cap_off_eq [OF le] using assms by (cases sz) (simp_all add: unat_CT_MSK divs ix)
qed

lemma cap_off_slot [simp]: "cap_off p (CT_MSK p 6) = slot_ix p"
proof -
  have "unat p div 64 * 64 \<le> unat p" by simp
  then have "cap_off p (CT_MSK p 6) = (unat p - unat p div 64 * 64) div 16"
    by (subst cap_off_eq) (simp_all add: unat_CT_MSK)
  then show ?thesis by (simp add: slot_ix_def minus_div_mult_eq_mod)
qed

lemma captbl_getleaf_eq:
  assumes "h_size (hdr s (CT_MSK a 6)) \<noteq> CAP_SZ_ERR"
  shows "captbl_getleaf s a =
    (let l = hdr s (CT_MSK a 6)
     in if bit (h_amap l) (ent_ix (h_size l) (slot_ix a)) then CT_MSK a (cap_sz_code (h_size l) + 4) else 0)"
  using assms cap_off_ent [OF assms, of a] cap_off_ent [of CAP_SZ_64B a]
  by (auto simp: captbl_getleaf_def Let_def)

section \<open>The table as a two-level trie\<close>

lemma captbl_consts_sel [simp]:
  "ert_depth captbl_consts = 2" "ert_order captbl_consts = 9" "ert_intern_sz captbl_consts = 4"
  "ert_last_order captbl_consts = 7" "ert_last_sz captbl_consts = 16" "ert_initval captbl_consts = 0"
  "initfn captbl_consts a lf s = (if lf then s else wr a 0 s)"
  "getfn captbl_consts s n acc = (ert_next s n, acc)"
  "isnullfn captbl_consts s n = (ert_next s n = 0)"
  "setval captbl_consts v = v"
  "setfn captbl_consts (At a) v s = Some (0, wr a v s)"
  "allocfn captbl_consts = captbl_allocfn"
  "getleaffn captbl_consts s (At a) acc = (captbl_getleaf s a, acc)"
  by (simp_all add: captbl_consts_def)

lemma ert_maxid_captbl [simp]: "ert_maxid (captbl_consts :: 'z kmem_scheme ert_consts) = 0x10000"
  by (simp add: ert_maxid_def push_bit_eq_mult)

lemma captbl_maxid [simp]: "captbl_maxid = 0x10000"
  by (simp add: captbl_maxid_def)

interpretation ct: ert2 "captbl_consts :: 'z kmem_scheme ert_consts" "\<lambda>v. v \<noteq> 0"
  by unfold_locales (auto simp: captbl_allocfn_def kassert_bind split: if_splits)

text \<open>The slot of a capability identifier: its address in a leaf, or 0 when the leaf is missing.\<close>

definition captbl_slot :: "'z kmem_scheme \<Rightarrow> addr \<Rightarrow> capid \<Rightarrow> addr" where
  "captbl_slot s t cap =
     (let leaf = mem s (t + (drop_bit 7 cap AND mask 9) * 4)
      in if leaf = 0 then 0 else leaf + (cap AND mask 7) * 16)"

lemma ct_root_entry: "ct.root_entry s t cap = t + (drop_bit 7 cap AND mask 9) * 4"
  by (simp add: ct.root_entry_def ert_off_def)

lemma ct_leaf_entry:
  "t \<noteq> 0 \<Longrightarrow> ct.leaf_entry s t cap =
     (let leaf = mem s (t + (drop_bit 7 cap AND mask 9) * 4)
      in if leaf = 0 then None else Some (leaf + (cap AND mask 7) * 16))"
  by (simp add: ct.leaf_entry_def ct_root_entry ert_off_def Let_def)

lemma captbl_lkupan_slot:
  assumes "t \<noteq> 0" "cap < captbl_maxid"
  shows "captbl_lkupan s t cap 2 = Some (captbl_slot s t cap)"
proof -
  obtain acc' where "ert_lookup captbl_consts s t cap 0 2 0 = Some (map_option At (ct.leaf_entry s t cap), acc')"
    using ct.lookup_leaf_entry [of t cap s 0] assms by auto
  then show ?thesis
    using assms(1) by (simp add: captbl_lkupan_def lkup_addr_def ct_leaf_entry captbl_slot_def Let_def)
qed

lemma and_maxid: "(cap :: u32) < 0x10000 \<Longrightarrow> cap AND 0xFFFF = cap"
proof -
  assume "cap < 0x10000"
  then have "take_bit 16 cap = cap"
    by (simp add: word_unat_eq_iff unsigned_take_bit_eq take_bit_nat_eq_self word_less_nat_alt)
  then show ?thesis
    by (simp add: take_bit_eq_mask mask_eq_exp_minus_1)
qed

lemma captbl_lkup_slot:
  assumes "t \<noteq> 0" "cap < captbl_maxid"
  shows "captbl_lkup s t cap =
    Some (let p = captbl_slot s t cap
          in if mem s (t + (drop_bit 7 cap AND mask 9) * 4) = 0 then 0 else captbl_getleaf s p)"
  using assms
  by (simp add: captbl_lkup_def captbl_lkup_lvl_def ert_lookup_def kassert_bind upt_0_2 ert_walk_def
      lkup_addr_def captbl_slot_def Let_def and_maxid ert_off_def)

text \<open>
  Well-formed tables: a leaf is aligned to cache lines, and a line's allocation map uses only the
  bits its size class has.
\<close>

definition line_ok :: "cap_header \<Rightarrow> bool" where
  "line_ok l \<longleftrightarrow> h_size l \<noteq> CAP_SZ_ERR \<and> h_amap l AND NOT (cap_mask (h_size l)) = 0"

definition lines_ok :: "'z kmem_scheme \<Rightarrow> bool" where
  "lines_ok s \<longleftrightarrow> (\<forall>a. line_ok (hdr s (CT_MSK a 6)))"

definition captbl_aligned :: "'z kmem_scheme \<Rightarrow> addr \<Rightarrow> bool" where
  "captbl_aligned s t \<longleftrightarrow> (\<forall>cap. 64 dvd unat (mem s (t + (drop_bit 7 cap AND mask 9) * 4)))"

lemma mask_bit_ent_ix:
  assumes "bit (m :: 4 word) i" "m AND NOT (cap_mask sz) = 0" "sz \<noteq> CAP_SZ_ERR" "i < 4"
  shows "ent_ix sz i = i"
proof -
  have "bit (cap_mask sz) i"
  proof -
    have "bit (m AND NOT (cap_mask sz)) i \<longleftrightarrow> bit m i \<and> i < 4 \<and> \<not> bit (cap_mask sz) i"
      by (simp add: bit_simps)
    then show ?thesis using assms by simp
  qed
  then show ?thesis
    using assms(3,4) by (cases sz) (auto simp: less_Suc_eq numeral_eq_Suc bit_Suc)
qed

lemma slot_ix_zero_iff: "16 dvd unat p \<Longrightarrow> slot_ix p = 0 \<longleftrightarrow> p = CT_MSK p 6"
proof -
  assume al: "16 dvd unat p"
  obtain q i k where a: "unat p = 64 * q + 16 * i + k" and ik: "i < 4" "k < 16" and ix: "slot_ix p = i"
    by (rule line_split)
  from al have "k = 0" unfolding a using ik(2) by presburger
  then show ?thesis
    using line_divs [OF ik, of q, folded a] a ix by (simp add: word_unat_eq_iff unat_CT_MSK)
qed

lemma CT_MSK_16 [simp]: "16 dvd unat p \<Longrightarrow> CT_MSK p 4 = p"
  by (simp add: word_unat_eq_iff unat_CT_MSK)

section \<open>What a successful operation does\<close>

lemma ctstore_current [simp]: "hdr s a = old \<Longrightarrow> ctstore a n old s = (0, wr_hdr a n s)"
  by (simp add: ctstore_def)

text \<open>The header updates of an addition.\<close>

definition added :: "addr \<Rightarrow> cap_t \<Rightarrow> 'z kmem_scheme \<Rightarrow> 'z kmem_scheme" where
  "added p type s =
     (let h = CT_MSK p 6;
          l = (hdr s h)\<lparr>h_amap := h_amap (hdr s h) OR push_bit (slot_ix p) 1, h_size := captbl_cap2sz type\<rparr>
      in if p = h then wr_hdr h (l\<lparr>h_liveness_id := 0, h_type := type\<rparr>) s
         else wr_hdr p ((hdr s p)\<lparr>h_liveness_id := 0, h_type := type\<rparr>) (wr_hdr h l s))"

lemma captbl_add_success:
  assumes "captbl_add now t cap type s = Some ((p, r), s')" "p \<noteq> 0" "t \<noteq> 0"
  shows "r = 0 \<and> cap < captbl_maxid \<and> p = captbl_slot s t cap \<and> captbl_cap2sz type \<noteq> CAP_SZ_ERR \<and>
    h_flags (hdr s (CT_MSK p 6)) AND CAP_FLAG_RO = 0 \<and>
    \<not> bit (h_amap (hdr s (CT_MSK p 6))) (slot_ix p) \<and>
    (h_amap (hdr s (CT_MSK p 6)) \<noteq> 0 \<longrightarrow> h_size (hdr s (CT_MSK p 6)) = captbl_cap2sz type) \<and>
    (h_amap (hdr s (CT_MSK p 6)) OR push_bit (slot_ix p) 1) AND NOT (cap_mask (captbl_cap2sz type)) = 0 \<and>
    (if h_type (hdr s (CT_MSK p 6)) = CAP_QUIESCENCE \<and> h_size (hdr s (CT_MSK p 6)) \<noteq> captbl_cap2sz type
     then line_quiescent now s (CT_MSK p 6)
       (line_entries (CT_MSK p 6) (2 ^ (cap_sz_code (h_size (hdr s (CT_MSK p 6))) + CAP_SZ_OFF))) = Some 0
     else slot_quiescent now s p = Some 0) \<and>
    s' = added p type s"
  using assms
  by (auto simp: captbl_add_def captbl_lkupan_slot captbl_header_validate_def added_def Let_def kassert_bind
      not_le bind_eq_Some_conv split: if_splits prod.splits)

text \<open>The parts of the above, one by one.\<close>

lemmas captbl_add_ret = captbl_add_success [THEN conjunct1]
lemmas captbl_add_bound = captbl_add_success [THEN conjunct2, THEN conjunct1]
lemmas captbl_add_slot = captbl_add_success [THEN conjunct2, THEN conjunct2, THEN conjunct1]
lemmas captbl_add_size = captbl_add_success [THEN conjunct2, THEN conjunct2, THEN conjunct2, THEN conjunct1]
lemmas captbl_add_rw = captbl_add_success [THEN conjunct2, THEN conjunct2, THEN conjunct2, THEN conjunct2, THEN conjunct1]
lemmas captbl_add_free = captbl_add_success [THEN conjunct2, THEN conjunct2, THEN conjunct2, THEN conjunct2, THEN conjunct2, THEN conjunct1]
lemmas captbl_add_same = captbl_add_success [THEN conjunct2, THEN conjunct2, THEN conjunct2, THEN conjunct2, THEN conjunct2, THEN conjunct2, THEN conjunct1]
lemmas captbl_add_mask = captbl_add_success [THEN conjunct2, THEN conjunct2, THEN conjunct2, THEN conjunct2, THEN conjunct2, THEN conjunct2, THEN conjunct2, THEN conjunct1]
lemmas captbl_add_state = captbl_add_success [THEN conjunct2, THEN conjunct2, THEN conjunct2, THEN conjunct2, THEN conjunct2, THEN conjunct2, THEN conjunct2, THEN conjunct2, THEN conjunct2]

text \<open>A refused addition changes nothing.\<close>

lemma captbl_add_failure:
  assumes "captbl_add now t cap type s = Some ((0, r), s')" "t \<noteq> 0"
  shows "s' = s"
  using assms
  by (auto simp: captbl_add_def Let_def kassert_bind captbl_lkupan_slot bind_eq_Some_conv split: if_splits prod.splits)

definition removed :: "cap_t \<Rightarrow> addr \<Rightarrow> u32 \<Rightarrow> 'z kmem_scheme \<Rightarrow> 'z kmem_scheme" where
  "removed mark p lid s =
     (let h = CT_MSK p 6;
          m = h_amap (hdr s h) AND NOT (push_bit (slot_ix p) 1);
          l = (hdr s h)\<lparr>h_amap := m, h_type := if m = 0 then mark else h_type (hdr s h)\<rparr>
      in if p = h then wr_hdr h (l\<lparr>h_liveness_id := ucast lid, h_type := mark\<rparr>) s
         else wr_hdr h l (wr_hdr p ((hdr s p)\<lparr>h_liveness_id := ucast lid, h_type := mark\<rparr>) s))"

lemma captbl_unalloc_eq: "captbl_unalloc mark (CT_MSK p 6) p lid s = (0, removed mark p lid s)"
  by (cases "hdr s (CT_MSK p 6)") (auto simp: captbl_unalloc_def removed_def Let_def)

lemma captbl_clear_success:
  assumes "captbl_clear t cap type lid s = Some (0, s')" "t \<noteq> 0" "p = captbl_slot s t cap"
  shows "cap < captbl_maxid \<and> p \<noteq> 0 \<and> captbl_getleaf s p = p \<and> h_type (hdr s p) = type \<and>
    bit (h_amap (hdr s (CT_MSK p 6))) (slot_ix p) \<and> s' = removed CAP_FREE p lid s"
  using assms
  by (auto simp: captbl_clear_def captbl_lkupan_slot Let_def kassert_bind not_le captbl_unalloc_eq
      bind_eq_Some_conv split: if_splits prod.splits)


lemma CT_MSK_CT_MSK: "n \<le> m \<Longrightarrow> CT_MSK (CT_MSK a n) m = CT_MSK a m"
  unfolding CT_MSK_def by (rule bit_word_eqI) (auto simp: bit_simps)

lemma slot_ix_ent:
  assumes "sz \<noteq> CAP_SZ_ERR"
  shows "slot_ix (CT_MSK a (cap_sz_code sz + 4)) = ent_ix sz (slot_ix a)"
proof -
  have "CT_MSK (CT_MSK a (cap_sz_code sz + 4)) 6 = CT_MSK a 6"
    using assms by (cases sz) (simp_all add: CT_MSK_CT_MSK)
  then show ?thesis
    using cap_off_ent [OF assms, of a] cap_off_slot [of "CT_MSK a (cap_sz_code sz + 4)"] by simp
qed

lemma cap_code_le: "sz \<noteq> CAP_SZ_ERR \<Longrightarrow> cap_sz_code sz + 4 \<le> 6"
  by (cases sz) simp_all

lemma added_sel [simp]:
  "mem (added p type s) = mem s" "tbls (added p type s) = tbls s" "ltb (added p type s) = ltb s"
  "rt (added p type s) = rt s" "tlbq (added p type s) = tlbq s" "kmem.more (added p type s) = kmem.more s"
  by (simp_all add: added_def Let_def)

lemma removed_sel [simp]:
  "mem (removed m p lid s) = mem s" "tbls (removed m p lid s) = tbls s" "ltb (removed m p lid s) = ltb s"
  "rt (removed m p lid s) = rt s" "tlbq (removed m p lid s) = tlbq s"
  "kmem.more (removed m p lid s) = kmem.more s"
  by (simp_all add: removed_def Let_def)

lemma not_line_head: "p \<noteq> CT_MSK p 6 \<Longrightarrow> p \<noteq> CT_MSK q 6"
  using CT_MSK_CT_MSK [of 6 6 q] by auto

lemma added_line [simp]:
  "h_amap (hdr (added p type s) (CT_MSK q 6)) =
     (if CT_MSK q 6 = CT_MSK p 6 then h_amap (hdr s (CT_MSK p 6)) OR push_bit (slot_ix p) 1
      else h_amap (hdr s (CT_MSK q 6)))"
  "h_size (hdr (added p type s) (CT_MSK q 6)) =
     (if CT_MSK q 6 = CT_MSK p 6 then captbl_cap2sz type else h_size (hdr s (CT_MSK q 6)))"
  using not_line_head [of p q] by (auto simp: added_def Let_def)

lemma added_hdr:
  "c \<noteq> p \<Longrightarrow> h_type (hdr (added p type s) c) = h_type (hdr s c) \<and>
     h_liveness_id (hdr (added p type s) c) = h_liveness_id (hdr s c)"
  "h_type (hdr (added p type s) p) = type" "h_liveness_id (hdr (added p type s) p) = 0"
  by (auto simp: added_def Let_def)

lemma removed_line [simp]:
  "h_amap (hdr (removed m p lid s) (CT_MSK q 6)) =
     (if CT_MSK q 6 = CT_MSK p 6 then h_amap (hdr s (CT_MSK p 6)) AND NOT (push_bit (slot_ix p) 1)
      else h_amap (hdr s (CT_MSK q 6)))"
  "h_size (hdr (removed m p lid s) (CT_MSK q 6)) = h_size (hdr s (CT_MSK q 6))"
  using not_line_head [of p q] by (auto simp: removed_def Let_def)

lemma removed_hdr:
  "c \<noteq> p \<Longrightarrow> c \<noteq> CT_MSK p 6 \<or> h_amap (hdr s (CT_MSK p 6)) AND NOT (push_bit (slot_ix p) 1) \<noteq> 0 \<Longrightarrow>
     h_type (hdr (removed m p lid s) c) = h_type (hdr s c) \<and>
     h_liveness_id (hdr (removed m p lid s) c) = h_liveness_id (hdr s c)"
  "h_type (hdr (removed m p lid s) p) = m" "h_liveness_id (hdr (removed m p lid s) p) = ucast lid"
  by (auto simp: removed_def Let_def)

lemma lines_ok_added:
  assumes "lines_ok s" "captbl_cap2sz type \<noteq> CAP_SZ_ERR"
    "(h_amap (hdr s (CT_MSK p 6)) OR push_bit (slot_ix p) 1) AND NOT (cap_mask (captbl_cap2sz type)) = 0"
  shows "lines_ok (added p type s)"
  using assms by (auto simp: lines_ok_def line_ok_def)

lemma and_subset_zero: "(a :: 4 word) AND NOT b = 0 \<Longrightarrow> (a AND c) AND NOT b = 0"
  by (metis and.commute and.left_commute and_zero_eq)

lemma lines_ok_removed: "lines_ok s \<Longrightarrow> lines_ok (removed m p lid s)"
  by (auto simp: lines_ok_def line_ok_def intro: and_subset_zero)

lemma bit_push_1: "bit (push_bit i 1 :: 4 word) j \<longleftrightarrow> i < 4 \<and> j = i"
  by (auto simp: bit_simps)

lemma getleaf_lines_ok:
  assumes "lines_ok s"
  shows "captbl_getleaf s a =
    (let l = hdr s (CT_MSK a 6)
     in if bit (h_amap l) (ent_ix (h_size l) (slot_ix a)) then CT_MSK a (cap_sz_code (h_size l) + 4) else 0)"
  using assms by (intro captbl_getleaf_eq) (auto simp: lines_ok_def line_ok_def)

lemma CT_MSK_dvd: "2 ^ n dvd unat p \<Longrightarrow> CT_MSK p n = p"
  by (simp add: word_unat_eq_iff unat_CT_MSK)

lemma ent_self:
  assumes "16 dvd unat p" "ent_ix sz (slot_ix p) = slot_ix p" "sz \<noteq> CAP_SZ_ERR"
  shows "CT_MSK p (cap_sz_code sz + 4) = p"
proof (rule CT_MSK_dvd)
  obtain q i k where a: "unat p = 64 * q + 16 * i + k" and ik: "i < 4" "k < 16" and ix: "slot_ix p = i"
    by (rule line_split)
  have k: "k = 0" using assms(1) ik(2) unfolding a by presburger
  show "2 ^ (cap_sz_code sz + 4) dvd unat p"
  proof (cases sz)
    case CAP_SZ_16B
    show ?thesis unfolding CAP_SZ_16B using assms(1) by simp
  next
    case CAP_SZ_32B
    obtain j where "i = 2 * j" using assms(2) unfolding CAP_SZ_32B ix by (metis ent_ix.simps(2))
    then have "unat p = 32 * (2 * q + j)" unfolding a k by simp
    then have "32 dvd unat p" by (rule dvdI)
    then show ?thesis unfolding CAP_SZ_32B by simp
  next
    case CAP_SZ_64B
    have "i = 0" using assms(2) unfolding CAP_SZ_64B ix by simp
    then have "unat p = 64 * q" unfolding a k by simp
    then have "64 dvd unat p" by (rule dvdI)
    then show ?thesis unfolding CAP_SZ_64B by simp
  next
    case CAP_SZ_ERR
    then show ?thesis using assms(3) by contradiction
  qed
qed

lemma getleaf_added_self:
  assumes "lines_ok (added p type s)" "16 dvd unat p" "captbl_cap2sz type \<noteq> CAP_SZ_ERR"
    "(h_amap (hdr s (CT_MSK p 6)) OR push_bit (slot_ix p) 1) AND NOT (cap_mask (captbl_cap2sz type)) = 0"
  shows "captbl_getleaf (added p type s) p = p"
proof -
  have ent: "ent_ix (captbl_cap2sz type) (slot_ix p) = slot_ix p"
    by (rule mask_bit_ent_ix [OF _ assms(4,3)]) (simp_all add: bit_or_iff bit_exp_iff)
  show ?thesis
    unfolding getleaf_lines_ok [OF assms(1)] using ent_self [OF assms(2) ent assms(3)] ent
    by (simp add: Let_def bit_or_iff bit_exp_iff)
qed

lemma getleaf_line:
  assumes "lines_ok s" "captbl_getleaf s q = c" "c \<noteq> 0"
  shows "CT_MSK c 6 = CT_MSK q 6" "bit (h_amap (hdr s (CT_MSK c 6))) (slot_ix c)"
proof -
  let ?l = "hdr s (CT_MSK q 6)"
  have sz: "h_size ?l \<noteq> CAP_SZ_ERR" using assms(1) by (simp add: lines_ok_def line_ok_def)
  have c: "c = CT_MSK q (cap_sz_code (h_size ?l) + 4)" "bit (h_amap ?l) (ent_ix (h_size ?l) (slot_ix q))"
    using assms(2,3) by (auto simp: getleaf_lines_ok [OF assms(1)] Let_def split: if_splits)
  then show *: "CT_MSK c 6 = CT_MSK q 6" using CT_MSK_CT_MSK [OF cap_code_le [OF sz]] by simp
  show "bit (h_amap (hdr s (CT_MSK c 6))) (slot_ix c)"
    unfolding * using slot_ix_ent [OF sz, of q] c by simp
qed

lemma getleaf_added_other:
  assumes "lines_ok s" "lines_ok (added p type s)" "captbl_getleaf s q = c" "c \<noteq> 0"
    and "\<not> bit (h_amap (hdr s (CT_MSK p 6))) (slot_ix p)"
    and "h_amap (hdr s (CT_MSK p 6)) \<noteq> 0 \<longrightarrow> h_size (hdr s (CT_MSK p 6)) = captbl_cap2sz type"
  shows "captbl_getleaf (added p type s) q = c \<and> c \<noteq> p"
proof -
  note line = getleaf_line [OF assms(1,3,4)]
  have "c \<noteq> p" using line(2) assms(5) by auto
  moreover have "captbl_getleaf (added p type s) q = c"
  proof (cases "CT_MSK q 6 = CT_MSK p 6")
    case True
    with line have "h_amap (hdr s (CT_MSK p 6)) \<noteq> 0" by auto
    with assms(6) have "h_size (hdr s (CT_MSK p 6)) = captbl_cap2sz type" by simp
    with True assms(3,4) show ?thesis
      by (auto simp: getleaf_lines_ok assms(1,2) Let_def bit_simps split: if_splits)
  next
    case False
    with assms(3,4) show ?thesis
      by (auto simp: getleaf_lines_ok assms(1,2) Let_def split: if_splits)
  qed
  ultimately show ?thesis by simp
qed

lemma removed_bit:
  "bit (h_amap (hdr (removed m p lid s) (CT_MSK q 6))) j \<longleftrightarrow>
     bit (h_amap (hdr s (CT_MSK q 6))) j \<and> \<not> (CT_MSK q 6 = CT_MSK p 6 \<and> j = slot_ix p)"
  using bit_imp_le_length [of "h_amap (hdr s (CT_MSK p 6))" j]
  by (auto simp: bit_and_iff bit_not_iff bit_exp_iff)

lemma getleaf_removed:
  assumes "lines_ok s" "captbl_getleaf s q = c"
  shows "captbl_getleaf (removed m p lid s) q =
    (if c \<noteq> 0 \<and> slot_ix c = slot_ix p \<and> CT_MSK c 6 = CT_MSK p 6 then 0 else c)"
proof -
  let ?l = "hdr s (CT_MSK q 6)"
  have sz: "h_size ?l \<noteq> CAP_SZ_ERR" using assms(1) by (simp add: lines_ok_def line_ok_def)
  define e where "e = CT_MSK q (cap_sz_code (h_size ?l) + 4)"
  have e: "slot_ix e = ent_ix (h_size ?l) (slot_ix q)" "CT_MSK e 6 = CT_MSK q 6"
    unfolding e_def using slot_ix_ent [OF sz] CT_MSK_CT_MSK [OF cap_code_le [OF sz]] by auto
  have c: "c = (if bit (h_amap ?l) (slot_ix e) then e else 0)"
    unfolding e(1) unfolding e_def using assms(2) getleaf_lines_ok [OF assms(1), of q] by (simp add: Let_def)
  show ?thesis
    unfolding getleaf_lines_ok [OF lines_ok_removed [OF assms(1)]] Let_def removed_line(2) removed_bit e(1) [symmetric]
      e_def [symmetric]
    using c e(2) by auto
qed

lemma dvd_unat_add: "2 ^ n dvd unat (a :: u32) \<Longrightarrow> 2 ^ n dvd unat b \<Longrightarrow> n \<le> 32 \<Longrightarrow> 2 ^ n dvd unat (a + b)"
  using le_imp_power_dvd [of n 32 "2 :: nat"] by (simp add: unat_word_ariths dvd_mod)

lemma dvd_unat_mult: "2 ^ n dvd unat (b :: u32) \<Longrightarrow> n \<le> 32 \<Longrightarrow> 2 ^ n dvd unat (a * b)"
  using le_imp_power_dvd [of n 32 "2 :: nat"] by (simp add: unat_word_ariths dvd_mod)

lemma captbl_slot_aligned: "captbl_aligned s t \<Longrightarrow> 16 dvd unat (captbl_slot s t cap)"
proof -
  assume "captbl_aligned s t"
  then have "2 ^ 6 dvd unat (mem s (t + (drop_bit 7 cap AND mask 9) * 4))"
    by (simp add: captbl_aligned_def)
  then have "2 ^ 4 dvd unat (mem s (t + (drop_bit 7 cap AND mask 9) * 4))"
    by (rule power_le_dvd) simp
  moreover have "2 ^ 4 dvd unat ((cap AND mask 7) * (16 :: u32))"
    by (rule dvd_unat_mult) simp_all
  ultimately have "2 ^ 4 dvd unat (mem s (t + (drop_bit 7 cap AND mask 9) * 4) + (cap AND mask 7) * 16)"
    by (rule dvd_unat_add) simp
  then show ?thesis by (simp add: captbl_slot_def Let_def)
qed

lemma captbl_aligned_cong: "mem s' = mem s \<Longrightarrow> captbl_aligned s' t = captbl_aligned s t"
  by (simp add: captbl_aligned_def)

lemma captbl_slot_cong: "mem s' = mem s \<Longrightarrow> captbl_slot s' t cap = captbl_slot s t cap"
  by (simp add: captbl_slot_def)

lemma captbl_lkup_leaf:
  assumes "t \<noteq> 0" "cap < captbl_maxid" "captbl_slot s t cap \<noteq> 0"
  shows "captbl_lkup s t cap = Some (captbl_getleaf s (captbl_slot s t cap))"
  using captbl_lkup_slot [OF assms(1,2), of s] assms(3) by (auto simp: captbl_slot_def Let_def)

lemma captbl_lkup_masked: "captbl_lkup s t cap = captbl_lkup s t (cap AND 0xFFFF)"
  by (simp add: captbl_lkup_def captbl_lkup_lvl_def captbl_maxid and.assoc)

lemma captbl_lkup_cong:
  assumes "mem s' = mem s" "hdr s' = hdr s" "t \<noteq> 0"
  shows "captbl_lkup s' t c = captbl_lkup s t c"
proof -
  have "c AND 0xFFFF = take_bit 16 c" by (simp add: take_bit_eq_mask mask_eq_exp_minus_1)
  then have "unat (c AND 0xFFFF) < 2 ^ 16" by (simp only: unsigned_take_bit_eq take_bit_nat_less_exp)
  then have lt: "c AND 0xFFFF < captbl_maxid" by (simp add: captbl_maxid word_less_nat_alt)
  show ?thesis
    unfolding captbl_lkup_masked [of _ _ c] captbl_lkup_slot [OF assms(3) lt] captbl_slot_def captbl_getleaf_def assms(1,2) ..
qed

lemma captbl_lkup_nonzero:
  assumes "captbl_lkup s t cap = Some c" "c \<noteq> 0" "t \<noteq> 0" "cap < captbl_maxid"
  shows "captbl_getleaf s (captbl_slot s t cap) = c" "mem s (t + (drop_bit 7 cap AND mask 9) * 4) \<noteq> 0"
  using captbl_lkup_slot [OF assms(3,4), of s] assms(1,2) by (auto simp: Let_def split: if_splits)

lemma captbl_lkup_keep:
  assumes "captbl_lkup s t cap = Some c" "c \<noteq> 0" "t \<noteq> 0" "cap < captbl_maxid" "mem s' = mem s"
  shows "captbl_lkup s' t cap = Some (captbl_getleaf s' (captbl_slot s t cap))"
  using captbl_lkup_slot [OF assms(3,4), of s'] captbl_lkup_nonzero [OF assms(1-4)] assms(5)
  by (simp add: captbl_slot_cong [OF assms(5)] Let_def)

lemma getleaf_aligned: "lines_ok s \<Longrightarrow> captbl_getleaf s q = c \<Longrightarrow> 16 dvd unat c"
proof -
  assume s: "lines_ok s" and c: "captbl_getleaf s q = c"
  have "2 ^ 4 dvd unat (CT_MSK q (n + 4))" for n
    by (simp add: unat_CT_MSK power_add)
  then show ?thesis using c by (auto simp: getleaf_lines_ok [OF s] Let_def split: if_splits)
qed

lemma aligned_slot_eq:
  assumes "16 dvd unat c" "16 dvd unat p" "slot_ix c = slot_ix p" "CT_MSK c 6 = CT_MSK p 6"
  shows "c = p"
proof -
  have eq: "unat a = unat a div 64 * 64 + slot_ix a * 16" if "16 dvd unat a" for a :: addr
  proof -
    obtain q i k where a: "unat a = 64 * q + 16 * i + k" and ik: "i < 4" "k < 16" and ix: "slot_ix a = i"
      by (rule line_split)
    have "k = 0" using that ik(2) unfolding a by presburger
    then show ?thesis using line_divs(1) [OF ik, of q, folded a] a ix by linarith
  qed
  have "unat (CT_MSK c 6) = unat (CT_MSK p 6)" using assms(4) by simp
  then have "unat c div 64 * 64 = unat p div 64 * 64" by (simp add: unat_CT_MSK)
  then have "unat c = unat p" using eq [OF assms(1)] eq [OF assms(2)] assms(3) by linarith
  then show ?thesis by (rule word_unat_eq_iff [THEN iffD2])
qed




section \<open>Properties of capability tables\<close>

lemma captbl_add_found:
  assumes "captbl_add now t cap type s = Some ((p, r), s')" "p \<noteq> 0" "t \<noteq> 0"
    "lines_ok s" "captbl_aligned s t"
  shows "captbl_lkup s' t cap = Some p \<and> h_type (hdr s' p) = type \<and> h_liveness_id (hdr s' p) = 0 \<and>
    lines_ok s' \<and> captbl_aligned s' t \<and> mem s' = mem s"
proof -
  note s' = captbl_add_state [OF assms(1-3)] and p = captbl_add_slot [OF assms(1-3), symmetric]
    and cap = captbl_add_bound [OF assms(1-3)] and sz = captbl_add_size [OF assms(1-3)]
    and m = captbl_add_mask [OF assms(1-3)]
  have lines: "lines_ok s'"
    unfolding s' using assms(4) sz m by (rule lines_ok_added)
  have "16 dvd unat p" using captbl_slot_aligned [OF assms(5), of cap] p by simp
  then have "captbl_getleaf s' p = p"
    unfolding s' by (rule getleaf_added_self [OF lines [unfolded s'] _ sz m])
  moreover have slot: "captbl_slot s' t cap = p" using p captbl_slot_cong [of s' s] by (simp add: s')
  ultimately have "captbl_lkup s' t cap = Some p"
    using captbl_lkup_leaf [OF assms(3) cap, of s'] assms(2) by simp
  then show ?thesis
    using lines assms(5) captbl_aligned_cong [of s' s t] by (simp add: s' added_hdr)
qed

text \<open>
  C9. A capability that \<^verbatim>\<open>captbl_add\<close> reports as added is found by \<^verbatim>\<open>captbl_lkup\<close> at the slot
  returned, with the type it was added with and no liveness mark, and the table stays well formed.
\<close>

theorem captbl_add_lkup:
  assumes "captbl_add now t cap type s = Some ((p, r), s')" "p \<noteq> 0" "t \<noteq> 0"
    "lines_ok s" "captbl_aligned s t"
  shows "captbl_lkup s' t cap = Some p \<and> h_type (hdr s' p) = type \<and> h_liveness_id (hdr s' p) = 0 \<and>
    lines_ok s' \<and> captbl_aligned s' t \<and> mem s' = mem s"
  by (rule captbl_add_found [OF assms])

text \<open>
  C10. An addition disturbs no other capability: whatever a lookup in any table found before, it
  still finds at the same address, with the same type and liveness mark, even when the new
  capability is in the same cache line; and no two capabilities share a slot.
\<close>

theorem captbl_add_frame:
  assumes "captbl_add now t cap type s = Some ((p, r), s')" "p \<noteq> 0" "t \<noteq> 0" "lines_ok s"
    and "captbl_lkup s t' cap' = Some c" "c \<noteq> 0" "t' \<noteq> 0" "cap' < captbl_maxid"
  shows "captbl_lkup s' t' cap' = Some c \<and> c \<noteq> p \<and> h_type (hdr s' c) = h_type (hdr s c) \<and>
    h_liveness_id (hdr s' c) = h_liveness_id (hdr s c)"
proof -
  note s' = captbl_add_state [OF assms(1-3)] and sz = captbl_add_size [OF assms(1-3)]
    and m = captbl_add_mask [OF assms(1-3)] and free = captbl_add_free [OF assms(1-3)]
    and same = captbl_add_same [OF assms(1-3)]
  have lines: "lines_ok (added p type s)"
    using assms(4) sz m by (rule lines_ok_added)
  have "captbl_getleaf s' (captbl_slot s t' cap') = c \<and> c \<noteq> p"
    unfolding s' by (rule getleaf_added_other [OF assms(4) lines captbl_lkup_nonzero(1) [OF assms(5-8)] assms(6) free same])
  then show ?thesis
    using captbl_lkup_keep [OF assms(5-8), of s'] by (simp add: s' added_hdr)
qed

text \<open>
  C11. A capability removed by \<^verbatim>\<open>captbl_clear\<close> is gone: its identifier looks up to the null pointer;
  the table stays well formed, and every other capability is still found, unchanged.
\<close>

theorem captbl_clear_lkup:
  assumes "captbl_clear t cap type lid s = Some (0, s')" "t \<noteq> 0" "lines_ok s"
  shows "captbl_lkup s' t cap = Some 0 \<and> lines_ok s' \<and> mem s' = mem s \<and>
    (\<forall>t' cap' c. captbl_lkup s t' cap' = Some c \<and> c \<noteq> 0 \<and> t' \<noteq> 0 \<and> cap' < captbl_maxid \<and>
       c \<noteq> captbl_slot s t cap \<longrightarrow>
       captbl_lkup s' t' cap' = Some c \<and> h_type (hdr s' c) = h_type (hdr s c) \<and>
       h_liveness_id (hdr s' c) = h_liveness_id (hdr s c))"
proof -
  define p where "p = captbl_slot s t cap"
  note ok = captbl_clear_success [OF assms(1,2) p_def]
  have s': "s' = removed CAP_FREE p lid s" using ok by blast
  have leaf: "captbl_getleaf s' p = 0"
    unfolding s' using getleaf_removed [OF assms(3), of p p] ok by auto
  have slot: "captbl_slot s' t cap = p" unfolding p_def by (rule captbl_slot_cong) (simp add: s')
  have "captbl_lkup s' t cap = Some 0"
    using captbl_lkup_leaf [of t cap s'] ok assms(2) leaf slot by auto
  moreover have "captbl_lkup s' t' cap' = Some c \<and> h_type (hdr s' c) = h_type (hdr s c) \<and>
       h_liveness_id (hdr s' c) = h_liveness_id (hdr s c)"
    if c: "captbl_lkup s t' cap' = Some c" "c \<noteq> 0" "t' \<noteq> 0" "cap' < captbl_maxid"
      and "c \<noteq> p" for t' cap' c
  proof -
    note leafc = captbl_lkup_nonzero(1) [OF c]
    have "captbl_getleaf s p = p" "p \<noteq> 0" using ok by auto
    then have ne: "(slot_ix c, CT_MSK c 6) \<noteq> (slot_ix p, CT_MSK p 6)"
      using aligned_slot_eq [of c p] getleaf_aligned [OF assms(3) leafc] getleaf_aligned [OF assms(3)] that by auto
    have "captbl_getleaf s' (captbl_slot s t' cap') = c"
      unfolding s' getleaf_removed [OF assms(3) leafc] using ne by auto
    then have "captbl_lkup s' t' cap' = Some c"
      using captbl_lkup_keep [OF c, of s'] by (simp add: s')
    moreover have "h_amap (hdr s (CT_MSK p 6)) AND NOT (push_bit (slot_ix p) 1) \<noteq> 0" if "c = CT_MSK p 6"
    proof -
      have "CT_MSK c 6 = CT_MSK p 6" using that CT_MSK_CT_MSK [of 6 6 p] by simp
      then have "bit (h_amap (hdr s (CT_MSK p 6))) (slot_ix c)" "slot_ix c \<noteq> slot_ix p"
        using getleaf_line(2) [OF assms(3) leafc c(2)] ne by auto
      then have "bit (h_amap (hdr s (CT_MSK p 6)) AND NOT (push_bit (slot_ix p) 1)) (slot_ix c)"
        by (simp add: bit_and_iff bit_not_iff bit_exp_iff)
      then show ?thesis by (metis bit_0_eq bot_apply bot_bool_def)
    qed
    moreover have "c \<noteq> p" using ne by auto
    ultimately show ?thesis using removed_hdr(1) [of c p s CAP_FREE lid] by (auto simp: s')
  qed
  ultimately show ?thesis
    using assms(3) by (auto simp: s' p_def lines_ok_removed)
qed


section \<open>Growing a table\<close>

lemma captbl_expand_eq:
  assumes "t \<noteq> 0" "cap < captbl_maxid"
  shows "captbl_expand t cap 2 m s =
    Some (let a = t + (drop_bit 7 cap AND mask 9) * 4
          in if mem s a \<noteq> 0 then (if m = 0 then 0 else - EEXIST, s)
             else if m = 0 then (1, s) else (0, wr a m s))"
proof -
  have init: "ert_init_from captbl_consts m True is (s :: 'a kmem_scheme) = s" for "is" and s :: "'a kmem_scheme"
    by (induction "is") simp_all
  have up: "[0..<Suc 0] = [0]" by simp
  show ?thesis
    using assms
    by (simp add: captbl_expand_def captbl_maxdepth_def ert_expand_def kassert_bind up ert_walk_def ert_off_def
        captbl_allocfn_def ert_init_def init Let_def not_le split: prod.splits)
qed

text \<open>
  Expanding a table with a leaf makes exactly the identifiers of that leaf's range resolve into
  it: the slot of the identifier given is in the new leaf, and the slots of the identifiers of every
  other range are where they were.
\<close>

theorem captbl_expand_slot:
  assumes "captbl_expand t cap captbl_maxdepth m s = Some (0, s')" "t \<noteq> 0" "m \<noteq> 0"
  shows "captbl_slot s t cap = 0 \<and> captbl_slot s' t cap = m + (cap AND mask 7) * 16 \<and>
    (\<forall>cap'. t + (drop_bit 7 cap' AND mask 9) * 4 \<noteq> t + (drop_bit 7 cap AND mask 9) * 4 \<longrightarrow>
       captbl_slot s' t cap' = captbl_slot s t cap')"
proof -
  have cap: "cap < captbl_maxid"
    using assms(1) by (auto simp: captbl_expand_def not_le split: if_splits)
  then show ?thesis
    using assms captbl_expand_eq [OF assms(2) cap, of m s]
    by (auto simp: captbl_maxdepth_def captbl_slot_def Let_def split: if_splits)
qed

text \<open>
  When the second half of a table page cannot be linked, \<^verbatim>\<open>captbl_cons\<close> returns the error and
  takes back its reference, but its "rewind" (expanding with a null page) undoes nothing: the first
  half stays linked in the target table without a reference counted for it.
\<close>

theorem captbl_cons_rewind_leaks:
  assumes "h_type (hdr s ct) = CAP_CAPTBL" "tbl_lvl (tbls s ct) = 0" "tbl (tbls s ct) = t" "t \<noteq> 0"
    and "h_type (hdr s sub) = CAP_CAPTBL" "tbl_lvl (tbls s sub) = 1" "tbl (tbls s sub) = m" "m \<noteq> 0"
    and "refcnt_flags (tbls s sub) AND CAP_MEM_FROZEN_FLAG = 0" "refcnt_flags (tbls s ct) AND CAP_MEM_FROZEN_FLAG = 0"
    and "refcnt_flags (tbls s sub) AND CAP_REFCNT_MAX \<noteq> CAP_REFCNT_MAX"
    and "a < captbl_maxid" "mem s (t + (drop_bit 7 a AND mask 9) * 4) = 0"
    and "a + 128 \<ge> captbl_maxid"
  shows "\<exists>s'. captbl_cons ct sub a s = Some (- EINVAL, s') \<and> captbl_slot s' t a = m + (a AND mask 7) * 16 \<and>
    refcnt_flags (tbls s' sub) = refcnt_flags (tbls s sub)"
proof -
  have [simp]: "PAGE_SIZE div (2 * 16) = (128 :: u32)" by simp
  have ne: "ct \<noteq> sub" using assms(2,6) by auto
  have second: "captbl_expand t (a + 128) 2 m' s'' = Some (- EINVAL, s'')" for m' and s'' :: "'a kmem_scheme"
    using assms(14) by (simp add: captbl_expand_def)
  show ?thesis
    using assms ne
    by (simp add: captbl_cons_def refcnt_cas_def refcnt_faa_def captbl_maxdepth_def Let_def captbl_slot_def
        captbl_expand_eq second)
qed

section \<open>Examples\<close>

text \<open>
  A memory with a capability table: its root node is the first half of the page at 0x1000, with one
  leaf in the second half; a second-level table page is at 0x4000.
\<close>

definition ex_tbls :: "addr \<Rightarrow> cap_tbl" where
  "ex_tbls a = \<lparr>refcnt_flags = 1, tbl = if a = 0x1840 then 0x1000 else 0x4000,
      tbl_lvl = if a = 0x1840 then 0 else 1, tbl_parent = 0, frozen_ts = 0\<rparr>"

definition ex_kmem :: kmem where
  "ex_kmem =
     \<lparr>mem = (\<lambda>a. if a = 0x1000 then 0x1800 else 0), hdr = (\<lambda>_. captbl_free_hdr), tbls = ex_tbls,
      ltb = (\<lambda>_. \<lparr>epoch = 0, deact_timestamp = 0\<rparr>), rt = ex_typed,
      tlbq = (\<lambda>_. \<lparr>last_periodic_flush = 0, last_mandatory_flush = 0\<rparr>)\<rparr>"

lemma ex_kmem_ok: "lines_ok ex_kmem" "captbl_aligned ex_kmem 0x1000"
  by (simp_all add: ex_kmem_def lines_ok_def line_ok_def captbl_free_hdr_def captbl_aligned_def)

lemma ex_slots: "captbl_slot ex_kmem 0x1000 4 = 0x1840" "captbl_slot ex_kmem 0x1000 5 = 0x1850"
  "captbl_slot ex_kmem 0x1000 6 = 0x1860"
  by (simp_all add: captbl_slot_def ex_kmem_def mask_eq_exp_minus_1 drop_bit_eq_div)

lemma ex_msk: "CT_MSK 0x1840 6 = 0x1840" "CT_MSK 0x1850 6 = 0x1840" "CT_MSK 0x1860 6 = 0x1840"
  "slot_ix 0x1840 = 0" "slot_ix 0x1850 = 1" "slot_ix 0x1860 = 2"
  by (simp_all add: CT_MSK_def mask_eq_exp_minus_1 slot_ix_def)

lemma added_intro:
  assumes "t \<noteq> 0" "cap < captbl_maxid" "p = captbl_slot s t cap" "p \<noteq> 0" "captbl_cap2sz type \<noteq> CAP_SZ_ERR"
    "h_flags (hdr s (CT_MSK p 6)) AND CAP_FLAG_RO = 0" "\<not> bit (h_amap (hdr s (CT_MSK p 6))) (slot_ix p)"
    "h_amap (hdr s (CT_MSK p 6)) \<noteq> 0 \<Longrightarrow> h_size (hdr s (CT_MSK p 6)) = captbl_cap2sz type"
    "h_type (hdr s (CT_MSK p 6)) \<noteq> CAP_QUIESCENCE" "h_type (hdr s p) \<noteq> CAP_QUIESCENCE"
    "(h_amap (hdr s (CT_MSK p 6)) OR push_bit (slot_ix p) 1) AND NOT (cap_mask (captbl_cap2sz type)) = 0"
  shows "captbl_add now t cap type s = Some ((p, 0), added p type s)"
  using assms
  by (auto simp: captbl_add_def captbl_lkupan_slot captbl_header_validate_def added_def Let_def
      slot_quiescent_def kassert_bind not_le)

definition ex_kmem1 :: kmem where "ex_kmem1 = added 0x1840 CAP_THD ex_kmem"

lemma ex_add1: "captbl_add 5 0x1000 4 CAP_THD ex_kmem = Some ((0x1840, 0), ex_kmem1)"
  unfolding ex_kmem1_def
  by (rule added_intro) (simp_all add: ex_slots ex_msk, simp_all add: ex_kmem_def captbl_free_hdr_def CAP_FLAG_RO_def)

lemma ex_line1: "hdr ex_kmem1 0x1840 = \<lparr>h_liveness_id = 0, h_amap = 1, h_size = CAP_SZ_16B, h_flags = 0, h_type = CAP_THD\<rparr>"
  by (simp add: ex_kmem1_def added_def ex_msk) (simp add: ex_kmem_def captbl_free_hdr_def)

lemma ex_hdr1: "a \<noteq> 0x1840 \<Longrightarrow> hdr ex_kmem1 a = captbl_free_hdr"
  by (simp add: ex_kmem1_def added_def ex_msk) (simp add: ex_kmem_def)

lemma ex_slots1: "captbl_slot ex_kmem1 0x1000 4 = 0x1840" "captbl_slot ex_kmem1 0x1000 5 = 0x1850"
  using ex_slots captbl_slot_cong [of ex_kmem1 ex_kmem] by (simp_all add: ex_kmem1_def)

definition ex_kmem2 :: kmem where "ex_kmem2 = added 0x1850 CAP_TCAP ex_kmem1"

lemma ex_add2: "captbl_add 6 0x1000 5 CAP_TCAP ex_kmem1 = Some ((0x1850, 0), ex_kmem2)"
  unfolding ex_kmem2_def
  by (rule added_intro)
    (simp_all add: ex_slots1 ex_msk ex_line1 ex_hdr1 captbl_free_hdr_def CAP_FLAG_RO_def bit_1_iff)

theorem captbl_add_lkup_witness: "captbl_lkup ex_kmem1 0x1000 4 = Some 0x1840"
  using captbl_add_lkup [OF ex_add1 _ _ ex_kmem_ok] by simp

lemma ex_lines1: "lines_ok ex_kmem1"
  unfolding ex_kmem1_def
  by (rule lines_ok_added [OF ex_kmem_ok(1)]) (simp_all add: ex_msk ex_kmem_def captbl_free_hdr_def)

lemma ex_leaf1: "captbl_getleaf ex_kmem1 0x1840 = 0x1840"
  by (simp add: getleaf_lines_ok [OF ex_lines1] ex_msk ex_line1)

lemma ex_lkup1: "captbl_lkup ex_kmem1 0x1000 4 = Some 0x1840"
  using captbl_lkup_leaf [of "0x1000" 4 ex_kmem1] by (simp add: ex_slots1 ex_leaf1)

theorem captbl_add_frame_witness: "captbl_lkup ex_kmem2 0x1000 4 = Some 0x1840"
  using captbl_add_frame [OF ex_add2 _ _ ex_lines1 ex_lkup1] by simp

lemma ex_clear: "captbl_clear 0x1000 4 CAP_THD 9 ex_kmem1 = Some (0, removed CAP_FREE 0x1840 9 ex_kmem1)"
  using captbl_unalloc_eq [of CAP_FREE "0x1840" 9 ex_kmem1]
  by (simp add: captbl_clear_def captbl_lkupan_slot ex_slots1 ex_leaf1 ex_line1 ex_msk kassert_bind CAP_FLAG_RO_def
      cap_off_def)

theorem captbl_clear_lkup_witness:
  "captbl_lkup (removed CAP_FREE 0x1840 9 ex_kmem1) 0x1000 4 = Some 0"
  using captbl_clear_lkup [OF ex_clear _ ex_lines1] by simp





theorem captbl_expand_slot_witness:
  "captbl_slot (wr 0x1004 0x4000 ex_kmem) 0x1000 0x85 = 0x4050"
proof -
  have "captbl_expand 0x1000 0x85 captbl_maxdepth 0x4000 ex_kmem = Some (0, wr 0x1004 0x4000 ex_kmem)"
    using captbl_expand_eq [of "0x1000" "0x85" "0x4000" ex_kmem]
    by (simp add: captbl_maxdepth_def drop_bit_eq_div mask_eq_exp_minus_1) (simp add: ex_kmem_def)
  from captbl_expand_slot [OF this] show ?thesis by (simp add: mask_eq_exp_minus_1)
qed

definition ex_kmem3 :: kmem where
  "ex_kmem3 = wr_hdr 0x1840 (captbl_free_hdr\<lparr>h_type := CAP_CAPTBL\<rparr>)
     (wr_hdr 0x1860 (captbl_free_hdr\<lparr>h_type := CAP_CAPTBL\<rparr>) ex_kmem)"

theorem captbl_cons_rewind_leaks_witness:
  "\<exists>s'. captbl_cons 0x1840 0x1860 0xFF80 ex_kmem3 = Some (- EINVAL, s') \<and> captbl_slot s' 0x1000 0xFF80 = 0x4000"
proof -
  have "\<exists>s'. captbl_cons 0x1840 0x1860 0xFF80 ex_kmem3 = Some (- EINVAL, s') \<and>
      captbl_slot s' 0x1000 0xFF80 = 0x4000 + (0xFF80 AND mask 7) * 16 \<and>
      refcnt_flags (tbls s' 0x1860) = refcnt_flags (tbls ex_kmem3 0x1860)"
    by (rule captbl_cons_rewind_leaks)
      (simp_all add: ex_kmem3_def ex_kmem_def ex_tbls_def CAP_MEM_FROZEN_FLAG_def CAP_REFCNT_MAX_def
        CAP_MEM_REFCNT_SZ_def push_bit_eq_mult drop_bit_eq_div mask_eq_exp_minus_1)
  then show ?thesis by (auto simp: mask_eq_exp_minus_1)
qed

end
