(* ===== verification/Pgtbl.thy ===== *)
theory Pgtbl
  imports Captbl
begin

text \<open>
  Page tables (\<^verbatim>\<open>pgtbl.h\<close>, \<^verbatim>\<open>pgtbl.c\<close>): the second trie instance, mappings and their reference
  counts in the retype table, frames, kernel-memory activation and the quiescence of unmapped
  addresses.  A page table is named by the physical address of its root node, as in the code.
\<close>

text \<open>
  What an operation reads from the machine: the physical start of kernel memory, the core it runs
  on, and the values of its successive reads of the time-stamp counter.
\<close>

record kenv =
  ke_kpa :: u32
  ke_cpu :: cpuid
  ke_tsc :: "nat \<Rightarrow> u64"

definition PGTBL_PRESENT :: u32 where "PGTBL_PRESENT = 1"
definition PGTBL_WRITABLE :: u32 where "PGTBL_WRITABLE = push_bit 1 1"
definition PGTBL_USER :: u32 where "PGTBL_USER = push_bit 2 1"
definition PGTBL_ACCESSED :: u32 where "PGTBL_ACCESSED = push_bit 5 1"
definition PGTBL_MODIFIED :: u32 where "PGTBL_MODIFIED = push_bit 6 1"
definition PGTBL_COSFRAME :: u32 where "PGTBL_COSFRAME = push_bit 9 1"
definition PGTBL_COSKMEM :: u32 where "PGTBL_COSKMEM = push_bit 10 1"
definition PGTBL_QUIESCENCE :: u32 where "PGTBL_QUIESCENCE = push_bit 11 1"
definition PGTBL_USER_DEF :: u32 where
  "PGTBL_USER_DEF = PGTBL_PRESENT OR PGTBL_USER OR PGTBL_ACCESSED OR PGTBL_MODIFIED OR PGTBL_WRITABLE"
definition PGTBL_INTERN_DEF :: u32 where "PGTBL_INTERN_DEF = PGTBL_USER_DEF"

definition PGTBL_PAGEIDX_SHIFT :: nat where [simp]: "PGTBL_PAGEIDX_SHIFT = 12"
definition PGTBL_FLAG_MASK :: u32 where "PGTBL_FLAG_MASK = mask 12"
definition PGTBL_FRAME_MASK :: u32 where "PGTBL_FRAME_MASK = NOT PGTBL_FLAG_MASK"
definition PGTBL_DEPTH :: nat where [simp]: "PGTBL_DEPTH = 2"
definition PGTBL_ORD :: nat where [simp]: "PGTBL_ORD = 10"

section \<open>The trie instance\<close>

definition pgtbl_a :: "nat \<Rightarrow> addr \<Rightarrow> (addr \<times> addr) option" where
  "pgtbl_a sz m = do {
     kassert (sz = unat PAGE_SIZE);
     if m = 0 then Some (0, m) else Some (m, 0)
   }"

definition pgtbl_get :: "'z kmem_scheme \<Rightarrow> ert_ptr \<Rightarrow> u32 \<Rightarrow> addr \<times> u32" where
  "pgtbl_get s n accum =
     (chal_pa2va (ert_next s n AND PGTBL_FRAME_MASK), ert_next s n AND PGTBL_FLAG_MASK)"

definition pgtbl_isnull :: "'z kmem_scheme \<Rightarrow> ert_ptr \<Rightarrow> bool" where
  "pgtbl_isnull s n \<longleftrightarrow> ert_next s n AND (PGTBL_PRESENT OR PGTBL_COSFRAME) = 0"

text \<open>\<^verbatim>\<open>__pgtbl_update_leaf\<close>, and \<^verbatim>\<open>__pgtbl_setleaf\<close>, which expects the value it has just read.\<close>

definition pgtbl_update_leaf :: "addr \<Rightarrow> u32 \<Rightarrow> u32 \<Rightarrow> 'z kmem_scheme \<Rightarrow> int \<times> 'z kmem_scheme" where
  "pgtbl_update_leaf a v old s = (let (r, s) = mem_cas a old v s in (if r = 0 then - ECASFAIL else 0, s))"

definition pgtbl_setleaf :: "addr \<Rightarrow> u32 \<Rightarrow> 'z kmem_scheme \<Rightarrow> int \<times> 'z kmem_scheme" where
  "pgtbl_setleaf a v s = (let old = mem s a; (r, s) = mem_cas a old v s in (if r = 0 then - ECASFAIL else 0, s))"

definition pgtbl_setval :: "addr \<Rightarrow> u32" where
  "pgtbl_setval v = chal_va2pa (v AND PGTBL_FRAME_MASK) OR PGTBL_INTERN_DEF"

definition pgtbl_set :: "addr \<Rightarrow> addr \<Rightarrow> 'z kmem_scheme \<Rightarrow> int \<times> 'z kmem_scheme" where
  "pgtbl_set a v s =
     (let old = mem s a; (r, s) = mem_cas a old (pgtbl_setval v) s in (if r = 0 then - ECASFAIL else 0, s))"

definition pgtbl_consts :: "'z kmem_scheme ert_consts" where
  "pgtbl_consts =
     \<lparr>ert_depth = PGTBL_DEPTH, ert_order = PGTBL_ORD, ert_intern_sz = 4, ert_last_order = PGTBL_ORD,
      ert_last_sz = 4, ert_initval = 0,
      initfn = (\<lambda>a leaf s. wr a 0 s),
      getfn = pgtbl_get,
      isnullfn = pgtbl_isnull,
      setval = pgtbl_setval,
      setfn = (\<lambda>n v s. case n of At a \<Rightarrow> Some (pgtbl_set a v s) | Imm _ \<Rightarrow> Some (0, s)),
      allocfn = pgtbl_a,
      setleaffn = (\<lambda>n v s. case n of At a \<Rightarrow> Some (pgtbl_setleaf a v s) | Imm _ \<Rightarrow> Some (0, s)),
      getleaffn = pgtbl_get\<rparr>"

section \<open>Lookups\<close>

text \<open>\<^verbatim>\<open>__pgtbl_lkupan\<close> with the present bit set in the root, returning the pointer and the flags.\<close>

definition lkup_flags :: "(ert_ptr option \<times> u32) option \<Rightarrow> (addr \<times> u32) option" where
  "lkup_flags r = map_option (\<lambda>(n, accum). (case n of Some (At a) \<Rightarrow> a | _ \<Rightarrow> 0, accum)) r"

definition pgtbl_lkup_lvl ::
  "'z kmem_scheme \<Rightarrow> u32 \<Rightarrow> u32 \<Rightarrow> u32 \<Rightarrow> nat \<Rightarrow> nat \<Rightarrow> (addr \<times> u32) option" where
  "pgtbl_lkup_lvl s pt addr flags start_lvl end_lvl =
     lkup_flags (ert_lookup pgtbl_consts s (pt OR PGTBL_PRESENT) (drop_bit PGTBL_PAGEIDX_SHIFT addr)
       start_lvl end_lvl flags)"

definition pgtbl_ispresent :: "u32 \<Rightarrow> bool" where
  "pgtbl_ispresent flags \<longleftrightarrow> flags AND (PGTBL_PRESENT OR PGTBL_COSFRAME) \<noteq> 0"

definition pgtbl_lkup :: "'z kmem_scheme \<Rightarrow> u32 \<Rightarrow> u32 \<Rightarrow> u32 \<Rightarrow> (addr \<times> u32) option" where
  "pgtbl_lkup s pt addr flags = do {
     (ret, flags) \<leftarrow> pgtbl_lkup_lvl s pt addr flags 0 (PGTBL_DEPTH + 1);
     Some (if \<not> pgtbl_ispresent flags then 0 else ret, flags)
   }"

definition pgtbl_lkup_pte :: "'z kmem_scheme \<Rightarrow> u32 \<Rightarrow> u32 \<Rightarrow> u32 \<Rightarrow> (addr \<times> u32) option" where
  "pgtbl_lkup_pte s pt addr flags = pgtbl_lkup_lvl s pt addr flags 0 PGTBL_DEPTH"

definition pgtbl_lookup :: "'z kmem_scheme \<Rightarrow> u32 \<Rightarrow> u32 \<Rightarrow> u32 \<Rightarrow> (u32 \<times> u32) option" where
  "pgtbl_lookup s pt addr flags = do {
     (ret, flags) \<leftarrow> pgtbl_lkup s pt addr flags;
     Some (if ret = 0 then 0 else chal_va2pa ret, flags)
   }"

definition pgtbl_translate :: "'z kmem_scheme \<Rightarrow> u32 \<Rightarrow> u32 \<Rightarrow> u32 \<Rightarrow> (addr \<times> u32) option" where
  "pgtbl_translate s pt addr flags = pgtbl_lkup s pt addr flags"

text \<open>The result carries the frame when the return value is 0.\<close>

definition pgtbl_get_cosframe :: "'z kmem_scheme \<Rightarrow> u32 \<Rightarrow> u32 \<Rightarrow> u32 \<Rightarrow> (int \<times> u32) option" where
  "pgtbl_get_cosframe s pt frame_addr flags = do {
     (pte, flags) \<leftarrow> pgtbl_lkup_pte s pt frame_addr flags;
     if pte = 0 then Some (- EINVAL, 0)
     else let v = mem s pte
          in if v AND PGTBL_COSFRAME = 0 then Some (- EINVAL, 0) else Some (0, v AND PGTBL_FRAME_MASK)
   }"

definition pgtbl_get_pgd :: "'z kmem_scheme \<Rightarrow> u32 \<Rightarrow> u32 \<Rightarrow> addr option" where
  "pgtbl_get_pgd s pt addr = do {
     kassert (pt \<noteq> 0);
     (pgd, _) \<leftarrow> pgtbl_lkup_lvl s pt addr 0 0 1;
     Some pgd
   }"

definition pgtbl_check_pgd_absent :: "'z kmem_scheme \<Rightarrow> u32 \<Rightarrow> u32 \<Rightarrow> bool option" where
  "pgtbl_check_pgd_absent s pt addr = do {
     pgd \<leftarrow> pgtbl_get_pgd s pt addr;
     kassert (pgd \<noteq> 0);
     Some (pgtbl_isnull s (At pgd))
   }"

section \<open>Nodes\<close>

definition pgtbl_alloc :: "addr \<Rightarrow> 'z kmem_scheme \<Rightarrow> (u32 \<times> 'z kmem_scheme) option" where
  "pgtbl_alloc page s = do {
     (v, s) \<leftarrow> ert_alloc pgtbl_consts page s;
     Some (v AND PGTBL_FRAME_MASK, s)
   }"

fun pgtbl_init_from :: "addr \<Rightarrow> nat list \<Rightarrow> 'z kmem_scheme \<Rightarrow> 'z kmem_scheme" where
  "pgtbl_init_from pte [] s = s"
| "pgtbl_init_from pte (i # is) s = pgtbl_init_from pte is (wr (pte + of_nat (4 * i)) 0 s)"

definition pgtbl_init_pte :: "addr \<Rightarrow> 'z kmem_scheme \<Rightarrow> 'z kmem_scheme" where
  "pgtbl_init_pte pte s = pgtbl_init_from pte [0..<2 ^ PGTBL_ORD] s"

definition pgtbl_intern_expand :: "u32 \<Rightarrow> u32 \<Rightarrow> addr \<Rightarrow> u32 \<Rightarrow> ('z kmem_scheme, int) kop" where
  "pgtbl_intern_expand pt addr pte flags s = do {
     kassert (pt \<noteq> 0);
     kassert (PGTBL_FLAG_MASK AND pte = 0);
     kassert (PGTBL_FRAME_MASK AND flags = 0);
     if pte = 0 then Some (- EINVAL, s)
     else do {
       ((ret, accum, pte), s) \<leftarrow>
         ert_expand pgtbl_consts pt (drop_bit PGTBL_PAGEIDX_SHIFT addr) 0 PGTBL_DEPTH flags pte 0 s;
       if ret = 0 \<and> pte \<noteq> 0 then Some (- EEXIST, s)
       else do {
         kassert (\<not> (ret \<noteq> 0 \<and> pte = 0));
         Some (ret, s)
       }
     }
   }"

definition pgtbl_intern_prune :: "u32 \<Rightarrow> u32 \<Rightarrow> ('z kmem_scheme, addr) kop" where
  "pgtbl_intern_prune pt addr s = do {
     kassert (pt \<noteq> 0);
     kassert (PGTBL_FLAG_MASK AND addr = 0);
     (pgd, accum) \<leftarrow> pgtbl_lkup_lvl s pt addr 0 0 1;
     if pgd = 0 then Some (0, s)
     else do {
       let (page, accum) = pgtbl_get s (At pgd) accum;
       let (r, s) = pgtbl_set pgd 0 s;
       if r \<noteq> 0 then Some (0, s) else Some (page, s)
     }
   }"

text \<open>\<^verbatim>\<open>pgtbl_create\<close>: a new root node, with the kernel's quarter copied from the current page table.\<close>

fun pgd_copy :: "addr \<Rightarrow> addr \<Rightarrow> nat list \<Rightarrow> 'z kmem_scheme \<Rightarrow> 'z kmem_scheme" where
  "pgd_copy dst src [] s = s"
| "pgd_copy dst src (i # is) s =
     pgd_copy dst src is (wr (dst + of_nat (4 * i)) (mem s (src + of_nat (4 * i))) s)"

definition KERNEL_PGD_REGION_OFFSET :: u32 where
  "KERNEL_PGD_REGION_OFFSET = PAGE_SIZE - PAGE_SIZE div 4"
definition KERNEL_PGD_REGION_SIZE :: u32 where
  "KERNEL_PGD_REGION_SIZE = PAGE_SIZE div 4"

definition pgtbl_create :: "addr \<Rightarrow> u32 \<Rightarrow> 'z kmem_scheme \<Rightarrow> (u32 \<times> 'z kmem_scheme) option" where
  "pgtbl_create page curr_pgtbl s = do {
     (ret, s) \<leftarrow> pgtbl_alloc page s;
     let s = pgd_copy (page + KERNEL_PGD_REGION_OFFSET) (chal_pa2va curr_pgtbl + KERNEL_PGD_REGION_OFFSET)
               [0..<unat KERNEL_PGD_REGION_SIZE div 4] s;
     Some (ret, s)
   }"

section \<open>Mappings\<close>

text \<open>The retype-table operations, on the kernel state; \<open>i\<close> numbers the read of the time-stamp counter.\<close>

definition on_rt :: "(retype_state, int) kop \<Rightarrow> ('z kmem_scheme, int) kop" where
  "on_rt f s = map_option (\<lambda>(r, t). (r, s\<lparr>rt := t\<rparr>)) (f (rt s))"

definition k_ref :: "kenv \<Rightarrow> nat \<Rightarrow> u32 \<Rightarrow> ('z kmem_scheme, int) kop" where
  "k_ref E i pa = on_rt (retypetbl_ref (ke_kpa E) (ke_cpu E) (ke_tsc E i) pa)"

definition k_kern_ref :: "kenv \<Rightarrow> nat \<Rightarrow> u32 \<Rightarrow> ('z kmem_scheme, int) kop" where
  "k_kern_ref E i pa = on_rt (retypetbl_kern_ref (ke_kpa E) (ke_cpu E) (ke_tsc E i) pa)"

definition k_deref :: "kenv \<Rightarrow> nat \<Rightarrow> u32 \<Rightarrow> ('z kmem_scheme, int) kop" where
  "k_deref E i pa = on_rt (retypetbl_deref (ke_kpa E) (ke_cpu E) (ke_tsc E i) pa)"

definition pgtbl_quie_check :: "kenv \<Rightarrow> 'z kmem_scheme \<Rightarrow> u32 \<Rightarrow> int option" where
  "pgtbl_quie_check E s orig_v =
     (if orig_v AND PGTBL_QUIESCENCE \<noteq> 0
      then do {
        let lid = drop_bit PGTBL_PAGEIDX_SHIFT orig_v;
        kassert (lid < LTBL_ENTS);
        (r, ts) \<leftarrow> ltbl_get_timestamp (ltb s) lid 0;
        Some (if r \<noteq> 0 then - EFAULT
              else if \<not> tlb_quiescence_check (ke_cpu E) (tlbq s) ts then - EQUIESCENCE else 0)
      }
      else Some 0)"

definition pgtbl_mapping_add :: "kenv \<Rightarrow> u32 \<Rightarrow> u32 \<Rightarrow> u32 \<Rightarrow> u32 \<Rightarrow> ('z kmem_scheme, int) kop" where
  "pgtbl_mapping_add E pt addr page flags s = do {
     kassert (pt \<noteq> 0);
     kassert (PGTBL_FLAG_MASK AND page = 0);
     kassert (PGTBL_FRAME_MASK AND flags = 0);
     (pte, accum) \<leftarrow> pgtbl_lkup_pte s pt addr 0;
     if pte = 0 then Some (- ENOENT, s)
     else do {
       let orig_v = mem s pte;
       if orig_v AND PGTBL_PRESENT \<noteq> 0 then Some (- EEXIST, s)
       else if orig_v AND PGTBL_COSFRAME \<noteq> 0 then Some (- EPERM, s)
       else do {
         ret \<leftarrow> pgtbl_quie_check E s orig_v;
         if ret \<noteq> 0 then Some (ret, s)
         else do {
           (ret, s) \<leftarrow> k_ref E 0 page s;
           if ret \<noteq> 0 then Some (ret, s)
           else do {
             let (ret, s) = pgtbl_update_leaf pte (page OR flags) orig_v s;
             if ret \<noteq> 0 then do { (_, s) \<leftarrow> k_deref E 1 page s; Some (ret, s) }
             else Some (ret, s)
           }
         }
       }
     }
   }"

text \<open>
  A page-table entry that is dereferenced without a test for the null pointer is a failure of the
  kernel when the second-level node is missing.
\<close>

definition kmem_add_hack :: "u32 \<Rightarrow> u32 \<Rightarrow> u32 \<Rightarrow> u32 \<Rightarrow> ('z kmem_scheme, int) kop" where
  "kmem_add_hack pt addr page flags s = do {
     kassert (pt \<noteq> 0);
     kassert (PGTBL_FLAG_MASK AND page = 0);
     kassert (PGTBL_FRAME_MASK AND flags = 0);
     (pte, accum) \<leftarrow> pgtbl_lkup_pte s pt addr 0;
     kassert (pte \<noteq> 0);
     let orig_v = mem s pte;
     if orig_v AND PGTBL_PRESENT \<noteq> 0 then Some (- EEXIST, s)
     else if orig_v AND PGTBL_COSFRAME \<noteq> 0 then Some (- EPERM, s)
     else Some (pgtbl_update_leaf pte (page OR flags) orig_v s)
   }"

definition pgtbl_cosframe_add :: "u32 \<Rightarrow> u32 \<Rightarrow> u32 \<Rightarrow> u32 \<Rightarrow> ('z kmem_scheme, int) kop" where
  "pgtbl_cosframe_add pt addr page flags s = do {
     kassert (pt \<noteq> 0);
     kassert (PGTBL_FLAG_MASK AND page = 0);
     kassert (PGTBL_FRAME_MASK AND flags = 0);
     (pte, accum) \<leftarrow> pgtbl_lkup_pte s pt addr 0;
     kassert (pte \<noteq> 0);
     let orig_v = mem s pte;
     kassert (orig_v = 0);
     Some (pgtbl_update_leaf pte (page OR flags) 0 s)
   }"

definition pgtbl_mapping_mod :: "u32 \<Rightarrow> u32 \<Rightarrow> u32 \<Rightarrow> u32 \<Rightarrow> ('z kmem_scheme, int \<times> u32) kop" where
  "pgtbl_mapping_mod pt addr flags prevflags s = do {
     kassert (pt \<noteq> 0);
     kassert (PGTBL_FLAG_MASK AND addr = 0);
     kassert (PGTBL_FRAME_MASK AND flags = 0);
     (pte, accum) \<leftarrow> pgtbl_lkup_pte s pt addr 0;
     kassert (pte \<noteq> 0);
     if pgtbl_isnull s (At pte) then Some ((- ENOENT, prevflags), s)
     else do {
       let orig_v = mem s pte;
       let (r, s) = pgtbl_update_leaf pte (orig_v AND PGTBL_FRAME_MASK OR flags AND PGTBL_FLAG_MASK) orig_v s;
       Some ((r, orig_v AND PGTBL_FLAG_MASK), s)
     }
   }"

definition pgtbl_mapping_del :: "kenv \<Rightarrow> u32 \<Rightarrow> u32 \<Rightarrow> u32 \<Rightarrow> ('z kmem_scheme, int) kop" where
  "pgtbl_mapping_del E pt addr liv_id s = do {
     kassert (pt \<noteq> 0);
     kassert (PGTBL_FLAG_MASK AND addr = 0);
     if liv_id \<ge> push_bit (32 - PGTBL_PAGEIDX_SHIFT) 1 then Some (- EINVAL, s)
     else do {
       (ret, lt) \<leftarrow> ltbl_timestamp_update (ke_tsc E 0) liv_id (ltb s);
       let s = s\<lparr>ltb := lt\<rparr>;
       if ret \<noteq> 0 then Some (ret, s)
       else do {
         (pte, accum) \<leftarrow> pgtbl_lkup_pte s pt addr 0;
         kassert (pte \<noteq> 0);
         let orig_v = mem s pte;
         if orig_v AND PGTBL_PRESENT = 0 then Some (- EEXIST, s)
         else if orig_v AND PGTBL_COSFRAME \<noteq> 0 then Some (- EPERM, s)
         else do {
           let (ret, s) = pgtbl_update_leaf pte (push_bit PGTBL_PAGEIDX_SHIFT liv_id OR PGTBL_QUIESCENCE) orig_v s;
           if ret \<noteq> 0 then Some (ret, s)
           else k_deref E 1 (orig_v AND PGTBL_FRAME_MASK) s
         }
       }
     }
   }"

definition pgtbl_mapping_del_direct :: "u32 \<Rightarrow> u32 \<Rightarrow> ('z kmem_scheme, int) kop" where
  "pgtbl_mapping_del_direct pt addr s = do {
     kassert (pt \<noteq> 0);
     kassert (PGTBL_FLAG_MASK AND addr = 0);
     ((ret, _), s) \<leftarrow>
       ert_expand pgtbl_consts pt (drop_bit PGTBL_PAGEIDX_SHIFT addr) 0 (PGTBL_DEPTH + 1) 0 0 0 s;
     Some (ret, s)
   }"

text \<open>The scan of a second-level node before its page is released; \<open>pt\<close> is the capability's address.\<close>

fun mapping_scan_from :: "kenv \<Rightarrow> 'z kmem_scheme \<Rightarrow> addr \<Rightarrow> nat list \<Rightarrow> int option" where
  "mapping_scan_from E s page [] = Some 0"
| "mapping_scan_from E s page (i # is) = do {
     let pte = mem s (page + of_nat (4 * i));
     if pte AND PGTBL_PRESENT \<noteq> 0 \<or> pte AND PGTBL_COSFRAME \<noteq> 0 then Some (- EINVAL)
     else if pte AND PGTBL_QUIESCENCE \<noteq> 0
     then do {
       (r, past_ts) \<leftarrow> ltbl_get_timestamp (ltb s) (drop_bit PGTBL_PAGEIDX_SHIFT pte) 0;
       if r \<noteq> 0 then Some (- EFAULT)
       else if \<not> tlb_quiescence_check (ke_cpu E) (tlbq s) past_ts then Some (- EQUIESCENCE)
       else mapping_scan_from E s page is
     }
     else mapping_scan_from E s page is
   }"

definition pgtbl_mapping_scan :: "kenv \<Rightarrow> 'z kmem_scheme \<Rightarrow> addr \<Rightarrow> int option" where
  "pgtbl_mapping_scan E s pt =
     (if tbl_lvl (tbls s pt) \<noteq> of_nat (PGTBL_DEPTH - 1) then Some (- EINVAL)
      else do {
        let page = tbl (tbls s pt);
        kassert (page \<noteq> 0);
        mapping_scan_from E s page [0..<unat PAGE_SIZE div 4]
      })"

text \<open>\<^verbatim>\<open>pgtbl_kmem_act\<close>: take a frame for a kernel object; the result holds its address and its entry.\<close>

definition pgtbl_kmem_act :: "kenv \<Rightarrow> u32 \<Rightarrow> u32 \<Rightarrow> ('z kmem_scheme, int \<times> addr \<times> addr) kop" where
  "pgtbl_kmem_act E pt addr s = do {
     kassert (pt \<noteq> 0);
     kassert (PGTBL_FLAG_MASK AND addr = 0);
     (pte, accum) \<leftarrow> pgtbl_lkup_pte s pt addr 0;
     if pte = 0 then Some ((- ENOENT, 0, 0), s)
     else if pgtbl_isnull s (At pte) then Some ((- ENOENT, 0, 0), s)
     else do {
       let orig_v = mem s pte;
       if orig_v AND PGTBL_COSFRAME = 0 then Some ((- EINVAL, 0, 0), s)
       else if orig_v AND PGTBL_COSKMEM \<noteq> 0 then Some ((- EEXIST, 0, 0), s)
       else do {
         kassert (orig_v AND PGTBL_QUIESCENCE = 0);
         let kern_addr = chal_pa2va (orig_v AND PGTBL_FRAME_MASK);
         let new_v = orig_v OR PGTBL_COSKMEM;
         if kern_addr = 0 then Some ((- EINVAL, kern_addr, 0), s)
         else do {
           (r, s) \<leftarrow> k_kern_ref E 0 (new_v AND PGTBL_FRAME_MASK) s;
           if r \<noteq> 0 then Some ((- EFAULT, kern_addr, 0), s)
           else do {
             let (r, s) = mem_cas pte orig_v new_v s;
             if r \<noteq> CAS_SUCCESS
             then do {
               (_, s) \<leftarrow> k_deref E 1 (orig_v AND PGTBL_FRAME_MASK) s;
               Some ((- ECASFAIL, kern_addr, 0), s)
             }
             else Some ((0, kern_addr, pte), s)
           }
         }
       }
     }
   }"

section \<open>The page table as a two-level trie\<close>

lemma pgtbl_consts_sel [simp]:
  "ert_depth pgtbl_consts = 2" "ert_order pgtbl_consts = 10" "ert_intern_sz pgtbl_consts = 4"
  "ert_last_order pgtbl_consts = 10" "ert_last_sz pgtbl_consts = 4" "ert_initval pgtbl_consts = 0"
  "initfn pgtbl_consts a lf s = wr a 0 s"
  "getfn pgtbl_consts = pgtbl_get"
  "isnullfn pgtbl_consts = pgtbl_isnull"
  "setval pgtbl_consts = pgtbl_setval"
  "setfn pgtbl_consts (At a) v s = Some (pgtbl_set a v s)"
  "allocfn pgtbl_consts = pgtbl_a"
  "setleaffn pgtbl_consts (At a) v s = Some (pgtbl_setleaf a v s)"
  "getleaffn pgtbl_consts = pgtbl_get"
  by (simp_all add: pgtbl_consts_def)

lemma ert_maxid_pgtbl [simp]: "ert_maxid (pgtbl_consts :: 'z kmem_scheme ert_consts) = 0x100000"
  by (simp add: ert_maxid_def push_bit_eq_mult)

lemmas pgtbl_flag_defs =
  PGTBL_PRESENT_def PGTBL_WRITABLE_def PGTBL_USER_def PGTBL_ACCESSED_def PGTBL_MODIFIED_def
  PGTBL_COSFRAME_def PGTBL_COSKMEM_def PGTBL_QUIESCENCE_def PGTBL_USER_DEF_def PGTBL_INTERN_DEF_def

lemma and_exp_zero_iff: "(v :: u32) AND 2 ^ n = 0 \<longleftrightarrow> \<not> bit v n"
  by (simp add: bit_iff_and_push_bit_not_eq_0 push_bit_of_1)

lemma flag_bits:
  "v AND PGTBL_PRESENT = 0 \<longleftrightarrow> \<not> bit v 0" "v AND PGTBL_COSFRAME = 0 \<longleftrightarrow> \<not> bit v 9"
  "v AND PGTBL_COSKMEM = 0 \<longleftrightarrow> \<not> bit v 10" "v AND PGTBL_QUIESCENCE = 0 \<longleftrightarrow> \<not> bit v 11"
  using and_exp_zero_iff [of v 0] and_exp_zero_iff [of v 9] and_exp_zero_iff [of v 10] and_exp_zero_iff [of v 11]
  by (simp_all add: pgtbl_flag_defs)

lemma bit_push_one: "bit (push_bit m 1 :: u32) n \<longleftrightarrow> n = m \<and> m < 32"
  by (auto simp only: bit_push_bit_iff bit_1_iff possible_bit_word len_bit0 len_num1)

lemma flag_bit:
  "bit PGTBL_COSKMEM n \<longleftrightarrow> n = 10" "bit PGTBL_COSFRAME n \<longleftrightarrow> n = 9" "bit PGTBL_QUIESCENCE n \<longleftrightarrow> n = 11"
  unfolding PGTBL_COSKMEM_def PGTBL_COSFRAME_def PGTBL_QUIESCENCE_def bit_push_one by auto

lemma null_bits: "v AND (PGTBL_PRESENT OR PGTBL_COSFRAME) = 0 \<longleftrightarrow> \<not> bit v 0 \<and> \<not> bit v 9"
proof -
  have "v AND (PGTBL_PRESENT OR PGTBL_COSFRAME) = (v AND PGTBL_PRESENT) OR (v AND PGTBL_COSFRAME)"
    by (rule bit_word_eqI) (auto simp: bit_simps)
  then show ?thesis by (simp add: or_eq_0_iff flag_bits)
qed

lemma frame_mask_bit: "bit (v AND PGTBL_FRAME_MASK) n \<longleftrightarrow> bit v n \<and> 12 \<le> n"
  using bit_imp_le_length [of v n] by (auto simp: PGTBL_FRAME_MASK_def PGTBL_FLAG_MASK_def bit_simps)

lemma flag_mask_bit: "bit (v AND PGTBL_FLAG_MASK) n \<longleftrightarrow> bit v n \<and> n < 12"
  using bit_imp_le_length [of v n] by (auto simp: PGTBL_FLAG_MASK_def bit_simps)

lemma page_aligned_bits: "PGTBL_FLAG_MASK AND v = 0 \<longleftrightarrow> (\<forall>n < 12. \<not> bit v n)"
  using bit_imp_le_length [of v]
  by (auto simp: bit_eq_iff [of "_ AND _"] flag_mask_bit and.commute [of PGTBL_FLAG_MASK])

lemma only_flags_bits: "PGTBL_FRAME_MASK AND v = 0 \<longleftrightarrow> (\<forall>n \<ge> 12. \<not> bit v n)"
  using bit_imp_le_length [of v]
  by (auto simp: bit_eq_iff [of "_ AND _"] frame_mask_bit and.commute [of PGTBL_FRAME_MASK])

lemma page_or_flags:
  assumes "PGTBL_FLAG_MASK AND page = 0" "PGTBL_FRAME_MASK AND flags = 0"
  shows "(page OR flags) AND PGTBL_FRAME_MASK = page" "(page OR flags) AND PGTBL_FLAG_MASK = flags"
proof -
  have p: "bit page n \<Longrightarrow> 12 \<le> n" and f: "bit flags n \<Longrightarrow> n < 12" for n
    using assms unfolding page_aligned_bits only_flags_bits by (meson not_less)+
  show "(page OR flags) AND PGTBL_FRAME_MASK = page" "(page OR flags) AND PGTBL_FLAG_MASK = flags"
    by (rule bit_word_eqI, use p f in \<open>force simp: frame_mask_bit flag_mask_bit bit_or_iff\<close>)+
qed

lemma page_aligned_dvd: "PGTBL_FLAG_MASK AND v = 0 \<longleftrightarrow> 2 ^ 12 dvd v"
  unfolding PGTBL_FLAG_MASK_def by (metis and.commute take_bit_eq_mask take_bit_eq_0_iff)

lemma va2pa_aligned: "PGTBL_FLAG_MASK AND v = 0 \<Longrightarrow> PGTBL_FLAG_MASK AND chal_va2pa v = 0"
proof -
  have "(2 :: u32) ^ 12 dvd 0xc0000000" by (rule dvdI [of _ _ "0xc0000"]) simp
  then show "PGTBL_FLAG_MASK AND v = 0 \<Longrightarrow> PGTBL_FLAG_MASK AND chal_va2pa v = 0"
    unfolding page_aligned_dvd by (simp add: chal_va2pa_def COS_MEM_KERN_START_VA_def dvd_diff)
qed

lemma intern_def_flags: "PGTBL_FRAME_MASK AND PGTBL_INTERN_DEF = 0" "bit PGTBL_INTERN_DEF 0"
  by (simp_all add: PGTBL_FRAME_MASK_def PGTBL_FLAG_MASK_def pgtbl_flag_defs mask_eq_exp_minus_1 push_bit_eq_mult bit_0)

lemma setval_get:
  assumes "PGTBL_FLAG_MASK AND v = 0"
  shows "chal_pa2va (pgtbl_setval v AND PGTBL_FRAME_MASK) = v" "bit (pgtbl_setval v) 0"
proof -
  have "v AND PGTBL_FRAME_MASK = v"
    using assms unfolding page_aligned_bits by (auto simp: bit_eq_iff frame_mask_bit not_less)
  then have "pgtbl_setval v = chal_va2pa v OR PGTBL_INTERN_DEF" by (simp add: pgtbl_setval_def)
  then show "chal_pa2va (pgtbl_setval v AND PGTBL_FRAME_MASK) = v" "bit (pgtbl_setval v) 0"
    using page_or_flags(1) [OF va2pa_aligned [OF assms] intern_def_flags(1)] intern_def_flags(2)
    by (simp_all add: bit_or_iff)
qed

interpretation pgt: ert2 "pgtbl_consts :: 'z kmem_scheme ert_consts" "\<lambda>v. PGTBL_FLAG_MASK AND v = 0"
  by unfold_locales
    (auto simp: pgtbl_get_def pgtbl_isnull_def pgtbl_a_def kassert_bind pgtbl_set_def null_bits setval_get
      split: if_splits)

text \<open>The page-directory entry and the page-table entry of an address; 0 when the table is missing.\<close>

definition pgd_of :: "u32 \<Rightarrow> u32 \<Rightarrow> addr" where
  "pgd_of pt addr = chal_pa2va (pt AND PGTBL_FRAME_MASK) + (drop_bit 22 addr AND mask 10) * 4"

definition pte_of :: "'z kmem_scheme \<Rightarrow> u32 \<Rightarrow> u32 \<Rightarrow> addr" where
  "pte_of s pt addr =
     (let pgd = mem s (pgd_of pt addr)
      in if \<not> bit pgd 0 \<and> \<not> bit pgd 9 then 0
         else chal_pa2va (pgd AND PGTBL_FRAME_MASK) + (drop_bit 12 addr AND mask 10) * 4)"

lemma unat_u32_less: "unat (a :: u32) < 2 ^ 32"
  by (rule order.strict_trans2 [OF unsigned_less]) simp

lemma drop_12_maxid: "drop_bit 12 (a :: u32) < 0x100000"
proof -
  have "unat (drop_bit 12 a) = unat a div 2 ^ 12" by (simp add: drop_bit_eq_div unat_div)
  also have "\<dots> < 2 ^ 20" using unat_u32_less [of a] by (simp add: less_mult_imp_div_less)
  finally show ?thesis by (simp add: word_less_nat_alt)
qed

lemma or_present_nonzero: "pt OR PGTBL_PRESENT \<noteq> 0"
  by (simp add: or_eq_0_iff PGTBL_PRESENT_def)

lemma root_frame: "(pt OR PGTBL_PRESENT) AND PGTBL_FRAME_MASK = pt AND PGTBL_FRAME_MASK"
  by (rule bit_word_eqI) (auto simp: frame_mask_bit bit_or_iff PGTBL_PRESENT_def bit_1_iff)

lemma root_present: "bit (pt OR PGTBL_PRESENT) 0"
  by (simp add: bit_or_iff PGTBL_PRESENT_def)

lemma pgt_leaf_entry:
  "pgt.leaf_entry s (pt OR PGTBL_PRESENT) (drop_bit 12 addr) =
     (let pgd = mem s (pgd_of pt addr)
      in if \<not> bit pgd 0 \<and> \<not> bit pgd 9 then None
         else Some (chal_pa2va (pgd AND PGTBL_FRAME_MASK) + (drop_bit 12 addr AND mask 10) * 4))"
  by (simp add: pgt.leaf_entry_def pgt.root_entry_def pgtbl_isnull_def pgtbl_get_def null_bits root_present
      root_frame ert_off_def pgd_of_def Let_def)

lemma pgtbl_lkup_pte_eq: "\<exists>acc. pgtbl_lkup_pte s pt addr f = Some (pte_of s pt addr, acc)"
proof -
  obtain acc where "ert_lookup pgtbl_consts s (pt OR PGTBL_PRESENT) (drop_bit 12 addr) 0 2 f =
      Some (map_option At (pgt.leaf_entry s (pt OR PGTBL_PRESENT) (drop_bit 12 addr)), acc)"
    using pgt.lookup_leaf_entry [OF or_present_nonzero, of "drop_bit 12 addr" s pt f] drop_12_maxid by auto
  then show ?thesis
    by (auto simp: pgtbl_lkup_pte_def pgtbl_lkup_lvl_def lkup_flags_def pgt_leaf_entry pte_of_def Let_def)
qed

lemma lkup_pte_bind:
  "(pgtbl_lkup_pte s pt addr f \<bind> (\<lambda>(pte, acc). g pte)) = g (pte_of s pt addr)"
  using pgtbl_lkup_pte_eq [of s pt addr f] by auto

section \<open>Outcomes\<close>

lemma on_rt_Some: "on_rt f s = Some (r, s') \<longleftrightarrow> (\<exists>t. f (rt s) = Some (r, t) \<and> s' = s\<lparr>rt := t\<rparr>)"
  by (auto simp: on_rt_def)

lemma mod_ref_cnt_error: "mod_ref_cnt kpa cpu now pa op tc t = Some (r, t') \<Longrightarrow> r \<noteq> 0 \<Longrightarrow> t' = t"
  by (auto simp: mod_ref_cnt_eq Let_def split: if_splits)

lemma retypetbl_error:
  "retypetbl_ref kpa cpu now pa t = Some (r, t') \<Longrightarrow> r \<noteq> 0 \<Longrightarrow> t' = t"
  "retypetbl_kern_ref kpa cpu now pa t = Some (r, t') \<Longrightarrow> r \<noteq> 0 \<Longrightarrow> t' = t"
  by (auto simp: retypetbl_ref_def retypetbl_kern_ref_def dest: mod_ref_cnt_error)

lemma k_ref_error: "k_ref E i pa s = Some (r, s') \<Longrightarrow> r \<noteq> 0 \<Longrightarrow> s' = s"
  by (auto simp: k_ref_def on_rt_Some retypetbl_ref_def dest: mod_ref_cnt_error)

lemma k_kern_ref_error: "k_kern_ref E i pa s = Some (r, s') \<Longrightarrow> r \<noteq> 0 \<Longrightarrow> s' = s"
  by (auto simp: k_kern_ref_def on_rt_Some retypetbl_kern_ref_def dest: mod_ref_cnt_error)

lemma update_leaf_current [simp]: "mem s a = old \<Longrightarrow> pgtbl_update_leaf a v old s = (0, wr a v s)"
  by (simp add: pgtbl_update_leaf_def)

lemma pgtbl_quie_check_total: "\<exists>r. pgtbl_quie_check E s v = Some r"
proof -
  have "drop_bit 12 v < LTBL_ENTS" using drop_12_maxid [of v] by (simp add: LTBL_ENTS_eq)
  then show ?thesis by (simp add: pgtbl_quie_check_def ltbl_get_timestamp_def kassert_bind ltbl_lkup_ok Let_def not_le)
qed

lemma k_ref_total: "\<exists>r s'. k_ref E i pa s = Some (r, s')" "\<exists>r s'. k_kern_ref E i pa s = Some (r, s')"
  "\<exists>r s'. k_deref E i pa s = Some (r, s')"
  using mod_ref_cnt_total
  by (auto simp: k_ref_def k_kern_ref_def k_deref_def on_rt_Some retypetbl_ref_def retypetbl_kern_ref_def
      retypetbl_deref_def)

text \<open>The frame that a page-table entry may map: present, or claimed as a frame.\<close>

lemma retypetbl_total:
  "\<exists>r t'. retypetbl_ref kpa cpu now pa t = Some (r, t')" "\<exists>r t'. retypetbl_kern_ref kpa cpu now pa t = Some (r, t')"
  "\<exists>r t'. retypetbl_deref kpa cpu now pa t = Some (r, t')"
  using mod_ref_cnt_total by (simp_all add: retypetbl_ref_def retypetbl_kern_ref_def retypetbl_deref_def)

lemma bind_kassert_Some: "(kassert b \<bind> f) = Some x \<longleftrightarrow> b \<and> f () = Some x"
  by (simp add: kassert_bind)

lemma mapping_add_cases:
  assumes "pgtbl_mapping_add E pt addr page flags s = Some (r, s')"
  shows "(r \<noteq> 0 \<and> s' = s) \<or>
    (r = 0 \<and> pte_of s pt addr \<noteq> 0 \<and> \<not> bit (mem s (pte_of s pt addr)) 0 \<and> \<not> bit (mem s (pte_of s pt addr)) 9 \<and>
     pgtbl_quie_check E s (mem s (pte_of s pt addr)) = Some 0 \<and>
     (\<exists>t. retypetbl_ref (ke_kpa E) (ke_cpu E) (ke_tsc E 0) page (rt s) = Some (0, t) \<and>
        s' = wr (pte_of s pt addr) (page OR flags) (s\<lparr>rt := t\<rparr>)))"
proof -
  define pte where "pte = pte_of s pt addr"
  obtain q where q: "pgtbl_quie_check E s (mem s pte) = Some q"
    using pgtbl_quie_check_total by blast
  obtain r' t where t: "retypetbl_ref (ke_kpa E) (ke_cpu E) (ke_tsc E 0) page (rt s) = Some (r', t)"
    using retypetbl_total by blast
  have "t = rt s" if "r' \<noteq> 0" using retypetbl_error(1) [OF t that] .
  with assms q t show ?thesis
    unfolding pgtbl_mapping_add_def bind_kassert_Some lkup_pte_bind pte_def [symmetric] Let_def k_ref_def on_rt_def
    by (simp add: flag_bits split: if_splits)
qed

lemma mapping_add_total:
  assumes "pt \<noteq> 0" "PGTBL_FLAG_MASK AND page = 0" "PGTBL_FRAME_MASK AND flags = 0"
  shows "\<exists>r s'. pgtbl_mapping_add E pt addr page flags s = Some (r, s')"
proof -
  obtain q where q: "pgtbl_quie_check E s (mem s (pte_of s pt addr)) = Some q"
    using pgtbl_quie_check_total by blast
  obtain r s1 where r: "k_ref E 0 page s = Some (r, s1)" using k_ref_total by blast
  then have "mem s1 = mem s" by (auto simp: k_ref_def on_rt_Some)
  then show ?thesis
    using assms q r by (simp add: pgtbl_mapping_add_def kassert_bind lkup_pte_bind Let_def)
qed

lemma mapping_del_cases:
  assumes "pgtbl_mapping_del E pt addr lid s = Some (r, s')"
  shows "(r \<noteq> 0 \<and> mem s' = mem s \<and> rt s' = rt s) \<or>
    (pte_of s pt addr \<noteq> 0 \<and> bit (mem s (pte_of s pt addr)) 0 \<and> \<not> bit (mem s (pte_of s pt addr)) 9 \<and>
     lid < LTBL_ENTS \<and>
     (\<exists>t. retypetbl_deref (ke_kpa E) (ke_cpu E) (ke_tsc E 1)
          (mem s (pte_of s pt addr) AND PGTBL_FRAME_MASK) (rt s) = Some (r, t) \<and>
        s' = (wr (pte_of s pt addr) (push_bit 12 lid OR PGTBL_QUIESCENCE)
          (s\<lparr>ltb := (ltb s)(lid := (ltb s lid)\<lparr>deact_timestamp := ke_tsc E 0\<rparr>)\<rparr>))\<lparr>rt := t\<rparr>))"
proof -
  define pte where "pte = pte_of s pt addr"
  have pte: "pte_of (s\<lparr>ltb := l\<rparr>) pt addr = pte" for l by (simp add: pte_of_def pte_def)
  obtain r' t where t: "retypetbl_deref (ke_kpa E) (ke_cpu E) (ke_tsc E 1) (mem s pte AND PGTBL_FRAME_MASK) (rt s) = Some (r', t)"
    using retypetbl_total by blast
  have "push_bit 20 1 = LTBL_ENTS" by (simp add: LTBL_ENTS_eq push_bit_eq_mult)
  with assms t show ?thesis
    unfolding pgtbl_mapping_del_def bind_kassert_Some pte_def [symmetric] Let_def k_deref_def on_rt_def
      ltbl_timestamp_update_def
    by (cases "lid \<ge> LTBL_ENTS") (auto simp: flag_bits ltbl_lkup_ok not_le lkup_pte_bind bind_kassert_Some pte split: if_splits)
qed

lemma kmem_act_cases:
  assumes "pgtbl_kmem_act E pt addr s = Some ((r, ka, p), s')"
  shows "(r \<noteq> 0 \<and> s' = s) \<or>
    (r = 0 \<and> p = pte_of s pt addr \<and> p \<noteq> 0 \<and> bit (mem s p) 9 \<and> \<not> bit (mem s p) 10 \<and>
     ka = chal_pa2va (mem s p AND PGTBL_FRAME_MASK) \<and>
     (\<exists>t. retypetbl_kern_ref (ke_kpa E) (ke_cpu E) (ke_tsc E 0)
          ((mem s p OR PGTBL_COSKMEM) AND PGTBL_FRAME_MASK) (rt s) = Some (0, t) \<and>
        s' = wr p (mem s p OR PGTBL_COSKMEM) (s\<lparr>rt := t\<rparr>)))"
proof -
  define pte where "pte = pte_of s pt addr"
  obtain r' t where t: "retypetbl_kern_ref (ke_kpa E) (ke_cpu E) (ke_tsc E 0)
      ((mem s pte OR PGTBL_COSKMEM) AND PGTBL_FRAME_MASK) (rt s) = Some (r', t)"
    using retypetbl_total by blast
  have "t = rt s" if "r' \<noteq> 0" using retypetbl_error(2) [OF t that] .
  with assms t show ?thesis
    unfolding pgtbl_kmem_act_def bind_kassert_Some lkup_pte_bind pte_def [symmetric] Let_def k_kern_ref_def on_rt_def
    by (auto simp: flag_bits bind_kassert_Some split: if_splits)
qed

section \<open>Reference counts and mappings\<close>

text \<open>
  The references a page-table entry stands for: one to the memory set of its frame if it is a user
  mapping, or a frame entry whose frame is activated as a kernel object.
\<close>

definition pte_holds :: "u32 \<Rightarrow> bool" where
  "pte_holds v \<longleftrightarrow> (if bit v 9 then bit v 10 else bit v 0)"

definition pte_refs :: "u32 \<Rightarrow> nat \<Rightarrow> u32 \<Rightarrow> nat" where
  "pte_refs kpa k v = (if pte_holds v \<and> ref_key kpa (v AND PGTBL_FRAME_MASK) = Some k then 1 else 0)"

text \<open>
  The retype table is exact for the page-table entries in \<open>L\<close>: each memory set has as many
  references as there are entries that hold one.
\<close>

definition refs_match :: "u32 \<Rightarrow> addr set \<Rightarrow> 'z kmem_scheme \<Rightarrow> bool" where
  "refs_match kpa L s \<longleftrightarrow> rt_inv (rt s) \<and> finite L \<and> card L < 2 ^ 28 \<and>
     (\<forall>k. total_refs (rt s) k = of_nat (\<Sum>a\<in>L. pte_refs kpa k (mem s a)))"

lemma sum_pte_refs_wr:
  assumes "finite L" "a \<in> L"
  shows "(of_nat (\<Sum>x\<in>L. pte_refs kpa k (mem (wr a w s) x)) :: 28 word) =
    of_nat (\<Sum>x\<in>L. pte_refs kpa k (mem s x)) - of_nat (pte_refs kpa k (mem s a)) + of_nat (pte_refs kpa k w)"
proof -
  have "(\<Sum>x\<in>L. pte_refs kpa k (mem (wr a w s) x)) =
      pte_refs kpa k w + (\<Sum>x\<in>L - {a}. pte_refs kpa k (mem s x))"
    using assms by (subst sum.remove [of _ a]) (auto intro!: sum.cong)
  moreover have "(\<Sum>x\<in>L. pte_refs kpa k (mem s x)) =
      pte_refs kpa k (mem s a) + (\<Sum>x\<in>L - {a}. pte_refs kpa k (mem s x))"
    using assms by (subst sum.remove [of _ a]) auto
  ultimately show ?thesis by simp
qed

lemma refs_match_update:
  assumes "refs_match kpa L s" "a \<in> L" "rt_inv t" "mem s' = mem s"
    and "\<And>k. total_refs t k = total_refs (rt s) k - of_nat (pte_refs kpa k (mem s a)) + of_nat (pte_refs kpa k w)"
  shows "refs_match kpa L ((wr a w s')\<lparr>rt := t\<rparr>)"
  using assms sum_pte_refs_wr [of L a kpa _ w s] by (simp add: refs_match_def)

lemma unat_of_nat_28: "n < 2 ^ 28 \<Longrightarrow> unat (of_nat n :: 28 word) = n"
  by (simp add: unsigned_of_nat take_bit_nat_eq_self)

text \<open>A set with an entry that holds a reference has a nonzero count, so it is typed.\<close>

lemma held_set_typed:
  assumes "refs_match kpa L s" "a \<in> L" "pte_holds (mem s a)" "ref_key kpa (mem s a AND PGTBL_FRAME_MASK) = Some k"
  shows "typed_mem (glb_retype_tbl (rt s) k)"
proof (rule ccontr)
  assume nt: "\<not> typed_mem (glb_retype_tbl (rt s) k)"
  have inv: "rt_inv (rt s)" and fin: "finite L" and card: "card L < 2 ^ 28" using assms(1) by (auto simp: refs_match_def)
  have k: "k < N_MEM_SETS"
    using assms(4) GET_MEM_IDX_bound by (auto simp: ref_key_def split: if_splits)
  have "glb_retype_tbl (rt s) k = RETYPETBL_UNTYPED"
    using nt inv k by (cases "glb_retype_tbl (rt s) k") (auto simp: typed_mem_def rt_inv_def)
  then have "total_refs (rt s) k = 0"
    using inv k by (simp add: total_refs_def rt_inv_def)
  then have z: "(of_nat (\<Sum>x\<in>L. pte_refs kpa k (mem s x)) :: 28 word) = 0"
    using assms(1) by (simp add: refs_match_def)
  have "(\<Sum>x\<in>L. pte_refs kpa k (mem s x)) \<le> (\<Sum>x\<in>L. 1)"
    by (intro sum_mono) (simp add: pte_refs_def)
  then have "(\<Sum>x\<in>L. pte_refs kpa k (mem s x)) < 2 ^ 28" using card by simp
  then have "unat (of_nat (\<Sum>x\<in>L. pte_refs kpa k (mem s x)) :: 28 word) = (\<Sum>x\<in>L. pte_refs kpa k (mem s x))"
    by (rule unat_of_nat_28)
  then have "(\<Sum>x\<in>L. pte_refs kpa k (mem s x)) = 0" using z by simp
  then have "pte_refs kpa k (mem s a) = 0" using fin assms(2) by simp
  then show False using assms(3,4) by (simp add: pte_refs_def)
qed

lemma ref_outcome:
  assumes "retypetbl_ref kpa cpu now pa t = Some (0, t')" "cpu < NUM_CPU" "rt_inv t"
  shows "rt_inv t'" "total_refs t' k = total_refs t k + (if ref_key kpa pa = Some k then 1 else 0)"
  using assms retype_rc.ref_inv [where a = "(cpu, now, pa)"] retype_rc.ref_rc [where a = "(cpu, now, pa)"] by simp_all

lemma deref_outcome:
  assumes "retypetbl_deref kpa cpu now pa t = Some (0, t')" "cpu < NUM_CPU" "rt_inv t"
  shows "rt_inv t'" "total_refs t' k = total_refs t k - (if ref_key kpa pa = Some k then 1 else 0)"
  using assms retype_rc.deref_inv [where a = "(cpu, now, pa)"] retype_rc.deref_rc [where a = "(cpu, now, pa)"] by simp_all

lemma kern_ref_outcome:
  assumes "retypetbl_kern_ref kpa cpu now pa t = Some (0, t')" "cpu < NUM_CPU" "rt_inv t"
  shows "rt_inv t'" "total_refs t' k = total_refs t k + (if ref_key kpa pa = Some k then 1 else 0)"
  using assms total_refs_mod_ref_cnt [of kpa cpu now pa True "Some RETYPETBL_KERN" t 0 t' k]
  by (auto simp: retypetbl_kern_ref_def intro: rt_inv_mod_ref_cnt)

lemma deref_typed:
  assumes "retypetbl_deref kpa cpu now pa t = Some (r, t')" "rt_inv t" "cpu < NUM_CPU"
    and "\<And>k. ref_key kpa pa = Some k \<Longrightarrow> typed_mem (glb_retype_tbl t k)" "pa \<ge> COS_MEM_BOUND \<or> ref_key kpa pa \<noteq> None"
  shows "r = 0"
proof (cases "pa \<ge> COS_MEM_BOUND")
  case False
  then obtain k where k: "ref_key kpa pa = Some k" using assms(5) by auto
  then have "k < N_MEM_SETS" "k = GET_MEM_IDX kpa pa" "pa_in_bounds kpa pa"
    using GET_MEM_IDX_bound by (auto simp: ref_key_def split: if_splits)
  then show ?thesis
    using assms(1-3) assms(4) [OF k] False by (auto simp: retypetbl_deref_def mod_ref_cnt_eq Let_def rt_inv_def split: if_splits)
qed (use assms(1) in \<open>simp add: retypetbl_deref_def mod_ref_cnt_eq\<close>)

lemma pte_refs_mapping:
  assumes "PGTBL_FLAG_MASK AND page = 0" "PGTBL_FRAME_MASK AND flags = 0" "bit flags 0" "\<not> bit flags 9"
  shows "pte_refs kpa k (page OR flags) = (if ref_key kpa page = Some k then 1 else 0)"
  using assms page_or_flags [OF assms(1,2)]
  by (simp add: pte_refs_def pte_holds_def bit_or_iff page_aligned_bits)

lemma wr_rt [simp]: "wr a v (s\<lparr>rt := t\<rparr>) = (wr a v s)\<lparr>rt := t\<rparr>"
  by (simp add: wr_def)

lemma pte_of_cong: "mem s' = mem s \<Longrightarrow> pte_of s' pt addr = pte_of s pt addr"
  by (simp add: pte_of_def)

section \<open>Properties of page tables\<close>

text \<open>
  C7. Mapping a page keeps the reference counts exact: \<^verbatim>\<open>pgtbl_mapping_add\<close> always returns; when it
  returns 0 the entry holds the page and the retype table has one more reference to its memory set,
  so the counts still agree with the page tables; when it returns an error nothing has changed.
\<close>

theorem pgtbl_mapping_add_refs:
  assumes "refs_match (ke_kpa E) L s" "ke_cpu E < NUM_CPU" "pt \<noteq> 0"
    and "PGTBL_FLAG_MASK AND page = 0" "PGTBL_FRAME_MASK AND flags = 0" "bit flags 0" "\<not> bit flags 9"
    and "pte_of s pt addr \<noteq> 0 \<Longrightarrow> pte_of s pt addr \<in> L"
  shows "\<exists>r s'. pgtbl_mapping_add E pt addr page flags s = Some (r, s') \<and> refs_match (ke_kpa E) L s' \<and>
    (r \<noteq> 0 \<longrightarrow> s' = s) \<and> (r = 0 \<longrightarrow> mem s' = (mem s)(pte_of s pt addr := page OR flags))"
proof -
  define a where "a = pte_of s pt addr"
  obtain r s' where ex: "pgtbl_mapping_add E pt addr page flags s = Some (r, s')"
    using mapping_add_total [OF assms(3-5)] by blast
  consider "r \<noteq> 0" "s' = s"
    | t where "r = 0" "a \<noteq> 0" "\<not> bit (mem s a) 0" "\<not> bit (mem s a) 9"
        "retypetbl_ref (ke_kpa E) (ke_cpu E) (ke_tsc E 0) page (rt s) = Some (0, t)"
        "s' = (wr a (page OR flags) s)\<lparr>rt := t\<rparr>"
    using mapping_add_cases [OF ex] unfolding a_def by auto
  then show ?thesis
  proof cases
    case 1
    with ex assms(1) show ?thesis by auto
  next
    case 2
    have inv: "rt_inv (rt s)" using assms(1) by (simp add: refs_match_def)
    have "pte_refs (ke_kpa E) k (mem s a) = 0" for k using 2 by (simp add: pte_refs_def pte_holds_def)
    then have "refs_match (ke_kpa E) L s'"
      unfolding 2(6) using ref_outcome [OF 2(5) assms(2) inv] pte_refs_mapping [OF assms(4-7)] assms(8) 2(2)
      by (intro refs_match_update [OF assms(1)]) (auto simp: a_def)
    with ex 2 show ?thesis by (auto simp: a_def)
  qed
qed

text \<open>
  C8. Unmapping keeps the reference counts exact and never fails half way: on tables whose counts
  agree, \<^verbatim>\<open>pgtbl_mapping_del\<close> of a present user mapping replaces the entry by its quiescence mark
  and takes the reference back with return value 0; in every other case that it returns from, page
  tables and counts are unchanged and the return value is an error.
\<close>

theorem pgtbl_mapping_del_refs:
  assumes "refs_match (ke_kpa E) L s" "ke_cpu E < NUM_CPU"
    and "pgtbl_mapping_del E pt addr lid s = Some (r, s')"
    and "pte_of s pt addr \<noteq> 0 \<Longrightarrow> pte_of s pt addr \<in> L"
    and "mem s (pte_of s pt addr) AND PGTBL_FRAME_MASK \<ge> COS_MEM_BOUND \<or>
      ref_key (ke_kpa E) (mem s (pte_of s pt addr) AND PGTBL_FRAME_MASK) \<noteq> None"
  shows "refs_match (ke_kpa E) L s' \<and> (r \<noteq> 0 \<longrightarrow> mem s' = mem s \<and> rt s' = rt s) \<and>
    (r = 0 \<longrightarrow> mem s' = (mem s)(pte_of s pt addr := push_bit 12 lid OR PGTBL_QUIESCENCE))"
proof -
  define a where "a = pte_of s pt addr"
  consider "r \<noteq> 0" "mem s' = mem s" "rt s' = rt s"
    | t where "a \<noteq> 0" "bit (mem s a) 0" "\<not> bit (mem s a) 9"
        "retypetbl_deref (ke_kpa E) (ke_cpu E) (ke_tsc E 1) (mem s a AND PGTBL_FRAME_MASK) (rt s) = Some (r, t)"
        "s' = (wr a (push_bit 12 lid OR PGTBL_QUIESCENCE)
          (s\<lparr>ltb := (ltb s)(lid := (ltb s lid)\<lparr>deact_timestamp := ke_tsc E 0\<rparr>)\<rparr>))\<lparr>rt := t\<rparr>"
    using mapping_del_cases [OF assms(3)] unfolding a_def by auto
  then show ?thesis
  proof cases
    case 1
    with assms(1) show ?thesis by (simp add: refs_match_def)
  next
    case 2
    have inv: "rt_inv (rt s)" using assms(1) by (simp add: refs_match_def)
    have aL: "a \<in> L" using assms(4) 2(1) by (simp add: a_def)
    have holds: "pte_holds (mem s a)" using 2 by (simp add: pte_holds_def)
    have r: "r = 0"
      using deref_typed [OF 2(4) inv assms(2)] held_set_typed [OF assms(1) aL holds] assms(5) by (simp add: a_def)
    have "\<not> bit (push_bit 12 lid OR PGTBL_QUIESCENCE) 0" "\<not> bit (push_bit 12 lid OR PGTBL_QUIESCENCE) 9"
      by (simp_all only: bit_or_iff bit_push_bit_iff flag_bit) simp_all
    then have "pte_refs (ke_kpa E) k (push_bit 12 lid OR PGTBL_QUIESCENCE) = 0" for k
      by (simp add: pte_refs_def pte_holds_def)
    then have "refs_match (ke_kpa E) L s'"
      unfolding 2(5) using deref_outcome [OF 2(4) [unfolded r] assms(2) inv] holds
      by (intro refs_match_update [OF assms(1) aL]) (auto simp: pte_refs_def)
    with r 2 show ?thesis by (auto simp: a_def)
  qed
qed

text \<open>
  Activating kernel memory keeps the reference counts exact: a frame taken by
  \<^verbatim>\<open>pgtbl_kmem_act\<close> gains one reference and its entry is marked, so that it cannot be taken twice;
  every error leaves the state as it was.
\<close>

theorem pgtbl_kmem_act_refs:
  assumes "refs_match (ke_kpa E) L s" "ke_cpu E < NUM_CPU"
    and "pgtbl_kmem_act E pt addr s = Some ((r, ka, p), s')"
    and "pte_of s pt addr \<noteq> 0 \<Longrightarrow> pte_of s pt addr \<in> L"
  shows "refs_match (ke_kpa E) L s' \<and> (r \<noteq> 0 \<longrightarrow> s' = s) \<and>
    (r = 0 \<longrightarrow> p = pte_of s pt addr \<and> bit (mem s' p) 9 \<and> bit (mem s' p) 10 \<and> \<not> bit (mem s p) 10 \<and>
       ka = chal_pa2va (mem s' p AND PGTBL_FRAME_MASK) \<and> (\<forall>b. b \<noteq> p \<longrightarrow> mem s' b = mem s b))"
proof -
  have frame: "(v OR PGTBL_COSKMEM) AND PGTBL_FRAME_MASK = v AND PGTBL_FRAME_MASK" for v
    by (rule bit_word_eqI) (auto simp: frame_mask_bit bit_or_iff flag_bit)
  have bits: "bit (v OR PGTBL_COSKMEM) 10" "bit (v OR PGTBL_COSKMEM) 9 = bit v 9" for v :: u32
    by (simp_all add: bit_or_iff flag_bit)
  consider "r \<noteq> 0" "s' = s"
    | t where "r = 0" "p = pte_of s pt addr" "p \<noteq> 0" "bit (mem s p) 9" "\<not> bit (mem s p) 10"
        "ka = chal_pa2va (mem s p AND PGTBL_FRAME_MASK)"
        "retypetbl_kern_ref (ke_kpa E) (ke_cpu E) (ke_tsc E 0) (mem s p AND PGTBL_FRAME_MASK) (rt s) = Some (0, t)"
        "s' = (wr p (mem s p OR PGTBL_COSKMEM) s)\<lparr>rt := t\<rparr>"
    using kmem_act_cases [OF assms(3)] unfolding frame by auto
  then show ?thesis
  proof cases
    case 2
    have inv: "rt_inv (rt s)" using assms(1) by (simp add: refs_match_def)
    have "pte_refs (ke_kpa E) k (mem s p) = 0" for k using 2 by (simp add: pte_refs_def pte_holds_def)
    moreover have "pte_refs (ke_kpa E) k (mem s p OR PGTBL_COSKMEM) =
        (if ref_key (ke_kpa E) (mem s p AND PGTBL_FRAME_MASK) = Some k then 1 else 0)" for k
      using 2 bits by (simp add: pte_refs_def pte_holds_def frame)
    ultimately have "refs_match (ke_kpa E) L s'"
      unfolding 2(8) using kern_ref_outcome [OF 2(7) assms(2) inv] assms(4) 2(2,3)
      by (intro refs_match_update [OF assms(1)]) auto
    with 2 bits show ?thesis by (auto simp: frame)
  qed (use assms(1) in auto)
qed

text \<open>The lookup of a page reads the entry \<open>pte_of\<close>.\<close>

lemma pgtbl_lkup_eq:
  assumes "bit (mem s (pgd_of pt addr)) 0 \<or> bit (mem s (pgd_of pt addr)) 9"
  shows "pgtbl_lkup s pt addr f =
    (let v = mem s (pte_of s pt addr)
     in Some (if pgtbl_ispresent (v AND PGTBL_FLAG_MASK) then chal_pa2va (v AND PGTBL_FRAME_MASK) else 0,
              v AND PGTBL_FLAG_MASK))"
  using assms or_present_nonzero [of pt] drop_12_maxid [of addr] root_present [of pt]
  by (simp add: pgtbl_lkup_def pgtbl_lkup_lvl_def ert_lookup_def kassert_bind upt_0_2 ert_walk_def
      lkup_flags_def pte_of_def Let_def ert_off_def pgtbl_get_def pgtbl_isnull_def null_bits root_frame pgd_of_def)
    auto

text \<open>
  C26. A page that was mapped is found: after \<^verbatim>\<open>pgtbl_mapping_add\<close> returned 0, looking the address up
  yields the kernel address of the page and exactly the flags it was mapped with.
\<close>

theorem pgtbl_mapping_add_lkup:
  assumes "pgtbl_mapping_add E pt addr page flags s = Some (0, s')"
    and "PGTBL_FLAG_MASK AND page = 0" "PGTBL_FRAME_MASK AND flags = 0" "bit flags 0"
    and "pte_of s pt addr \<noteq> pgd_of pt addr"
  shows "pgtbl_lkup s' pt addr f = Some (chal_pa2va page, flags)"
proof -
  obtain t where a: "pte_of s pt addr \<noteq> 0" and s': "s' = (wr (pte_of s pt addr) (page OR flags) s)\<lparr>rt := t\<rparr>"
    using mapping_add_cases [OF assms(1)] by auto
  have pgd: "mem s' (pgd_of pt addr) = mem s (pgd_of pt addr)" using s' assms(5) by simp
  then have pte: "pte_of s' pt addr = pte_of s pt addr" by (simp add: pte_of_def)
  have "bit (mem s (pgd_of pt addr)) 0 \<or> bit (mem s (pgd_of pt addr)) 9"
    using a by (auto simp: pte_of_def Let_def split: if_splits)
  moreover have "pgtbl_ispresent flags"
    using assms(4) by (simp add: pgtbl_ispresent_def null_bits)
  moreover have "mem s' (pte_of s pt addr) = page OR flags" by (simp add: s')
  ultimately show ?thesis
    using pgtbl_lkup_eq [of s' pt addr f] page_or_flags [OF assms(2,3)] by (simp add: pgd pte)
qed

lemma quie_check_mark:
  assumes "lid < LTBL_ENTS"
  shows "pgtbl_quie_check E s (push_bit 12 lid OR PGTBL_QUIESCENCE) =
    Some (if tlb_quiescence_check (ke_cpu E) (tlbq s) (deact_timestamp (ltb s lid)) then 0 else - EQUIESCENCE)"
proof -
  have "take_bit 20 lid = lid"
    using assms by (simp add: word_unat_eq_iff unsigned_take_bit_eq take_bit_nat_eq_self word_less_nat_alt LTBL_ENTS_eq)
  then have "bit lid n \<Longrightarrow> n < 20" for n by (metis bit_take_bit_iff)
  then have "drop_bit 12 (push_bit 12 lid OR PGTBL_QUIESCENCE) = lid"
    by (intro bit_word_eqI) (auto simp: bit_drop_bit_eq bit_or_iff bit_push_bit_iff flag_bit dest: bit_imp_le_length)
  moreover have "(push_bit 12 lid OR PGTBL_QUIESCENCE) AND PGTBL_QUIESCENCE \<noteq> 0"
    using flag_bits(4) [of "push_bit 12 lid OR PGTBL_QUIESCENCE"] by (simp add: bit_or_iff flag_bit)
  ultimately show ?thesis
    using assms by (simp add: pgtbl_quie_check_def kassert_bind ltbl_get_timestamp_def ltbl_lkup_ok not_le)
qed

text \<open>
  C29. A virtual address cannot be mapped again before the TLBs are clean: after an unmap at time
  \<open>t0\<close>, mapping the same address returns \<^verbatim>\<open>-EQUIESCENCE\<close> as long as the TLB quiescence check for
  \<open>t0\<close> fails on the core that asks, whatever flushes have been recorded in the meantime.
\<close>

theorem pgtbl_remap_needs_flush:
  assumes "pgtbl_mapping_del E pt addr lid s = Some (0, s1)" "pte_of s pt addr \<noteq> pgd_of pt addr"
    and "\<not> tlb_quiescence_check (ke_cpu E') q (ke_tsc E 0)"
    and "pgtbl_mapping_add E' pt addr page flags (s1\<lparr>tlbq := q\<rparr>) = Some (r, s2)"
  shows "r = - EQUIESCENCE \<and> s2 = s1\<lparr>tlbq := q\<rparr>"
proof -
  define a where "a = pte_of s pt addr"
  obtain t where a0: "a \<noteq> 0" and lid: "lid < LTBL_ENTS"
    and s1: "s1 = (wr a (push_bit 12 lid OR PGTBL_QUIESCENCE)
          (s\<lparr>ltb := (ltb s)(lid := (ltb s lid)\<lparr>deact_timestamp := ke_tsc E 0\<rparr>)\<rparr>))\<lparr>rt := t\<rparr>"
    using mapping_del_cases [OF assms(1)] unfolding a_def by auto
  have "mem s1 (pgd_of pt addr) = mem s (pgd_of pt addr)" using s1 assms(2) by (simp add: a_def)
  then have pte: "pte_of (s1\<lparr>tlbq := q\<rparr>) pt addr = a" by (simp add: pte_of_def a_def)
  have v: "mem (s1\<lparr>tlbq := q\<rparr>) a = push_bit 12 lid OR PGTBL_QUIESCENCE" by (simp add: s1)
  have q: "pgtbl_quie_check E' (s1\<lparr>tlbq := q\<rparr>) (push_bit 12 lid OR PGTBL_QUIESCENCE) = Some (- EQUIESCENCE)"
    using quie_check_mark [OF lid, of E' "s1\<lparr>tlbq := q\<rparr>"] assms(3) by (simp add: s1)
  have "\<not> bit (push_bit 12 lid OR PGTBL_QUIESCENCE) 0" "\<not> bit (push_bit 12 lid OR PGTBL_QUIESCENCE) 9"
    by (simp_all only: bit_or_iff bit_push_bit_iff flag_bit) simp_all
  then show ?thesis
    using assms(4) a0 q unfolding pgtbl_mapping_add_def bind_kassert_Some lkup_pte_bind pte v
    by (simp add: flag_bits Let_def)
qed

text \<open>
  \<^verbatim>\<open>pgtbl_mapping_del\<close> trusts its caller that the page-directory entry of the address exists: it
  dereferences the entry it looked up without the test for the null pointer that
  \<^verbatim>\<open>pgtbl_mapping_add\<close> has, so an address under an empty page-directory entry makes the kernel fail.
\<close>

theorem pgtbl_mapping_del_null_pte:
  assumes "\<not> bit (mem s (pgd_of pt addr)) 0" "\<not> bit (mem s (pgd_of pt addr)) 9"
    and "pt \<noteq> 0" "PGTBL_FLAG_MASK AND addr = 0" "PGTBL_FLAG_MASK AND page = 0" "PGTBL_FRAME_MASK AND flags = 0"
    and "lid < LTBL_ENTS"
  shows "pgtbl_mapping_del E pt addr lid s = None \<and>
    pgtbl_mapping_add E pt addr page flags s = Some (- ENOENT, s)"
proof -
  have pte: "pte_of s pt addr = 0" "pte_of (s\<lparr>ltb := l\<rparr>) pt addr = 0" for l
    using assms(1,2) by (simp_all add: pte_of_def Let_def)
  have "push_bit 20 1 = LTBL_ENTS" by (simp add: LTBL_ENTS_eq push_bit_eq_mult)
  with assms pte show ?thesis
    by (simp add: pgtbl_mapping_del_def pgtbl_mapping_add_def kassert_bind lkup_pte_bind ltbl_timestamp_update_def
        ltbl_lkup_ok not_le Let_def)
qed

section \<open>Examples\<close>

text \<open>
  A page table with its root node in the physical page 0x300000 and one second-level node in
  0x301000, which serves the addresses from 0x40000000; frame 0x200000 is user memory.
\<close>

definition ex_env :: kenv where
  "ex_env = \<lparr>ke_kpa = 0x100000, ke_cpu = 3, ke_tsc = (\<lambda>i. 50)\<rparr>"

definition ex_pt :: kmem where
  "ex_pt = ex_kmem\<lparr>mem := (\<lambda>a. if a = 0xc0300400 then 0x301067 else 0)\<rparr>"

lemma ex_pgd: "pgd_of 0x300000 0x40000000 = 0xc0300400" "pgd_of 0x300000 0x50000000 = 0xc0300500"
  by (simp_all add: pgd_of_def PGTBL_FRAME_MASK_def PGTBL_FLAG_MASK_def mask_eq_exp_minus_1 drop_bit_eq_div
      chal_pa2va_def COS_MEM_KERN_START_VA_def)

lemma ex_pte_gen: "mem s 0xc0300400 = 0x301067 \<Longrightarrow> pte_of s 0x300000 0x40000000 = 0xc0301000"
  by (simp add: pte_of_def ex_pgd PGTBL_FRAME_MASK_def PGTBL_FLAG_MASK_def mask_eq_exp_minus_1 drop_bit_eq_div
      chal_pa2va_def COS_MEM_KERN_START_VA_def bit_0)

lemma ex_pte: "pte_of ex_pt 0x300000 0x40000000 = 0xc0301000"
  by (rule ex_pte_gen) (simp add: ex_pt_def)

lemma ex_page_flags:
  "PGTBL_FLAG_MASK AND 0x200000 = 0" "PGTBL_FRAME_MASK AND PGTBL_USER_DEF = 0" "bit PGTBL_USER_DEF 0"
  "\<not> bit PGTBL_USER_DEF 9" "PGTBL_FLAG_MASK AND 0x40000000 = 0" "PGTBL_FLAG_MASK AND 0x50000000 = 0"
  by code_simp+

lemma ex_untyped_entry: "re_atom (retype_tbl ex_untyped c k) = \<lparr>ra_type = RETYPETBL_UNTYPED, ra_cnt = 0\<rparr>"
  "glb_retype_tbl ex_untyped k = RETYPETBL_UNTYPED"
  by (simp_all add: ex_untyped_def retype_tbl_init_def)

lemma ex_total_refs_untyped: "total_refs ex_untyped k = 0"
  by (simp add: total_refs_def ex_untyped_entry)

lemma ex_total_refs: "total_refs ex_typed k = 0"
  by (simp add: ex_retype2user(2) ex_total_refs_untyped)

lemma ex_rt_inv: "rt_inv ex_typed"
  by (rule rt_reach_inv [OF ex_reach(2) ex_in_bounds(3)])

lemma ex_refs_match: "refs_match 0x100000 {0xc0301000} ex_pt"
  using ex_rt_inv ex_total_refs
  by (simp add: refs_match_def ex_pt_def ex_kmem_def pte_refs_def pte_holds_def)

lemma ex_env_sel [simp]: "ke_kpa ex_env = 0x100000" "ke_cpu ex_env = 3" "ke_tsc ex_env i = 50"
  by (simp_all add: ex_env_def)

theorem pgtbl_mapping_add_refs_witness:
  "\<exists>r s'. pgtbl_mapping_add ex_env 0x300000 0x40000000 0x200000 PGTBL_USER_DEF ex_pt = Some (r, s') \<and>
     refs_match 0x100000 {0xc0301000} s'"
proof -
  have "3 < NUM_CPU" by (simp add: NUM_CPU_def)
  then show ?thesis
    using pgtbl_mapping_add_refs [of ex_env "{0xc0301000}" ex_pt "0x300000" "0x200000" PGTBL_USER_DEF "0x40000000",
        unfolded ex_env_sel, OF ex_refs_match _ _ ex_page_flags(1-4)]
    unfolding ex_pte by simp blast
qed

definition ex_ref_rt :: retype_state where
  "ex_ref_rt = set_entry 3 256 (bump True 50 (retype_tbl ex_typed 3 256)) ex_typed"

definition ex_mapped :: kmem where
  "ex_mapped = (wr 0xc0301000 (0x200000 OR PGTBL_USER_DEF) ex_pt)\<lparr>rt := ex_ref_rt\<rparr>"

lemma ex_ref: "retypetbl_ref 0x100000 3 50 0x200000 ex_typed = Some (0, ex_ref_rt)"
  using ex_in_bounds
  by (simp add: retypetbl_ref_def mod_ref_cnt_eq ex_typed_entry NUM_CPU_def typed_mem_def ex_ref_rt_def not_le)

lemma mapping_add_intro:
  assumes "pt \<noteq> 0" "PGTBL_FLAG_MASK AND page = 0" "PGTBL_FRAME_MASK AND flags = 0" "a = pte_of s pt addr" "a \<noteq> 0"
    "\<not> bit (mem s a) 0" "\<not> bit (mem s a) 9" "pgtbl_quie_check E s (mem s a) = Some 0"
    "retypetbl_ref (ke_kpa E) (ke_cpu E) (ke_tsc E 0) page (rt s) = Some (0, t)"
  shows "pgtbl_mapping_add E pt addr page flags s = Some (0, (wr a (page OR flags) s)\<lparr>rt := t\<rparr>)"
  using assms
  by (simp add: pgtbl_mapping_add_def kassert_bind lkup_pte_bind k_ref_def on_rt_def flag_bits Let_def)

lemma ex_mapping_add:
  "pgtbl_mapping_add ex_env 0x300000 0x40000000 0x200000 PGTBL_USER_DEF ex_pt = Some (0, ex_mapped)"
proof -
  have m: "mem ex_pt 0xc0301000 = 0" and r: "rt ex_pt = ex_typed" by (simp_all add: ex_pt_def ex_kmem_def)
  show ?thesis
    unfolding ex_mapped_def
  proof (rule mapping_add_intro)
    show "retypetbl_ref (ke_kpa ex_env) (ke_cpu ex_env) (ke_tsc ex_env 0) 0x200000 (rt ex_pt) = Some (0, ex_ref_rt)"
      unfolding ex_env_sel r by (rule ex_ref)
    show "pgtbl_quie_check ex_env ex_pt (mem ex_pt 0xc0301000) = Some 0"
      unfolding m by (simp add: pgtbl_quie_check_def)
  qed (simp_all only: ex_pte m ex_page_flags, simp_all)
qed

theorem pgtbl_mapping_add_lkup_witness:
  "pgtbl_lkup ex_mapped 0x300000 0x40000000 0 = Some (chal_pa2va 0x200000, PGTBL_USER_DEF)"
  by (rule pgtbl_mapping_add_lkup [OF ex_mapping_add ex_page_flags(1-3)]) (simp add: ex_pte ex_pgd)

definition ex_deref_rt :: retype_state where
  "ex_deref_rt = set_entry 3 256 (bump False 50 (retype_tbl ex_ref_rt 3 256)) ex_ref_rt"

definition ex_unmapped :: kmem where
  "ex_unmapped = (wr 0xc0301000 (push_bit 12 7 OR PGTBL_QUIESCENCE)
     (ex_mapped\<lparr>ltb := (ltb ex_mapped)(7 := (ltb ex_mapped 7)\<lparr>deact_timestamp := 50\<rparr>)\<rparr>))\<lparr>rt := ex_deref_rt\<rparr>"

lemma ex_mapped_refs: "refs_match 0x100000 {0xc0301000} ex_mapped"
  unfolding ex_mapped_def
proof (rule refs_match_update [OF ex_refs_match])
  show "rt_inv ex_ref_rt" using ref_outcome(1) [OF ex_ref _ ex_rt_inv] by (simp add: NUM_CPU_def)
  fix k
  show "total_refs ex_ref_rt k = total_refs (rt ex_pt) k - of_nat (pte_refs 0x100000 k (mem ex_pt 0xc0301000)) +
      of_nat (pte_refs 0x100000 k (0x200000 OR PGTBL_USER_DEF))"
    using ref_outcome(2) [OF ex_ref _ ex_rt_inv, of k] pte_refs_mapping [OF ex_page_flags(1-4), of "0x100000" k]
    by (simp add: NUM_CPU_def ex_pt_def ex_kmem_def pte_refs_def [of _ _ 0] pte_holds_def)
qed simp_all

lemma ex_mapped_word: "mem ex_mapped 0xc0301000 = 0x200000 OR PGTBL_USER_DEF" "rt ex_mapped = ex_ref_rt"
  "pte_of ex_mapped 0x300000 0x40000000 = 0xc0301000"
  by (simp_all add: ex_mapped_def ex_pte_gen ex_pt_def)

lemma mapping_del_intro:
  assumes "pt \<noteq> 0" "PGTBL_FLAG_MASK AND addr = 0" "lid < LTBL_ENTS" "a = pte_of s pt addr" "a \<noteq> 0"
    "bit (mem s a) 0" "\<not> bit (mem s a) 9"
    "retypetbl_deref (ke_kpa E) (ke_cpu E) (ke_tsc E 1) (mem s a AND PGTBL_FRAME_MASK) (rt s) = Some (0, t)"
  shows "pgtbl_mapping_del E pt addr lid s =
    Some (0, (wr a (push_bit 12 lid OR PGTBL_QUIESCENCE)
      (s\<lparr>ltb := (ltb s)(lid := (ltb s lid)\<lparr>deact_timestamp := ke_tsc E 0\<rparr>)\<rparr>))\<lparr>rt := t\<rparr>)"
proof -
  have pte: "pte_of (s\<lparr>ltb := l\<rparr>) pt addr = a" for l using assms(4) by (simp add: pte_of_def)
  have "push_bit 20 1 = LTBL_ENTS" by (simp add: LTBL_ENTS_eq push_bit_eq_mult)
  with assms show ?thesis
    by (simp add: pgtbl_mapping_del_def kassert_bind lkup_pte_bind pte k_deref_def on_rt_def
        ltbl_timestamp_update_def ltbl_lkup_ok flag_bits Let_def not_le)
qed

lemma ex_user_word:
  "bit (0x200000 OR PGTBL_USER_DEF) 0" "\<not> bit (0x200000 OR PGTBL_USER_DEF) 9"
  "(0x200000 OR PGTBL_USER_DEF) AND PGTBL_FRAME_MASK = 0x200000"
  using ex_page_flags(1,3,4) page_or_flags(1) [OF ex_page_flags(1,2)]
  by (simp_all only: bit_or_iff page_aligned_bits) simp_all

lemma ex_deref: "retypetbl_deref 0x100000 3 50 0x200000 ex_ref_rt = Some (0, ex_deref_rt)"
  using ex_in_bounds
  by (simp add: retypetbl_deref_def mod_ref_cnt_eq ex_typed_entry NUM_CPU_def typed_mem_def ex_ref_rt_def
      ex_deref_rt_def not_le)

lemma ex_mapping_del: "pgtbl_mapping_del ex_env 0x300000 0x40000000 7 ex_mapped = Some (0, ex_unmapped)"
proof -
  have "pgtbl_mapping_del ex_env 0x300000 0x40000000 7 ex_mapped =
    Some (0, (wr 0xc0301000 (push_bit 12 7 OR PGTBL_QUIESCENCE)
      (ex_mapped\<lparr>ltb := (ltb ex_mapped)(7 := (ltb ex_mapped 7)\<lparr>deact_timestamp := ke_tsc ex_env 0\<rparr>)\<rparr>))
      \<lparr>rt := ex_deref_rt\<rparr>)"
  proof (rule mapping_del_intro)
    show "retypetbl_deref (ke_kpa ex_env) (ke_cpu ex_env) (ke_tsc ex_env 1)
        (mem ex_mapped 0xc0301000 AND PGTBL_FRAME_MASK) (rt ex_mapped) = Some (0, ex_deref_rt)"
      unfolding ex_mapped_word ex_user_word by (simp add: ex_env_def ex_deref)
    show "bit (mem ex_mapped 0xc0301000) 0" "\<not> bit (mem ex_mapped 0xc0301000) 9"
      unfolding ex_mapped_word by (rule ex_user_word)+
  qed (simp_all only: ex_mapped_word ex_page_flags, simp_all add: LTBL_ENTS_eq)
  then show ?thesis by (simp add: ex_unmapped_def ex_env_def)
qed

theorem pgtbl_mapping_del_refs_witness:
  "refs_match 0x100000 {0xc0301000} ex_unmapped"
  using pgtbl_mapping_del_refs [of ex_env "{0xc0301000}" ex_mapped, OF _ _ ex_mapping_del]
    ex_mapped_refs ex_in_bounds(5) unfolding ex_mapped_word ex_user_word
  by (simp add: ex_env_def NUM_CPU_def)

lemma ex_not_flushed: "\<not> tlb_quiescence_check 3 (\<lambda>_. \<lparr>last_periodic_flush = 0, last_mandatory_flush = 49\<rparr>) 50"
  by code_simp

lemma ex_remap: "pgtbl_mapping_add ex_env 0x300000 0x40000000 0x200000 PGTBL_USER_DEF
    (ex_unmapped\<lparr>tlbq := (\<lambda>_. \<lparr>last_periodic_flush = 0, last_mandatory_flush = 49\<rparr>)\<rparr>) =
    Some (- EQUIESCENCE, ex_unmapped\<lparr>tlbq := (\<lambda>_. \<lparr>last_periodic_flush = 0, last_mandatory_flush = 49\<rparr>)\<rparr>)"
proof -
  let ?s = "ex_unmapped\<lparr>tlbq := (\<lambda>_. \<lparr>last_periodic_flush = 0, last_mandatory_flush = 49\<rparr>)\<rparr>"
  have v: "mem ?s 0xc0301000 = push_bit 12 7 OR PGTBL_QUIESCENCE" by (simp add: ex_unmapped_def)
  have pte: "pte_of ?s 0x300000 0x40000000 = 0xc0301000"
    by (rule ex_pte_gen) (simp add: ex_unmapped_def ex_mapped_def ex_pt_def)
  have q: "pgtbl_quie_check ex_env ?s (push_bit 12 7 OR PGTBL_QUIESCENCE) = Some (- EQUIESCENCE)"
    using quie_check_mark [of 7 ex_env ?s] ex_not_flushed by (simp add: LTBL_ENTS_eq ex_unmapped_def)
  have b: "\<not> bit (push_bit 12 7 OR PGTBL_QUIESCENCE) 0" "\<not> bit (push_bit 12 7 OR PGTBL_QUIESCENCE) 9"
    by (simp_all only: bit_or_iff bit_push_bit_iff flag_bit) simp_all
  show ?thesis
    unfolding pgtbl_mapping_add_def lkup_pte_bind pte v Let_def flag_bits q
    using b ex_page_flags by (simp add: kassert_bind)
qed

theorem pgtbl_remap_needs_flush_witness:
  "fst (the (pgtbl_mapping_add ex_env 0x300000 0x40000000 0x200000 PGTBL_USER_DEF
    (ex_unmapped\<lparr>tlbq := (\<lambda>_. \<lparr>last_periodic_flush = 0, last_mandatory_flush = 49\<rparr>)\<rparr>))) = - EQUIESCENCE"
  using pgtbl_remap_needs_flush [OF ex_mapping_del _ _ ex_remap] ex_not_flushed
  by (simp add: ex_remap ex_mapped_word ex_pgd)

theorem pgtbl_mapping_del_null_pte_witness: "pgtbl_mapping_del ex_env 0x300000 0x50000000 7 ex_pt = None"
  using pgtbl_mapping_del_null_pte [of ex_pt "0x300000" "0x50000000" "0x200000" PGTBL_USER_DEF 7 ex_env] ex_page_flags
  by (simp add: ex_pgd LTBL_ENTS_eq) (simp add: ex_pt_def)

text \<open>The same frame as kernel memory, entered in the page table as a frame.\<close>

definition ex_kern_rt :: retype_state where
  "ex_kern_rt = set_glb 256 RETYPETBL_KERN (set_cpu_types RETYPETBL_KERN 256 [0..<NUM_CPU] ex_untyped)"

definition ex_kpt :: kmem where
  "ex_kpt = ex_kmem\<lparr>mem := (\<lambda>a. if a = 0xc0300400 then 0x301067 else if a = 0xc0301000 then 0x200200 else 0),
     rt := ex_kern_rt\<rparr>"

lemma ex_kern_inv: "rt_inv ex_kern_rt"
proof -
  have "rt_inv ex_untyped" by (rule rt_reach_inv [OF ex_reach(1) ex_in_bounds(3)])
  then show ?thesis unfolding ex_kern_rt_def by (auto simp: rt_inv_def split: if_splits)
qed

lemma ex_kpt_refs: "refs_match 0x100000 {0xc0301000} ex_kpt"
proof -
  have "\<not> pte_holds 0x200200" by code_simp
  then have "pte_refs 0x100000 k 0x200200 = 0" for k by (simp add: pte_refs_def)
  then show ?thesis
    using ex_kern_inv by (simp add: refs_match_def ex_kpt_def) (simp add: ex_kern_rt_def ex_total_refs_untyped)
qed

lemma ex_kmem_act: "\<exists>s'. pgtbl_kmem_act ex_env 0x300000 0x40000000 ex_kpt = Some ((0, 0xc0200000, 0xc0301000), s')"
proof -
  have pte: "pte_of ex_kpt 0x300000 0x40000000 = 0xc0301000"
    by (rule ex_pte_gen) (simp add: ex_kpt_def)
  have v: "mem ex_kpt 0xc0301000 = 0x200200" by (simp add: ex_kpt_def)
  have b: "bit (0x200200 :: u32) 9" "\<not> bit (0x200200 :: u32) 10" "\<not> bit (0x200200 :: u32) 11"
    by code_simp+
  have f: "0x200200 AND PGTBL_FRAME_MASK = 0x200000" "(0x200200 OR PGTBL_COSKMEM) AND PGTBL_FRAME_MASK = 0x200000"
    by (simp_all add: PGTBL_FRAME_MASK_def PGTBL_FLAG_MASK_def mask_eq_exp_minus_1 PGTBL_COSKMEM_def push_bit_eq_mult)
  have "ra_type (re_atom (retype_tbl (rt ex_kpt) 3 256)) = RETYPETBL_KERN"
    by (simp add: ex_kpt_def ex_kern_rt_def NUM_CPU_def)
  then have "\<exists>t. retypetbl_kern_ref 0x100000 3 50 0x200000 (rt ex_kpt) = Some (0, t)"
    using ex_in_bounds by (simp add: retypetbl_kern_ref_def mod_ref_cnt_eq typed_mem_def not_le)
  then obtain t where t: "retypetbl_kern_ref 0x100000 3 50 0x200000 (rt ex_kpt) = Some (0, t)" by blast
  show ?thesis
    unfolding pgtbl_kmem_act_def lkup_pte_bind pte
    using b f t ex_page_flags
    by (simp add: kassert_bind pgtbl_isnull_def null_bits v flag_bits Let_def k_kern_ref_def on_rt_def ex_env_def
        chal_pa2va_def COS_MEM_KERN_START_VA_def)
qed

theorem pgtbl_kmem_act_refs_witness:
  "\<exists>s'. pgtbl_kmem_act ex_env 0x300000 0x40000000 ex_kpt = Some ((0, 0xc0200000, 0xc0301000), s') \<and>
     refs_match 0x100000 {0xc0301000} s' \<and> bit (mem s' 0xc0301000) 10"
proof -
  obtain s' where s': "pgtbl_kmem_act ex_env 0x300000 0x40000000 ex_kpt = Some ((0, 0xc0200000, 0xc0301000), s')"
    using ex_kmem_act by blast
  have "pte_of ex_kpt 0x300000 0x40000000 = 0xc0301000"
    by (rule ex_pte_gen) (simp add: ex_kpt_def)
  then show ?thesis
    using pgtbl_kmem_act_refs [of ex_env "{0xc0301000}" ex_kpt, OF _ _ s'] s' ex_kpt_refs
    by (simp add: ex_env_def NUM_CPU_def)
qed

end
