(* ===== verification/Klist.thy ===== *)
theory Klist
  imports Prelude
begin

text \<open>
  The kernel's doubly linked lists, \<^verbatim>\<open>list.h\<close>.  A list is a ring of nodes through its head; every node
  points back to the object that contains it, and the head's \<^verbatim>\<open>container\<close> is null.  The heap of nodes is
  a function of node pointers, whose type \<open>'k\<close> the clients choose.  The abstraction of a list is the
  sequence of its nodes, and the operations are shown to be those of a queue (locale
  \<open>bounded_queue\<close>), of which the event queues here and the inter-processor rings of \<^verbatim>\<open>Ipi\<close> are instances.
\<close>

section \<open>Operations\<close>

record 'k list_node =
  ln_next :: 'k
  ln_prev :: 'k
  container :: addr

type_synonym 'k lheap = "'k \<Rightarrow> 'k list_node"

definition set_next :: "'k \<Rightarrow> 'k \<Rightarrow> 'k lheap \<Rightarrow> 'k lheap" where
  "set_next l n h = h(l := (h l)\<lparr>ln_next := n\<rparr>)"

definition set_prev :: "'k \<Rightarrow> 'k \<Rightarrow> 'k lheap \<Rightarrow> 'k lheap" where
  "set_prev l n h = h(l := (h l)\<lparr>ln_prev := n\<rparr>)"

definition list_init :: "'k \<Rightarrow> addr \<Rightarrow> 'k lheap \<Rightarrow> 'k lheap" where
  "list_init l obj h = h(l := \<lparr>ln_next = l, ln_prev = l, container = obj\<rparr>)"

definition list_add_before :: "'k \<Rightarrow> 'k \<Rightarrow> 'k lheap \<Rightarrow> 'k lheap" where
  "list_add_before l new h =
     (let h = set_next new l h;
          h = set_prev new (ln_prev (h l)) h;
          h = set_next (ln_prev (h l)) new h
      in set_prev l new h)"

definition list_add_after :: "'k \<Rightarrow> 'k \<Rightarrow> 'k lheap \<Rightarrow> 'k lheap" where
  "list_add_after l new h =
     (let h = set_next new (ln_next (h l)) h;
          h = set_prev new l h;
          h = set_prev (ln_next (h l)) new h
      in set_next l new h)"

definition list_rem :: "'k \<Rightarrow> 'k lheap \<Rightarrow> 'k lheap" where
  "list_rem n h =
     (let h = set_prev (ln_next (h n)) (ln_prev (h n)) h;
          h = set_next (ln_prev (h n)) (ln_next (h n)) h;
          h = set_next n n h
      in set_prev n n h)"

definition list_empty :: "'k lheap \<Rightarrow> 'k \<Rightarrow> bool" where
  "list_empty h l \<longleftrightarrow> ln_next (h l) = l"

definition list_head_init :: "'k \<Rightarrow> 'k lheap \<Rightarrow> 'k lheap" where
  "list_head_init q = list_init q 0"

definition list_enqueue :: "'k \<Rightarrow> 'k \<Rightarrow> 'k lheap \<Rightarrow> 'k lheap" where
  "list_enqueue q l h = list_add_after (ln_prev (h q)) l h"

definition list_add :: "'k \<Rightarrow> 'k \<Rightarrow> 'k lheap \<Rightarrow> 'k lheap" where
  "list_add q l = list_add_after q l"

definition list_dequeue :: "'k \<Rightarrow> 'k lheap \<Rightarrow> addr \<times> 'k lheap" where
  "list_dequeue q h = (let n = ln_next (h q); h = list_rem n h in (container (h n), h))"

definition list_next :: "'k lheap \<Rightarrow> 'k \<Rightarrow> addr" where
  "list_next h n = container (h (ln_next (h n)))"

definition list_first :: "'k lheap \<Rightarrow> 'k \<Rightarrow> addr" where
  "list_first h q = list_next h q"

definition list_isempty :: "'k lheap \<Rightarrow> 'k \<Rightarrow> bool" where
  "list_isempty h q \<longleftrightarrow> list_first h q = 0"

section \<open>Lists as sequences of nodes\<close>

lemma set_next_sel [simp]:
  "ln_next (set_next l n h x) = (if x = l then n else ln_next (h x))"
  "ln_prev (set_next l n h x) = ln_prev (h x)" "container (set_next l n h x) = container (h x)"
  by (simp_all add: set_next_def)

lemma set_prev_sel [simp]:
  "ln_prev (set_prev l n h x) = (if x = l then n else ln_prev (h x))"
  "ln_next (set_prev l n h x) = ln_next (h x)" "container (set_prev l n h x) = container (h x)"
  by (simp_all add: set_prev_def)

text \<open>\<open>chain h a xs b\<close>: following \<^verbatim>\<open>next\<close> from \<open>a\<close> goes through \<open>xs\<close> to \<open>b\<close>, and \<^verbatim>\<open>prev\<close> goes back.\<close>

fun chain :: "'k lheap \<Rightarrow> 'k \<Rightarrow> 'k list \<Rightarrow> 'k \<Rightarrow> bool" where
  "chain h a [] b \<longleftrightarrow> ln_next (h a) = b \<and> ln_prev (h b) = a"
| "chain h a (x # xs) b \<longleftrightarrow> ln_next (h a) = x \<and> ln_prev (h x) = a \<and> chain h x xs b"

definition klist :: "'k lheap \<Rightarrow> 'k \<Rightarrow> 'k list \<Rightarrow> bool" where
  "klist h q xs \<longleftrightarrow> distinct (q # xs) \<and> chain h q xs q \<and> container (h q) = 0 \<and>
     (\<forall>x\<in>set xs. container (h x) \<noteq> 0)"

text \<open>A node that is in no list points to itself.\<close>

definition detached :: "'k lheap \<Rightarrow> 'k \<Rightarrow> bool" where
  "detached h n \<longleftrightarrow> ln_next (h n) = n \<and> ln_prev (h n) = n"

lemma chain_append: "chain h a (xs @ y # ys) b \<longleftrightarrow> chain h a xs y \<and> chain h y ys b"
  by (induction xs arbitrary: a) auto

lemma chain_last: "chain h a xs b \<Longrightarrow> ln_prev (h b) = last (a # xs)"
  by (induction xs arbitrary: a) auto

lemma chain_cong:
  assumes "chain h a xs b" "\<forall>x\<in>set (a # xs). ln_next (h' x) = ln_next (h x)"
    "\<forall>x\<in>set (xs @ [b]). ln_prev (h' x) = ln_prev (h x)"
  shows "chain h' a xs b"
  using assms by (induction xs arbitrary: a) auto

lemma klist_nonempty [simp]:
  assumes "klist h q xs" shows "ln_next (h q) = (case xs of [] \<Rightarrow> q | x # _ \<Rightarrow> x)"
  using assms by (cases xs) (auto simp: klist_def)

lemma klist_isempty: "klist h q xs \<Longrightarrow> list_isempty h q \<longleftrightarrow> xs = []"
  by (cases xs) (auto simp: klist_def list_isempty_def list_first_def list_next_def)

lemma klist_first: "klist h q xs \<Longrightarrow> list_first h q = (case xs of [] \<Rightarrow> 0 | x # _ \<Rightarrow> container (h x))"
  by (cases xs) (auto simp: klist_def list_first_def list_next_def)

lemma klist_head_init: "klist (list_head_init q h) q []"
  by (simp add: list_head_init_def list_init_def klist_def)

text \<open>A member of a list is not detached, since the head is another node of its ring.\<close>

lemma chain_member_next:
  "chain h a xs b \<Longrightarrow> distinct xs \<Longrightarrow> b \<notin> set xs \<Longrightarrow> x \<in> set xs \<Longrightarrow> ln_next (h x) \<noteq> x"
proof (induction xs arbitrary: a)
  case (Cons y ys)
  then show ?case by (cases ys) auto
qed simp

lemma klist_member: "klist h q xs \<Longrightarrow> x \<in> set xs \<Longrightarrow> \<not> list_empty h x"
  using chain_member_next [of h q xs q x] by (auto simp: klist_def list_empty_def)

lemma list_add_after_chain:
  assumes "chain h a xs l" "chain h l ys b" "new \<notin> set (a # xs @ l # ys @ [b])"
    and "distinct (a # xs @ l # ys)" "b = a"
  shows "chain (list_add_after l new h) a (xs @ l # new # ys) b"
proof -
  define h' where "h' = list_add_after l new h"
  have nx: "ln_next (h' x) = (if x = l then new else if x = new then ln_next (h l) else ln_next (h x))" for x
    using assms(3) by (auto simp: h'_def list_add_after_def Let_def)
  have pv: "ln_prev (h' x) = (if x = ln_next (h l) then new else if x = new then l else ln_prev (h x))" for x
    using assms(2,3) by (cases ys) (auto simp: h'_def list_add_after_def Let_def)
  have first: "ln_next (h l) = (case ys of [] \<Rightarrow> b | y # _ \<Rightarrow> y)" using assms(2) by (cases ys) auto
  have one: "chain h' a xs l"
    using assms first by - (rule chain_cong [OF assms(1)], auto simp: nx pv split: list.splits)
  have two: "chain h' l (new # ys) b"
  proof (cases ys)
    case Nil
    then show ?thesis using assms first by (auto simp: nx pv)
  next
    case (Cons y zs)
    have "chain h y zs b" using assms(2) Cons by simp
    then have "chain h' y zs b"
      using assms first Cons by - (rule chain_cong [of h], auto simp: nx pv)
    then show ?thesis using assms first Cons by (auto simp: nx pv)
  qed
  show ?thesis using one two unfolding h'_def [symmetric] by (simp add: chain_append)
qed

text \<open>Adding before a member, or at the end of the list.\<close>

lemma list_add_after_head_chain:
  assumes "chain h q xs q" "new \<notin> set (q # xs)" "distinct (q # xs)" "xs \<noteq> []"
  shows "chain (list_add_after (last xs) new h) q (xs @ [new]) q"
proof -
  obtain zs l where xs: "xs = zs @ [l]" using assms(4) by (metis rev_exhaust)
  have "chain h q zs l" "chain h l [] q" using assms(1) by (simp_all add: xs chain_append)
  then have "chain (list_add_after l new h) q (zs @ l # new # []) q"
    using assms by (intro list_add_after_chain) (auto simp: xs)
  then show ?thesis by (simp add: xs)
qed

lemma list_add_after_container [simp]: "container (list_add_after l new h x) = container (h x)"
  by (simp add: list_add_after_def Let_def)

lemma list_add_before_container [simp]: "container (list_add_before l new h x) = container (h x)"
  by (simp add: list_add_before_def Let_def)

lemma list_rem_container [simp]: "container (list_rem n h x) = container (h x)"
  by (simp add: list_rem_def Let_def)

lemma list_enqueue_klist:
  assumes "klist h q xs" "new \<notin> set (q # xs)" "container (h new) \<noteq> 0"
  shows "klist (list_enqueue q new h) q (xs @ [new])"
proof -
  have last: "ln_prev (h q) = last (q # xs)" using assms(1) chain_last [of h q xs q] by (simp add: klist_def)
  have "chain (list_add_after (last (q # xs)) new h) q (xs @ [new]) q"
  proof (cases "xs = []")
    case True
    then show ?thesis using assms by (auto simp: klist_def list_add_after_def Let_def)
  next
    case False
    then show ?thesis using assms list_add_after_head_chain [of h q xs new] by (simp add: klist_def)
  qed
  then show ?thesis using assms last by (auto simp: klist_def list_enqueue_def)
qed

lemma list_rem_next_prev:
  assumes "ln_next (h n) \<noteq> n" "ln_prev (h n) \<noteq> n"
  shows "ln_next (list_rem n h x) = (if x = n then n else if x = ln_prev (h n) then ln_next (h n) else ln_next (h x))"
    "ln_prev (list_rem n h x) = (if x = n then n else if x = ln_next (h n) then ln_prev (h n) else ln_prev (h x))"
  using assms by (auto simp: list_rem_def Let_def)

lemma chain_remove:
  assumes "chain h a (xs @ n # ys) b" "distinct (a # xs @ n # ys)" "b = a"
  shows "chain (list_rem n h) a (xs @ ys) b"
proof -
  have c: "chain h a xs n" "chain h n ys b" using assms(1) by (simp_all add: chain_append)
  have nx: "ln_next (h n) = (case ys of [] \<Rightarrow> b | y # _ \<Rightarrow> y)" using c(2) by (cases ys) auto
  have pv: "ln_prev (h n) = last (a # xs)" by (rule chain_last [OF c(1)])
  have ne: "ln_next (h n) \<noteq> n" "ln_prev (h n) \<noteq> n"
    using assms(2,3) nx pv last_in_set [of "a # xs"] by (auto split: list.splits if_splits)
  note upd = list_rem_next_prev [of h n, OF ne]
  show ?thesis
  proof (cases xs rule: rev_cases)
    case Nil
    then show ?thesis
    proof (cases ys)
      case Nil
      then show ?thesis using assms \<open>xs = []\<close> pv nx by (auto simp: upd)
    next
      case (Cons y zs)
      have "chain h y zs b" using c(2) Cons by simp
      then have "chain (list_rem n h) y zs b"
        using assms Cons \<open>xs = []\<close> pv nx by - (rule chain_cong [of h], auto simp: upd)
      then show ?thesis using assms Cons \<open>xs = []\<close> pv nx by (auto simp: upd)
    qed
  next
    case (snoc zs l)
    have one: "chain h a zs l" using c(1) snoc by (simp add: chain_append)
    then have one: "chain (list_rem n h) a zs l"
      using assms snoc pv nx by - (rule chain_cong [OF one], auto simp: upd split: list.splits)
    have "chain (list_rem n h) l ys b"
    proof (cases ys)
      case Nil
      then show ?thesis using assms snoc pv nx by (auto simp: upd)
    next
      case (Cons y ws)
      have "chain h y ws b" using c(2) Cons by simp
      then have "chain (list_rem n h) y ws b"
        using assms Cons snoc pv nx by - (rule chain_cong [of h], auto simp: upd)
      then show ?thesis using assms Cons snoc pv nx by (auto simp: upd)
    qed
    then show ?thesis using one by (simp add: snoc chain_append)
  qed
qed

lemma list_rem_klist:
  assumes "klist h q (xs @ n # ys)"
  shows "klist (list_rem n h) q (xs @ ys) \<and> detached (list_rem n h) n"
  using assms chain_remove [of h q xs n ys q] by (auto simp: klist_def detached_def list_rem_def Let_def)

lemma list_dequeue_klist:
  assumes "klist h q (x # xs)"
  shows "\<exists>h'. list_dequeue q h = (container (h x), h') \<and> klist h' q xs \<and> detached h' x"
  using assms list_rem_klist [of h q "[]" x xs] klist_nonempty [OF assms] by (simp add: list_dequeue_def Let_def)

lemma list_dequeue_empty: "klist h q [] \<Longrightarrow> fst (list_dequeue q h) = 0 \<and> klist (snd (list_dequeue q h)) q []"
  by (auto simp: klist_def list_dequeue_def list_rem_def Let_def)

text \<open>Adding before a member, as the active list of tcaps does.\<close>

lemma list_add_after_first:
  assumes "klist h q xs" "new \<notin> set (q # xs)" "container (h new) \<noteq> 0"
  shows "klist (list_add_after q new h) q (new # xs)"
proof (cases xs)
  case Nil
  then show ?thesis using assms by (auto simp: klist_def list_add_after_def Let_def)
next
  case (Cons x ys)
  have "chain h x ys q" using assms(1) Cons by (simp add: klist_def)
  then have "chain (list_add_after q new h) x ys q"
    using assms Cons by - (rule chain_cong [of h], auto simp: klist_def list_add_after_def Let_def)
  then show ?thesis using assms Cons by (auto simp: klist_def list_add_after_def Let_def)
qed

lemma list_add_after_klist:
  assumes "klist h q (xs @ l # ys)" "new \<notin> set (q # xs @ l # ys)" "container (h new) \<noteq> 0"
  shows "klist (list_add_after l new h) q (xs @ l # new # ys)"
  using assms list_add_after_chain [of h q xs l ys q new] by (auto simp: klist_def chain_append)

lemma list_add_before_eq:
  assumes "ln_next (h (ln_prev (h l))) = l" "new \<noteq> l" "new \<noteq> ln_prev (h l)"
  shows "list_add_before l new h = list_add_after (ln_prev (h l)) new h"
proof (rule ext)
  fix x
  show "list_add_before l new h x = list_add_after (ln_prev (h l)) new h x"
    using assms
    by (auto simp: list_add_before_def list_add_after_def Let_def set_next_def set_prev_def)
qed

lemma list_add_before_klist:
  assumes "klist h q (xs @ n # ys)" "new \<notin> set (q # xs @ n # ys)" "container (h new) \<noteq> 0"
  shows "klist (list_add_before n new h) q (xs @ new # n # ys)"
proof -
  have c: "chain h q xs n" using assms(1) by (simp add: klist_def chain_append)
  have pv: "ln_prev (h n) = last (q # xs)" by (rule chain_last [OF c])
  show ?thesis
  proof (cases xs rule: rev_cases)
    case Nil
    then have "list_add_before n new h = list_add_after q new h"
      using c pv assms(2) by (subst list_add_before_eq) auto
    then show ?thesis using list_add_after_first [OF assms(1)] assms Nil by simp
  next
    case (snoc zs l)
    then have "ln_next (h l) = n" using c by (simp add: chain_append)
    then have "list_add_before n new h = list_add_after l new h"
      using pv assms(2) snoc by (subst list_add_before_eq) auto
    then show ?thesis using list_add_after_klist [of h q zs l "n # ys" new] assms snoc by simp
  qed
qed

text \<open>The nodes the operations do not touch.\<close>

lemma list_enqueue_frame:
  assumes "klist h q xs" "x \<notin> set (q # xs)" "x \<noteq> n"
  shows "list_enqueue q n h x = h x"
proof -
  have last: "ln_prev (h q) = last (q # xs)" using assms(1) chain_last [of h q xs q] by (simp add: klist_def)
  have "ln_next (h (last (q # xs))) = q"
    using assms(1) unfolding klist_def
    by (cases xs rule: rev_cases) (auto simp: chain_append)
  moreover have "last (q # xs) \<in> set (q # xs)" by (rule last_in_set) simp
  ultimately show ?thesis
    using assms(2,3) by (auto simp: list_enqueue_def last list_add_after_def Let_def set_next_def set_prev_def)
qed

lemma list_rem_frame:
  assumes "x \<noteq> n" "x \<noteq> ln_next (h n)" "x \<noteq> ln_prev (h n)"
  shows "list_rem n h x = h x"
  using assms by (simp add: list_rem_def Let_def set_next_def set_prev_def)

lemma list_add_before_frame:
  assumes "x \<noteq> new" "x \<noteq> l" "x \<noteq> ln_prev (h l)"
  shows "list_add_before l new h x = h x"
  using assms by (auto simp: list_add_before_def Let_def set_next_def set_prev_def)

section \<open>The interface of a queue\<close>

text \<open>
  What a client relies on: elements come out in the order they went in, and an element is refused
  exactly when \<open>accept\<close> says so.  \<open>R s xs\<close> relates the state to the sequence of elements it stores,
  \<open>dom\<close> holds of the elements a client may offer.
\<close>

datatype 'a qop = Enq 'a | Deq

fun qrun :: "('a \<Rightarrow> 's \<Rightarrow> 's) \<Rightarrow> ('s \<Rightarrow> 'a option \<times> 's) \<Rightarrow> 'a qop list \<Rightarrow> 's \<Rightarrow> 'a option list \<times> 's" where
  "qrun enq deq [] s = ([], s)"
| "qrun enq deq (Enq x # ops) s = qrun enq deq ops (enq x s)"
| "qrun enq deq (Deq # ops) s =
     (let (r, s) = deq s; (rs, s) = qrun enq deq ops s in (r # rs, s))"

fun qspec :: "('a \<Rightarrow> 'a list \<Rightarrow> bool) \<Rightarrow> 'a qop list \<Rightarrow> 'a list \<Rightarrow> 'a option list \<times> 'a list" where
  "qspec accept [] xs = ([], xs)"
| "qspec accept (Enq x # ops) xs = qspec accept ops (if accept x xs then xs @ [x] else xs)"
| "qspec accept (Deq # ops) [] = (let (rs, ys) = qspec accept ops [] in (None # rs, ys))"
| "qspec accept (Deq # ops) (x # xs) = (let (rs, ys) = qspec accept ops xs in (Some x # rs, ys))"

locale bounded_queue =
  fixes R :: "'s \<Rightarrow> 'a list \<Rightarrow> bool"
    and dom :: "'a \<Rightarrow> bool"
    and accept :: "'a \<Rightarrow> 'a list \<Rightarrow> bool"
    and enq :: "'a \<Rightarrow> 's \<Rightarrow> 's"
    and deq :: "'s \<Rightarrow> 'a option \<times> 's"
  assumes enq_accept: "R s xs \<Longrightarrow> dom x \<Longrightarrow> accept x xs \<Longrightarrow> R (enq x s) (xs @ [x])"
    and enq_refuse: "R s xs \<Longrightarrow> dom x \<Longrightarrow> \<not> accept x xs \<Longrightarrow> R (enq x s) xs"
    and deq_empty: "R s [] \<Longrightarrow> fst (deq s) = None \<and> R (snd (deq s)) []"
    and deq_first: "R s (x # xs) \<Longrightarrow> fst (deq s) = Some x \<and> R (snd (deq s)) xs"
begin

lemma run_correct:
  assumes "R s xs" "\<forall>x. Enq x \<in> set ops \<longrightarrow> dom x"
  shows "fst (qrun enq deq ops s) = fst (qspec accept ops xs) \<and>
    R (snd (qrun enq deq ops s)) (snd (qspec accept ops xs))"
  using assms
proof (induction ops arbitrary: s xs)
  case (Cons op ops)
  have ops: "\<forall>x. Enq x \<in> set ops \<longrightarrow> dom x" using Cons.prems(2) by simp
  show ?case
  proof (cases op)
    case (Enq x)
    have "R (enq x s) (if accept x xs then xs @ [x] else xs)"
      using Cons.prems Enq enq_accept [of s xs x] enq_refuse [of s xs x] by auto
    then show ?thesis using Cons.IH [OF _ ops] Enq by simp
  next
    case Deq
    show ?thesis
    proof (cases xs)
      case Nil
      then show ?thesis using Cons.IH [OF _ ops, of "snd (deq s)" "[]"] Cons.prems(1) Deq deq_empty [of s]
        by (simp add: case_prod_beta Let_def)
    next
      case xs: (Cons y ys)
      then show ?thesis using Cons.IH [OF _ ops, of "snd (deq s)" ys] Cons.prems(1) Deq deq_first [of s y ys]
        by (simp add: case_prod_beta Let_def)
    qed
  qed
qed simp

end

end
