(* ===== verification/Kernel_State.thy ===== *)
theory Kernel_State
  imports Pgtbl Klist
begin

text \<open>
  The state of the kernel beyond the tables of \<^verbatim>\<open>Captbl\<close> and \<^verbatim>\<open>Pgtbl\<close>: user registers and the calling
  convention (\<^verbatim>\<open>call_convention.h\<close>), threads (\<^verbatim>\<open>thd.h\<close>), temporal capabilities (\<^verbatim>\<open>tcap.h\<close>), the
  bodies of the capabilities (\<^verbatim>\<open>component.h\<close>, \<^verbatim>\<open>inv.h\<close>, \<^verbatim>\<open>hw.h\<close>), the inter-processor rings
  (\<^verbatim>\<open>ipi_cap.h\<close>) and the per-core data (\<^verbatim>\<open>cpuid.h\<close>).  Like the tables, every type of object has a heap
  of its own; a capability is found at the address of its header, its body in the heap of its type.
\<close>

section \<open>User registers and the calling convention\<close>

record pt_regs =
  r_bx :: u32
  r_cx :: u32
  r_dx :: u32
  r_si :: u32
  r_di :: u32
  r_bp :: u32
  r_ax :: u32
  r_ds :: u32
  r_es :: u32
  r_fs :: u32
  r_gs :: u32
  r_orig_ax :: u32
  r_ip :: u32
  r_cs :: u32
  r_flags :: u32
  r_sp :: u32
  r_ss :: u32

definition pt_regs_zero :: pt_regs where
  "pt_regs_zero = \<lparr>r_bx = 0, r_cx = 0, r_dx = 0, r_si = 0, r_di = 0, r_bp = 0, r_ax = 0, r_ds = 0, r_es = 0,
     r_fs = 0, r_gs = 0, r_orig_ax = 0, r_ip = 0, r_cs = 0, r_flags = 0, r_sp = 0, r_ss = 0\<rparr>"

definition COS_CAPABILITY_OFFSET :: nat where [simp]: "COS_CAPABILITY_OFFSET = 16"

definition userregs_setret :: "u32 \<Rightarrow> pt_regs \<Rightarrow> pt_regs" where
  "userregs_setret ret r = r\<lparr>r_ax := ret\<rparr>"

definition userregs_getsp :: "pt_regs \<Rightarrow> u32" where "userregs_getsp r = r_bp r"

definition userregs_getip :: "pt_regs \<Rightarrow> u32" where "userregs_getip r = r_cx r"

text \<open>The registers are signed \<^verbatim>\<open>long\<close>s, so the shift that extracts the capability is arithmetic.\<close>

definition userregs_getcap :: "pt_regs \<Rightarrow> capid" where
  "userregs_getcap r = signed_drop_bit COS_CAPABILITY_OFFSET (r_ax r) - 1"

definition userregs_getop :: "pt_regs \<Rightarrow> u32" where
  "userregs_getop r = r_ax r AND mask COS_CAPABILITY_OFFSET"

definition userregs_getinvret :: "pt_regs \<Rightarrow> u32" where "userregs_getinvret r = r_cx r"

definition userregs_set :: "u32 \<Rightarrow> u32 \<Rightarrow> u32 \<Rightarrow> pt_regs \<Rightarrow> pt_regs" where
  "userregs_set ret sp ip r = r\<lparr>r_cx := sp, r_dx := ip, r_ax := ret, r_ip := ip, r_sp := sp\<rparr>"

definition userregs_setretvals :: "u32 \<Rightarrow> u32 \<Rightarrow> u32 \<Rightarrow> u32 \<Rightarrow> pt_regs \<Rightarrow> pt_regs" where
  "userregs_setretvals ret ret1 ret2 ret3 r = r\<lparr>r_bx := ret3, r_si := ret1, r_di := ret2, r_ax := ret\<rparr>"

definition userregs_sinvupdate :: "pt_regs \<Rightarrow> pt_regs" where
  "userregs_sinvupdate r = r\<lparr>r_bp := r_dx r\<rparr>"

definition userregs_get1 :: "pt_regs \<Rightarrow> u32" where "userregs_get1 r = r_bx r"
definition userregs_get2 :: "pt_regs \<Rightarrow> u32" where "userregs_get2 r = r_si r"
definition userregs_get3 :: "pt_regs \<Rightarrow> u32" where "userregs_get3 r = r_di r"
definition userregs_get4 :: "pt_regs \<Rightarrow> u32" where "userregs_get4 r = r_dx r"

definition copy_gp_regs :: "pt_regs \<Rightarrow> pt_regs \<Rightarrow> pt_regs" where
  "copy_gp_regs from to = to\<lparr>r_bx := r_bx from, r_cx := r_cx from, r_dx := r_dx from, r_si := r_si from,
     r_di := r_di from, r_bp := r_bp from, r_ax := r_ax from\<rparr>"

text \<open>\<^verbatim>\<open>copy_all_regs\<close> copies every field of \<^verbatim>\<open>struct pt_regs\<close>.\<close>

definition copy_all_regs :: "pt_regs \<Rightarrow> pt_regs \<Rightarrow> pt_regs" where
  "copy_all_regs from to = to\<lparr>r_bx := r_bx from, r_cx := r_cx from, r_dx := r_dx from, r_si := r_si from,
     r_di := r_di from, r_bp := r_bp from, r_ax := r_ax from, r_ds := r_ds from, r_es := r_es from,
     r_fs := r_fs from, r_gs := r_gs from, r_orig_ax := r_orig_ax from, r_ip := r_ip from, r_cs := r_cs from,
     r_flags := r_flags from, r_sp := r_sp from, r_ss := r_ss from\<rparr>"

lemma copy_all_regs_eq [simp]: "copy_all_regs from to = from"
  by (cases "from :: pt_regs", cases "to :: pt_regs") (simp add: copy_all_regs_def)

text \<open>A negative error number as the user sees it in a register, and a register read as an \<^verbatim>\<open>int\<close>.\<close>

definition ret_reg :: "int \<Rightarrow> u32" where "ret_reg r = word_of_int r"

lemma ret_reg_0 [simp]: "ret_reg 0 = 0"
  by (simp add: ret_reg_def)

section \<open>Kernel objects\<close>

record comp_info =
  ci_liveness :: liveness_data
  ci_pgtbl :: u32
  ci_captbl :: addr
  ci_comp_nfo :: addr

record invstk_entry =
  is_comp_info :: comp_info
  is_sp :: u32
  is_ip :: u32

definition THD_INVSTK_MAXSZ :: nat where [simp]: "THD_INVSTK_MAXSZ = 32"

text \<open>
  The counters of \<^verbatim>\<open>struct rcvcap_info\<close> are \<^verbatim>\<open>int\<close>s, read as signed words; \<^verbatim>\<open>isbound\<close> and
  \<^verbatim>\<open>is_all_pending\<close> only ever hold 0 and 1.
\<close>

record rcvcap_info =
  isbound :: bool
  pending :: u32
  rc_refcnt :: u32
  is_all_pending :: bool
  sched_count :: u32
  rcvcap_tcap :: addr
  rcvcap_thd_notif :: addr

text \<open>
  \<^verbatim>\<open>struct thread\<close>.  The two bits of \<^verbatim>\<open>state\<close> (\<^verbatim>\<open>THD_STATE_PREEMPTED\<close>, \<^verbatim>\<open>THD_STATE_RCVING\<close>) are two
  fields; the two list fields are nodes of the list heap; \<^verbatim>\<open>fault_regs\<close> and \<^verbatim>\<open>fpu\<close> are not touched by
  the code modelled.
\<close>

record thread =
  tid :: u16
  th_invstk_top :: u16
  regs :: pt_regs
  invstk :: "nat \<Rightarrow> invstk_entry"
  st_preempted :: bool
  st_rcving :: bool
  tls :: u32
  th_cpuid :: cpuid
  th_refcnt :: u32
  exec :: u32
  timeout :: u32
  interrupted_thread :: addr
  scheduler_thread :: addr
  rcvcap :: rcvcap_info

record tcap_sched_info =
  tcap_uid :: u64
  prio :: u64

definition TCAP_MAX_DELEGATIONS :: nat where [simp]: "TCAP_MAX_DELEGATIONS = 16"

record tcap =
  arcv_ep :: addr
  tc_refcnt :: u32
  budget :: u32
  ndelegs :: nat
  curr_sched_off :: nat
  tc_cpuid :: cpuid
  perm_prio :: u64
  delegations :: "nat \<Rightarrow> tcap_sched_info"

record cap_thd =
  ct_t :: addr
  ct_cpuid :: cpuid

record cap_tcap =
  cc_tcap :: addr
  cc_cpuid :: cpuid

record cap_comp =
  co_entry_addr :: u32
  co_pgd :: addr
  co_ct_top :: addr
  co_info :: comp_info

record cap_sinv =
  si_comp_info :: comp_info
  si_entry_addr :: u32
  si_token :: u32

record cap_asnd =
  as_cpuid :: cpuid
  as_arcv_cpuid :: cpuid
  as_arcv_capid :: capid
  as_arcv_epoch :: u32
  as_comp_info :: comp_info
  as_budget :: u32
  as_period :: u32
  as_replenish_amnt :: u32

record cap_arcv =
  ar_comp_info :: comp_info
  ar_epoch :: u32
  ar_cpuid :: cpuid
  ar_thd :: addr
  ar_event_notif :: addr
  ar_depth :: u8

record cap_hw =
  hw_bitmap :: u32

section \<open>Rings between cores\<close>

definition IPI_RING_SIZE :: nat where [simp]: "IPI_RING_SIZE = 16"

definition IPI_RING_MASK :: u32 where "IPI_RING_MASK = of_nat IPI_RING_SIZE - 1"

record ipi_cap_data =
  ip_arcv_capid :: capid
  ip_arcv_epoch :: u32
  ip_comp_info :: comp_info

record xcore_ring =
  sender :: u32
  receiver :: u32
  ring :: "nat \<Rightarrow> ipi_cap_data"

record IPI_receiving_rings =
  IPI_source :: "cpuid \<Rightarrow> xcore_ring"
  start :: u32

section \<open>Per-core data and the whole state\<close>

record next_thdinfo =
  nt_thd :: addr
  nt_tc :: addr
  nt_prio :: u64
  nt_budget :: u32

text \<open>
  \<^verbatim>\<open>struct cos_cpu_local_info\<close> of one core; \<^verbatim>\<open>cr3\<close>, the user's TLS base and the programmed one-shot
  timer are the registers of that core that the kernel sets.  \<^verbatim>\<open>invstk_top\<close> is an \<^verbatim>\<open>int\<close> that is never
  negative.
\<close>

record cos_cpu_local_info =
  curr_thd :: addr
  curr_tcap :: addr
  cli_tcap_uid :: u64
  cli_cycles :: u64
  next_timer :: u64
  invstk_top :: nat
  next_ti :: next_thdinfo
  cr3 :: u32
  tls_base :: u32
  timer_deadline :: "u64 option"

text \<open>
  The list nodes of the kernel: the active list of a core (\<^verbatim>\<open>cli->tcaps\<close>), the \<^verbatim>\<open>active_list\<close> node of a
  tcap, the \<^verbatim>\<open>event_head\<close> and \<^verbatim>\<open>event_list\<close> of a thread.
\<close>

datatype lref = LNull | LTcaps cpuid | LActive addr | LEvtHead addr | LEvt addr

record kst = kmem +
  cthds :: "addr \<Rightarrow> cap_thd"
  ctcaps :: "addr \<Rightarrow> cap_tcap"
  comps :: "addr \<Rightarrow> cap_comp"
  sinvs :: "addr \<Rightarrow> cap_sinv"
  asnds :: "addr \<Rightarrow> cap_asnd"
  arcvs :: "addr \<Rightarrow> cap_arcv"
  hws :: "addr \<Rightarrow> cap_hw"
  thds :: "addr \<Rightarrow> thread"
  tcaps :: "addr \<Rightarrow> tcap"
  lst :: "lref lheap"
  cli :: "cpuid \<Rightarrow> cos_cpu_local_info"
  hw_asnd_caps :: "nat \<Rightarrow> cap_t \<times> cap_asnd"
  IPI_cap_dest :: "cpuid \<Rightarrow> IPI_receiving_rings"
  cyc_thresh :: u32
  cyc_usec :: int

definition upd_thd :: "addr \<Rightarrow> (thread \<Rightarrow> thread) \<Rightarrow> kst \<Rightarrow> kst" where
  "upd_thd t f s = s\<lparr>thds := (thds s)(t := f (thds s t))\<rparr>"

definition upd_rcvcap :: "addr \<Rightarrow> (rcvcap_info \<Rightarrow> rcvcap_info) \<Rightarrow> kst \<Rightarrow> kst" where
  "upd_rcvcap t f = upd_thd t (\<lambda>th. th\<lparr>rcvcap := f (rcvcap th)\<rparr>)"

definition upd_tcap :: "addr \<Rightarrow> (tcap \<Rightarrow> tcap) \<Rightarrow> kst \<Rightarrow> kst" where
  "upd_tcap t f s = s\<lparr>tcaps := (tcaps s)(t := f (tcaps s t))\<rparr>"

definition upd_cli :: "cpuid \<Rightarrow> (cos_cpu_local_info \<Rightarrow> cos_cpu_local_info) \<Rightarrow> kst \<Rightarrow> kst" where
  "upd_cli c f s = s\<lparr>cli := (cli s)(c := f (cli s c))\<rparr>"

definition upd_lst :: "(lref lheap \<Rightarrow> lref lheap) \<Rightarrow> kst \<Rightarrow> kst" where
  "upd_lst f s = s\<lparr>lst := f (lst s)\<rparr>"

lemmas upd_defs = upd_thd_def upd_rcvcap_def upd_tcap_def upd_cli_def upd_lst_def

text \<open>The machine as later in the same system call, after \<open>n\<close> reads of the time-stamp counter.\<close>

definition later :: "nat \<Rightarrow> kenv \<Rightarrow> kenv" where
  "later n E = E\<lparr>ke_tsc := \<lambda>k. ke_tsc E (n + k)\<rparr>"

lemma later_sel [simp]: "ke_kpa (later n E) = ke_kpa E" "ke_cpu (later n E) = ke_cpu E" "ke_tsc (later n E) k = ke_tsc E (n + k)"
  by (simp_all add: later_def)

section \<open>Zeroed memory\<close>

definition comp_info_zero :: comp_info where
  "comp_info_zero = \<lparr>ci_liveness = \<lparr>ld_epoch = 0, ld_id = 0\<rparr>, ci_pgtbl = 0, ci_captbl = 0, ci_comp_nfo = 0\<rparr>"

definition invstk_entry_zero :: invstk_entry where
  "invstk_entry_zero = \<lparr>is_comp_info = comp_info_zero, is_sp = 0, is_ip = 0\<rparr>"

definition rcvcap_zero :: rcvcap_info where
  "rcvcap_zero = \<lparr>isbound = False, pending = 0, rc_refcnt = 0, is_all_pending = False, sched_count = 0,
     rcvcap_tcap = 0, rcvcap_thd_notif = 0\<rparr>"

definition thread_zero :: thread where
  "thread_zero = \<lparr>tid = 0, th_invstk_top = 0, regs = pt_regs_zero, invstk = (\<lambda>_. invstk_entry_zero),
     st_preempted = False, st_rcving = False, tls = 0, th_cpuid = 0, th_refcnt = 0, exec = 0, timeout = 0,
     interrupted_thread = 0, scheduler_thread = 0, rcvcap = rcvcap_zero\<rparr>"

definition tcap_zero :: tcap where
  "tcap_zero = \<lparr>arcv_ep = 0, tc_refcnt = 0, budget = 0, ndelegs = 0, curr_sched_off = 0, tc_cpuid = 0,
     perm_prio = 0, delegations = (\<lambda>_. \<lparr>tcap_uid = 0, prio = 0\<rparr>)\<rparr>"

definition asnd_zero :: cap_asnd where
  "asnd_zero = \<lparr>as_cpuid = 0, as_arcv_cpuid = 0, as_arcv_capid = 0, as_arcv_epoch = 0, as_comp_info = comp_info_zero,
     as_budget = 0, as_period = 0, as_replenish_amnt = 0\<rparr>"

definition node_zero :: "lref list_node" where
  "node_zero = \<lparr>ln_next = LNull, ln_prev = LNull, container = 0\<rparr>"

text \<open>
  \<^verbatim>\<open>memset (page, 0, PAGE_SIZE)\<close> of a page that holds a kernel object: the words, capability headers and
  table bodies in the page, and the thread at its start with its list nodes.  The bodies of the other
  capabilities are read only through a header of their type, which the page no longer has.
\<close>

definition cap_tbl_zero :: cap_tbl where
  "cap_tbl_zero = \<lparr>refcnt_flags = 0, tbl = 0, tbl_lvl = 0, tbl_parent = 0, frozen_ts = 0\<rparr>"

definition in_page :: "addr \<Rightarrow> addr \<Rightarrow> bool" where
  "in_page pg a \<longleftrightarrow> a - pg < PAGE_SIZE"

definition zero_page :: "addr \<Rightarrow> kst \<Rightarrow> kst" where
  "zero_page pg s = s\<lparr>
     mem := (\<lambda>a. if in_page pg a then 0 else mem s a),
     hdr := (\<lambda>a. if in_page pg a then captbl_free_hdr\<lparr>h_size := CAP_SZ_16B\<rparr> else hdr s a),
     tbls := (\<lambda>a. if in_page pg a then cap_tbl_zero else tbls s a),
     thds := (thds s)(pg := thread_zero),
     lst := (lst s)(LEvtHead pg := node_zero, LEvt pg := node_zero)\<rparr>"

section \<open>An idle kernel\<close>

text \<open>
  The tables of \<open>k\<close> with no kernel object in use: all memory zero, every list node in no list.  It is
  the state the examples start from.
\<close>

definition idle_node :: "lref \<Rightarrow> lref list_node" where
  "idle_node l = \<lparr>ln_next = l, ln_prev = l,
     container = (case l of LActive a \<Rightarrow> a | LEvt a \<Rightarrow> a | _ \<Rightarrow> 0)\<rparr>"

definition cli_zero :: cos_cpu_local_info where
  "cli_zero = \<lparr>curr_thd = 0, curr_tcap = 0, cli_tcap_uid = 0, cli_cycles = 0, next_timer = 0, invstk_top = 0,
     next_ti = \<lparr>nt_thd = 0, nt_tc = 0, nt_prio = 0, nt_budget = 0\<rparr>, cr3 = 0, tls_base = 0, timer_deadline = None\<rparr>"

definition ring_zero :: xcore_ring where
  "ring_zero = \<lparr>sender = 0, receiver = 0,
     ring = (\<lambda>_. \<lparr>ip_arcv_capid = 0, ip_arcv_epoch = 0, ip_comp_info = comp_info_zero\<rparr>)\<rparr>"

definition idle_kst :: "kmem \<Rightarrow> kst" where
  "idle_kst k = kmem.extend k (kst.fields
     (\<lambda>_. \<lparr>ct_t = 0, ct_cpuid = 0\<rparr>)
     (\<lambda>_. \<lparr>cc_tcap = 0, cc_cpuid = 0\<rparr>)
     (\<lambda>_. \<lparr>co_entry_addr = 0, co_pgd = 0, co_ct_top = 0, co_info = comp_info_zero\<rparr>)
     (\<lambda>_. \<lparr>si_comp_info = comp_info_zero, si_entry_addr = 0, si_token = 0\<rparr>)
     (\<lambda>_. asnd_zero)
     (\<lambda>_. \<lparr>ar_comp_info = comp_info_zero, ar_epoch = 0, ar_cpuid = 0, ar_thd = 0, ar_event_notif = 0, ar_depth = 0\<rparr>)
     (\<lambda>_. \<lparr>hw_bitmap = 0\<rparr>)
     (\<lambda>_. thread_zero)
     (\<lambda>_. tcap_zero)
     idle_node
     (\<lambda>_. cli_zero)
     (\<lambda>_. (CAP_FREE, asnd_zero))
     (\<lambda>_. \<lparr>IPI_source = (\<lambda>_. ring_zero), start = 0\<rparr>)
     0 0)"

lemma idle_kst_sel [simp]:
  "mem (idle_kst k) = mem k" "hdr (idle_kst k) = hdr k" "tbls (idle_kst k) = tbls k" "ltb (idle_kst k) = ltb k"
  "rt (idle_kst k) = rt k" "tlbq (idle_kst k) = tlbq k"
  "thds (idle_kst k) = (\<lambda>_. thread_zero)" "tcaps (idle_kst k) = (\<lambda>_. tcap_zero)" "lst (idle_kst k) = idle_node"
  "cli (idle_kst k) = (\<lambda>_. cli_zero)" "cyc_thresh (idle_kst k) = 0"
  "IPI_cap_dest (idle_kst k) = (\<lambda>_. \<lparr>IPI_source = (\<lambda>_. ring_zero), start = 0\<rparr>)"
  by (simp_all add: idle_kst_def kmem.defs kst.defs)

end
