(* ===== verification/Thread.thy ===== *)
theory Thread
  imports Kernel_State
begin

text \<open>
  Threads, \<^verbatim>\<open>thd.h\<close>: the invocation stack, receive end-points with their pending counts and event
  queues, and the bookkeeping of a thread switch.  \<^verbatim>\<open>thd_activate\<close> and \<^verbatim>\<open>thd_deactivate\<close>, which work on
  capability tables, are in \<^verbatim>\<open>Cap_Ops\<close>.
\<close>

section \<open>Receive end-points\<close>

definition thd_upcall_setup :: "kenv \<Rightarrow> addr \<Rightarrow> u32 \<Rightarrow> u32 \<Rightarrow> u32 \<Rightarrow> u32 \<Rightarrow> u32 \<Rightarrow> kst \<Rightarrow> kst" where
  "thd_upcall_setup E thd entry_addr option arg1 arg2 arg3 =
     upd_thd thd (\<lambda>th. th\<lparr>regs := (regs th)\<lparr>r_bx := arg1, r_cx := option, r_dx := entry_addr, r_si := arg3,
       r_di := arg2, r_ax := ucast (tid th) OR push_bit 16 (of_nat (ke_cpu E)), r_ip := entry_addr\<rparr>\<rparr>)"

definition thd_rcvcap_take :: "addr \<Rightarrow> kst \<Rightarrow> kst" where
  "thd_rcvcap_take t = upd_rcvcap t (\<lambda>rc. rc\<lparr>rc_refcnt := rc_refcnt rc + 1\<rparr>)"

definition thd_rcvcap_release :: "addr \<Rightarrow> kst \<Rightarrow> kst" where
  "thd_rcvcap_release t = upd_rcvcap t (\<lambda>rc. rc\<lparr>rc_refcnt := rc_refcnt rc - 1\<rparr>)"

definition thd_rcvcap_isreferenced :: "kst \<Rightarrow> addr \<Rightarrow> bool" where
  "thd_rcvcap_isreferenced s t \<longleftrightarrow> 0 <s rc_refcnt (rcvcap (thds s t))"

definition thd_bound2rcvcap :: "kst \<Rightarrow> addr \<Rightarrow> bool" where
  "thd_bound2rcvcap s t \<longleftrightarrow> isbound (rcvcap (thds s t))"

definition thd_rcvcap_is_sched :: "kst \<Rightarrow> addr \<Rightarrow> bool" where
  "thd_rcvcap_is_sched s t \<longleftrightarrow> thd_rcvcap_isreferenced s t"

definition thd_rcvcap_tcap :: "kst \<Rightarrow> addr \<Rightarrow> addr" where
  "thd_rcvcap_tcap s t = rcvcap_tcap (rcvcap (thds s t))"

definition thd_rcvcap_isroot :: "kst \<Rightarrow> addr \<Rightarrow> bool" where
  "thd_rcvcap_isroot s t \<longleftrightarrow> t = rcvcap_thd_notif (rcvcap (thds s t))"

definition thd_rcvcap_sched :: "kst \<Rightarrow> addr \<Rightarrow> addr" where
  "thd_rcvcap_sched s t = (if thd_rcvcap_isreferenced s t then t else rcvcap_thd_notif (rcvcap (thds s t)))"

definition thd_next_thdinfo_update :: "cpuid \<Rightarrow> addr \<Rightarrow> addr \<Rightarrow> u64 \<Rightarrow> u32 \<Rightarrow> kst \<Rightarrow> kst" where
  "thd_next_thdinfo_update c thd tc p b =
     upd_cli c (\<lambda>i. i\<lparr>next_ti := \<lparr>nt_thd = thd, nt_tc = tc, nt_prio = p, nt_budget = b\<rparr>\<rparr>)"

definition thd_rcvcap_init :: "addr \<Rightarrow> kst \<Rightarrow> kst" where
  "thd_rcvcap_init t = upd_rcvcap t (\<lambda>rc. rc\<lparr>isbound := False, pending := 0, rc_refcnt := 0,
     is_all_pending := False, sched_count := 0, rcvcap_thd_notif := 0\<rparr>)"

definition thd_rcvcap_evt_enqueue :: "addr \<Rightarrow> addr \<Rightarrow> kst \<Rightarrow> kst" where
  "thd_rcvcap_evt_enqueue head t s =
     (if list_empty (lst s) (LEvt t) \<and> head \<noteq> t then upd_lst (list_enqueue (LEvtHead head) (LEvt t)) s else s)"

definition thd_list_rem :: "addr \<Rightarrow> addr \<Rightarrow> kst \<Rightarrow> kst" where
  "thd_list_rem head t = upd_lst (list_rem (LEvt t))"

definition thd_rcvcap_evt_dequeue :: "addr \<Rightarrow> kst \<Rightarrow> addr \<times> kst" where
  "thd_rcvcap_evt_dequeue head s = (let (e, h) = list_dequeue (LEvtHead head) (lst s) in (e, s\<lparr>lst := h\<rparr>))"

definition thd_track_exec :: "kst \<Rightarrow> addr \<Rightarrow> bool" where
  "thd_track_exec s t \<longleftrightarrow> \<not> list_empty (lst s) (LEvt t)"

definition thd_rcvcap_all_pending_set :: "addr \<Rightarrow> bool \<Rightarrow> kst \<Rightarrow> kst" where
  "thd_rcvcap_all_pending_set t v = upd_rcvcap t (\<lambda>rc. rc\<lparr>is_all_pending := v\<rparr>)"

definition thd_rcvcap_all_pending_get :: "kst \<Rightarrow> addr \<Rightarrow> bool" where
  "thd_rcvcap_all_pending_get s t = is_all_pending (rcvcap (thds s t))"

definition thd_rcvcap_all_pending :: "addr \<Rightarrow> kst \<Rightarrow> u32 \<times> kst" where
  "thd_rcvcap_all_pending t s =
     (let p = pending (rcvcap (thds s t));
          s = upd_rcvcap t (\<lambda>rc. rc\<lparr>pending := 0\<rparr>) s;
          s = thd_rcvcap_all_pending_set t False s
      in (push_bit 1 p OR of_bool (\<not> list_isempty (lst s) (LEvtHead t)), s))"

definition thd_rcvcap_pending :: "kst \<Rightarrow> addr \<Rightarrow> u32" where
  "thd_rcvcap_pending s t =
     (if pending (rcvcap (thds s t)) \<noteq> 0 then pending (rcvcap (thds s t))
      else of_bool (\<not> list_isempty (lst s) (LEvtHead t)))"

definition thd_rcvcap_get_counter :: "kst \<Rightarrow> addr \<Rightarrow> u32" where
  "thd_rcvcap_get_counter s t = sched_count (rcvcap (thds s t))"

definition thd_rcvcap_set_counter :: "addr \<Rightarrow> u32 \<Rightarrow> kst \<Rightarrow> kst" where
  "thd_rcvcap_set_counter t cntr = upd_rcvcap t (\<lambda>rc. rc\<lparr>sched_count := cntr\<rparr>)"

definition thd_rcvcap_pending_inc :: "addr \<Rightarrow> kst \<Rightarrow> kst" where
  "thd_rcvcap_pending_inc arcvt = upd_rcvcap arcvt (\<lambda>rc. rc\<lparr>pending := pending rc + 1\<rparr>)"

definition thd_rcvcap_pending_dec :: "addr \<Rightarrow> kst \<Rightarrow> u32 \<times> kst" where
  "thd_rcvcap_pending_dec arcvt s =
     (let p = pending (rcvcap (thds s arcvt))
      in if p = 0 then (0, s) else (p, upd_rcvcap arcvt (\<lambda>rc. rc\<lparr>pending := pending rc - 1\<rparr>) s))"

text \<open>
  \<^verbatim>\<open>thd_state_evt_deliver\<close>: the return value, and the values for \<^verbatim>\<open>*thd_state\<close>, \<^verbatim>\<open>*cycles\<close> and \<^verbatim>\<open>*timeout\<close>,
  which the caller has set to 0.
\<close>

definition thd_state_evt_deliver :: "addr \<Rightarrow> (kst, bool \<times> u32 \<times> u32 \<times> u32) kop" where
  "thd_state_evt_deliver t s = do {
     let (e, s) = thd_rcvcap_evt_dequeue t s;
     kassert (thd_bound2rcvcap s t);
     if e = 0 then Some ((False, 0, 0, 0), s)
     else do {
       let thd_state = ucast (tid (thds s e)) OR
         (if st_rcving (thds s e) then (if thd_rcvcap_pending s e \<noteq> 0 then 0 else push_bit 31 1) else 0);
       let cycles = exec (thds s e);
       let s = upd_thd e (\<lambda>th. th\<lparr>exec := 0\<rparr>) s;
       let tmo = timeout (thds s e);
       let s = upd_thd e (\<lambda>th. th\<lparr>timeout := 0\<rparr>) s;
       Some ((True, thd_state, cycles, tmo), s)
     }
   }"

section \<open>The current thread and its invocation stack\<close>

definition thd_current :: "kst \<Rightarrow> cpuid \<Rightarrow> addr" where
  "thd_current s c = curr_thd (cli s c)"

definition thd_current_update :: "addr \<Rightarrow> addr \<Rightarrow> cpuid \<Rightarrow> kst \<Rightarrow> kst" where
  "thd_current_update next_thd prev c s =
     (let s = upd_thd prev (\<lambda>th. th\<lparr>th_invstk_top := of_nat (invstk_top (cli s c))\<rparr>) s;
          s = upd_cli c (\<lambda>i. i\<lparr>invstk_top := unat (th_invstk_top (thds s next_thd))\<rparr>) s
      in upd_cli c (\<lambda>i. i\<lparr>curr_thd := next_thd\<rparr>) s)"

definition thd_scheduler :: "kst \<Rightarrow> addr \<Rightarrow> addr" where
  "thd_scheduler s thd = scheduler_thread (thds s thd)"

definition thd_scheduler_set :: "addr \<Rightarrow> addr \<Rightarrow> kst \<Rightarrow> kst" where
  "thd_scheduler_set thd sched s =
     (if scheduler_thread (thds s thd) \<noteq> sched then upd_thd thd (\<lambda>th. th\<lparr>scheduler_thread := sched\<rparr>) s else s)"

definition curr_invstk_inc :: "cpuid \<Rightarrow> kst \<Rightarrow> kst" where
  "curr_invstk_inc c = upd_cli c (\<lambda>i. i\<lparr>invstk_top := invstk_top i + 1\<rparr>)"

definition curr_invstk_dec :: "cpuid \<Rightarrow> kst \<Rightarrow> kst" where
  "curr_invstk_dec c = upd_cli c (\<lambda>i. i\<lparr>invstk_top := invstk_top i - 1\<rparr>)"

definition curr_invstk_top :: "kst \<Rightarrow> cpuid \<Rightarrow> nat" where
  "curr_invstk_top s c = invstk_top (cli s c)"

text \<open>
  An entry of the invocation stack.  The array has \<^verbatim>\<open>THD_INVSTK_MAXSZ\<close> entries; an access beyond it is
  outside of the array and has no value here.
\<close>

definition invstk_entry :: "kst \<Rightarrow> addr \<Rightarrow> nat \<Rightarrow> invstk_entry option" where
  "invstk_entry s thd i = (if i < THD_INVSTK_MAXSZ then Some (invstk (thds s thd) i) else None)"

definition upd_invstk :: "addr \<Rightarrow> nat \<Rightarrow> (invstk_entry \<Rightarrow> invstk_entry) \<Rightarrow> kst \<Rightarrow> kst option" where
  "upd_invstk thd i f s =
     (if i < THD_INVSTK_MAXSZ
      then Some (upd_thd thd (\<lambda>th. th\<lparr>invstk := (invstk th)(i := f (invstk th i))\<rparr>) s) else None)"

text \<open>The component, the instruction pointer and the stack pointer of the current entry.\<close>

definition thd_invstk_current :: "kst \<Rightarrow> cpuid \<Rightarrow> addr \<Rightarrow> (comp_info \<times> u32 \<times> u32) option" where
  "thd_invstk_current s c thd = do {
     e \<leftarrow> invstk_entry s thd (curr_invstk_top s c);
     Some (is_comp_info e, is_ip e, is_sp e)
   }"

definition thd_current_pgtbl :: "kst \<Rightarrow> addr \<Rightarrow> u32 option" where
  "thd_current_pgtbl s thd = do {
     e \<leftarrow> invstk_entry s thd (unat (th_invstk_top (thds s thd)));
     Some (ci_pgtbl (is_comp_info e))
   }"

definition thd_invstk_push :: "cpuid \<Rightarrow> addr \<Rightarrow> comp_info \<Rightarrow> u32 \<Rightarrow> u32 \<Rightarrow> (kst, int) kop" where
  "thd_invstk_push c thd ci ip sp s =
     (if curr_invstk_top s c \<ge> THD_INVSTK_MAXSZ then Some (- 1, s)
      else do {
        let prev = curr_invstk_top s c;
        let top = curr_invstk_top s c + 1;
        let s = curr_invstk_inc c s;
        s \<leftarrow> upd_invstk thd prev (\<lambda>e. e\<lparr>is_ip := ip\<rparr>) s;
        s \<leftarrow> upd_invstk thd prev (\<lambda>e. e\<lparr>is_sp := sp\<rparr>) s;
        s \<leftarrow> upd_invstk thd top (\<lambda>e. e\<lparr>is_comp_info := ci\<rparr>) s;
        s \<leftarrow> upd_invstk thd top (\<lambda>e. e\<lparr>is_sp := 0, is_ip := 0\<rparr>) s;
        Some (0, s)
      })"

text \<open>\<^verbatim>\<open>thd_invstk_pop\<close>: \<open>None\<close> in the result is the null pointer.\<close>

definition thd_invstk_pop :: "cpuid \<Rightarrow> addr \<Rightarrow> (kst, (comp_info \<times> u32 \<times> u32) option) kop" where
  "thd_invstk_pop c thd s =
     (if curr_invstk_top s c = 0 then Some (None, s)
      else do {
        let s = curr_invstk_dec c s;
        e \<leftarrow> thd_invstk_current s c thd;
        Some (Some e, s)
      })"

section \<open>Switching threads\<close>

definition thd_preemption_state_update :: "addr \<Rightarrow> addr \<Rightarrow> pt_regs \<Rightarrow> kst \<Rightarrow> kst" where
  "thd_preemption_state_update cur next_thd r s =
     (let s = upd_thd cur (\<lambda>th. th\<lparr>st_preempted := True\<rparr>) s;
          s = upd_thd next_thd (\<lambda>th. th\<lparr>interrupted_thread := cur\<rparr>) s
      in upd_thd cur (\<lambda>th. th\<lparr>regs := r\<rparr>) s)"

definition thd_rcvcap_pending_deliver :: "addr \<Rightarrow> pt_regs \<Rightarrow> (kst, pt_regs) kop" where
  "thd_rcvcap_pending_deliver thd r s = do {
     let all_pending = thd_rcvcap_all_pending_get s thd;
     ((_, thd_state, cycles, tmo), s) \<leftarrow> thd_state_evt_deliver thd s;
     let (p, s) = (if all_pending then thd_rcvcap_all_pending thd s
                   else let (_, s) = thd_rcvcap_pending_dec thd s in (thd_rcvcap_pending s thd, s));
     Some (userregs_setretvals p thd_state cycles tmo r, s)
   }"

text \<open>
  \<^verbatim>\<open>thd_switch_update\<close> with the registers it is given a pointer to: whether the thread had been preempted,
  and the registers afterwards.
\<close>

definition thd_switch_update :: "addr \<Rightarrow> pt_regs \<Rightarrow> bool \<Rightarrow> (kst, int \<times> pt_regs) kop" where
  "thd_switch_update thd r issame s = do {
     (preempt, r, s) \<leftarrow>
       (if st_preempted (thds s thd)
        then do {
          kassert (\<not> st_rcving (thds s thd));
          Some (1, r, upd_thd thd (\<lambda>th. th\<lparr>st_preempted := False\<rparr>) s)
        }
        else if st_rcving (thds s thd)
        then do {
          kassert (\<not> st_preempted (thds s thd));
          let s = upd_thd thd (\<lambda>th. th\<lparr>st_rcving := False\<rparr>) s;
          (r, s) \<leftarrow> thd_rcvcap_pending_deliver thd r s;
          Some (0, r, s)
        }
        else Some (0, r, s));
     Some ((preempt, if issame \<and> preempt = 0 then userregs_set 0 (userregs_getsp r) (userregs_getip r) r else r), s)
   }"

definition THD_GET_TID :: u32 where "THD_GET_TID = 0"

definition thd_introspect :: "kst \<Rightarrow> addr \<Rightarrow> u32 \<Rightarrow> int \<times> u32" where
  "thd_introspect s t op = (if op = THD_GET_TID then (0, ucast (tid (thds s t))) else (- EINVAL, 0))"

section \<open>The invocation stack\<close>

lemma upd_invstk_some:
  "i < THD_INVSTK_MAXSZ \<Longrightarrow>
     upd_invstk thd i f s = Some (upd_thd thd (\<lambda>th. th\<lparr>invstk := (invstk th)(i := f (invstk th i))\<rparr>) s)"
  by (simp add: upd_invstk_def)

text \<open>The thread after a push at position \<open>n\<close>.\<close>

definition pushed :: "nat \<Rightarrow> comp_info \<Rightarrow> u32 \<Rightarrow> u32 \<Rightarrow> thread \<Rightarrow> thread" where
  "pushed n ci ip sp th = th\<lparr>invstk := (invstk th)(n := (invstk th n)\<lparr>is_ip := ip, is_sp := sp\<rparr>,
     n + 1 := (invstk th (n + 1))\<lparr>is_comp_info := ci, is_sp := 0, is_ip := 0\<rparr>)\<rparr>"

lemma invstk_push_eq:
  "thd_invstk_push c thd ci ip sp s =
     (if invstk_top (cli s c) \<ge> 32 then Some (- 1, s)
      else if invstk_top (cli s c) = 31 then None
      else Some (0, upd_thd thd (pushed (invstk_top (cli s c)) ci ip sp) (curr_invstk_inc c s)))"
proof -
  have "n + 1 < 32" if "n < 32" "n \<noteq> 31" for n :: nat using that by simp
  moreover have "upd_invstk thd 32 f t = None" for f t by (simp add: upd_invstk_def)
  ultimately show ?thesis
    by (auto simp: thd_invstk_push_def curr_invstk_top_def Let_def upd_invstk_some upd_defs pushed_def not_le)
qed

lemma invstk_pop_eq:
  "thd_invstk_pop c thd s =
     (let n = invstk_top (cli s c) - 1; e = invstk (thds s thd) n
      in if invstk_top (cli s c) = 0 then Some (None, s)
         else if n < 32 then Some (Some (is_comp_info e, is_ip e, is_sp e), curr_invstk_dec c s) else None)"
  by (auto simp: thd_invstk_pop_def thd_invstk_current_def invstk_entry_def curr_invstk_top_def curr_invstk_dec_def
      upd_defs Let_def)

section \<open>Event queues\<close>

text \<open>
  The event queue of the end-point \<open>q\<close> holds the threads \<open>xs\<close>; the threads of \<open>D\<close> notify no other
  end-point, so those that are not in the queue are in no list.
\<close>

definition evts :: "addr \<Rightarrow> addr set \<Rightarrow> kst \<Rightarrow> addr list \<Rightarrow> bool" where
  "evts q D s xs \<longleftrightarrow> klist (lst s) (LEvtHead q) (map LEvt xs) \<and> set xs \<subseteq> D \<and> q \<notin> set xs \<and> 0 \<notin> D \<and>
     (\<forall>t\<in>D. container (lst s (LEvt t)) = t \<and> (t \<notin> set xs \<longrightarrow> detached (lst s) (LEvt t)))"

definition evt_accept :: "addr \<Rightarrow> addr \<Rightarrow> addr list \<Rightarrow> bool" where
  "evt_accept q t xs \<longleftrightarrow> t \<noteq> q \<and> t \<notin> set xs"

definition evt_deq :: "addr \<Rightarrow> kst \<Rightarrow> addr option \<times> kst" where
  "evt_deq q s = (let (e, s) = thd_rcvcap_evt_dequeue q s in (if e = 0 then None else Some e, s))"

lemma evt_enqueue_accept:
  assumes "evts q D s xs" "t \<in> D" "evt_accept q t xs"
  shows "evts q D (thd_rcvcap_evt_enqueue q t s) (xs @ [t])"
proof -
  have k: "klist (lst s) (LEvtHead q) (map LEvt xs)" and t: "t \<noteq> q" "t \<notin> set xs"
    using assms by (auto simp: evts_def evt_accept_def)
  have det: "detached (lst s) (LEvt t)" "container (lst s (LEvt t)) = t" "t \<noteq> 0"
    using assms t by (auto simp: evts_def)
  have eq: "thd_rcvcap_evt_enqueue q t s = s\<lparr>lst := list_enqueue (LEvtHead q) (LEvt t) (lst s)\<rparr>"
    using det t by (simp add: thd_rcvcap_evt_enqueue_def upd_lst_def list_empty_def detached_def)
  have new: "LEvt t \<notin> set (LEvtHead q # map LEvt xs)" using t by auto
  have "klist (list_enqueue (LEvtHead q) (LEvt t) (lst s)) (LEvtHead q) (map LEvt xs @ [LEvt t])"
    by (rule list_enqueue_klist [OF k new]) (use det in simp)
  moreover have "list_enqueue (LEvtHead q) (LEvt t) (lst s) (LEvt u) = lst s (LEvt u)" if "u \<notin> set xs" "u \<noteq> t" for u
    by (rule list_enqueue_frame [OF k]) (use that in auto)
  moreover have "container (list_enqueue (LEvtHead q) (LEvt t) (lst s) (LEvt u)) = container (lst s (LEvt u))" for u
    by (simp add: list_enqueue_def)
  ultimately show ?thesis
    unfolding eq using assms t det by (auto simp: evts_def detached_def)
qed

lemma evt_enqueue_refuse:
  assumes "evts q D s xs" "\<not> evt_accept q t xs"
  shows "thd_rcvcap_evt_enqueue q t s = s"
proof -
  have "\<not> list_empty (lst s) (LEvt t)" if "t \<in> set xs"
    using assms(1) that klist_member [of "lst s" "LEvtHead q" "map LEvt xs" "LEvt t"] by (simp add: evts_def)
  then show ?thesis using assms(2) by (auto simp: thd_rcvcap_evt_enqueue_def evt_accept_def)
qed

lemma evt_dequeue_first:
  assumes "evts q D s (t # xs)"
  shows "\<exists>s'. thd_rcvcap_evt_dequeue q s = (t, s') \<and> evts q D s' xs"
proof -
  have k: "klist (lst s) (LEvtHead q) (LEvt t # map LEvt xs)" and D: "set (t # xs) \<subseteq> D"
    and cont: "\<forall>u\<in>D. container (lst s (LEvt u)) = u" and det: "\<forall>u\<in>D. u \<notin> set (t # xs) \<longrightarrow> detached (lst s) (LEvt u)"
    using assms by (auto simp: evts_def)
  obtain h where h: "list_dequeue (LEvtHead q) (lst s) = (t, h)" "klist h (LEvtHead q) (map LEvt xs)" "detached h (LEvt t)"
    using list_dequeue_klist [OF k] cont D by auto
  have hrem: "h = list_rem (LEvt t) (lst s)"
    using h(1) klist_nonempty [OF k] by (simp add: list_dequeue_def Let_def)
  have ends: "ln_next (lst s (LEvt t)) \<in> set (LEvtHead q # map LEvt xs)" "ln_prev (lst s (LEvt t)) = LEvtHead q"
    using k by (cases xs; simp add: klist_def)+
  have "h (LEvt u) = lst s (LEvt u)" if "u \<notin> set (t # xs)" for u
    unfolding hrem by (rule list_rem_frame) (use that ends in auto)
  then have "detached h (LEvt u)" if "u \<in> D" "u \<notin> set xs" for u
    using that h(3) det by (cases "u = t") (auto simp: detached_def)
  moreover have "container (h (LEvt u)) = container (lst s (LEvt u))" for u by (simp add: hrem)
  ultimately have "evts q D (s\<lparr>lst := h\<rparr>) xs"
    using assms h by (auto simp: evts_def)
  then show ?thesis by (simp add: thd_rcvcap_evt_dequeue_def h(1))
qed

lemma evt_dequeue_empty:
  assumes "evts q D s []"
  shows "\<exists>s'. thd_rcvcap_evt_dequeue q s = (0, s') \<and> evts q D s' []"
proof -
  have k: "klist (lst s) (LEvtHead q) []" using assms by (simp add: evts_def)
  then have "list_rem (LEvtHead q) (lst s) x = lst s x" for x
    by (auto simp: klist_def list_rem_def Let_def set_next_def set_prev_def)
  then have "list_rem (LEvtHead q) (lst s) = lst s" by (rule ext)
  moreover have "fst (list_dequeue (LEvtHead q) (lst s)) = 0" using list_dequeue_empty [OF k] by simp
  moreover have "ln_next (lst s (LEvtHead q)) = LEvtHead q" using k by (simp add: klist_def)
  ultimately have "list_dequeue (LEvtHead q) (lst s) = (0, lst s)" by (simp add: list_dequeue_def Let_def)
  then show ?thesis using assms by (simp add: thd_rcvcap_evt_dequeue_def)
qed

interpretation eq: bounded_queue "evts q D" "\<lambda>t. t \<in> D" "evt_accept q" "thd_rcvcap_evt_enqueue q" "evt_deq q"
proof unfold_locales
  fix s xs t
  show "evts q D (thd_rcvcap_evt_enqueue q t s) (xs @ [t])" if "evts q D s xs" "t \<in> D" "evt_accept q t xs"
    using that by (rule evt_enqueue_accept)
  show "evts q D (thd_rcvcap_evt_enqueue q t s) xs" if "evts q D s xs" "t \<in> D" "\<not> evt_accept q t xs"
    using evt_enqueue_refuse [OF that(1,3)] that by simp
  show "fst (evt_deq q s) = None \<and> evts q D (snd (evt_deq q s)) []" if "evts q D s []"
    using evt_dequeue_empty [OF that] by (auto simp: evt_deq_def)
  show "fst (evt_deq q s) = Some t \<and> evts q D (snd (evt_deq q s)) xs" if "evts q D s (t # xs)"
    using evt_dequeue_first [OF that] that by (auto simp: evt_deq_def evts_def)
qed

section \<open>Properties of threads\<close>

text \<open>
  C15. The event queue of an end-point is a queue without duplicates: whatever sequence of notifications
  by the threads \<open>D\<close> and of event receptions the kernel performs, events come out in the order of the
  first pending notification of their thread, a thread that already has an event queued is not queued
  again, and an end-point never queues itself.
\<close>

theorem evt_queue_fifo:
  assumes "evts q D s xs" "\<forall>t. Enq t \<in> set ops \<longrightarrow> t \<in> D"
  shows "fst (qrun (thd_rcvcap_evt_enqueue q) (evt_deq q) ops s) = fst (qspec (evt_accept q) ops xs) \<and>
    evts q D (snd (qrun (thd_rcvcap_evt_enqueue q) (evt_deq q) ops s)) (snd (qspec (evt_accept q) ops xs))"
  using assms by (rule eq.run_correct)

theorem evt_queue_fifo_witness:
  "evts 0x1000 {0x2000, 0x3000} (idle_kst ex_kmem) [] \<and>
   fst (qrun (thd_rcvcap_evt_enqueue 0x1000) (evt_deq 0x1000)
     [Enq 0x2000, Enq 0x3000, Enq 0x2000, Deq, Deq, Deq] (idle_kst ex_kmem)) = [Some 0x2000, Some 0x3000, None]"
proof -
  have "evts 0x1000 {0x2000, 0x3000} (idle_kst ex_kmem) []"
    by (simp add: evts_def klist_def detached_def idle_node_def)
  with evt_queue_fifo [OF this, of "[Enq 0x2000, Enq 0x3000, Enq 0x2000, Deq, Deq, Deq]"]
  show ?thesis by (simp add: evt_accept_def)
qed

text \<open>
  C34. The bound of the invocation stack is off by one: a push at the last position of the array, which
  the test admits, writes beyond the array; it succeeds below that position, and only above it is the
  overflow reported.
\<close>

theorem invstk_push_bounds:
  "(thd_invstk_push c thd ci ip sp s = None \<longleftrightarrow> invstk_top (cli s c) = THD_INVSTK_MAXSZ - 1) \<and>
   ((\<exists>s'. thd_invstk_push c thd ci ip sp s = Some (0, s')) \<longleftrightarrow> invstk_top (cli s c) < THD_INVSTK_MAXSZ - 1) \<and>
   (thd_invstk_push c thd ci ip sp s = Some (- 1, s) \<longleftrightarrow> invstk_top (cli s c) \<ge> THD_INVSTK_MAXSZ)"
  by (auto simp: invstk_push_eq)

end
