(* ===== verification/Tcap.thy ===== *)
theory Tcap
  imports Thread
begin

text \<open>
  Temporal capabilities, \<^verbatim>\<open>tcap.h\<close> and \<^verbatim>\<open>tcap.c\<close>: the budget of cycles a tcap holds, its transfer and
  consumption, the delegation chains that carry a priority for every scheduler involved, the list of
  active tcaps of a core, and the programming of the one-shot timer.
\<close>

section \<open>Time and budgets\<close>

definition TCAP_RES_INF :: u32 where "TCAP_RES_INF = - 1"
definition TCAP_RES_MAX :: u32 where "TCAP_RES_MAX = TCAP_RES_INF - 1"
definition TCAP_RES_IS_INF :: "u32 \<Rightarrow> bool" where "TCAP_RES_IS_INF r \<longleftrightarrow> r = TCAP_RES_INF"
definition TCAP_TIMER_DIFF :: u64 where "TCAP_TIMER_DIFF = push_bit 9 1"
definition TCAP_TIME_QUANTUM_ORD :: nat where "TCAP_TIME_QUANTUM_ORD = 12"
definition TCAP_TIME_MAX_ORD :: nat where "TCAP_TIME_MAX_ORD = TCAP_TIME_QUANTUM_ORD + 32"
definition TCAP_TIME_MAX_BITS :: "u64 \<Rightarrow> u64" where
  "TCAP_TIME_MAX_BITS c = push_bit TCAP_TIME_MAX_ORD (drop_bit TCAP_TIME_MAX_ORD c)"
definition TCAP_TIME_NIL :: u32 where "TCAP_TIME_NIL = 0"

definition tcap_time2cyc :: "u32 \<Rightarrow> u64 \<Rightarrow> u64" where
  "tcap_time2cyc c cur = push_bit TCAP_TIME_QUANTUM_ORD (ucast c) OR TCAP_TIME_MAX_BITS cur"

definition tcap_cyc2time :: "u64 \<Rightarrow> u32" where
  "tcap_cyc2time c = (let t = ucast (drop_bit TCAP_TIME_QUANTUM_ORD c) in if t = TCAP_TIME_NIL then 1 else t)"

definition cycles_same :: "u64 \<Rightarrow> u64 \<Rightarrow> u64 \<Rightarrow> bool" where
  "cycles_same a b diff_thresh \<longleftrightarrow> (if b < a then a - b else b - a) \<le> diff_thresh"

definition tcap_time_lessthan :: "u32 \<Rightarrow> u32 \<Rightarrow> bool" where
  "tcap_time_lessthan a b \<longleftrightarrow> a < b"

section \<open>Accessors and the active list\<close>

definition tcap_sched_info :: "tcap \<Rightarrow> tcap_sched_info" where
  "tcap_sched_info t = delegations t (curr_sched_off t)"

definition set_sched_prio :: "u64 \<Rightarrow> tcap \<Rightarrow> tcap" where
  "set_sched_prio p t = t\<lparr>delegations := (delegations t)(curr_sched_off t := (tcap_sched_info t)\<lparr>prio := p\<rparr>)\<rparr>"

definition tcap_ref_take :: "addr \<Rightarrow> kst \<Rightarrow> kst" where
  "tcap_ref_take t = upd_tcap t (\<lambda>c. c\<lparr>tc_refcnt := tc_refcnt c + 1\<rparr>)"

definition tcap_ref_release :: "addr \<Rightarrow> kst \<Rightarrow> kst" where
  "tcap_ref_release t = upd_tcap t (\<lambda>c. c\<lparr>tc_refcnt := tc_refcnt c - 1\<rparr>)"

definition tcap_ref :: "kst \<Rightarrow> addr \<Rightarrow> u32" where
  "tcap_ref s t = tc_refcnt (tcaps s t)"

definition tcap_rcvcap_thd :: "kst \<Rightarrow> addr \<Rightarrow> addr" where
  "tcap_rcvcap_thd s t = arcv_ep (tcaps s t)"

definition tcap_is_active :: "kst \<Rightarrow> addr \<Rightarrow> bool" where
  "tcap_is_active s t \<longleftrightarrow> \<not> list_empty (lst s) (LActive t)"

definition tcap_active_add_before :: "addr \<Rightarrow> addr \<Rightarrow> kst \<Rightarrow> kst" where
  "tcap_active_add_before existing t = upd_lst (list_add_before (LActive existing) (LActive t))"

definition tcap_active_add_after :: "addr \<Rightarrow> addr \<Rightarrow> kst \<Rightarrow> kst" where
  "tcap_active_add_after existing t = upd_lst (list_add_after (LActive existing) (LActive t))"

definition tcap_active_next :: "kst \<Rightarrow> cpuid \<Rightarrow> addr" where
  "tcap_active_next s c = list_first (lst s) (LTcaps c)"

definition tcap_active_rem :: "addr \<Rightarrow> kst \<Rightarrow> kst" where
  "tcap_active_rem t = upd_lst (list_rem (LActive t))"

definition tcap_active_init :: "cpuid \<Rightarrow> kst \<Rightarrow> kst" where
  "tcap_active_init c = upd_lst (list_head_init (LTcaps c))"

definition tcap_cycles_same :: "kst \<Rightarrow> u64 \<Rightarrow> u64 \<Rightarrow> bool" where
  "tcap_cycles_same s a b = cycles_same a b (ucast (cyc_thresh s))"

definition tcap_left :: "kst \<Rightarrow> addr \<Rightarrow> u32" where
  "tcap_left s t = budget (tcaps s t)"

definition tcap_expended :: "kst \<Rightarrow> addr \<Rightarrow> bool" where
  "tcap_expended s t \<longleftrightarrow> tcap_left s t = 0"

section \<open>Consuming budget\<close>

text \<open>When the budget is gone only the tcap's own scheduler entry stays: the time is declassified.\<close>

definition tcap_declassify :: "tcap \<Rightarrow> tcap" where
  "tcap_declassify t =
     (let t = t\<lparr>ndelegs := 1\<rparr>
      in if curr_sched_off t \<noteq> 0
         then t\<lparr>curr_sched_off := 0, delegations := (delegations t)(0 := tcap_sched_info t)\<rparr> else t)"

definition tcap_consume :: "addr \<Rightarrow> u32 \<Rightarrow> (kst, u32) kop" where
  "tcap_consume t cycles s = do {
     kassert (t \<noteq> 0);
     if TCAP_RES_IS_INF (budget (tcaps s t)) then Some (0, s)
     else do {
       let s = (if cycles \<ge> budget (tcaps s t) \<or> tcap_cycles_same s (ucast cycles) (ucast (budget (tcaps s t)))
                then upd_tcap t tcap_declassify (tcap_active_rem t (upd_tcap t (\<lambda>c. c\<lparr>budget := 0\<rparr>) s))
                else upd_tcap t (\<lambda>c. c\<lparr>budget := budget c - cycles\<rparr>) s);
       Some (budget (tcaps s t), s)
     }
   }"

definition tcap_setprio :: "addr \<Rightarrow> u64 \<Rightarrow> kst \<Rightarrow> kst option" where
  "tcap_setprio t p s = do { kassert (t \<noteq> 0); Some (upd_tcap t (set_sched_prio p) s) }"

definition tcap_current :: "kst \<Rightarrow> cpuid \<Rightarrow> addr" where
  "tcap_current s c = curr_tcap (cli s c)"

definition tcap_current_set :: "cpuid \<Rightarrow> addr \<Rightarrow> kst \<Rightarrow> kst option" where
  "tcap_current_set c t s = do {
     let cur = tcap_current s c;
     s \<leftarrow> (if perm_prio (tcaps s cur) \<noteq> prio (tcap_sched_info (tcaps s cur))
           then tcap_setprio cur (perm_prio (tcaps s cur)) s else Some s);
     Some (upd_cli c (\<lambda>i. i\<lparr>curr_tcap := t\<rparr>) s)
   }"

definition thd_exec_add :: "addr \<Rightarrow> u64 \<Rightarrow> kst \<Rightarrow> kst" where
  "thd_exec_add t cycles = upd_thd t (\<lambda>th. th\<lparr>exec := ucast (ucast (exec th) + cycles)\<rparr>)"

text \<open>\<^verbatim>\<open>tcap_budgets_update\<close>: whether the current tcap is expended, and \<^verbatim>\<open>*now\<close>.\<close>

definition tcap_budgets_update :: "kenv \<Rightarrow> addr \<Rightarrow> (kst, bool \<times> u64) kop" where
  "tcap_budgets_update E t s = do {
     let c = ke_cpu E;
     let cur = tcap_current s c;
     let cycles = ke_tsc E 0;
     let expended = cycles - cli_cycles (cli s c);
     let s = upd_cli c (\<lambda>i. i\<lparr>cli_cycles := cycles\<rparr>) s;
     let s = thd_exec_add t expended s;
     (_, s) \<leftarrow> tcap_consume cur (ucast expended) s;
     Some ((tcap_expended s cur, cycles), s)
   }"

definition tcap_timer_update :: "cpuid \<Rightarrow> addr \<Rightarrow> u32 \<Rightarrow> u64 \<Rightarrow> kst \<Rightarrow> kst option" where
  "tcap_timer_update c next_tc tmo now s =
     (let left = tcap_left s next_tc
      in if tmo = TCAP_TIME_NIL \<and> TCAP_RES_IS_INF left
         then Some (upd_cli c (\<lambda>i. i\<lparr>next_timer := 0, timer_deadline := None\<rparr>) s)
         else do {
           let timer = now + ucast left;
           let timeout_cyc = tcap_time2cyc tmo now;
           let timer = (if tmo \<noteq> TCAP_TIME_NIL \<and> timeout_cyc < timer
                        then if tcap_time_lessthan tmo (tcap_cyc2time now) then now else timeout_cyc
                        else timer);
           let timer = (if cycles_same now timer TCAP_TIMER_DIFF then now + TCAP_TIMER_DIFF else timer);
           if cycles_same (next_timer (cli s c)) timer TCAP_TIMER_DIFF \<and> next_timer (cli s c) \<noteq> 0 then Some s
           else do {
             kassert (timer \<noteq> 0);
             Some (upd_cli c (\<lambda>i. i\<lparr>next_timer := timer, timer_deadline := Some timer\<rparr>) s)
           }
         })"

section \<open>Priorities\<close>

text \<open>The loop of \<^verbatim>\<open>tcap_higher_prio\<close> over the delegations \<open>A\<close> and \<open>C\<close>.\<close>

function higher_prio_loop :: "tcap \<Rightarrow> tcap \<Rightarrow> nat \<Rightarrow> nat \<Rightarrow> bool" where
  "higher_prio_loop A C i j =
     (if i < ndelegs A \<and> j < ndelegs C
      then if tcap_uid (delegations A i) > tcap_uid (delegations C j) then higher_prio_loop A C i (j + 1)
           else if tcap_uid (delegations A i) < tcap_uid (delegations C j) then higher_prio_loop A C (i + 1) j
           else if prio (delegations A i) > prio (delegations C j) then False
           else higher_prio_loop A C (i + 1) (j + 1)
      else True)"
  by auto
termination by (relation "measure (\<lambda>(A, C, i, j). (ndelegs A - i) + (ndelegs C - j))") auto

declare higher_prio_loop.simps [simp del]

definition tcap_higher_prio :: "kst \<Rightarrow> addr \<Rightarrow> addr \<Rightarrow> bool" where
  "tcap_higher_prio s a c =
     (if tcap_expended s a then False
      else if a = c then True
      else higher_prio_loop (tcaps s a) (tcaps s c) 0 0)"

definition TCAP_GET_BUDGET :: u32 where "TCAP_GET_BUDGET = 0"

definition tcap_introspect :: "kst \<Rightarrow> addr \<Rightarrow> u32 \<Rightarrow> int \<times> u32" where
  "tcap_introspect s t op = (if op = TCAP_GET_BUDGET then (0, budget (tcaps s t)) else (- EINVAL, 0))"

section \<open>Initialisation, transfer and delegation\<close>

definition tcap_init :: "cpuid \<Rightarrow> addr \<Rightarrow> kst \<Rightarrow> kst" where
  "tcap_init c t s =
     (let uid = cli_tcap_uid (cli s c);
          s = upd_tcap t (\<lambda>tc. tc\<lparr>arcv_ep := 0, tc_refcnt := 1, budget := 0, ndelegs := 1, curr_sched_off := 0,
                tc_cpuid := c, perm_prio := 0, delegations := (delegations tc)(0 := \<lparr>tcap_uid = uid, prio = 0\<rparr>)\<rparr>) s;
          s = upd_cli c (\<lambda>i. i\<lparr>cli_tcap_uid := uid + 1\<rparr>) s
      in upd_lst (list_init (LActive t) t) s)"

definition tcap_isactive :: "kst \<Rightarrow> addr \<Rightarrow> bool" where
  "tcap_isactive s t \<longleftrightarrow> arcv_ep (tcaps s t) \<noteq> 0"

definition tcap_delete :: "cpuid \<Rightarrow> addr \<Rightarrow> (kst, int) kop" where
  "tcap_delete c t s = do {
     kassert (t \<noteq> 0);
     if tcap_ref s t \<noteq> 1 then Some (- 1, s)
     else do {
       let s = upd_tcap t (\<lambda>tc. tc\<lparr>budget := 0, ndelegs := 0, curr_sched_off := 0, tc_cpuid := 0, perm_prio := 0,
                 delegations := (\<lambda>i. if i < TCAP_MAX_DELEGATIONS then \<lparr>tcap_uid = 0, prio = 0\<rparr> else delegations tc i)\<rparr>) s;
       let s = (if nt_tc (next_ti (cli s c)) = t then thd_next_thdinfo_update c 0 0 0 0 s else s);
       Some (0, s)
     }
   }"

text \<open>
  \<^verbatim>\<open>__tcap_budget_xfer\<close>: the move of the cycles, the block at \<^verbatim>\<open>done\<close> that updates the active list, and the
  function with its checks.
\<close>

definition tcap_xfer_cycles :: "addr \<Rightarrow> addr \<Rightarrow> u32 \<Rightarrow> kst \<Rightarrow> kst" where
  "tcap_xfer_cycles d src cycles s =
     (if TCAP_RES_IS_INF cycles then upd_tcap d (\<lambda>tc. tc\<lparr>budget := TCAP_RES_INF\<rparr>) s
      else let
        cycles = (if cycles > budget (tcaps s src) then budget (tcaps s src) else cycles);
        s = (if \<not> TCAP_RES_IS_INF (budget (tcaps s d))
             then let bd_cycs = budget (tcaps s d) + cycles
                  in upd_tcap d (\<lambda>tc. tc\<lparr>budget :=
                       (if bd_cycs < budget (tcaps s d) \<or> TCAP_RES_IS_INF bd_cycs then TCAP_RES_MAX
                        else bd_cycs)\<rparr>) s
             else s)
      in if \<not> TCAP_RES_IS_INF (budget (tcaps s src))
         then upd_tcap src (\<lambda>tc. tc\<lparr>budget := budget tc - cycles\<rparr>) s else s)"

definition tcap_xfer_done :: "addr \<Rightarrow> addr \<Rightarrow> kst \<Rightarrow> kst" where
  "tcap_xfer_done d src s =
     (let s = (if \<not> tcap_is_active s d then tcap_active_add_before src d s else s)
      in if tcap_expended s src then tcap_active_rem src s else s)"

definition tcap_budget_xfer :: "cpuid \<Rightarrow> addr \<Rightarrow> addr \<Rightarrow> u32 \<Rightarrow> (kst, int) kop" where
  "tcap_budget_xfer c d src cycles s = do {
     kassert (src \<noteq> 0 \<and> d \<noteq> 0);
     kassert (tcap_is_active s src);
     if tc_cpuid (tcaps s src) \<noteq> c \<or> tc_cpuid (tcaps s d) \<noteq> tc_cpuid (tcaps s src) then Some (- 1, s)
     else do {
       let cycles = (if cycles = 0 then budget (tcaps s src) else cycles);
       if TCAP_RES_IS_INF cycles \<and> \<not> TCAP_RES_IS_INF (budget (tcaps s src)) then Some (- 1, s)
       else Some (0, tcap_xfer_done d src (tcap_xfer_cycles d src cycles s))
     }
   }"

definition tcap_promote :: "addr \<Rightarrow> addr \<Rightarrow> kst \<Rightarrow> kst" where
  "tcap_promote t thd s = (if tcap_isactive s t then s else upd_tcap t (\<lambda>tc. tc\<lparr>arcv_ep := thd\<rparr>) s)"

text \<open>
  The loop of \<^verbatim>\<open>tcap_delegate\<close> that merges the delegations of \<open>D\<close> and \<open>S\<close> into \<^verbatim>\<open>deleg_tmp\<close>.  The entry
  \<^verbatim>\<open>n\<close> taken from one of the arrays is a pointer into it, so the priority set for the source's scheduler
  \<open>suid\<close> is written into that array.  The results are the return value of the function when it returns
  from inside the loop, the two tcaps, \<^verbatim>\<open>deleg_tmp\<close> and \<^verbatim>\<open>si\<close>.  The indices never pass the lengths, so
  that \<^verbatim>\<open>==\<close> and \<open>\<le>\<close> agree in the tests.
\<close>

definition deleg_pick :: "u64 \<Rightarrow> u64 \<Rightarrow> tcap_sched_info \<Rightarrow> tcap_sched_info" where
  "deleg_pick suid p n = (if tcap_uid n = suid then n\<lparr>prio := p\<rparr> else n)"

definition set_deleg :: "nat \<Rightarrow> tcap_sched_info \<Rightarrow> tcap \<Rightarrow> tcap" where
  "set_deleg i n t = t\<lparr>delegations := (delegations t)(i := n)\<rparr>"

lemma set_deleg_sel [simp]:
  "ndelegs (set_deleg i n t) = ndelegs t" "delegations (set_deleg i n t) = (delegations t)(i := n)"
  by (simp_all add: set_deleg_def)

definition deleg_step :: "u64 \<Rightarrow> u64 \<Rightarrow> tcap \<Rightarrow> tcap \<Rightarrow> nat \<Rightarrow> nat \<Rightarrow> tcap_sched_info \<times> tcap \<times> tcap \<times> nat \<times> nat" where
  "deleg_step suid p D S i j =
     (if ndelegs D \<le> i
      then let n = deleg_pick suid p (delegations S j) in (n, D, set_deleg j n S, i, j + 1)
      else if ndelegs S \<le> j \<or> tcap_uid (delegations D i) < tcap_uid (delegations S j)
      then let n = deleg_pick suid p (delegations D i) in (n, set_deleg i n D, S, i + 1, j)
      else if tcap_uid (delegations D i) > tcap_uid (delegations S j)
      then let n = deleg_pick suid p (delegations S j) in (n, D, set_deleg j n S, i, j + 1)
      else let t = delegations S j;
               t = (if prio (delegations D i) > prio t then t\<lparr>prio := prio (delegations D i)\<rparr> else t)
           in (deleg_pick suid p t, D, S, i + 1, j + 1))"

function deleg_loop ::
    "u64 \<Rightarrow> u64 \<Rightarrow> u64 \<Rightarrow> tcap \<Rightarrow> tcap \<Rightarrow> nat \<Rightarrow> nat \<Rightarrow> tcap_sched_info list \<Rightarrow> nat option \<Rightarrow>
     int \<times> tcap \<times> tcap \<times> tcap_sched_info list \<times> nat option" where
  "deleg_loop duid suid p D S i j tmp si =
     (if i < ndelegs D \<or> j < ndelegs S
      then let (n, D, S, i, j) = deleg_step suid p D S i j
           in if length tmp = TCAP_MAX_DELEGATIONS then (- ENOMEM, D, S, tmp, si)
              else deleg_loop duid suid p D S i j (tmp @ [n]) (if duid = tcap_uid n then Some (length tmp) else si)
      else (0, D, S, tmp, si))"
  by auto
termination
  by (relation "measure (\<lambda>(d, s, p, D, S, i, j, tmp, si). (ndelegs D - i) + (ndelegs S - j))")
    (auto simp: Let_def deleg_step_def split: if_splits)

declare deleg_loop.simps [simp del]

definition tcap_delegate :: "cpuid \<Rightarrow> addr \<Rightarrow> addr \<Rightarrow> u32 \<Rightarrow> u64 \<Rightarrow> (kst, int) kop" where
  "tcap_delegate c dst src cycles p s = do {
     kassert (dst \<noteq> 0 \<and> src \<noteq> 0);
     kassert (tcap_isactive s dst);
     if ndelegs (tcaps s dst) > TCAP_MAX_DELEGATIONS then Some (- ENOMEM, s)
     else if tc_cpuid (tcaps s src) \<noteq> c \<or> tc_cpuid (tcaps s dst) \<noteq> tc_cpuid (tcaps s src) then Some (- EINVAL, s)
     else if \<not> tcap_is_active s src then Some (- EPERM, s)
     else do {
       let duid = tcap_uid (tcap_sched_info (tcaps s dst));
       let suid = tcap_uid (tcap_sched_info (tcaps s src));
       if dst = src then Some (0, upd_tcap dst (\<lambda>tc. (set_sched_prio p tc)\<lparr>perm_prio := p\<rparr>) s)
       else do {
         let p = (if p = 0 then prio (tcap_sched_info (tcaps s src)) else p);
         let (r, D, S, tmp, si) = deleg_loop duid suid p (tcaps s dst) (tcaps s src) 0 0 [] None;
         let s = s\<lparr>tcaps := (tcaps s)(dst := D, src := S)\<rparr>;
         if r \<noteq> 0 then Some (r, s)
         else do {
           (r, s) \<leftarrow> tcap_budget_xfer c dst src cycles s;
           if r \<noteq> 0 then Some (- EINVAL, s)
           else do {
             let s = upd_tcap dst (\<lambda>tc. tc\<lparr>delegations := (\<lambda>i. if i < length tmp then tmp ! i else delegations tc i)\<rparr>) s;
             kassert (length tmp \<ge> 2);
             let s = upd_tcap dst (\<lambda>tc. tc\<lparr>ndelegs := length tmp\<rparr>) s;
             off \<leftarrow> si;
             let s = upd_tcap dst (\<lambda>tc. tc\<lparr>curr_sched_off := off, perm_prio := p\<rparr>) s;
             Some (0, upd_tcap dst (set_sched_prio p) s)
           }
         }
       }
     }
   }"

text \<open>\<^verbatim>\<open>tcap_ref\<close> returns an \<^verbatim>\<open>int\<close>: the comparison with 1 is signed.\<close>

definition tcap_merge :: "cpuid \<Rightarrow> addr \<Rightarrow> addr \<Rightarrow> (kst, int) kop" where
  "tcap_merge c dst rm s =
     (if dst = rm then Some (- 1, s)
      else if 1 <s tcap_ref s rm then Some (- 1, s)
      else do {
        (r, s) \<leftarrow> tcap_delegate c dst rm 0 (prio (tcap_sched_info (tcaps s dst))) s;
        if r \<noteq> 0 then Some (- 1, s)
        else do {
          (r, s) \<leftarrow> tcap_delete c rm s;
          kassert (r = 0);
          Some (0, s)
        }
      })"

definition tcap_wakeup :: "cpuid \<Rightarrow> addr \<Rightarrow> u64 \<Rightarrow> u32 \<Rightarrow> addr \<Rightarrow> (kst, int) kop" where
  "tcap_wakeup c tc p b thd s = do {
     let nti = next_ti (cli s c);
     let tmpprio = prio (tcap_sched_info (tcaps s tc));
     let fixup = Some (0, thd_next_thdinfo_update c thd tc p b s);
     if nt_tc nti = 0 then do { kassert (nt_thd nti = 0); fixup }
     else if tc = nt_tc nti \<and> p \<ge> nt_prio nti then fixup
     else do {
       s \<leftarrow> tcap_setprio tc p s;
       let ret = tcap_higher_prio s tc (nt_tc nti);
       s \<leftarrow> tcap_setprio tc tmpprio s;
       Some (0, if ret then thd_next_thdinfo_update c thd tc p b s else s)
     }
   }"

end
