(* ===== verification/Cap_Ops.thy ===== *)
theory Cap_Ops
  imports Tcap
begin

text \<open>
  Operations on capabilities and on the kernel memory behind them: \<^verbatim>\<open>cap_ops.h\<close>, the activation and
  deactivation of tables (\<^verbatim>\<open>captbl.c\<close>, \<^verbatim>\<open>pgtbl.c\<close>), and the release, copy and move operations of
  \<^verbatim>\<open>capinv.c\<close>.  \<^verbatim>\<open>ke_tsc E 0\<close> is the first time stamp such an operation reads; a composition of
  operations continues with \<open>later n E\<close>.
\<close>

section \<open>Activation and deactivation of a slot\<close>

definition CAP_TYPECHK :: "'z kmem_scheme \<Rightarrow> addr \<Rightarrow> cap_t \<Rightarrow> bool" where
  "CAP_TYPECHK s v t \<longleftrightarrow> v \<noteq> 0 \<and> h_type (hdr s v) = t"

definition is_frozen :: "'z kmem_scheme \<Rightarrow> addr \<Rightarrow> bool" where
  "is_frozen s c \<longleftrightarrow> refcnt_flags (tbls s c) AND CAP_MEM_FROZEN_FLAG \<noteq> 0"

text \<open>\<^verbatim>\<open>__cap_capactivate_pre\<close>: the slot, or null, and \<^verbatim>\<open>*retval\<close>.\<close>

definition cap_capactivate_pre ::
  "kenv \<Rightarrow> addr \<Rightarrow> capid \<Rightarrow> capid \<Rightarrow> cap_t \<Rightarrow> ('z kmem_scheme, addr \<times> int) kop" where
  "cap_capactivate_pre E t cap capin type s = do {
     ct \<leftarrow> captbl_lkup s t cap;
     if \<not> CAP_TYPECHK s ct CAP_CAPTBL then Some ((0, - EINVAL), s)
     else if is_frozen s ct then Some ((0, - EINVAL), s)
     else captbl_add (ke_tsc E 0) (tbl (tbls s ct)) capin type s
   }"

text \<open>\<^verbatim>\<open>__cap_capactivate_post\<close> is a memory fence; the type of the slot was set by \<^verbatim>\<open>captbl_add\<close>.\<close>

definition cap_capactivate_post :: "addr \<Rightarrow> cap_t \<Rightarrow> ('z kmem_scheme, int) kop" where
  "cap_capactivate_post h type s = Some (0, s)"

definition cap_capdeactivate :: "addr \<Rightarrow> capid \<Rightarrow> cap_t \<Rightarrow> u32 \<Rightarrow> ('z kmem_scheme, int) kop" where
  "cap_capdeactivate ct capin type lid s =
     (if ct = 0 then Some (- ENOENT, s)
      else if h_type (hdr s ct) \<noteq> CAP_CAPTBL then Some (- EINVAL, s)
      else captbl_clear (tbl (tbls s ct)) capin type lid s)"

text \<open>\<^verbatim>\<open>cap_kmem_activate\<close>: the return value, \<^verbatim>\<open>*kern_addr\<close> and \<^verbatim>\<open>*pte_ret\<close>.\<close>

definition cap_kmem_activate :: "kenv \<Rightarrow> addr \<Rightarrow> capid \<Rightarrow> u32 \<Rightarrow> ('z kmem_scheme, int \<times> addr \<times> addr) kop" where
  "cap_kmem_activate E t cap a s = do {
     kassert (t \<noteq> 0);
     pgtblc \<leftarrow> captbl_lkup s t cap;
     if pgtblc = 0 then Some ((- ENOENT, 0, 0), s)
     else if h_type (hdr s pgtblc) \<noteq> CAP_PGTBL \<or> tbl_lvl (tbls s pgtblc) \<noteq> 0 then Some ((- EINVAL, 0, 0), s)
     else pgtbl_kmem_act E (tbl (tbls s pgtblc)) (a AND PGTBL_FRAME_MASK) s
   }"

section \<open>Construction of tables from their parts\<close>

text \<open>The branch of \<^verbatim>\<open>cap_cons\<close> for page tables.\<close>

definition pgtbl_cons :: "addr \<Rightarrow> addr \<Rightarrow> u32 \<Rightarrow> ('z kmem_scheme, int) kop" where
  "pgtbl_cons ct ctsub expandid s = do {
     (intern, _) \<leftarrow> pgtbl_lkup_lvl s (tbl (tbls s ct)) expandid 0 (unat (tbl_lvl (tbls s ct))) (unat (tbl_lvl (tbls s ctsub)));
     if intern = 0 then Some (- ENOENT, s)
     else do {
       let old_pte = mem s intern;
       if pgtbl_ispresent old_pte then Some (- EPERM, s)
       else do {
         let old_v = refcnt_flags (tbls s ctsub);
         if old_v AND CAP_MEM_FROZEN_FLAG \<noteq> 0 then Some (- EINVAL, s)
         else if old_v AND CAP_REFCNT_MAX = CAP_REFCNT_MAX then Some (- EOVERFLOW, s)
         else do {
           let (r, s) = refcnt_cas ctsub old_v (old_v + 1) s;
           if r \<noteq> CAS_SUCCESS then Some (- ECASFAIL, s)
           else do {
             let new_pte = chal_va2pa (tbl (tbls s ctsub) AND PGTBL_FRAME_MASK) OR PGTBL_INTERN_DEF;
             let (r, s) = mem_cas intern old_pte new_pte s;
             if r \<noteq> CAS_SUCCESS then Some (- ECASFAIL, refcnt_faa ctsub (- 1) s) else Some (0, s)
           }
         }
       }
     }
   }"

definition cap_cons :: "addr \<Rightarrow> capid \<Rightarrow> capid \<Rightarrow> capid \<Rightarrow> ('z kmem_scheme, int) kop" where
  "cap_cons t capto capsub expandid s =
     (if capto = capsub then Some (- EINVAL, s)
      else do {
        ct \<leftarrow> captbl_lkup s t capto;
        if ct = 0 then Some (- ENOENT, s)
        else do {
          let cap_type = h_type (hdr s ct);
          if cap_type \<noteq> CAP_CAPTBL \<and> cap_type \<noteq> CAP_PGTBL then Some (- EINVAL, s)
          else do {
            ctsub \<leftarrow> captbl_lkup s t capsub;
            if ctsub = 0 then Some (- ENOENT, s)
            else if h_type (hdr s ctsub) \<noteq> cap_type then Some (- EINVAL, s)
            else if tbl_lvl (tbls s ctsub) = 0 then Some (- EINVAL, s)
            else do {
              kassert (tbl (tbls s ct) \<noteq> 0);
              if cap_type = CAP_CAPTBL then captbl_cons ct ctsub expandid s else pgtbl_cons ct ctsub expandid s
            }
          }
        }
      })"

text \<open>The node entry that \<^verbatim>\<open>cap_decons\<close> prunes, in the table \<open>head\<close>; the caller has checked its type.\<close>

definition decons_intern :: "'z kmem_scheme \<Rightarrow> addr \<Rightarrow> u32 \<Rightarrow> u32 \<Rightarrow> addr option" where
  "decons_intern s head pruneid lvl =
     (if h_type (hdr s head) = CAP_CAPTBL
      then captbl_lkup_lvl s (tbl (tbls s head)) pruneid (unat (tbl_lvl (tbls s head))) (unat lvl)
      else map_option fst (pgtbl_lkup_lvl s (tbl (tbls s head)) pruneid 0 (unat (tbl_lvl (tbls s head))) (unat lvl)))"

text \<open>The last step of \<^verbatim>\<open>cap_decons\<close>: the reference of the pruned table.\<close>

definition decons_deref :: "addr \<Rightarrow> 'z kmem_scheme \<Rightarrow> int \<times> 'z kmem_scheme" where
  "decons_deref sub s = (if is_frozen s sub then (- EINVAL, s) else (0, refcnt_faa sub (- 1) s))"

definition cap_decons :: "addr \<Rightarrow> capid \<Rightarrow> capid \<Rightarrow> capid \<Rightarrow> u32 \<Rightarrow> ('z kmem_scheme, int) kop" where
  "cap_decons t cap capsub pruneid lvl s = do {
     head \<leftarrow> captbl_lkup s t cap;
     sub \<leftarrow> captbl_lkup s t capsub;
     if head = 0 \<or> sub = 0 then Some (- ENOENT, s)
     else if h_type (hdr s head) \<noteq> h_type (hdr s sub) then Some (- EPERM, s)
     else if h_type (hdr s head) \<noteq> CAP_CAPTBL \<and> h_type (hdr s head) \<noteq> CAP_PGTBL then Some (- EINVAL, s)
     else if lvl \<le> tbl_lvl (tbls s head) then Some (- EINVAL, s)
     else do {
       intern \<leftarrow> decons_intern s head pruneid lvl;
       if intern = 0 then Some (- ENOENT, s)
       else if mem s intern = 0 then Some (0, s)
       else do {
         let (r, s) = mem_cas intern (mem s intern) 0 s;
         if r \<noteq> CAS_SUCCESS then Some (- ECASFAIL, s)
         else if h_type (hdr s head) = CAP_CAPTBL
         then do {
           intern \<leftarrow> decons_intern s head (pruneid + PAGE_SIZE div 2 div of_nat CAPTBL_LEAFSZ) lvl;
           if intern = 0 then Some (- ENOENT, s)
           else if mem s intern = 0 then Some (0, s)
           else do {
             let (r, s) = mem_cas intern (mem s intern) 0 s;
             if r \<noteq> CAS_SUCCESS then Some (- ECASFAIL, s) else Some (decons_deref sub s)
           }
         }
         else Some (decons_deref sub s)
       }
     }
   }"

section \<open>Freezing, scanning and releasing kernel memory\<close>

definition cap_kmem_freeze :: "kenv \<Rightarrow> addr \<Rightarrow> capid \<Rightarrow> ('z kmem_scheme, int) kop" where
  "cap_kmem_freeze E t target_cap s = do {
     ch \<leftarrow> captbl_lkup s t target_cap;
     if ch = 0 then Some (- EINVAL, s)
     else if h_type (hdr s ch) = CAP_CAPTBL \<or> h_type (hdr s ch) = CAP_PGTBL
     then let l = refcnt_flags (tbls s ch)
          in if l AND CAP_REFCNT_MAX > 1 \<or> l AND CAP_MEM_FROZEN_FLAG \<noteq> 0 then Some (- EINVAL, s)
             else let s = wr_tbl ch ((tbls s ch)\<lparr>frozen_ts := ke_tsc E 0\<rparr>) s;
                      (r, s) = refcnt_cas ch l (l OR CAP_MEM_FROZEN_FLAG) s
                  in Some (if r \<noteq> CAS_SUCCESS then - ECASFAIL else 0, s)
     else Some (- EINVAL, s)
   }"

text \<open>A load of four bytes, possibly across two words of memory.\<close>

definition load32 :: "'z kmem_scheme \<Rightarrow> addr \<Rightarrow> u32" where
  "load32 s a =
     (let b = a AND NOT 3; k = 8 * (unat a mod 4)
      in if k = 0 then mem s b else drop_bit k (mem s b) OR push_bit (32 - k) (mem s (b + 4)))"

text \<open>
  \<^verbatim>\<open>kmem_page_scan\<close>: the pointer it advances is a \<^verbatim>\<open>void *\<close>, so the loop goes through the object by
  single bytes, reading a word at each.
\<close>

fun page_scan_from :: "'z kmem_scheme \<Rightarrow> addr \<Rightarrow> nat \<Rightarrow> int" where
  "page_scan_from s a 0 = 0"
| "page_scan_from s a (Suc n) = (if load32 s a \<noteq> 0 then - EINVAL else page_scan_from s (a + 1) n)"

definition kmem_page_scan :: "'z kmem_scheme \<Rightarrow> addr \<Rightarrow> u32 \<Rightarrow> int" where
  "kmem_page_scan s obj_vaddr sz = page_scan_from s obj_vaddr (unat sz div 4)"

definition kmem_unalloc :: "kenv \<Rightarrow> addr \<Rightarrow> 'z kmem_scheme \<Rightarrow> 'z kmem_scheme option" where
  "kmem_unalloc E pte s = do {
     let old = mem s pte;
     kassert (old AND PGTBL_COSKMEM \<noteq> 0);
     (_, s) \<leftarrow> k_deref E 0 (old AND PGTBL_FRAME_MASK) s;
     Some (wr pte (old AND NOT PGTBL_COSKMEM) s)
   }"

text \<open>
  The two table branches of \<^verbatim>\<open>kmem_deact_pre\<close> are the same up to the scan of the page: the page must be
  the frame's, the table frozen and quiescent; a failed scan thaws the table.
\<close>

definition tbl_quiescent :: "kenv \<Rightarrow> 'z kmem_scheme \<Rightarrow> addr \<Rightarrow> bool" where
  "tbl_quiescent E s c =
     (if tbl_lvl (tbls s c) = 0 then tlb_quiescence_check (ke_cpu E) (tlbq s) (frozen_ts (tbls s c))
      else QUIESCENCE_CHECK (ke_tsc E 0) (frozen_ts (tbls s c)) KERN_QUIESCENCE_CYCLES)"

definition deact_tbl_pre :: "kenv \<Rightarrow> addr \<Rightarrow> u32 \<Rightarrow> ('z kmem_scheme \<Rightarrow> int option) \<Rightarrow> ('z kmem_scheme, int) kop" where
  "deact_tbl_pre E ch pa scan s =
     (let l = refcnt_flags (tbls s ch)
      in if chal_pa2va pa \<noteq> tbl (tbls s ch) then Some (- EINVAL, s)
         else if l AND CAP_MEM_FROZEN_FLAG = 0 then Some (- EQUIESCENCE, s)
         else if \<not> tbl_quiescent E s ch then Some (- EQUIESCENCE, s)
         else do {
           let (r, s) = refcnt_cas ch l (l OR CAP_MEM_SCAN_FLAG) s;
           if r \<noteq> CAS_SUCCESS then Some (- ECASFAIL, s)
           else do {
             ret \<leftarrow> scan s;
             if ret \<noteq> 0
             then Some (ret, snd (refcnt_cas ch (l OR CAP_MEM_SCAN_FLAG)
                                   (l AND NOT (CAP_MEM_FROZEN_FLAG OR CAP_MEM_SCAN_FLAG)) s))
             else Some (0, snd (refcnt_cas ch (l OR CAP_MEM_SCAN_FLAG) l s))
           }
         })"

definition captbl_scan :: "kenv \<Rightarrow> addr \<Rightarrow> 'z kmem_scheme \<Rightarrow> int option" where
  "captbl_scan E ch s =
     (if tbl_lvl (tbls s ch) < of_nat (CAPTBL_DEPTH - 1) then Some (kmem_page_scan s (tbl (tbls s ch)) PAGE_SIZE)
      else captbl_kmem_scan (\<lambda>h i. ke_tsc E (1 + 32 * h + i)) s ch)"

definition pgtbl_scan :: "kenv \<Rightarrow> addr \<Rightarrow> 'z kmem_scheme \<Rightarrow> int option" where
  "pgtbl_scan E ch s =
     (if tbl_lvl (tbls s ch) = 0 then Some (kmem_page_scan s (tbl (tbls s ch)) (PAGE_SIZE - KERNEL_PGD_REGION_SIZE))
      else if tbl_lvl (tbls s ch) = of_nat (PGTBL_DEPTH - 1) then pgtbl_mapping_scan E s ch
      else Some (kmem_page_scan s (tbl (tbls s ch)) PAGE_SIZE))"

text \<open>
  \<^verbatim>\<open>kmem_deact_pre\<close>: the return value, \<^verbatim>\<open>*p_pte\<close> and \<^verbatim>\<open>*v\<close>.  The test of \<^verbatim>\<open>p_pte\<close> after the lookup is always
  true, so a missing page-table entry is dereferenced.
\<close>

definition kmem_deact_pre :: "kenv \<Rightarrow> addr \<Rightarrow> addr \<Rightarrow> capid \<Rightarrow> u32 \<Rightarrow> (kst, int \<times> addr \<times> u32) kop" where
  "kmem_deact_pre E ch ct pgtbl_cap cosframe_addr s = do {
     kassert (ct \<noteq> 0 \<and> ch \<noteq> 0);
     if pgtbl_cap = 0 \<or> cosframe_addr = 0 then Some ((- EINVAL, 0, 0), s)
     else do {
       cap_pt \<leftarrow> captbl_lkup s ct pgtbl_cap;
       if \<not> CAP_TYPECHK s cap_pt CAP_PGTBL then Some ((- EINVAL, 0, 0), s)
       else do {
         (pte, _) \<leftarrow> pgtbl_lkup_pte s (tbl (tbls s cap_pt)) cosframe_addr 0;
         kassert (pte \<noteq> 0);
         let old_v = mem s pte;
         let pa = old_v AND PGTBL_FRAME_MASK;
         if old_v AND PGTBL_COSKMEM = 0 then Some ((- EINVAL, pte, old_v), s)
         else do {
           kassert (old_v AND PGTBL_QUIESCENCE = 0);
           (ret, s) \<leftarrow>
             (if h_type (hdr s ch) = CAP_CAPTBL then deact_tbl_pre E ch pa (captbl_scan E ch) s
              else if h_type (hdr s ch) = CAP_PGTBL then deact_tbl_pre E ch pa (pgtbl_scan E ch) s
              else if chal_pa2va pa \<noteq> ct_t (cthds s ch) then Some (- EINVAL, s)
              else do { kassert (h_type (hdr s ch) = CAP_THD); Some (0, s) });
           Some ((ret, pte, old_v), s)
         }
       }
     }
   }"

definition kmem_deact_post :: "kenv \<Rightarrow> addr \<Rightarrow> u32 \<Rightarrow> (kst, int) kop" where
  "kmem_deact_post E pte old_v s = do {
     let new_v = old_v AND NOT PGTBL_COSKMEM;
     let (r, s) = mem_cas pte old_v new_v s;
     if r \<noteq> CAS_SUCCESS then Some (- ECASFAIL, s)
     else do {
       (ret, s) \<leftarrow> k_deref E 0 (old_v AND PGTBL_FRAME_MASK) s;
       if ret \<noteq> 0 then Some (ret, snd (mem_cas pte new_v old_v s))
       else Some (0, zero_page (chal_pa2va (old_v AND PGTBL_FRAME_MASK)) s)
     }
   }"

section \<open>Tables\<close>

definition captbl_activate :: "kenv \<Rightarrow> addr \<Rightarrow> capid \<Rightarrow> capid \<Rightarrow> addr \<Rightarrow> u32 \<Rightarrow> ('z kmem_scheme, int) kop" where
  "captbl_activate E t cap capin toadd lvl s = do {
     ((ct, ret), s) \<leftarrow> cap_capactivate_pre E t cap capin CAP_CAPTBL s;
     if ct = 0 then Some (ret, s)
     else Some (0, wr_tbl ct ((tbls s ct)\<lparr>refcnt_flags := 1, tbl := toadd, tbl_lvl := lvl, tbl_parent := 0\<rparr>) s)
   }"

definition pgtbl_activate :: "kenv \<Rightarrow> addr \<Rightarrow> capid \<Rightarrow> capid \<Rightarrow> u32 \<Rightarrow> u32 \<Rightarrow> ('z kmem_scheme, int) kop" where
  "pgtbl_activate E t cap capin pgtbl lvl s = do {
     ((pt, ret), s) \<leftarrow> cap_capactivate_pre E t cap capin CAP_PGTBL s;
     if pt = 0 then Some (ret, s)
     else Some (0, wr_tbl pt ((tbls s pt)\<lparr>refcnt_flags := 1, tbl := pgtbl, tbl_lvl := lvl, tbl_parent := 0\<rparr>) s)
   }"

text \<open>The last steps of both deactivations: the page is released, or the parent's count decremented.\<close>

definition tbl_release :: "kenv \<Rightarrow> addr \<Rightarrow> addr \<Rightarrow> addr \<Rightarrow> u32 \<Rightarrow> (kst, int) kop" where
  "tbl_release E deact_cap parent pte old_v s =
     (if parent = 0
      then do {
        (ret, s) \<leftarrow> kmem_deact_post (later 65 E) pte old_v s;
        Some (if ret \<noteq> 0 then (ret, refcnt_faa deact_cap 1 s) else (0, s))
      }
      else Some (0, refcnt_faa parent (- 1) s))"

definition captbl_deactivate :: "kenv \<Rightarrow> addr \<Rightarrow> addr \<Rightarrow> capid \<Rightarrow> u32 \<Rightarrow> capid \<Rightarrow> u32 \<Rightarrow> bool \<Rightarrow> (kst, int) kop" where
  "captbl_deactivate E t dest_ct_cap capin lid pgtbl_cap cosframe_addr root s = do {
     deact_cap \<leftarrow> captbl_lkup s (tbl (tbls s dest_ct_cap)) capin;
     if \<not> CAP_TYPECHK s deact_cap CAP_CAPTBL then Some (- EINVAL, s)
     else do {
       let l = refcnt_flags (tbls s deact_cap);
       let parent = tbl_parent (tbls s deact_cap);
       if l AND CAP_REFCNT_MAX = 0 then Some (- EFAULT, s)
       else if l AND CAP_REFCNT_MAX \<noteq> 1 then Some (- EINVAL, s)
       else if (parent = 0) \<noteq> root then Some (- EINVAL, s)
       else do {
         ((ret, pte, old_v), s) \<leftarrow>
           (if parent = 0 then kmem_deact_pre E deact_cap t pgtbl_cap cosframe_addr s
            else do { kassert (pgtbl_cap = 0 \<and> cosframe_addr = 0); Some ((0, 0, 0), s) });
         if ret \<noteq> 0 then Some (ret, s)
         else do {
           (ret, s) \<leftarrow> cap_capdeactivate dest_ct_cap capin CAP_CAPTBL lid s;
           if ret \<noteq> 0 then Some (ret, s)
           else do {
             let (r, s) = refcnt_cas deact_cap l CAP_MEM_FROZEN_FLAG s;
             if r \<noteq> CAS_SUCCESS then Some (- ECASFAIL, s)
             else tbl_release E deact_cap parent pte old_v s
           }
         }
       }
     }
   }"

definition pgtbl_deactivate :: "kenv \<Rightarrow> addr \<Rightarrow> addr \<Rightarrow> capid \<Rightarrow> u32 \<Rightarrow> capid \<Rightarrow> u32 \<Rightarrow> bool \<Rightarrow> (kst, int) kop" where
  "pgtbl_deactivate E t dest_ct_cap capin lid pgtbl_cap cosframe_addr root s = do {
     deact_cap \<leftarrow> captbl_lkup s (tbl (tbls s dest_ct_cap)) capin;
     if \<not> CAP_TYPECHK s deact_cap CAP_PGTBL then Some (- EINVAL, s)
     else do {
       let parent = tbl_parent (tbls s deact_cap);
       let l = refcnt_flags (tbls s deact_cap);
       kassert (l AND CAP_REFCNT_MAX \<noteq> 0);
       if l AND CAP_REFCNT_MAX \<noteq> 1 then Some (- EINVAL, s)
       else if (parent = 0) \<noteq> root then Some (- EINVAL, s)
       else do {
         ((ret, pte, old_v), s) \<leftarrow>
           (if parent = 0 then kmem_deact_pre E deact_cap t pgtbl_cap cosframe_addr s
            else do { kassert (pgtbl_cap = 0 \<and> cosframe_addr = 0); Some ((0, 0, 0), s) });
         if ret \<noteq> 0 then Some (ret, s)
         else do {
           let (r, s) = refcnt_cas deact_cap l CAP_MEM_FROZEN_FLAG s;
           if r \<noteq> CAS_SUCCESS then Some (- ECASFAIL, s)
           else do {
             (ret, s) \<leftarrow> tbl_release E deact_cap parent pte old_v s;
             if ret \<noteq> 0 then Some (ret, s)
             else cap_capdeactivate dest_ct_cap capin CAP_PGTBL lid s
           }
         }
       }
     }
   }"

text \<open>\<^verbatim>\<open>cap_memactivate\<close> reads the header of the destination without a test for the null pointer.\<close>

definition cap_memactivate :: "kenv \<Rightarrow> addr \<Rightarrow> addr \<Rightarrow> u32 \<Rightarrow> capid \<Rightarrow> u32 \<Rightarrow> ('z kmem_scheme, int) kop" where
  "cap_memactivate E ct pt frame_cap dest_pt vaddr s =
     (if tbl_lvl (tbls s pt) \<noteq> 0 \<or> is_frozen s pt then Some (- EINVAL, s)
      else do {
        dest_pt_h \<leftarrow> captbl_lkup s ct dest_pt;
        kassert (dest_pt_h \<noteq> 0);
        if h_type (hdr s dest_pt_h) \<noteq> CAP_PGTBL then Some (- EINVAL, s)
        else if tbl_lvl (tbls s dest_pt_h) \<noteq> 0 then Some (- EINVAL, s)
        else do {
          (pte, _) \<leftarrow> pgtbl_lkup_pte s (tbl (tbls s pt)) frame_cap 0;
          if pte = 0 then Some (- EINVAL, s)
          else do {
            let orig_v = mem s pte;
            if orig_v AND PGTBL_COSFRAME = 0 \<or> orig_v AND PGTBL_COSKMEM \<noteq> 0 then Some (- EPERM, s)
            else do {
              kassert (orig_v AND PGTBL_QUIESCENCE = 0);
              pgtbl_mapping_add E (tbl (tbls s dest_pt_h)) vaddr (orig_v AND PGTBL_FRAME_MASK) PGTBL_USER_DEF s
            }
          }
        }
      })"

section \<open>Copy and move\<close>

text \<open>\<^verbatim>\<open>memcpy\<close> of the body of a capability of the given type.\<close>

definition copy_body :: "cap_t \<Rightarrow> addr \<Rightarrow> addr \<Rightarrow> kst \<Rightarrow> kst" where
  "copy_body type from to s =
     (case type of
        CAP_THD \<Rightarrow> s\<lparr>cthds := (cthds s)(to := cthds s from)\<rparr>
      | CAP_TCAP \<Rightarrow> s\<lparr>ctcaps := (ctcaps s)(to := ctcaps s from)\<rparr>
      | CAP_COMP \<Rightarrow> s\<lparr>comps := (comps s)(to := comps s from)\<rparr>
      | CAP_SINV \<Rightarrow> s\<lparr>sinvs := (sinvs s)(to := sinvs s from)\<rparr>
      | CAP_ASND \<Rightarrow> s\<lparr>asnds := (asnds s)(to := asnds s from)\<rparr>
      | CAP_ARCV \<Rightarrow> s\<lparr>arcvs := (arcvs s)(to := arcvs s from)\<rparr>
      | CAP_HW \<Rightarrow> s\<lparr>hws := (hws s)(to := hws s from)\<rparr>
      | CAP_CAPTBL \<Rightarrow> wr_tbl to (tbls s from) s
      | CAP_PGTBL \<Rightarrow> wr_tbl to (tbls s from) s
      | _ \<Rightarrow> s)"

text \<open>The reference a copied table capability takes on its parent.\<close>

definition copy_tbl_ref :: "addr \<Rightarrow> addr \<Rightarrow> 'z kmem_scheme \<Rightarrow> int \<times> 'z kmem_scheme" where
  "copy_tbl_ref parent child s =
     (let l = refcnt_flags (tbls s parent)
      in if l AND CAP_MEM_FROZEN_FLAG \<noteq> 0 then (- EINVAL, s)
         else if l AND CAP_REFCNT_MAX = CAP_REFCNT_MAX then (- EOVERFLOW, s)
         else let (_, s) = refcnt_cas parent l (l + 1) s
              in (0, wr_tbl child ((tbls s child)\<lparr>refcnt_flags := 1, tbl_parent := parent\<rparr>) s))"

text \<open>The branch of \<^verbatim>\<open>cap_cpy\<close> for capability tables.\<close>

definition captbl_cpy :: "kenv \<Rightarrow> addr \<Rightarrow> capid \<Rightarrow> capid \<Rightarrow> addr \<Rightarrow> capid \<Rightarrow> (kst, int) kop" where
  "captbl_cpy E t cap_to capin_to ctfrom capin_from s = do {
     ctfrom \<leftarrow> captbl_lkup s (tbl (tbls s ctfrom)) capin_from;
     if ctfrom = 0 then Some (- ENOENT, s)
     else do {
       let type = h_type (hdr s ctfrom);
       ((ctto, ret), s) \<leftarrow> cap_capactivate_pre E t cap_to capin_to type s;
       if ctto = 0 then Some (- EINVAL, s)
       else do {
         let s = copy_body type ctfrom ctto s;
         if type = CAP_THD
         then Some (ret, upd_thd (ct_t (cthds s ctfrom)) (\<lambda>th. th\<lparr>th_refcnt := th_refcnt th + 1\<rparr>) s)
         else if type = CAP_CAPTBL \<or> type = CAP_PGTBL
         then let (r, s) = copy_tbl_ref ctfrom ctto s in Some (if r \<noteq> 0 then (r, s) else (ret, s))
         else Some (ret, s)
       }
     }
   }"

text \<open>The branch of \<^verbatim>\<open>cap_cpy\<close> for page tables: \<open>flags\<close> is what the lookup left in its accumulator.\<close>

definition pgtbl_cpy :: "kenv \<Rightarrow> addr \<Rightarrow> capid \<Rightarrow> u32 \<Rightarrow> addr \<Rightarrow> u32 \<Rightarrow> ('z kmem_scheme, int) kop" where
  "pgtbl_cpy E t cap_to capin_to ctfrom capin_from s = do {
     ctto \<leftarrow> captbl_lkup s t cap_to;
     if ctto = 0 then Some (- ENOENT, s)
     else if h_type (hdr s ctto) \<noteq> CAP_PGTBL then Some (- EINVAL, s)
     else if is_frozen s ctto then Some (- EINVAL, s)
     else do {
       (f, flags) \<leftarrow> pgtbl_lkup_pte s (tbl (tbls s ctfrom)) capin_from 0;
       if f = 0 then Some (- ENOENT, s)
       else do {
         let old_v = mem s f;
         if old_v AND PGTBL_COSFRAME \<noteq> 0 \<or> old_v AND PGTBL_USER = 0 then Some (- EPERM, s)
         else pgtbl_mapping_add E (tbl (tbls s ctto)) capin_to (old_v AND PGTBL_FRAME_MASK) flags s
       }
     }
   }"

definition cap_cpy :: "kenv \<Rightarrow> addr \<Rightarrow> capid \<Rightarrow> capid \<Rightarrow> capid \<Rightarrow> capid \<Rightarrow> (kst, int) kop" where
  "cap_cpy E t cap_to capin_to cap_from capin_from s = do {
     ctfrom \<leftarrow> captbl_lkup s t cap_from;
     if ctfrom = 0 then Some (- ENOENT, s)
     else if h_type (hdr s ctfrom) = CAP_CAPTBL then captbl_cpy E t cap_to capin_to ctfrom capin_from s
     else if h_type (hdr s ctfrom) = CAP_PGTBL then pgtbl_cpy E t cap_to capin_to ctfrom capin_from s
     else Some (- EINVAL, s)
   }"

definition captbl_move :: "kenv \<Rightarrow> addr \<Rightarrow> capid \<Rightarrow> capid \<Rightarrow> capid \<Rightarrow> addr \<Rightarrow> capid \<Rightarrow> (kst, int) kop" where
  "captbl_move E t cap_to capin_to cap_from ctfrom capin_from s = do {
     ctfrom \<leftarrow> captbl_lkup s (tbl (tbls s ctfrom)) capin_from;
     if ctfrom = 0 then Some (- ENOENT, s)
     else do {
       let type = h_type (hdr s ctfrom);
       (ok, s) \<leftarrow>
         (if cap_to \<noteq> 0
          then do {
            ((ctto, _), s) \<leftarrow> cap_capactivate_pre E t cap_to capin_to type s;
            Some (if ctto = 0 then (False, s) else (True, copy_body type ctfrom ctto s))
          }
          else Some (True, s));
       if \<not> ok then Some (- EINVAL, s)
       else do {
         ctfrom \<leftarrow> captbl_lkup s t cap_from;
         (_, s) \<leftarrow> cap_capdeactivate ctfrom capin_from type 0 s;
         Some (0, s)
       }
     }
   }"

definition pgtbl_move :: "kenv \<Rightarrow> addr \<Rightarrow> capid \<Rightarrow> u32 \<Rightarrow> addr \<Rightarrow> u32 \<Rightarrow> ('z kmem_scheme, int) kop" where
  "pgtbl_move E t cap_to capin_to ctfrom capin_from s = do {
     ctto \<leftarrow> captbl_lkup s t cap_to;
     if ctto = 0 then Some (- ENOENT, s)
     else if h_type (hdr s ctto) \<noteq> CAP_PGTBL then Some (- EINVAL, s)
     else if is_frozen s ctto then Some (- EINVAL, s)
     else do {
       (f, flags) \<leftarrow> pgtbl_lkup_pte s (tbl (tbls s ctfrom)) capin_from 0;
       if f = 0 then Some (- ENOENT, s)
       else do {
         let old_v = mem s f;
         (moveto, _) \<leftarrow> pgtbl_lkup_pte s (tbl (tbls s ctto)) capin_to flags;
         if moveto = 0 then Some (- ENOENT, s)
         else do {
           let old_v_to = mem s moveto;
           if old_v AND PGTBL_COSFRAME = 0 then Some (- EPERM, s)
           else if old_v_to AND (PGTBL_COSFRAME OR PGTBL_PRESENT) \<noteq> 0 then Some (- EPERM, s)
           else do {
             ret \<leftarrow> pgtbl_quie_check E s old_v_to;
             if ret \<noteq> 0 then Some (ret, s)
             else do {
               let (r, s) = mem_cas f old_v 0 s;
               if r \<noteq> CAS_SUCCESS then Some (- ECASFAIL, s)
               else let (r, s) = mem_cas moveto old_v_to old_v s
                    in Some (if r \<noteq> CAS_SUCCESS then - ECASFAIL else 0, s)
             }
           }
         }
       }
     }
   }"

definition cap_move :: "kenv \<Rightarrow> addr \<Rightarrow> capid \<Rightarrow> capid \<Rightarrow> capid \<Rightarrow> capid \<Rightarrow> (kst, int) kop" where
  "cap_move E t cap_to capin_to cap_from capin_from s = do {
     ctfrom \<leftarrow> captbl_lkup s t cap_from;
     if ctfrom = 0 then Some (- ENOENT, s)
     else if h_type (hdr s ctfrom) = CAP_CAPTBL then captbl_move E t cap_to capin_to cap_from ctfrom capin_from s
     else if h_type (hdr s ctfrom) = CAP_PGTBL then pgtbl_move E t cap_to capin_to ctfrom capin_from s
     else Some (- EINVAL, s)
   }"

section \<open>Scanning\<close>

lemma push_bit_zero_iff: "push_bit k (w :: u32) = 0 \<longleftrightarrow> take_bit (32 - k) w = 0"
proof
  assume z: "push_bit k w = 0"
  show "take_bit (32 - k) w = 0"
  proof (rule bit_word_eqI)
    fix n assume "n < LENGTH(32)"
    have "\<not> bit (push_bit k w) (n + k)" using z by simp
    then show "bit (take_bit (32 - k) w) n = bit 0 n" by (auto simp: bit_take_bit_iff bit_push_bit_iff)
  qed
next
  assume z: "take_bit (32 - k) w = 0"
  show "push_bit k w = 0"
  proof (rule bit_word_eqI)
    fix n assume n: "n < LENGTH(32)"
    have "\<not> bit (take_bit (32 - k) w) (n - k)" using z by simp
    then show "bit (push_bit k w) n = bit 0 n" using n by (auto simp: bit_take_bit_iff bit_push_bit_iff)
  qed
qed

lemma and_not_split: "((x :: u32) AND m) + (x AND NOT m) = x"
proof -
  have "(x AND m) AND (x AND NOT m) = 0" by (rule bit_word_eqI) (auto simp: bit_and_iff bit_not_iff)
  then have "(x AND m) + (x AND NOT m) = (x AND m) OR (x AND NOT m)" by (simp add: disjunctive_add_eq_or)
  also have "\<dots> = x" by (rule bit_word_eqI) (auto simp: bit_and_iff bit_or_iff bit_not_iff)
  finally show ?thesis .
qed

lemma word_offset:
  assumes "4 dvd unat (a :: u32)" "k < 4"
  shows "(a + of_nat k) AND NOT 3 = a" "unat (a + of_nat k) mod 4 = k"
proof -
  have m: "3 = (mask 2 :: u32)" by (simp add: mask_eq_exp_minus_1)
  have t: "take_bit 2 a = 0"
    using assms(1) by (simp add: take_bit_eq_mod word_unat_eq_iff unat_mod dvd_eq_mod_eq_0)
  have "unat a \<le> 2 ^ 32 - 4"
  proof -
    obtain j where "unat a = 4 * j" using assms(1) by blast
    moreover have "unat a < 2 ^ 32" using unsigned_less [of a, where ?'a = nat] by simp
    ultimately show ?thesis by simp
  qed
  then have "unat (a + of_nat k) = unat a + k"
    using assms(2) by (simp add: unat_word_ariths unat_of_nat)
  then show mod: "unat (a + of_nat k) mod 4 = k" using assms by (simp add: dvd_eq_mod_eq_0 mod_add_left_eq [symmetric])
  have tk: "take_bit 2 (a + of_nat k) = of_nat k"
    using mod assms(2) by (simp add: take_bit_eq_mod word_unat_eq_iff unat_mod unat_of_nat)
  have "(a + of_nat k) AND NOT 3 = (a + of_nat k) - take_bit 2 (a + of_nat k)"
    using and_not_split [of "a + of_nat k" "mask 2"] by (simp add: m take_bit_eq_mask algebra_simps)
  then show "(a + of_nat k) AND NOT 3 = a" by (simp add: tk)
qed
text \<open>Four consecutive byte offsets of the scan see one word and the low three bytes of the next.\<close>

lemma load32_offset:
  assumes "4 dvd unat a" "k < 4"
  shows "load32 s (a + of_nat k) =
    (if k = 0 then mem s a else drop_bit (8 * k) (mem s a) OR push_bit (32 - 8 * k) (mem s (a + 4)))"
  using word_offset [OF assms] by (simp add: load32_def Let_def)

lemma take_bit_zero_mono: "take_bit m (w :: u32) = 0 \<Longrightarrow> n \<le> m \<Longrightarrow> take_bit n w = 0"
  by (metis min.absorb1 take_bit_of_0 take_bit_take_bit)

lemma page_scan_word:
  assumes "4 dvd unat a"
  shows "page_scan_from s a (4 + m) = 0 \<longleftrightarrow>
    mem s a = 0 \<and> take_bit 24 (mem s (a + 4)) = 0 \<and> page_scan_from s (a + 4) m = 0"
proof -
  have l: "load32 s a = mem s a" "load32 s (a + 1) = drop_bit 8 (mem s a) OR push_bit 24 (mem s (a + 4))"
    "load32 s (a + 1 + 1) = drop_bit 16 (mem s a) OR push_bit 16 (mem s (a + 4))"
    "load32 s (a + 1 + 1 + 1) = drop_bit 24 (mem s a) OR push_bit 8 (mem s (a + 4))"
    using load32_offset [OF assms, of 0 s] load32_offset [OF assms, of 1 s] load32_offset [OF assms, of 2 s]
      load32_offset [OF assms, of 3 s] by (simp_all add: add.assoc)
  have a4: "a + 1 + 1 + 1 + 1 = a + 4" by (simp add: add.assoc)
  have n: "4 + m = Suc (Suc (Suc (Suc m)))" by simp
  show ?thesis unfolding n page_scan_from.simps l a4
    using take_bit_zero_mono [of 24 "mem s (a + 4)" 8] take_bit_zero_mono [of 24 "mem s (a + 4)" 16]
    by (auto simp: push_bit_zero_iff)
qed

lemma page_scan_words:
  assumes "4 dvd unat a"
  shows "page_scan_from s a (4 * n) = 0 \<longleftrightarrow>
    (\<forall>i<n. mem s (a + 4 * of_nat i) = 0) \<and> (n = 0 \<or> take_bit 24 (mem s (a + 4 * of_nat n)) = 0)"
  using assms
proof (induction n arbitrary: a)
  case (Suc n)
  have a4: "4 dvd unat (a + 4)" using Suc.prems by (simp add: unat_word_ariths dvd_mod)
  have n: "4 * Suc n = 4 + 4 * n" by simp
  have sh: "a + 4 + 4 * of_nat i = a + 4 * of_nat (Suc i)" for i by (simp add: algebra_simps)
  have "page_scan_from s a (4 * Suc n) = 0 \<longleftrightarrow> mem s a = 0 \<and> take_bit 24 (mem s (a + 4)) = 0 \<and>
      (\<forall>i<n. mem s (a + 4 * of_nat (Suc i)) = 0) \<and> (n = 0 \<or> take_bit 24 (mem s (a + 4 * of_nat (Suc n))) = 0)"
    unfolding n page_scan_word [OF Suc.prems] Suc.IH [OF a4] sh ..
  also have "\<dots> \<longleftrightarrow> (\<forall>i<Suc n. mem s (a + 4 * of_nat i) = 0) \<and> take_bit 24 (mem s (a + 4 * of_nat (Suc n))) = 0"
  proof (cases n)
    case (Suc k)
    have "(\<forall>i<n. mem s (a + 4 * of_nat (Suc i)) = 0) \<Longrightarrow> mem s (a + 4) = 0" using Suc by (auto dest: spec [of _ 0])
    then show ?thesis unfolding All_less_Suc2 using Suc by auto
  qed simp
  finally show ?case by simp
qed simp

section \<open>Freezing\<close>

lemma wr_tbl_lkup: "t \<noteq> 0 \<Longrightarrow> captbl_lkup (wr_tbl a b s) t c = captbl_lkup s t c"
  by (rule captbl_lkup_cong) simp_all

lemma cap_kmem_freeze_success:
  assumes "cap_kmem_freeze E t cap s = Some (0, s')"
  obtains ch b where "captbl_lkup s t cap = Some ch" "ch \<noteq> 0" "h_type (hdr s ch) = CAP_CAPTBL \<or> h_type (hdr s ch) = CAP_PGTBL"
    "s' = wr_tbl ch b s" "b = (tbls s ch)\<lparr>frozen_ts := ke_tsc E 0, refcnt_flags := refcnt_flags (tbls s ch) OR CAP_MEM_FROZEN_FLAG\<rparr>"
proof -
  obtain ch where ch: "captbl_lkup s t cap = Some ch" using assms by (auto simp: cap_kmem_freeze_def split: Option.bind_splits)
  have "ch \<noteq> 0 \<and> (h_type (hdr s ch) = CAP_CAPTBL \<or> h_type (hdr s ch) = CAP_PGTBL) \<and>
    s' = wr_tbl ch ((tbls s ch)\<lparr>frozen_ts := ke_tsc E 0, refcnt_flags := refcnt_flags (tbls s ch) OR CAP_MEM_FROZEN_FLAG\<rparr>) s"
    using assms ch
    by (auto simp: cap_kmem_freeze_def Let_def refcnt_cas_def wr_tbl_def split: if_splits)
  then show thesis using that ch by blast
qed

text \<open>The walk of a page table, and a mapping that is added to it, do not look at the capabilities of tables.\<close>

lemma wr_tbl_pgtbl_walk [simp]:
  "ert_next (wr_tbl a b s) n = ert_next s n" "pgtbl_get (wr_tbl a b s) n acc = pgtbl_get s n acc"
  "pgtbl_isnull (wr_tbl a b s) n = pgtbl_isnull s n"
  by (cases n, simp_all add: pgtbl_get_def pgtbl_isnull_def)+

lemma wr_tbl_ert_loop:
  "ert_lookup_loop pgtbl_consts (wr_tbl a b s) key is n acc = ert_lookup_loop pgtbl_consts s key is n acc"
  by (induction "is" arbitrary: n acc) (simp_all add: ert_walk_def pgtbl_consts_def split: prod.splits)

lemma wr_tbl_lkup_lvl [simp]: "pgtbl_lkup_lvl (wr_tbl a b s) pt addr f l m = pgtbl_lkup_lvl s pt addr f l m"
proof -
  have "getleaffn pgtbl_consts (wr_tbl a b s) n acc = getleaffn pgtbl_consts s n acc" for n acc
    by (simp add: pgtbl_consts_def)
  then show ?thesis by (simp only: pgtbl_lkup_lvl_def ert_lookup_def wr_tbl_ert_loop cong del: if_weak_cong option.case_cong_weak)
qed

lemma wr_tbl_lkup_pte [simp]: "pgtbl_lkup_pte (wr_tbl a b s) pt addr f = pgtbl_lkup_pte s pt addr f"
  by (simp add: pgtbl_lkup_pte_def)

lemma wr_tbl_quie_check [simp]: "pgtbl_quie_check E (wr_tbl a b s) v = pgtbl_quie_check E s v"
  by (simp add: pgtbl_quie_check_def cong del: if_weak_cong)

lemma wr_tbl_on_rt: "on_rt f (wr_tbl a b s) = map_option (apsnd (wr_tbl a b)) (on_rt f s)"
  by (cases "f (rt s)") (auto simp: on_rt_def wr_tbl_def)

lemma wr_tbl_update_leaf: "pgtbl_update_leaf p v old (wr_tbl a b s) = apsnd (wr_tbl a b) (pgtbl_update_leaf p v old s)"
  by (simp add: pgtbl_update_leaf_def mem_cas_def wr_tbl_def wr_def split: prod.splits)

lemma wr_tbl_mapping_add:
  "pgtbl_mapping_add E pt addr page flags (wr_tbl a b s) =
   map_option (apsnd (wr_tbl a b)) (pgtbl_mapping_add E pt addr page flags s)"
  by (auto simp: pgtbl_mapping_add_def k_ref_def k_deref_def wr_tbl_on_rt wr_tbl_update_leaf kassert_def Let_def
      split: Option.bind_splits prod.splits option.splits if_splits)

lemma frozen_set: "(l OR CAP_MEM_FROZEN_FLAG) AND CAP_MEM_FROZEN_FLAG \<noteq> 0"
proof -
  have "(l OR CAP_MEM_FROZEN_FLAG) AND CAP_MEM_FROZEN_FLAG = CAP_MEM_FROZEN_FLAG"
    by (rule bit_word_eqI) (auto simp: bit_and_iff bit_or_iff)
  then show ?thesis by (simp add: CAP_MEM_FROZEN_FLAG_def CAP_MEM_REFCNT_SZ_def)
qed

text \<open>A frozen table is not connected into another one, and nothing is connected into a frozen capability table.\<close>

lemma captbl_cons_frozen:
  assumes "is_frozen s ct \<or> is_frozen s ctsub" "captbl_cons ct ctsub eid s = Some (r, x)"
  shows "r \<noteq> 0 \<and> x = s"
  using assms by (auto simp: captbl_cons_def is_frozen_def Let_def split: if_splits)

lemma pgtbl_cons_frozen:
  assumes "is_frozen s ctsub" "pgtbl_cons ct ctsub eid s = Some (r, x)"
  shows "r \<noteq> 0 \<and> x = s"
  using assms by (auto simp: pgtbl_cons_def is_frozen_def Let_def split: Option.bind_splits if_splits)

lemma cap_cons_frozen:
  assumes "captbl_lkup s t cap = Some ch" "is_frozen s ch"
  shows "cap_cons t capto cap eid s = Some (r, x) \<Longrightarrow> r \<noteq> 0 \<and> x = s"
    and "h_type (hdr s ch) = CAP_CAPTBL \<Longrightarrow> cap_cons t cap capsub eid s = Some (r, x) \<Longrightarrow> r \<noteq> 0 \<and> x = s"
  using assms
  by (auto dest: pgtbl_cons_frozen [OF assms(2)] captbl_cons_frozen [rotated] simp: cap_cons_def Let_def kassert_def split: Option.bind_splits if_splits)

text \<open>The freeze of the destination changes neither the result of \<^verbatim>\<open>cap_memactivate\<close> nor its effect.\<close>

lemma memactivate_frozen_dest:
  assumes "t \<noteq> 0" "captbl_lkup s t cap = Some ch" "b = (tbls s ch)\<lparr>frozen_ts := ts, refcnt_flags := l\<rparr>" "pt \<noteq> ch"
  shows "cap_memactivate E t pt frame_cap cap vaddr (wr_tbl ch b s) =
    map_option (apsnd (wr_tbl ch b)) (cap_memactivate E t pt frame_cap cap vaddr s)"
  using assms
  by (auto simp: cap_memactivate_def wr_tbl_lkup wr_tbl_mapping_add is_frozen_def kassert_def Let_def
      split: Option.bind_splits option.splits)

section \<open>Properties of operations on capabilities\<close>

text \<open>
  C25. What freezing a table stops, and what it does not stop.  After \<^verbatim>\<open>cap_kmem_freeze\<close> through a capability of a
  table has succeeded, and through that capability: no capability is activated in the table, no page is copied or
  moved into it, none is activated from it, it is not connected into another table, nothing is connected into it
  when it is a capability table, it is not frozen again, and releasing its memory is refused, without any
  effect, until it is quiescent.  Activating a page of another table \<^emph>\<open>into\<close> it is not stopped:
  \<^verbatim>\<open>cap_memactivate\<close> tests the flag of the table the page comes from only, so that it returns what it
  returned before the freeze and adds the same mapping.
\<close>

theorem freeze_scope:
  assumes "cap_kmem_freeze E t cap s = Some (0, s')" "t \<noteq> 0"
  shows "\<exists>ch b. captbl_lkup s t cap = Some ch \<and> s' = wr_tbl ch b s \<and> is_frozen s' ch \<and> frozen_ts b = ke_tsc E 0 \<and>
    tbl b = tbl (tbls s ch) \<and>
    cap_capactivate_pre E' t cap capin type s' = Some ((0, - EINVAL), s') \<and>
    pgtbl_cpy E' t cap capin_to ctfrom capin_from s' = Some (- EINVAL, s') \<and>
    pgtbl_move E' t cap capin_to ctfrom capin_from s' = Some (- EINVAL, s') \<and>
    cap_memactivate E' t ch frame_cap dest_pt vaddr s' = Some (- EINVAL, s') \<and>
    (\<forall>r x. cap_cons t capto cap eid s' = Some (r, x) \<longrightarrow> r \<noteq> 0 \<and> x = s') \<and>
    (\<forall>r x. h_type (hdr s ch) = CAP_CAPTBL \<and> cap_cons t cap capsub eid s' = Some (r, x) \<longrightarrow> r \<noteq> 0 \<and> x = s') \<and>
    cap_kmem_freeze E' t cap s' = Some (- EINVAL, s') \<and>
    (\<not> tbl_quiescent E' s' ch \<longrightarrow> (\<exists>r. r \<noteq> 0 \<and> deact_tbl_pre E' ch pa scan s' = Some (r, s'))) \<and>
    (pt \<noteq> ch \<longrightarrow> cap_memactivate E' t pt frame_cap cap vaddr s' =
       map_option (apsnd (wr_tbl ch b)) (cap_memactivate E' t pt frame_cap cap vaddr s))"
proof -
  obtain ch b where ch: "captbl_lkup s t cap = Some ch" "ch \<noteq> 0" "h_type (hdr s ch) = CAP_CAPTBL \<or> h_type (hdr s ch) = CAP_PGTBL"
    "s' = wr_tbl ch b s" "b = (tbls s ch)\<lparr>frozen_ts := ke_tsc E 0, refcnt_flags := refcnt_flags (tbls s ch) OR CAP_MEM_FROZEN_FLAG\<rparr>"
    using cap_kmem_freeze_success [OF assms(1)] by blast
  have lk: "captbl_lkup s' t cap = Some ch" using ch(1,4) assms(2) by (simp add: wr_tbl_lkup)
  have fl: "refcnt_flags (tbls s' ch) AND CAP_MEM_FROZEN_FLAG \<noteq> 0"
    using frozen_set [of "refcnt_flags (tbls s ch)"] by (simp add: ch(4,5))
  then have fr: "is_frozen s' ch" by (simp add: is_frozen_def)
  have ty: "h_type (hdr s' ch) = h_type (hdr s ch)" by (simp add: ch(4))
  have pre: "cap_capactivate_pre E' t cap capin type s' = Some ((0, - EINVAL), s')"
    using lk fr by (simp add: cap_capactivate_pre_def CAP_TYPECHK_def)
  have pages: "pgtbl_cpy E' t cap capin_to ctfrom capin_from s' = Some (- EINVAL, s')"
    "pgtbl_move E' t cap capin_to ctfrom capin_from s' = Some (- EINVAL, s')"
    "cap_memactivate E' t ch frame_cap dest_pt vaddr s' = Some (- EINVAL, s')"
    using lk fr ch(2) by (simp_all add: pgtbl_cpy_def pgtbl_move_def cap_memactivate_def)
  have again: "cap_kmem_freeze E' t cap s' = Some (- EINVAL, s')"
    using lk fl ch(2) by (simp add: cap_kmem_freeze_def Let_def)
  have rel: "\<not> tbl_quiescent E' s' ch \<Longrightarrow> \<exists>r. r \<noteq> 0 \<and> deact_tbl_pre E' ch pa scan s' = Some (r, s')"
    using fl by (auto simp: deact_tbl_pre_def Let_def)
  have into: "pt \<noteq> ch \<Longrightarrow> cap_memactivate E' t pt frame_cap cap vaddr s' =
      map_option (apsnd (wr_tbl ch b)) (cap_memactivate E' t pt frame_cap cap vaddr s)"
    unfolding ch(4) by (rule memactivate_frozen_dest [OF assms(2) ch(1,5)])
  have b: "frozen_ts b = ke_tsc E 0" "tbl b = tbl (tbls s ch)" by (simp_all add: ch(5))
  note cons = cap_cons_frozen [OF lk fr, unfolded ty]
  show ?thesis
    using ch(1,4) fr b pre pages again rel into cons by blast
qed

text \<open>
  The scan that is to show that a page of pointers is empty before its memory is released looks only
  at the first quarter of the page: it advances by bytes, not by words, so that it succeeds exactly when
  the first 256 of the 1024 words, and three bytes of the next, are zero.
\<close>

theorem page_scan_first_quarter:
  assumes "4 dvd unat page"
  shows "kmem_page_scan s page PAGE_SIZE = 0 \<longleftrightarrow>
    (\<forall>i<256. mem s (page + 4 * of_nat i) = 0) \<and> take_bit 24 (mem s (page + 0x400)) = 0"
  using page_scan_words [OF assms, of s 256] by (simp add: kmem_page_scan_def PAGE_SIZE_def)

text \<open>
  C37. Copying a capability to a table that is frozen reports \<^verbatim>\<open>-EINVAL\<close>, but only after the slot of the
  copy has been activated and filled: the copy stays, and gives access to the frozen table without a
  reference to it being counted.
\<close>

theorem cap_cpy_frozen_leaks:
  assumes "captbl_lkup s t cap_from = Some ctfrom" "ctfrom \<noteq> 0" "h_type (hdr s ctfrom) = CAP_CAPTBL"
    "captbl_lkup s (tbl (tbls s ctfrom)) capin_from = Some c" "c \<noteq> 0" "h_type (hdr s c) = type"
    "type = CAP_CAPTBL \<or> type = CAP_PGTBL" "is_frozen s c"
    "captbl_lkup s t cap_to = Some ct" "CAP_TYPECHK s ct CAP_CAPTBL" "\<not> is_frozen s ct" "tbl (tbls s ct) \<noteq> 0"
    "captbl_add (ke_tsc E 0) (tbl (tbls s ct)) capin_to type s = Some ((p, r), s1)" "p \<noteq> 0"
    "lines_ok s" "captbl_aligned s (tbl (tbls s ct))"
  shows "\<exists>s'. cap_cpy E t cap_to capin_to cap_from capin_from s = Some (- EINVAL, s') \<and>
    captbl_lkup s' (tbl (tbls s ct)) capin_to = Some p \<and> h_type (hdr s' p) = type \<and>
    tbl (tbls s' p) = tbl (tbls s c) \<and> refcnt_flags (tbls s' c) = refcnt_flags (tbls s c)"
proof -
  note add = captbl_add_found [OF assms(13,14,12,15,16)]
  have s1: "tbls s1 = tbls s" using captbl_add_state [OF assms(13,14,12)] by simp
  define s' where "s' = wr_tbl p (tbls s c) s1"
  have "cap_cpy E t cap_to capin_to cap_from capin_from s = Some (- EINVAL, s')"
    using assms s1 by (auto simp: cap_cpy_def captbl_cpy_def cap_capactivate_pre_def copy_body_def copy_tbl_ref_def
        is_frozen_def Let_def s'_def)
  moreover have "captbl_lkup s' (tbl (tbls s ct)) capin_to = Some p"
    using add assms(12) by (simp add: s'_def wr_tbl_lkup)
  ultimately show ?thesis using add s1 by (simp add: s'_def)
qed

section \<open>A table of tables\<close>

text \<open>The slots 4 and 8 of the table at 0x1000 hold capability tables: itself, and one that is frozen.\<close>

definition ex_tt :: kmem where
  "ex_tt = wr_tbl 0x1880 ((ex_tbls 0x1880)\<lparr>refcnt_flags := CAP_MEM_FROZEN_FLAG OR 1\<rparr>)
     (added 0x1880 CAP_CAPTBL (added 0x1840 CAP_CAPTBL ex_kmem))"

lemma ex_tt_msk: "CT_MSK 0x1880 6 = 0x1880" "CT_MSK 0x18c0 6 = 0x18c0" "CT_MSK 0x1840 5 = 0x1840" "CT_MSK 0x1880 5 = 0x1880"
  "slot_ix 0x1880 = 0" "slot_ix 0x18c0 = 0"
  by (simp_all add: CT_MSK_def mask_eq_exp_minus_1 slot_ix_def)

lemma ex_tt_hdr:
  "hdr ex_tt 0x1840 = \<lparr>h_liveness_id = 0, h_amap = 1, h_size = CAP_SZ_32B, h_flags = 0, h_type = CAP_CAPTBL\<rparr>"
  "hdr ex_tt 0x1880 = \<lparr>h_liveness_id = 0, h_amap = 1, h_size = CAP_SZ_32B, h_flags = 0, h_type = CAP_CAPTBL\<rparr>"
  "hdr ex_tt 0x18c0 = captbl_free_hdr"
  by (simp_all add: ex_tt_def added_def ex_msk ex_tt_msk) (simp_all add: ex_kmem_def captbl_free_hdr_def)

lemma ex_tt_lines: "lines_ok ex_tt"
proof -
  have "lines_ok (added 0x1840 CAP_CAPTBL ex_kmem)"
    by (rule lines_ok_added [OF ex_kmem_ok(1)]) (simp_all add: ex_msk ex_kmem_def captbl_free_hdr_def)
  then have "lines_ok (added 0x1880 CAP_CAPTBL (added 0x1840 CAP_CAPTBL ex_kmem))"
    by (rule lines_ok_added) (simp_all add: ex_tt_msk ex_msk added_def, simp_all add: ex_kmem_def captbl_free_hdr_def)
  then show ?thesis by (simp add: ex_tt_def lines_ok_def)
qed

lemma ex_tt_slots: "captbl_slot ex_tt 0x1000 4 = 0x1840" "captbl_slot ex_tt 0x1000 8 = 0x1880" "captbl_slot ex_tt 0x1000 12 = 0x18c0"
  by (simp_all add: captbl_slot_def ex_tt_def ex_kmem_def mask_eq_exp_minus_1 drop_bit_eq_div)

lemma ex_tt_lkup: "captbl_lkup ex_tt 0x1000 4 = Some 0x1840" "captbl_lkup ex_tt 0x1000 8 = Some 0x1880"
  using captbl_lkup_leaf [of "0x1000" 4 ex_tt] captbl_lkup_leaf [of "0x1000" 8 ex_tt]
  by (simp_all add: ex_tt_slots getleaf_lines_ok [OF ex_tt_lines] ex_msk ex_tt_msk ex_tt_hdr Let_def)

lemma ex_tt_tbls: "tbls ex_tt 0x1840 = ex_tbls 0x1840" "tbls ex_tt 0x1880 = (ex_tbls 0x1880)\<lparr>refcnt_flags := CAP_MEM_FROZEN_FLAG OR 1\<rparr>"
  by (simp_all add: ex_tt_def ex_kmem_def)

theorem freeze_scope_witness:
  "\<exists>s'. cap_kmem_freeze ex_env 0x1000 4 ex_tt = Some (0, s') \<and> cap_kmem_freeze ex_env 0x1000 4 s' = Some (- EINVAL, s')"
proof -
  have "\<exists>s'. cap_kmem_freeze ex_env 0x1000 4 ex_tt = Some (0, s')"
    by (simp add: cap_kmem_freeze_def ex_tt_lkup ex_tt_hdr ex_tt_tbls ex_tbls_def CAP_REFCNT_MAX_def CAP_MEM_FROZEN_FLAG_def
        CAP_MEM_REFCNT_SZ_def refcnt_cas_def)
  then obtain s' where s': "cap_kmem_freeze ex_env 0x1000 4 ex_tt = Some (0, s')" by blast
  with freeze_scope [OF this, of ex_env 0 CAP_THD 0 0 0 0 0 0 0 0 0 0 "\<lambda>_. None" 0] show ?thesis by auto
qed

theorem page_scan_first_quarter_witness:
  "kmem_page_scan (wr 0x2800 7 ex_kmem) 0x2000 PAGE_SIZE = 0 \<and> mem (wr 0x2800 7 ex_kmem) 0x2800 \<noteq> 0"
proof -
  have "mem (wr 0x2800 7 ex_kmem) (0x2000 + 4 * of_nat i) = 0" if "i < 256" for i
  proof -
    have "unat (0x2000 + 4 * of_nat i :: u32) = 0x2000 + 4 * i" using that by (simp add: unat_word_ariths unat_of_nat)
    then have "0x2000 + 4 * of_nat i \<noteq> (0x2800 :: u32)" "0x2000 + 4 * of_nat i \<noteq> (0x1000 :: u32)"
      using that by (auto simp: word_unat_eq_iff)
    then show ?thesis by (simp add: ex_kmem_def)
  qed
  moreover have "take_bit 24 (mem (wr 0x2800 7 ex_kmem) (0x2000 + 0x400)) = 0" by (simp add: ex_kmem_def)
  ultimately show ?thesis using page_scan_first_quarter [of "0x2000" "wr 0x2800 7 ex_kmem"] by simp
qed

theorem cap_cpy_frozen_leaks_witness:
  "\<exists>s'. cap_cpy ex_env 0x1000 4 12 4 8 (idle_kst ex_tt) = Some (- EINVAL, s') \<and> captbl_lkup s' 0x1000 12 = Some 0x18c0"
proof -
  let ?s = "idle_kst ex_tt"
  have lk: "captbl_lkup ?s 0x1000 4 = Some 0x1840" "captbl_lkup ?s 0x1000 8 = Some 0x1880"
    using ex_tt_lkup captbl_lkup_cong [of ?s ex_tt "0x1000"] by simp_all
  have lines: "lines_ok ?s" "captbl_aligned ?s 0x1000"
    using ex_tt_lines captbl_aligned_cong [of ?s ex_tt] captbl_aligned_cong [of ex_tt ex_kmem] ex_kmem_ok(2)
    by (simp_all add: lines_ok_def ex_tt_def captbl_aligned_def)
  have slot: "captbl_slot ?s 0x1000 12 = 0x18c0" using ex_tt_slots(3) by (simp add: captbl_slot_def)
  have add: "captbl_add (ke_tsc ex_env 0) (tbl (tbls ?s 0x1840)) 12 CAP_CAPTBL ?s = Some ((0x18c0, 0), added 0x18c0 CAP_CAPTBL ?s)"
    by (rule added_intro) (simp_all add: ex_tt_tbls ex_tbls_def slot ex_tt_msk ex_tt_hdr captbl_free_hdr_def CAP_FLAG_RO_def)
  have t: "tbl (tbls ex_tt 0x1840) = 0x1000" by (simp add: ex_tt_tbls ex_tbls_def)
  have "is_frozen ?s 0x1880" "\<not> is_frozen ?s 0x1840" "CAP_TYPECHK ?s 0x1840 CAP_CAPTBL"
    by (simp_all add: is_frozen_def ex_tt_tbls ex_tbls_def CAP_MEM_FROZEN_FLAG_def CAP_MEM_REFCNT_SZ_def CAP_TYPECHK_def ex_tt_hdr)
  then show ?thesis
    using cap_cpy_frozen_leaks [OF lk(1) _ _ _ _ _ _ _ lk(1) _ _ _ add, of 8 "0x1880"] lk lines by (simp add: t ex_tt_hdr) blast
qed

end
