(* ===== verification/Kobj.thy ===== *)
theory Kobj
  imports Cap_Ops
begin

text \<open>
  Activation and deactivation of the kernel objects behind capabilities (\<^verbatim>\<open>thd.h\<close>, \<^verbatim>\<open>component.h\<close>,
  \<^verbatim>\<open>inv.h\<close>, \<^verbatim>\<open>tcap.c\<close>, \<^verbatim>\<open>hw.h\<close>) and the invocation paths between components (\<^verbatim>\<open>inv.h\<close>).
\<close>

definition CAP_TYPECHK_CORE :: "kenv \<Rightarrow> kst \<Rightarrow> addr \<Rightarrow> cap_t \<Rightarrow> cpuid \<Rightarrow> bool" where
  "CAP_TYPECHK_CORE E s v type cap_cpuid \<longleftrightarrow> CAP_TYPECHK s v type \<and> cap_cpuid = ke_cpu E"

section \<open>Threads\<close>

definition COS_UPCALL_THD_CREATE :: u32 where "COS_UPCALL_THD_CREATE = 0"

text \<open>\<^verbatim>\<open>memset (thd, 0, sizeof (struct thread))\<close>.\<close>

definition zero_thread :: "addr \<Rightarrow> kst \<Rightarrow> kst" where
  "zero_thread thd s = s\<lparr>thds := (thds s)(thd := thread_zero),
     lst := (lst s)(LEvtHead thd := node_zero, LEvt thd := node_zero)\<rparr>"

text \<open>The part of \<^verbatim>\<open>thd_activate\<close> that initialises the thread.\<close>

definition thd_setup :: "kenv \<Rightarrow> addr \<Rightarrow> comp_info \<Rightarrow> u16 \<Rightarrow> kst \<Rightarrow> kst" where
  "thd_setup E thd ci thdid =
     upd_thd thd (\<lambda>th. th\<lparr>tid := thdid, th_invstk_top := 0,
       invstk := (invstk th)(0 := \<lparr>is_comp_info = ci, is_sp = 0, is_ip = 0\<rparr>), th_cpuid := ke_cpu E, th_refcnt := 1\<rparr>)"

definition thd_activate :: "kenv \<Rightarrow> addr \<Rightarrow> capid \<Rightarrow> capid \<Rightarrow> addr \<Rightarrow> capid \<Rightarrow> u32 \<Rightarrow> u16 \<Rightarrow> (kst, int) kop" where
  "thd_activate E t cap capin thd compcap init_data thdid s = do {
     let s = zero_thread thd s;
     compc \<leftarrow> captbl_lkup s t compcap;
     if \<not> CAP_TYPECHK s compc CAP_COMP then Some (- EINVAL, s)
     else do {
       ((tc, ret), s) \<leftarrow> cap_capactivate_pre E t cap capin CAP_THD s;
       if tc = 0 then Some (ret, s)
       else do {
         let s = thd_setup E thd (co_info (comps s compc)) thdid s;
         kassert (unat (tid (thds s thd)) \<le> MAX_NUM_THREADS);
         let s = thd_scheduler_set thd (thd_current s (ke_cpu E)) s;
         let s = thd_rcvcap_init thd s;
         let s = upd_lst (list_head_init (LEvtHead thd)) s;
         let s = upd_lst (list_init (LEvt thd) thd) s;
         let s = thd_upcall_setup E thd (co_entry_addr (comps s compc)) COS_UPCALL_THD_CREATE init_data 0 0 s;
         let s = s\<lparr>cthds := (cthds s)(tc := \<lparr>ct_t = thd, ct_cpuid = ke_cpu E\<rparr>)\<rparr>;
         Some (0, s)
       }
     }
   }"

definition thd_deactivate :: "kenv \<Rightarrow> addr \<Rightarrow> addr \<Rightarrow> capid \<Rightarrow> u32 \<Rightarrow> capid \<Rightarrow> u32 \<Rightarrow> bool \<Rightarrow> (kst, int) kop" where
  "thd_deactivate E ct dest_ct capin lid pgtbl_cap cosframe_addr root s = do {
     let c = ke_cpu E;
     thd_header \<leftarrow> captbl_lkup s (tbl (tbls s dest_ct)) capin;
     if \<not> CAP_TYPECHK s thd_header CAP_THD then Some (- EINVAL, s)
     else do {
       let thd = ct_t (cthds s thd_header);
       kassert (th_refcnt (thds s thd) \<noteq> 0);
       ((ret, pte, old_v), s) \<leftarrow>
         (if th_refcnt (thds s thd) = 1
          then if \<not> root then Some ((- EINVAL, 0, 0), s)
               else if thd_bound2rcvcap s thd then Some ((- EBUSY, 0, 0), s)
               else kmem_deact_pre E thd_header ct pgtbl_cap cosframe_addr s
          else if root then Some ((- EINVAL, 0, 0), s)
          else Some ((0, 0, 0), s));
       if ret \<noteq> 0 then Some (ret, s)
       else do {
         (ret, s) \<leftarrow> cap_capdeactivate dest_ct capin CAP_THD lid s;
         if ret \<noteq> 0 then Some (ret, s)
         else do {
           let s = upd_thd thd (\<lambda>th. th\<lparr>th_refcnt := th_refcnt th - 1\<rparr>) s;
           if th_refcnt (thds s thd) = 0
           then do {
             let s = (if nt_thd (next_ti (cli s c)) = thd then thd_next_thdinfo_update c 0 0 0 0 s else s);
             kmem_deact_post E pte old_v s
           }
           else Some (0, s)
         }
       }
     }
   }"

definition chal_tls_update :: "kenv \<Rightarrow> u32 \<Rightarrow> kst \<Rightarrow> kst" where
  "chal_tls_update E tlsaddr = upd_cli (ke_cpu E) (\<lambda>i. i\<lparr>tls_base := tlsaddr\<rparr>)"

definition thd_tls_set :: "kenv \<Rightarrow> addr \<Rightarrow> capid \<Rightarrow> u32 \<Rightarrow> addr \<Rightarrow> (kst, int) kop" where
  "thd_tls_set E ct thd_cap tlsaddr current s = do {
     tc \<leftarrow> captbl_lkup s ct thd_cap;
     if \<not> CAP_TYPECHK s tc CAP_THD \<or> ke_cpu E \<noteq> ct_cpuid (cthds s tc) then Some (- EINVAL, s)
     else do {
       let thd = ct_t (cthds s tc);
       kassert (thd \<noteq> 0);
       let s = upd_thd thd (\<lambda>th. th\<lparr>tls := tlsaddr\<rparr>) s;
       Some (0, if current = thd then chal_tls_update E tlsaddr s else s)
     }
   }"

section \<open>Components\<close>

definition comp_activate ::
  "kenv \<Rightarrow> addr \<Rightarrow> capid \<Rightarrow> capid \<Rightarrow> capid \<Rightarrow> capid \<Rightarrow> u32 \<Rightarrow> u32 \<Rightarrow> addr \<Rightarrow> (kst, int) kop" where
  "comp_activate E t cap capin captbl_cap pgtbl_cap lid entry_addr sa s = do {
     ctc \<leftarrow> captbl_lkup s t captbl_cap;
     if \<not> CAP_TYPECHK s ctc CAP_CAPTBL \<or> tbl_lvl (tbls s ctc) > 0 then Some (- EINVAL, s)
     else do {
       ptc \<leftarrow> captbl_lkup s t pgtbl_cap;
       if \<not> CAP_TYPECHK s ptc CAP_PGTBL \<or> tbl_lvl (tbls s ptc) > 0 then Some (- EINVAL, s)
       else do {
         let v = refcnt_flags (tbls s ptc);
         if v AND CAP_MEM_FROZEN_FLAG \<noteq> 0 then Some (- EINVAL, s)
         else do {
           let (r, s) = refcnt_cas ptc v (v + 1) s;
           if r \<noteq> CAS_SUCCESS then Some (- ECASFAIL, s)
           else do {
             let v = refcnt_flags (tbls s ctc);
             if v AND CAP_MEM_FROZEN_FLAG \<noteq> 0 then Some (- EINVAL, refcnt_faa ptc (- 1) s)
             else do {
               let (r, s) = refcnt_cas ctc v (v + 1) s;
               if r \<noteq> CAS_SUCCESS then Some (- ECASFAIL, refcnt_faa ptc (- 1) s)
               else do {
                 ((compc, ret), s) \<leftarrow> cap_capactivate_pre E t cap capin CAP_COMP s;
                 if compc = 0 then Some (ret, refcnt_faa ptc (- 1) (refcnt_faa ctc (- 1) s))
                 else do {
                   (_, ld) \<leftarrow> ltbl_get (ltb s) lid (ci_liveness (co_info (comps s compc)));
                   Some (0, s\<lparr>comps := (comps s)(compc :=
                     \<lparr>co_entry_addr = entry_addr, co_pgd = ptc, co_ct_top = ctc,
                      co_info = \<lparr>ci_liveness = ld, ci_pgtbl = tbl (tbls s ptc), ci_captbl = tbl (tbls s ctc), ci_comp_nfo = sa\<rparr>\<rparr>)\<rparr>)
                 }
               }
             }
           }
         }
       }
     }
   }"

text \<open>\<^verbatim>\<open>comp_deactivate\<close> reads the header it looked up without a test for the null pointer.\<close>

definition comp_deactivate :: "kenv \<Rightarrow> addr \<Rightarrow> capid \<Rightarrow> u32 \<Rightarrow> (kst, int) kop" where
  "comp_deactivate E ct capin lid s = do {
     compc \<leftarrow> captbl_lkup s (tbl (tbls s ct)) capin;
     kassert (compc \<noteq> 0);
     if h_type (hdr s compc) \<noteq> CAP_COMP then Some (- EINVAL, s)
     else do {
       (_, lt) \<leftarrow> ltbl_expire (ke_tsc E 0) (ci_liveness (co_info (comps s compc))) (ltb s);
       let s = s\<lparr>ltb := lt\<rparr>;
       let pgd = co_pgd (comps s compc);
       let ct_top = co_ct_top (comps s compc);
       (ret, s) \<leftarrow> cap_capdeactivate ct capin CAP_COMP lid s;
       if ret \<noteq> 0 then Some (ret, s)
       else Some (0, refcnt_faa ct_top (- 1) (refcnt_faa pgd (- 1) s))
     }
   }"

section \<open>Invocation and return capabilities\<close>

definition sinv_activate :: "kenv \<Rightarrow> addr \<Rightarrow> capid \<Rightarrow> capid \<Rightarrow> capid \<Rightarrow> u32 \<Rightarrow> u32 \<Rightarrow> (kst, int) kop" where
  "sinv_activate E t cap capin comp_cap entry_addr token s = do {
     compc \<leftarrow> captbl_lkup s t comp_cap;
     if \<not> CAP_TYPECHK s compc CAP_COMP then Some (- EINVAL, s)
     else do {
       ((sinvc, ret), s) \<leftarrow> cap_capactivate_pre E t cap capin CAP_SINV s;
       if sinvc = 0 then Some (ret, s)
       else Some (0, s\<lparr>sinvs := (sinvs s)(sinvc :=
              \<lparr>si_comp_info = co_info (comps s compc), si_entry_addr = entry_addr, si_token = token\<rparr>)\<rparr>)
     }
   }"

definition sinv_deactivate :: "addr \<Rightarrow> capid \<Rightarrow> u32 \<Rightarrow> (kst, int) kop" where
  "sinv_deactivate t capin lid = cap_capdeactivate t capin CAP_SINV lid"

definition sret_activate :: "kenv \<Rightarrow> addr \<Rightarrow> capid \<Rightarrow> capid \<Rightarrow> (kst, int) kop" where
  "sret_activate E t cap capin s = do {
     ((sretc, ret), s) \<leftarrow> cap_capactivate_pre E t cap capin CAP_SRET s;
     if sretc = 0 then Some (ret, s) else Some (0, s)
   }"

definition sret_deactivate :: "addr \<Rightarrow> capid \<Rightarrow> u32 \<Rightarrow> (kst, int) kop" where
  "sret_deactivate t capin lid = cap_capdeactivate t capin CAP_SRET lid"

section \<open>Asynchronous end-points\<close>

text \<open>\<^verbatim>\<open>asnd_construct\<close>: the body it writes; the type of the header becomes \<^verbatim>\<open>CAP_ASND\<close>.\<close>

definition asnd_construct :: "kenv \<Rightarrow> cap_arcv \<Rightarrow> capid \<Rightarrow> u32 \<Rightarrow> u32 \<Rightarrow> cap_asnd" where
  "asnd_construct E arcvc rcv_cap bdgt period =
     \<lparr>as_cpuid = ke_cpu E, as_arcv_cpuid = ar_cpuid arcvc, as_arcv_capid = rcv_cap, as_arcv_epoch = ar_epoch arcvc,
      as_comp_info = ar_comp_info arcvc, as_budget = bdgt, as_period = period, as_replenish_amnt = bdgt\<rparr>"

definition asnd_activate :: "kenv \<Rightarrow> addr \<Rightarrow> capid \<Rightarrow> capid \<Rightarrow> capid \<Rightarrow> capid \<Rightarrow> u32 \<Rightarrow> u32 \<Rightarrow> (kst, int) kop" where
  "asnd_activate E t cap capin rcv_captbl rcv_cap bdgt period s = do {
     rcv_ct \<leftarrow> captbl_lkup s t rcv_captbl;
     if \<not> CAP_TYPECHK s rcv_ct CAP_CAPTBL then Some (- EINVAL, s)
     else do {
       arcvc \<leftarrow> captbl_lkup s (tbl (tbls s rcv_ct)) rcv_cap;
       if \<not> CAP_TYPECHK s arcvc CAP_ARCV then Some (- EINVAL, s)
       else do {
         ((asndc, ret), s) \<leftarrow> cap_capactivate_pre E t cap capin CAP_ASND s;
         if asndc = 0 then Some (ret, s)
         else do {
           let s = s\<lparr>asnds := (asnds s)(asndc := asnd_construct E (arcvs s arcvc) rcv_cap bdgt period)\<rparr>;
           Some (0, wr_hdr asndc ((hdr s asndc)\<lparr>h_type := CAP_ASND\<rparr>) s)
         }
       }
     }
   }"

definition asnd_deactivate :: "addr \<Rightarrow> capid \<Rightarrow> u32 \<Rightarrow> (kst, int) kop" where
  "asnd_deactivate t capin lid = cap_capdeactivate t capin CAP_ASND lid"

definition ARCV_NOTIF_DEPTH :: nat where [simp]: "ARCV_NOTIF_DEPTH = 8"

definition arcv_setup :: "addr \<Rightarrow> addr \<Rightarrow> addr \<Rightarrow> addr \<Rightarrow> kst \<Rightarrow> kst option" where
  "arcv_setup arcv thd tc notif s = do {
     kassert (arcv \<noteq> 0 \<and> thd \<noteq> 0 \<and> tc \<noteq> 0 \<and> \<not> thd_bound2rcvcap s thd);
     let s = s\<lparr>arcvs := (arcvs s)(arcv := (arcvs s arcv)\<lparr>ar_thd := thd\<rparr>)\<rparr>;
     let s = upd_rcvcap thd (\<lambda>rc. rc\<lparr>rcvcap_thd_notif := notif\<rparr>) s;
     let s = thd_scheduler_set thd notif s;
     let s = (if notif \<noteq> 0 then thd_rcvcap_take notif s else s);
     let s = upd_rcvcap thd (\<lambda>rc. rc\<lparr>isbound := True\<rparr>) s;
     let s = upd_rcvcap thd (\<lambda>rc. rc\<lparr>rcvcap_tcap := tc\<rparr>) s;
     let s = tcap_ref_take tc s;
     Some (tcap_promote tc thd s)
   }"

definition arcv_teardown :: "addr \<Rightarrow> addr \<Rightarrow> (kst, int) kop" where
  "arcv_teardown arcv thd s = do {
     let tc = rcvcap_tcap (rcvcap (thds s thd));
     kassert (tc \<noteq> 0);
     if 1 <s tcap_ref s tc \<and> arcv_ep (tcaps s tc) = thd then Some (- 1, s)
     else do {
       let notif = rcvcap_thd_notif (rcvcap (thds s thd));
       let s = (if notif \<noteq> 0 then thd_rcvcap_release notif s else s);
       let s = upd_rcvcap thd (\<lambda>rc. rc\<lparr>isbound := False\<rparr>) s;
       let s = upd_rcvcap thd (\<lambda>rc. rc\<lparr>rcvcap_tcap := 0\<rparr>) s;
       let s = tcap_ref_release tc s;
       Some (0, upd_tcap tc (\<lambda>c. c\<lparr>arcv_ep := 0\<rparr>) s)
     }
   }"

definition arcv_thd_notif :: "kst \<Rightarrow> addr \<Rightarrow> addr" where
  "arcv_thd_notif s arcvt = rcvcap_thd_notif (rcvcap (thds s arcvt))"

text \<open>
  The depth of the parent end-point, one byte wide, and the thread that gets the notifications; with
  \<open>init\<close> the thread notifies itself.
\<close>

definition arcv_activate ::
  "kenv \<Rightarrow> addr \<Rightarrow> capid \<Rightarrow> capid \<Rightarrow> capid \<Rightarrow> capid \<Rightarrow> capid \<Rightarrow> capid \<Rightarrow> bool \<Rightarrow> (kst, int) kop" where
  "arcv_activate E t cap capin comp_cap thd_cap tcap_cap arcv_cap init s = do {
     compc \<leftarrow> captbl_lkup s t comp_cap;
     if \<not> CAP_TYPECHK s compc CAP_COMP then Some (- EINVAL, s)
     else do {
       thdc \<leftarrow> captbl_lkup s t thd_cap;
       if \<not> CAP_TYPECHK_CORE E s thdc CAP_THD (ct_cpuid (cthds s thdc)) then Some (- EINVAL, s)
       else do {
         let thd = ct_t (cthds s thdc);
         tcapc \<leftarrow> captbl_lkup s t tcap_cap;
         if \<not> CAP_TYPECHK_CORE E s tcapc CAP_TCAP (cc_cpuid (ctcaps s tcapc)) then Some (- EINVAL, s)
         else if thd_bound2rcvcap s thd then Some (- EINVAL, s)
         else do {
           kassert (rcvcap_tcap (rcvcap (thds s thd)) = 0);
           arcv_p \<leftarrow> (if init then Some 0 else captbl_lkup s t arcv_cap);
           let depth = (if init then 0 else ar_depth (arcvs s arcv_p) + 1);
           if \<not> init \<and> \<not> CAP_TYPECHK_CORE E s arcv_p CAP_ARCV (ar_cpuid (arcvs s arcv_p)) then Some (- EINVAL, s)
           else if \<not> init \<and> unat depth \<ge> ARCV_NOTIF_DEPTH then Some (- EINVAL, s)
           else do {
             ((arcvc, ret), s) \<leftarrow> cap_capactivate_pre E t cap capin CAP_ARCV s;
             if arcvc = 0 then Some (ret, s)
             else do {
               let s = s\<lparr>arcvs := (arcvs s)(arcvc := (arcvs s arcvc)\<lparr>ar_comp_info := co_info (comps s compc),
                         ar_epoch := 0, ar_cpuid := ke_cpu E, ar_depth := depth\<rparr>)\<rparr>;
               s \<leftarrow> arcv_setup arcvc thd (cc_tcap (ctcaps s tcapc)) (if init then thd else ar_thd (arcvs s arcv_p)) s;
               Some (0, s)
             }
           }
         }
       }
     }
   }"

definition arcv_deactivate :: "kenv \<Rightarrow> addr \<Rightarrow> capid \<Rightarrow> u32 \<Rightarrow> (kst, int) kop" where
  "arcv_deactivate E t capin lid s = do {
     arcvc \<leftarrow> captbl_lkup s (tbl (tbls s t)) capin;
     if \<not> CAP_TYPECHK_CORE E s arcvc CAP_ARCV (ar_cpuid (arcvs s arcvc)) then Some (- EINVAL, s)
     else if thd_rcvcap_isreferenced s (ar_thd (arcvs s arcvc)) then Some (- EBUSY, s)
     else do {
       (r, s) \<leftarrow> arcv_teardown arcvc (ar_thd (arcvs s arcvc)) s;
       if r \<noteq> 0 then Some (- EBUSY, s) else cap_capdeactivate t capin CAP_ARCV lid s
     }
   }"

section \<open>Temporal capabilities and interrupts\<close>

definition tcap_activate :: "kenv \<Rightarrow> addr \<Rightarrow> capid \<Rightarrow> capid \<Rightarrow> addr \<Rightarrow> (kst, int) kop" where
  "tcap_activate E t cap capin tcap_new s = do {
     kassert (tcap_new \<noteq> 0);
     let s = tcap_init (ke_cpu E) tcap_new s;
     ((tc, ret), s) \<leftarrow> cap_capactivate_pre E t cap capin CAP_TCAP s;
     if tc = 0 then Some (ret, s)
     else Some (0, s\<lparr>ctcaps := (ctcaps s)(tc := \<lparr>cc_tcap = tcap_new, cc_cpuid = tc_cpuid (tcaps s tcap_new)\<rparr>)\<rparr>)
   }"

definition HW_IRQ_TOTAL :: nat where "HW_IRQ_TOTAL = 256"
definition HW_IRQ_EXTERNAL_MIN :: u32 where "HW_IRQ_EXTERNAL_MIN = 32"
definition HW_IRQ_EXTERNAL_MAX :: u32 where "HW_IRQ_EXTERNAL_MAX = 63"

definition hw_asndcap_init :: "kst \<Rightarrow> kst" where
  "hw_asndcap_init s = s\<lparr>hw_asnd_caps := (\<lambda>i. if i < HW_IRQ_TOTAL then (CAP_FREE, asnd_zero) else hw_asnd_caps s i)\<rparr>"

definition hw_activate :: "kenv \<Rightarrow> addr \<Rightarrow> capid \<Rightarrow> capid \<Rightarrow> u32 \<Rightarrow> (kst, int) kop" where
  "hw_activate E t cap capin bitmap s = do {
     ((hwc, ret), s) \<leftarrow> cap_capactivate_pre E t cap capin CAP_HW s;
     if hwc = 0 then Some (ret, s) else Some (0, s\<lparr>hws := (hws s)(hwc := \<lparr>hw_bitmap = bitmap\<rparr>)\<rparr>)
   }"

definition hw_deactivate :: "addr \<Rightarrow> capid \<Rightarrow> u32 \<Rightarrow> (kst, int) kop" where
  "hw_deactivate t capin lid = cap_capdeactivate t capin CAP_HW lid"

definition hw_permits :: "u32 \<Rightarrow> u32 \<Rightarrow> bool" where
  "hw_permits bitmap hwid \<longleftrightarrow> \<not> (hwid < HW_IRQ_EXTERNAL_MIN \<or> hwid > HW_IRQ_EXTERNAL_MAX) \<and>
     bitmap AND push_bit (unat (hwid - HW_IRQ_EXTERNAL_MIN)) 1 \<noteq> 0"

definition hw_attach_rcvcap :: "kenv \<Rightarrow> addr \<Rightarrow> u32 \<Rightarrow> addr \<Rightarrow> capid \<Rightarrow> kst \<Rightarrow> int \<times> kst" where
  "hw_attach_rcvcap E hwc hwid rcvc rcv_cap s =
     (if \<not> hw_permits (hw_bitmap (hws s hwc)) hwid then (- EINVAL, s)
      else if fst (hw_asnd_caps s (unat hwid)) = CAP_ASND then (- EEXIST, s)
      else (0, s\<lparr>hw_asnd_caps := (hw_asnd_caps s)(unat hwid := (CAP_ASND, asnd_construct E (arcvs s rcvc) rcv_cap 0 0))\<rparr>))"

definition hw_detach_rcvcap :: "addr \<Rightarrow> u32 \<Rightarrow> kst \<Rightarrow> int \<times> kst" where
  "hw_detach_rcvcap hwc hwid s =
     (if \<not> hw_permits (hw_bitmap (hws s hwc)) hwid then (- EINVAL, s)
      else (0, s\<lparr>hw_asnd_caps := (hw_asnd_caps s)(unat hwid := (CAP_FREE, asnd_zero))\<rparr>))"

section \<open>Invocation paths\<close>

definition pgtbl_update :: "kenv \<Rightarrow> u32 \<Rightarrow> kst \<Rightarrow> kst" where
  "pgtbl_update E pt = upd_cli (ke_cpu E) (\<lambda>i. i\<lparr>cr3 := pt\<rparr>)"

text \<open>The thread identifier and core that a server sees in its first register.\<close>

definition thd_reg :: "kenv \<Rightarrow> kst \<Rightarrow> addr \<Rightarrow> u32" where
  "thd_reg E s thd = ucast (tid (thds s thd)) OR push_bit 16 (of_nat (ke_cpu E))"

definition sinv_call :: "kenv \<Rightarrow> addr \<Rightarrow> addr \<Rightarrow> pt_regs \<Rightarrow> (kst, pt_regs) kop" where
  "sinv_call E thd sinvc r s = do {
     let ip = userregs_getip r;
     let sp = userregs_getsp r;
     let sinv = sinvs s sinvc;
     alive \<leftarrow> ltbl_isalive (ltb s) (ci_liveness (si_comp_info sinv));
     if \<not> alive then Some (userregs_set (ret_reg (- EFAULT)) (userregs_getsp r) (userregs_getip r) r, s)
     else do {
       (ret, s) \<leftarrow> thd_invstk_push (ke_cpu E) thd (si_comp_info sinv) ip sp s;
       if ret \<noteq> 0 then Some (userregs_set (ret_reg (- 1)) sp ip r, s)
       else do {
         let s = pgtbl_update E (ci_pgtbl (si_comp_info sinv)) s;
         let r = userregs_sinvupdate r;
         Some (userregs_set (thd_reg E s thd) (si_token sinv) (si_entry_addr sinv) r, s)
       }
     }
   }"

definition sret_ret :: "kenv \<Rightarrow> addr \<Rightarrow> pt_regs \<Rightarrow> (kst, pt_regs) kop" where
  "sret_ret E thd r s = do {
     (e, s) \<leftarrow> thd_invstk_pop (ke_cpu E) thd s;
     case e of
       None \<Rightarrow> Some (userregs_set 0xDEADDEAD 0 0 r, s)
     | Some (ci, ip, sp) \<Rightarrow> do {
         alive \<leftarrow> ltbl_isalive (ltb s) (ci_liveness ci);
         if \<not> alive then Some (userregs_set (ret_reg (- EFAULT)) (userregs_getsp r) (userregs_getip r) r, s)
         else do {
           let s = pgtbl_update E (ci_pgtbl ci) s;
           Some (userregs_set (userregs_getinvret r) sp ip r, s)
         }
       }
   }"

section \<open>Frames\<close>

text \<open>The operations on capability slots leave the kernel objects and the liveness table alone.\<close>

definition objs_kept :: "'z kmem_scheme \<Rightarrow> 'z kmem_scheme \<Rightarrow> bool" where
  "objs_kept s s' \<longleftrightarrow> kmem.more s' = kmem.more s \<and> ltb s' = ltb s"

lemma objs_kept_kst:
  assumes "objs_kept s (s' :: kst)"
  shows "ltb s' = ltb s" "comps s' = comps s" "sinvs s' = sinvs s" "thds s' = thds s" "cli s' = cli s"
  using assms by (cases s; cases s'; simp add: objs_kept_def)+

lemma objs_kept_wr [simp]:
  "objs_kept s (wr_hdr a h t) \<longleftrightarrow> objs_kept s t" "objs_kept s (wr_tbl a b t) \<longleftrightarrow> objs_kept s t"
  "objs_kept s (refcnt_faa a n t) \<longleftrightarrow> objs_kept s t"
  by (simp_all add: objs_kept_def wr_hdr_def wr_tbl_def refcnt_faa_def)

lemma objs_kept_refl [simp]: "objs_kept s s" by (simp add: objs_kept_def)

lemma objs_kept_unalloc: "objs_kept s (snd (captbl_unalloc mark h p lid s))"
  by (simp add: captbl_unalloc_def ctstore_def Let_def case_prod_beta)

lemma objs_kept_clear:
  assumes "captbl_clear t cap type lid s = Some (r, s')" shows "objs_kept s s'"
proof -
  have "s' = s \<or> (\<exists>h p. captbl_unalloc CAP_FREE h p lid s = (r, s'))"
    using assms by (auto simp: captbl_clear_def Let_def kassert_bind split: if_splits Option.bind_splits)
  then show ?thesis using objs_kept_unalloc by (metis objs_kept_refl snd_conv)
qed

lemma objs_kept_capdeactivate: "cap_capdeactivate ct cap type lid s = Some (r, s') \<Longrightarrow> objs_kept s s'"
  by (auto simp: cap_capdeactivate_def objs_kept_clear split: if_splits)

section \<open>Invocations\<close>

lemma sinv_call_dead:
  assumes "ltbl_isalive (ltb s) (ci_liveness (si_comp_info (sinvs s sinvc))) = Some False"
  shows "sinv_call E thd sinvc r s = Some (userregs_set (ret_reg (- EFAULT)) (userregs_getsp r) (userregs_getip r) r, s)"
  using assms by (simp add: sinv_call_def)

lemma comp_deactivate_expires:
  assumes "comp_deactivate E ct capin lid s = Some (ret, s')" "captbl_lkup s (tbl (tbls s ct)) capin = Some compc"
    "h_type (hdr s compc) = CAP_COMP" "ltbl_isalive (ltb s) (ci_liveness (co_info (comps s compc))) = Some True"
  shows "ltbl_isalive (ltb s') (ci_liveness (co_info (comps s compc))) = Some False"
    "sinvs s' = sinvs s" "thds s' = thds s" "cli s' = cli s"
proof -
  let ?ld = "ci_liveness (co_info (comps s compc))"
  have lid: "ld_id ?ld < LTBL_ENTS" and ep: "epoch (ltb s (ld_id ?ld)) = ld_epoch ?ld"
    using assms(4) by (auto simp: ltbl_isalive_def ltbl_lkup_def kassert_bind split: if_splits Option.bind_splits)
  obtain lt r1 s1 where ex: "ltbl_expire (ke_tsc E 0) ?ld (ltb s) = Some (r1, lt)"
    and cl: "cap_capdeactivate ct capin CAP_COMP lid (s\<lparr>ltb := lt\<rparr>) = Some (ret, s1)"
    and s': "s' = (if ret \<noteq> 0 then s1 else refcnt_faa (co_ct_top (comps s compc)) (- 1) (refcnt_faa (co_pgd (comps s compc)) (- 1) s1))"
    using assms(1,2,3) by (auto simp: comp_deactivate_def bind_prod_Some kassert_bind Let_def split: if_splits)
  have "objs_kept (s\<lparr>ltb := lt\<rparr>) s'"
    using objs_kept_capdeactivate [OF cl] by (simp add: s')
  note k = objs_kept_kst [OF this]
  show "sinvs s' = sinvs s" "thds s' = thds s" "cli s' = cli s" using k by simp_all
  have "epoch (lt (ld_id ?ld)) \<noteq> ld_epoch ?ld"
    using ex ltbl_expire_eq [OF lid] set_lo32_inj [of "ld_epoch ?ld" _ "lo32 (ld_epoch ?ld)"] by (auto simp: ep)
  then show "ltbl_isalive (ltb s') ?ld = Some False"
    using lid k(1) by (simp add: ltbl_isalive_def ltbl_lkup_ok)
qed

section \<open>Properties of kernel objects\<close>

text \<open>
  C12. Deactivating a component revokes every right to it at once: whatever its own result, from then on
  an invocation of the component through any capability fails with \<^verbatim>\<open>-EFAULT\<close> and changes nothing, and a
  thread that would return into the component, because it is on its invocation stack, faults too.
\<close>

theorem comp_deactivate_revokes:
  assumes "comp_deactivate E ct capin lid s = Some (ret, s')" "captbl_lkup s (tbl (tbls s ct)) capin = Some compc"
    "h_type (hdr s compc) = CAP_COMP" "ltbl_isalive (ltb s) (ci_liveness (co_info (comps s compc))) = Some True"
  shows "(ci_liveness (si_comp_info (sinvs s sinvc)) = ci_liveness (co_info (comps s compc)) \<longrightarrow>
      sinv_call E' thd sinvc r s' =
        Some (userregs_set (ret_reg (- EFAULT)) (userregs_getsp r) (userregs_getip r) r, s')) \<and>
    (let n = invstk_top (cli s (ke_cpu E')) in
      0 < n \<and> n \<le> THD_INVSTK_MAXSZ \<and>
      ci_liveness (is_comp_info (invstk (thds s thd) (n - 1))) = ci_liveness (co_info (comps s compc)) \<longrightarrow>
      sret_ret E' thd r s' =
        Some (userregs_set (ret_reg (- EFAULT)) (userregs_getsp r) (userregs_getip r) r, curr_invstk_dec (ke_cpu E') s'))"
proof -
  note k = comp_deactivate_expires [OF assms]
  have "ltb (curr_invstk_dec c s') = ltb s'" for c by (simp add: curr_invstk_dec_def upd_cli_def)
  then show ?thesis using k(1) by (auto simp: k(2-4) sinv_call_dead sret_ret_def invstk_pop_eq Let_def)
qed

text \<open>
  C13. A synchronous invocation and the return from it are inverse: when the server is alive and the
  stack has room, the call enters the server at its entry address, under the server's page table.
  Whatever the server does, with any registers \<open>r2\<close> and in any state \<open>s2\<close> in which the thread's
  invocation stack is as deep as on entry with the caller's entry in place and the caller alive, the
  return resumes the caller at the instruction and stack pointers of the call, under the caller's page
  table, with the result register of the server.
\<close>

theorem sinv_sret_roundtrip:
  assumes "invstk_top (cli s (ke_cpu E)) = n" "n < THD_INVSTK_MAXSZ - 1"
    "ltbl_isalive (ltb s) (ci_liveness (si_comp_info (sinvs s sinvc))) = Some True"
  shows "\<exists>r1 s1. sinv_call E thd sinvc r s = Some (r1, s1) \<and>
    r_ip r1 = si_entry_addr (sinvs s sinvc) \<and> cr3 (cli s1 (ke_cpu E)) = ci_pgtbl (si_comp_info (sinvs s sinvc)) \<and>
    (\<forall>r2 s2. invstk_top (cli s2 (ke_cpu E)) = invstk_top (cli s1 (ke_cpu E)) \<and>
       invstk (thds s2 thd) n = invstk (thds s1 thd) n \<and>
       ltbl_isalive (ltb s2) (ci_liveness (is_comp_info (invstk (thds s thd) n))) = Some True \<longrightarrow>
       (\<exists>s3. sret_ret E thd r2 s2 = Some (userregs_set (userregs_getinvret r2) (userregs_getsp r) (userregs_getip r) r2, s3) \<and>
          cr3 (cli s3 (ke_cpu E)) = ci_pgtbl (is_comp_info (invstk (thds s thd) n)) \<and>
          invstk_top (cli s3 (ke_cpu E)) = n))"
proof -
  let ?c = "ke_cpu E" and ?ci = "si_comp_info (sinvs s sinvc)"
  define s1 where "s1 = pgtbl_update E (ci_pgtbl ?ci)
    (upd_thd thd (pushed n ?ci (userregs_getip r) (userregs_getsp r)) (curr_invstk_inc ?c s))"
  have call: "sinv_call E thd sinvc r s =
      Some (userregs_set (thd_reg E s1 thd) (si_token (sinvs s sinvc)) (si_entry_addr (sinvs s sinvc)) (userregs_sinvupdate r), s1)"
    using assms by (simp add: sinv_call_def invstk_push_eq s1_def Let_def)
  have s1: "invstk_top (cli s1 ?c) = n + 1" "cr3 (cli s1 ?c) = ci_pgtbl ?ci"
    "invstk (thds s1 thd) n = \<lparr>is_comp_info = is_comp_info (invstk (thds s thd) n), is_sp = userregs_getsp r, is_ip = userregs_getip r\<rparr>"
    using assms(1) by (simp_all add: s1_def pgtbl_update_def upd_defs curr_invstk_inc_def pushed_def)
  have "\<exists>s3. sret_ret E thd r2 s2 = Some (userregs_set (userregs_getinvret r2) (userregs_getsp r) (userregs_getip r) r2, s3) \<and>
      cr3 (cli s3 ?c) = ci_pgtbl (is_comp_info (invstk (thds s thd) n)) \<and> invstk_top (cli s3 ?c) = n"
    if "invstk_top (cli s2 ?c) = n + 1" "invstk (thds s2 thd) n = invstk (thds s1 thd) n"
      "ltbl_isalive (ltb s2) (ci_liveness (is_comp_info (invstk (thds s thd) n))) = Some True" for r2 s2
    using that assms(2) s1(3) by (simp add: sret_ret_def invstk_pop_eq pgtbl_update_def curr_invstk_dec_def upd_cli_def)
  with call s1 show ?thesis by (auto simp: userregs_set_def)
qed

section \<open>A component in a table\<close>

text \<open>The capability at 0x7000 is a table whose slot 4 holds a component.\<close>

definition ex_ckmem :: kmem where
  "ex_ckmem = wr_tbl 0x7000 (ex_tbls 0x1840) (wr_hdr 0x7000 (captbl_free_hdr\<lparr>h_type := CAP_CAPTBL\<rparr>) (added 0x1840 CAP_COMP ex_kmem))"

lemma ex_ckmem_hdr:
  "hdr ex_ckmem 0x1840 = \<lparr>h_liveness_id = 0, h_amap = 1, h_size = CAP_SZ_64B, h_flags = 0, h_type = CAP_COMP\<rparr>"
  "hdr ex_ckmem 0x7000 = captbl_free_hdr\<lparr>h_type := CAP_CAPTBL\<rparr>" "tbl (tbls ex_ckmem 0x7000) = 0x1000"
  by (simp_all add: ex_ckmem_def added_def ex_msk) (simp_all add: ex_kmem_def captbl_free_hdr_def ex_tbls_def)

lemma ex_comp_slot: "captbl_slot (idle_kst ex_ckmem) 0x1000 4 = 0x1840"
  by (simp add: captbl_slot_def ex_ckmem_def ex_kmem_def mask_eq_exp_minus_1 drop_bit_eq_div)

lemma ex_comp_leaf: "captbl_getleaf (idle_kst ex_ckmem) 0x1840 = 0x1840"
  by (simp add: captbl_getleaf_def Let_def ex_msk ex_ckmem_hdr cap_off_def)

lemma ex_comp_lkup: "captbl_lkup (idle_kst ex_ckmem) 0x1000 4 = Some 0x1840"
  using captbl_lkup_leaf [of "0x1000" 4 "idle_kst ex_ckmem"] by (simp add: ex_comp_slot ex_comp_leaf)

lemma ex_comp_sel: "comps (idle_kst k) a = \<lparr>co_entry_addr = 0, co_pgd = 0, co_ct_top = 0, co_info = comp_info_zero\<rparr>"
  "sinvs (idle_kst k) a = \<lparr>si_comp_info = comp_info_zero, si_entry_addr = 0, si_token = 0\<rparr>"
  by (simp_all add: idle_kst_def kmem.defs kst.defs)

lemma ex_comp_alive: "ltbl_isalive (ltb (idle_kst ex_ckmem)) (ci_liveness comp_info_zero) = Some True"
  by (simp add: ltbl_isalive_def ltbl_lkup_def LTBL_ENTS_eq comp_info_zero_def ex_ckmem_def ex_kmem_def)

lemma ex_comp_deactivate: "\<exists>s'. comp_deactivate E 0x7000 4 9 (idle_kst ex_ckmem) = Some (0, s')"
proof -
  let ?s = "idle_kst ex_ckmem"
  have id: "ld_id (ci_liveness comp_info_zero) < LTBL_ENTS" by (simp add: comp_info_zero_def LTBL_ENTS_eq)
  obtain lt where lt: "ltbl_expire (ke_tsc E 0) (ci_liveness comp_info_zero) (ltb ?s) = Some (0, lt)"
    using ltbl_expire_eq [OF id] by blast
  have slot: "captbl_slot (?s\<lparr>ltb := lt\<rparr>) 0x1000 4 = 0x1840" "captbl_getleaf (?s\<lparr>ltb := lt\<rparr>) 0x1840 = 0x1840"
    using ex_comp_slot by (simp_all add: captbl_slot_def captbl_getleaf_def Let_def ex_msk ex_ckmem_hdr cap_off_def)
  have "captbl_clear 0x1000 4 CAP_COMP 9 (?s\<lparr>ltb := lt\<rparr>) = Some (0, removed CAP_FREE 0x1840 9 (?s\<lparr>ltb := lt\<rparr>))"
    using captbl_unalloc_eq [of CAP_FREE "0x1840" 9 "?s\<lparr>ltb := lt\<rparr>"]
    by (simp add: captbl_clear_def captbl_lkupan_slot slot ex_ckmem_hdr ex_msk kassert_bind CAP_FLAG_RO_def cap_off_def)
  then show ?thesis using lt
    by (simp add: comp_deactivate_def ex_ckmem_hdr ex_comp_lkup ex_comp_sel cap_capdeactivate_def)
qed

theorem comp_deactivate_revokes_witness:
  "\<exists>s'. comp_deactivate ex_env 0x7000 4 9 (idle_kst ex_ckmem) = Some (0, s') \<and>
    sinv_call ex_env 0x5000 0x6000 pt_regs_zero s' = Some (userregs_set (ret_reg (- EFAULT)) 0 0 pt_regs_zero, s')"
proof -
  obtain s' where s': "comp_deactivate ex_env 0x7000 4 9 (idle_kst ex_ckmem) = Some (0, s')" using ex_comp_deactivate by blast
  from comp_deactivate_revokes [OF this, of "0x1840" "0x6000" ex_env "0x5000" pt_regs_zero] ex_comp_alive
  have "sinv_call ex_env 0x5000 0x6000 pt_regs_zero s' = Some (userregs_set (ret_reg (- EFAULT)) 0 0 pt_regs_zero, s')"
    by (simp add: ex_ckmem_hdr ex_comp_lkup ex_comp_sel userregs_getsp_def userregs_getip_def pt_regs_zero_def)
  with s' show ?thesis by blast
qed

theorem sinv_sret_roundtrip_witness:
  "\<exists>r1 s1 s3. sinv_call ex_env 0x5000 0x6000 (pt_regs_zero\<lparr>r_bp := 40, r_cx := 80\<rparr>) (idle_kst ex_ckmem) = Some (r1, s1) \<and>
    sret_ret ex_env 0x5000 r1 s1 = Some (userregs_set (userregs_getinvret r1) 40 80 r1, s3)"
proof -
  let ?s = "idle_kst ex_ckmem" and ?r = "pt_regs_zero\<lparr>r_bp := 40, r_cx := 80\<rparr>"
  have hyps: "invstk_top (cli ?s (ke_cpu ex_env)) = 0" "0 < THD_INVSTK_MAXSZ - 1"
    "ltbl_isalive (ltb ?s) (ci_liveness (si_comp_info (sinvs ?s 0x6000))) = Some True"
    using ex_comp_alive by (simp_all add: cli_zero_def ex_comp_sel)
  obtain r1 s1 where call: "sinv_call ex_env 0x5000 0x6000 ?r ?s = Some (r1, s1)"
    and ret: "\<forall>r2 s2. invstk_top (cli s2 (ke_cpu ex_env)) = invstk_top (cli s1 (ke_cpu ex_env)) \<and>
       invstk (thds s2 0x5000) 0 = invstk (thds s1 0x5000) 0 \<and>
       ltbl_isalive (ltb s2) (ci_liveness (is_comp_info (invstk (thds ?s 0x5000) 0))) = Some True \<longrightarrow>
       (\<exists>s3. sret_ret ex_env 0x5000 r2 s2 = Some (userregs_set (userregs_getinvret r2) (userregs_getsp ?r) (userregs_getip ?r) r2, s3))"
    using sinv_sret_roundtrip [OF hyps, of "0x5000" ?r] by blast
  have "ltb s1 = ltb ?s"
    using call hyps(3) by (auto simp: sinv_call_def invstk_push_eq pgtbl_update_def upd_defs curr_invstk_inc_def Let_def split: if_splits)
  then have "ltbl_isalive (ltb s1) (ci_liveness (is_comp_info (invstk (thds ?s 0x5000) 0))) = Some True"
    using ex_comp_alive by (simp add: thread_zero_def invstk_entry_zero_def)
  with ret call show ?thesis by (auto simp: userregs_getsp_def userregs_getip_def)
qed

end
