(* ===== verification/Ipi.thy ===== *)
theory Ipi
  imports Kobj
begin

text \<open>
  Notifications between cores, \<^verbatim>\<open>ipi_cap.h\<close>: one ring for every pair of a sending and a receiving core,
  and the handler that empties the rings of a core (\<^verbatim>\<open>capinv.c\<close>).  On i386 \<^verbatim>\<open>chal_send_ipi\<close> and
  \<^verbatim>\<open>chal_attempt_arcv\<close> have no effect.
\<close>

section \<open>One ring\<close>

definition cos_ipi_ring_dequeue :: "xcore_ring \<Rightarrow> ipi_cap_data option \<times> xcore_ring" where
  "cos_ipi_ring_dequeue r =
     (if sender r = receiver r then (None, r)
      else (Some (ring r (unat (receiver r))), r\<lparr>receiver := (receiver r + 1) AND IPI_RING_MASK\<rparr>))"

definition xcore_ring_put :: "ipi_cap_data \<Rightarrow> xcore_ring \<Rightarrow> int \<times> xcore_ring" where
  "xcore_ring_put d r =
     (let tail = sender r;
          delta = (tail + 1) AND IPI_RING_MASK
      in if delta = receiver r then (- 1, r)
         else (0, r\<lparr>sender := delta, ring := (ring r)(unat tail := d)\<rparr>))"

definition asnd_data :: "cap_asnd \<Rightarrow> ipi_cap_data" where
  "asnd_data a = \<lparr>ip_arcv_capid = as_arcv_capid a, ip_arcv_epoch = as_arcv_epoch a, ip_comp_info = as_comp_info a\<rparr>"

section \<open>The rings of the kernel\<close>

definition ipi_ring :: "kst \<Rightarrow> cpuid \<Rightarrow> cpuid \<Rightarrow> xcore_ring" where
  "ipi_ring s dest src = IPI_source (IPI_cap_dest s dest) src"

definition upd_ring :: "cpuid \<Rightarrow> cpuid \<Rightarrow> xcore_ring \<Rightarrow> kst \<Rightarrow> kst" where
  "upd_ring dest src r s =
     s\<lparr>IPI_cap_dest := (IPI_cap_dest s)(dest := (IPI_cap_dest s dest)\<lparr>
        IPI_source := (IPI_source (IPI_cap_dest s dest))(src := r)\<rparr>)\<rparr>"

definition cos_ipi_ring_enqueue :: "kenv \<Rightarrow> cpuid \<Rightarrow> cap_asnd \<Rightarrow> kst \<Rightarrow> int \<times> kst" where
  "cos_ipi_ring_enqueue E dest asnd s =
     (if dest \<ge> NUM_CPU then (- 1, s)
      else let (ret, r) = xcore_ring_put (asnd_data asnd) (ipi_ring s dest (ke_cpu E))
           in (ret, upd_ring dest (ke_cpu E) r s))"

definition cos_cap_send_ipi :: "kenv \<Rightarrow> cpuid \<Rightarrow> cap_asnd \<Rightarrow> kst \<Rightarrow> int \<times> kst" where
  "cos_cap_send_ipi E cpu asnd s =
     (let (ret, s) = cos_ipi_ring_enqueue E cpu asnd s in (if ret \<noteq> 0 then - 1 else 0, s))"





section \<open>A ring is a queue\<close>

definition ring_pos :: "xcore_ring \<Rightarrow> nat \<Rightarrow> nat" where
  "ring_pos r i = (unat (receiver r) + i) mod 16"

definition ring_count :: "xcore_ring \<Rightarrow> nat" where
  "ring_count r = (16 + unat (sender r) - unat (receiver r)) mod 16"

definition ring_holds :: "xcore_ring \<Rightarrow> ipi_cap_data list \<Rightarrow> bool" where
  "ring_holds r xs \<longleftrightarrow> unat (sender r) < 16 \<and> unat (receiver r) < 16 \<and>
     xs = map (\<lambda>i. ring r (ring_pos r i)) [0..<ring_count r]"

lemma unat_ring_next: "unat ((w + 1) AND IPI_RING_MASK) = (unat w + 1) mod 16" if "unat w < 16"
proof -
  have m: "IPI_RING_MASK = mask 4" by (simp add: IPI_RING_MASK_def mask_eq_decr_exp)
  have "unat (w + 1) = unat w + 1"
    using that by (subst unat_add_lem [THEN iffD1]) simp_all
  moreover have "unat (take_bit 4 (w + 1)) = take_bit 4 (unat (w + 1))" by (rule unsigned_take_bit_eq)
  ultimately show ?thesis by (simp only: m take_bit_eq_mask [symmetric]) (simp add: take_bit_eq_mod)
qed

text \<open>Distances and positions on the ring without \<open>mod\<close>.\<close>

lemma ring_dist: "(16 + a - b) mod 16 = (if b \<le> a then a - b else 16 + a - b)" if "a < 16" "b < 16" for a b :: nat
proof (cases "b \<le> a")
  case True
  then have e: "16 + a - b = 16 + (a - b)" by simp
  show ?thesis unfolding e mod_add_self1 using True that by simp
qed (use that in simp)

lemma ring_inc: "Suc a mod 16 = (if a = 15 then 0 else Suc a)" if "a < 16" for a :: nat
  using that by (cases "a = 15") simp_all

lemma ring_wrap: "(b + i) mod 16 = (if b + i < 16 then b + i else b + i - 16)" if "b < 16" "i < 16" for b i :: nat
  using that by (simp add: mod_if)

lemma ring_eq_iff: "sender r = receiver r \<longleftrightarrow> ring_count r = 0" if "unat (sender r) < 16" "unat (receiver r) < 16"
  using that by (auto simp: ring_count_def ring_dist word_unat_eq_iff)

lemma ring_full_iff:
  "(sender r + 1) AND IPI_RING_MASK = receiver r \<longleftrightarrow> ring_count r = 15"
  if "unat (sender r) < 16" "unat (receiver r) < 16"
  using that by (auto simp: ring_count_def ring_dist ring_inc word_unat_eq_iff unat_ring_next)

lemma ring_put_count:
  assumes "unat (sender r) < 16" "unat (receiver r) < 16" "ring_count r < 15"
  shows "ring_count (r\<lparr>sender := (sender r + 1) AND IPI_RING_MASK, ring := f\<rparr>) = ring_count r + 1"
    "ring_pos r (ring_count r) = unat (sender r)" "i < ring_count r \<Longrightarrow> ring_pos r i \<noteq> unat (sender r)"
  using assms
  by (auto simp: ring_count_def ring_pos_def unat_ring_next ring_dist ring_inc ring_wrap split: if_splits)

lemma ring_get_count:
  assumes "unat (sender r) < 16" "unat (receiver r) < 16" "ring_count r \<noteq> 0"
  shows "ring_count r = Suc (ring_count (r\<lparr>receiver := (receiver r + 1) AND IPI_RING_MASK\<rparr>))"
    "ring_pos (r\<lparr>receiver := (receiver r + 1) AND IPI_RING_MASK\<rparr>) i = ring_pos r (Suc i)"
proof -
  show "ring_count r = Suc (ring_count (r\<lparr>receiver := (receiver r + 1) AND IPI_RING_MASK\<rparr>))"
    using assms by (auto simp: ring_count_def unat_ring_next ring_dist ring_inc split: if_splits)
  show "ring_pos (r\<lparr>receiver := (receiver r + 1) AND IPI_RING_MASK\<rparr>) i = ring_pos r (Suc i)"
    using assms by (simp add: ring_pos_def unat_ring_next mod_simps)
qed

lemma ring_put_accept:
  assumes "ring_holds r xs" "length xs < 15"
  shows "\<exists>r'. xcore_ring_put d r = (0, r') \<and> ring_holds r' (xs @ [d])"
proof -
  have b: "unat (sender r) < 16" "unat (receiver r) < 16" and xs: "xs = map (\<lambda>i. ring r (ring_pos r i)) [0..<ring_count r]"
    using assms(1) by (auto simp: ring_holds_def)
  have c: "ring_count r < 15" using assms(2) xs by simp
  define r' where "r' = r\<lparr>sender := (sender r + 1) AND IPI_RING_MASK, ring := (ring r)(unat (sender r) := d)\<rparr>"
  have "ring_pos r' i = ring_pos r i" for i by (simp add: r'_def ring_pos_def)
  moreover have "ring_count r' = Suc (ring_count r)" using ring_put_count(1) [OF b c] by (simp add: r'_def)
  ultimately have "map (\<lambda>i. ring r' (ring_pos r' i)) [0..<ring_count r'] = xs @ [d]"
    using ring_put_count(2,3) [OF b c] by (simp add: xs r'_def)
  moreover have "unat (sender r') < 16" using b by (simp add: r'_def unat_ring_next)
  ultimately have "ring_holds r' (xs @ [d])" using b by (simp add: ring_holds_def r'_def)
  moreover have "xcore_ring_put d r = (0, r')"
    using ring_full_iff [OF b] c by (simp add: xcore_ring_put_def r'_def Let_def)
  ultimately show ?thesis by blast
qed

lemma ring_put_full:
  assumes "ring_holds r xs" "\<not> length xs < 15"
  shows "xcore_ring_put d r = (- 1, r)"
proof -
  have b: "unat (sender r) < 16" "unat (receiver r) < 16" and "ring_count r \<ge> 15"
    using assms by (auto simp: ring_holds_def)
  moreover have "ring_count r < 16" by (simp add: ring_count_def)
  ultimately have "ring_count r = 15" by simp
  then show ?thesis using ring_full_iff [OF b] by (simp add: xcore_ring_put_def Let_def)
qed

lemma ring_get_empty: "ring_holds r [] \<Longrightarrow> cos_ipi_ring_dequeue r = (None, r)"
  by (auto simp: ring_holds_def cos_ipi_ring_dequeue_def ring_eq_iff)

lemma ring_get_first:
  assumes "ring_holds r (x # xs)"
  shows "\<exists>r'. cos_ipi_ring_dequeue r = (Some x, r') \<and> ring_holds r' xs"
proof -
  have b: "unat (sender r) < 16" "unat (receiver r) < 16"
    and xs: "x # xs = map (\<lambda>i. ring r (ring_pos r i)) [0..<ring_count r]"
    using assms by (auto simp: ring_holds_def)
  have c: "ring_count r \<noteq> 0" using xs by (cases "ring_count r") auto
  define r' where "r' = r\<lparr>receiver := (receiver r + 1) AND IPI_RING_MASK\<rparr>"
  note get = ring_get_count [OF b c, folded r'_def]
  have "map (\<lambda>i. ring r (ring_pos r i)) [0..<ring_count r] =
      ring r (ring_pos r 0) # map (\<lambda>i. ring r' (ring_pos r' i)) [0..<ring_count r']"
    unfolding get(1) by (simp add: upt_conv_Cons map_Suc_upt [symmetric] get(2) del: upt_Suc) (simp add: r'_def)
  then have "x = ring r (ring_pos r 0)" "xs = map (\<lambda>i. ring r' (ring_pos r' i)) [0..<ring_count r']"
    using xs by auto
  moreover have "ring_pos r 0 = unat (receiver r)" using b by (simp add: ring_pos_def)
  moreover have "unat (receiver r') < 16" "unat (sender r') < 16" using b by (simp_all add: r'_def unat_ring_next)
  ultimately show ?thesis
    using b c ring_eq_iff [OF b] by (simp add: cos_ipi_ring_dequeue_def ring_holds_def r'_def)
qed

interpretation xr: bounded_queue ring_holds "\<lambda>_. True" "\<lambda>_ xs. length xs < 15"
  "\<lambda>d r. snd (xcore_ring_put d r)" cos_ipi_ring_dequeue
proof unfold_locales
  fix r xs d
  show "ring_holds (snd (xcore_ring_put d r)) (xs @ [d])" if "ring_holds r xs" "length xs < 15"
    using ring_put_accept [OF that, of d] by force
  show "ring_holds (snd (xcore_ring_put d r)) xs" if "ring_holds r xs" "\<not> length xs < 15"
    using ring_put_full [OF that] that by simp
  show "fst (cos_ipi_ring_dequeue r) = None \<and> ring_holds (snd (cos_ipi_ring_dequeue r)) []" if "ring_holds r []"
    using ring_get_empty [OF that] that by simp
  show "fst (cos_ipi_ring_dequeue r) = Some d \<and> ring_holds (snd (cos_ipi_ring_dequeue r)) xs" if "ring_holds r (d # xs)"
    using ring_get_first [OF that] by force
qed

section \<open>Emptying the rings\<close>

lemma upd_ring_sel [simp]:
  "mem (upd_ring d i r s) = mem s" "hdr (upd_ring d i r s) = hdr s" "start (IPI_cap_dest (upd_ring d i r s) e) = start (IPI_cap_dest s e)"
  "ipi_ring (upd_ring d i r s) e j = (if e = d \<and> j = i then r else ipi_ring s e j)"
  "(upd_ring d i r s)\<lparr>IPI_cap_dest := x\<rparr> = s\<lparr>IPI_cap_dest := x\<rparr>"
  by (simp_all add: upd_ring_def ipi_ring_def)
















section \<open>Properties of inter-core notifications\<close>

text \<open>
  C16. A ring between two cores is a bounded queue: whatever sequence of sends and receptions, the
  notifications come out in the order they were sent, none is lost or duplicated unless the ring was full
  when it was sent, and the ring is full with fifteen pending notifications.
\<close>

theorem xcore_ring_fifo:
  assumes "ring_holds r xs"
  shows "fst (qrun (\<lambda>d r. snd (xcore_ring_put d r)) cos_ipi_ring_dequeue ops r) = fst (qspec (\<lambda>_ xs. length xs < 15) ops xs) \<and>
    ring_holds (snd (qrun (\<lambda>d r. snd (xcore_ring_put d r)) cos_ipi_ring_dequeue ops r))
      (snd (qspec (\<lambda>_ xs. length xs < 15) ops xs)) \<and>
    (fst (xcore_ring_put d r) = 0 \<longleftrightarrow> length xs < 15)"
proof -
  have "fst (xcore_ring_put d r) = 0 \<longleftrightarrow> length xs < 15"
    using ring_put_accept [OF assms, of d] ring_put_full [OF assms, of d] by (cases "length xs < 15") auto
  with xr.run_correct [OF assms, of ops] show ?thesis by blast
qed


section \<open>A pending notification\<close>

definition ex_ipi :: ipi_cap_data where
  "ex_ipi = \<lparr>ip_arcv_capid = 4, ip_arcv_epoch = 0, ip_comp_info = comp_info_zero\<lparr>ci_captbl := 0x1000\<rparr>\<rparr>"


lemma ring_zero_holds: "ring_holds ring_zero []"
  by (simp add: ring_holds_def ring_zero_def ring_count_def)

theorem xcore_ring_fifo_witness:
  "ring_holds ring_zero [] \<and>
   fst (qrun (\<lambda>d r. snd (xcore_ring_put d r)) cos_ipi_ring_dequeue [Enq ex_ipi, Enq ex_ipi, Deq, Deq, Deq] ring_zero) =
     [Some ex_ipi, Some ex_ipi, None]"
  using xcore_ring_fifo [OF ring_zero_holds, of "[Enq ex_ipi, Enq ex_ipi, Deq, Deq, Deq]"] ring_zero_holds by simp


end
