(* ===== verification/Capinv.thy ===== *)
theory Capinv
  imports Ipi
begin

text \<open>
  The system-call layer, \<^verbatim>\<open>capinv.c\<close>: dispatching between threads, asynchronous send and receive, timer
  interrupts, and the system call handler with its slow path.  An operation on the user's registers takes
  the saved registers \<open>r\<close> and returns them updated.  \<open>c\<close> or \<open>ke_cpu E\<close> is the core.
\<close>

section \<open>Switching and notification\<close>

definition cap_thd_switch :: "kenv \<Rightarrow> pt_regs \<Rightarrow> addr \<Rightarrow> addr \<Rightarrow> comp_info \<Rightarrow> (kst, int \<times> pt_regs) kop" where
  "cap_thd_switch E r cur nxt ci s = do {
     let c = ke_cpu E;
     e \<leftarrow> invstk_entry s nxt (unat (th_invstk_top (thds s nxt)));
     let next_ci = is_comp_info e;
     kassert (cur \<noteq> 0 \<and> nxt \<noteq> 0);
     kassert (th_cpuid (thds s cur) = c \<and> th_cpuid (thds s nxt) = c);
     if cur = nxt then thd_switch_update cur r True s
     else do {
       alive \<leftarrow> ltbl_isalive (ltb s) (ci_liveness next_ci);
       if \<not> alive
       then do {
         kassert (\<not> st_preempted (thds s cur));
         Some ((0, userregs_set (ret_reg (- EFAULT)) (userregs_getsp r) (userregs_getip r) r), s)
       }
       else do {
         let s = (if \<not> st_preempted (thds s cur)
                  then upd_thd cur (\<lambda>th. th\<lparr>regs := (let q = copy_gp_regs r (regs th)
                         in userregs_set 0 (userregs_getsp q) (userregs_getip q) q)\<rparr>) s
                  else upd_thd cur (\<lambda>th. th\<lparr>regs := copy_all_regs r (regs th)\<rparr>) s);
         let s = thd_current_update nxt cur c s;
         let s = (if ci_pgtbl ci \<noteq> ci_pgtbl next_ci then pgtbl_update E (ci_pgtbl next_ci) s else s);
         let s = (if tls (thds s nxt) \<noteq> tls (thds s cur) then chal_tls_update E (tls (thds s nxt)) s else s);
         ((preempt, q), s) \<leftarrow> thd_switch_update nxt (regs (thds s nxt)) False s;
         let s = upd_thd nxt (\<lambda>th. th\<lparr>regs := q\<rparr>) s;
         let s = (if nt_thd (next_ti (cli s c)) \<noteq> 0 \<and> nt_thd (next_ti (cli s c)) = nxt
                  then thd_next_thdinfo_update c 0 0 0 0 s else s);
         Some ((preempt, copy_all_regs (regs (thds s nxt)) r), s)
       }
     }
   }"

text \<open>The loop of \<^verbatim>\<open>notify_parent\<close>, which asserts that the hierarchy is not deeper than its bound.\<close>

function notify_loop :: "nat \<Rightarrow> addr \<Rightarrow> addr \<Rightarrow> kst \<Rightarrow> kst option" where
  "notify_loop depth curr_notif prev_notif s =
     (if curr_notif \<noteq> 0 \<and> curr_notif \<noteq> prev_notif
      then if depth < ARCV_NOTIF_DEPTH
           then let s = thd_rcvcap_evt_enqueue curr_notif prev_notif s
                in if \<not> st_rcving (thds s curr_notif) then Some s
                   else notify_loop (depth + 1) (arcv_thd_notif s curr_notif) curr_notif s
           else None
      else Some s)"
  by auto
termination by (relation "measure (\<lambda>(d, _). ARCV_NOTIF_DEPTH - d)") auto

declare notify_loop.simps [simp del]

definition notify_parent :: "addr \<Rightarrow> (kst, addr) kop" where
  "notify_parent rcv_thd s = do {
     let arcv_notif = arcv_thd_notif s rcv_thd;
     s \<leftarrow> notify_loop 0 arcv_notif rcv_thd s;
     Some (arcv_notif, s)
   }"

definition notify_process :: "addr \<Rightarrow> addr \<Rightarrow> addr \<Rightarrow> addr \<Rightarrow> bool \<Rightarrow> (kst, addr \<times> addr) kop" where
  "notify_process rcv_thd thd rcv_tcap tc yield s = do {
     (_, s) \<leftarrow> notify_parent rcv_thd s;
     Some (if yield \<or> tcap_higher_prio s rcv_tcap tc then (rcv_thd, rcv_tcap) else (thd, tc), s)
   }"

definition asnd_process :: "addr \<Rightarrow> addr \<Rightarrow> addr \<Rightarrow> addr \<Rightarrow> bool \<Rightarrow> (kst, addr \<times> addr) kop" where
  "asnd_process rcv_thd thd rcv_tcap tc yield s =
     notify_process rcv_thd thd rcv_tcap tc yield (thd_rcvcap_pending_inc rcv_thd s)"

text \<open>The choice of the next thread and tcap in \<^verbatim>\<open>cap_update\<close>, with the timeout and \<^verbatim>\<open>switch_away\<close>.\<close>

definition cap_update_choose ::
  "kenv \<Rightarrow> bool \<Rightarrow> addr \<Rightarrow> addr \<Rightarrow> addr \<Rightarrow> addr \<Rightarrow> u32 \<Rightarrow> bool \<Rightarrow> kst \<Rightarrow> (addr \<times> addr \<times> u32 \<times> bool) option" where
  "cap_update_choose E expended thd_curr thd_next tc_curr tc_next tmo timer_intr_context s =
     (if expended
      then do {
        kassert (\<not> tcap_is_active s tc_curr \<and> tcap_expended s tc_curr);
        let tc_next = (if timer_intr_context then thd_rcvcap_tcap s thd_next else tc_next);
        if tcap_expended s tc_next
        then do {
          let tc_next = tcap_active_next s (ke_cpu E);
          kassert (tc_next \<noteq> 0 \<and> \<not> tcap_expended s tc_next);
          Some (thd_rcvcap_sched s (tcap_rcvcap_thd s tc_next), tc_next, 0, True)
        }
        else Some (thd_next, tc_next, 0, False)
      }
      else if timer_intr_context
      then Some (if thd_bound2rcvcap s thd_curr \<and> thd_rcvcap_isreferenced s thd_curr
                 then thd_rcvcap_sched s (tcap_rcvcap_thd s tc_curr) else thd_scheduler s thd_curr, tc_next, tmo, False)
      else Some (thd_next, tc_next, tmo, False))"

definition cap_update ::
  "kenv \<Rightarrow> pt_regs \<Rightarrow> addr \<Rightarrow> addr \<Rightarrow> addr \<Rightarrow> addr \<Rightarrow> u32 \<Rightarrow> comp_info \<Rightarrow> bool \<Rightarrow> (kst, int \<times> pt_regs) kop" where
  "cap_update E r thd_curr thd_next tc_curr tc_next tmo ci timer_intr_context s = do {
     let c = ke_cpu E;
     ((expended, now), s) \<leftarrow> tcap_budgets_update E thd_curr s;
     (thd_next, tc_next, tmo, switch_away) \<leftarrow>
       cap_update_choose E expended thd_curr thd_next tc_curr tc_next tmo timer_intr_context s;
     (_, s) \<leftarrow> (if switch_away then notify_parent thd_next s else Some (0, s));
     s \<leftarrow> tcap_timer_update c tc_next tmo now s;
     s \<leftarrow> tcap_current_set c tc_next s;
     if timer_intr_context \<and> thd_next = thd_curr then Some ((1, r), s)
     else do {
       let s = (if timer_intr_context then upd_thd thd_curr (\<lambda>th. th\<lparr>st_preempted := True\<rparr>) s else s);
       cap_thd_switch E r thd_curr thd_next ci s
     }
   }"

definition cap_switch :: "kenv \<Rightarrow> pt_regs \<Rightarrow> addr \<Rightarrow> addr \<Rightarrow> addr \<Rightarrow> u32 \<Rightarrow> comp_info \<Rightarrow> (kst, int \<times> pt_regs) kop" where
  "cap_switch E r cur nxt next_tcap tmo ci s =
     cap_update E r cur nxt (tcap_current s (ke_cpu E)) next_tcap tmo ci False s"

definition cap_sched_tok_validate :: "addr \<Rightarrow> u32 \<Rightarrow> (kst, int) kop" where
  "cap_sched_tok_validate rcvt usr_tok s = do {
     kassert (rcvt \<noteq> 0 \<and> usr_tok < - 1);
     if thd_rcvcap_get_counter s rcvt > usr_tok then Some (- EAGAIN, s)
     else Some (0, thd_rcvcap_set_counter rcvt usr_tok s)
   }"

section \<open>Thread dispatch\<close>

text \<open>The two halves of an \<^verbatim>\<open>int\<close> register, read with the shifts of the source: both are sign-extended.\<close>

definition lo16s :: "u32 \<Rightarrow> u32" where "lo16s w = signed_drop_bit 16 (push_bit 16 w)"
definition hi16s :: "u32 \<Rightarrow> u32" where "hi16s w = signed_drop_bit 16 w"

text \<open>
  The receive end-point given to a dispatch: the end-point's thread runs instead when it has pending
  events, otherwise it becomes the scheduler of the thread that is switched to.  The result is an error,
  or the next thread, whether the tcap and timeout arguments still count, and the state.
\<close>

definition thd_op_arcv :: "kenv \<Rightarrow> addr \<Rightarrow> addr \<Rightarrow> addr \<Rightarrow> u32 \<Rightarrow> comp_info \<Rightarrow> (kst, int \<times> addr \<times> bool) kop" where
  "thd_op_arcv E arcv nxt thd usr_counter ci s =
     (if arcv \<noteq> 0
      then do {
        arcv_cap \<leftarrow> captbl_lkup s (ci_captbl ci) arcv;
        if \<not> CAP_TYPECHK_CORE E s arcv_cap CAP_ARCV (ar_cpuid (arcvs s arcv_cap)) then Some ((- EINVAL, nxt, True), s)
        else do {
          let rcvt = ar_thd (arcvs s arcv_cap);
          (ret, s) \<leftarrow> cap_sched_tok_validate rcvt usr_counter s;
          if ret \<noteq> 0 then Some ((ret, nxt, True), s)
          else if 0 <s thd_rcvcap_pending s rcvt
          then Some (if thd = rcvt then (- EBUSY, nxt, True) else (0, rcvt, False), s)
          else Some ((0, nxt, True), thd_scheduler_set nxt rcvt s)
        }
      }
      else Some ((0, nxt, True), thd_scheduler_set nxt thd s))"

text \<open>\<^verbatim>\<open>cap_thd_op\<close> after it has read its arguments from the registers.\<close>

definition thd_op_switch :: "kenv \<Rightarrow> addr \<Rightarrow> addr \<Rightarrow> capid \<Rightarrow> capid \<Rightarrow> u64 \<Rightarrow> u32 \<Rightarrow> u32 \<Rightarrow> pt_regs \<Rightarrow> comp_info \<Rightarrow> (kst, int \<times> pt_regs) kop" where
  "thd_op_switch E thd_cap thd arcv tc p usr_counter tmo r ci s = do {
     let c = ke_cpu E;
     let nxt = ct_t (cthds s thd_cap);
     if ct_cpuid (cthds s thd_cap) \<noteq> c \<or> ct_cpuid (cthds s thd_cap) \<noteq> th_cpuid (thds s nxt) then Some ((- EINVAL, r), s)
     else do {
       ((ret, nxt, use_tc), s) \<leftarrow> thd_op_arcv E arcv nxt thd usr_counter ci s;
       if ret \<noteq> 0 then Some ((ret, r), s)
       else do {
         let tc = (if use_tc then tc else 0);
         let tmo = (if use_tc then tmo else TCAP_TIME_NIL);
         (ret, tcp) \<leftarrow>
           (if tc \<noteq> 0
            then do {
              tcap_cap \<leftarrow> captbl_lkup s (ci_captbl ci) tc;
              if \<not> CAP_TYPECHK_CORE E s tcap_cap CAP_TCAP (cc_cpuid (ctcaps s tcap_cap)) then Some (- EINVAL, 0)
              else let tcp = cc_tcap (ctcaps s tcap_cap)
                   in Some (if tcap_rcvcap_thd s tcp = 0 then (- EINVAL, tcp)
                            else if \<not> tcap_is_active s tcp then (- EPERM, tcp) else (0, tcp))
            }
            else Some (0, tcap_current s c));
         if ret \<noteq> 0 then Some ((ret, r), s)
         else do {
           ((ret, r), s) \<leftarrow> cap_switch E r thd nxt tcp tmo ci s;
           s \<leftarrow> (if tc \<noteq> 0 \<and> tcap_current s c = tcp then tcap_setprio tcp p s else Some s);
           Some ((ret, r), s)
         }
       }
     }
   }"

definition cap_thd_op :: "kenv \<Rightarrow> addr \<Rightarrow> addr \<Rightarrow> pt_regs \<Rightarrow> comp_info \<Rightarrow> (kst, int \<times> pt_regs) kop" where
  "cap_thd_op E thd_cap thd r ci s = do {
     let arcv = lo16s (userregs_get1 r);
     let tc = hi16s (userregs_get1 r);
     let prio_higher = userregs_get3 r;
     let prio_lower = userregs_get2 r;
     let p = push_bit 32 (ucast (drop_bit 16 prio_higher)) OR ucast prio_lower;
     let usr_counter = drop_bit 16 (push_bit 16 (userregs_get3 r)) OR push_bit 16 (userregs_getop r);
     let tmo = userregs_get4 r;
     thd_op_switch E thd_cap thd arcv tc p usr_counter tmo r ci s
   }"

section \<open>Asynchronous send and receive\<close>

text \<open>\<^verbatim>\<open>__cap_asnd_to_arcv\<close>: the end-point, or null.\<close>

definition cap_asnd_to_arcv :: "kst \<Rightarrow> cap_asnd \<Rightarrow> addr option" where
  "cap_asnd_to_arcv s asnd = do {
     alive \<leftarrow> ltbl_isalive (ltb s) (ci_liveness (as_comp_info asnd));
     if \<not> alive then Some 0
     else do {
       arcv \<leftarrow> captbl_lkup s (ci_captbl (as_comp_info asnd)) (as_arcv_capid asnd);
       Some (if CAP_TYPECHK s arcv CAP_ARCV then arcv else 0)
     }
   }"

definition cap_asnd_op :: "kenv \<Rightarrow> addr \<Rightarrow> addr \<Rightarrow> pt_regs \<Rightarrow> comp_info \<Rightarrow> (kst, int \<times> pt_regs) kop" where
  "cap_asnd_op E asndc thd r ci s = do {
     let c = ke_cpu E;
     let asnd = asnds s asndc;
     let srcv = userregs_get1 r;
     let usr_tok = userregs_get2 r;
     let tmo = userregs_get3 r;
     let yield = userregs_get4 r \<noteq> 0;
     kassert (as_arcv_capid asnd \<noteq> 0);
     if as_arcv_cpuid asnd \<noteq> c
     then do {
       kassert (srcv = 0);
       let (ret, s) = cos_cap_send_ipi E (as_arcv_cpuid asnd) asnd s;
       Some ((ret, r), s)
     }
     else do {
       arcv \<leftarrow> cap_asnd_to_arcv s asnd;
       if arcv = 0 then Some ((- EINVAL, r), s)
       else do {
         let rcv_thd = ar_thd (arcvs s arcv);
         let tc = tcap_current s c;
         let rcv_tcap = rcvcap_tcap (rcvcap (thds s rcv_thd));
         kassert (rcv_tcap \<noteq> 0 \<and> tc \<noteq> 0);
         if srcv \<noteq> 0
         then do {
           srcv_cap \<leftarrow> captbl_lkup s (ci_captbl ci) srcv;
           if \<not> CAP_TYPECHK_CORE E s srcv_cap CAP_ARCV (ar_cpuid (arcvs s srcv_cap)) then Some ((- EINVAL, r), s)
           else do {
             let rcvt = ar_thd (arcvs s srcv_cap);
             (ret, s) \<leftarrow> cap_sched_tok_validate rcvt usr_tok s;
             if ret \<noteq> 0 then Some ((ret, r), s)
             else if 0 <s thd_rcvcap_pending s rcvt
             then if thd = rcvt then Some ((- EBUSY, r), s) else cap_switch E r thd rcvt tc TCAP_TIME_NIL ci s
             else if tcap_expended s rcv_tcap then Some ((- EPERM, r), s)
             else do {
               let s = thd_scheduler_set rcv_thd rcvt s;
               ((nxt, tcap_next), s) \<leftarrow> asnd_process rcv_thd thd rcv_tcap tc True s;
               cap_switch E r thd nxt tcap_next tmo ci s
             }
           }
         }
         else do {
           ((nxt, tcap_next), s) \<leftarrow> asnd_process rcv_thd thd rcv_tcap tc yield s;
           cap_switch E r thd nxt tcap_next tmo ci s
         }
       }
     }
   }"

text \<open>\<^verbatim>\<open>cap_hw_asnd\<close> on the entry of \<^verbatim>\<open>hw_asnd_caps\<close> for the interrupt.\<close>

definition cap_hw_asnd :: "kenv \<Rightarrow> nat \<Rightarrow> pt_regs \<Rightarrow> (kst, int \<times> pt_regs) kop" where
  "cap_hw_asnd E irq r s =
     (let c = ke_cpu E; (type, asnd) = hw_asnd_caps s irq
      in if type \<noteq> CAP_ASND then Some ((1, r), s)
         else do {
           kassert (as_arcv_capid asnd \<noteq> 0);
           if as_arcv_cpuid asnd \<noteq> c then Some ((1, r), snd (cos_cap_send_ipi E (as_arcv_cpuid asnd) asnd s))
           else do {
             arcv \<leftarrow> cap_asnd_to_arcv s asnd;
             if arcv = 0 then Some ((1, r), s)
             else do {
               let thd = thd_current s c;
               let tc = tcap_current s c;
               kassert (thd \<noteq> 0);
               (ci, _) \<leftarrow> thd_invstk_current s c thd;
               kassert (ci_captbl ci \<noteq> 0);
               kassert (\<not> st_preempted (thds s thd));
               let rcv_thd = ar_thd (arcvs s arcv);
               let rcv_tcap = rcvcap_tcap (rcvcap (thds s rcv_thd));
               kassert (rcv_tcap \<noteq> 0 \<and> tc \<noteq> 0);
               ((nxt, tcap_next), s) \<leftarrow> asnd_process rcv_thd thd rcv_tcap tc False s;
               if nxt = thd then Some ((1, r), s)
               else do {
                 let s = upd_thd thd (\<lambda>th. th\<lparr>st_preempted := True\<rparr>) s;
                 cap_switch E r thd nxt tcap_next TCAP_TIME_NIL ci s
               }
             }
           }
         })"

definition expended_process :: "kenv \<Rightarrow> pt_regs \<Rightarrow> addr \<Rightarrow> comp_info \<Rightarrow> bool \<Rightarrow> (kst, int \<times> pt_regs) kop" where
  "expended_process E r thd_curr ci timer_intr_context s = do {
     let tc_curr = tcap_current s (ke_cpu E);
     kassert (tc_curr \<noteq> 0);
     let thd_next = thd_rcvcap_sched s (tcap_rcvcap_thd s tc_curr);
     kassert (thd_next \<noteq> 0 \<and> thd_bound2rcvcap s thd_next \<and> thd_rcvcap_isreferenced s thd_next);
     cap_update E r thd_curr thd_next tc_curr tc_curr TCAP_TIME_NIL ci timer_intr_context s
   }"

definition timer_process :: "kenv \<Rightarrow> pt_regs \<Rightarrow> (kst, int \<times> pt_regs) kop" where
  "timer_process E r s = do {
     let thd_curr = thd_current s (ke_cpu E);
     kassert (thd_curr \<noteq> 0 \<and> th_cpuid (thds s thd_curr) = ke_cpu E);
     (comp, _) \<leftarrow> thd_invstk_current s (ke_cpu E) thd_curr;
     expended_process E r thd_curr comp True s
   }"

definition RCV_NON_BLOCKING :: u32 where "RCV_NON_BLOCKING = 1"
definition RCV_ALL_PENDING :: u32 where "RCV_ALL_PENDING = push_bit 1 1"

definition cap_arcv_op :: "kenv \<Rightarrow> addr \<Rightarrow> addr \<Rightarrow> pt_regs \<Rightarrow> comp_info \<Rightarrow> (kst, int \<times> pt_regs) kop" where
  "cap_arcv_op E arcvc thd r ci s = do {
     let c = ke_cpu E;
     let arcv = arcvs s arcvc;
     let rflags = userregs_get1 r;
     let tmo = userregs_get2 r;
     let all_pending = rflags AND RCV_ALL_PENDING \<noteq> 0;
     if ar_thd arcv \<noteq> thd \<or> ar_cpuid arcv \<noteq> c then Some ((- EINVAL, r), s)
     else if thd_rcvcap_pending s thd \<noteq> 0
     then do {
       let r = userregs_set 0 (userregs_getsp r) (userregs_getip r) r;
       let s = thd_rcvcap_all_pending_set thd all_pending s;
       (r, s) \<leftarrow> thd_rcvcap_pending_deliver thd r s;
       Some ((0, r), s)
     }
     else if rflags AND RCV_NON_BLOCKING \<noteq> 0
     then let r = userregs_set 0 (userregs_getsp r) (userregs_getip r) r
          in Some ((0, userregs_setretvals (ret_reg (- EAGAIN)) 0 0 0 r), s)
     else do {
       let r = userregs_setretvals 0 0 0 0 r;
       (nxt, s) \<leftarrow> notify_parent thd s;
       let tc_next = thd_rcvcap_tcap s thd;
       let nti = next_ti (cli s c);
       (nxt, tc_next, swtimeout, s) \<leftarrow>
         (if nt_thd nti \<noteq> 0
          then do {
            kassert (nt_tc nti \<noteq> 0);
            s \<leftarrow> tcap_setprio (nt_tc nti) (nt_prio nti) s;
            let swtimeout = (if nt_budget nti \<noteq> 0 then tcap_cyc2time (ke_tsc E 0 + ucast (nt_budget nti)) else TCAP_TIME_NIL);
            Some (nt_thd nti, nt_tc nti, swtimeout, thd_next_thdinfo_update c 0 0 0 0 s)
          }
          else Some (nxt, tc_next, TCAP_TIME_NIL, s));
       let s = upd_thd thd (\<lambda>th. th\<lparr>interrupted_thread := 0\<rparr>) s;
       s \<leftarrow> (if thd \<noteq> nxt
             then do {
               kassert (\<not> st_preempted (thds s thd));
               let s = upd_thd thd (\<lambda>th. th\<lparr>st_rcving := True\<rparr>) s;
               let s = thd_rcvcap_all_pending_set thd all_pending s;
               Some (upd_thd thd (\<lambda>th. th\<lparr>timeout := tmo\<rparr>) s)
             }
             else Some s);
       cap_switch (later 1 E) r thd nxt tc_next swtimeout ci s
     }
   }"

definition cap_introspect :: "kst \<Rightarrow> addr \<Rightarrow> capid \<Rightarrow> u32 \<Rightarrow> (int \<times> u32) option" where
  "cap_introspect s ct capid op = do {
     ch \<leftarrow> captbl_lkup s ct capid;
     Some (if ch = 0 then (- EINVAL, 0)
           else if h_type (hdr s ch) = CAP_THD then thd_introspect s (ct_t (cthds s ch)) op
           else if h_type (hdr s ch) = CAP_TCAP then tcap_introspect s (cc_tcap (ctcaps s ch)) op
           else (- EINVAL, 0))
   }"

end
