(* ===== verification/Syscall.thy ===== *)
theory Syscall
  imports Capinv
begin

text \<open>
  The system call handler, \<^verbatim>\<open>composite_syscall_handler\<close> and \<^verbatim>\<open>composite_syscall_slowpath\<close> of \<^verbatim>\<open>capinv.c\<close>:
  the decoding of the registers, the fast paths, and the operations on capability tables, page tables,
  tcaps and interrupts.  The operations of one kind of capability are one definition, in the order of the
  source; the operations that create a kernel object from a frame have a definition each.
\<close>

section \<open>Operation codes\<close>

datatype syscall_op =
    CAPTBL_OP_CPY | CAPTBL_OP_MOVE | CAPTBL_OP_CONS | CAPTBL_OP_DECONS
  | CAPTBL_OP_THDACTIVATE | CAPTBL_OP_THDDEACTIVATE | CAPTBL_OP_THDTLSSET
  | CAPTBL_OP_COMPACTIVATE | CAPTBL_OP_COMPDEACTIVATE
  | CAPTBL_OP_SINVACTIVATE | CAPTBL_OP_SINVDEACTIVATE
  | CAPTBL_OP_SRETACTIVATE | CAPTBL_OP_SRETDEACTIVATE
  | CAPTBL_OP_ASNDACTIVATE | CAPTBL_OP_ASNDDEACTIVATE
  | CAPTBL_OP_ARCVACTIVATE | CAPTBL_OP_ARCVDEACTIVATE
  | CAPTBL_OP_MEMACTIVATE | CAPTBL_OP_MEMDEACTIVATE
  | CAPTBL_OP_MEM_RETYPE2USER | CAPTBL_OP_MEM_RETYPE2KERN | CAPTBL_OP_MEM_RETYPE2FRAME
  | CAPTBL_OP_PGTBLACTIVATE | CAPTBL_OP_PGTBLDEACTIVATE
  | CAPTBL_OP_CAPTBLACTIVATE | CAPTBL_OP_CAPTBLDEACTIVATE
  | CAPTBL_OP_CAPKMEM_FREEZE
  | CAPTBL_OP_CAPTBLDEACTIVATE_ROOT | CAPTBL_OP_PGTBLDEACTIVATE_ROOT | CAPTBL_OP_THDDEACTIVATE_ROOT
  | CAPTBL_OP_MEMMOVE | CAPTBL_OP_INTROSPECT
  | CAPTBL_OP_TCAP_ACTIVATE | CAPTBL_OP_TCAP_TRANSFER | CAPTBL_OP_TCAP_DELEGATE
  | CAPTBL_OP_TCAP_MERGE | CAPTBL_OP_TCAP_WAKEUP
  | CAPTBL_OP_HW_ACTIVATE | CAPTBL_OP_HW_DEACTIVATE | CAPTBL_OP_HW_ATTACH | CAPTBL_OP_HW_DETACH
  | CAPTBL_OP_HW_MAP | CAPTBL_OP_HW_CYC_USEC | CAPTBL_OP_HW_CYC_THRESH

definition syscall_ops :: "syscall_op list" where
  "syscall_ops =
    [CAPTBL_OP_CPY, CAPTBL_OP_MOVE, CAPTBL_OP_CONS, CAPTBL_OP_DECONS,
     CAPTBL_OP_THDACTIVATE, CAPTBL_OP_THDDEACTIVATE, CAPTBL_OP_THDTLSSET,
     CAPTBL_OP_COMPACTIVATE, CAPTBL_OP_COMPDEACTIVATE,
     CAPTBL_OP_SINVACTIVATE, CAPTBL_OP_SINVDEACTIVATE,
     CAPTBL_OP_SRETACTIVATE, CAPTBL_OP_SRETDEACTIVATE,
     CAPTBL_OP_ASNDACTIVATE, CAPTBL_OP_ASNDDEACTIVATE,
     CAPTBL_OP_ARCVACTIVATE, CAPTBL_OP_ARCVDEACTIVATE,
     CAPTBL_OP_MEMACTIVATE, CAPTBL_OP_MEMDEACTIVATE,
     CAPTBL_OP_MEM_RETYPE2USER, CAPTBL_OP_MEM_RETYPE2KERN, CAPTBL_OP_MEM_RETYPE2FRAME,
     CAPTBL_OP_PGTBLACTIVATE, CAPTBL_OP_PGTBLDEACTIVATE,
     CAPTBL_OP_CAPTBLACTIVATE, CAPTBL_OP_CAPTBLDEACTIVATE,
     CAPTBL_OP_CAPKMEM_FREEZE,
     CAPTBL_OP_CAPTBLDEACTIVATE_ROOT, CAPTBL_OP_PGTBLDEACTIVATE_ROOT, CAPTBL_OP_THDDEACTIVATE_ROOT,
     CAPTBL_OP_MEMMOVE, CAPTBL_OP_INTROSPECT,
     CAPTBL_OP_TCAP_ACTIVATE, CAPTBL_OP_TCAP_TRANSFER, CAPTBL_OP_TCAP_DELEGATE,
     CAPTBL_OP_TCAP_MERGE, CAPTBL_OP_TCAP_WAKEUP,
     CAPTBL_OP_HW_ACTIVATE, CAPTBL_OP_HW_DEACTIVATE, CAPTBL_OP_HW_ATTACH, CAPTBL_OP_HW_DETACH,
     CAPTBL_OP_HW_MAP, CAPTBL_OP_HW_CYC_USEC, CAPTBL_OP_HW_CYC_THRESH]"

text \<open>The operation an enumeration value stands for, if it is one of the enumeration.\<close>

definition decode_op :: "u32 \<Rightarrow> syscall_op option" where
  "decode_op w = (if unat w < length syscall_ops then Some (syscall_ops ! unat w) else None)"

section \<open>Operations that make a kernel object\<close>

text \<open>A failed activation gives the frame back.\<close>

definition kmem_give_back :: "kenv \<Rightarrow> addr \<Rightarrow> int \<Rightarrow> (kst, int) kop" where
  "kmem_give_back E pte ret s =
     (if ret \<noteq> 0 then do { s \<leftarrow> kmem_unalloc E pte s; Some (ret, s) } else Some (ret, s))"

definition op_captblactivate :: "kenv \<Rightarrow> addr \<Rightarrow> capid \<Rightarrow> pt_regs \<Rightarrow> (kst, int) kop" where
  "op_captblactivate E ct cap r s = do {
     let newcaptbl_cap = userregs_get1 r;
     let pgtbl_cap = userregs_get2 r;
     let kmem_cap = userregs_get3 r;
     let captbl_lvl = userregs_get4 r;
     ((ret, kmem_addr, pte), s) \<leftarrow> cap_kmem_activate E ct pgtbl_cap kmem_cap s;
     if ret \<noteq> 0 then Some (ret, s)
     else do {
       kassert (kmem_addr \<noteq> 0 \<and> pte \<noteq> 0);
       s \<leftarrow> (if captbl_lvl = 0
             then do { (newct, s) \<leftarrow> captbl_create kmem_addr s; kassert (newct \<noteq> 0); Some s }
             else Some (captbl_init (kmem_addr + PAGE_SIZE div 2) True (captbl_init kmem_addr True s)));
       (ret, s) \<leftarrow> captbl_activate (later 2 E) ct cap newcaptbl_cap kmem_addr captbl_lvl s;
       kmem_give_back (later 3 E) pte ret s
     }
   }"

text \<open>The \<^verbatim>\<open>break\<close> of the type check in the source leaves the frame taken.\<close>

definition op_pgtblactivate :: "kenv \<Rightarrow> addr \<Rightarrow> capid \<Rightarrow> pt_regs \<Rightarrow> (kst, int) kop" where
  "op_pgtblactivate E ct cap r s = do {
     let pt_entry = userregs_get1 r;
     let pgtbl_cap = userregs_get2 r;
     let kmem_cap = userregs_get3 r;
     let pgtbl_lvl = userregs_get4 r;
     ((ret, kmem_addr, pte), s) \<leftarrow> cap_kmem_activate E ct pgtbl_cap kmem_cap s;
     if ret \<noteq> 0 then Some (ret, s)
     else do {
       kassert (kmem_addr \<noteq> 0 \<and> pte \<noteq> 0);
       if pgtbl_lvl = 0
       then do {
         cap_pt \<leftarrow> captbl_lkup s ct pgtbl_cap;
         if \<not> CAP_TYPECHK s cap_pt CAP_PGTBL then Some (- EINVAL, s)
         else do {
           let curr_pt = tbl (tbls s cap_pt);
           kassert (curr_pt \<noteq> 0);
           (new_pt, s) \<leftarrow> pgtbl_create kmem_addr curr_pt s;
           (ret, s) \<leftarrow> pgtbl_activate (later 2 E) ct cap pt_entry new_pt 0 s;
           kmem_give_back (later 3 E) pte ret s
         }
       }
       else if pgtbl_lvl = 1
       then do {
         let s = pgtbl_init_pte kmem_addr s;
         (ret, s) \<leftarrow> pgtbl_activate (later 2 E) ct cap pt_entry kmem_addr 1 s;
         kmem_give_back (later 3 E) pte ret s
       }
       else kmem_give_back (later 3 E) pte (- 1) s
     }
   }"

definition op_thdactivate :: "kenv \<Rightarrow> addr \<Rightarrow> capid \<Rightarrow> pt_regs \<Rightarrow> (kst, int) kop" where
  "op_thdactivate E ct cap r s = do {
     let init_data = hi16s (userregs_get1 r);
     let thd_cap = userregs_get1 r AND 0xFFFF;
     let pgtbl_cap = hi16s (userregs_get2 r);
     let compcap = userregs_get2 r AND 0xFFFF;
     let pgtbl_addr = userregs_get3 r;
     let thdid = ucast (userregs_get4 r);
     ((ret, thd, pte), s) \<leftarrow> cap_kmem_activate E ct pgtbl_cap pgtbl_addr s;
     if ret \<noteq> 0 then Some (ret, s)
     else do {
       kassert (thd \<noteq> 0 \<and> pte \<noteq> 0);
       (ret, s) \<leftarrow> thd_activate (later 2 E) ct cap thd_cap thd compcap init_data thdid s;
       kmem_give_back (later 3 E) pte ret s
     }
   }"

definition op_tcap_activate :: "kenv \<Rightarrow> addr \<Rightarrow> capid \<Rightarrow> pt_regs \<Rightarrow> (kst, int) kop" where
  "op_tcap_activate E ct cap r s = do {
     let tcap_cap = hi16s (userregs_get1 r);
     let pgtbl_cap = lo16s (userregs_get1 r);
     let pgtbl_addr = userregs_get2 r;
     ((ret, tc, pte), s) \<leftarrow> cap_kmem_activate E ct pgtbl_cap pgtbl_addr s;
     if ret \<noteq> 0 then Some (ret, s)
     else do {
       (ret, s) \<leftarrow> tcap_activate (later 2 E) ct cap tcap_cap tc s;
       kmem_give_back (later 3 E) pte ret s
     }
   }"

section \<open>Operations on capability tables\<close>

definition op_thdtlsset :: "kenv \<Rightarrow> addr \<Rightarrow> addr \<Rightarrow> pt_regs \<Rightarrow> (kst, int) kop" where
  "op_thdtlsset E op_cap thd r s = do {
     kassert (tbl (tbls s op_cap) \<noteq> 0);
     (ret, s) \<leftarrow> thd_tls_set E (tbl (tbls s op_cap)) (userregs_get1 r) (userregs_get2 r) thd s;
     Some (if ret \<noteq> 0 then - EINVAL else - ENOENT, s)
   }"

definition op_captbl_introspect :: "addr \<Rightarrow> capid \<Rightarrow> pt_regs \<Rightarrow> (kst, int) kop" where
  "op_captbl_introspect op_cap capin r s = do {
     let ctin = tbl (tbls s op_cap);
     kassert (ctin \<noteq> 0);
     (ret, retval) \<leftarrow> cap_introspect s ctin capin (userregs_get2 r);
     Some (if ret = 0 then sint retval else ret, s)
   }"

definition captbl_op :: "kenv \<Rightarrow> addr \<Rightarrow> capid \<Rightarrow> addr \<Rightarrow> addr \<Rightarrow> syscall_op \<Rightarrow> pt_regs \<Rightarrow> (kst, int) kop" where
  "captbl_op E ct cap op_cap thd op r s =
     (let capin = userregs_get1 r; lid = userregs_get2 r
      in case op of
        CAPTBL_OP_CAPTBLACTIVATE \<Rightarrow> op_captblactivate E ct cap r s
      | CAPTBL_OP_CAPTBLDEACTIVATE \<Rightarrow> captbl_deactivate E ct op_cap capin lid 0 0 False s
      | CAPTBL_OP_CAPTBLDEACTIVATE_ROOT \<Rightarrow>
          captbl_deactivate E ct op_cap capin lid (userregs_get3 r) (userregs_get4 r) True s
      | CAPTBL_OP_PGTBLACTIVATE \<Rightarrow> op_pgtblactivate E ct cap r s
      | CAPTBL_OP_PGTBLDEACTIVATE \<Rightarrow> pgtbl_deactivate E ct op_cap capin lid 0 0 False s
      | CAPTBL_OP_PGTBLDEACTIVATE_ROOT \<Rightarrow>
          pgtbl_deactivate E ct op_cap capin lid (userregs_get3 r) (userregs_get4 r) True s
      | CAPTBL_OP_THDACTIVATE \<Rightarrow> op_thdactivate E ct cap r s
      | CAPTBL_OP_TCAP_ACTIVATE \<Rightarrow> op_tcap_activate E ct cap r s
      | CAPTBL_OP_THDDEACTIVATE \<Rightarrow> thd_deactivate E ct op_cap capin lid 0 0 False s
      | CAPTBL_OP_THDTLSSET \<Rightarrow> op_thdtlsset E op_cap thd r s
      | CAPTBL_OP_THDDEACTIVATE_ROOT \<Rightarrow>
          thd_deactivate E ct op_cap capin lid (userregs_get3 r) (userregs_get4 r) True s
      | CAPTBL_OP_CAPKMEM_FREEZE \<Rightarrow> cap_kmem_freeze E (tbl (tbls s op_cap)) capin s
      | CAPTBL_OP_COMPACTIVATE \<Rightarrow>
          comp_activate E ct cap capin (hi16s (userregs_get2 r)) (userregs_get2 r AND 0xFFFF) (userregs_get3 r)
            (userregs_get4 r) 0 s
      | CAPTBL_OP_COMPDEACTIVATE \<Rightarrow> comp_deactivate E op_cap capin lid s
      | CAPTBL_OP_SINVACTIVATE \<Rightarrow>
          sinv_activate E ct cap capin (userregs_get2 r) (userregs_get3 r) (userregs_get4 r) s
      | CAPTBL_OP_SINVDEACTIVATE \<Rightarrow> sinv_deactivate op_cap capin lid s
      | CAPTBL_OP_SRETACTIVATE \<Rightarrow> Some (- EINVAL, s)
      | CAPTBL_OP_SRETDEACTIVATE \<Rightarrow> sret_deactivate op_cap capin lid s
      | CAPTBL_OP_ASNDACTIVATE \<Rightarrow> asnd_activate E ct cap capin (userregs_get2 r) (userregs_get3 r) 0 0 s
      | CAPTBL_OP_ASNDDEACTIVATE \<Rightarrow> asnd_deactivate op_cap capin lid s
      | CAPTBL_OP_ARCVACTIVATE \<Rightarrow>
          arcv_activate E ct cap capin (userregs_get3 r) (lo16s (userregs_get2 r)) (hi16s (userregs_get2 r))
            (userregs_get4 r) False s
      | CAPTBL_OP_ARCVDEACTIVATE \<Rightarrow> arcv_deactivate E op_cap capin lid s
      | CAPTBL_OP_CPY \<Rightarrow> cap_cpy E ct (userregs_get2 r) (userregs_get3 r) cap (userregs_get1 r) s
      | CAPTBL_OP_MOVE \<Rightarrow> cap_move E ct (userregs_get2 r) (userregs_get3 r) cap (userregs_get1 r) s
      | CAPTBL_OP_CONS \<Rightarrow> cap_cons ct cap capin (userregs_get2 r) s
      | CAPTBL_OP_DECONS \<Rightarrow> cap_decons ct cap capin (userregs_get2 r) (userregs_get3 r) s
      | CAPTBL_OP_INTROSPECT \<Rightarrow> op_captbl_introspect op_cap capin r s
      | CAPTBL_OP_HW_ACTIVATE \<Rightarrow> hw_activate E ct cap capin (userregs_get2 r) s
      | CAPTBL_OP_HW_DEACTIVATE \<Rightarrow> hw_deactivate op_cap capin lid s
      | _ \<Rightarrow> Some (- ENOENT, s))"

section \<open>Operations on page tables\<close>

definition k_retype :: "kenv \<Rightarrow> syscall_op \<Rightarrow> u32 \<Rightarrow> (kst, int) kop" where
  "k_retype E op frame s =
     on_rt (if op = CAPTBL_OP_MEM_RETYPE2USER then retypetbl_retype2user (ke_kpa E) frame
            else if op = CAPTBL_OP_MEM_RETYPE2KERN then retypetbl_retype2kern (ke_kpa E) frame
            else retypetbl_retype2frame (ke_kpa E) (ke_cpu E) (tlbq s) frame) s"

definition op_retype :: "kenv \<Rightarrow> addr \<Rightarrow> syscall_op \<Rightarrow> pt_regs \<Rightarrow> (kst, int) kop" where
  "op_retype E ch op r s = do {
     (ret, frame) \<leftarrow> pgtbl_get_cosframe s (tbl (tbls s ch)) (userregs_get1 r) 0;
     if ret \<noteq> 0 then Some (ret, s) else k_retype E op frame s
   }"

definition op_pgtbl_introspect :: "addr \<Rightarrow> pt_regs \<Rightarrow> (kst, int) kop" where
  "op_pgtbl_introspect ch r s = do {
     (pte, _) \<leftarrow> pgtbl_lkup_pte s (tbl (tbls s ch)) (userregs_get1 r) 0;
     Some (if pte \<noteq> 0 then sint (mem s pte) else 0, s)
   }"

definition pgtbl_op :: "kenv \<Rightarrow> addr \<Rightarrow> capid \<Rightarrow> addr \<Rightarrow> syscall_op \<Rightarrow> pt_regs \<Rightarrow> (kst, int) kop" where
  "pgtbl_op E ct cap ch op r s =
     (case op of
        CAPTBL_OP_CPY \<Rightarrow> cap_cpy E ct (userregs_get2 r) (userregs_get3 r) cap (userregs_get1 r) s
      | CAPTBL_OP_MEMMOVE \<Rightarrow> cap_move E ct (userregs_get2 r) (userregs_get3 r) cap (userregs_get1 r) s
      | CAPTBL_OP_CONS \<Rightarrow> cap_cons ct cap (userregs_get1 r) (userregs_get2 r) s
      | CAPTBL_OP_DECONS \<Rightarrow> cap_decons ct cap (userregs_get1 r) (userregs_get2 r) (userregs_get3 r) s
      | CAPTBL_OP_MEMACTIVATE \<Rightarrow> cap_memactivate E ct ch (userregs_get1 r) (userregs_get2 r) (userregs_get3 r) s
      | CAPTBL_OP_MEMDEACTIVATE \<Rightarrow>
          if tbl_lvl (tbls s ch) \<noteq> 0 then Some (- EINVAL, s)
          else pgtbl_mapping_del E (tbl (tbls s ch)) (userregs_get1 r) (userregs_get2 r) s
      | CAPTBL_OP_MEM_RETYPE2USER \<Rightarrow> op_retype E ch op r s
      | CAPTBL_OP_MEM_RETYPE2KERN \<Rightarrow> op_retype E ch op r s
      | CAPTBL_OP_MEM_RETYPE2FRAME \<Rightarrow> op_retype E ch op r s
      | CAPTBL_OP_INTROSPECT \<Rightarrow> op_pgtbl_introspect ch r s
      | _ \<Rightarrow> Some (- ENOENT, s))"

section \<open>Operations on tcaps and interrupts\<close>

text \<open>The results are the return value, the registers and \<^verbatim>\<open>*thd_switch\<close>.\<close>

definition reg_prio :: "u32 \<Rightarrow> u32 \<Rightarrow> u64" where
  "reg_prio prio_higher prio_lower = push_bit 32 (ucast prio_higher) OR ucast prio_lower"

text \<open>Both tcap operations end by switching when the current tcap has no budget left.\<close>

definition tcap_op_expended :: "kenv \<Rightarrow> addr \<Rightarrow> comp_info \<Rightarrow> int \<Rightarrow> pt_regs \<Rightarrow> (kst, int \<times> pt_regs \<times> bool) kop" where
  "tcap_op_expended E thd ci ret r s =
     (if tcap_expended s (tcap_current s (ke_cpu E))
      then do {
        ((ret, r), s) \<leftarrow> expended_process E r thd ci False s;
        Some ((ret, r, ret \<ge> 0), s)
      }
      else Some ((ret, r, False), s))"

definition op_tcap_transfer :: "kenv \<Rightarrow> addr \<Rightarrow> addr \<Rightarrow> comp_info \<Rightarrow> pt_regs \<Rightarrow> (kst, int \<times> pt_regs \<times> bool) kop" where
  "op_tcap_transfer E ch thd ci r s = do {
     let tcpdst = userregs_get1 r;
     let res = userregs_get2 r;
     let p = reg_prio (userregs_get3 r) (userregs_get4 r);
     rcv \<leftarrow> captbl_lkup s (ci_captbl ci) tcpdst;
     if \<not> CAP_TYPECHK_CORE E s rcv CAP_ARCV (ar_cpuid (arcvs s rcv)) then Some ((- EINVAL, r, False), s)
     else do {
       let rthd = ar_thd (arcvs s rcv);
       let tc = rcvcap_tcap (rcvcap (thds s rthd));
       kassert (rthd \<noteq> 0 \<and> tc \<noteq> 0);
       (ret, s) \<leftarrow> tcap_delegate (ke_cpu E) tc (cc_tcap (ctcaps s ch)) res p s;
       if ret \<noteq> 0 then Some ((- EINVAL, r, False), s) else tcap_op_expended E thd ci ret r s
     }
   }"

definition op_tcap_delegate :: "kenv \<Rightarrow> addr \<Rightarrow> addr \<Rightarrow> comp_info \<Rightarrow> pt_regs \<Rightarrow> (kst, int \<times> pt_regs \<times> bool) kop" where
  "op_tcap_delegate E ch thd ci r s = do {
     let asnd_cap = userregs_get1 r;
     let res = userregs_get2 r;
     let yield = drop_bit 31 (userregs_get3 r) \<noteq> 0;
     let p = reg_prio (drop_bit 1 (push_bit 1 (userregs_get3 r))) (userregs_get4 r);
     asnd \<leftarrow> captbl_lkup s (ci_captbl ci) asnd_cap;
     if \<not> CAP_TYPECHK s asnd CAP_ASND then Some ((- EINVAL, r, False), s)
     else do {
       arcv \<leftarrow> cap_asnd_to_arcv s (asnds s asnd);
       if arcv = 0 then Some ((- EINVAL, r, False), s)
       else do {
         let rthd = ar_thd (arcvs s arcv);
         let tcapdst = rcvcap_tcap (rcvcap (thds s rthd));
         kassert (rthd \<noteq> 0 \<and> tcapdst \<noteq> 0);
         (ret, s) \<leftarrow> tcap_delegate (ke_cpu E) tcapdst (cc_tcap (ctcaps s ch)) res p s;
         if ret \<noteq> 0 then Some ((- EINVAL, r, False), s)
         else do {
           ((n, tcap_next), s) \<leftarrow> asnd_process rthd thd tcapdst (tcap_current s (ke_cpu E)) yield s;
           if n \<noteq> thd
           then do {
             ((ret, r), s) \<leftarrow> cap_switch E r thd n tcap_next TCAP_TIME_NIL ci s;
             Some ((ret, r, ret \<ge> 0), s)
           }
           else tcap_op_expended E thd ci ret r s
         }
       }
     }
   }"

definition tcap_op :: "kenv \<Rightarrow> addr \<Rightarrow> addr \<Rightarrow> comp_info \<Rightarrow> syscall_op \<Rightarrow> pt_regs \<Rightarrow> (kst, int \<times> pt_regs \<times> bool) kop" where
  "tcap_op E ch thd ci op r s =
     (case op of
        CAPTBL_OP_TCAP_TRANSFER \<Rightarrow> op_tcap_transfer E ch thd ci r s
      | CAPTBL_OP_TCAP_DELEGATE \<Rightarrow> op_tcap_delegate E ch thd ci r s
      | CAPTBL_OP_TCAP_MERGE \<Rightarrow> do {
          tcaprm \<leftarrow> captbl_lkup s (ci_captbl ci) (userregs_get1 r);
          if \<not> CAP_TYPECHK_CORE E s tcaprm CAP_TCAP (cc_cpuid (ctcaps s tcaprm)) then Some ((- EINVAL, r, False), s)
          else do {
            (ret, s) \<leftarrow> tcap_merge (ke_cpu E) (cc_tcap (ctcaps s ch)) (cc_tcap (ctcaps s tcaprm)) s;
            Some ((if ret \<noteq> 0 then - ENOENT else ret, r, False), s)
          }
        }
      | CAPTBL_OP_TCAP_WAKEUP \<Rightarrow> do {
          thdwkup \<leftarrow> captbl_lkup s (ci_captbl ci) (userregs_get1 r);
          if \<not> CAP_TYPECHK_CORE E s thdwkup CAP_THD (ct_cpuid (cthds s thdwkup)) then Some ((- EINVAL, r, False), s)
          else do {
            (ret, s) \<leftarrow> tcap_wakeup (ke_cpu E) (cc_tcap (ctcaps s ch)) (reg_prio (userregs_get2 r) (userregs_get3 r))
                          (userregs_get4 r) (ct_t (cthds s thdwkup)) s;
            Some ((if ret \<noteq> 0 then - EINVAL else ret, r, False), s)
          }
        }
      | _ \<Rightarrow> Some ((- ENOENT, r, False), s))"

definition op_hw_map :: "comp_info \<Rightarrow> pt_regs \<Rightarrow> (kst, int) kop" where
  "op_hw_map ci r s = do {
     ptc \<leftarrow> captbl_lkup s (ci_captbl ci) (userregs_get1 r);
     if \<not> CAP_TYPECHK s ptc CAP_PGTBL then Some (- EINVAL, s)
     else do {
       (pte, _) \<leftarrow> pgtbl_lkup_pte s (tbl (tbls s ptc)) (userregs_get2 r) 0;
       if pte = 0 then Some (- EINVAL, s)
       else if mem s pte AND PGTBL_FRAME_MASK \<noteq> 0 then Some (- ENOENT, s)
       else Some (0, wr pte ((PGTBL_FRAME_MASK AND userregs_get3 r) OR PGTBL_USER_DEF) s)
     }
   }"

definition hw_op :: "kenv \<Rightarrow> addr \<Rightarrow> comp_info \<Rightarrow> syscall_op \<Rightarrow> pt_regs \<Rightarrow> (kst, int) kop" where
  "hw_op E ch ci op r s =
     (case op of
        CAPTBL_OP_HW_ATTACH \<Rightarrow> do {
          rcvc \<leftarrow> captbl_lkup s (ci_captbl ci) (userregs_get2 r);
          if \<not> CAP_TYPECHK s rcvc CAP_ARCV then Some (- EINVAL, s)
          else Some (hw_attach_rcvcap E ch (userregs_get1 r) rcvc (userregs_get2 r) s)
        }
      | CAPTBL_OP_HW_DETACH \<Rightarrow> Some (hw_detach_rcvcap ch (userregs_get1 r) s)
      | CAPTBL_OP_HW_MAP \<Rightarrow> op_hw_map ci r s
      | CAPTBL_OP_HW_CYC_USEC \<Rightarrow> Some (cyc_usec s, s)
      | CAPTBL_OP_HW_CYC_THRESH \<Rightarrow> Some (sint (cyc_thresh s), s)
      | _ \<Rightarrow> Some (- ENOENT, s))"

section \<open>The handler\<close>

text \<open>
  The slow path.  After an operation on a tcap the source falls through to the operations of \<^verbatim>\<open>CAP_HW\<close>,
  none of which the operation code selects there.
\<close>

definition no_switch :: "pt_regs \<Rightarrow> (int \<times> kst) option \<Rightarrow> ((int \<times> pt_regs \<times> bool) \<times> kst) option" where
  "no_switch r = map_option (\<lambda>(ret, s). ((ret, r, False), s))"

definition composite_syscall_slowpath :: "kenv \<Rightarrow> pt_regs \<Rightarrow> (kst, int \<times> pt_regs \<times> bool) kop" where
  "composite_syscall_slowpath E r s = do {
     let c = ke_cpu E;
     let thd = thd_current s c;
     let cap = userregs_getcap r;
     (ci, _) \<leftarrow> thd_invstk_current s c thd;
     kassert (ci_captbl ci \<noteq> 0);
     let ct = ci_captbl ci;
     ch \<leftarrow> captbl_lkup s ct cap;
     kassert (ch \<noteq> 0);
     let op = decode_op (userregs_getop r);
     case h_type (hdr s ch) of
       CAP_SRET \<Rightarrow> do { (r, s) \<leftarrow> sret_ret E thd r s; Some ((0, r, False), s) }
     | type \<Rightarrow>
         (case op of
            None \<Rightarrow> Some ((- ENOENT, r, False), s)
          | Some op \<Rightarrow>
              (case type of
                 CAP_CAPTBL \<Rightarrow> no_switch r (captbl_op E ct cap ch thd op r s)
               | CAP_PGTBL \<Rightarrow> no_switch r (pgtbl_op E ct cap ch op r s)
               | CAP_TCAP \<Rightarrow> tcap_op E ch thd ci op r s
               | CAP_HW \<Rightarrow> no_switch r (hw_op E ch ci op r s)
               | _ \<Rightarrow> Some ((- ENOENT, r, False), s)))
   }"

definition COS_DEFAULT_RET_CAP :: capid where "COS_DEFAULT_RET_CAP = 0"

text \<open>
  \<^verbatim>\<open>done:\<close> of the handler: the return value goes to the user's register, and the handler returns 0.
\<close>

definition syscall_done :: "int \<Rightarrow> pt_regs \<Rightarrow> int \<times> pt_regs" where
  "syscall_done ret r = (0, userregs_set (ret_reg ret) (userregs_getsp r) (userregs_getip r) r)"

definition syscall_fast_done :: "int \<times> pt_regs \<Rightarrow> int \<times> pt_regs" where
  "syscall_fast_done = (\<lambda>(ret, r). if ret < 0 then syscall_done ret r else (ret, r))"

definition composite_syscall_handler :: "kenv \<Rightarrow> pt_regs \<Rightarrow> (kst, int \<times> pt_regs) kop" where
  "composite_syscall_handler E r s = do {
     let c = ke_cpu E;
     let cap = userregs_getcap r;
     let thd = thd_current s c;
     if cap = COS_DEFAULT_RET_CAP
     then do { (r, s) \<leftarrow> sret_ret E thd r s; Some ((0, r), s) }
     else do {
       (ci, _) \<leftarrow> thd_invstk_current s c thd;
       kassert (ci_captbl ci \<noteq> 0);
       ch \<leftarrow> captbl_lkup s (ci_captbl ci) cap;
       if ch = 0 then Some (syscall_done 0 r, s)
       else if h_type (hdr s ch) = CAP_SINV
       then do { (r, s) \<leftarrow> sinv_call E thd ch r s; Some ((0, r), s) }
       else if h_type (hdr s ch) = CAP_THD
       then do { (x, s) \<leftarrow> cap_thd_op E ch thd r ci s; Some (syscall_fast_done x, s) }
       else if h_type (hdr s ch) = CAP_ASND
       then do { (x, s) \<leftarrow> cap_asnd_op E ch thd r ci s; Some (syscall_fast_done x, s) }
       else if h_type (hdr s ch) = CAP_ARCV
       then do { (x, s) \<leftarrow> cap_arcv_op E ch thd r ci s; Some (syscall_fast_done x, s) }
       else do {
         ((ret, r, thd_switch), s) \<leftarrow> composite_syscall_slowpath E r s;
         Some (if ret < 0 \<or> \<not> thd_switch then syscall_done ret r else (ret, r), s)
       }
     }
   }"

end
