(* ===== verification/Kernel_Api.thy ===== *)
theory Kernel_Api
  imports Syscall
begin

text \<open>
  The user-level wrappers of the system calls (\<^verbatim>\<open>components/lib/cos_kernel_api.c\<close>): the bump allocators of
  capability identifiers, physical pages and virtual addresses of a component, the operations that make
  kernel objects with them, and the encoding of system calls (\<^verbatim>\<open>components/include/cos_component.h\<close>).

  The state holds a \<^verbatim>\<open>struct cos_compinfo\<close> for each address, and the system calls that have been made, the
  latest first.  The environment has the answer of the kernel to a call after a history of calls, and the
  atomic operations of a library that is not part of this repository (\<^verbatim>\<open>ps_faa\<close>, \<^verbatim>\<open>ps_cas\<close>, \<^verbatim>\<open>ps_load\<close>), whose
  documented behaviour is \<open>ps_ok\<close>.  Its locks make each allocation one step.
\<close>

section \<open>System calls\<close>

record sys_call =
  sc_cap :: u32
  sc_op :: u32
  sc_a1 :: u32
  sc_a2 :: u32
  sc_a3 :: u32
  sc_a4 :: u32

text \<open>The registers at \<^verbatim>\<open>sysenter\<close>, as the assembly code of \<^verbatim>\<open>call_cap_asm\<close> loads them; \<open>r\<close> has the others.\<close>

definition call_cap_asm :: "sys_call \<Rightarrow> pt_regs \<Rightarrow> pt_regs" where
  "call_cap_asm c r = r\<lparr>r_ax := push_bit COS_CAPABILITY_OFFSET (sc_cap c + 1) + sc_op c, r_bx := sc_a1 c, r_si := sc_a2 c,
     r_di := sc_a3 c, r_dx := sc_a4 c\<rparr>"

fun op_index :: "'a \<Rightarrow> 'a list \<Rightarrow> nat" where
  "op_index x [] = 0"
| "op_index x (y # ys) = (if x = y then 0 else Suc (op_index x ys))"

definition op_code :: "syscall_op \<Rightarrow> u32" where
  "op_code op = of_nat (op_index op syscall_ops)"

section \<open>State\<close>

record cos_meminfo =
  mi_untyped_ptr :: u32
  mi_umem_ptr :: u32
  mi_kmem_ptr :: u32
  mi_untyped_frontier :: u32
  mi_umem_frontier :: u32
  mi_kmem_frontier :: u32
  mi_pgtbl_cap :: capid

record cos_compinfo =
  cp_pgtbl_cap :: capid
  cp_captbl_cap :: capid
  cp_comp_cap :: capid
  cp_cap_frontier :: u32
  cp_caprange_frontier :: u32
  cp_cap16_frontier :: "cpuid \<Rightarrow> u32"
  cp_cap32_frontier :: "cpuid \<Rightarrow> u32"
  cp_cap64_frontier :: u32
  cp_vas_frontier :: u32
  cp_vasrange_frontier :: u32
  cp_memsrc :: addr
  cp_mi :: cos_meminfo

record thd_init_data =
  ti_fn :: addr
  ti_data :: addr

record api_st =
  infos :: "addr \<Rightarrow> cos_compinfo"
  sys_calls :: "sys_call list"
  thdid_alloc :: u32
  livenessid_frontier :: u32
  thd_inits :: "thd_init_data list"
  sched_toks :: "cpuid \<Rightarrow> u32"
  hw_cycs :: int

record ps_atomics =
  ps_faa :: "u32 \<Rightarrow> u32 \<Rightarrow> u32 \<times> u32"
  ps_cas :: "u32 \<Rightarrow> u32 \<Rightarrow> u32 \<Rightarrow> bool \<times> u32"
  ps_load :: "u32 \<Rightarrow> u32"

record api_env =
  ae_ps :: ps_atomics
  ae_sys :: "sys_call list \<Rightarrow> sys_call \<Rightarrow> int"
  ae_cpuid :: cpuid

text \<open>
  Fetch-and-add returns the old value and adds; compare-and-swap writes if the value is the expected one and
  tells whether it did; a load returns the value.
\<close>

definition ps_ok :: "ps_atomics \<Rightarrow> bool" where
  "ps_ok A \<longleftrightarrow> (\<forall>x d. ps_faa A x d = (x, x + d)) \<and> (\<forall>x old new. ps_cas A x old new = (if x = old then (True, new) else (False, x))) \<and>
     (\<forall>x. ps_load A x = x)"

text \<open>A word of a \<^verbatim>\<open>struct cos_compinfo\<close>: how it is read and how it is written.\<close>

type_synonym ci_word = "(cos_compinfo \<Rightarrow> u32) \<times> (u32 \<Rightarrow> cos_compinfo \<Rightarrow> cos_compinfo)"

definition f_kmem_ptr :: ci_word where
  "f_kmem_ptr = (\<lambda>c. mi_kmem_ptr (cp_mi c), \<lambda>v c. c\<lparr>cp_mi := (cp_mi c)\<lparr>mi_kmem_ptr := v\<rparr>\<rparr>)"
definition f_umem_ptr :: ci_word where
  "f_umem_ptr = (\<lambda>c. mi_umem_ptr (cp_mi c), \<lambda>v c. c\<lparr>cp_mi := (cp_mi c)\<lparr>mi_umem_ptr := v\<rparr>\<rparr>)"
definition f_kmem_frontier :: ci_word where
  "f_kmem_frontier = (\<lambda>c. mi_kmem_frontier (cp_mi c), \<lambda>v c. c\<lparr>cp_mi := (cp_mi c)\<lparr>mi_kmem_frontier := v\<rparr>\<rparr>)"
definition f_umem_frontier :: ci_word where
  "f_umem_frontier = (\<lambda>c. mi_umem_frontier (cp_mi c), \<lambda>v c. c\<lparr>cp_mi := (cp_mi c)\<lparr>mi_umem_frontier := v\<rparr>\<rparr>)"
definition f_untyped_ptr :: ci_word where
  "f_untyped_ptr = (\<lambda>c. mi_untyped_ptr (cp_mi c), \<lambda>v c. c\<lparr>cp_mi := (cp_mi c)\<lparr>mi_untyped_ptr := v\<rparr>\<rparr>)"
definition f_untyped_frontier :: ci_word where
  "f_untyped_frontier = (\<lambda>c. mi_untyped_frontier (cp_mi c), \<lambda>v c. c\<lparr>cp_mi := (cp_mi c)\<lparr>mi_untyped_frontier := v\<rparr>\<rparr>)"
definition f_cap_frontier :: ci_word where
  "f_cap_frontier = (cp_cap_frontier, \<lambda>v c. c\<lparr>cp_cap_frontier := v\<rparr>)"
definition f_caprange_frontier :: ci_word where
  "f_caprange_frontier = (cp_caprange_frontier, \<lambda>v c. c\<lparr>cp_caprange_frontier := v\<rparr>)"
definition f_cap16_frontier :: "cpuid \<Rightarrow> ci_word" where
  "f_cap16_frontier i = (\<lambda>c. cp_cap16_frontier c i, \<lambda>v c. c\<lparr>cp_cap16_frontier := (cp_cap16_frontier c)(i := v)\<rparr>)"
definition f_cap32_frontier :: "cpuid \<Rightarrow> ci_word" where
  "f_cap32_frontier i = (\<lambda>c. cp_cap32_frontier c i, \<lambda>v c. c\<lparr>cp_cap32_frontier := (cp_cap32_frontier c)(i := v)\<rparr>)"
definition f_cap64_frontier :: ci_word where
  "f_cap64_frontier = (cp_cap64_frontier, \<lambda>v c. c\<lparr>cp_cap64_frontier := v\<rparr>)"
definition f_vas_frontier :: ci_word where
  "f_vas_frontier = (cp_vas_frontier, \<lambda>v c. c\<lparr>cp_vas_frontier := v\<rparr>)"
definition f_vasrange_frontier :: ci_word where
  "f_vasrange_frontier = (cp_vasrange_frontier, \<lambda>v c. c\<lparr>cp_vasrange_frontier := v\<rparr>)"

definition upd_info :: "addr \<Rightarrow> (cos_compinfo \<Rightarrow> cos_compinfo) \<Rightarrow> api_st \<Rightarrow> api_st" where
  "upd_info ci f s = s\<lparr>infos := (infos s)(ci := f (infos s ci))\<rparr>"

definition ci_rd :: "ci_word \<Rightarrow> addr \<Rightarrow> api_st \<Rightarrow> u32" where
  "ci_rd w ci s = fst w (infos s ci)"

definition ci_faa :: "api_env \<Rightarrow> ci_word \<Rightarrow> u32 \<Rightarrow> addr \<Rightarrow> api_st \<Rightarrow> u32 \<times> api_st" where
  "ci_faa E w d ci s = (let (r, v) = ps_faa (ae_ps E) (ci_rd w ci s) d in (r, upd_info ci (snd w v) s))"

definition ci_cas :: "api_env \<Rightarrow> ci_word \<Rightarrow> u32 \<Rightarrow> u32 \<Rightarrow> addr \<Rightarrow> api_st \<Rightarrow> bool \<times> api_st" where
  "ci_cas E w old new ci s = (let (b, v) = ps_cas (ae_ps E) (ci_rd w ci s) old new in (b, upd_info ci (snd w v) s))"

definition ci_load :: "api_env \<Rightarrow> ci_word \<Rightarrow> addr \<Rightarrow> api_st \<Rightarrow> u32" where
  "ci_load E w ci s = ps_load (ae_ps E) (ci_rd w ci s)"

text \<open>A system call is answered by the kernel, which has seen the earlier ones.\<close>

definition call_cap_op :: "api_env \<Rightarrow> u32 \<Rightarrow> u32 \<Rightarrow> u32 \<Rightarrow> u32 \<Rightarrow> u32 \<Rightarrow> u32 \<Rightarrow> api_st \<Rightarrow> int \<times> api_st" where
  "call_cap_op E cap op a1 a2 a3 a4 s =
     (let c = \<lparr>sc_cap = cap, sc_op = op, sc_a1 = a1, sc_a2 = a2, sc_a3 = a3, sc_a4 = a4\<rparr>
      in (ae_sys E (sys_calls s) c, s\<lparr>sys_calls := c # sys_calls s\<rparr>))"

text \<open>A call whose failure is a bug of the caller: \<^verbatim>\<open>BUG()\<close> and \<^verbatim>\<open>assert(0)\<close>.\<close>

definition call_or_bug :: "api_env \<Rightarrow> u32 \<Rightarrow> syscall_op \<Rightarrow> u32 \<Rightarrow> u32 \<Rightarrow> u32 \<Rightarrow> u32 \<Rightarrow> api_st \<Rightarrow> api_st option" where
  "call_or_bug E cap op a1 a2 a3 a4 s = do {
     let (ret, s) = call_cap_op E cap (op_code op) a1 a2 a3 a4 s;
     kassert (ret = 0);
     Some s
   }"

section \<open>Rounding\<close>

definition round_to_pow2 :: "u32 \<Rightarrow> u32 \<Rightarrow> u32" where
  "round_to_pow2 x p = x AND NOT (p - 1)"

definition round_up_to_pow2 :: "u32 \<Rightarrow> u32 \<Rightarrow> u32" where
  "round_up_to_pow2 x p = round_to_pow2 (x + p - 1) p"

definition PGD_RANGE :: u32 where "PGD_RANGE = push_bit 22 1"

definition round_to_pgd_page :: "u32 \<Rightarrow> u32" where
  "round_to_pgd_page x = round_to_pow2 x PGD_RANGE"

definition round_up_to_pgd_page :: "u32 \<Rightarrow> u32" where
  "round_up_to_pgd_page x = round_up_to_pow2 x PGD_RANGE"

definition round_up_to_page :: "u32 \<Rightarrow> u32" where
  "round_up_to_page x = round_up_to_pow2 x PAGE_SIZE"

definition CAPMAX_ENTRY_SZ :: u32 where "CAPMAX_ENTRY_SZ = 4"

definition CAPTBL_EXPAND_SZ :: u32 where "CAPTBL_EXPAND_SZ = 128"

section \<open>Initialisation\<close>

definition compinfo_metacap :: "api_st \<Rightarrow> addr \<Rightarrow> addr" where
  "compinfo_metacap s ci = cp_memsrc (infos s ci)"

definition cos_meminfo_init :: "u32 \<Rightarrow> u32 \<Rightarrow> capid \<Rightarrow> cos_meminfo" where
  "cos_meminfo_init untyped_ptr untyped_sz pgtbl_cap =
     \<lparr>mi_untyped_ptr = untyped_ptr, mi_umem_ptr = untyped_ptr, mi_kmem_ptr = untyped_ptr,
      mi_untyped_frontier = untyped_ptr + untyped_sz, mi_umem_frontier = untyped_ptr, mi_kmem_frontier = untyped_ptr,
      mi_pgtbl_cap = pgtbl_cap\<rparr>"

definition cos_vasfrontier_init :: "addr \<Rightarrow> u32 \<Rightarrow> api_st \<Rightarrow> api_st option" where
  "cos_vasfrontier_init ci heap_ptr s = do {
     let s = upd_info ci (\<lambda>c. c\<lparr>cp_vas_frontier := heap_ptr, cp_vasrange_frontier := round_up_to_pgd_page heap_ptr\<rparr>) s;
     kassert (cp_vasrange_frontier (infos s ci) = round_up_to_pgd_page (cp_vasrange_frontier (infos s ci)));
     Some s
   }"

definition cos_capfrontier_init :: "addr \<Rightarrow> u32 \<Rightarrow> api_st \<Rightarrow> api_st option" where
  "cos_capfrontier_init ci cap_frontier s = do {
     kassert (round_up_to_pow2 cap_frontier CAPMAX_ENTRY_SZ = cap_frontier);
     Some (upd_info ci (\<lambda>c. c\<lparr>cp_cap_frontier := cap_frontier,
       cp_caprange_frontier := (if cap_frontier < CAPTBL_EXPAND_SZ then round_up_to_pow2 cap_frontier CAPTBL_EXPAND_SZ
         else round_up_to_pow2 (cap_frontier + CAPTBL_EXPAND_SZ) (CAPTBL_EXPAND_SZ * 2) - CAPTBL_EXPAND_SZ),
       cp_cap64_frontier := cap_frontier,
       cp_cap16_frontier := (\<lambda>i. if i < NUM_CPU then cap_frontier else cp_cap16_frontier c i),
       cp_cap32_frontier := (\<lambda>i. if i < NUM_CPU then cap_frontier else cp_cap32_frontier c i)\<rparr>) s)
   }"

definition cos_compinfo_init :: "addr \<Rightarrow> capid \<Rightarrow> capid \<Rightarrow> capid \<Rightarrow> u32 \<Rightarrow> u32 \<Rightarrow> addr \<Rightarrow> api_st \<Rightarrow> api_st option" where
  "cos_compinfo_init ci pgtbl_cap captbl_cap comp_cap heap_ptr cap_frontier ci_resources s = do {
     kassert (ci \<noteq> 0 \<and> ci_resources \<noteq> 0);
     kassert (cap_frontier mod CAPMAX_ENTRY_SZ = 0);
     let s = upd_info ci (\<lambda>c. c\<lparr>cp_memsrc := ci_resources\<rparr>) s;
     kassert (cp_memsrc (infos s ci_resources) = ci_resources);
     let s = upd_info ci (\<lambda>c. c\<lparr>cp_pgtbl_cap := pgtbl_cap, cp_captbl_cap := captbl_cap, cp_comp_cap := comp_cap\<rparr>) s;
     s \<leftarrow> cos_vasfrontier_init ci heap_ptr s;
     cos_capfrontier_init ci cap_frontier s
   }"

section \<open>Physical memory\<close>

definition mem_bump_refill :: "api_env \<Rightarrow> ci_word \<Rightarrow> ci_word \<Rightarrow> addr \<Rightarrow> api_st \<Rightarrow> (u32 \<times> api_st) option" where
  "mem_bump_refill E ptr frontier ci s =
     (let ptr_tmp = ci_rd ptr ci s; front_tmp = ci_rd frontier ci s
      in if ci_rd f_untyped_ptr ci s = ci_rd f_untyped_frontier ci s then None
         else let (ret, s) = ci_faa E f_untyped_ptr RETYPE_MEM_SIZE ci s;
                  (b, s) = ci_cas E ptr ptr_tmp (ret + PAGE_SIZE) ci s
              in Some (ret, if b then snd (ci_cas E frontier front_tmp (ret + RETYPE_MEM_SIZE) ci s) else s))"

text \<open>The result is 0 if no memory is left or the kernel refuses to retype it.\<close>

definition mem_bump_alloc :: "api_env \<Rightarrow> addr \<Rightarrow> bool \<Rightarrow> bool \<Rightarrow> (api_st, u32) kop" where
  "mem_bump_alloc E ci0 km retype s = do {
     kassert (ci0 \<noteq> 0);
     let ci = compinfo_metacap s ci0;
     kassert (ci \<noteq> 0);
     let ptr = (if km then f_kmem_ptr else f_umem_ptr);
     let frontier = (if km then f_kmem_frontier else f_umem_frontier);
     let (ret, s) = ci_faa E ptr PAGE_SIZE ci s;
     case (if ret \<ge> ci_rd frontier ci s \<or> ci_rd frontier ci s - ret > RETYPE_MEM_SIZE
           then mem_bump_refill E ptr frontier ci s else Some (ret, s)) of
       None \<Rightarrow> Some (0, s)
     | Some (ret, s) \<Rightarrow>
         if retype \<and> ret mod RETYPE_MEM_SIZE = 0
         then let op = (if km then CAPTBL_OP_MEM_RETYPE2KERN else CAPTBL_OP_MEM_RETYPE2USER);
                  (r, s) = call_cap_op E (mi_pgtbl_cap (cp_mi (infos s ci))) (op_code op) ret 0 0 0 s
              in Some (if r \<noteq> 0 then 0 else ret, s)
         else Some (ret, s)
   }"

definition kmem_bump_alloc :: "api_env \<Rightarrow> addr \<Rightarrow> (api_st, u32) kop" where
  "kmem_bump_alloc E ci = mem_bump_alloc E ci True True"

definition umem_bump_alloc :: "api_env \<Rightarrow> addr \<Rightarrow> (api_st, u32) kop" where
  "umem_bump_alloc E ci = mem_bump_alloc E ci False True"

definition untyped_bump_alloc :: "api_env \<Rightarrow> addr \<Rightarrow> (api_st, u32) kop" where
  "untyped_bump_alloc E ci = mem_bump_alloc E ci True False"

section \<open>Capability identifiers\<close>

text \<open>
  \<^verbatim>\<open>__capid_captbl_check_expand\<close>, where \<open>alloc\<close> stands for the recursive allocation from the component that
  provides the resources.
\<close>

definition capid_captbl_check_expand :: "(addr \<Rightarrow> cap_t \<Rightarrow> (api_st, u32) kop) \<Rightarrow> api_env \<Rightarrow> addr \<Rightarrow> (api_st, int) kop" where
  "capid_captbl_check_expand alloc E ci s = do {
     let meta = compinfo_metacap s ci;
     let self_resources = (meta = ci);
     kassert (compinfo_metacap s meta = meta);
     let frontier = (if self_resources then ci_load E f_caprange_frontier ci s - CAPMAX_ENTRY_SZ
                     else ci_load E f_caprange_frontier ci s);
     kassert (ci_rd f_cap_frontier ci s \<le> frontier);
     if ci_rd f_cap_frontier ci s \<noteq> frontier then Some (0, s)
     else do {
       (kmem, s) \<leftarrow> kmem_bump_alloc E ci s;
       kassert (kmem \<noteq> 0);
       (captblcap, s) \<leftarrow> (if self_resources then Some (frontier, s)
                          else do { (c, s) \<leftarrow> alloc meta CAP_CAPTBL s; kassert (c \<noteq> 0); Some (c, s) });
       let captblid_add = ci_load E f_caprange_frontier ci s;
       kassert (captblid_add mod CAPTBL_EXPAND_SZ = 0);
       s \<leftarrow> call_or_bug E (cp_captbl_cap (infos s meta)) CAPTBL_OP_CAPTBLACTIVATE captblcap
              (mi_pgtbl_cap (cp_mi (infos s meta))) kmem 1 s;
       s \<leftarrow> call_or_bug E (cp_captbl_cap (infos s ci)) CAPTBL_OP_CONS captblcap captblid_add 0 0 s;
       let frontier = ci_load E f_cap_frontier ci s;
       let (range_frontier, s) = ci_faa E f_caprange_frontier (CAPTBL_EXPAND_SZ * 2) ci s;
       let (_, s) = ci_cas E f_cap_frontier frontier range_frontier ci s;
       Some (0, s)
     }
   }"

definition capid_bump_alloc_generic ::
  "(addr \<Rightarrow> cap_t \<Rightarrow> (api_st, u32) kop) \<Rightarrow> api_env \<Rightarrow> addr \<Rightarrow> ci_word \<Rightarrow> u32 \<Rightarrow> (api_st, u32) kop" where
  "capid_bump_alloc_generic alloc E ci capsz_frontier sz s = do {
     (err, s) \<leftarrow> (if ci_rd capsz_frontier ci s mod CAPMAX_ENTRY_SZ = 0
       then do {
         (r, s) \<leftarrow> capid_captbl_check_expand alloc E ci s;
         if r \<noteq> 0 then Some (r, s)
         else do {
           let (v, s) = ci_faa E f_cap_frontier CAPMAX_ENTRY_SZ ci s;
           Some (0, upd_info ci (snd capsz_frontier v) s)
         }
       }
       else Some (0, s));
     if err \<noteq> 0 then Some (0, s)
     else Some (ci_faa E capsz_frontier sz ci s)
   }"

definition capid_bump_step :: "(addr \<Rightarrow> cap_t \<Rightarrow> (api_st, u32) kop) \<Rightarrow> api_env \<Rightarrow> addr \<Rightarrow> cap_t \<Rightarrow> (api_st, u32) kop" where
  "capid_bump_step alloc E ci cap s =
     (let sz = captbl_idsize cap
      in if sz = 1 then capid_bump_alloc_generic alloc E ci (f_cap16_frontier (ae_cpuid E)) (of_nat sz) s
         else if sz = 2 then capid_bump_alloc_generic alloc E ci (f_cap32_frontier (ae_cpuid E)) (of_nat sz) s
         else if sz = 4 then capid_bump_alloc_generic alloc E ci f_cap64_frontier (of_nat sz) s
         else Some (- 1, s))"

text \<open>
  The recursion goes from a component to the one that provides its resources, which provides its own: the
  assertion in \<^verbatim>\<open>__capid_captbl_check_expand\<close> excludes a third level.
\<close>

definition capid_bump_alloc :: "api_env \<Rightarrow> addr \<Rightarrow> cap_t \<Rightarrow> (api_st, u32) kop" where
  "capid_bump_alloc E = capid_bump_step (capid_bump_step (\<lambda>_ _ _. None) E) E"

definition cos_capid_bump_alloc :: "api_env \<Rightarrow> addr \<Rightarrow> cap_t \<Rightarrow> (api_st, u32) kop" where
  "cos_capid_bump_alloc = capid_bump_alloc"

section \<open>Virtual memory\<close>

definition BOOT_CAPTBL_SELF_INITTHD_BASE :: u32 where "BOOT_CAPTBL_SELF_INITTHD_BASE = 36"

definition BOOT_CAPTBL_SELF_INITRCV_BASE :: u32 where
  "BOOT_CAPTBL_SELF_INITRCV_BASE = round_up_to_pow2 (BOOT_CAPTBL_SELF_INITTHD_BASE + of_nat NUM_CPU * CAPMAX_ENTRY_SZ) CAPMAX_ENTRY_SZ"

definition BOOT_CAPTBL_FREE :: u32 where
  "BOOT_CAPTBL_FREE = round_up_to_pow2 (BOOT_CAPTBL_SELF_INITRCV_BASE + of_nat NUM_CPU * CAPMAX_ENTRY_SZ) CAPMAX_ENTRY_SZ"

definition BOOT_CAPTBL_FIX_PTE :: u32 where "BOOT_CAPTBL_FIX_PTE = BOOT_CAPTBL_FREE + 4 + 4 + 4"

definition cos_cap_drop :: "api_env \<Rightarrow> addr \<Rightarrow> capid \<Rightarrow> api_st \<Rightarrow> api_st option" where
  "cos_cap_drop E srcci srccap s = call_or_bug E (cp_captbl_cap (infos s srcci)) CAPTBL_OP_MOVE srccap 0 0 0 s"

definition bump_mem_expand_intern :: "api_env \<Rightarrow> addr \<Rightarrow> capid \<Rightarrow> u32 \<Rightarrow> capid \<Rightarrow> (api_st, u32) kop" where
  "bump_mem_expand_intern E ci cipgtbl mem_ptr intern s = do {
     let meta = compinfo_metacap s ci;
     kassert (meta = compinfo_metacap s meta);
     (pte_cap, s) \<leftarrow> (if intern = 0
       then do {
         let pte_cap = BOOT_CAPTBL_FIX_PTE;
         (ptemem_cap, s) \<leftarrow> kmem_bump_alloc E meta s;
         kassert (\<not> (pte_cap = 0 \<or> ptemem_cap = 0));
         s \<leftarrow> call_or_bug E (cp_captbl_cap (infos s meta)) CAPTBL_OP_PGTBLACTIVATE pte_cap (mi_pgtbl_cap (cp_mi (infos s meta))) ptemem_cap 1 s;
         Some (pte_cap, s)
       }
       else Some (intern, s));
     s \<leftarrow> call_or_bug E cipgtbl CAPTBL_OP_CONS pte_cap mem_ptr 0 0 s;
     s \<leftarrow> cos_cap_drop E meta pte_cap s;
     Some (pte_cap, s)
   }"

text \<open>The loop of \<^verbatim>\<open>__bump_mem_expand_range\<close>, up to the address \<open>lim\<close>.\<close>

partial_function (option) expand_range_loop :: "api_env \<Rightarrow> addr \<Rightarrow> capid \<Rightarrow> u32 \<Rightarrow> u32 \<Rightarrow> api_st \<Rightarrow> (u32 \<times> api_st) option" where
  "expand_range_loop E ci cipgtbl lim a s =
     (if a < lim
      then do {
        (_, s) \<leftarrow> bump_mem_expand_intern E ci cipgtbl a 0 s;
        expand_range_loop E ci cipgtbl lim (a + PGD_RANGE) s
      }
      else Some (a, s))"

definition bump_mem_expand_range :: "api_env \<Rightarrow> addr \<Rightarrow> capid \<Rightarrow> u32 \<Rightarrow> u32 \<Rightarrow> (api_st, u32) kop" where
  "bump_mem_expand_range E ci cipgtbl mem_ptr mem_sz s = do {
     (a, s) \<leftarrow> expand_range_loop E ci cipgtbl (mem_ptr + mem_sz) mem_ptr s;
     kassert (round_up_to_pgd_page a = round_up_to_pgd_page (mem_ptr + mem_sz));
     Some (mem_ptr, s)
   }"

definition cos_pgtbl_intern_alloc :: "api_env \<Rightarrow> addr \<Rightarrow> capid \<Rightarrow> u32 \<Rightarrow> u32 \<Rightarrow> (api_st, u32) kop" where
  "cos_pgtbl_intern_alloc = bump_mem_expand_range"

partial_function (option) vasrange_advance :: "api_env \<Rightarrow> addr \<Rightarrow> u32 \<Rightarrow> api_st \<Rightarrow> api_st option" where
  "vasrange_advance E ci mem_ptr s =
     (let tmp = ci_load E f_vasrange_frontier ci s
      in if tmp \<ge> mem_ptr + PGD_RANGE then Some s
         else vasrange_advance E ci mem_ptr (snd (ci_cas E f_vasrange_frontier tmp (tmp + PGD_RANGE) ci s)))"

definition cos_pgtbl_intern_expand :: "api_env \<Rightarrow> addr \<Rightarrow> u32 \<Rightarrow> int \<Rightarrow> (api_st, u32) kop" where
  "cos_pgtbl_intern_expand E ci mem_ptr lvl s = do {
     kassert (lvl > 0);
     if ci_rd f_vasrange_frontier ci s \<noteq> round_to_pgd_page mem_ptr then Some (0, s)
     else do {
       (cap, s) \<leftarrow> bump_mem_expand_intern E ci (cp_pgtbl_cap (infos s ci)) mem_ptr 0 s;
       if cap = 0 then Some (0, s)
       else do {
         s \<leftarrow> vasrange_advance E ci mem_ptr s;
         Some (cap, s)
       }
     }
   }"

definition cos_pgtbl_intern_expandwith :: "api_env \<Rightarrow> addr \<Rightarrow> capid \<Rightarrow> u32 \<Rightarrow> (api_st, int) kop" where
  "cos_pgtbl_intern_expandwith E ci intern va s =
     (if ci_rd f_vasrange_frontier ci s \<noteq> round_to_pgd_page va then Some (- 1, s)
      else let (r, s) = ci_faa E f_vasrange_frontier PGD_RANGE ci s
           in if r > round_to_pgd_page va then Some (- 1, s)
              else let (r, s) = ci_faa E f_vas_frontier PGD_RANGE ci s
                   in if r > round_to_pgd_page va then Some (- 1, s)
                      else do {
                        (c, s) \<leftarrow> bump_mem_expand_intern E ci (cp_pgtbl_cap (infos s ci)) va intern s;
                        Some (if c \<noteq> intern then 1 else 0, s)
                      })"

text \<open>The loop that moves untyped pages into another component.\<close>

partial_function (option) memmove_loop :: "api_env \<Rightarrow> capid \<Rightarrow> capid \<Rightarrow> u32 \<Rightarrow> u32 \<Rightarrow> u32 \<Rightarrow> api_st \<Rightarrow> api_st option" where
  "memmove_loop E src_pt dst_pt lim a start_addr s =
     (if a < lim
      then do {
        s \<leftarrow> call_or_bug E src_pt CAPTBL_OP_MEMMOVE start_addr dst_pt a 0 s;
        memmove_loop E src_pt dst_pt lim (a + PAGE_SIZE) (start_addr + PAGE_SIZE) s
      }
      else Some s)"

definition cos_meminfo_populate :: "api_env \<Rightarrow> addr \<Rightarrow> u32 \<Rightarrow> u32 \<Rightarrow> api_st \<Rightarrow> api_st option" where
  "cos_meminfo_populate E ci untyped_ptr untyped_sz s = do {
     let meta = compinfo_metacap s ci;
     kassert (untyped_ptr = round_up_to_pgd_page untyped_ptr);
     kassert (untyped_sz = round_up_to_pgd_page untyped_sz);
     (retaddr, s) \<leftarrow> bump_mem_expand_range E ci (mi_pgtbl_cap (cp_mi (infos s ci))) untyped_ptr untyped_sz s;
     kassert (retaddr = untyped_ptr);
     let (start_addr, s) = ci_faa E f_untyped_ptr untyped_sz meta s;
     let (_, s) = ci_faa E f_untyped_frontier untyped_sz meta s;
     memmove_loop E (mi_pgtbl_cap (cp_mi (infos s meta))) (mi_pgtbl_cap (cp_mi (infos s ci))) (untyped_ptr + untyped_sz)
       untyped_ptr start_addr s
   }"

definition cos_meminfo_alloc :: "api_env \<Rightarrow> addr \<Rightarrow> u32 \<Rightarrow> u32 \<Rightarrow> api_st \<Rightarrow> api_st option" where
  "cos_meminfo_alloc E ci untyped_ptr untyped_sz s = do {
     s \<leftarrow> cos_meminfo_populate E ci untyped_ptr untyped_sz s;
     Some (upd_info ci (\<lambda>c. c\<lparr>cp_mi := cos_meminfo_init untyped_ptr untyped_sz (mi_pgtbl_cap (cp_mi c))\<rparr>) s)
   }"

partial_function (option) frontier_advance :: "api_env \<Rightarrow> ci_word \<Rightarrow> addr \<Rightarrow> u32 \<Rightarrow> u32 \<Rightarrow> api_st \<Rightarrow> api_st option" where
  "frontier_advance E mem_frontier ci heap_vaddr sz s =
     (let tmp = ci_load E mem_frontier ci s
      in if tmp > heap_vaddr then Some s
         else frontier_advance E mem_frontier ci heap_vaddr sz
                (snd (ci_cas E mem_frontier tmp (round_up_to_pgd_page (heap_vaddr + sz)) ci s)))"

definition page_bump_mem_alloc :: "api_env \<Rightarrow> addr \<Rightarrow> ci_word \<Rightarrow> ci_word \<Rightarrow> u32 \<Rightarrow> (api_st, u32) kop" where
  "page_bump_mem_alloc E ci mem_addr mem_frontier sz s = do {
     let meta = compinfo_metacap s ci;
     kassert (sz mod PAGE_SIZE = 0);
     kassert (meta = compinfo_metacap s meta);
     let (heap_vaddr, s) = ci_faa E mem_addr sz ci s;
     let rounded = sz - (round_up_to_pgd_page heap_vaddr - heap_vaddr);
     if heap_vaddr + sz \<le> ci_rd mem_frontier ci s then Some (heap_vaddr, s)
     else do {
       (retaddr, s) \<leftarrow> bump_mem_expand_range E ci (cp_pgtbl_cap (infos s ci)) (round_up_to_pgd_page heap_vaddr) rounded s;
       kassert (retaddr \<noteq> 0);
       s \<leftarrow> frontier_advance E mem_frontier ci heap_vaddr sz s;
       Some (heap_vaddr, s)
     }
   }"

definition page_bump_valloc :: "api_env \<Rightarrow> addr \<Rightarrow> u32 \<Rightarrow> (api_st, u32) kop" where
  "page_bump_valloc E ci sz s = page_bump_mem_alloc E ci f_vas_frontier f_vasrange_frontier sz s"

partial_function (option) page_map_loop :: "api_env \<Rightarrow> addr \<Rightarrow> u32 \<Rightarrow> u32 \<Rightarrow> api_st \<Rightarrow> (bool \<times> api_st) option" where
  "page_map_loop E ci heap_limit heap_cursor s =
     (if heap_cursor < heap_limit
      then do {
        (umem, s) \<leftarrow> umem_bump_alloc E ci s;
        if umem = 0 then Some (False, s)
        else do {
          s \<leftarrow> call_or_bug E (mi_pgtbl_cap (cp_mi (infos s (compinfo_metacap s ci)))) CAPTBL_OP_MEMACTIVATE umem
                 (cp_pgtbl_cap (infos s ci)) heap_cursor 0 s;
          page_map_loop E ci heap_limit (heap_cursor + PAGE_SIZE) s
        }
      }
      else Some (True, s))"

definition page_bump_alloc :: "api_env \<Rightarrow> addr \<Rightarrow> u32 \<Rightarrow> (api_st, u32) kop" where
  "page_bump_alloc E ci sz s = do {
     (heap_vaddr, s) \<leftarrow> page_bump_valloc E ci sz s;
     if heap_vaddr = 0 then Some (0, s)
     else do {
       let heap_limit = heap_vaddr + sz;
       kassert (heap_limit > heap_vaddr);
       (ok, s) \<leftarrow> page_map_loop E ci heap_limit heap_vaddr s;
       Some (if ok then heap_vaddr else 0, s)
     }
   }"

definition cos_page_bump_alloc :: "api_env \<Rightarrow> addr \<Rightarrow> (api_st, u32) kop" where
  "cos_page_bump_alloc E ci s = page_bump_alloc E ci PAGE_SIZE s"

definition cos_page_bump_allocn :: "api_env \<Rightarrow> addr \<Rightarrow> u32 \<Rightarrow> (api_st, u32) kop" where
  "cos_page_bump_allocn E ci sz s = do {
     kassert (sz mod PAGE_SIZE = 0);
     page_bump_alloc E ci sz s
   }"

section \<open>Kernel objects\<close>

definition livenessid_bump_alloc :: "api_st \<Rightarrow> u32 \<times> api_st" where
  "livenessid_bump_alloc s = (livenessid_frontier s, s\<lparr>livenessid_frontier := livenessid_frontier s + 1\<rparr>)"

text \<open>Memory and an identifier for an object; 0 stands for failure.\<close>

definition alloc_mem_cap :: "api_env \<Rightarrow> addr \<Rightarrow> cap_t \<Rightarrow> (api_st, u32 \<times> u32) kop" where
  "alloc_mem_cap E ci ct s = do {
     (kmem, s) \<leftarrow> kmem_bump_alloc E ci s;
     if kmem = 0 then Some ((0, 0), s)
     else do {
       (cap, s) \<leftarrow> capid_bump_alloc E ci ct s;
       Some ((kmem, cap), s)
     }
   }"

definition meta_pgtbl :: "api_st \<Rightarrow> addr \<Rightarrow> capid" where
  "meta_pgtbl s ci = mi_pgtbl_cap (cp_mi (infos s (compinfo_metacap s ci)))"

definition cos_thd_alloc_intern :: "api_env \<Rightarrow> addr \<Rightarrow> capid \<Rightarrow> u32 \<Rightarrow> u32 \<Rightarrow> (api_st, u32) kop" where
  "cos_thd_alloc_intern E ci cc init_data thdid s = do {
     kassert (ci \<noteq> 0 \<and> cc > 0);
     ((kmem, cap), s) \<leftarrow> alloc_mem_cap E ci CAP_THD s;
     if cap = 0 then Some (0, s)
     else do {
       kassert (init_data AND NOT (push_bit 16 1 - 1) = 0);
       s \<leftarrow> call_or_bug E (cp_captbl_cap (infos s ci)) CAPTBL_OP_THDACTIVATE (push_bit 16 init_data OR cap)
              (push_bit 16 (meta_pgtbl s ci) OR cc) kmem thdid s;
       Some (cap, s)
     }
   }"

definition cos_thd_id_alloc :: "api_env \<Rightarrow> (api_st, u32) kop" where
  "cos_thd_id_alloc E s = do {
     let (v, new) = ps_faa (ae_ps E) (thdid_alloc s) 1;
     let s = s\<lparr>thdid_alloc := new\<rparr>;
     let assignment = (ucast v :: u16);
     kassert (ucast assignment = v);
     Some (ucast assignment, s)
   }"

text \<open>The closures of threads that are being created (\<^verbatim>\<open>cos_thd_init.h\<close>).\<close>

definition COS_THD_INIT_REGION_SIZE :: nat where "COS_THD_INIT_REGION_SIZE = 2 ^ 8"

fun init_data_scan :: "nat \<Rightarrow> nat \<Rightarrow> thd_init_data list \<Rightarrow> nat option" where
  "init_data_scan 0 i tab = None"
| "init_data_scan (Suc n) i tab = (if ti_fn (tab ! i) = 0 then Some i else init_data_scan n (Suc i) tab)"

definition init_data_alloc :: "addr \<Rightarrow> addr \<Rightarrow> (api_st, int) kop" where
  "init_data_alloc fn data s = do {
     kassert (fn \<noteq> 0);
     case init_data_scan COS_THD_INIT_REGION_SIZE 0 (thd_inits s) of
       Some i \<Rightarrow> Some (int i + 1, s\<lparr>thd_inits := (thd_inits s)[i := \<lparr>ti_fn = fn, ti_data = data\<rparr>]\<rparr>)
     | None \<Rightarrow> Some (- 1, s)
   }"

definition cos_thd_init_alloc :: "addr \<Rightarrow> addr \<Rightarrow> (api_st, int) kop" where
  "cos_thd_init_alloc fn data s = (if fn = 0 then Some (- 1, s) else init_data_alloc fn data s)"

definition clear_thd_init_data :: "int \<Rightarrow> api_st \<Rightarrow> api_st option" where
  "clear_thd_init_data idx s = do {
     kassert (idx > 0 \<and> idx \<le> int COS_THD_INIT_REGION_SIZE);
     e \<leftarrow> arr_rd (thd_inits s) idx;
     kassert (ti_fn e \<noteq> 0);
     Some (s\<lparr>thd_inits := (thd_inits s)[nat (idx - 1) := \<lparr>ti_fn = 0, ti_data = 0\<rparr>]\<rparr>)
   }"

definition cos_thd_init_free :: "int \<Rightarrow> api_st \<Rightarrow> api_st option" where
  "cos_thd_init_free idx s =
     (if idx > int COS_THD_INIT_REGION_SIZE \<or> idx \<le> 0 then Some s
      else do {
        e \<leftarrow> arr_rd (thd_inits s) idx;
        if ti_fn e = 0 then Some s else clear_thd_init_data idx s
      })"

definition cos_thd_alloc_ext :: "api_env \<Rightarrow> addr \<Rightarrow> capid \<Rightarrow> int \<Rightarrow> (api_st, u32) kop" where
  "cos_thd_alloc_ext E ci cc idx s = do {
     (thdid, s) \<leftarrow> cos_thd_id_alloc E s;
     if idx < 1 then Some (0, s) else cos_thd_alloc_intern E ci cc (of_int idx) thdid s
   }"

definition cos_thd_alloc :: "api_env \<Rightarrow> addr \<Rightarrow> capid \<Rightarrow> addr \<Rightarrow> addr \<Rightarrow> (api_st, u32) kop" where
  "cos_thd_alloc E ci cc fn data s = do {
     (idx, s) \<leftarrow> cos_thd_init_alloc fn data s;
     (thdid, s) \<leftarrow> cos_thd_id_alloc E s;
     if idx < 1 then Some (0, s)
     else do {
       (ret, s) \<leftarrow> cos_thd_alloc_intern E ci cc (of_int idx) thdid s;
       s \<leftarrow> (if ret = 0 then cos_thd_init_free idx s else Some s);
       Some (ret, s)
     }
   }"

definition cos_initthd_alloc :: "api_env \<Rightarrow> addr \<Rightarrow> capid \<Rightarrow> (api_st, u32) kop" where
  "cos_initthd_alloc E ci cc s = do {
     (thdid, s) \<leftarrow> cos_thd_id_alloc E s;
     cos_thd_alloc_intern E ci cc 0 thdid s
   }"

definition cos_captbl_alloc_at :: "api_env \<Rightarrow> addr \<Rightarrow> capid \<Rightarrow> (api_st, u32) kop" where
  "cos_captbl_alloc_at E ci cap s = do {
     kassert (ci \<noteq> 0);
     (kmem, s) \<leftarrow> kmem_bump_alloc E ci s;
     if kmem = 0 then Some (0, s)
     else do {
       s \<leftarrow> call_or_bug E (cp_captbl_cap (infos s ci)) CAPTBL_OP_CAPTBLACTIVATE cap (meta_pgtbl s ci) kmem 0 s;
       Some (cap, s)
     }
   }"

text \<open>The objects that take a page of kernel memory.\<close>

definition table_alloc :: "api_env \<Rightarrow> addr \<Rightarrow> cap_t \<Rightarrow> syscall_op \<Rightarrow> (api_st, u32) kop" where
  "table_alloc E ci ct op s = do {
     kassert (ci \<noteq> 0);
     ((kmem, cap), s) \<leftarrow> alloc_mem_cap E ci ct s;
     if cap = 0 then Some (0, s)
     else do {
       s \<leftarrow> call_or_bug E (cp_captbl_cap (infos s ci)) op cap (meta_pgtbl s ci) kmem 0 s;
       Some (cap, s)
     }
   }"

definition cos_captbl_alloc :: "api_env \<Rightarrow> addr \<Rightarrow> (api_st, u32) kop" where
  "cos_captbl_alloc E ci = table_alloc E ci CAP_CAPTBL CAPTBL_OP_CAPTBLACTIVATE"

definition cos_pgtbl_alloc :: "api_env \<Rightarrow> addr \<Rightarrow> (api_st, u32) kop" where
  "cos_pgtbl_alloc E ci = table_alloc E ci CAP_PGTBL CAPTBL_OP_PGTBLACTIVATE"

definition cos_tcap_alloc :: "api_env \<Rightarrow> addr \<Rightarrow> (api_st, u32) kop" where
  "cos_tcap_alloc E ci s = do {
     kassert (ci \<noteq> 0);
     ((kmem, cap), s) \<leftarrow> alloc_mem_cap E ci CAP_TCAP s;
     if cap = 0 then Some (0, s)
     else do {
       s \<leftarrow> call_or_bug E (cp_captbl_cap (infos s ci)) CAPTBL_OP_TCAP_ACTIVATE (push_bit 16 cap OR meta_pgtbl s ci) kmem 0 0 s;
       Some (cap, s)
     }
   }"

text \<open>The objects that are only a capability.\<close>

definition cap_activate :: "api_env \<Rightarrow> addr \<Rightarrow> cap_t \<Rightarrow> syscall_op \<Rightarrow> u32 \<Rightarrow> u32 \<Rightarrow> u32 \<Rightarrow> (api_st, u32) kop" where
  "cap_activate E ci ct op a2 a3 a4 s = do {
     (cap, s) \<leftarrow> capid_bump_alloc E ci ct s;
     if cap = 0 then Some (0, s)
     else do {
       s \<leftarrow> call_or_bug E (cp_captbl_cap (infos s ci)) op cap a2 a3 a4 s;
       Some (cap, s)
     }
   }"

definition cos_comp_alloc :: "api_env \<Rightarrow> addr \<Rightarrow> capid \<Rightarrow> capid \<Rightarrow> u32 \<Rightarrow> (api_st, u32) kop" where
  "cos_comp_alloc E ci ctc ptc entry s = do {
     let (lid, s) = livenessid_bump_alloc s;
     kassert (ci \<noteq> 0 \<and> ctc \<noteq> 0 \<and> ptc \<noteq> 0 \<and> lid \<noteq> 0);
     cap_activate E ci CAP_COMP CAPTBL_OP_COMPACTIVATE (push_bit 16 ctc OR ptc) lid entry s
   }"

definition cos_comp_alloc_at :: "api_env \<Rightarrow> addr \<Rightarrow> capid \<Rightarrow> capid \<Rightarrow> u32 \<Rightarrow> capid \<Rightarrow> (api_st, u32) kop" where
  "cos_comp_alloc_at E ci ctc ptc entry cap s = do {
     let (lid, s) = livenessid_bump_alloc s;
     kassert (ci \<noteq> 0 \<and> ctc \<noteq> 0 \<and> ptc \<noteq> 0 \<and> lid \<noteq> 0);
     s \<leftarrow> call_or_bug E (cp_captbl_cap (infos s ci)) CAPTBL_OP_COMPACTIVATE cap (push_bit 16 ctc OR ptc) lid entry s;
     Some (cap, s)
   }"

definition cos_compinfo_alloc :: "api_env \<Rightarrow> addr \<Rightarrow> u32 \<Rightarrow> u32 \<Rightarrow> u32 \<Rightarrow> addr \<Rightarrow> (api_st, int) kop" where
  "cos_compinfo_alloc E ci heap_ptr cap_frontier entry ci_resources s = do {
     (ptc, s) \<leftarrow> cos_pgtbl_alloc E ci_resources s;
     kassert (ptc \<noteq> 0);
     (ctc, s) \<leftarrow> cos_captbl_alloc E ci_resources s;
     kassert (ctc \<noteq> 0);
     (compc, s) \<leftarrow> cos_comp_alloc E ci_resources ctc ptc entry s;
     kassert (compc \<noteq> 0);
     s \<leftarrow> cos_compinfo_init ci ptc ctc compc heap_ptr cap_frontier ci_resources s;
     Some (0, s)
   }"

definition cos_sinv_alloc :: "api_env \<Rightarrow> addr \<Rightarrow> capid \<Rightarrow> u32 \<Rightarrow> u32 \<Rightarrow> (api_st, u32) kop" where
  "cos_sinv_alloc E srcci dstcomp entry token s = do {
     kassert (srcci \<noteq> 0 \<and> dstcomp \<noteq> 0);
     cap_activate E srcci CAP_COMP CAPTBL_OP_SINVACTIVATE dstcomp entry token s
   }"

definition cos_sinv_alloc_at :: "api_env \<Rightarrow> addr \<Rightarrow> capid \<Rightarrow> u32 \<Rightarrow> u32 \<Rightarrow> capid \<Rightarrow> (api_st, u32) kop" where
  "cos_sinv_alloc_at E srcci dstcomp entry token cap s = do {
     kassert (srcci \<noteq> 0 \<and> dstcomp \<noteq> 0);
     if cap = 0 then Some (0, s)
     else do {
       s \<leftarrow> call_or_bug E (cp_captbl_cap (infos s srcci)) CAPTBL_OP_SINVACTIVATE cap dstcomp entry token s;
       Some (cap, s)
     }
   }"

definition cos_arcv_alloc :: "api_env \<Rightarrow> addr \<Rightarrow> capid \<Rightarrow> capid \<Rightarrow> capid \<Rightarrow> capid \<Rightarrow> (api_st, u32) kop" where
  "cos_arcv_alloc E ci thdcap tcapcap compcap arcvcap s = do {
     kassert (ci \<noteq> 0 \<and> thdcap \<noteq> 0 \<and> tcapcap \<noteq> 0 \<and> compcap \<noteq> 0);
     cap_activate E ci CAP_ARCV CAPTBL_OP_ARCVACTIVATE (thdcap OR push_bit 16 tcapcap) compcap arcvcap s
   }"

definition cos_asnd_alloc :: "api_env \<Rightarrow> addr \<Rightarrow> capid \<Rightarrow> capid \<Rightarrow> (api_st, u32) kop" where
  "cos_asnd_alloc E ci arcvcap ctcap s = do {
     kassert (ci \<noteq> 0 \<and> arcvcap \<noteq> 0 \<and> ctcap \<noteq> 0);
     cap_activate E ci CAP_ASND CAPTBL_OP_ASNDACTIVATE ctcap arcvcap 0 s
   }"

definition cos_hw_alloc :: "api_env \<Rightarrow> addr \<Rightarrow> u32 \<Rightarrow> (api_st, u32) kop" where
  "cos_hw_alloc E ci bitmap s = do {
     kassert (ci \<noteq> 0);
     cap_activate E ci CAP_HW CAPTBL_OP_HW_ACTIVATE bitmap 0 0 s
   }"

definition cos_cap_cpy :: "api_env \<Rightarrow> addr \<Rightarrow> addr \<Rightarrow> cap_t \<Rightarrow> capid \<Rightarrow> (api_st, u32) kop" where
  "cos_cap_cpy E dstci srcci srcctype srccap s = do {
     kassert (srcci \<noteq> 0 \<and> dstci \<noteq> 0);
     (dstcap, s) \<leftarrow> capid_bump_alloc E dstci srcctype s;
     if dstcap = 0 then Some (0, s)
     else do {
       s \<leftarrow> call_or_bug E (cp_captbl_cap (infos s srcci)) CAPTBL_OP_CPY srccap (cp_captbl_cap (infos s dstci)) dstcap 0 s;
       Some (dstcap, s)
     }
   }"

text \<open>\<^verbatim>\<open>cos_cap_cpy_at\<close> and \<^verbatim>\<open>cos_cap_move_at\<close>, which differ in the operation.\<close>

definition cap_put_at :: "api_env \<Rightarrow> syscall_op \<Rightarrow> addr \<Rightarrow> capid \<Rightarrow> addr \<Rightarrow> capid \<Rightarrow> (api_st, int) kop" where
  "cap_put_at E op dstci dstcap srcci srccap s = do {
     kassert (srcci \<noteq> 0 \<and> dstci \<noteq> 0);
     if dstcap = 0 then Some (0, s)
     else do {
       s \<leftarrow> call_or_bug E (cp_captbl_cap (infos s srcci)) op srccap (cp_captbl_cap (infos s dstci)) dstcap 0 s;
       Some (0, s)
     }
   }"

definition cos_cap_cpy_at :: "api_env \<Rightarrow> addr \<Rightarrow> capid \<Rightarrow> addr \<Rightarrow> capid \<Rightarrow> (api_st, int) kop" where
  "cos_cap_cpy_at E = cap_put_at E CAPTBL_OP_CPY"

definition cos_cap_move_at :: "api_env \<Rightarrow> addr \<Rightarrow> capid \<Rightarrow> addr \<Rightarrow> capid \<Rightarrow> (api_st, int) kop" where
  "cos_cap_move_at E = cap_put_at E CAPTBL_OP_MOVE"

section \<open>Memory between components\<close>

text \<open>The loops of \<^verbatim>\<open>cos_mem_aliasn\<close> and \<^verbatim>\<open>cos_hw_map\<close> over the pages of a range, \<open>i\<close> bytes from its beginning.\<close>

partial_function (option) alias_loop :: "api_env \<Rightarrow> capid \<Rightarrow> capid \<Rightarrow> u32 \<Rightarrow> u32 \<Rightarrow> u32 \<Rightarrow> u32 \<Rightarrow> api_st \<Rightarrow> api_st option" where
  "alias_loop E src_pt dst_pt sz i src dst s =
     (if i < sz
      then do {
        s \<leftarrow> call_or_bug E src_pt CAPTBL_OP_CPY src dst_pt dst 0 s;
        alias_loop E src_pt dst_pt sz (i + PAGE_SIZE) (src + PAGE_SIZE) (dst + PAGE_SIZE) s
      }
      else Some s)"

definition cos_mem_aliasn :: "api_env \<Rightarrow> addr \<Rightarrow> addr \<Rightarrow> u32 \<Rightarrow> u32 \<Rightarrow> (api_st, u32) kop" where
  "cos_mem_aliasn E dstci srcci src sz s = do {
     kassert (srcci \<noteq> 0 \<and> dstci \<noteq> 0);
     kassert (sz \<noteq> 0 \<and> sz mod PAGE_SIZE = 0);
     (dst, s) \<leftarrow> page_bump_valloc E dstci sz s;
     if dst = 0 then Some (0, s)
     else do {
       s \<leftarrow> alias_loop E (cp_pgtbl_cap (infos s srcci)) (cp_pgtbl_cap (infos s dstci)) sz 0 src dst s;
       Some (dst, s)
     }
   }"

definition cos_mem_alias :: "api_env \<Rightarrow> addr \<Rightarrow> addr \<Rightarrow> u32 \<Rightarrow> (api_st, u32) kop" where
  "cos_mem_alias E dstci srcci src s = cos_mem_aliasn E dstci srcci src PAGE_SIZE s"

text \<open>\<^verbatim>\<open>cos_mem_alias_at\<close> and \<^verbatim>\<open>cos_mem_move_at\<close>, which differ in the operation.\<close>

definition mem_put_at :: "api_env \<Rightarrow> syscall_op \<Rightarrow> addr \<Rightarrow> u32 \<Rightarrow> addr \<Rightarrow> u32 \<Rightarrow> (api_st, int) kop" where
  "mem_put_at E op dstci dst srcci src s = do {
     kassert (srcci \<noteq> 0 \<and> dstci \<noteq> 0);
     s \<leftarrow> call_or_bug E (cp_pgtbl_cap (infos s srcci)) op src (cp_pgtbl_cap (infos s dstci)) dst 0 s;
     Some (0, s)
   }"

definition cos_mem_alias_at :: "api_env \<Rightarrow> addr \<Rightarrow> u32 \<Rightarrow> addr \<Rightarrow> u32 \<Rightarrow> (api_st, int) kop" where
  "cos_mem_alias_at E = mem_put_at E CAPTBL_OP_CPY"

definition cos_mem_move_at :: "api_env \<Rightarrow> addr \<Rightarrow> u32 \<Rightarrow> addr \<Rightarrow> u32 \<Rightarrow> (api_st, int) kop" where
  "cos_mem_move_at E = mem_put_at E CAPTBL_OP_MEMMOVE"

definition cos_mem_move :: "api_env \<Rightarrow> addr \<Rightarrow> addr \<Rightarrow> u32 \<Rightarrow> (api_st, u32) kop" where
  "cos_mem_move E dstci srcci src s = do {
     kassert (srcci \<noteq> 0 \<and> dstci \<noteq> 0);
     (dst, s) \<leftarrow> page_bump_valloc E dstci PAGE_SIZE s;
     if dst = 0 then Some (0, s)
     else do {
       s \<leftarrow> call_or_bug E (cp_pgtbl_cap (infos s srcci)) CAPTBL_OP_MEMMOVE src (cp_pgtbl_cap (infos s dstci)) dst 0 s;
       Some (dst, s)
     }
   }"

partial_function (option) hw_map_loop :: "api_env \<Rightarrow> capid \<Rightarrow> capid \<Rightarrow> u32 \<Rightarrow> u32 \<Rightarrow> u32 \<Rightarrow> u32 \<Rightarrow> api_st \<Rightarrow> api_st option" where
  "hw_map_loop E hwc pt sz va pa i s =
     (if i < sz
      then do {
        s \<leftarrow> call_or_bug E hwc CAPTBL_OP_HW_MAP pt (va + i) (pa + i) 0 s;
        hw_map_loop E hwc pt sz va pa (i + PAGE_SIZE) s
      }
      else Some s)"

definition cos_hw_map :: "api_env \<Rightarrow> addr \<Rightarrow> capid \<Rightarrow> u32 \<Rightarrow> u32 \<Rightarrow> (api_st, u32) kop" where
  "cos_hw_map E ci hwc pa len s = do {
     kassert (ci \<noteq> 0 \<and> hwc \<noteq> 0 \<and> pa \<noteq> 0 \<and> len \<noteq> 0);
     let sz = round_up_to_page len;
     (va, s) \<leftarrow> page_bump_valloc E ci sz s;
     if va = 0 then Some (0, s)
     else do {
       s \<leftarrow> hw_map_loop E hwc (cp_pgtbl_cap (infos s ci)) sz va pa 0 s;
       Some (va, s)
     }
   }"

section \<open>Operations on kernel objects\<close>

text \<open>The system calls that these functions make.\<close>

definition cos_thd_switch :: "capid \<Rightarrow> sys_call" where
  "cos_thd_switch c = \<lparr>sc_cap = c, sc_op = 0, sc_a1 = 0, sc_a2 = 0, sc_a3 = 0, sc_a4 = 0\<rparr>"

definition cos_thd_wakeup :: "capid \<Rightarrow> capid \<Rightarrow> u64 \<Rightarrow> u32 \<Rightarrow> sys_call" where
  "cos_thd_wakeup thd tc p res = \<lparr>sc_cap = tc, sc_op = op_code CAPTBL_OP_TCAP_WAKEUP, sc_a1 = thd,
     sc_a2 = ucast (drop_bit 32 (push_bit 32 p)), sc_a3 = ucast (drop_bit 32 p), sc_a4 = res\<rparr>"

definition cos_switch :: "capid \<Rightarrow> capid \<Rightarrow> u64 \<Rightarrow> u32 \<Rightarrow> capid \<Rightarrow> u32 \<Rightarrow> sys_call" where
  "cos_switch c tc p tmo rcv stok = \<lparr>sc_cap = c, sc_op = drop_bit 16 stok, sc_a1 = push_bit 16 tc OR rcv,
     sc_a2 = ucast (drop_bit 32 (push_bit 32 p)),
     sc_a3 = ucast (push_bit 16 (drop_bit 48 (push_bit 16 p)) OR ucast (drop_bit 16 (push_bit 16 stok)) :: u64), sc_a4 = tmo\<rparr>"

definition cos_sched_sync :: "api_env \<Rightarrow> api_st \<Rightarrow> u32 \<times> api_st" where
  "cos_sched_sync E s =
     (let (v, new) = ps_faa (ae_ps E) (sched_toks s (ae_cpuid E)) 1
      in (v, s\<lparr>sched_toks := (sched_toks s)(ae_cpuid E := new)\<rparr>))"

definition cos_sched_asnd :: "capid \<Rightarrow> u32 \<Rightarrow> capid \<Rightarrow> u32 \<Rightarrow> sys_call" where
  "cos_sched_asnd snd_cap tmo srcv stok = \<lparr>sc_cap = snd_cap, sc_op = 0, sc_a1 = srcv, sc_a2 = stok, sc_a3 = tmo, sc_a4 = 0\<rparr>"

definition cos_asnd :: "capid \<Rightarrow> u32 \<Rightarrow> sys_call" where
  "cos_asnd snd_cap yield = \<lparr>sc_cap = snd_cap, sc_op = 0, sc_a1 = 0, sc_a2 = 0, sc_a3 = 0, sc_a4 = yield\<rparr>"

definition cos_tcap_transfer :: "capid \<Rightarrow> capid \<Rightarrow> u32 \<Rightarrow> u64 \<Rightarrow> sys_call" where
  "cos_tcap_transfer dst src res p = \<lparr>sc_cap = src, sc_op = op_code CAPTBL_OP_TCAP_TRANSFER, sc_a1 = dst, sc_a2 = res,
     sc_a3 = ucast (drop_bit 32 p), sc_a4 = ucast (drop_bit 32 (push_bit 32 p))\<rparr>"

definition TCAP_DELEG_YIELD :: u32 where "TCAP_DELEG_YIELD = push_bit 1 1"

definition cos_tcap_delegate :: "capid \<Rightarrow> capid \<Rightarrow> u32 \<Rightarrow> u64 \<Rightarrow> u32 \<Rightarrow> sys_call" where
  "cos_tcap_delegate dst src res p flags =
     (let yield = (if flags AND TCAP_DELEG_YIELD \<noteq> 0 then 1 else 0)
      in \<lparr>sc_cap = src, sc_op = op_code CAPTBL_OP_TCAP_DELEGATE, sc_a1 = dst, sc_a2 = res,
          sc_a3 = ucast (drop_bit 32 p) OR push_bit 31 yield, sc_a4 = ucast (drop_bit 32 (push_bit 32 p))\<rparr>)"

definition cos_tcap_merge :: "capid \<Rightarrow> capid \<Rightarrow> sys_call" where
  "cos_tcap_merge dst rm = \<lparr>sc_cap = dst, sc_op = op_code CAPTBL_OP_TCAP_MERGE, sc_a1 = rm, sc_a2 = 0, sc_a3 = 0, sc_a4 = 0\<rparr>"

definition cos_hw_attach :: "capid \<Rightarrow> u32 \<Rightarrow> capid \<Rightarrow> sys_call" where
  "cos_hw_attach hwc hwid arcv = \<lparr>sc_cap = hwc, sc_op = op_code CAPTBL_OP_HW_ATTACH, sc_a1 = hwid, sc_a2 = arcv, sc_a3 = 0, sc_a4 = 0\<rparr>"

definition cos_hw_detach :: "capid \<Rightarrow> u32 \<Rightarrow> sys_call" where
  "cos_hw_detach hwc hwid = \<lparr>sc_cap = hwc, sc_op = op_code CAPTBL_OP_HW_DETACH, sc_a1 = hwid, sc_a2 = 0, sc_a3 = 0, sc_a4 = 0\<rparr>"

definition cos_sinv :: "capid \<Rightarrow> u32 \<Rightarrow> u32 \<Rightarrow> u32 \<Rightarrow> u32 \<Rightarrow> sys_call" where
  "cos_sinv sinv a1 a2 a3 a4 = \<lparr>sc_cap = sinv, sc_op = 0, sc_a1 = a1, sc_a2 = a2, sc_a3 = a3, sc_a4 = a4\<rparr>"

definition cos_thd_mod :: "api_env \<Rightarrow> addr \<Rightarrow> capid \<Rightarrow> u32 \<Rightarrow> api_st \<Rightarrow> int \<times> api_st" where
  "cos_thd_mod E ci tc tlsaddr s = call_cap_op E (cp_captbl_cap (infos s ci)) (op_code CAPTBL_OP_THDTLSSET) tc tlsaddr 0 0 s"

definition cos_introspect :: "api_env \<Rightarrow> addr \<Rightarrow> capid \<Rightarrow> u32 \<Rightarrow> api_st \<Rightarrow> int \<times> api_st" where
  "cos_introspect E ci cap op s = call_cap_op E (cp_captbl_cap (infos s ci)) (op_code CAPTBL_OP_INTROSPECT) cap op 0 0 s"

text \<open>The number of cycles is asked for until the kernel has one, and kept.\<close>

partial_function (option) cos_hw_cycles_per_usec :: "api_env \<Rightarrow> capid \<Rightarrow> api_st \<Rightarrow> (int \<times> api_st) option" where
  "cos_hw_cycles_per_usec E hwc s =
     (if hw_cycs s \<noteq> 0 then Some (hw_cycs s, s)
      else let (v, s) = call_cap_op E hwc (op_code CAPTBL_OP_HW_CYC_USEC) 0 0 0 0 s
           in cos_hw_cycles_per_usec E hwc (s\<lparr>hw_cycs := v\<rparr>))"

definition cos_hw_cycles_thresh :: "capid \<Rightarrow> sys_call" where
  "cos_hw_cycles_thresh hwc = \<lparr>sc_cap = hwc, sc_op = op_code CAPTBL_OP_HW_CYC_THRESH, sc_a1 = 0, sc_a2 = 0, sc_a3 = 0, sc_a4 = 0\<rparr>"

text \<open>
  What \<^verbatim>\<open>cos_sched_rcv\<close> makes of the values that a receive returns: the return value, the number of events
  received, and the thread, its state and the cycles it used.
\<close>

definition RCV_ALL_PENDING :: u32 where "RCV_ALL_PENDING = push_bit 1 1"

definition cos_sched_rcv_results :: "u32 \<Rightarrow> int \<Rightarrow> u32 \<Rightarrow> u32 \<Rightarrow> int \<times> int option \<times> u32 \<times> bool \<times> u64" where
  "cos_sched_rcv_results flags ret thd_state cyc =
     (let blocked = (drop_bit 31 thd_state \<noteq> 0); thdid = thd_state AND (push_bit 16 1 - 1)
      in if ret \<ge> 0 \<and> flags AND RCV_ALL_PENDING \<noteq> 0 then (ret mod 2, Some (ret div 2), thdid, blocked, ucast cyc)
         else (ret, None, thdid, blocked, ucast cyc))"

text \<open>\<^verbatim>\<open>cos_rcv\<close> is for threads that do not schedule, which receive no events about threads.\<close>

definition cos_rcv_results :: "u32 \<Rightarrow> int \<Rightarrow> u32 \<Rightarrow> u32 \<Rightarrow> (int \<times> int option) option" where
  "cos_rcv_results flags ret thd_state cyc = do {
     let (ret, rcvd, tid, _, _) = cos_sched_rcv_results flags ret thd_state cyc;
     kassert (tid = 0);
     Some (ret, rcvd)
   }"

definition cos_mem_remove :: "api_st \<Rightarrow> (int \<times> api_st) option" where
  "cos_mem_remove s = None"

end
