(* ===== verification/Kernel_Abi.thy ===== *)
theory Kernel_Abi
  imports Kernel_Api
begin

text \<open>
  The system calls of \<^verbatim>\<open>cos_kernel_api.c\<close> against the kernel that decodes them (\<^verbatim>\<open>capinv.c\<close>): registers loaded by
  \<^verbatim>\<open>call_cap_asm\<close> are read back by the kernel's accessors, and the operations that pack several arguments into
  one register are undone by the handlers.
\<close>

section \<open>Registers\<close>

lemma call_cap_asm_args [simp]:
  "userregs_get1 (call_cap_asm c r) = sc_a1 c" "userregs_get2 (call_cap_asm c r) = sc_a2 c"
  "userregs_get3 (call_cap_asm c r) = sc_a3 c" "userregs_get4 (call_cap_asm c r) = sc_a4 c"
  by (simp_all add: call_cap_asm_def userregs_get1_def userregs_get2_def userregs_get3_def userregs_get4_def)

lemma small_bits:
  fixes x :: "'a::len word"
  assumes "x < 2 ^ k" "k < LENGTH('a)" "bit x n" shows "n < k"
proof (rule ccontr)
  assume "\<not> n < k"
  have "unat (2 ^ k :: 'a word) = 2 ^ k" using assms(2) by (simp add: unat_eq_nat_uint uint_2p word_gt_0 nat_power_eq)
  then have "unat x < 2 ^ k" using assms(1) by (simp add: word_less_nat_alt)
  then have "unat x < 2 ^ n" using \<open>\<not> n < k\<close> by (meson less_le_trans not_less one_le_numeral power_increasing)
  then have "\<not> bit (unat x) n" by (simp add: bit_iff_odd)
  then show False using assms(3) by (simp add: bit_unsigned_iff)
qed

lemma disjoint_halves:
  fixes h op :: u32
  assumes "op < 2 ^ 16"
  shows "push_bit 16 h + op = push_bit 16 h OR op"
  by (rule disjunctive_add_eq_or, rule bit_word_eqI) (use small_bits [OF assms] in \<open>force simp: bit_simps\<close>)

lemma call_cap_asm_op:
  assumes "sc_op c < 2 ^ 16" shows "userregs_getop (call_cap_asm c r) = sc_op c"
  unfolding userregs_getop_def call_cap_asm_def
  by (rule bit_word_eqI) (use small_bits [OF assms] in \<open>auto simp: bit_simps disjoint_halves [OF assms]\<close>)

lemma call_cap_asm_cap:
  assumes "sc_op c < 2 ^ 16" "sc_cap c < 2 ^ 15 - 1" shows "userregs_getcap (call_cap_asm c r) = sc_cap c"
proof -
  have "sc_cap c + 1 < 2 ^ 15" using assms(2) by unat_arith
  from small_bits [OF this] have *: "n < 15" if "bit (sc_cap c + 1) n" for n using that by simp
  have "signed_drop_bit 16 (push_bit 16 (sc_cap c + 1) + sc_op c) = sc_cap c + 1"
    by (rule bit_word_eqI) (use * small_bits [OF assms(1)] in \<open>force simp: bit_simps disjoint_halves [OF assms(1)] min_def\<close>)
  then show ?thesis by (simp add: userregs_getcap_def call_cap_asm_def)
qed

section \<open>Operations\<close>

lemma decode_op_code: "decode_op (op_code op) = Some op"
  by (cases op) (simp_all add: decode_op_def op_code_def syscall_ops_def)

lemma op_code_bound: "op_code op < 2 ^ 16"
  by (cases op) (simp_all add: op_code_def syscall_ops_def)

lemma halves_prio: "reg_prio (ucast (drop_bit 32 p)) (ucast (drop_bit 32 (push_bit 32 p :: u64))) = p"
  unfolding reg_prio_def by (rule bit_word_eqI) (auto simp: bit_simps)

lemma halves_swap:
  fixes p :: u64
  shows "push_bit 32 p OR drop_bit 32 p = p \<longleftrightarrow> (ucast p :: u32) = ucast (drop_bit 32 p)" (is "?q = p \<longleftrightarrow> ?e")
proof
  assume q: "?q = p"
  have "bit ?q n = bit p (32 + n)" if "n < 32" for n using that by (simp add: bit_simps add.commute)
  then show ?e unfolding q by (intro bit_word_eqI) (simp add: bit_simps add.commute)
next
  assume ?e
  then have e: "bit p n = bit p (32 + n)" if "n < 32" for n
  proof -
    have "bit (ucast p :: u32) n = bit (ucast (drop_bit 32 p) :: u32) n" by (simp only: \<open>?e\<close>)
    then show ?thesis using that by (simp add: bit_simps add.commute)
  qed
  show "?q = p"
  proof (rule bit_word_eqI)
    fix n assume "n < LENGTH(64)"
    then show "bit ?q n = bit p n" using e [of n] e [of "n - 32"] small_bits [of p 63]
      by (cases "n < 32") (auto simp: bit_simps dest: bit_imp_le_length)
  qed
qed

lemma switch_prio:
  fixes p :: u64 and t :: u32
  assumes "p < 2 ^ 48"
  shows "push_bit 32 (ucast (drop_bit 16 (ucast (push_bit 16 (drop_bit 48 (push_bit 16 p)) OR
      ucast (drop_bit 16 (push_bit 16 t)) :: u64) :: u32))) OR
    ucast (ucast (drop_bit 32 (push_bit 32 p)) :: u32) = p"
  by (rule bit_word_eqI) (use small_bits [OF assms] in \<open>force simp: bit_simps\<close>)

lemma switch_tok:
  fixes p :: u64 and t :: u32
  shows "drop_bit 16 (push_bit 16 (ucast (push_bit 16 (drop_bit 48 (push_bit 16 p)) OR
      ucast (drop_bit 16 (push_bit 16 t)) :: u64) :: u32)) OR push_bit 16 (drop_bit 16 t) = t"
proof (rule bit_word_eqI)
  fix n assume "n < LENGTH(32)"
  then show "bit (drop_bit 16 (push_bit 16 (ucast (push_bit 16 (drop_bit 48 (push_bit 16 p)) OR
      ucast (drop_bit 16 (push_bit 16 t)) :: u64) :: u32)) OR push_bit 16 (drop_bit 16 t)) n = bit t n"
    by (cases "n < 16") (auto simp: bit_simps)
qed

lemma hi_half_bound: "drop_bit 16 (t :: u32) < 2 ^ 16"
proof -
  have "unat t < 2 ^ 32" using unsigned_less [where w = t and ?'a = nat] by simp
  then have "unat t div 2 ^ 16 < 2 ^ 16" by (simp add: less_mult_imp_div_less)
  then show ?thesis by (simp add: word_less_nat_alt unat_drop_bit_eq drop_bit_eq_div unat_div)
qed

lemma pack16:
  fixes a b :: u32
  assumes "a < 2 ^ 15" "b < 2 ^ 15"
  shows "lo16s (push_bit 16 a OR b) = b" "hi16s (push_bit 16 a OR b) = a"
  unfolding lo16s_def hi16s_def
  by (rule bit_word_eqI, use small_bits [OF assms(1)] small_bits [OF assms(2)] in \<open>force simp: bit_simps min_def\<close>)+

text \<open>
  C24. A dispatch requested with \<^verbatim>\<open>cos_switch\<close> is the dispatch that the kernel performs: for identifiers of 15 bits and
  a priority of 48 bits, the kernel finds the capability of the thread in the registers, and \<^verbatim>\<open>cap_thd_op\<close> goes on with
  the end-point, the tcap, the priority, the scheduling token and the timeout of the caller, although they are
  packed into four registers and the operation number.
\<close>

theorem cos_switch_roundtrip:
  assumes "c < 2 ^ 15 - 1" "tc < 2 ^ 15" "rcv < 2 ^ 15" "p < 2 ^ 48"
  shows "userregs_getcap (call_cap_asm (cos_switch c tc p tmo rcv stok) r) = c \<and>
    cap_thd_op E thd_cap thd (call_cap_asm (cos_switch c tc p tmo rcv stok) r) ci s =
      thd_op_switch E thd_cap thd rcv tc p stok tmo (call_cap_asm (cos_switch c tc p tmo rcv stok) r) ci s"
proof
  let ?c = "cos_switch c tc p tmo rcv stok"
  have op: "sc_op ?c < 2 ^ 16" "sc_op ?c = drop_bit 16 stok" "sc_cap ?c = c" using hi_half_bound [of stok] by (simp_all add: cos_switch_def)
  then show "userregs_getcap (call_cap_asm ?c r) = c" using call_cap_asm_cap [OF op(1)] assms(1) by simp
  show "cap_thd_op E thd_cap thd (call_cap_asm ?c r) ci s = thd_op_switch E thd_cap thd rcv tc p stok tmo (call_cap_asm ?c r) ci s"
    by (simp add: cap_thd_op_def call_cap_asm_op [OF op(1)] op(2))
      (simp add: cos_switch_def pack16 [OF assms(2,3)] switch_prio [OF assms(4)] switch_tok)
qed

theorem cos_switch_roundtrip_witness:
  "\<forall>E thd_cap thd r ci s.
     userregs_getcap (call_cap_asm (cos_switch 48 52 0x20000000A 1000 56 0x50007) r) = 48 \<and>
     cap_thd_op E thd_cap thd (call_cap_asm (cos_switch 48 52 0x20000000A 1000 56 0x50007) r) ci s =
       thd_op_switch E thd_cap thd 56 52 0x20000000A 0x50007 1000
         (call_cap_asm (cos_switch 48 52 0x20000000A 1000 56 0x50007) r) ci s"
  by (intro allI, rule cos_switch_roundtrip) simp_all

text \<open>
  C39. The priority of \<^verbatim>\<open>cos_thd_wakeup\<close> reaches the kernel with its halves exchanged: the call is decoded as the wakeup
  operation on the tcap, but \<^verbatim>\<open>tcap_wakeup\<close> is called with the low half of the caller's priority as the high
  one.  The priority is the caller's only if the halves are equal.  In contrast, \<^verbatim>\<open>cos_tcap_transfer\<close> passes the halves in the
  order in which the kernel reads them.
\<close>

theorem cos_thd_wakeup_swaps:
  fixes p :: u64
  assumes "tc < 2 ^ 15 - 1" "r' = call_cap_asm (cos_thd_wakeup thd tc p res) r" "q = push_bit 32 p OR drop_bit 32 p"
  shows "userregs_getcap r' = tc \<and> decode_op (userregs_getop r') = Some CAPTBL_OP_TCAP_WAKEUP \<and>
    tcap_op E ch cur ci CAPTBL_OP_TCAP_WAKEUP r' s = do {
      thdwkup \<leftarrow> captbl_lkup s (ci_captbl ci) thd;
      if \<not> CAP_TYPECHK_CORE E s thdwkup CAP_THD (ct_cpuid (cthds s thdwkup)) then Some ((- EINVAL, r', False), s)
      else do {
        (ret, s) \<leftarrow> tcap_wakeup (ke_cpu E) (cc_tcap (ctcaps s ch)) q res (ct_t (cthds s thdwkup)) s;
        Some ((if ret \<noteq> 0 then - EINVAL else ret, r', False), s)
      }
    } \<and>
    (q = p \<longleftrightarrow> (ucast p :: u32) = ucast (drop_bit 32 p)) \<and>
    reg_prio (sc_a3 (cos_tcap_transfer dst src res p)) (sc_a4 (cos_tcap_transfer dst src res p)) = p"
proof (intro conjI)
  let ?c = "cos_thd_wakeup thd tc p res"
  have op: "sc_op ?c = op_code CAPTBL_OP_TCAP_WAKEUP" "sc_cap ?c = tc" by (simp_all add: cos_thd_wakeup_def)
  then show "userregs_getcap r' = tc" using call_cap_asm_cap [of ?c] assms(1,2) op_code_bound by simp
  show "decode_op (userregs_getop r') = Some CAPTBL_OP_TCAP_WAKEUP"
    using call_cap_asm_op [of ?c] op_code_bound assms(2) by (simp add: op decode_op_code)
  have "reg_prio (ucast (drop_bit 32 (push_bit 32 p))) (ucast (drop_bit 32 p)) = push_bit 32 p OR drop_bit 32 p"
    unfolding reg_prio_def by (rule bit_word_eqI) (auto simp: bit_simps dest: bit_imp_le_length)
  then have args: "userregs_get1 r' = thd" "reg_prio (userregs_get2 r') (userregs_get3 r') = q" "userregs_get4 r' = res"
    unfolding assms(2,3) by (simp_all add: cos_thd_wakeup_def)
  show "tcap_op E ch cur ci CAPTBL_OP_TCAP_WAKEUP r' s = do {
      thdwkup \<leftarrow> captbl_lkup s (ci_captbl ci) thd;
      if \<not> CAP_TYPECHK_CORE E s thdwkup CAP_THD (ct_cpuid (cthds s thdwkup)) then Some ((- EINVAL, r', False), s)
      else do {
        (ret, s) \<leftarrow> tcap_wakeup (ke_cpu E) (cc_tcap (ctcaps s ch)) q res (ct_t (cthds s thdwkup)) s;
        Some ((if ret \<noteq> 0 then - EINVAL else ret, r', False), s)
      }
    }"
    unfolding tcap_op_def syscall_op.case args ..
  show "q = p \<longleftrightarrow> (ucast p :: u32) = ucast (drop_bit 32 p)" unfolding assms(3) by (rule halves_swap)
  show "reg_prio (sc_a3 (cos_tcap_transfer dst src res p)) (sc_a4 (cos_tcap_transfer dst src res p)) = p"
    by (simp add: cos_tcap_transfer_def halves_prio)
qed

theorem cos_thd_wakeup_swaps_witness:
  "\<forall>E ch cur ci r s.
     userregs_getcap (call_cap_asm (cos_thd_wakeup 48 52 10 1000) r) = 52 \<and>
     decode_op (userregs_getop (call_cap_asm (cos_thd_wakeup 48 52 10 1000) r)) = Some CAPTBL_OP_TCAP_WAKEUP \<and>
     tcap_op E ch cur ci CAPTBL_OP_TCAP_WAKEUP (call_cap_asm (cos_thd_wakeup 48 52 10 1000) r) s = do {
       thdwkup \<leftarrow> captbl_lkup s (ci_captbl ci) 48;
       if \<not> CAP_TYPECHK_CORE E s thdwkup CAP_THD (ct_cpuid (cthds s thdwkup))
       then Some ((- EINVAL, call_cap_asm (cos_thd_wakeup 48 52 10 1000) r, False), s)
       else do {
         (ret, s) \<leftarrow> tcap_wakeup (ke_cpu E) (cc_tcap (ctcaps s ch)) 0xA00000000 1000 (ct_t (cthds s thdwkup)) s;
         Some ((if ret \<noteq> 0 then - EINVAL else ret, call_cap_asm (cos_thd_wakeup 48 52 10 1000) r, False), s)
       }
     } \<and>
     ((0xA00000000 :: u64) = 10 \<longleftrightarrow> (ucast (10 :: u64) :: u32) = ucast (drop_bit 32 10 :: u64)) \<and>
     reg_prio (sc_a3 (cos_tcap_transfer 56 52 1000 10)) (sc_a4 (cos_tcap_transfer 56 52 1000 10)) = 10"
  by (intro allI, rule cos_thd_wakeup_swaps [OF _ refl]) simp_all

section \<open>Closures of new threads\<close>

lemma init_data_scan_ok:
  "init_data_scan n i tab = Some j \<Longrightarrow> i \<le> j \<and> j < i + n \<and> ti_fn (tab ! j) = 0"
  by (induction n arbitrary: i) (fastforce split: if_splits)+

text \<open>
  C40. The entry of a new thread is not given back when the creation of the thread fails: \<^verbatim>\<open>cos_thd_init_alloc\<close> returns the
  index of the entry it took plus one, but \<^verbatim>\<open>cos_thd_init_free\<close> tests the entry at that index, the next one.  If the next
  entry is unused, nothing is released; for the last entry the test reads behind the array.  Only if the next
  entry happens to be in use is the right one cleared.
\<close>

theorem thd_init_free_tests_next:
  assumes "length (thd_inits s) = COS_THD_INIT_REGION_SIZE" "cos_thd_init_alloc fn data s = Some (idx, s1)" "0 < idx"
  shows "idx \<le> int COS_THD_INIT_REGION_SIZE \<and> ti_fn (thd_inits s ! nat (idx - 1)) = 0 \<and>
    thd_inits s1 = (thd_inits s)[nat (idx - 1) := \<lparr>ti_fn = fn, ti_data = data\<rparr>] \<and>
    cos_thd_init_free idx s1 =
      (if idx = int COS_THD_INIT_REGION_SIZE then None
       else if ti_fn (thd_inits s ! nat idx) = 0 then Some s1
       else Some (s1\<lparr>thd_inits := (thd_inits s)[nat (idx - 1) := \<lparr>ti_fn = 0, ti_data = 0\<rparr>]\<rparr>))"
proof -
  have fn: "fn \<noteq> 0" using assms(2,3) by (auto simp: cos_thd_init_alloc_def split: if_splits)
  obtain i where i: "init_data_scan COS_THD_INIT_REGION_SIZE 0 (thd_inits s) = Some i" "idx = int i + 1"
    "s1 = s\<lparr>thd_inits := (thd_inits s)[i := \<lparr>ti_fn = fn, ti_data = data\<rparr>]\<rparr>"
    using assms(2,3) fn by (auto simp: cos_thd_init_alloc_def init_data_alloc_def split: option.splits)
  have b: "i < COS_THD_INIT_REGION_SIZE" "ti_fn (thd_inits s ! i) = 0" using init_data_scan_ok [OF i(1)] by auto
  have "cos_thd_init_free idx s1 =
      (if idx = int COS_THD_INIT_REGION_SIZE then None
       else if ti_fn (thd_inits s ! nat idx) = 0 then Some s1
       else Some (s1\<lparr>thd_inits := (thd_inits s)[nat (idx - 1) := \<lparr>ti_fn = 0, ti_data = 0\<rparr>]\<rparr>))"
    using assms(1) b i(2,3) by (auto simp: cos_thd_init_free_def clear_thd_init_data_def arr_rd_def nth_list_update nat_add_distrib)
  then show ?thesis using b i(2,3) by simp
qed

theorem thd_init_free_tests_next_witness:
  "\<exists>s s1. length (thd_inits s) = COS_THD_INIT_REGION_SIZE \<and> cos_thd_init_alloc 0x400 0 s = Some (1, s1) \<and>
     cos_thd_init_free 1 s1 = Some s1 \<and> thd_inits s1 ! 0 = \<lparr>ti_fn = 0x400, ti_data = 0\<rparr>"
proof -
  define s :: api_st where "s = \<lparr>infos = (\<lambda>_. undefined), sys_calls = [], thdid_alloc = 18, livenessid_frontier = 2,
    thd_inits = replicate COS_THD_INIT_REGION_SIZE \<lparr>ti_fn = 0, ti_data = 0\<rparr>, sched_toks = (\<lambda>_. 0), hw_cycs = 0\<rparr>"
  have l: "length (thd_inits s) = COS_THD_INIT_REGION_SIZE" by (simp add: s_def)
  have e: "COS_THD_INIT_REGION_SIZE = Suc 255" by (simp add: COS_THD_INIT_REGION_SIZE_def)
  have "init_data_scan COS_THD_INIT_REGION_SIZE 0 (thd_inits s) = Some 0"
    unfolding e init_data_scan.simps by (simp add: s_def COS_THD_INIT_REGION_SIZE_def)
  then obtain s1 where s1: "cos_thd_init_alloc 0x400 0 s = Some (1, s1)" by (auto simp: cos_thd_init_alloc_def init_data_alloc_def)
  from thd_init_free_tests_next [OF l s1] l s1 show ?thesis
    by (intro exI [of _ s] exI [of _ s1]) (simp add: s_def COS_THD_INIT_REGION_SIZE_def)
qed

end
