(* ===== verification/Kernel_Api_Mem.thy ===== *)
theory Kernel_Api_Mem
  imports Kernel_Api
begin

text \<open>
  The allocators of physical pages and of virtual addresses of \<^verbatim>\<open>cos_kernel_api.c\<close>: which pages are handed out and
  retyped, and which page-table nodes a component gets.
\<close>

section \<open>Words of a component\<close>

lemma ps_simps:
  assumes "ps_ok (ae_ps E)"
  shows "ci_faa E w d ci s = (ci_rd w ci s, upd_info ci (snd w (ci_rd w ci s + d)) s)"
    and "ci_cas E w x y ci s = (if ci_rd w ci s = x then (True, upd_info ci (snd w y) s) else (False, upd_info ci (snd w (ci_rd w ci s)) s))"
    and "ci_load E w ci s = ci_rd w ci s"
  using assms by (simp_all add: ps_ok_def ci_faa_def ci_cas_def ci_load_def)

lemma infos_upd_info [simp]:
  "infos (upd_info ci f s) = (infos s)(ci := f (infos s ci))"
  "sys_calls (upd_info ci f s) = sys_calls s"
  by (simp_all add: upd_info_def)

lemma upd_info_twice [simp]: "upd_info ci f (upd_info ci g s) = upd_info ci (f \<circ> g) s"
  by (simp add: upd_info_def)

lemma metacap_upd_info [simp]:
  "(\<And>c. cp_memsrc (f c) = cp_memsrc c) \<Longrightarrow> compinfo_metacap (upd_info ci f s) x = compinfo_metacap s x"
  by (simp add: compinfo_metacap_def)

lemmas ci_words = f_kmem_ptr_def f_umem_ptr_def f_kmem_frontier_def f_umem_frontier_def f_untyped_ptr_def f_untyped_frontier_def
  f_cap_frontier_def f_caprange_frontier_def f_cap16_frontier_def f_cap32_frontier_def f_cap64_frontier_def
  f_vas_frontier_def f_vasrange_frontier_def

section \<open>Physical pages\<close>

text \<open>
  The state of the page allocator of \<open>m\<close>: \<open>u\<close> is the next page, \<open>n\<close> pages are left, and \<open>jk\<close> and \<open>ju\<close> allocations of
  kernel and user memory have failed since the last one that succeeded.
\<close>

definition mem_ok :: "addr \<Rightarrow> u32 \<Rightarrow> nat \<Rightarrow> nat \<Rightarrow> nat \<Rightarrow> api_st \<Rightarrow> bool" where
  "mem_ok m u n jk ju s \<longleftrightarrow>
     (let mi = cp_mi (infos s m)
      in m \<noteq> 0 \<and> 0 < u \<and> u mod PAGE_SIZE = 0 \<and> unat u + n * 4096 < 2 ^ 32 \<and>
         mi_untyped_ptr mi = u \<and> mi_untyped_frontier mi = u + of_nat n * PAGE_SIZE \<and>
         mi_kmem_ptr mi = mi_kmem_frontier mi + of_nat jk * PAGE_SIZE \<and>
         mi_umem_ptr mi = mi_umem_frontier mi + of_nat ju * PAGE_SIZE \<and> jk < 2 ^ 20 - 1 \<and> ju < 2 ^ 20 - 1)"

definition page_taken :: "bool \<Rightarrow> cos_meminfo \<Rightarrow> cos_meminfo" where
  "page_taken km mi =
     (let v = mi_untyped_ptr mi + PAGE_SIZE
      in if km then mi\<lparr>mi_untyped_ptr := v, mi_kmem_ptr := v, mi_kmem_frontier := v\<rparr>
         else mi\<lparr>mi_untyped_ptr := v, mi_umem_ptr := v, mi_umem_frontier := v\<rparr>)"

definition page_missed :: "bool \<Rightarrow> cos_meminfo \<Rightarrow> cos_meminfo" where
  "page_missed km mi =
     (if km then mi\<lparr>mi_kmem_ptr := mi_kmem_ptr mi + PAGE_SIZE\<rparr> else mi\<lparr>mi_umem_ptr := mi_umem_ptr mi + PAGE_SIZE\<rparr>)"

definition retype_call :: "capid \<Rightarrow> bool \<Rightarrow> u32 \<Rightarrow> sys_call" where
  "retype_call pt km page = \<lparr>sc_cap = pt, sc_op = op_code (if km then CAPTBL_OP_MEM_RETYPE2KERN else CAPTBL_OP_MEM_RETYPE2USER),
     sc_a1 = page, sc_a2 = 0, sc_a3 = 0, sc_a4 = 0\<rparr>"

text \<open>The states after a page has been taken, and after an allocation that fails.\<close>

definition taken :: "addr \<Rightarrow> bool \<Rightarrow> bool \<Rightarrow> api_st \<Rightarrow> api_st" where
  "taken m km ty s =
     (let mi = cp_mi (infos s m)
      in (upd_info m (\<lambda>c. c\<lparr>cp_mi := page_taken km (cp_mi c)\<rparr>) s)
           \<lparr>sys_calls := (if ty then [retype_call (mi_pgtbl_cap mi) km (mi_untyped_ptr mi)] else []) @ sys_calls s\<rparr>)"

definition missed :: "addr \<Rightarrow> bool \<Rightarrow> api_st \<Rightarrow> api_st" where
  "missed m km s = upd_info m (\<lambda>c. c\<lparr>cp_mi := page_missed km (cp_mi c)\<rparr>) s"

lemma past_frontier:
  fixes f :: u32
  assumes "j < 2 ^ 20 - 1"
  shows "f + of_nat j * PAGE_SIZE \<ge> f \<or> f - (f + of_nat j * PAGE_SIZE) > RETYPE_MEM_SIZE"
proof (cases "j = 0")
  case False
  define d :: u32 where "d = of_nat (j * 4096)"
  have d: "unat d = j * 4096" unfolding d_def using assms by (simp only: unsigned_of_nat) (simp add: take_bit_nat_eq_self)
  then have "unat (- d) = 2 ^ 32 - j * 4096" using False assms unat_sub_if' [of 0 d] by simp
  then have "4096 < - d" using assms by (simp add: word_less_nat_alt)
  moreover have "of_nat j * PAGE_SIZE = d" by (simp add: d_def)
  ultimately show ?thesis by (simp add: RETYPE_MEM_SIZE_def RETYPE_MEM_NPAGES_def)
qed simp

lemma mem_bump_refill_left:
  assumes ps: "ps_ok (ae_ps E)" and u: "ci_rd f_untyped_ptr m s \<noteq> ci_rd f_untyped_frontier m s"
  shows "mem_bump_refill E (if km then f_kmem_ptr else f_umem_ptr) (if km then f_kmem_frontier else f_umem_frontier) m s =
    Some (ci_rd f_untyped_ptr m s, upd_info m (\<lambda>c. c\<lparr>cp_mi := page_taken km (cp_mi c)\<rparr>) s)"
  using u by (cases km)
    (simp_all add: mem_bump_refill_def ps_simps [OF ps] ci_rd_def ci_words page_taken_def upd_info_def RETYPE_MEM_SIZE_def
      RETYPE_MEM_NPAGES_def Let_def)

lemma mem_ok_next:
  assumes "mem_ok m u n jk ju s"
  shows "ci_rd f_untyped_ptr m s = u" "ci_rd f_untyped_frontier m s = u + of_nat n * PAGE_SIZE"
    and "u = u + of_nat n * PAGE_SIZE \<longleftrightarrow> n = 0" "m \<noteq> 0" "u \<noteq> 0" "u mod RETYPE_MEM_SIZE = 0"
proof -
  have n: "unat u + n * 4096 < 2 ^ 32" using assms by (simp add: mem_ok_def Let_def)
  then have "unat (of_nat (n * 4096) :: u32) = n * 4096" by (simp only: unsigned_of_nat) (simp add: take_bit_nat_eq_self)
  then have "(of_nat (n * 4096) :: u32) = 0 \<longleftrightarrow> n = 0" by (metis mult_is_0 unat_eq_zero zero_neq_numeral)
  then show "u = u + of_nat n * PAGE_SIZE \<longleftrightarrow> n = 0" by simp
qed (use assms in \<open>auto simp: mem_ok_def Let_def ci_rd_def ci_words RETYPE_MEM_SIZE_def RETYPE_MEM_NPAGES_def\<close>)

lemma mem_ok_refills:
  assumes "mem_ok m u n jk ju s"
  shows "ci_rd (if km then f_kmem_ptr else f_umem_ptr) m s \<ge> ci_rd (if km then f_kmem_frontier else f_umem_frontier) m s \<or>
    ci_rd (if km then f_kmem_frontier else f_umem_frontier) m s - ci_rd (if km then f_kmem_ptr else f_umem_ptr) m s > RETYPE_MEM_SIZE"
  using assms past_frontier [of "if km then jk else ju" "ci_rd (if km then f_kmem_frontier else f_umem_frontier) m s"]
  by (cases km) (simp_all add: mem_ok_def Let_def ci_rd_def ci_words)

text \<open>In such a state every allocation goes to the untyped memory.\<close>

lemma mem_bump_alloc_refill:
  assumes ps: "ps_ok (ae_ps E)" and ok: "mem_ok m u n jk ju s" and ci: "ci \<noteq> 0" "compinfo_metacap s ci = m"
  shows "mem_bump_alloc E ci km ty s =
    (if n = 0 then Some (0, missed m km s)
     else let s1 = upd_info m (\<lambda>c. c\<lparr>cp_mi := page_taken km (cp_mi c)\<rparr>) s
          in if ty then let (r, s2) = call_cap_op E (mi_pgtbl_cap (cp_mi (infos s m)))
                              (op_code (if km then CAPTBL_OP_MEM_RETYPE2KERN else CAPTBL_OP_MEM_RETYPE2USER)) u 0 0 0 s1
                        in Some (if r \<noteq> 0 then 0 else u, s2)
             else Some (u, s1))"
proof -
  define ptr where "ptr = (if km then f_kmem_ptr else f_umem_ptr)"
  define fr where "fr = (if km then f_kmem_frontier else f_umem_frontier)"
  let ?s = "upd_info m (snd ptr (ci_rd ptr m s + PAGE_SIZE)) s" and ?s1 = "upd_info m (\<lambda>c. c\<lparr>cp_mi := page_taken km (cp_mi c)\<rparr>) s"
  note nx = mem_ok_next [OF ok]
  have rd: "ci_rd fr m ?s = ci_rd fr m s" "ci_rd f_untyped_ptr m ?s = u" "ci_rd f_untyped_frontier m ?s = ci_rd f_untyped_frontier m s"
    using nx(1) by (auto simp: ci_rd_def ci_words ptr_def fr_def)
  have "upd_info m (\<lambda>c. c\<lparr>cp_mi := page_taken km (cp_mi c)\<rparr>) ?s = ?s1"
    by (cases km) (simp_all add: upd_info_def ci_words page_taken_def ptr_def)
  then have refill: "mem_bump_refill E ptr fr m ?s = (if n = 0 then None else Some (u, ?s1))"
    using mem_bump_refill_left [OF ps, of m ?s km] rd nx(2,3) by (simp add: ptr_def [symmetric] fr_def [symmetric]) (simp add: mem_bump_refill_def)
  have pt: "mi_pgtbl_cap (cp_mi (infos ?s1 m)) = mi_pgtbl_cap (cp_mi (infos s m))" by (simp add: page_taken_def Let_def)
  have missed: "?s = missed m km s" by (simp add: missed_def page_missed_def ptr_def ci_words ci_rd_def upd_info_def)
  have past: "ci_rd ptr m s \<ge> ci_rd fr m s \<or> ci_rd fr m s - ci_rd ptr m s > RETYPE_MEM_SIZE"
    unfolding ptr_def fr_def by (rule mem_ok_refills [OF ok])
  show ?thesis
    unfolding mem_bump_alloc_def ptr_def [symmetric] fr_def [symmetric] ci(2)
    using ci(1) nx(4,6) by (simp add: ps_simps [OF ps] missed rd(1) [unfolded missed] past refill [unfolded missed] pt Let_def del: infos_upd_info PAGE_SIZE_eq)
qed

lemma taken_simps [simp]:
  "infos (taken m km ty s) = (infos s)(m := (infos s m)\<lparr>cp_mi := page_taken km (cp_mi (infos s m))\<rparr>)"
  "infos (missed m km s) = (infos s)(m := (infos s m)\<lparr>cp_mi := page_missed km (cp_mi (infos s m))\<rparr>)"
  "sys_calls (missed m km s) = sys_calls s"
  "compinfo_metacap (taken m km ty s) ci = compinfo_metacap s ci" "compinfo_metacap (missed m km s) ci = compinfo_metacap s ci"
  by (simp_all add: taken_def missed_def compinfo_metacap_def Let_def)

lemma page_pgtbl [simp]:
  "mi_pgtbl_cap (page_taken km mi) = mi_pgtbl_cap mi" "mi_pgtbl_cap (page_missed km mi) = mi_pgtbl_cap mi"
  by (simp_all add: page_taken_def page_missed_def Let_def)

lemma mem_bump_alloc_eq:
  assumes ps: "ps_ok (ae_ps E)" and ok: "mem_ok m u n jk ju s" and ci: "ci \<noteq> 0" "compinfo_metacap s ci = m"
  shows "mem_bump_alloc E ci km ty s =
    (if n = 0 then Some (0, missed m km s)
     else Some (if ty \<and> ae_sys E (sys_calls s) (retype_call (mi_pgtbl_cap (cp_mi (infos s m))) km u) \<noteq> 0 then 0 else u, taken m km ty s))"
proof -
  have "mi_untyped_ptr (cp_mi (infos s m)) = u" using ok by (simp add: mem_ok_def Let_def)
  then show ?thesis
    unfolding mem_bump_alloc_refill [OF assms] by (simp add: call_cap_op_def retype_call_def taken_def upd_info_def Let_def)
qed

lemma taken_calls:
  assumes "mem_ok m u n jk ju s"
  shows "sys_calls (taken m km ty s) = (if ty then [retype_call (mi_pgtbl_cap (cp_mi (infos s m))) km u] else []) @ sys_calls s"
  using assms by (simp add: taken_def mem_ok_def Let_def)

lemma mem_ok_missed:
  assumes "mem_ok m u n jk ju s" "Suc (max jk ju) < 2 ^ 20 - 1"
  shows "mem_ok m u n (if km then Suc jk else jk) (if km then ju else Suc ju) (missed m km s)"
  using assms by (simp add: mem_ok_def Let_def page_missed_def algebra_simps)

lemma mem_ok_taken:
  assumes "mem_ok m u (Suc n) jk ju s"
  shows "mem_ok m (u + PAGE_SIZE) n (if km then 0 else jk) (if km then ju else 0) (taken m km ty s)"
proof -
  have u: "unat u + Suc n * 4096 < 2 ^ 32" "u mod 4096 = 0" "0 < u" using assms by (simp_all add: mem_ok_def Let_def)
  then have p: "unat (u + 4096) = unat u + 4096" by (simp add: unat_word_ariths)
  moreover have "(u + 4096) mod 4096 = 0"
    using u(2) p by (simp add: word_unat_eq_iff unat_mod)
  ultimately show ?thesis
    using assms u(1,3) by (simp add: mem_ok_def Let_def page_taken_def algebra_simps word_less_nat_alt)
qed

section \<open>Sequences of allocations\<close>

text \<open>Allocations by several components: who asks, for kernel memory or not, and whether it is retyped.\<close>

fun mem_allocs :: "api_env \<Rightarrow> (addr \<times> bool \<times> bool) list \<Rightarrow> (api_st, u32 list) kop" where
  "mem_allocs E [] s = Some ([], s)"
| "mem_allocs E ((ci, km, ty) # ops) s = do {
     (r, s) \<leftarrow> mem_bump_alloc E ci km ty s;
     (rs, s) \<leftarrow> mem_allocs E ops s;
     Some (r # rs, s)
   }"

text \<open>The first \<open>n\<close> of \<open>k\<close> allocations get the pages from \<open>u\<close> on, the others get none.\<close>

fun pages :: "u32 \<Rightarrow> nat \<Rightarrow> nat \<Rightarrow> u32 list" where
  "pages u n 0 = []"
| "pages u 0 (Suc k) = 0 # pages u 0 k"
| "pages u (Suc n) (Suc k) = u # pages (u + PAGE_SIZE) n k"

text \<open>The system calls for the pages from \<open>u\<close> on.\<close>

fun page_calls :: "capid \<Rightarrow> u32 \<Rightarrow> (addr \<times> bool \<times> bool) list \<Rightarrow> sys_call list" where
  "page_calls pt u [] = []"
| "page_calls pt u ((ci, km, ty) # ops) = (if ty then [retype_call pt km u] else []) @ page_calls pt (u + PAGE_SIZE) ops"

lemma mem_allocs_ok:
  assumes "ps_ok (ae_ps E)" "mem_ok m u n jk ju s" "max jk ju + length ops < 2 ^ 20 - 1"
    "\<forall>(ci, x)\<in>set ops. ci \<noteq> 0 \<and> compinfo_metacap s ci = m" "mi_pgtbl_cap (cp_mi (infos s m)) = pt"
  shows "\<exists>rs s'. mem_allocs E ops s = Some (rs, s') \<and> list_all2 (\<lambda>r p. r = p \<or> r = 0 \<and> (\<exists>h c. ae_sys E h c \<noteq> 0)) rs (pages u n (length ops)) \<and>
    sys_calls s' = rev (page_calls pt u (take n ops)) @ sys_calls s"
  using assms
proof (induction ops arbitrary: s u n jk ju)
  case (Cons op ops)
  let ?R = "\<lambda>r p. r = p \<or> r = 0 \<and> (\<exists>h c. ae_sys E h c \<noteq> 0)"
  obtain ci km ty where op: "op = (ci, km, ty)" by (cases op)
  have ci: "ci \<noteq> 0" "compinfo_metacap s ci = m" and ops: "\<forall>(ci, x)\<in>set ops. ci \<noteq> 0 \<and> compinfo_metacap s ci = m"
    using Cons.prems(4) by (auto simp: op)
  note alloc = mem_bump_alloc_eq [OF Cons.prems(1,2) ci, of km ty]
  show ?case
  proof (cases n)
    case 0
    have ok: "mem_ok m u 0 (if km then Suc jk else jk) (if km then ju else Suc ju) (missed m km s)"
      using Cons.prems(2,3) 0 by (intro mem_ok_missed) auto
    have "max (if km then Suc jk else jk) (if km then ju else Suc ju) + length ops < 2 ^ 20 - 1" using Cons.prems(3) by auto
    from Cons.IH [OF Cons.prems(1) ok this] ops Cons.prems(5) obtain rs s' where
      "mem_allocs E ops (missed m km s) = Some (rs, s')" "list_all2 ?R rs (pages u 0 (length ops))" "sys_calls s' = sys_calls s" by auto
    then show ?thesis using 0 by (intro exI [of _ "0 # rs"] exI [of _ s']) (simp add: op alloc)
  next
    case (Suc k)
    from mem_ok_taken [of m u k jk ju s km ty] Cons.prems(2) Suc
    have ok: "mem_ok m (u + PAGE_SIZE) k (if km then 0 else jk) (if km then ju else 0) (taken m km ty s)" by simp
    have "max (if km then 0 else jk) (if km then ju else 0) + length ops < 2 ^ 20 - 1" using Cons.prems(3) by auto
    from Cons.IH [OF Cons.prems(1) ok this] ops Cons.prems(5) obtain rs s' where
      "mem_allocs E ops (taken m km ty s) = Some (rs, s')" "list_all2 ?R rs (pages (u + PAGE_SIZE) k (length ops))"
      "sys_calls s' = rev (page_calls pt (u + PAGE_SIZE) (take k ops)) @ sys_calls (taken m km ty s)" by auto
    moreover have "mem_bump_alloc E ci km ty s =
      Some (if ty \<and> ae_sys E (sys_calls s) (retype_call pt km u) \<noteq> 0 then 0 else u, taken m km ty s)"
      using alloc Suc Cons.prems(5) by simp
    ultimately show ?thesis using Cons.prems(5)
      by (simp add: op Suc taken_calls [OF Cons.prems(2)] del: PAGE_SIZE_eq) blast
  qed
qed simp

lemma pages_nth:
  "i < k \<Longrightarrow> pages u n k ! i = (if i < n then u + of_nat i * PAGE_SIZE else 0)"
  by (induction u n k arbitrary: i rule: pages.induct) (auto simp: nth_Cons' of_nat_diff algebra_simps)

lemma pages_length [simp]: "length (pages u n k) = k"
  by (induction u n k rule: pages.induct) auto

lemma pages_bound:
  assumes "p \<in> set (pages u n k)" "p \<noteq> 0" "unat u + n * 4096 < 2 ^ 32" shows "unat u \<le> unat p"
  using assms
proof (induction u n k rule: pages.induct)
  case (3 u n k)
  then have "unat (u + PAGE_SIZE) = unat u + 4096" by (simp add: unat_word_ariths)
  then show ?case using 3 by auto
qed auto

lemma pages_distinct:
  "unat u + n * 4096 < 2 ^ 32 \<Longrightarrow> distinct (filter (\<lambda>r. r \<noteq> 0) (pages u n k))"
proof (induction u n k rule: pages.induct)
  case (3 u n k)
  then have u: "unat (u + PAGE_SIZE) = unat u + 4096" "unat (u + PAGE_SIZE) + n * 4096 < 2 ^ 32" by (simp_all add: unat_word_ariths)
  have "u \<notin> set (filter (\<lambda>r. r \<noteq> 0) (pages (u + PAGE_SIZE) n k))"
    using pages_bound [OF _ _ u(2), of u k] u(1) by auto
  then show ?case using "3.IH" [OF u(2)] by (cases "u = 0") (simp_all del: PAGE_SIZE_eq)
qed auto

lemma refused_distinct:
  assumes "list_all2 (\<lambda>r p. r = p \<or> r = 0) rs ps" "distinct (filter (\<lambda>r. r \<noteq> 0) ps)"
  shows "distinct (filter (\<lambda>r. r \<noteq> (0 :: u32)) rs) \<and> set rs - {0} \<subseteq> set ps"
  using assms by (induction rs ps rule: list_all2_induct) (auto split: if_splits)

text \<open>
  C22. In any sequence of fewer than \<^verbatim>\<open>2^20 - 1\<close> requests the page allocator never hands out a page twice, whatever the
  components of one resource provider ask for: after \<^verbatim>\<open>cos_meminfo_init\<close> with \<open>n\<close> pages of an aligned region that
  does not wrap around, the first \<open>n\<close> allocations get the pages of the region in order, except those whose
  retyping the kernel refuses, and the later ones get none.  Each page is retyped at most once, to kernel or to
  user memory as requested.  The number of allocations has to be bounded: every allocation that
  fails moves a pointer by a page, and after \<^verbatim>\<open>2^20 - 1\<close> of them it points to the last page again.
\<close>

theorem mem_allocs_distinct:
  assumes "ps_ok (ae_ps E)" "cp_mi (infos s m) = cos_meminfo_init u (of_nat n * PAGE_SIZE) pt"
    "m \<noteq> 0" "0 < u" "u mod PAGE_SIZE = 0" "unat u + n * 4096 < 2 ^ 32" "length ops < 2 ^ 20 - 1"
    "\<forall>(ci, x)\<in>set ops. ci \<noteq> 0 \<and> compinfo_metacap s ci = m"
  shows "\<exists>rs s'. mem_allocs E ops s = Some (rs, s') \<and> length rs = length ops \<and> distinct (filter (\<lambda>r. r \<noteq> 0) rs) \<and>
    (\<forall>i<length ops. rs ! i = 0 \<or> i < n \<and> rs ! i = u + of_nat i * PAGE_SIZE) \<and>
    ((\<forall>h c. ae_sys E h c = 0) \<longrightarrow> (\<forall>i<min n (length ops). rs ! i = u + of_nat i * PAGE_SIZE)) \<and>
    sys_calls s' = rev (page_calls pt u (take n ops)) @ sys_calls s"
proof -
  have "mem_ok m u n 0 0 s" using assms(2-6) by (simp add: mem_ok_def Let_def cos_meminfo_init_def)
  moreover have "mi_pgtbl_cap (cp_mi (infos s m)) = pt" using assms(2) by (simp add: cos_meminfo_init_def)
  ultimately obtain rs s' where rs: "mem_allocs E ops s = Some (rs, s')"
    "list_all2 (\<lambda>r p. r = p \<or> r = 0 \<and> (\<exists>h c. ae_sys E h c \<noteq> 0)) rs (pages u n (length ops))"
    "sys_calls s' = rev (page_calls pt u (take n ops)) @ sys_calls s"
    using mem_allocs_ok [OF assms(1) _ _ assms(8), of u n 0 0 pt] assms(7) by auto
  have len: "length rs = length ops" using list_all2_lengthD [OF rs(2)] by simp
  have nth: "rs ! i = 0 \<and> (\<exists>h c. ae_sys E h c \<noteq> 0) \<or> (if i < n then rs ! i = u + of_nat i * PAGE_SIZE else rs ! i = 0)"
    if "i < length ops" for i
    using list_all2_nthD [OF rs(2), of i] that len by (auto simp: pages_nth split: if_splits)
  have "list_all2 (\<lambda>r p. r = p \<or> r = 0) rs (pages u n (length ops))" by (rule list_all2_mono [OF rs(2)]) auto
  then have "distinct (filter (\<lambda>r. r \<noteq> 0) rs)" using refused_distinct pages_distinct [OF assms(6)] by blast
  moreover have "\<forall>i<length ops. rs ! i = 0 \<or> i < n \<and> rs ! i = u + of_nat i * PAGE_SIZE" using nth by metis
  moreover have "(\<forall>h c. ae_sys E h c = 0) \<longrightarrow> (\<forall>i<min n (length ops). rs ! i = u + of_nat i * PAGE_SIZE)" using nth by (metis min_less_iff_conj)
  ultimately show ?thesis using rs(1,3) len by blast
qed

text \<open>A component that provides its own resources, with \<open>n\<close> pages of memory, and a kernel that accepts every call.\<close>

definition ex_ps :: ps_atomics where
  "ex_ps = \<lparr>ps_faa = (\<lambda>x d. (x, x + d)), ps_cas = (\<lambda>x old new. if x = old then (True, new) else (False, x)), ps_load = (\<lambda>x. x)\<rparr>"

definition ex_api :: api_env where
  "ex_api = \<lparr>ae_ps = ex_ps, ae_sys = (\<lambda>_ _. 0), ae_cpuid = 0\<rparr>"

definition ex_info :: "nat \<Rightarrow> cos_compinfo" where
  "ex_info n = \<lparr>cp_pgtbl_cap = 8, cp_captbl_cap = 4, cp_comp_cap = 12, cp_cap_frontier = 0xB0, cp_caprange_frontier = 0x180,
     cp_cap16_frontier = (\<lambda>_. 0xB0), cp_cap32_frontier = (\<lambda>_. 0xB0), cp_cap64_frontier = 0xB0,
     cp_vas_frontier = 0x403FF000, cp_vasrange_frontier = 0x40400000, cp_memsrc = 0x1000,
     cp_mi = cos_meminfo_init 0x80000000 (of_nat n * PAGE_SIZE) 16\<rparr>"

definition ex_api_st :: "nat \<Rightarrow> api_st" where
  "ex_api_st n = \<lparr>infos = (\<lambda>_. ex_info n), sys_calls = [], thdid_alloc = 18, livenessid_frontier = 2, thd_inits = [],
     sched_toks = (\<lambda>_. 0), hw_cycs = 0\<rparr>"

lemma ex_ps_ok: "ps_ok (ae_ps ex_api)"
  by (simp add: ex_api_def ps_ok_def ex_ps_def)

theorem mem_allocs_distinct_witness:
  "\<exists>rs s'. mem_allocs ex_api [(0x1000, True, True), (0x2000, False, True), (0x1000, True, False)] (ex_api_st 2) = Some (rs, s') \<and>
     length rs = 3 \<and> distinct (filter (\<lambda>r. r \<noteq> 0) rs) \<and> rs ! 0 = 0x80000000 \<and> rs ! 1 = 0x80001000 \<and> rs ! 2 = 0 \<and>
     sys_calls s' = [retype_call 16 False 0x80001000, retype_call 16 True 0x80000000]"
proof -
  let ?ops = "[(0x1000, True, True), (0x2000, False, True), (0x1000, True, False)] :: (addr \<times> bool \<times> bool) list"
  obtain rs s' where rs: "mem_allocs ex_api ?ops (ex_api_st 2) = Some (rs, s')" "length rs = length ?ops" "distinct (filter (\<lambda>r. r \<noteq> 0) rs)"
    "\<forall>i<length ?ops. rs ! i = 0 \<or> i < 2 \<and> rs ! i = 0x80000000 + of_nat i * PAGE_SIZE"
    "(\<forall>h c. ae_sys ex_api h c = 0) \<longrightarrow> (\<forall>i<min 2 (length ?ops). rs ! i = 0x80000000 + of_nat i * PAGE_SIZE)"
    "sys_calls s' = rev (page_calls 16 0x80000000 (take 2 ?ops)) @ sys_calls (ex_api_st 2)"
    using mem_allocs_distinct [OF ex_ps_ok, where s = "ex_api_st 2" and m = "0x1000" and u = "0x80000000" and n = 2 and pt = 16 and ops = ?ops]
    by (auto simp: ex_api_st_def ex_info_def compinfo_metacap_def)
  have "rs ! 0 = 0x80000000" "rs ! 1 = 0x80001000" using rs(5) by (auto simp: ex_api_def)
  moreover have "rs ! 2 = 0" using rs(4) by (auto dest: spec [of _ 2])
  ultimately show ?thesis using rs(1-3,6) by (auto simp: ex_api_st_def numeral_2_eq_2)
qed

text \<open>The wrap-around of the pointer behind the bound.\<close>

lemma mem_bump_alloc_wraps:
  assumes "ps_ok (ae_ps E)" "ci \<noteq> 0" "compinfo_metacap s ci = m" "m \<noteq> 0" "PAGE_SIZE \<le> mi_kmem_frontier (cp_mi (infos s m))"
    "mi_kmem_ptr (cp_mi (infos s m)) = mi_kmem_frontier (cp_mi (infos s m)) + of_nat (2 ^ 20 - 1) * PAGE_SIZE"
  shows "map_option fst (mem_bump_alloc E ci True False s) = Some (mi_kmem_frontier (cp_mi (infos s m)) - PAGE_SIZE)"
proof -
  let ?f = "mi_kmem_frontier (cp_mi (infos s m))"
  have "mi_kmem_ptr (cp_mi (infos s m)) = ?f - 4096" using assms(6) by simp
  moreover have "\<not> ?f \<le> ?f - 4096" using assms(5) by (simp add: word_le_nat_alt unat_sub)
  ultimately show ?thesis
    using assms(1-4) by (simp add: mem_bump_alloc_def ps_simps ci_rd_def ci_words RETYPE_MEM_SIZE_def RETYPE_MEM_NPAGES_def Let_def)
qed

end
