(* ===== verification/Kernel_Api_Vas.thy ===== *)
theory Kernel_Api_Vas
  imports Kernel_Api_Mem
begin

text \<open>
  The allocator of virtual addresses of \<^verbatim>\<open>cos_kernel_api.c\<close>: the addresses of a component are handed out one after the
  other, and each second-level page-table that they need is constructed once.
\<close>

section \<open>Rounding\<close>

definition pgd_up :: "nat \<Rightarrow> nat" where
  "pgd_up v = (v + 2 ^ 22 - 1) div 2 ^ 22 * 2 ^ 22"

lemma PGD_RANGE_eq: "PGD_RANGE = 2 ^ 22" "unat PGD_RANGE = 2 ^ 22"
  by (simp_all add: PGD_RANGE_def push_bit_eq_mult)

lemma unat_round_to_pow2:
  assumes "n < 32" shows "unat (round_to_pow2 x (2 ^ n)) = unat x div 2 ^ n * 2 ^ n"
proof -
  have "round_to_pow2 x (2 ^ n) = x AND NOT (mask n)" by (simp add: round_to_pow2_def mask_eq_exp_minus_1)
  also have "\<dots> = push_bit n (drop_bit n x)" by (rule bit_word_eqI) (auto simp: bit_simps)
  finally have "unat (round_to_pow2 x (2 ^ n)) = take_bit 32 (push_bit n (drop_bit n (unat x)))"
    using assms by (simp add: unsigned_push_bit_eq unsigned_drop_bit_eq take_bit_drop_bit take_bit_push_bit)
  moreover have "unat x div 2 ^ n * 2 ^ n < 2 ^ 32"
    using unsigned_less [where w = x and ?'a = nat] by (simp add: le_less_trans [OF div_times_less_eq_dividend])
  ultimately show ?thesis by (simp only: drop_bit_eq_div push_bit_eq_mult take_bit_nat_eq_self)
qed

lemma unat_round_to_pgd: "unat (round_to_pow2 x PGD_RANGE) = unat x div 2 ^ 22 * 2 ^ 22"
  unfolding PGD_RANGE_eq(1) by (rule unat_round_to_pow2) simp

lemma unat_round_up_pgd:
  assumes "unat x + 2 ^ 22 \<le> 2 ^ 32" shows "unat (round_up_to_pgd_page x) = pgd_up (unat x)"
proof -
  have "x + PGD_RANGE - 1 = x + (2 ^ 22 - 1)" by (simp add: PGD_RANGE_eq)
  moreover have "unat (x + (2 ^ 22 - 1)) = unat x + 2 ^ 22 - 1" using assms by (simp add: unat_word_ariths)
  ultimately show ?thesis by (simp only: round_up_to_pgd_page_def round_up_to_pow2_def unat_round_to_pgd pgd_up_def)
qed

lemma pgd_up_props:
  "v \<le> pgd_up v" "pgd_up v < v + 2 ^ 22" "2 ^ 22 dvd pgd_up v"
  "2 ^ 22 dvd f \<Longrightarrow> v \<le> f \<Longrightarrow> pgd_up v \<le> f" "v \<le> w \<Longrightarrow> pgd_up v \<le> pgd_up w"
proof -
  show "v \<le> pgd_up v" "pgd_up v < v + 2 ^ 22" unfolding pgd_up_def by simp_all
  show d: "2 ^ 22 dvd pgd_up v" by (simp add: pgd_up_def)
  show "pgd_up v \<le> f" if "2 ^ 22 dvd f" "v \<le> f" for f
  proof -
    from that(1) obtain q where "f = 2 ^ 22 * q" ..
    then show ?thesis using that(2) by (simp add: pgd_up_def)
  qed
  show "pgd_up v \<le> pgd_up w" if "v \<le> w" using that unfolding pgd_up_def by (intro mult_right_mono div_le_mono) auto
qed

lemma pgd_up_idem: "pgd_up (pgd_up v) = pgd_up v"
  using pgd_up_props(1,4) [of "pgd_up v"] pgd_up_props(3) [of v] by (meson antisym order_refl)

lemma pgd_up_fits: "w + 2 ^ 22 \<le> 2 ^ 32 \<Longrightarrow> pgd_up w + 2 ^ 22 \<le> 2 ^ 32"
  using pgd_up_props(4) [of "2 ^ 32 - 2 ^ 22" w] by simp

lemma unat_pgd_steps:
  assumes "unat a + k * 2 ^ 22 < 2 ^ 32" shows "unat (a + of_nat k * PGD_RANGE) = unat a + k * 2 ^ 22"
proof -
  have "unat (of_nat (k * 2 ^ 22) :: u32) = k * 2 ^ 22" using assms by (simp only: unsigned_of_nat) (simp add: take_bit_nat_eq_self)
  moreover have "of_nat k * PGD_RANGE = of_nat (k * 2 ^ 22)" by (simp add: PGD_RANGE_eq)
  ultimately show ?thesis using assms by (simp add: unat_word_ariths del: of_nat_mult)
qed

section \<open>Page-table nodes\<close>

text \<open>The addresses at which nodes have been constructed in a page-table, in order.\<close>

definition conses :: "capid \<Rightarrow> sys_call list \<Rightarrow> u32 list" where
  "conses pt cs = map sc_a2 (filter (\<lambda>c. sc_cap c = pt \<and> sc_op c = op_code CAPTBL_OP_CONS) (rev cs))"

definition pgds :: "u32 \<Rightarrow> nat \<Rightarrow> u32 list" where
  "pgds a k = map (\<lambda>i. a + of_nat i * PGD_RANGE) [0..<k]"

lemma pgds_simps [simp]: "pgds a 0 = []" "pgds a (Suc k) = a # pgds (a + PGD_RANGE) k"
  by (simp_all add: pgds_def map_upt_Suc algebra_simps del: upt_Suc)

lemma pgds_append: "pgds a (j + k) = pgds a j @ pgds (a + of_nat j * PGD_RANGE) k"
  by (induction j arbitrary: a) (simp_all add: algebra_simps)

text \<open>Two states that differ only in the memory that is left and in the calls made.\<close>

definition but_mem :: "api_st \<Rightarrow> api_st \<Rightarrow> bool" where
  "but_mem s s' \<longleftrightarrow> (\<forall>x. (infos s' x)\<lparr>cp_mi := cp_mi (infos s x)\<rparr> = infos s x)"

lemma but_mem_simps [simp]: "but_mem s s" "but_mem s (s'\<lparr>sys_calls := cs\<rparr>) = but_mem s s'" "but_mem s (taken m km ty s)"
  by (simp_all add: but_mem_def)

lemma but_mem_trans:
  assumes "but_mem s s'" "but_mem s' s''" shows "but_mem s s''"
  unfolding but_mem_def
proof
  fix x
  have "(infos s'' x)\<lparr>cp_mi := cp_mi (infos s x)\<rparr> = (infos s'' x)\<lparr>cp_mi := cp_mi (infos s' x)\<rparr>\<lparr>cp_mi := cp_mi (infos s x)\<rparr>" by simp
  also have "\<dots> = infos s x" using assms by (simp only: but_mem_def)
  finally show "(infos s'' x)\<lparr>cp_mi := cp_mi (infos s x)\<rparr> = infos s x" .
qed

lemma but_memD:
  assumes "but_mem s s'"
  shows "cp_memsrc (infos s' x) = cp_memsrc (infos s x)" "cp_pgtbl_cap (infos s' x) = cp_pgtbl_cap (infos s x)"
    "cp_captbl_cap (infos s' x) = cp_captbl_cap (infos s x)"
    "cp_vas_frontier (infos s' x) = cp_vas_frontier (infos s x)" "cp_vasrange_frontier (infos s' x) = cp_vasrange_frontier (infos s x)"
    "compinfo_metacap s' x = compinfo_metacap s x"
proof -
  have "infos s x = (infos s' x)\<lparr>cp_mi := cp_mi (infos s x)\<rparr>" using assms by (simp add: but_mem_def)
  from arg_cong [OF this, of cp_memsrc] arg_cong [OF this, of cp_pgtbl_cap] arg_cong [OF this, of cp_captbl_cap]
    arg_cong [OF this, of cp_vas_frontier] arg_cong [OF this, of cp_vasrange_frontier]
  show "cp_memsrc (infos s' x) = cp_memsrc (infos s x)" "cp_pgtbl_cap (infos s' x) = cp_pgtbl_cap (infos s x)"
    "cp_captbl_cap (infos s' x) = cp_captbl_cap (infos s x)"
    "cp_vas_frontier (infos s' x) = cp_vas_frontier (infos s x)" "cp_vasrange_frontier (infos s' x) = cp_vasrange_frontier (infos s x)"
    "compinfo_metacap s' x = compinfo_metacap s x" by (simp_all add: compinfo_metacap_def)
qed

lemma op_codes_differ:
  "op_code CAPTBL_OP_MEM_RETYPE2KERN \<noteq> op_code CAPTBL_OP_CONS" "op_code CAPTBL_OP_MEM_RETYPE2USER \<noteq> op_code CAPTBL_OP_CONS"
  "op_code CAPTBL_OP_PGTBLACTIVATE \<noteq> op_code CAPTBL_OP_CONS" "op_code CAPTBL_OP_MOVE \<noteq> op_code CAPTBL_OP_CONS"
  by (simp_all add: op_code_def syscall_ops_def)

text \<open>The kernel accepts every call.\<close>

definition accepts :: "api_env \<Rightarrow> bool" where
  "accepts E \<longleftrightarrow> (\<forall>h c. ae_sys E h c = 0)"

lemma call_or_bug_ok:
  "accepts E \<Longrightarrow> call_or_bug E cap op a1 a2 a3 a4 s =
    Some (s\<lparr>sys_calls := \<lparr>sc_cap = cap, sc_op = op_code op, sc_a1 = a1, sc_a2 = a2, sc_a3 = a3, sc_a4 = a4\<rparr> # sys_calls s\<rparr>)"
  by (simp add: call_or_bug_def call_cap_op_def accepts_def)

lemma FIX_PTE_nonzero: "BOOT_CAPTBL_FIX_PTE \<noteq> 0"
  by (simp add: BOOT_CAPTBL_FIX_PTE_def BOOT_CAPTBL_FREE_def BOOT_CAPTBL_SELF_INITRCV_BASE_def BOOT_CAPTBL_SELF_INITTHD_BASE_def
    NUM_CPU_def CAPMAX_ENTRY_SZ_def round_up_to_pow2_def round_to_pow2_def)

lemma mem_ok_calls [simp]: "mem_ok m u n jk ju (s\<lparr>sys_calls := cs\<rparr>) = mem_ok m u n jk ju s"
  by (simp add: mem_ok_def)

lemma kmem_bump_alloc_ok:
  assumes "ps_ok (ae_ps E)" "accepts E" "mem_ok m u (Suc n) jk ju s" "ci \<noteq> 0" "compinfo_metacap s ci = m"
  shows "kmem_bump_alloc E ci s = Some (u, taken m True True s)"
  using mem_bump_alloc_eq [OF assms(1,3-5), of True True] assms(2) by (simp add: kmem_bump_alloc_def accepts_def)

lemma expand_intern_ok:
  assumes ps: "ps_ok (ae_ps E)" "accepts E" and ok: "mem_ok m u (Suc n) jk ju s"
    and m: "compinfo_metacap s ci = m" "compinfo_metacap s m = m"
  shows "\<exists>s'. bump_mem_expand_intern E ci pt a 0 s = Some (BOOT_CAPTBL_FIX_PTE, s') \<and> mem_ok m (u + PAGE_SIZE) n 0 ju s' \<and>
    but_mem s s' \<and> conses pt (sys_calls s') = conses pt (sys_calls s) @ [a]"
proof -
  note nz = mem_ok_next(4,5) [OF ok]
  let ?t = "taken m True True s"
  define new where "new = [\<lparr>sc_cap = cp_captbl_cap (infos ?t m), sc_op = op_code CAPTBL_OP_MOVE, sc_a1 = BOOT_CAPTBL_FIX_PTE, sc_a2 = 0, sc_a3 = 0, sc_a4 = 0\<rparr>,
     \<lparr>sc_cap = pt, sc_op = op_code CAPTBL_OP_CONS, sc_a1 = BOOT_CAPTBL_FIX_PTE, sc_a2 = a, sc_a3 = 0, sc_a4 = 0\<rparr>,
     \<lparr>sc_cap = cp_captbl_cap (infos ?t m), sc_op = op_code CAPTBL_OP_PGTBLACTIVATE, sc_a1 = BOOT_CAPTBL_FIX_PTE,
       sc_a2 = mi_pgtbl_cap (cp_mi (infos ?t m)), sc_a3 = u, sc_a4 = 1\<rparr>]"
  have k: "kmem_bump_alloc E m s = Some (u, ?t)" by (rule kmem_bump_alloc_ok [OF ps ok nz(1) m(2)])
  have "bump_mem_expand_intern E ci pt a 0 s = Some (BOOT_CAPTBL_FIX_PTE, ?t\<lparr>sys_calls := new @ sys_calls ?t\<rparr>)"
    using nz m FIX_PTE_nonzero by (simp add: bump_mem_expand_intern_def k call_or_bug_ok [OF ps(2)] cos_cap_drop_def Let_def new_def)
  moreover have "conses pt (new @ sys_calls ?t) = conses pt (sys_calls s) @ [a]"
    by (simp add: taken_calls [OF ok] conses_def retype_call_def op_codes_differ new_def)
  ultimately show ?thesis using mem_ok_taken [OF ok, of True True] by (intro exI [of _ "?t\<lparr>sys_calls := new @ sys_calls ?t\<rparr>"]) simp
qed

definition mem_left :: "addr \<Rightarrow> nat \<Rightarrow> api_st \<Rightarrow> bool" where
  "mem_left m n s \<longleftrightarrow> compinfo_metacap s m = m \<and> (\<exists>u jk ju. mem_ok m u n jk ju s)"

lemma expand_intern_left:
  assumes "ps_ok (ae_ps E)" "accepts E" "mem_left m (Suc n) s" "compinfo_metacap s ci = m"
  shows "\<exists>s'. bump_mem_expand_intern E ci pt a 0 s = Some (BOOT_CAPTBL_FIX_PTE, s') \<and> mem_left m n s' \<and>
    but_mem s s' \<and> conses pt (sys_calls s') = conses pt (sys_calls s) @ [a]"
proof -
  obtain u jk ju where ok: "mem_ok m u (Suc n) jk ju s" and m: "compinfo_metacap s m = m" using assms(3) by (auto simp: mem_left_def)
  obtain s' where s': "bump_mem_expand_intern E ci pt a 0 s = Some (BOOT_CAPTBL_FIX_PTE, s')" "mem_ok m (u + PAGE_SIZE) n 0 ju s'"
    "but_mem s s'" "conses pt (sys_calls s') = conses pt (sys_calls s) @ [a]"
    using expand_intern_ok [OF assms(1,2) ok assms(4) m, of pt a] by blast
  then have "mem_left m n s'" using m but_memD(6) [OF s'(3), of m] by (auto simp: mem_left_def)
  then show ?thesis using s' by blast
qed

lemma expand_range_loop_ok:
  assumes "ps_ok (ae_ps E)" "accepts E" "mem_left m (k + n) s" "compinfo_metacap s ci = m"
    "unat lim \<le> unat a + k * 2 ^ 22" "\<forall>j<k. unat a + j * 2 ^ 22 < unat lim" "unat lim + 2 ^ 22 \<le> 2 ^ 32"
  shows "\<exists>s'. expand_range_loop E ci pt lim a s = Some (a + of_nat k * PGD_RANGE, s') \<and> mem_left m n s' \<and> but_mem s s' \<and>
    conses pt (sys_calls s') = conses pt (sys_calls s) @ pgds a k"
  using assms
proof (induction k arbitrary: a s)
  case 0
  then show ?case by (subst expand_range_loop.simps) (simp add: word_less_nat_alt)
next
  case (Suc k)
  have a: "a < lim" using Suc.prems(6) by (force simp: word_less_nat_alt)
  then have u: "unat (a + PGD_RANGE) = unat a + 2 ^ 22"
    using Suc.prems(7) by (simp add: unat_word_ariths PGD_RANGE_eq word_less_nat_alt)
  from Suc.prems(3) have "mem_left m (Suc (k + n)) s" by simp
  from expand_intern_left [OF Suc.prems(1,2) this Suc.prems(4), of pt a] obtain s1 where
    s1: "bump_mem_expand_intern E ci pt a 0 s = Some (BOOT_CAPTBL_FIX_PTE, s1)" "mem_left m (k + n) s1" "but_mem s s1"
      "conses pt (sys_calls s1) = conses pt (sys_calls s) @ [a]" by blast
  have m1: "compinfo_metacap s1 ci = m" using but_memD(6) [OF s1(3)] Suc.prems(4) by simp
  have b: "unat lim \<le> unat (a + PGD_RANGE) + k * 2 ^ 22" "\<forall>j<k. unat (a + PGD_RANGE) + j * 2 ^ 22 < unat lim"
    using Suc.prems(5,6) u by (auto dest: spec [of _ "Suc _"])
  from Suc.IH [OF Suc.prems(1,2) s1(2) m1 b Suc.prems(7)] obtain s' where
    "expand_range_loop E ci pt lim (a + PGD_RANGE) s1 = Some (a + PGD_RANGE + of_nat k * PGD_RANGE, s')" "mem_left m n s'" "but_mem s1 s'"
    "conses pt (sys_calls s') = conses pt (sys_calls s1) @ pgds (a + PGD_RANGE) k" by blast
  then show ?case using s1 a but_mem_trans [OF s1(3)]
    by (subst expand_range_loop.simps) (simp add: algebra_simps)
qed

text \<open>
  \<^verbatim>\<open>__bump_mem_expand_range\<close> from a multiple of the range of a node, for a region that may end before it.
\<close>

lemma expand_range_ok:
  assumes "ps_ok (ae_ps E)" "accepts E" "mem_left m (k + n) s" "compinfo_metacap s ci = m"
    and v: "unat a = pgd_up v" "unat (a + sz) = w" "v \<le> w" "w + 2 ^ 22 \<le> 2 ^ 32" and k: "pgd_up w = pgd_up v + k * 2 ^ 22"
  shows "\<exists>s'. bump_mem_expand_range E ci pt a sz s = Some (a, s') \<and> mem_left m n s' \<and> but_mem s s' \<and>
    conses pt (sys_calls s') = conses pt (sys_calls s) @ pgds a k"
proof -
  have lim: "unat (a + sz) \<le> unat a + k * 2 ^ 22" using v k pgd_up_props(1) [of w] by simp
  have it: "\<forall>j<k. unat a + j * 2 ^ 22 < unat (a + sz)"
  proof (intro allI impI)
    fix j assume "j < k"
    then have "pgd_up v + j * 2 ^ 22 + 2 ^ 22 \<le> pgd_up w" using k by simp
    then show "unat a + j * 2 ^ 22 < unat (a + sz)" using v(1,2) pgd_up_props(2) [of w] by simp
  qed
  obtain s' where s': "expand_range_loop E ci pt (a + sz) a s = Some (a + of_nat k * PGD_RANGE, s')" "mem_left m n s'" "but_mem s s'"
    "conses pt (sys_calls s') = conses pt (sys_calls s) @ pgds a k"
    using expand_range_loop_ok [OF assms(1-4) lim it, of pt] v by auto
  have up: "pgd_up w + 2 ^ 22 \<le> 2 ^ 32" by (rule pgd_up_fits [OF v(4)])
  have "unat (a + of_nat k * PGD_RANGE) = pgd_up w" using unat_pgd_steps [of a k] v(1) k up by simp
  then have "unat (round_up_to_pgd_page (a + of_nat k * PGD_RANGE)) = pgd_up w"
    using unat_round_up_pgd [of "a + of_nat k * PGD_RANGE"] up by (simp only: pgd_up_idem)
  then have "round_up_to_pgd_page (a + of_nat k * PGD_RANGE) = round_up_to_pgd_page (a + sz)"
    using unat_round_up_pgd [of "a + sz"] v(2,4) by (simp add: word_unat_eq_iff)
  then show ?thesis using s' by (simp add: bump_mem_expand_range_def)
qed

section \<open>Virtual addresses\<close>

text \<open>
  The frontier of the mapped range may lag behind the addresses handed out, since \<^verbatim>\<open>__page_bump_mem_alloc\<close> leaves it
  alone if it lies above the beginning of an allocation, but it is never ahead of the nodes constructed.
\<close>

definition vas_ok :: "addr \<Rightarrow> nat \<Rightarrow> api_st \<Rightarrow> bool" where
  "vas_ok ci v s \<longleftrightarrow> 0 < v \<and> unat (cp_vas_frontier (infos s ci)) = v \<and> 2 ^ 22 dvd unat (cp_vasrange_frontier (infos s ci)) \<and>
     unat (cp_vasrange_frontier (infos s ci)) \<le> pgd_up v"

lemma mem_left_upd:
  assumes "\<And>c. cp_mi (f c) = cp_mi c" "\<And>c. cp_memsrc (f c) = cp_memsrc c"
  shows "mem_left m n (upd_info ci f s) = mem_left m n s"
  using assms by (simp add: mem_left_def mem_ok_def Let_def compinfo_metacap_def)

lemma frontier_advance_ok:
  assumes ps: "ps_ok (ae_ps E)" and h: "0 < unat sz" "unat h + unat sz + 2 ^ 22 \<le> 2 ^ 32"
  shows "frontier_advance E f_vasrange_frontier ci h sz s =
    Some (if cp_vasrange_frontier (infos s ci) > h then s
          else upd_info ci (\<lambda>c. c\<lparr>cp_vasrange_frontier := round_up_to_pgd_page (h + sz)\<rparr>) s)"
proof -
  have w: "unat (h + sz) = unat h + unat sz" using h(2) by (simp add: unat_word_ariths)
  then have "h < round_up_to_pgd_page (h + sz)"
    using unat_round_up_pgd [of "h + sz"] pgd_up_props(1) [of "unat h + unat sz"] h by (simp add: word_less_nat_alt)
  then show ?thesis
    by (subst frontier_advance.simps, subst frontier_advance.simps) (auto simp: ps_simps [OF ps] ci_rd_def f_vasrange_frontier_def)
qed

lemma valloc_ok:
  assumes ps: "ps_ok (ae_ps E)" "accepts E" and left: "mem_left m (k + n) s" and m: "compinfo_metacap s ci = m"
    and vas: "vas_ok ci v s" and z: "unat sz = z" "0 < z" "sz mod PAGE_SIZE = 0" "v + z + 2 ^ 22 \<le> 2 ^ 32"
    and k: "pgd_up (v + z) = pgd_up v + k * 2 ^ 22"
  shows "\<exists>s'. page_bump_valloc E ci sz s = Some (cp_vas_frontier (infos s ci), s') \<and> vas_ok ci (v + z) s' \<and> mem_left m n s' \<and>
    compinfo_metacap s' ci = m \<and> cp_pgtbl_cap (infos s' ci) = cp_pgtbl_cap (infos s ci) \<and>
    cp_vas_frontier (infos s' ci) = cp_vas_frontier (infos s ci) + sz \<and>
    conses (cp_pgtbl_cap (infos s ci)) (sys_calls s') =
      conses (cp_pgtbl_cap (infos s ci)) (sys_calls s) @ pgds (round_up_to_pgd_page (cp_vas_frontier (infos s ci))) k"
proof -
  let ?h = "cp_vas_frontier (infos s ci)" and ?f = "cp_vasrange_frontier (infos s ci)" and ?pt = "cp_pgtbl_cap (infos s ci)"
  let ?s1 = "upd_info ci (\<lambda>c. c\<lparr>cp_vas_frontier := ?h + sz\<rparr>) s"
  have h: "unat ?h = v" "0 < v" "2 ^ 22 dvd unat ?f" "unat ?f \<le> pgd_up v" using vas by (auto simp: vas_ok_def)
  have w: "unat (?h + sz) = v + z" using h(1) z(1,4) by (simp add: unat_word_ariths)
  have mm: "compinfo_metacap s m = m" using left by (simp add: mem_left_def)
  have left1: "mem_left m j ?s1 = mem_left m j s" for j by (rule mem_left_upd) simp_all
  have rd: "ci_rd f_vasrange_frontier ci ?s1 = ?f" "ci_rd f_vas_frontier ci s = ?h" by (simp_all add: ci_rd_def ci_words)
  have faa: "ci_faa E f_vas_frontier sz ci s = (?h, ?s1)" by (simp add: ps_simps [OF ps(1)] ci_rd_def f_vas_frontier_def upd_info_def)
  show ?thesis
  proof (cases "?h + sz \<le> ?f")
    case True
    then have "pgd_up (v + z) \<le> pgd_up v" using h(3,4) w pgd_up_props(4) [of "unat ?f" "v + z"] by (simp add: word_le_nat_alt)
    then have "k = 0" using k by simp
    moreover have "page_bump_valloc E ci sz s = Some (?h, ?s1)"
      using True m mm z(3) by (simp add: page_bump_valloc_def page_bump_mem_alloc_def faa rd Let_def del: PAGE_SIZE_eq)
    ultimately show ?thesis using h w z k left m left1 by (auto simp: vas_ok_def)
  next
    case False
    let ?a = "round_up_to_pgd_page ?h"
    have a: "unat ?a = pgd_up v" using unat_round_up_pgd [of ?h] h(1) z(4) by simp
    have lim: "?a + (sz - (?a - ?h)) = ?h + sz" by simp
    have m1: "compinfo_metacap ?s1 ci = m" using m by simp
    have left1': "mem_left m (k + n) ?s1" using left left1 by simp
    obtain s2 where s2: "bump_mem_expand_range E ci ?pt ?a (sz - (?a - ?h)) ?s1 = Some (?a, s2)" "mem_left m n s2" "but_mem ?s1 s2"
      "conses ?pt (sys_calls s2) = conses ?pt (sys_calls ?s1) @ pgds ?a k"
      using expand_range_ok [OF ps left1' m1 a, of "sz - (?a - ?h)" "v + z" ?pt] lim w z(4) k by auto
    note b = but_memD [OF s2(3)]
    have anz: "?a \<noteq> 0" using a h(2) pgd_up_props(1) [of v] by auto
    let ?s3 = "if cp_vasrange_frontier (infos s2 ci) > ?h then s2
      else upd_info ci (\<lambda>c. c\<lparr>cp_vasrange_frontier := round_up_to_pgd_page (?h + sz)\<rparr>) s2"
    have adv: "frontier_advance E f_vasrange_frontier ci ?h sz s2 = Some ?s3"
      by (rule frontier_advance_ok [OF ps(1)]) (use z h(1) in auto)
    have "page_bump_valloc E ci sz s = Some (?h, ?s3)"
      using False m mm z(3) s2(1) anz adv by (simp add: page_bump_valloc_def page_bump_mem_alloc_def faa rd Let_def del: PAGE_SIZE_eq)
    moreover have "mem_left m n ?s3" using s2(2) by (simp add: mem_left_upd)
    moreover have "unat (round_up_to_pgd_page (?h + sz)) = pgd_up (v + z)" using unat_round_up_pgd [of "?h + sz"] w z(4) by simp
    then have "vas_ok ci (v + z) ?s3"
      using h w z(2) b pgd_up_props(3) [of "v + z"] pgd_up_props(5) [of v "v + z"] by (auto simp: vas_ok_def)
    moreover have "compinfo_metacap ?s3 ci = m" "cp_pgtbl_cap (infos ?s3 ci) = ?pt" "cp_vas_frontier (infos ?s3 ci) = ?h + sz"
      "sys_calls ?s3 = sys_calls s2" using b m by simp_all
    ultimately show ?thesis using s2(4) by auto
  qed
qed

fun vallocs :: "api_env \<Rightarrow> addr \<Rightarrow> u32 list \<Rightarrow> (api_st, u32 list) kop" where
  "vallocs E ci [] s = Some ([], s)"
| "vallocs E ci (sz # szs) s = do {
     (r, s) \<leftarrow> page_bump_valloc E ci sz s;
     (rs, s) \<leftarrow> vallocs E ci szs s;
     Some (r # rs, s)
   }"

text \<open>Consecutive regions of the given sizes.\<close>

fun regions :: "u32 \<Rightarrow> u32 list \<Rightarrow> u32 list" where
  "regions h [] = []"
| "regions h (sz # szs) = h # regions (h + sz) szs"

lemma pgd_up_step:
  assumes "v \<le> w" obtains k where "pgd_up w = pgd_up v + k * 2 ^ 22"
proof -
  have "2 ^ 22 dvd pgd_up w - pgd_up v" using pgd_up_props(3) [of v] pgd_up_props(3) [of w] by (rule dvd_diff_nat [rotated])
  then obtain k where "pgd_up w - pgd_up v = 2 ^ 22 * k" ..
  then have "pgd_up w = pgd_up v + k * 2 ^ 22" using pgd_up_props(5) [OF assms] by simp
  then show thesis by (rule that)
qed

lemma vallocs_ok:
  assumes "ps_ok (ae_ps E)" "accepts E" "mem_left m (k + n) s" "compinfo_metacap s ci = m" "vas_ok ci v s"
    "\<forall>sz\<in>set szs. 0 < sz \<and> sz mod PAGE_SIZE = 0" "v + (\<Sum>sz\<leftarrow>szs. unat sz) + 2 ^ 22 \<le> 2 ^ 32"
    "pgd_up (v + (\<Sum>sz\<leftarrow>szs. unat sz)) = pgd_up v + k * 2 ^ 22" "pt = cp_pgtbl_cap (infos s ci)"
  shows "\<exists>s'. vallocs E ci szs s = Some (regions (cp_vas_frontier (infos s ci)) szs, s') \<and>
    conses pt (sys_calls s') = conses pt (sys_calls s) @ pgds (round_up_to_pgd_page (cp_vas_frontier (infos s ci))) k"
  using assms
proof (induction szs arbitrary: s v k)
  case Nil
  then show ?case by simp
next
  case (Cons sz szs)
  let ?z = "unat sz" and ?h = "cp_vas_frontier (infos s ci)" and ?Z = "\<Sum>sz\<leftarrow>szs. unat sz"
  obtain k1 where k1: "pgd_up (v + ?z) = pgd_up v + k1 * 2 ^ 22" by (rule pgd_up_step [of v "v + ?z"]) auto
  obtain k2 where k2: "pgd_up (v + ?z + ?Z) = pgd_up (v + ?z) + k2 * 2 ^ 22" by (rule pgd_up_step [of "v + ?z" "v + ?z + ?Z"]) auto
  have k: "k = k1 + k2" using Cons.prems(8) k1 k2 by (simp add: algebra_simps)
  have z: "0 < ?z" "sz mod PAGE_SIZE = 0" "v + ?z + 2 ^ 22 \<le> 2 ^ 32" using Cons.prems(6,7) by (auto simp: word_less_nat_alt)
  have left: "mem_left m (k1 + (k2 + n)) s" using Cons.prems(3) k by (simp add: add.assoc)
  obtain s1 where s1: "page_bump_valloc E ci sz s = Some (?h, s1)" "vas_ok ci (v + ?z) s1" "mem_left m (k2 + n) s1" "compinfo_metacap s1 ci = m"
    "cp_pgtbl_cap (infos s1 ci) = cp_pgtbl_cap (infos s ci)" "cp_vas_frontier (infos s1 ci) = ?h + sz"
    "conses pt (sys_calls s1) = conses pt (sys_calls s) @ pgds (round_up_to_pgd_page ?h) k1"
    using valloc_ok [OF Cons.prems(1,2) left Cons.prems(4,5) refl z k1] Cons.prems(9) by blast
  have h: "unat ?h = v" using Cons.prems(5) by (simp add: vas_ok_def)
  have "round_up_to_pgd_page ?h + of_nat k1 * PGD_RANGE = round_up_to_pgd_page (?h + sz)"
  proof -
    have "unat (?h + sz) = v + ?z" using h z(3) by (simp add: unat_word_ariths)
    then have "unat (round_up_to_pgd_page (?h + sz)) = pgd_up (v + ?z)" using unat_round_up_pgd [of "?h + sz"] z(3) by simp
    moreover have "unat (round_up_to_pgd_page ?h) = pgd_up v" using unat_round_up_pgd [of ?h] h z(3) by simp
    ultimately show ?thesis using unat_pgd_steps [of "round_up_to_pgd_page ?h" k1] k1 pgd_up_fits [OF z(3)]
      by (simp add: word_unat_eq_iff)
  qed
  moreover have "\<exists>s'. vallocs E ci szs s1 = Some (regions (cp_vas_frontier (infos s1 ci)) szs, s') \<and>
    conses pt (sys_calls s') = conses pt (sys_calls s1) @ pgds (round_up_to_pgd_page (cp_vas_frontier (infos s1 ci))) k2"
    by (rule Cons.IH [OF Cons.prems(1,2) s1(3,4,2) _ _ k2]) (use Cons.prems(6,7,9) s1(5) in auto)
  ultimately show ?case using s1 by (auto simp: k pgds_append)
qed

text \<open>
  C23. Virtual memory of a component is handed out without gaps or overlaps and is backed by page-tables: after
  \<^verbatim>\<open>cos_vasfrontier_init\<close>, any sequence of allocations returns consecutive regions, and by then a second-level
  node has been constructed exactly once, in order, for every range of 4 MB from the first one that begins
  at or above the initial heap pointer to the one in which the last allocation ends.  This holds although the
  frontier that decides when to construct nodes is not always advanced.  The kernel is assumed to accept the
  calls, and a page of kernel memory to be left for each node.
\<close>

theorem valloc_nodes_once:
  assumes "ps_ok (ae_ps E)" "accepts E" "compinfo_metacap s ci = m" "compinfo_metacap s m = m"
    "cp_mi (infos s m) = cos_meminfo_init u (of_nat n * PAGE_SIZE) mpt" "m \<noteq> 0" "0 < u" "u mod PAGE_SIZE = 0" "unat u + n * 4096 < 2 ^ 32"
    "\<forall>sz\<in>set szs. 0 < sz \<and> sz mod PAGE_SIZE = 0" "0 < heap" "unat heap + (\<Sum>sz\<leftarrow>szs. unat sz) + 2 ^ 22 \<le> 2 ^ 32"
    "k = (pgd_up (unat heap + (\<Sum>sz\<leftarrow>szs. unat sz)) - pgd_up (unat heap)) div 2 ^ 22" "k \<le> n"
  shows "\<exists>s0 s'. cos_vasfrontier_init ci heap s = Some s0 \<and> vallocs E ci szs s0 = Some (regions heap szs, s') \<and>
    conses (cp_pgtbl_cap (infos s ci)) (sys_calls s') =
      conses (cp_pgtbl_cap (infos s ci)) (sys_calls s) @ pgds (round_up_to_pgd_page heap) k"
proof -
  let ?w = "unat heap + (\<Sum>sz\<leftarrow>szs. unat sz)"
  let ?s0 = "upd_info ci (\<lambda>c. c\<lparr>cp_vas_frontier := heap, cp_vasrange_frontier := round_up_to_pgd_page heap\<rparr>) s"
  have up: "unat (round_up_to_pgd_page heap) = pgd_up (unat heap)" using unat_round_up_pgd [of heap] assms(12) by simp
  then have "round_up_to_pgd_page (round_up_to_pgd_page heap) = round_up_to_pgd_page heap"
    using unat_round_up_pgd [of "round_up_to_pgd_page heap"] pgd_up_fits [of "unat heap"] assms(12) by (simp add: word_unat_eq_iff pgd_up_idem)
  then have init: "cos_vasfrontier_init ci heap s = Some ?s0" by (simp add: cos_vasfrontier_init_def)
  have "mem_ok m u n 0 0 s" using assms(5-9) by (simp add: mem_ok_def Let_def cos_meminfo_init_def)
  then have "mem_left m (k + (n - k)) ?s0" using assms(4,14) by (subst mem_left_upd) (auto simp: mem_left_def)
  moreover have "vas_ok ci (unat heap) ?s0" using assms(11) up pgd_up_props(3) [of "unat heap"] by (simp add: vas_ok_def word_less_nat_alt)
  moreover have "pgd_up ?w = pgd_up (unat heap) + k * 2 ^ 22"
    using pgd_up_step [of "unat heap" ?w] assms(13) by (metis add_diff_cancel_left' le_add1 nonzero_mult_div_cancel_right power_not_zero zero_neq_numeral)
  ultimately have "\<exists>s'. vallocs E ci szs ?s0 = Some (regions (cp_vas_frontier (infos ?s0 ci)) szs, s') \<and>
    conses (cp_pgtbl_cap (infos ?s0 ci)) (sys_calls s') = conses (cp_pgtbl_cap (infos ?s0 ci)) (sys_calls ?s0) @
      pgds (round_up_to_pgd_page (cp_vas_frontier (infos ?s0 ci))) k"
    using assms(3,10,12) by (intro vallocs_ok [OF assms(1,2)]) auto
  then show ?thesis using init by auto
qed

theorem valloc_nodes_once_witness:
  "\<exists>s0 s'. cos_vasfrontier_init 0x1000 0x403FF000 (ex_api_st 4) = Some s0 \<and>
     vallocs ex_api 0x1000 [0x1000, 0x401000, 0x1000] s0 = Some ([0x403FF000, 0x40400000, 0x40801000], s') \<and>
     conses 8 (sys_calls s') = [0x40400000, 0x40800000]"
  using valloc_nodes_once [OF ex_ps_ok, where s = "ex_api_st 4" and ci = "0x1000" and m = "0x1000" and u = "0x80000000" and n = 4
      and mpt = 16 and szs = "[0x1000, 0x401000, 0x1000]" and heap = "0x403FF000" and k = 2]
  by (simp add: accepts_def ex_api_def ex_api_st_def ex_info_def compinfo_metacap_def pgd_up_def conses_def round_up_to_pgd_page_def
    round_up_to_pow2_def round_to_pow2_def PGD_RANGE_def pgds_def upt_rec)

end
