(* ===== verification/Kernel_Api_Caps.thy ===== *)
theory Kernel_Api_Caps
  imports Kernel_Api_Vas
begin

text \<open>
  The allocator of capability identifiers of \<^verbatim>\<open>cos_kernel_api.c\<close>: identifiers of components that take their resources from
  one provider are never handed out twice, and the capabilities in one cache-line of a table have one size, as
  the capability tables of the kernel demand.
\<close>

section \<open>Size classes\<close>

text \<open>Each size of capability has a frontier, and the small ones have a frontier on each core.\<close>

datatype cap_class = C16 cpuid | C32 cpuid | C64

fun class_word :: "cap_class \<Rightarrow> ci_word" where
  "class_word (C16 i) = f_cap16_frontier i"
| "class_word (C32 i) = f_cap32_frontier i"
| "class_word C64 = f_cap64_frontier"

fun class_size :: "cap_class \<Rightarrow> nat" where
  "class_size (C16 i) = 1"
| "class_size (C32 i) = 2"
| "class_size C64 = 4"

definition class_of :: "cpuid \<Rightarrow> cap_t \<Rightarrow> cap_class" where
  "class_of i cap = (if captbl_idsize cap = 1 then C16 i else if captbl_idsize cap = 2 then C32 i else C64)"

text \<open>The arrays of frontiers have an entry for each core.\<close>

fun class_valid :: "cap_class \<Rightarrow> bool" where
  "class_valid (C16 i) = (i < NUM_CPU)"
| "class_valid (C32 i) = (i < NUM_CPU)"
| "class_valid C64 = True"

definition fr :: "cap_class \<Rightarrow> cos_compinfo \<Rightarrow> nat" where
  "fr k c = (if class_valid k then unat (fst (class_word k) c) else 0)"

lemma class_word_laws [simp]:
  "fst (class_word k) (snd (class_word j) v c) = (if k = j then v else fst (class_word k) c)"
  "fst (class_word k) (c\<lparr>cp_cap_frontier := x\<rparr>) = fst (class_word k) c" "fst (class_word k) (c\<lparr>cp_caprange_frontier := x\<rparr>) = fst (class_word k) c"
  "fst (class_word k) (c\<lparr>cp_mi := mi\<rparr>) = fst (class_word k) c"
  "cp_cap_frontier (snd (class_word k) v c) = cp_cap_frontier c" "cp_caprange_frontier (snd (class_word k) v c) = cp_caprange_frontier c"
  "cp_mi (snd (class_word k) v c) = cp_mi c" "cp_memsrc (snd (class_word k) v c) = cp_memsrc c"
  "cp_captbl_cap (snd (class_word k) v c) = cp_captbl_cap c"
  by (cases k; cases j; simp add: ci_words)+

lemma fr_upd [simp]:
  "fr k (c\<lparr>cp_cap_frontier := x\<rparr>) = fr k c" "fr k (c\<lparr>cp_caprange_frontier := x\<rparr>) = fr k c" "fr k (c\<lparr>cp_mi := mi\<rparr>) = fr k c"
  "fr k (snd (class_word j) v c) = (if k = j \<and> class_valid k then unat v else fr k c)"
  by (simp_all add: fr_def)

lemma class_size_cases: "class_size k = 1 \<or> class_size k = 2 \<or> class_size k = 4"
  by (cases k) simp_all

section \<open>Identifiers in use\<close>

text \<open>
  The table of a component: no identifier is below \<open>B\<close>, and \<open>r\<close> more expansions of the table fit into the identifiers.  A
  component that provides its own resources keeps the last line of every expansion for the node of the next one.
\<close>

abbreviation "front c \<equiv> unat (cp_cap_frontier c)"
abbreviation "range_end c \<equiv> unat (cp_caprange_frontier c)"

definition reserved :: "bool \<Rightarrow> nat \<Rightarrow> bool" where
  "reserved own x \<longleftrightarrow> own \<and> x div 4 mod 64 = 31"

definition range_ok :: "nat \<Rightarrow> nat \<Rightarrow> bool \<Rightarrow> cos_compinfo \<Rightarrow> bool" where
  "range_ok B r own c \<longleftrightarrow> 0 < B \<and> B \<le> front c \<and> 4 dvd front c \<and> range_end c mod 256 = 128 \<and>
     front c + (if own then 4 else 0) \<le> range_end c \<and> range_end c \<le> front c + 256 \<and> range_end c + 256 * r < 2 ^ 32"

text \<open>
  The frontiers \<open>g\<close> of the classes below the frontier \<open>F\<close> of the lines: a frontier within a cache-line stands for the
  rest of that line, which no other class uses.
\<close>

definition open_ok :: "nat \<Rightarrow> bool \<Rightarrow> (cap_class \<Rightarrow> nat) \<Rightarrow> nat \<Rightarrow> bool" where
  "open_ok B own g F \<longleftrightarrow>
     (\<forall>k. class_size k dvd g k \<and> (g k mod 4 \<noteq> 0 \<longrightarrow> B < g k \<and> g k < F \<and> \<not> reserved own (g k))) \<and>
     (\<forall>k j. k \<noteq> j \<longrightarrow> g k mod 4 \<noteq> 0 \<longrightarrow> g j mod 4 \<noteq> 0 \<longrightarrow> g k div 4 \<noteq> g j div 4)"

text \<open>An identifier of a class that has been handed out.\<close>

definition id_ok :: "nat \<Rightarrow> bool \<Rightarrow> (cap_class \<Rightarrow> nat) \<Rightarrow> nat \<Rightarrow> nat \<Rightarrow> cap_class \<Rightarrow> bool" where
  "id_ok B own g F x k \<longleftrightarrow> B \<le> x \<and> class_size k dvd x \<and> x < F \<and> \<not> reserved own x \<and>
     (\<forall>j. g j mod 4 \<noteq> 0 \<longrightarrow> g j div 4 = x div 4 \<longrightarrow> j = k \<and> x + class_size k \<le> g k)"

text \<open>\<open>L\<close> lists the identifiers handed out and their classes.\<close>

definition ids_ok :: "(u32 \<times> cap_class) list \<Rightarrow> bool" where
  "ids_ok L \<longleftrightarrow> distinct (map fst L) \<and> (\<forall>(x, k)\<in>set L. \<forall>(y, j)\<in>set L. unat x div 4 = unat y div 4 \<longrightarrow> k = j)"

definition caps_ok :: "nat \<Rightarrow> nat \<Rightarrow> bool \<Rightarrow> (u32 \<times> cap_class) list \<Rightarrow> cos_compinfo \<Rightarrow> bool" where
  "caps_ok B r own L c \<longleftrightarrow> range_ok B r own c \<and> open_ok B own (\<lambda>k. fr k c) (front c) \<and>
     (\<forall>(x, k)\<in>set L. id_ok B own (\<lambda>k. fr k c) (front c) (unat x) k) \<and> ids_ok L"

lemma caps_ok_drop: "caps_ok B r own (a # L) c \<Longrightarrow> caps_ok B r own L c"
  by (auto simp: caps_ok_def ids_ok_def)

lemma caps_ok_fewer: "caps_ok B r own L c \<Longrightarrow> r' \<le> r \<Longrightarrow> caps_ok B r' own L c"
  by (auto simp: caps_ok_def range_ok_def)

lemma caps_ok_mem [simp]: "caps_ok B r own L (c\<lparr>cp_mi := mi\<rparr>) = caps_ok B r own L c"
  by (simp add: caps_ok_def range_ok_def)

section \<open>Steps of the allocator\<close>

lemma fits_in_line:
  fixes x :: nat
  assumes "class_size k dvd x" "x mod 4 \<noteq> 0" "4 dvd F" "x < F"
  shows "x + class_size k \<le> F" "(x + class_size k) mod 4 \<noteq> 0 \<Longrightarrow> (x + class_size k) div 4 = x div 4 \<and> x + class_size k < F"
proof -
  obtain q where q: "F = 4 * q" using assms(3) ..
  define d where "d = x div 4"
  have e: "x = 4 * d + 1 \<or> x = 4 * d + 2 \<or> x = 4 * d + 3" using assms(2) unfolding d_def by presburger
  have d: "d < q" using assms(4) e q by linarith
  have sz: "class_size k = 1 \<or> class_size k = 2 \<and> x = 4 * d + 2"
  proof -
    have "\<not> 2 dvd 4 * d + 1" "\<not> 2 dvd 4 * d + 3" "\<not> 4 dvd x" using assms(2) by auto
    then show ?thesis using assms(1) class_size_cases [of k] e by metis
  qed
  then have y: "x + class_size k = 4 * d + 2 \<or> x + class_size k = 4 * d + 3 \<or> x + class_size k = 4 * d + 4" using e by linarith
  then show "x + class_size k \<le> F" using d q by linarith
  show "(x + class_size k) div 4 = x div 4 \<and> x + class_size k < F" if "(x + class_size k) mod 4 \<noteq> 0"
  proof -
    have "(4 * d + 4) mod 4 = 0" by simp
    then have y': "x + class_size k = 4 * d + 2 \<or> x + class_size k = 4 * d + 3" using that y by metis
    then have "(x + class_size k) div 4 = d" by (elim disjE) simp_all
    then show ?thesis using y' d q unfolding d_def [symmetric] by linarith
  qed
qed

lemma unat_add_size:
  fixes v :: u32
  assumes "unat v + class_size k \<le> F" "F < 2 ^ 32" shows "unat (v + of_nat (class_size k)) = unat v + class_size k"
  using assms class_size_cases [of k] by (auto simp: unat_word_ariths)

lemma ids_ok_Cons:
  assumes "ids_ok L" "\<And>x j. (x, j) \<in> set L \<Longrightarrow> unat x div 4 = unat v div 4 \<Longrightarrow> j = k \<and> x \<noteq> v"
  shows "ids_ok ((v, k) # L)"
proof -
  have "v \<notin> fst ` set L" using assms(2) by force
  moreover have "j = k" if "(x, j) \<in> set L" "unat x div 4 = unat v div 4" for x j using assms(2) that by blast
  moreover have "k = j" if "(x, j) \<in> set L" "unat v div 4 = unat x div 4" for x j using assms(2) that by metis
  ultimately show ?thesis using assms(1) unfolding ids_ok_def by auto
qed

lemma open_ok_upd:
  assumes oo: "open_ok B own g F" "F \<le> F'" and v: "class_size k dvd v" "v mod 4 \<noteq> 0 \<Longrightarrow> B < v \<and> v < F' \<and> \<not> reserved own v"
    "\<And>j. v mod 4 \<noteq> 0 \<Longrightarrow> j \<noteq> k \<Longrightarrow> g j mod 4 \<noteq> 0 \<Longrightarrow> g j div 4 \<noteq> v div 4"
  shows "open_ok B own (g(k := v)) F'"
proof -
  have "class_size j dvd (g(k := v)) j \<and> ((g(k := v)) j mod 4 \<noteq> 0 \<longrightarrow> B < (g(k := v)) j \<and> (g(k := v)) j < F' \<and> \<not> reserved own ((g(k := v)) j))" for j
    using oo v(1,2) by (cases "j = k") (auto simp: open_ok_def intro: less_le_trans)
  moreover have "(g(k := v)) i div 4 \<noteq> (g(k := v)) j div 4" if "i \<noteq> j" "(g(k := v)) i mod 4 \<noteq> 0" "(g(k := v)) j mod 4 \<noteq> 0" for i j
  proof -
    consider "i = k" | "j = k" | "i \<noteq> k" "j \<noteq> k" by blast
    then show ?thesis
    proof cases
      case 1
      then show ?thesis using v(3) [of j] that by simp
    next
      case 2
      then show ?thesis using v(3) [of i] that by simp
    next
      case 3
      then show ?thesis using oo(1) that unfolding open_ok_def by simp
    qed
  qed
  ultimately show ?thesis unfolding open_ok_def by blast
qed

lemma id_ok_upd:
  assumes x: "id_ok B own g F x j" "F \<le> F'" and v: "v mod 4 \<noteq> 0 \<Longrightarrow> v div 4 = x div 4 \<Longrightarrow> k = j \<and> x + class_size j \<le> v"
  shows "id_ok B own (g(k := v)) F' x j"
proof -
  have "i = j \<and> x + class_size j \<le> (g(k := v)) j" if "(g(k := v)) i mod 4 \<noteq> 0" "(g(k := v)) i div 4 = x div 4" for i
    using that x(1) v by (cases "i = k") (auto simp: id_ok_def)
  then show ?thesis using x unfolding id_ok_def by (meson less_le_trans)
qed

lemma caps_reuse:
  assumes ok: "caps_ok B r own L c" and o: "fr k c mod 4 \<noteq> 0"
  defines "v \<equiv> fst (class_word k) c"
  shows "caps_ok B r own ((v, k) # L) (snd (class_word k) (v + of_nat (class_size k)) c)"
proof -
  let ?c = "snd (class_word k) (v + of_nat (class_size k)) c" and ?g = "\<lambda>j. fr j c" and ?w = "fr k c + class_size k"
  have kv: "class_valid k" "unat v = fr k c" using o by (auto simp: fr_def v_def split: if_splits)
  have ro: "range_ok B r own c" and oo: "open_ok B own ?g (front c)" and ids: "\<And>x j. (x, j) \<in> set L \<Longrightarrow> id_ok B own ?g (front c) (unat x) j" "ids_ok L"
    using ok unfolding caps_ok_def by blast+
  have F: "4 dvd front c" using ro by (simp add: range_ok_def)
  have k: "class_size k dvd fr k c" "B < fr k c" "fr k c < front c" "\<not> reserved own (fr k c)" using oo o unfolding open_ok_def by blast+
  have oth: "fr j c div 4 \<noteq> fr k c div 4" if "j \<noteq> k" "fr j c mod 4 \<noteq> 0" for j using oo o that unfolding open_ok_def by blast
  note line = fits_in_line [OF k(1) o F k(3)]
  have "unat (v + of_nat (class_size k)) = ?w"
    using unat_add_size [of v k "front c"] line(1) unsigned_less [where w = "cp_cap_frontier c" and ?'a = nat] by (simp add: kv)
  then have g: "(\<lambda>j. fr j ?c) = ?g(k := ?w)" "front ?c = front c" using kv by (auto simp: fun_eq_iff)
  have "open_ok B own (?g(k := ?w)) (front c)"
    using k line(2) oth by (intro open_ok_upd [OF oo order_refl]) (auto simp: reserved_def)
  moreover have "id_ok B own (?g(k := ?w)) (front c) (fr k c) k"
    using k oth line(2) by (auto simp: id_ok_def)
  moreover have "id_ok B own (?g(k := ?w)) (front c) (unat x) j" if "(x, j) \<in> set L" for x j
  proof (rule id_ok_upd [OF ids(1) [OF that] order_refl])
    assume "?w mod 4 \<noteq> 0" "?w div 4 = unat x div 4"
    then have "k = j \<and> unat x + class_size j \<le> fr j c" using ids(1) [OF that] line(2) o unfolding id_ok_def by auto
    then show "k = j \<and> unat x + class_size j \<le> ?w" by auto
  qed
  moreover have "ids_ok ((v, k) # L)"
  proof (rule ids_ok_Cons [OF ids(2)])
    fix x j assume x: "(x, j) \<in> set L" "unat x div 4 = unat v div 4"
    then have "k = j \<and> unat x + class_size j \<le> fr j c" using ids(1) [OF x(1)] o unfolding id_ok_def kv by auto
    then show "j = k \<and> x \<noteq> v" using class_size_cases [of k] kv(2) by auto
  qed
  moreover have "range_ok B r own ?c" using ro by (simp add: range_ok_def)
  ultimately show ?thesis unfolding caps_ok_def g by (auto simp: kv)
qed

lemma range_ok_room:
  assumes "range_ok B r own c" "front c + (if own then 4 else 0) \<noteq> range_end c"
  shows "front c + (if own then 8 else 4) \<le> range_end c" "\<not> reserved own (front c)"
proof -
  obtain q where q: "front c = 4 * q" using assms(1) by (auto simp: range_ok_def)
  have R: "range_end c mod 256 = 128" "front c + (if own then 4 else 0) \<le> range_end c" "range_end c \<le> front c + 256"
    using assms(1) by (simp_all add: range_ok_def)
  define t where "t = range_end c div 256"
  have t: "range_end c = 256 * t + 128" using R(1) div_mult_mod_eq [of "range_end c" 256] by (simp add: t_def)
  define z :: nat where "z = (if own then 1 else 0)"
  have "q + z \<noteq> 64 * t + 32" "q + z \<le> 64 * t + 32" using q t R(2) assms(2) by (auto simp: z_def split: if_splits)
  then have "q + z + 1 \<le> 64 * t + 32" by linarith
  then have "4 * q + 4 * z + 4 \<le> 256 * t + 128" by linarith
  then show room: "front c + (if own then 8 else 4) \<le> range_end c" using q t by (simp add: z_def split: if_splits)
  show "\<not> reserved own (front c)"
  proof
    assume r: "reserved own (front c)"
    define d where "d = q div 64"
    have "q = 64 * d + 31" using r q div_mult_mod_eq [of q 64] by (simp add: reserved_def d_def)
    then have "256 * d + 132 \<le> 256 * t + 128" "256 * t + 128 \<le> 256 * d + 380"
      using room R(3) q t r by (simp_all add: reserved_def)
    then have "d < t" "t < d + 1" by linarith+
    then show False by simp
  qed
qed

lemma aligned_line:
  fixes F :: nat
  assumes "4 dvd F"
  shows "(F + class_size k) mod 4 \<noteq> 0 \<Longrightarrow> (F + class_size k) div 4 = F div 4 \<and> F + class_size k < F + 4" "class_size k dvd F"
proof -
  obtain q where "F = 4 * q" using assms ..
  then show "(F + class_size k) mod 4 \<noteq> 0 \<Longrightarrow> (F + class_size k) div 4 = F div 4 \<and> F + class_size k < F + 4" "class_size k dvd F"
    by (cases k; simp)+
qed

lemma caps_fresh:
  assumes ok: "caps_ok B r own L c" and room: "front c + (if own then 4 else 0) \<noteq> range_end c" and kv: "class_valid k"
  defines "v \<equiv> cp_cap_frontier c"
  shows "caps_ok B r own ((v, k) # L) (snd (class_word k) (v + of_nat (class_size k)) (c\<lparr>cp_cap_frontier := v + 4\<rparr>))"
proof -
  let ?c = "snd (class_word k) (v + of_nat (class_size k)) (c\<lparr>cp_cap_frontier := v + 4\<rparr>)" and ?g = "\<lambda>j. fr j c" and ?w = "front c + class_size k"
  have ro: "range_ok B r own c" and oo: "open_ok B own ?g (front c)" and ids: "\<And>x j. (x, j) \<in> set L \<Longrightarrow> id_ok B own ?g (front c) (unat x) j" "ids_ok L"
    using ok unfolding caps_ok_def by blast+
  have F: "4 dvd front c" "0 < B" "B \<le> front c" using ro by (simp_all add: range_ok_def)
  note rm = range_ok_room [OF ro room]
  have R: "range_end c < 2 ^ 32" using unsigned_less [where w = "cp_caprange_frontier c" and ?'a = nat] by simp
  have up: "front c + 4 < 2 ^ 32 \<or> front c + 4 \<le> range_end c" using rm R by (auto split: if_splits)
  then have f4: "unat (v + 4) = front c + 4" using R by (auto simp: v_def unat_word_ariths)
  have sz: "class_size k \<le> 4" "0 < class_size k" using class_size_cases [of k] by auto
  have "unat (v + of_nat (class_size k)) = ?w"
    using unat_add_size [of v k "front c + 4"] sz up R by (auto simp: v_def)
  then have g: "(\<lambda>j. fr j ?c) = ?g(k := ?w)" "front ?c = front c + 4" "range_end ?c = range_end c" using kv by (auto simp: fun_eq_iff f4)
  have line: "?w mod 4 \<noteq> 0 \<Longrightarrow> ?w div 4 = front c div 4 \<and> ?w < front c + 4" "class_size k dvd front c"
    using aligned_line [OF F(1), of k] by simp_all
  have low: "x div 4 \<noteq> front c div 4" if "x < front c" for x using that F(1) by (metis div_less_iff_less_mult dvd_div_mult_self less_irrefl zero_less_numeral)
  have "open_ok B own (?g(k := ?w)) (front c + 4)"
    using line low F rm(2) sz oo
    by (intro open_ok_upd [OF oo]) (auto simp: reserved_def open_ok_def)
  moreover have "id_ok B own (?g(k := ?w)) (front c + 4) (front c) k"
  proof -
    have "fr j c div 4 \<noteq> front c div 4" if "fr j c mod 4 \<noteq> 0" for j using oo that low unfolding open_ok_def by blast
    then show ?thesis using line F(3) rm(2) by (auto simp: id_ok_def)
  qed
  moreover have old: "unat x < front c" if "(x, j) \<in> set L" for x j using ids(1) [OF that] by (simp add: id_ok_def)
  have "id_ok B own (?g(k := ?w)) (front c + 4) (unat x) j" if "(x, j) \<in> set L" for x j
    by (rule id_ok_upd [OF ids(1) [OF that]]) (use line(1) low [OF old [OF that]] in auto)
  moreover have "ids_ok ((v, k) # L)"
    by (rule ids_ok_Cons [OF ids(2)]) (use low old in \<open>auto simp: v_def\<close>)
  moreover have "range_ok B r own ?c" unfolding range_ok_def g using ro rm(1) by (auto simp: range_ok_def)
  ultimately show ?thesis unfolding caps_ok_def g by (auto simp: v_def)
qed

lemma caps_expand:
  assumes ok: "caps_ok B (Suc r) own L c" and full: "front c + (if own then 4 else 0) = range_end c"
  shows "caps_ok B r own L (c\<lparr>cp_caprange_frontier := cp_caprange_frontier c + 256, cp_cap_frontier := cp_caprange_frontier c\<rparr>)"
    "range_end (c\<lparr>cp_caprange_frontier := cp_caprange_frontier c + 256, cp_cap_frontier := cp_caprange_frontier c\<rparr>) = range_end c + 256"
proof -
  let ?c = "c\<lparr>cp_caprange_frontier := cp_caprange_frontier c + 256, cp_cap_frontier := cp_caprange_frontier c\<rparr>"
  have ro: "range_ok B (Suc r) own c" and oo: "open_ok B own (\<lambda>j. fr j c) (front c)"
    and ids: "\<And>x j. (x, j) \<in> set L \<Longrightarrow> id_ok B own (\<lambda>j. fr j c) (front c) (unat x) j" "ids_ok L"
    using ok unfolding caps_ok_def by blast+
  have R: "range_end c + 256 * Suc r < 2 ^ 32" "range_end c mod 256 = 128" using ro by (simp_all add: range_ok_def)
  then show r: "range_end ?c = range_end c + 256" by (simp add: unat_word_ariths)
  have "4 dvd range_end c" using R(2) dvd_mod_iff [of 4 256 "range_end c"] by simp
  then have "range_ok B r own ?c" unfolding range_ok_def r using ro full R by (auto simp: range_ok_def split: if_splits)
  moreover have le: "front c \<le> range_end c" using full by simp
  have "open_ok B own (\<lambda>j. fr j c) (range_end c)" using oo le unfolding open_ok_def by (meson less_le_trans)
  moreover have "id_ok B own (\<lambda>j. fr j c) (range_end c) (unat x) j" if "(x, j) \<in> set L" for x j
    using ids(1) [OF that] le unfolding id_ok_def by (meson less_le_trans)
  ultimately show "caps_ok B r own L ?c" using ids(2) unfolding caps_ok_def by auto
qed

section \<open>Allocation\<close>

definition mem_enough :: "addr \<Rightarrow> nat \<Rightarrow> api_st \<Rightarrow> bool" where
  "mem_enough m n s \<longleftrightarrow> (\<exists>n'\<ge>n. mem_left m n' s)"

text \<open>Only the components in \<open>D\<close> have changed, and none its resource provider.\<close>

definition frame :: "addr set \<Rightarrow> api_st \<Rightarrow> api_st \<Rightarrow> bool" where
  "frame D s s' \<longleftrightarrow> (\<forall>x. compinfo_metacap s' x = compinfo_metacap s x) \<and> (\<forall>x. x \<notin> D \<longrightarrow> infos s' x = infos s x)"

lemma frame_trans: "frame D s s' \<Longrightarrow> frame D s' s'' \<Longrightarrow> frame D s s''"
  by (simp add: frame_def)

lemma frame_mono: "frame D s s' \<Longrightarrow> D \<subseteq> D' \<Longrightarrow> frame D' s s'"
  by (auto simp: frame_def)

lemma frame_upd: "ci \<in> D \<Longrightarrow> (\<And>c. cp_memsrc (f c) = cp_memsrc c) \<Longrightarrow> frame D s (upd_info ci f s)"
  by (auto simp: frame_def)

lemma infos_only:
  assumes "infos s1 = infos s2" shows "frame D s s1 = frame D s s2" "mem_enough m n s1 = mem_enough m n s2" "compinfo_metacap s1 x = compinfo_metacap s2 x"
  using assms by (simp_all add: frame_def mem_enough_def mem_left_def mem_ok_def compinfo_metacap_def)

lemma frame_calls [simp]: "frame D s (s'\<lparr>sys_calls := cs\<rparr>) = frame D s s'"
  by (simp add: frame_def compinfo_metacap_def)

lemma mem_enough_calls [simp]: "mem_enough m n (s\<lparr>sys_calls := cs\<rparr>) = mem_enough m n s"
  by (simp add: mem_enough_def mem_left_def compinfo_metacap_def)

lemma mem_enough_upd:
  "(\<And>c. cp_mi (f c) = cp_mi c) \<Longrightarrow> (\<And>c. cp_memsrc (f c) = cp_memsrc c) \<Longrightarrow> mem_enough m n (upd_info ci f s) = mem_enough m n s"
  by (simp add: mem_enough_def mem_left_upd)

lemma mem_enough_less: "mem_enough m n s \<Longrightarrow> n' \<le> n \<Longrightarrow> mem_enough m n' s"
  unfolding mem_enough_def by (meson le_trans)

lemma kmem_enough:
  assumes "ps_ok (ae_ps E)" "accepts E" "mem_enough m (Suc n) s" "ci \<noteq> 0" "compinfo_metacap s ci = m"
  shows "\<exists>u. u \<noteq> 0 \<and> kmem_bump_alloc E ci s = Some (u, taken m True True s) \<and> mem_enough m n (taken m True True s) \<and> frame {m} s (taken m True True s)"
proof -
  obtain n' u jk ju where n: "n \<le> n'" "mem_ok m u (Suc n') jk ju s" "compinfo_metacap s m = m"
    using assms(3) unfolding mem_enough_def mem_left_def by (metis Suc_le_D Suc_le_mono)
  have "mem_left m n' (taken m True True s)" using mem_ok_taken [OF n(2), of True True] n(3) by (auto simp: mem_left_def)
  then show ?thesis
    using kmem_bump_alloc_ok [OF assms(1,2) n(2) assms(4,5)] mem_ok_next(5) [OF n(2)] n(1) by (auto simp: mem_enough_def frame_def)
qed

lemma mod4: "(w :: u32) mod 4 = 0 \<longleftrightarrow> unat w mod 4 = 0"
  by (simp add: word_unat_eq_iff unat_mod)

text \<open>An allocation, given what the check for an expansion does.\<close>

lemma generic_ok:
  assumes ps: "ps_ok (ae_ps E)" and ok: "caps_ok B r own L (infos s ci)" "mem_enough m n s" "ci \<in> D"
    and exp: "\<exists>s1. capid_captbl_check_expand alloc E ci s = Some (0, s1) \<and> caps_ok B r own L (infos s1 ci) \<and>
      front (infos s1 ci) + (if own then 4 else 0) \<noteq> range_end (infos s1 ci) \<and> mem_enough m n s1 \<and> frame D s s1 \<and> P s1"
    and P: "P s" "\<And>s1 f. P s1 \<Longrightarrow> P (upd_info ci f s1)" and kv: "class_valid k"
  shows "\<exists>x s'. capid_bump_alloc_generic alloc E ci (class_word k) (of_nat (class_size k)) s = Some (x, s') \<and>
    caps_ok B r own ((x, k) # L) (infos s' ci) \<and> mem_enough m n s' \<and> frame D s s' \<and> P s'"
proof (cases "fr k (infos s ci) mod 4 = 0")
  case False
  let ?v = "fst (class_word k) (infos s ci)" and ?f = "\<lambda>c. snd (class_word k) (fst (class_word k) (infos s ci) + of_nat (class_size k)) c"
  have "capid_bump_alloc_generic alloc E ci (class_word k) (of_nat (class_size k)) s = Some (?v, upd_info ci ?f s)"
    using False kv by (simp add: capid_bump_alloc_generic_def ps_simps [OF ps] ci_rd_def CAPMAX_ENTRY_SZ_def mod4 fr_def)
  moreover have "caps_ok B r own ((?v, k) # L) (infos (upd_info ci ?f s) ci)" using caps_reuse [OF ok(1) False] by simp
  ultimately show ?thesis using ok(2,3) P by (auto simp: mem_enough_upd intro!: frame_upd)
next
  case True
  obtain s1 where s1: "capid_captbl_check_expand alloc E ci s = Some (0, s1)" "caps_ok B r own L (infos s1 ci)"
    "front (infos s1 ci) + (if own then 4 else 0) \<noteq> range_end (infos s1 ci)" "mem_enough m n s1" "frame D s s1" "P s1"
    using exp by blast
  let ?v = "cp_cap_frontier (infos s1 ci)"
  let ?f = "\<lambda>c. snd (class_word k) (?v + of_nat (class_size k)) (c\<lparr>cp_cap_frontier := ?v + 4\<rparr>)"
  have ww: "snd (class_word k) a (snd (class_word k) b c) = snd (class_word k) a c" for a b c by (cases k) (simp_all add: ci_words)
  have "capid_bump_alloc_generic alloc E ci (class_word k) (of_nat (class_size k)) s = Some (?v, upd_info ci ?f s1)"
    using True kv s1(1) by (simp add: capid_bump_alloc_generic_def ps_simps [OF ps] ci_rd_def CAPMAX_ENTRY_SZ_def mod4 fr_def f_cap_frontier_def upd_info_def ww)
  moreover have "caps_ok B r own ((?v, k) # L) (infos (upd_info ci ?f s1) ci)" using caps_fresh [OF s1(2,3) kv] by simp
  moreover have "frame D s (upd_info ci ?f s1)" using frame_trans [OF s1(5) frame_upd [OF ok(3)]] by simp
  ultimately show ?thesis using s1(4,6) P(2) by (auto simp: mem_enough_upd)
qed

lemma range_word:
  assumes "range_ok B r own c"
  shows "unat (cp_caprange_frontier c - 4) = range_end c - 4" "4 \<le> range_end c" "cp_caprange_frontier c mod 128 = 0"
proof -
  have m: "range_end c mod 256 = 128" using assms by (simp add: range_ok_def)
  then show r: "4 \<le> range_end c" using mod_less_eq_dividend [of "range_end c" 256] by simp
  then show "unat (cp_caprange_frontier c - 4) = range_end c - 4" by (simp add: unat_sub word_le_nat_alt)
  have "range_end c mod 128 = 0" using m mod_mod_cancel [of 128 256 "range_end c"] by simp
  then show "cp_caprange_frontier c mod 128 = 0" by (simp add: word_unat_eq_iff unat_mod)
qed

lemma expand_frontier:
  assumes "range_ok B r own c"
  defines "f \<equiv> if own then cp_caprange_frontier c - 4 else cp_caprange_frontier c"
  shows "cp_cap_frontier c \<le> f" "cp_cap_frontier c = f \<longleftrightarrow> front c + (if own then 4 else 0) = range_end c"
  using assms range_word [OF assms(1)] by (auto simp: range_ok_def word_le_nat_alt word_unat_eq_iff)

text \<open>The expansion of the table of a component that provides its own resources.\<close>

lemma check_expand_own:
  assumes ps: "ps_ok (ae_ps E)" "accepts E" and mem: "mem_enough m (Suc n) s" and m: "compinfo_metacap s m = m" "m \<noteq> 0"
    and ok: "caps_ok B (Suc r) True L (infos s m)"
  shows "\<exists>s1. capid_captbl_check_expand alloc E m s = Some (0, s1) \<and> caps_ok B r True L (infos s1 m) \<and>
      front (infos s1 m) + (if True then 4 else 0) \<noteq> range_end (infos s1 m) \<and> mem_enough m n s1 \<and> frame {m} s s1"
proof -
  have ro: "range_ok B (Suc r) True (infos s m)" using ok by (simp add: caps_ok_def)
  note fr = expand_frontier [OF ro]
  show ?thesis
  proof (cases "front (infos s m) + 4 = range_end (infos s m)")
    case False
    then have "capid_captbl_check_expand alloc E m s = Some (0, s)"
      using fr m by (simp add: capid_captbl_check_expand_def ps_simps [OF ps(1)] ci_rd_def ci_words CAPMAX_ENTRY_SZ_def)
    then show ?thesis using False ok caps_ok_fewer [OF ok, of r] mem_enough_less [OF mem, of n] by (auto simp: frame_def)
  next
    case True
    let ?t = "taken m True True s" and ?c = "infos s m"
    obtain u where u: "u \<noteq> 0" "kmem_bump_alloc E m s = Some (u, ?t)" "mem_enough m n ?t" "frame {m} s ?t"
      using kmem_enough [OF ps mem m(2,1)] by blast
    let ?f = "\<lambda>c. c\<lparr>cp_caprange_frontier := cp_caprange_frontier c + 256, cp_cap_frontier := cp_caprange_frontier c\<rparr>"
    have "\<exists>s1. capid_captbl_check_expand alloc E m s = Some (0, s1) \<and> infos s1 = infos (upd_info m ?f ?t)"
      using True fr m u(1,2) range_word(3) [OF ro]
      by (simp add: capid_captbl_check_expand_def ps_simps [OF ps(1)] ci_rd_def ci_words CAPMAX_ENTRY_SZ_def CAPTBL_EXPAND_SZ_def
        call_or_bug_ok [OF ps(2)] Let_def)
    then obtain s1 where e: "capid_captbl_check_expand alloc E m s = Some (0, s1)" "infos s1 = infos (upd_info m ?f ?t)" by blast
    have "caps_ok B r True L (infos s1 m)" "front (infos s1 m) + 4 \<noteq> range_end (infos s1 m)"
      using caps_expand [of B r True L "infos ?t m"] ok True by (simp_all add: e(2))
    moreover have "frame {m} s (upd_info m ?f ?t)" using frame_trans [OF u(4) frame_upd] by simp
    ultimately show ?thesis using e u(3) infos_only [OF e(2)]
      by (intro exI [of _ s1]) (simp add: mem_enough_upd)
  qed
qed

definition valid_cap :: "cap_t \<Rightarrow> bool" where
  "valid_cap cap \<longleftrightarrow> captbl_cap2sz cap \<noteq> CAP_SZ_ERR"

lemma capid_bump_step_class:
  assumes "valid_cap cap"
  shows "capid_bump_step alloc E ci cap s =
    capid_bump_alloc_generic alloc E ci (class_word (class_of (ae_cpuid E) cap)) (of_nat (class_size (class_of (ae_cpuid E) cap))) s"
    "class_size (class_of i cap) = captbl_idsize cap"
  using assms by (cases "captbl_cap2sz cap"; simp add: valid_cap_def capid_bump_step_def class_of_def captbl_idsize_def)+

lemma class_of_valid: "i < NUM_CPU \<Longrightarrow> class_valid (class_of i cap)"
  by (simp add: class_of_def)

lemma caps_ok_first: "caps_ok B r own ((x, k) # L) c \<Longrightarrow> x \<noteq> 0"
  by (auto simp: caps_ok_def id_ok_def range_ok_def)

lemma step_own:
  assumes ps: "ps_ok (ae_ps E)" "accepts E" and mem: "mem_enough m (Suc n) s" and m: "compinfo_metacap s m = m" "m \<noteq> 0"
    and ok: "caps_ok B (Suc r) True L (infos s m)" and cap: "valid_cap cap" "ae_cpuid E < NUM_CPU"
  shows "\<exists>x s'. capid_bump_step alloc E m cap s = Some (x, s') \<and> caps_ok B r True ((x, class_of (ae_cpuid E) cap) # L) (infos s' m) \<and>
    mem_enough m n s' \<and> frame {m} s s'"
  unfolding capid_bump_step_class(1) [OF cap(1)]
  using generic_ok [OF ps(1), of B r True L s m m n "{m}" alloc "\<lambda>_. True" "class_of (ae_cpuid E) cap"]
    check_expand_own [OF ps mem m ok, of alloc] caps_ok_fewer [OF ok, of r] mem_enough_less [OF mem, of n] class_of_valid [OF cap(2)] by simp

text \<open>
  The expansion of the table of a component that has a resource provider \<open>m\<close>: an identifier of \<open>m\<close> is allocated
  for the node.
\<close>

lemma check_expand_child:
  assumes ps: "ps_ok (ae_ps E)" "accepts E" and mem: "mem_enough m (Suc (Suc n)) s"
    and m: "compinfo_metacap s m = m" "m \<noteq> 0" "compinfo_metacap s ci = m" "ci \<noteq> m" "ci \<noteq> 0"
    and ok: "caps_ok B (Suc r) False L (infos s ci)" and okm: "caps_ok Bm (Suc r) True Lm (infos s m)" and cpu: "ae_cpuid E < NUM_CPU"
  shows "\<exists>s1. capid_captbl_check_expand (capid_bump_step alloc E) E ci s = Some (0, s1) \<and> caps_ok B r False L (infos s1 ci) \<and>
      front (infos s1 ci) + (if False then 4 else 0) \<noteq> range_end (infos s1 ci) \<and> mem_enough m n s1 \<and> frame {ci, m} s s1 \<and>
      caps_ok Bm r True Lm (infos s1 m)"
proof -
  have ro: "range_ok B (Suc r) False (infos s ci)" using ok by (simp add: caps_ok_def)
  note fr = expand_frontier [OF ro]
  show ?thesis
  proof (cases "front (infos s ci) = range_end (infos s ci)")
    case False
    then have "capid_captbl_check_expand (capid_bump_step alloc E) E ci s = Some (0, s)"
      using fr m by (simp add: capid_captbl_check_expand_def ps_simps [OF ps(1)] ci_rd_def ci_words)
    then show ?thesis using False ok okm caps_ok_fewer [OF ok, of r] caps_ok_fewer [OF okm, of r] mem_enough_less [OF mem, of n]
      by (auto simp: frame_def)
  next
    case True
    let ?t = "taken m True True s"
    obtain u where u: "u \<noteq> 0" "kmem_bump_alloc E ci s = Some (u, ?t)" "mem_enough m (Suc n) ?t" "frame {m} s ?t"
      using kmem_enough [OF ps mem m(5,3)] by blast
    have mt: "compinfo_metacap ?t m = m" "caps_ok Bm (Suc r) True Lm (infos ?t m)" using m(1) okm by simp_all
    obtain x s2 where s2: "capid_bump_step alloc E m CAP_CAPTBL ?t = Some (x, s2)"
      "caps_ok Bm r True ((x, class_of (ae_cpuid E) CAP_CAPTBL) # Lm) (infos s2 m)" "mem_enough m n s2" "frame {m} ?t s2"
      using step_own [OF ps u(3) mt(1) m(2) mt(2) _ cpu, of CAP_CAPTBL alloc] by (auto simp: valid_cap_def)
    have ci2: "infos s2 ci = infos s ci" "compinfo_metacap s2 y = compinfo_metacap s y" for y using s2(4) m(4) by (auto simp: frame_def)
    let ?f = "\<lambda>c. c\<lparr>cp_caprange_frontier := cp_caprange_frontier c + 256, cp_cap_frontier := cp_caprange_frontier c\<rparr>"
    have "\<exists>s1. capid_captbl_check_expand (capid_bump_step alloc E) E ci s = Some (0, s1) \<and> infos s1 = infos (upd_info ci ?f s2)"
      using True fr m u(1,2) s2(1) caps_ok_first [OF s2(2)] range_word(3) [OF ro] ci2
      by (simp add: capid_captbl_check_expand_def ps_simps [OF ps(1)] ci_rd_def ci_words CAPTBL_EXPAND_SZ_def
        call_or_bug_ok [OF ps(2)] Let_def)
    then obtain s1 where e: "capid_captbl_check_expand (capid_bump_step alloc E) E ci s = Some (0, s1)" "infos s1 = infos (upd_info ci ?f s2)" by blast
    have "caps_ok B r False L (infos s1 ci)" "front (infos s1 ci) \<noteq> range_end (infos s1 ci)"
      using caps_expand [OF ok] True by (simp_all add: e(2) ci2)
    moreover have "caps_ok Bm r True Lm (infos s1 m)" using caps_ok_drop [OF s2(2)] m(4) by (simp add: e(2))
    moreover have "frame {ci, m} s (upd_info ci ?f s2)"
      using frame_trans [OF frame_mono [OF u(4)] frame_trans [OF frame_mono [OF s2(4)] frame_upd]] by simp
    ultimately show ?thesis using e s2(3) infos_only [OF e(2)]
      by (intro exI [of _ s1]) (simp add: mem_enough_upd)
  qed
qed

lemma step_child:
  assumes ps: "ps_ok (ae_ps E)" "accepts E" and mem: "mem_enough m (Suc (Suc n)) s"
    and m: "compinfo_metacap s m = m" "m \<noteq> 0" "compinfo_metacap s ci = m" "ci \<noteq> m" "ci \<noteq> 0"
    and ok: "caps_ok B (Suc r) False L (infos s ci)" and okm: "caps_ok Bm (Suc r) True Lm (infos s m)" and cap: "valid_cap cap" "ae_cpuid E < NUM_CPU"
  shows "\<exists>x s'. capid_bump_step (capid_bump_step alloc E) E ci cap s = Some (x, s') \<and>
    caps_ok B r False ((x, class_of (ae_cpuid E) cap) # L) (infos s' ci) \<and> mem_enough m n s' \<and> frame {ci, m} s s' \<and>
    caps_ok Bm r True Lm (infos s' m)"
  unfolding capid_bump_step_class(1) [OF cap(1)]
  by (rule generic_ok [OF ps(1) caps_ok_fewer [OF ok] mem_enough_less [OF mem] _ check_expand_child [OF ps mem m ok okm cap(2)]])
    (use m(4) caps_ok_fewer [OF okm, of r] class_of_valid [OF cap(2)] in auto)

section \<open>The beginning\<close>

lemma unat_round_up_small:
  assumes "unat x \<le> 2 ^ 20" "n \<le> 8"
  shows "unat (round_up_to_pow2 x (2 ^ n)) = (unat x + 2 ^ n - 1) div 2 ^ n * 2 ^ n"
proof -
  have n: "(2 :: nat) ^ n \<le> 2 ^ 8" using assms(2) by (intro power_increasing) auto
  have "unat (of_nat (2 ^ n) :: u32) = 2 ^ n" using assms(2) by (simp only: unsigned_of_nat) (simp add: take_bit_nat_eq_self)
  then have p: "unat (2 ^ n :: u32) = 2 ^ n" by simp
  have "unat (x + 2 ^ n) = unat x + 2 ^ n" using assms(1) n p by (simp add: unat_word_ariths)
  moreover from this have "x + 2 ^ n \<noteq> 0" by (metis add_is_0 power_not_zero unat_0 zero_neq_numeral)
  ultimately have "unat (x + 2 ^ n - 1) = unat x + 2 ^ n - 1" by (simp add: unat_minus_one)
  moreover have "n < 32" using assms(2) by simp
  ultimately show ?thesis unfolding round_up_to_pow2_def using unat_round_to_pow2 [of n "x + 2 ^ n - 1"] by simp
qed

text \<open>
  The end of the range that \<^verbatim>\<open>cos_capfrontier_init\<close> computes.  If the component provides its own resources, the
  first identifier must not begin a new expansion.
\<close>

definition start_end :: "nat \<Rightarrow> nat" where
  "start_end F = (if F < 128 then 128 else (F + 383) div 256 * 256 - 128)"

lemma start_end_props:
  assumes "4 dvd F" "0 < F"
  shows "start_end F mod 256 = 128" "F \<le> start_end F" "start_end F \<le> F + 256" "F mod 256 \<noteq> 128 \<Longrightarrow> F + 4 \<le> start_end F"
proof -
  define q where "q = (F + 383) div 256"
  have q: "256 * q \<le> F + 383" "F + 383 < 256 * q + 256" unfolding q_def by simp_all
  have e: "start_end F = (if F < 128 then 128 else 256 * q - 128)" by (simp add: start_end_def q_def mult.commute)
  have q1: "1 \<le> q" using q by linarith
  have m: "(256 * q - 128) mod 256 = 128"
  proof -
    obtain p where "q = Suc p" using q1 by (cases q) auto
    then have "256 * q - 128 = 256 * p + 128" by simp
    then show ?thesis by simp
  qed
  then show m': "start_end F mod 256 = 128" by (simp add: e)
  show le: "F \<le> start_end F" "start_end F \<le> F + 256" using q q1 by (auto simp: e)
  show "F + 4 \<le> start_end F" if "F mod 256 \<noteq> 128"
  proof -
    have "4 dvd start_end F" using m' dvd_mod_iff [of 4 256 "start_end F"] by simp
    then obtain a b where "F = 4 * a" "start_end F = 4 * b" using assms(1) by (auto elim!: dvdE)
    moreover have "F \<noteq> start_end F" using that m' by auto
    ultimately show ?thesis using le(1) by simp
  qed
qed

lemma capfrontier_start:
  assumes init: "cos_capfrontier_init d f s0 = Some s1" and f: "0 < f" "unat f \<le> 2 ^ 16"
  shows "4 dvd unat f" "cp_cap_frontier (infos s1 d) = f" "range_end (infos s1 d) = start_end (unat f)"
    "fr k (infos s1 d) = (if class_valid k then unat f else 0)"
proof -
  have F: "0 < unat f" using f(1) by (simp add: word_less_nat_alt)
  have al: "round_up_to_pow2 f 4 = f"
    using init by (cases "round_up_to_pow2 f 4 = f") (simp_all add: cos_capfrontier_init_def CAPMAX_ENTRY_SZ_def)
  have s1: "s1 = upd_info d (\<lambda>c. c\<lparr>cp_cap_frontier := f,
       cp_caprange_frontier := (if f < 128 then round_up_to_pow2 f 128 else round_up_to_pow2 (f + 128) 256 - 128),
       cp_cap64_frontier := f, cp_cap16_frontier := (\<lambda>i. if i < NUM_CPU then f else cp_cap16_frontier c i),
       cp_cap32_frontier := (\<lambda>i. if i < NUM_CPU then f else cp_cap32_frontier c i)\<rparr>) s0"
    using init al by (simp add: cos_capfrontier_init_def CAPMAX_ENTRY_SZ_def CAPTBL_EXPAND_SZ_def split del: if_split cong: if_cong)
  let ?c = "infos s1 d"
  show "4 dvd unat f" using unat_round_up_small [of f 2] al f(2) by (simp add: dvd_def) (metis mult.commute)
  show "cp_cap_frontier ?c = f" by (simp add: s1)
  show "range_end ?c = start_end (unat f)"
  proof (cases "f < 128")
    case True
    then have "(unat f + 127) div 128 = 1" using F by (simp add: word_less_nat_alt)
    then show ?thesis using True unat_round_up_small [of f 7] f(2) by (simp add: s1 start_end_def word_less_nat_alt)
  next
    case False
    have "unat (f + 128) = unat f + 128" using f(2) by (simp add: unat_word_ariths)
    then have u: "unat (round_up_to_pow2 (f + 128) 256) = (unat f + 383) div 256 * 256"
      using unat_round_up_small [of "f + 128" 8] f(2) by simp
    moreover have "1 \<le> (unat f + 383) div 256" by simp
    ultimately have "128 \<le> round_up_to_pow2 (f + 128) 256" by (simp add: word_le_nat_alt)
    then show ?thesis using False u by (simp add: s1 start_end_def word_less_nat_alt unat_sub)
  qed
  show "fr k ?c = (if class_valid k then unat f else 0)" by (cases k) (simp_all add: fr_def s1 ci_words)
qed

lemma caps_start:
  assumes init: "cos_capfrontier_init d f s0 = Some s1" and f: "0 < f" "unat f \<le> 2 ^ 16" "own \<Longrightarrow> unat f mod 256 \<noteq> 128" "r < 2 ^ 23"
  shows "caps_ok (unat f) r own [] (infos s1 d)"
proof -
  let ?c = "infos s1 d"
  have F: "0 < unat f" using f(1) by (simp add: word_less_nat_alt)
  note d4 = capfrontier_start(1) [OF init f(1,2)] and R = capfrontier_start(2,3) [OF init f(1,2)] and fr = capfrontier_start(4) [OF init f(1,2)]
  note e = start_end_props [OF d4 F]
  have "range_ok (unat f) r own ?c" unfolding range_ok_def R using e F d4 f by auto
  moreover have "open_ok (unat f) own (\<lambda>k. fr k ?c) (front ?c)"
    unfolding open_ok_def fr using aligned_line(2) [OF d4] d4 by auto
  ultimately show ?thesis by (simp add: caps_ok_def ids_ok_def)
qed

text \<open>
  A provider whose initial frontier is 128 modulo 256 has no line left for the node of the next expansion: its first
  allocation fails the assertion of \<^verbatim>\<open>__capid_captbl_check_expand\<close> that the frontier is not past the end of the range.
\<close>

lemma provider_frontier_fails:
  assumes "ps_ok (ae_ps E)" "compinfo_metacap s m = m" "cos_capfrontier_init m f s0 = Some s1" "infos s m = infos s1 m"
    "unat f \<le> 2 ^ 16" "unat f mod 256 = 128" "valid_cap cap" "ae_cpuid E < NUM_CPU"
  shows "capid_bump_alloc E m cap s = None"
proof -
  have f0: "0 < f" using assms(6) by (auto simp: word_less_nat_alt intro: gr0I)
  note st = capfrontier_start [OF assms(3) f0 assms(5)]
  have F: "128 \<le> unat f" using assms(6) mod_le_divisor [of 256 "unat f"] by (metis mod_less_eq_dividend)
  define q where "q = unat f div 256"
  have q: "unat f = 256 * q + 128" using assms(6) div_mult_mod_eq [of "unat f" 256] by (simp add: q_def)
  have "range_end (infos s m) = unat f" using st(3) assms(4) F by (simp add: start_end_def q)
  then have rg: "cp_caprange_frontier (infos s m) = f" "cp_cap_frontier (infos s m) = f"
    using st(2) assms(4) by (simp_all add: word_unat_eq_iff)
  have "\<not> f \<le> f - 4"
  proof -
    have "unat (f - 4) = unat f - 4" using F unat_sub [of 4 f] by (simp add: word_le_nat_alt)
    then show ?thesis using F by (simp add: word_le_nat_alt)
  qed
  then have no: "capid_captbl_check_expand alloc E m s = None" for alloc
    using assms(2) rg by (simp add: capid_captbl_check_expand_def ps_simps [OF assms(1)] Let_def CAPMAX_ENTRY_SZ_def ci_rd_def ci_words kassert_def)
  have z: "fst (class_word k) (infos s m) mod 4 = 0" if "class_valid k" for k
    using st(1) st(4) [of k] that assms(4) by (simp add: fr_def word_unat_eq_iff unat_mod)
  have "capid_bump_alloc_generic alloc E m (class_word k) sz s = None" if "class_valid k" for alloc k sz
    using z [OF that] no by (simp add: capid_bump_alloc_generic_def ci_rd_def CAPMAX_ENTRY_SZ_def)
  then show ?thesis
    using class_of_valid [OF assms(8)] capid_bump_step_class(1) [OF assms(7)] by (simp add: capid_bump_alloc_def)
qed

section \<open>Sequences of allocations\<close>

text \<open>Allocations on some core, for some component, of an identifier for some type of capability.\<close>

fun cap_allocs :: "api_env \<Rightarrow> (cpuid \<times> addr \<times> cap_t) list \<Rightarrow> (api_st, u32 list) kop" where
  "cap_allocs E [] s = Some ([], s)"
| "cap_allocs E ((i, ci, cap) # ops) s = do {
     (x, s) \<leftarrow> capid_bump_alloc (E\<lparr>ae_cpuid := i\<rparr>) ci cap s;
     (xs, s) \<leftarrow> cap_allocs E ops s;
     Some (x # xs, s)
   }"

text \<open>The identifiers that a component has got, the latest first.\<close>

fun handed :: "addr \<Rightarrow> (cpuid \<times> addr \<times> cap_t) list \<Rightarrow> u32 list \<Rightarrow> (u32 \<times> cap_class) list \<Rightarrow> (u32 \<times> cap_class) list" where
  "handed d ((i, ci, cap) # ops) (x # xs) L = handed d ops xs (if ci = d then (x, class_of i cap) # L else L)"
| "handed d _ _ L = L"

definition group_ok :: "addr \<Rightarrow> addr set \<Rightarrow> (addr \<Rightarrow> u32) \<Rightarrow> nat \<Rightarrow> (addr \<Rightarrow> (u32 \<times> cap_class) list) \<Rightarrow> api_st \<Rightarrow> bool" where
  "group_ok m D B r Lf s \<longleftrightarrow> m \<in> D \<and> 0 \<notin> D \<and>
     (\<forall>d\<in>D. compinfo_metacap s d = m \<and> caps_ok (unat (B d)) r (d = m) (Lf d) (infos s d))"

lemma group_step:
  assumes ps: "ps_ok (ae_ps E)" "accepts E" and mem: "mem_enough m (Suc (Suc n)) s" and g: "group_ok m D B (Suc r) Lf s"
    and op: "ci \<in> D" "valid_cap cap" "i < NUM_CPU"
  shows "\<exists>x s'. capid_bump_alloc (E\<lparr>ae_cpuid := i\<rparr>) ci cap s = Some (x, s') \<and> mem_enough m n s' \<and>
    group_ok m D B r (Lf(ci := (x, class_of i cap) # Lf ci)) s'"
proof -
  let ?E = "E\<lparr>ae_cpuid := i\<rparr>"
  have ps': "ps_ok (ae_ps ?E)" "accepts ?E" "ae_cpuid ?E < NUM_CPU" using ps op(3) by (simp_all add: accepts_def)
  have m: "compinfo_metacap s m = m" "m \<noteq> 0" "compinfo_metacap s ci = m" "ci \<noteq> 0" using g op(1) by (auto simp: group_ok_def)
  have caps: "caps_ok (unat (B d)) (Suc r) (d = m) (Lf d) (infos s d)" if "d \<in> D" for d using g that by (auto simp: group_ok_def)
  have mD: "m \<in> D" using g by (simp add: group_ok_def)
  have rest: "group_ok m D B r (Lf(ci := (x, class_of i cap) # Lf ci)) s'"
    if "frame {ci, m} s s'" "caps_ok (unat (B ci)) r (ci = m) ((x, class_of i cap) # Lf ci) (infos s' ci)"
      "ci \<noteq> m \<Longrightarrow> caps_ok (unat (B m)) r True (Lf m) (infos s' m)" for x s'
  proof -
    note post = that
    have "caps_ok (unat (B d)) r (d = m) ((Lf(ci := (x, class_of i cap) # Lf ci)) d) (infos s' d)" if d: "d \<in> D" for d
    proof -
      consider "d = ci" | "d \<noteq> ci" "d = m" | "d \<noteq> ci" "d \<noteq> m" by blast
      then show ?thesis
      proof cases
        case 3
        then have "infos s' d = infos s d" using \<open>frame {ci, m} s s'\<close> by (simp add: frame_def)
        then show ?thesis using 3 caps_ok_fewer [OF caps [OF d], of r] by simp
      qed (use post in auto)
    qed
    then show ?thesis using g post(1) by (auto simp: group_ok_def frame_def)
  qed
  show ?thesis
  proof (cases "ci = m")
    case True
    have mem': "mem_enough m (Suc n) s" using mem_enough_less [OF mem] by simp
    have ok: "caps_ok (unat (B m)) (Suc r) True (Lf m) (infos s m)" using caps [OF mD] by simp
    obtain x s' where "capid_bump_alloc ?E ci cap s = Some (x, s')" "caps_ok (unat (B m)) r True ((x, class_of i cap) # Lf m) (infos s' m)"
      "mem_enough m n s'" "frame {m} s s'"
      using step_own [OF ps'(1,2) mem' m(1,2) ok op(2) ps'(3), of "capid_bump_step (\<lambda>_ _ _. None) ?E"] True by (auto simp: capid_bump_alloc_def)
    then show ?thesis using rest [of s' x] True by auto
  next
    case False
    have ok: "caps_ok (unat (B ci)) (Suc r) False (Lf ci) (infos s ci)" "caps_ok (unat (B m)) (Suc r) True (Lf m) (infos s m)"
      using caps [OF mD] caps [OF op(1)] False by simp_all
    obtain x s' where "capid_bump_alloc ?E ci cap s = Some (x, s')" "caps_ok (unat (B ci)) r False ((x, class_of i cap) # Lf ci) (infos s' ci)"
      "mem_enough m n s'" "frame {ci, m} s s'" "caps_ok (unat (B m)) r True (Lf m) (infos s' m)"
      using step_child [OF ps'(1,2) mem m(1-3) False m(4) ok op(2) ps'(3), of "\<lambda>_ _ _. None"] by (auto simp: capid_bump_alloc_def)
    then show ?thesis using rest [of s' x] False by auto
  qed
qed

lemma cap_allocs_ok:
  assumes "ps_ok (ae_ps E)" "accepts E" "mem_enough m (2 * length ops) s" "group_ok m D B (length ops) Lf s"
    "\<forall>(i, ci, cap)\<in>set ops. i < NUM_CPU \<and> ci \<in> D \<and> valid_cap cap"
  shows "\<exists>xs s'. cap_allocs E ops s = Some (xs, s') \<and> length xs = length ops \<and> group_ok m D B 0 (\<lambda>d. handed d ops xs (Lf d)) s'"
  using assms
proof (induction ops arbitrary: s Lf)
  case (Cons op ops)
  obtain i ci cap where op: "op = (i, ci, cap)" by (cases op)
  obtain x s1 where s1: "capid_bump_alloc (E\<lparr>ae_cpuid := i\<rparr>) ci cap s = Some (x, s1)" "mem_enough m (2 * length ops) s1"
    "group_ok m D B (length ops) (Lf(ci := (x, class_of i cap) # Lf ci)) s1"
    using group_step [OF Cons.prems(1,2), of m "2 * length ops" s D B "length ops" Lf ci cap i] Cons.prems(3-5) op by auto
  from Cons.IH [OF Cons.prems(1,2) s1(2,3)] Cons.prems(5) obtain xs s' where
    xs: "cap_allocs E ops s1 = Some (xs, s')" "length xs = length ops" "group_ok m D B 0 (\<lambda>d. handed d ops xs ((Lf(ci := (x, class_of i cap) # Lf ci)) d)) s'"
    by auto
  moreover have "(\<lambda>d. handed d ops xs ((Lf(ci := (x, class_of i cap) # Lf ci)) d)) = (\<lambda>d. handed d (op # ops) (x # xs) (Lf d))"
    by (auto simp: op fun_eq_iff)
  ultimately show ?case using s1(1) by (intro exI [of _ "x # xs"] exI [of _ s']) (simp add: op)
qed simp

lemma caps_ok_ids:
  assumes "caps_ok B r own L c"
  shows "(x, k) \<in> set L \<Longrightarrow> id_ok B own (\<lambda>k. fr k c) (front c) (unat x) k"
    "(x, k) \<in> set L \<Longrightarrow> (y, j) \<in> set L \<Longrightarrow> unat x div 4 = unat y div 4 \<Longrightarrow> k = j" "distinct (map fst L)"
proof -
  have i: "\<forall>(x, k)\<in>set L. id_ok B own (\<lambda>k. fr k c) (front c) (unat x) k" "ids_ok L" using assms by (simp_all add: caps_ok_def)
  show "(x, k) \<in> set L \<Longrightarrow> id_ok B own (\<lambda>k. fr k c) (front c) (unat x) k" using i(1) by auto
  show "(x, k) \<in> set L \<Longrightarrow> (y, j) \<in> set L \<Longrightarrow> unat x div 4 = unat y div 4 \<Longrightarrow> k = j" "distinct (map fst L)"
    using i(2) by (auto simp: ids_ok_def)
qed

lemma id_line:
  fixes x :: nat
  assumes "class_size k dvd x" "x \<le> z" "z < x + class_size k" shows "z div 4 = x div 4" "z div class_size k * class_size k = x"
proof -
  obtain a where a: "x = class_size k * a" using assms(1) ..
  then have "z div class_size k = a" using assms(2,3) class_size_cases [of k] by (auto intro!: div_nat_eqI simp: algebra_simps)
  then show "z div class_size k * class_size k = x" by (simp add: a)
  have "class_size k * (4 div class_size k) = 4" using class_size_cases [of k] by auto
  then have "z div 4 = z div class_size k div (4 div class_size k)" "x div 4 = x div class_size k div (4 div class_size k)"
    by (metis div_mult2_eq)+
  moreover have "x div class_size k = a" using a class_size_cases [of k] by auto
  ultimately show "z div 4 = x div 4" using \<open>z div class_size k = a\<close> by simp
qed

lemma ids_disjoint:
  fixes x y :: nat
  assumes "class_size k dvd x" "class_size j dvd y" "x div 4 = y div 4 \<Longrightarrow> k = j" "x \<noteq> y"
  shows "{x..<x + class_size k} \<inter> {y..<y + class_size j} = {}"
proof (rule ccontr)
  assume "\<not> ?thesis"
  then obtain z where "z \<in> {x..<x + class_size k} \<inter> {y..<y + class_size j}" by blast
  then have z: "x \<le> z" "z < x + class_size k" "y \<le> z" "z < y + class_size j" by simp_all
  have "k = j" using id_line(1) [OF assms(1) z(1,2)] id_line(1) [OF assms(2) z(3,4)] assms(3) by simp
  then show False using id_line(2) [OF assms(1) z(1,2)] id_line(2) [OF assms(2) z(3,4)] assms(4) by simp
qed

text \<open>Identifiers of a component, given whether it provides its own resources and its initial frontier.\<close>

definition typed_ids :: "bool \<Rightarrow> u32 \<Rightarrow> (u32 \<times> cap_class) list \<Rightarrow> bool" where
  "typed_ids own b L \<longleftrightarrow> distinct (map fst L) \<and>
     (\<forall>(x, k)\<in>set L. b \<le> x \<and> class_size k dvd unat x \<and> (own \<longrightarrow> unat x div 4 mod 64 \<noteq> 31)) \<and>
     (\<forall>(x, k)\<in>set L. \<forall>(y, j)\<in>set L. (unat x div 4 = unat y div 4 \<longrightarrow> k = j) \<and>
        (x \<noteq> y \<longrightarrow> {unat x..<unat x + class_size k} \<inter> {unat y..<unat y + class_size j} = {}))"

lemma caps_ok_typed:
  assumes ok: "caps_ok (unat b) r own L c" shows "typed_ids own b L"
proof -
  note ids = caps_ok_ids [OF ok]
  have al: "b \<le> x \<and> class_size k dvd unat x \<and> (own \<longrightarrow> unat x div 4 mod 64 \<noteq> 31)" if "(x, k) \<in> set L" for x k
    using ids(1) [OF that] by (simp add: id_ok_def reserved_def word_le_nat_alt)
  have "{unat x..<unat x + class_size k} \<inter> {unat y..<unat y + class_size j} = {}" if xy: "(x, k) \<in> set L" "(y, j) \<in> set L" "x \<noteq> y" for x k y j
  proof (rule ids_disjoint)
    show "class_size k dvd unat x" "class_size j dvd unat y" using al [OF xy(1)] al [OF xy(2)] by simp_all
    show "k = j" if "unat x div 4 = unat y div 4" by (rule ids(2) [OF xy(1,2) that])
    show "unat x \<noteq> unat y" using xy(3) by (simp add: word_unat_eq_iff)
  qed
  then have pair: "(unat x div 4 = unat y div 4 \<longrightarrow> k = j) \<and> (x \<noteq> y \<longrightarrow> {unat x..<unat x + class_size k} \<inter> {unat y..<unat y + class_size j} = {})"
    if "(x, k) \<in> set L" "(y, j) \<in> set L" for x k y j using ids(2) [OF that] that by blast
  show ?thesis unfolding typed_ids_def
  proof (intro conjI ballI)
    show "distinct (map fst L)" by (rule ids(3))
    show "case p of (x, k) \<Rightarrow> b \<le> x \<and> class_size k dvd unat x \<and> (own \<longrightarrow> unat x div 4 mod 64 \<noteq> 31)" if "p \<in> set L" for p
      using al [of "fst p" "snd p"] that by (simp add: split_beta)
    show "case p of (x, k) \<Rightarrow> \<forall>(y, j)\<in>set L. (unat x div 4 = unat y div 4 \<longrightarrow> k = j) \<and>
        (x \<noteq> y \<longrightarrow> {unat x..<unat x + class_size k} \<inter> {unat y..<unat y + class_size j} = {})" if "p \<in> set L" for p
    proof (cases p)
      case (Pair x k)
      then have "(x, k) \<in> set L" using that by simp
      from pair [OF this] show ?thesis unfolding Pair prod.case by (intro ballI case_prodI2) blast
    qed
  qed
qed

text \<open>
  C4. The capability identifiers that components get from one resource provider are well typed for the capability tables of
  the kernel, for any sequence of allocations of any types, on any cores, by any of the components.  Each component starts as
  \<^verbatim>\<open>cos_capfrontier_init\<close> leaves it, with an initial frontier between 1 and \<open>2 ^ 16\<close>; that of the provider is not 128
  modulo 256, for there its first allocation fails an assertion (\<open>provider_frontier_fails\<close>).  Then the allocations succeed while
  the kernel accepts the calls and the provider, which starts with fresh memory, has two pages for each, and the
  identifiers of a component are aligned to their size, do not overlap, are not below the initial frontier, and share
  a cache-line only if they have the same size and, for the small sizes, were allocated on the same core.  The
  provider never hands out the slots that hold the nodes of its own table.
\<close>

theorem capids_typed:
  assumes "ps_ok (ae_ps E)" "accepts E" "m \<in> D" "0 \<notin> D" "\<forall>d\<in>D. compinfo_metacap s d = m"
    "\<forall>d\<in>D. \<exists>s0 s1. cos_capfrontier_init d (B d) s0 = Some s1 \<and> infos s d = infos s1 d"
    "\<forall>d\<in>D. 0 < B d \<and> unat (B d) \<le> 2 ^ 16" "unat (B m) mod 256 \<noteq> 128"
    "cp_mi (infos s m) = cos_meminfo_init u (of_nat n * PAGE_SIZE) pt" "0 < u" "u mod PAGE_SIZE = 0" "unat u + n * 4096 < 2 ^ 32"
    "2 * length ops \<le> n" "\<forall>(i, ci, cap)\<in>set ops. i < NUM_CPU \<and> ci \<in> D \<and> captbl_cap2sz cap \<noteq> CAP_SZ_ERR"
  shows "\<exists>xs s'. cap_allocs E ops s = Some (xs, s') \<and> length xs = length ops \<and>
    (\<forall>d\<in>D. typed_ids (d = m) (B d) (handed d ops xs []))"
proof -
  have m: "m \<noteq> 0" "compinfo_metacap s m = m" using assms(3-5) by auto
  have "mem_ok m u n 0 0 s" using assms(9-12) m by (simp add: mem_ok_def Let_def cos_meminfo_init_def)
  then have mem: "mem_enough m (2 * length ops) s" using assms(13) m(2) by (auto simp: mem_enough_def mem_left_def)
  have len: "length ops < 2 ^ 23" using assms(12,13) by simp
  have "caps_ok (unat (B d)) (length ops) (d = m) [] (infos s d)" if d: "d \<in> D" for d
  proof -
    obtain s0 s1 where "cos_capfrontier_init d (B d) s0 = Some s1" "infos s d = infos s1 d" using assms(6) d by blast
    then show ?thesis using caps_start [of d "B d" s0 s1 "d = m" "length ops"] assms(7,8) d len by auto
  qed
  then have g: "group_ok m D B (length ops) (\<lambda>d. []) s" using assms(3-5) by (simp add: group_ok_def)
  have v: "\<forall>(i, ci, cap)\<in>set ops. i < NUM_CPU \<and> ci \<in> D \<and> valid_cap cap" using assms(14) by (simp add: valid_cap_def)
  obtain xs s' where xs: "cap_allocs E ops s = Some (xs, s')" "length xs = length ops" "group_ok m D B 0 (\<lambda>d. handed d ops xs []) s'"
    using cap_allocs_ok [OF assms(1,2) mem g v] by blast
  have "typed_ids (d = m) (B d) (handed d ops xs [])" if "d \<in> D" for d
    using xs(3) that by (intro caps_ok_typed) (auto simp: group_ok_def)
  then show ?thesis using xs(1,2) by blast
qed

lemma ex_cap_start:
  "\<exists>s1. cos_capfrontier_init d 0xB0 (ex_api_st n) = Some s1 \<and> infos (ex_api_st n) d = infos s1 d"
  by (simp add: cos_capfrontier_init_def ex_api_st_def ex_info_def CAPMAX_ENTRY_SZ_def CAPTBL_EXPAND_SZ_def round_up_to_pow2_def
    round_to_pow2_def fun_eq_iff)

theorem capids_typed_witness:
  "\<exists>xs s'. cap_allocs ex_api [(0, 0x1000, CAP_THD), (0, 0x2000, CAP_COMP), (1, 0x1000, CAP_THD), (0, 0x1000, CAP_CAPTBL)] (ex_api_st 8) = Some (xs, s') \<and>
     length xs = 4 \<and>
     typed_ids True 0xB0 (handed 0x1000 [(0, 0x1000, CAP_THD), (0, 0x2000, CAP_COMP), (1, 0x1000, CAP_THD), (0, 0x1000, CAP_CAPTBL)] xs []) \<and>
     typed_ids False 0xB0 (handed 0x2000 [(0, 0x1000, CAP_THD), (0, 0x2000, CAP_COMP), (1, 0x1000, CAP_THD), (0, 0x1000, CAP_CAPTBL)] xs [])"
proof -
  let ?ops = "[(0, 0x1000, CAP_THD), (0, 0x2000, CAP_COMP), (1, 0x1000, CAP_THD), (0, 0x1000, CAP_CAPTBL)] :: (cpuid \<times> addr \<times> cap_t) list"
  have "\<exists>xs s'. cap_allocs ex_api ?ops (ex_api_st 8) = Some (xs, s') \<and> length xs = length ?ops \<and>
    (\<forall>d\<in>{0x1000, 0x2000}. typed_ids (d = 0x1000) 0xB0 (handed d ?ops xs []))"
  proof (rule capids_typed [OF ex_ps_ok])
    show "\<forall>d\<in>{0x1000, 0x2000}. \<exists>s0 s1. cos_capfrontier_init d 0xB0 s0 = Some s1 \<and> infos (ex_api_st 8) d = infos s1 d"
      using ex_cap_start by blast
    show "cp_mi (infos (ex_api_st 8) 0x1000) = cos_meminfo_init 0x80000000 (of_nat 8 * PAGE_SIZE) 16"
      by (simp add: ex_api_st_def ex_info_def)
  qed (simp_all add: accepts_def ex_api_def ex_api_st_def ex_info_def compinfo_metacap_def NUM_CPU_def)
  then show ?thesis by auto
qed

end
