(* ===== verification/Tcap_Inv.thy ===== *)
theory Tcap_Inv
  imports Tcap "HOL-Library.Extended_Nat"
begin

text \<open>
  What the temporal capabilities promise: the delegation loop builds the merge of two chains, the
  priority comparison agrees with the maps the chains stand for, budgets are conserved, and the active
  list of a core holds the tcaps that have a budget.
\<close>

section \<open>Delegation chains\<close>

text \<open>
  The delegations of a tcap as a list, and as a map from scheduler identifiers to priorities.  They are
  kept in the order of the identifiers, which the two loops above rely on.
\<close>

definition delegs :: "tcap \<Rightarrow> tcap_sched_info list" where
  "delegs t = map (delegations t) [0..<ndelegs t]"

definition deleg_wf :: "tcap \<Rightarrow> bool" where
  "deleg_wf t \<longleftrightarrow> sorted_wrt (<) (map tcap_uid (delegs t)) \<and> curr_sched_off t < ndelegs t \<and>
     ndelegs t \<le> TCAP_MAX_DELEGATIONS"

definition prio_map :: "tcap_sched_info list \<Rightarrow> u64 \<rightharpoonup> u64" where
  "prio_map ds = map_of (map (\<lambda>e. (tcap_uid e, prio e)) ds)"

definition deleg_map :: "tcap \<Rightarrow> u64 \<rightharpoonup> u64" where
  "deleg_map t = prio_map (delegs t)"

text \<open>
  The reference definition of the merge: a scheduler known to one of the tcaps keeps its priority, one
  known to both takes the numerically greater, that is the lower one.
\<close>

fun merge_delegs :: "tcap_sched_info list \<Rightarrow> tcap_sched_info list \<Rightarrow> tcap_sched_info list" where
  "merge_delegs [] ss = ss"
| "merge_delegs (d # ds) [] = d # ds"
| "merge_delegs (d # ds) (s # ss) =
     (if tcap_uid d < tcap_uid s then d # merge_delegs ds (s # ss)
      else if tcap_uid s < tcap_uid d then s # merge_delegs (d # ds) ss
      else s\<lparr>prio := max (prio d) (prio s)\<rparr> # merge_delegs ds ss)"

fun max_opt :: "u64 option \<Rightarrow> u64 option \<Rightarrow> u64 option" where
  "max_opt None b = b"
| "max_opt a None = a"
| "max_opt (Some a) (Some b) = Some (max a b)"

lemma max_opt_None [simp]: "max_opt a None = a" by (cases a) auto

lemma merge_delegs_Nil [simp]: "merge_delegs ds [] = ds" by (cases ds) auto

lemma delegs_length [simp]: "length (delegs t) = ndelegs t" by (simp add: delegs_def)

lemma delegs_nth [simp]: "i < ndelegs t \<Longrightarrow> delegs t ! i = delegations t i" by (simp add: delegs_def)

lemma drop_delegs: "i < ndelegs t \<Longrightarrow> drop i (delegs t) = delegations t i # drop (i + 1) (delegs t)"
  using Cons_nth_drop_Suc [of i "delegs t"] by simp

lemma drop_delegs_set [simp]: "i < k \<Longrightarrow> drop k (delegs (set_deleg i n t)) = drop k (delegs t)"
  by (intro nth_equalityI) (auto simp: delegs_def)

lemma merge_uids: "set (map tcap_uid (merge_delegs ds ss)) = set (map tcap_uid ds) \<union> set (map tcap_uid ss)"
  by (induction ds ss rule: merge_delegs.induct) auto

lemma merge_above:
  "(\<forall>e\<in>set (merge_delegs ds ss). u < tcap_uid e) \<longleftrightarrow>
     (\<forall>e\<in>set ds. u < tcap_uid e) \<and> (\<forall>e\<in>set ss. u < tcap_uid e)"
  by (induction ds ss rule: merge_delegs.induct) auto

lemma merge_sorted:
  assumes "sorted_wrt (<) (map tcap_uid ds)" "sorted_wrt (<) (map tcap_uid ss)"
  shows "sorted_wrt (<) (map tcap_uid (merge_delegs ds ss))"
  using assms
proof (induction ds ss rule: merge_delegs.induct)
  case (3 d ds s ss)
  consider "tcap_uid d < tcap_uid s" | "tcap_uid s < tcap_uid d" | "tcap_uid s = tcap_uid d" by fastforce
  then show ?case
    using 3 by cases (auto simp: merge_above intro: less_trans)
qed auto

lemma prio_map_Cons [simp]: "prio_map (e # ds) = (prio_map ds)(tcap_uid e \<mapsto> prio e)"
  by (simp add: prio_map_def)

lemma prio_map_Nil [simp]: "prio_map [] = Map.empty" by (simp add: prio_map_def)

lemma prio_map_above: "\<forall>e\<in>set ds. u < tcap_uid e \<Longrightarrow> prio_map ds u = None"
  by (induction ds) auto

lemma prio_map_merge:
  assumes "sorted_wrt (<) (map tcap_uid ds)" "sorted_wrt (<) (map tcap_uid ss)"
  shows "prio_map (merge_delegs ds ss) u = max_opt (prio_map ds u) (prio_map ss u)"
  using assms
proof (induction ds ss rule: merge_delegs.induct)
  case (3 d ds s ss)
  consider "tcap_uid d < tcap_uid s" | "tcap_uid s < tcap_uid d" | "tcap_uid s = tcap_uid d" by fastforce
  then show ?case
  proof cases
    case 1
    have "\<forall>e\<in>set (s # ss). tcap_uid d < tcap_uid e" using 1 "3.prems" by (auto intro: less_trans)
    then have "prio_map (s # ss) (tcap_uid d) = None" by (rule prio_map_above)
    then show ?thesis using 1 3 by auto
  next
    case 2
    have "\<forall>e\<in>set (d # ds). tcap_uid s < tcap_uid e" using 2 "3.prems" by (auto intro: less_trans)
    then have "prio_map (d # ds) (tcap_uid s) = None" by (rule prio_map_above)
    then show ?thesis using 2 3 by auto
  next
    case 3
    then show ?thesis using "3.IH" "3.prems" by (auto simp: max_def)
  qed
qed auto

text \<open>
  The loop leaves the two tcaps as they were but for priorities of the source's scheduler, and builds
  the reference merge with that priority set.
\<close>

definition prio_written :: "u64 \<Rightarrow> u64 \<Rightarrow> tcap \<Rightarrow> tcap \<Rightarrow> bool" where
  "prio_written suid p t t' \<longleftrightarrow>
     (\<exists>f. t' = t\<lparr>delegations := f\<rparr> \<and> (\<forall>i. f i = delegations t i \<or> f i = deleg_pick suid p (delegations t i)))"

lemma deleg_pick_sel [simp]:
  "tcap_uid (deleg_pick suid p e) = tcap_uid e"
  "deleg_pick suid p (deleg_pick suid p e) = deleg_pick suid p e"
  by (simp_all add: deleg_pick_def)

lemma prio_written_refl [simp]: "prio_written suid p t t"
  unfolding prio_written_def by (rule exI [of _ "delegations t"]) simp

lemma prio_written_set_deleg [simp]: "prio_written suid p t (set_deleg i (deleg_pick suid p (delegations t i)) t)"
  unfolding prio_written_def set_deleg_def
  by (rule exI [of _ "(delegations t)(i := deleg_pick suid p (delegations t i))"]) simp

lemma prio_written_trans:
  assumes "prio_written suid p t u" "prio_written suid p u v" shows "prio_written suid p t v"
proof -
  obtain f where f: "u = t\<lparr>delegations := f\<rparr>" "\<forall>i. f i = delegations t i \<or> f i = deleg_pick suid p (delegations t i)"
    using assms(1) unfolding prio_written_def by blast
  obtain g where g: "v = u\<lparr>delegations := g\<rparr>" "\<forall>i. g i = f i \<or> g i = deleg_pick suid p (f i)"
    using assms(2) f(1) unfolding prio_written_def by auto
  have "g i = delegations t i \<or> g i = deleg_pick suid p (delegations t i)" for i
    using f(2) g(2) by (metis deleg_pick_sel(2))
  then show ?thesis using f(1) g(1) unfolding prio_written_def by auto
qed

lemma prio_written_fields:
  assumes "prio_written suid p t t'"
  shows "arcv_ep t' = arcv_ep t" "tc_refcnt t' = tc_refcnt t" "budget t' = budget t" "ndelegs t' = ndelegs t"
    "curr_sched_off t' = curr_sched_off t" "tc_cpuid t' = tc_cpuid t" "perm_prio t' = perm_prio t"
    "map tcap_uid (delegs t') = map tcap_uid (delegs t)" "tcap_uid (delegations t' i) = tcap_uid (delegations t i)"
proof -
  obtain f where t': "t' = t\<lparr>delegations := f\<rparr>" "\<forall>i. f i = delegations t i \<or> f i = deleg_pick suid p (delegations t i)"
    using assms unfolding prio_written_def by blast
  show "arcv_ep t' = arcv_ep t" "tc_refcnt t' = tc_refcnt t" "budget t' = budget t" "ndelegs t' = ndelegs t"
    "curr_sched_off t' = curr_sched_off t" "tc_cpuid t' = tc_cpuid t" "perm_prio t' = perm_prio t" by (simp_all add: t')
  have uid: "tcap_uid (delegations t' k) = tcap_uid (delegations t k)" for k
    using spec [OF t'(2), of k] by (auto simp: t'(1))
  then show "tcap_uid (delegations t' i) = tcap_uid (delegations t i)" .
  from uid show "map tcap_uid (delegs t') = map tcap_uid (delegs t)" by (simp add: delegs_def t')
qed

lemma prio_written_wf: "prio_written suid p t t' \<Longrightarrow> deleg_wf t' \<longleftrightarrow> deleg_wf t"
  by (simp add: deleg_wf_def prio_written_fields)

lemma deleg_step_merge:
  assumes "deleg_step suid p D S i j = (n, D', S', i', j')" "i < ndelegs D \<or> j < ndelegs S"
    "i \<le> ndelegs D" "j \<le> ndelegs S"
  shows "map (deleg_pick suid p) (merge_delegs (drop i (delegs D)) (drop j (delegs S))) =
      n # map (deleg_pick suid p) (merge_delegs (drop i' (delegs D')) (drop j' (delegs S')))"
    "prio_written suid p D D'" "prio_written suid p S S'" "i' \<le> ndelegs D'" "j' \<le> ndelegs S'"
    "(ndelegs D' - i') + (ndelegs S' - j') < (ndelegs D - i) + (ndelegs S - j)"
proof -
  have max: "(if prio S < prio D then S\<lparr>prio := prio D\<rparr> else S) = S\<lparr>prio := max (prio D) (prio S)\<rparr>" for D S
    by (simp add: max_def)
  consider "ndelegs D \<le> i" "j < ndelegs S" | "i < ndelegs D" "ndelegs S \<le> j"
    | "i < ndelegs D" "j < ndelegs S" "tcap_uid (delegations D i) < tcap_uid (delegations S j)"
    | "i < ndelegs D" "j < ndelegs S" "tcap_uid (delegations S j) < tcap_uid (delegations D i)"
    | "i < ndelegs D" "j < ndelegs S" "tcap_uid (delegations S j) = tcap_uid (delegations D i)"
    using assms(2) by fastforce
  then have "map (deleg_pick suid p) (merge_delegs (drop i (delegs D)) (drop j (delegs S))) =
      n # map (deleg_pick suid p) (merge_delegs (drop i' (delegs D')) (drop j' (delegs S'))) \<and>
    prio_written suid p D D' \<and> prio_written suid p S S' \<and> i' \<le> ndelegs D' \<and> j' \<le> ndelegs S' \<and>
    (ndelegs D' - i') + (ndelegs S' - j') < (ndelegs D - i) + (ndelegs S - j)"
    using assms(1,3,4)
    by cases (simp_all add: deleg_step_def Let_def drop_delegs max, auto simp: Let_def drop_delegs)
  then show "map (deleg_pick suid p) (merge_delegs (drop i (delegs D)) (drop j (delegs S))) =
      n # map (deleg_pick suid p) (merge_delegs (drop i' (delegs D')) (drop j' (delegs S')))"
    "prio_written suid p D D'" "prio_written suid p S S'" "i' \<le> ndelegs D'" "j' \<le> ndelegs S'"
    "(ndelegs D' - i') + (ndelegs S' - j') < (ndelegs D - i) + (ndelegs S - j)" by blast+
qed

text \<open>The result of the loop: the merge if it fits into the array, else the error.\<close>

lemma deleg_loop_merge:
  assumes "i \<le> ndelegs D" "j \<le> ndelegs S" "length tmp \<le> TCAP_MAX_DELEGATIONS"
    and "\<forall>e\<in>set tmp. tcap_uid e = duid \<longrightarrow> (\<exists>k<length tmp. si = Some k \<and> tcap_uid (tmp ! k) = duid)"
    and "m = map (deleg_pick suid p) (merge_delegs (drop i (delegs D)) (drop j (delegs S)))"
  shows "\<exists>D' S'. prio_written suid p D D' \<and> prio_written suid p S S' \<and>
    (if length (tmp @ m) \<le> TCAP_MAX_DELEGATIONS
     then \<exists>si'. deleg_loop duid suid p D S i j tmp si = (0, D', S', tmp @ m, si') \<and>
       (\<forall>e\<in>set (tmp @ m). tcap_uid e = duid \<longrightarrow>
          (\<exists>k<length (tmp @ m). si' = Some k \<and> tcap_uid ((tmp @ m) ! k) = duid))
     else \<exists>tmp' si'. deleg_loop duid suid p D S i j tmp si = (- ENOMEM, D', S', tmp', si'))"
  using assms
proof (induction "(ndelegs D - i) + (ndelegs S - j)" arbitrary: D S i j tmp si m rule: less_induct)
  case less
  show ?case
  proof (cases "i < ndelegs D \<or> j < ndelegs S")
    case False
    then have "m = []" using less.prems(1,2,5) by simp
    then show ?thesis using False less.prems(3,4)
      by (intro exI [of _ D] exI [of _ S]) (simp add: deleg_loop.simps [of _ _ _ D S])
  next
    case True
    obtain n D1 S1 i1 j1 where st: "deleg_step suid p D S i j = (n, D1, S1, i1, j1)" by (metis prod_cases5)
    note sp = deleg_step_merge [OF st True less.prems(1,2)]
    define m1 where "m1 = map (deleg_pick suid p) (merge_delegs (drop i1 (delegs D1)) (drop j1 (delegs S1)))"
    have m: "m = n # m1" using sp(1) less.prems(5) by (simp add: m1_def)
    show ?thesis
    proof (cases "length tmp = TCAP_MAX_DELEGATIONS")
      case full: True
      then show ?thesis using True sp m
        by (intro exI [of _ D1] exI [of _ S1]) (simp add: deleg_loop.simps [of _ _ _ D S] st)
    next
      case False
      define si1 where "si1 = (if duid = tcap_uid n then Some (length tmp) else si)"
      have loop: "deleg_loop duid suid p D S i j tmp si = deleg_loop duid suid p D1 S1 i1 j1 (tmp @ [n]) si1"
        using True False by (subst deleg_loop.simps) (simp add: st si1_def)
      have "\<forall>e\<in>set (tmp @ [n]). tcap_uid e = duid \<longrightarrow>
          (\<exists>k<length (tmp @ [n]). si1 = Some k \<and> tcap_uid ((tmp @ [n]) ! k) = duid)"
        using less.prems(4) by (auto simp: si1_def nth_append intro: less_SucI)
      then obtain D' S' where IH: "prio_written suid p D1 D'" "prio_written suid p S1 S'"
        "if length ((tmp @ [n]) @ m1) \<le> TCAP_MAX_DELEGATIONS
         then \<exists>si'. deleg_loop duid suid p D1 S1 i1 j1 (tmp @ [n]) si1 = (0, D', S', (tmp @ [n]) @ m1, si') \<and>
           (\<forall>e\<in>set ((tmp @ [n]) @ m1). tcap_uid e = duid \<longrightarrow>
              (\<exists>k<length ((tmp @ [n]) @ m1). si' = Some k \<and> tcap_uid (((tmp @ [n]) @ m1) ! k) = duid))
         else \<exists>tmp' si'. deleg_loop duid suid p D1 S1 i1 j1 (tmp @ [n]) si1 = (- ENOMEM, D', S', tmp', si')"
        using less.hyps [OF sp(6,4,5) _ _ m1_def, of "tmp @ [n]" si1] False less.prems(3) by auto
      have "prio_written suid p D D'" "prio_written suid p S S'"
        using IH(1,2) sp(2,3) by (blast intro: prio_written_trans)+
      moreover have "tmp @ m = (tmp @ [n]) @ m1" by (simp add: m)
      ultimately show ?thesis using IH(3) unfolding loop by metis
    qed
  qed
qed

section \<open>Budgets and the active list\<close>

text \<open>
  The active list of core \<open>c\<close> holds the tcaps of \<open>T\<close> with a budget left, whose budgets are \<open>B\<close>.
\<close>

definition active_list :: "lref lheap \<Rightarrow> cpuid \<Rightarrow> addr set \<Rightarrow> (addr \<Rightarrow> u32) \<Rightarrow> bool" where
  "active_list h c T B \<longleftrightarrow>
     (\<exists>ts. klist h (LTcaps c) (map LActive ts) \<and> set ts = {t \<in> T. B t \<noteq> 0}) \<and>
     (\<forall>t\<in>T. t \<noteq> 0 \<and> container (h (LActive t)) = t \<and> (B t = 0 \<longrightarrow> detached h (LActive t)))"

lemma active_listI:
  assumes "klist h (LTcaps c) (map LActive ts)" "set ts = {t \<in> T. B t \<noteq> 0}"
    "\<forall>t\<in>T. t \<noteq> 0 \<and> container (h (LActive t)) = t \<and> (B t = 0 \<longrightarrow> detached h (LActive t))"
  shows "active_list h c T B"
  using assms unfolding active_list_def by blast

lemma active_list_empty:
  assumes "active_list h c T B" "t \<in> T"
  shows "list_empty h (LActive t) \<longleftrightarrow> B t = 0"
proof (cases "B t = 0")
  case True
  then show ?thesis using assms by (simp add: active_list_def detached_def list_empty_def)
next
  case False
  obtain ts where "klist h (LTcaps c) (map LActive ts)" "set ts = {t \<in> T. B t \<noteq> 0}"
    using assms(1) by (auto simp: active_list_def)
  then have "\<not> list_empty h (LActive t)" using assms(2) False by (intro klist_member) auto
  then show ?thesis using False by simp
qed

lemma active_list_keep:
  assumes "active_list h c T B" "B t \<noteq> 0" "b \<noteq> 0" shows "active_list h c T (B(t := b))"
proof -
  have "{u \<in> T. (B(t := b)) u \<noteq> 0} = {u \<in> T. B u \<noteq> 0}" using assms(2,3) by auto
  then show ?thesis using assms unfolding active_list_def by simp
qed

lemma active_list_cong:
  assumes "active_list h c T B" "\<forall>t\<in>T. B' t = B t" shows "active_list h c T B'"
proof -
  have "{t \<in> T. B' t \<noteq> 0} = {t \<in> T. B t \<noteq> 0}" using assms(2) by auto
  then show ?thesis using assms unfolding active_list_def by simp
qed

lemma active_list_add:
  assumes "active_list h c T B" "src \<in> T" "B src \<noteq> 0" "d \<in> T" "B d = 0" "b \<noteq> 0"
  shows "active_list (list_add_before (LActive src) (LActive d) h) c T (B(d := b))"
proof -
  let ?h = "list_add_before (LActive src) (LActive d) h"
  obtain ts where ts: "klist h (LTcaps c) (map LActive ts)" "set ts = {t \<in> T. B t \<noteq> 0}"
    using assms(1) by (auto simp: active_list_def)
  obtain xs ys where sp: "ts = xs @ src # ys" using assms(2,3) ts(2) split_list [of src ts] by auto
  have "LActive d \<notin> set (LTcaps c # map LActive xs @ LActive src # map LActive ys)"
    using ts(2) assms(5) sp by auto
  moreover have "container (h (LActive d)) \<noteq> 0" using assms(1,4) by (auto simp: active_list_def)
  ultimately have k: "klist ?h (LTcaps c) (map LActive (xs @ d # src # ys))"
    using list_add_before_klist [of h "LTcaps c" "map LActive xs" "LActive src" "map LActive ys" "LActive d"] ts(1) sp
    by simp
  have "ln_prev (h (LActive src)) = last (LTcaps c # map LActive xs)"
    using ts(1) sp chain_last [of h "LTcaps c" "map LActive xs" "LActive src"] by (simp add: klist_def chain_append)
  moreover have "last (LTcaps c # map LActive xs) \<in> set (LTcaps c # map LActive xs)" by (rule last_in_set) simp
  ultimately have pv: "ln_prev (h (LActive src)) \<in> insert (LTcaps c) (LActive ` set ts)" using sp by auto
  have "?h (LActive t) = h (LActive t)" if "t \<in> T" "t \<noteq> d" "B t = 0" for t
  proof -
    have "LActive t \<notin> insert (LTcaps c) (LActive ` set ts)" using that ts(2) by auto
    then have "LActive t \<noteq> ln_prev (h (LActive src))" using pv by metis
    moreover have "t \<noteq> src" using that assms(3) by auto
    ultimately show ?thesis using that(2) by (intro list_add_before_frame) simp_all
  qed
  then have "\<forall>t\<in>T. t \<noteq> 0 \<and> container (?h (LActive t)) = t \<and> ((B(d := b)) t = 0 \<longrightarrow> detached ?h (LActive t))"
    using assms(1,6) by (simp add: active_list_def detached_def)
  moreover have "set (xs @ d # src # ys) = insert d (set ts)" using sp by auto
  moreover have "{t \<in> T. (B(d := b)) t \<noteq> 0} = insert d {t \<in> T. B t \<noteq> 0}" using assms(4,6) by auto
  ultimately show ?thesis using ts(2) by - (rule active_listI [OF k], simp_all)
qed

lemma list_rem_detached: "detached h n \<Longrightarrow> list_rem n h = h"
  by (rule ext) (simp add: detached_def list_rem_def Let_def set_next_def set_prev_def)

lemma active_list_rem:
  assumes "active_list h c T B" "t \<in> T"
  shows "active_list (list_rem (LActive t) h) c T (B(t := 0))"
proof (cases "B t = 0")
  case True
  then have "detached h (LActive t)" using assms by (auto simp: active_list_def)
  then show ?thesis using assms(1) True by (simp add: list_rem_detached fun_upd_idem)
next
  case False
  let ?h = "list_rem (LActive t) h"
  obtain ts where ts: "klist h (LTcaps c) (map LActive ts)" "set ts = {t \<in> T. B t \<noteq> 0}"
    using assms(1) by (auto simp: active_list_def)
  obtain xs ys where sp: "ts = xs @ t # ys" using assms(2) False ts(2) split_list [of t ts] by auto
  have k: "klist ?h (LTcaps c) (map LActive (xs @ ys))" and det: "detached ?h (LActive t)"
    using list_rem_klist [of h "LTcaps c" "map LActive xs" "LActive t" "map LActive ys"] ts(1) sp by simp_all
  have c: "chain h (LTcaps c) (map LActive xs) (LActive t)" "chain h (LActive t) (map LActive ys) (LTcaps c)"
    using ts(1) sp by (simp_all add: klist_def chain_append)
  have pv: "ln_prev (h (LActive t)) \<in> insert (LTcaps c) (LActive ` set ts)"
    using chain_last [OF c(1)] last_in_set [of "LTcaps c # map LActive xs"] sp by auto
  have nx: "ln_next (h (LActive t)) \<in> insert (LTcaps c) (LActive ` set ts)"
    using c(2) sp by (cases ys) auto
  have "?h (LActive u) = h (LActive u)" if "u \<in> T" "u \<noteq> t" "B u = 0" for u
  proof -
    have "LActive u \<notin> insert (LTcaps c) (LActive ` set ts)" using that ts(2) by auto
    then have "LActive u \<noteq> ln_prev (h (LActive t))" "LActive u \<noteq> ln_next (h (LActive t))" using pv nx by metis+
    then show ?thesis using that(2) by (intro list_rem_frame) simp_all
  qed
  then have "\<forall>u\<in>T. u \<noteq> 0 \<and> container (?h (LActive u)) = u \<and> ((B(t := 0)) u = 0 \<longrightarrow> detached ?h (LActive u))"
    using assms(1) det by (simp add: active_list_def detached_def)
  moreover have "distinct ts" using ts(1) by (simp add: klist_def distinct_map)
  then have "set (xs @ ys) = set ts - {t}" using sp by auto
  moreover have "{u \<in> T. (B(t := 0)) u \<noteq> 0} = {u \<in> T. B u \<noteq> 0} - {t}" by auto
  ultimately show ?thesis using ts(2) by - (rule active_listI [OF k], simp_all)
qed

text \<open>
  The cycles a transfer moves, the budgets it leaves, and the change of the active list.  The amount
  is infinite only if the source's budget is.
\<close>

definition xfer_amount :: "u32 \<Rightarrow> u32 \<Rightarrow> u32" where
  "xfer_amount cycles bs = (if cycles = 0 \<or> bs < cycles then bs else cycles)"

definition credit :: "u32 \<Rightarrow> u32 \<Rightarrow> u32" where
  "credit bd n = (if n = TCAP_RES_INF \<or> bd = TCAP_RES_INF then TCAP_RES_INF
     else if unat bd + unat n < 2 ^ 32 - 1 then bd + n else TCAP_RES_MAX)"

definition debit :: "u32 \<Rightarrow> u32 \<Rightarrow> u32" where
  "debit bs n = (if bs = TCAP_RES_INF then bs else bs - n)"

definition relink :: "addr \<Rightarrow> addr \<Rightarrow> u32 \<Rightarrow> lref lheap \<Rightarrow> lref lheap" where
  "relink d src bs h =
     (let h = (if list_empty h (LActive d) then list_add_before (LActive src) (LActive d) h else h)
      in if bs = 0 then list_rem (LActive src) h else h)"

definition set_budgets :: "addr \<Rightarrow> u32 \<Rightarrow> addr \<Rightarrow> u32 \<Rightarrow> (addr \<Rightarrow> tcap) \<Rightarrow> addr \<Rightarrow> tcap" where
  "set_budgets d bd src bs tc = tc(d := (tc d)\<lparr>budget := bd\<rparr>, src := (tc src)\<lparr>budget := bs\<rparr>)"

lemma sat_add_eq:
  "(if bd + n < bd \<or> TCAP_RES_IS_INF (bd + n) then TCAP_RES_MAX else bd + n) = credit bd n"
  if "n \<noteq> TCAP_RES_INF" "bd \<noteq> TCAP_RES_INF"
proof -
  have "bd + n < bd \<or> bd + n = - 1 \<longleftrightarrow> \<not> unat bd + unat n < 2 ^ 32 - 1"
  proof (cases "unat bd + unat n < 2 ^ 32")
    case True
    then have "unat (bd + n) = unat bd + unat n" by (simp add: unat_word_ariths)
    moreover have "unat (- 1 :: u32) = 2 ^ 32 - 1" by (simp add: unsigned_minus_1_eq_mask mask_eq_exp_minus_1)
    ultimately show ?thesis using True by (auto simp: word_less_nat_alt word_unat_eq_iff)
  next
    case False
    then have "unat (bd + n) = unat bd + unat n - 2 ^ 32"
      using unsigned_less [of bd, where ?'a = nat] unsigned_less [of n, where ?'a = nat] by (simp add: unat_word_ariths mod_if)
    moreover have "unat n < 2 ^ 32" using unsigned_less [of n, where ?'a = nat] by simp
    ultimately have "bd + n < bd" using False by (simp add: word_less_nat_alt)
    then show ?thesis using False by simp
  qed
  then show ?thesis using that by (auto simp: credit_def TCAP_RES_IS_INF_def TCAP_RES_INF_def)
qed

lemma set_budget_noop: "budget (tc t) = b \<Longrightarrow> tc(t := (tc t)\<lparr>budget := b\<rparr>) = tc"
  by (simp add: fun_eq_iff)

lemma set_budgets_same:
  "b = budget (tc d) \<Longrightarrow> set_budgets d b src b' tc = tc(src := (tc src)\<lparr>budget := b'\<rparr>)"
  "d \<noteq> src \<Longrightarrow> b' = budget (tc src) \<Longrightarrow> set_budgets d b src b' tc = tc(d := (tc d)\<lparr>budget := b\<rparr>)"
  by (simp_all add: set_budgets_def fun_eq_iff)

lemma tcap_xfer_done_eq:
  "tcap_xfer_done d src (s\<lparr>tcaps := tc\<rparr>) = s\<lparr>tcaps := tc, lst := relink d src (budget (tc src)) (lst s)\<rparr>"
  by (simp add: tcap_xfer_done_def relink_def Let_def tcap_is_active_def tcap_active_add_before_def
      tcap_expended_def tcap_left_def tcap_active_rem_def upd_lst_def)

lemma tcap_xfer_cycles_eq:
  assumes "d \<noteq> src" "r = (if cycles = 0 then budget (tcaps s src) else cycles)"
    "r = TCAP_RES_INF \<longrightarrow> budget (tcaps s src) = TCAP_RES_INF"
  shows "tcap_xfer_cycles d src r s = s\<lparr>tcaps := set_budgets
    d (credit (budget (tcaps s d)) (xfer_amount cycles (budget (tcaps s src))))
    src (debit (budget (tcaps s src)) (xfer_amount cycles (budget (tcaps s src)))) (tcaps s)\<rparr>"
proof -
  let ?bd = "budget (tcaps s d)" and ?bs = "budget (tcaps s src)"
  show ?thesis
  proof (cases "r = TCAP_RES_INF")
    case True
    then have "xfer_amount cycles ?bs = TCAP_RES_INF" "?bs = TCAP_RES_INF"
      using assms(2,3) by (auto simp: xfer_amount_def split: if_splits)
    then show ?thesis using True assms(1)
      by (simp add: tcap_xfer_cycles_def TCAP_RES_IS_INF_def upd_tcap_def set_budgets_same credit_def debit_def)
  next
    case False
    have n: "xfer_amount cycles ?bs = (if ?bs < r then ?bs else r)" using assms(2) by (auto simp: xfer_amount_def)
    have "?bs < r \<longrightarrow> ?bs \<noteq> TCAP_RES_INF" by (auto simp: TCAP_RES_INF_def)
    then have fin: "xfer_amount cycles ?bs \<noteq> TCAP_RES_INF" using False n by auto
    define m where "m = xfer_amount cycles ?bs"
    have m: "(if ?bs < r then ?bs else r) = m" using n by (simp add: m_def)
    show ?thesis
    proof (cases "?bd = TCAP_RES_INF")
      case True
      then show ?thesis using False assms(1) unfolding tcap_xfer_cycles_def Let_def m m_def [symmetric]
        by (simp add: TCAP_RES_IS_INF_def credit_def debit_def set_budgets_same set_budget_noop upd_tcap_def)
    next
      case fd: False
      have sat: "(if ?bd + m < ?bd \<or> TCAP_RES_IS_INF (?bd + m) then TCAP_RES_MAX else ?bd + m) = credit ?bd m"
        using fin fd by (intro sat_add_eq) (simp_all add: m_def)
      show ?thesis using False fd assms(1) unfolding tcap_xfer_cycles_def Let_def m m_def [symmetric] sat
        by (simp add: TCAP_RES_IS_INF_def debit_def set_budgets_def upd_tcap_def) (auto simp: fun_eq_iff)
    qed
  qed
qed

lemma tcap_budget_xfer_eq:
  assumes "src \<noteq> 0" "d \<noteq> 0" "d \<noteq> src" "tcap_is_active s src"
  shows "tcap_budget_xfer c d src cycles s =
    (let bd = budget (tcaps s d); bs = budget (tcaps s src); n = xfer_amount cycles bs
     in if tc_cpuid (tcaps s src) \<noteq> c \<or> tc_cpuid (tcaps s d) \<noteq> c \<or>
           cycles = TCAP_RES_INF \<and> bs \<noteq> TCAP_RES_INF
        then Some (- 1, s)
        else Some (0, s\<lparr>tcaps := set_budgets d (credit bd n) src (debit bs n) (tcaps s),
                        lst := relink d src (debit bs n) (lst s)\<rparr>))"
proof -
  have inf: "TCAP_RES_IS_INF (if cycles = 0 then bs else cycles) \<and> \<not> TCAP_RES_IS_INF bs \<longleftrightarrow>
      cycles = TCAP_RES_INF \<and> bs \<noteq> TCAP_RES_INF" for bs
    by (auto simp: TCAP_RES_IS_INF_def TCAP_RES_INF_def)
  have src: "budget (set_budgets d b src b' tc src) = b'" for b b' tc by (simp add: set_budgets_def)
  show ?thesis using assms
    by (auto simp: tcap_budget_xfer_def inf Let_def tcap_xfer_cycles_eq [OF _ refl] tcap_xfer_done_eq src
        TCAP_RES_INF_def TCAP_RES_IS_INF_def)
qed

text \<open>
  What \<^verbatim>\<open>tcap_delegate\<close> computes once its checks have passed: the merged chain with the source's
  scheduler at the given priority, the position of the destination's scheduler in it, and the state.
\<close>

definition eff_prio :: "u64 \<Rightarrow> tcap \<Rightarrow> u64" where
  "eff_prio p S = (if p = 0 then prio (tcap_sched_info S) else p)"

definition merged :: "u64 \<Rightarrow> tcap \<Rightarrow> tcap \<Rightarrow> tcap_sched_info list" where
  "merged p D S = map (deleg_pick (tcap_uid (tcap_sched_info S)) (eff_prio p S)) (merge_delegs (delegs D) (delegs S))"

definition deleg_result :: "u64 \<Rightarrow> tcap_sched_info list \<Rightarrow> nat \<Rightarrow> u32 \<Rightarrow> tcap \<Rightarrow> tcap" where
  "deleg_result q tmp off b D = D\<lparr>budget := b, ndelegs := length tmp, curr_sched_off := off, perm_prio := q,
     delegations := (\<lambda>i. if i < length tmp then tmp ! i else delegations D i)(off := (tmp ! off)\<lparr>prio := q\<rparr>)\<rparr>"

definition delegated :: "addr \<Rightarrow> addr \<Rightarrow> u32 \<Rightarrow> u64 \<Rightarrow> tcap \<Rightarrow> tcap \<Rightarrow> nat \<Rightarrow> kst \<Rightarrow> kst" where
  "delegated dst src cycles p D S off s =
     (let bs = budget (tcaps s src); n = xfer_amount cycles bs; q = eff_prio p (tcaps s src)
      in s\<lparr>tcaps := (tcaps s)(
              dst := deleg_result q (merged p (tcaps s dst) (tcaps s src)) off (credit (budget (tcaps s dst)) n) D,
              src := S\<lparr>budget := debit bs n\<rparr>),
            lst := relink dst src (debit bs n) (lst s)\<rparr>)"

lemma own_uid_merged:
  assumes "deleg_wf D" shows "\<exists>e\<in>set (merged p D S). tcap_uid e = tcap_uid (tcap_sched_info D)"
proof -
  have "delegs D ! curr_sched_off D \<in> set (delegs D)" using assms by (intro nth_mem) (simp add: deleg_wf_def)
  then have "tcap_uid (tcap_sched_info D) \<in> set (map tcap_uid (delegs D))"
    using assms by (simp add: deleg_wf_def tcap_sched_info_def)
  then have "tcap_uid (tcap_sched_info D) \<in> set (map tcap_uid (merge_delegs (delegs D) (delegs S)))"
    unfolding merge_uids by blast
  then show ?thesis by (auto simp: merged_def)
qed

lemma tcap_delegate_eq:
  assumes "dst \<noteq> 0" "src \<noteq> 0" "dst \<noteq> src" "tcap_isactive s dst" "tc_cpuid (tcaps s src) = c" "tc_cpuid (tcaps s dst) = c"
    "tcap_is_active s src" "deleg_wf (tcaps s dst)"
    and q_def: "q = eff_prio p (tcaps s src)" and suid_def: "suid = tcap_uid (tcap_sched_info (tcaps s src))"
    and duid_def: "duid = tcap_uid (tcap_sched_info (tcaps s dst))" and tmp_def: "tmp = merged p (tcaps s dst) (tcaps s src)"
  shows "\<exists>D S off. prio_written suid q (tcaps s dst) D \<and> prio_written suid q (tcaps s src) S \<and>
    (length tmp \<le> TCAP_MAX_DELEGATIONS \<longrightarrow> off < length tmp \<and> tcap_uid (tmp ! off) = duid) \<and>
    tcap_delegate c dst src cycles p s =
      (if TCAP_MAX_DELEGATIONS < length tmp then Some (- ENOMEM, s\<lparr>tcaps := (tcaps s)(dst := D, src := S)\<rparr>)
       else if cycles = TCAP_RES_INF \<and> budget (tcaps s src) \<noteq> TCAP_RES_INF
       then Some (- EINVAL, s\<lparr>tcaps := (tcaps s)(dst := D, src := S)\<rparr>)
       else if length tmp < 2 then None
       else Some (0, delegated dst src cycles p D S off s))"
proof -
  have tmp: "tmp = map (deleg_pick suid q) (merge_delegs (drop 0 (delegs (tcaps s dst))) (drop 0 (delegs (tcaps s src))))"
    by (simp add: tmp_def merged_def suid_def q_def)
  have own: "\<exists>e\<in>set tmp. tcap_uid e = duid" unfolding tmp_def duid_def by (rule own_uid_merged [OF assms(8)])
  have start: "length [] \<le> TCAP_MAX_DELEGATIONS"
    "\<forall>e\<in>set []. tcap_uid e = duid \<longrightarrow> (\<exists>k<length []. None = Some k \<and> tcap_uid ([] ! k) = duid)" by simp_all
  from deleg_loop_merge [OF le0 le0 start tmp, unfolded append_Nil]
  obtain D S where w: "prio_written suid q (tcaps s dst) D" "prio_written suid q (tcaps s src) S" and
    res: "if length tmp \<le> TCAP_MAX_DELEGATIONS
     then \<exists>si. deleg_loop duid suid q (tcaps s dst) (tcaps s src) 0 0 [] None = (0, D, S, tmp, si) \<and>
       (\<forall>e\<in>set tmp. tcap_uid e = duid \<longrightarrow> (\<exists>k<length tmp. si = Some k \<and> tcap_uid (tmp ! k) = duid))
     else \<exists>tmp' si. deleg_loop duid suid q (tcaps s dst) (tcaps s src) 0 0 [] None = (- ENOMEM, D, S, tmp', si)"
    by blast
  define s1 where "s1 = s\<lparr>tcaps := (tcaps s)(dst := D, src := S)\<rparr>"
  have pre: "tcap_delegate c dst src cycles p s =
     (let (r, D, S, tmp, si) = deleg_loop duid suid q (tcaps s dst) (tcaps s src) 0 0 [] None;
          s = s\<lparr>tcaps := (tcaps s)(dst := D, src := S)\<rparr>
      in if r \<noteq> 0 then Some (r, s)
         else do {
           (r, s) \<leftarrow> tcap_budget_xfer c dst src cycles s;
           if r \<noteq> 0 then Some (- EINVAL, s)
           else do {
             let s = upd_tcap dst (\<lambda>tc. tc\<lparr>delegations := (\<lambda>i. if i < length tmp then tmp ! i else delegations tc i)\<rparr>) s;
             kassert (length tmp \<ge> 2);
             let s = upd_tcap dst (\<lambda>tc. tc\<lparr>ndelegs := length tmp\<rparr>) s;
             off \<leftarrow> si;
             let s = upd_tcap dst (\<lambda>tc. tc\<lparr>curr_sched_off := off, perm_prio := q\<rparr>) s;
             Some (0, upd_tcap dst (set_sched_prio q) s)
           }
         })"
    using assms(1-8) unfolding tcap_delegate_def q_def eff_prio_def duid_def suid_def
    by (simp add: deleg_wf_def not_less [symmetric] Let_def)
  show ?thesis
  proof (cases "length tmp \<le> TCAP_MAX_DELEGATIONS")
    case False
    then show ?thesis using res w by (intro exI [of _ D] exI [of _ S]) (auto simp: pre)
  next
    case True
    then obtain off where lp: "deleg_loop duid suid q (tcaps s dst) (tcaps s src) 0 0 [] None = (0, D, S, tmp, Some off)"
      and off: "off < length tmp" "tcap_uid (tmp ! off) = duid" using res own by auto
    have f: "tc_cpuid D = c" "tc_cpuid S = c" "budget D = budget (tcaps s dst)" "budget S = budget (tcaps s src)"
      using prio_written_fields [OF w(1)] prio_written_fields [OF w(2)] assms(5,6) by simp_all
    have act: "tcap_is_active s1 src" using assms(7) by (simp add: s1_def tcap_is_active_def)
    have xfer: "tcap_budget_xfer c dst src cycles s1 =
      (if cycles = TCAP_RES_INF \<and> budget (tcaps s src) \<noteq> TCAP_RES_INF then Some (- 1, s1)
       else let bs = budget (tcaps s src); n = xfer_amount cycles bs in
         Some (0, s1\<lparr>tcaps := set_budgets dst (credit (budget (tcaps s dst)) n) src (debit bs n) (tcaps s1),
                     lst := relink dst src (debit bs n) (lst s)\<rparr>))"
      using tcap_budget_xfer_eq [OF assms(2,1,3) act, of c cycles] assms(3) f by (simp add: s1_def Let_def)
    have upd: "upd_tcap dst f (s\<lparr>tcaps := tc, lst := h\<rparr>) = s\<lparr>tcaps := tc(dst := f (tc dst)), lst := h\<rparr>" for f tc h
      by (simp add: upd_tcap_def)
    have "tcap_delegate c dst src cycles p s =
        (if cycles = TCAP_RES_INF \<and> budget (tcaps s src) \<noteq> TCAP_RES_INF then Some (- EINVAL, s1)
         else if length tmp < 2 then None else Some (0, delegated dst src cycles p D S off s))"
      using assms(3) off(1) unfolding pre lp
      by (simp add: s1_def [symmetric] xfer Let_def)
       (simp add: s1_def delegated_def Let_def tmp_def [symmetric] q_def [symmetric] set_budgets_def upd
          set_sched_prio_def tcap_sched_info_def deleg_result_def kassert_bind fun_upd_twist cong: if_cong)
    moreover have "\<not> TCAP_MAX_DELEGATIONS < length tmp" using True by linarith
    ultimately have "tcap_delegate c dst src cycles p s =
        (if TCAP_MAX_DELEGATIONS < length tmp then Some (- ENOMEM, s\<lparr>tcaps := (tcaps s)(dst := D, src := S)\<rparr>)
         else if cycles = TCAP_RES_INF \<and> budget (tcaps s src) \<noteq> TCAP_RES_INF
         then Some (- EINVAL, s\<lparr>tcaps := (tcaps s)(dst := D, src := S)\<rparr>)
         else if length tmp < 2 then None else Some (0, delegated dst src cycles p D S off s))"
      by (simp only: s1_def if_False)
    then show ?thesis using w off by blast
  qed
qed

lemma merged_uids:
  assumes "deleg_wf D" "deleg_wf S" shows "sorted_wrt (<) (map tcap_uid (merged p D S))"
proof -
  have "map tcap_uid (merged p D S) = map tcap_uid (merge_delegs (delegs D) (delegs S))" by (simp add: merged_def)
  then show ?thesis using merge_sorted assms by (simp add: deleg_wf_def)
qed

lemma delegs_deleg_result: "delegs (deleg_result q tmp off b D) = tmp[off := (tmp ! off)\<lparr>prio := q\<rparr>]"
  by (intro nth_equalityI) (auto simp: delegs_def deleg_result_def nth_list_update)

lemma deleg_result_wf:
  assumes "sorted_wrt (<) (map tcap_uid tmp)" "off < length tmp" "length tmp \<le> TCAP_MAX_DELEGATIONS"
  shows "deleg_wf (deleg_result q tmp off b D)"
proof -
  have "map tcap_uid (tmp[off := (tmp ! off)\<lparr>prio := q\<rparr>]) = map tcap_uid tmp"
    using assms(2) by (intro nth_equalityI) (auto simp: nth_list_update)
  then show ?thesis using assms delegs_deleg_result [of q tmp off b D]
    by (simp add: deleg_wf_def deleg_result_def)
qed

lemma prio_map_update:
  assumes "sorted_wrt (<) (map tcap_uid tmp)" "off < length tmp"
  shows "prio_map (tmp[off := (tmp ! off)\<lparr>prio := q\<rparr>]) = (prio_map tmp)(tcap_uid (tmp ! off) \<mapsto> q)"
  using assms
proof (induction tmp arbitrary: off)
  case (Cons e tmp)
  show ?case
  proof (cases off)
    case (Suc k)
    then have "tmp ! k \<in> set tmp" "\<forall>x\<in>set tmp. tcap_uid e < tcap_uid x" using Cons.prems by auto
    then have "tcap_uid (tmp ! k) \<noteq> tcap_uid e" by (metis less_irrefl)
    then show ?thesis using Suc Cons by (auto simp: fun_upd_twist)
  qed (simp add: fun_eq_iff)
qed simp

lemma prio_map_pick:
  assumes "suid \<in> set (map tcap_uid ds)"
  shows "prio_map (map (deleg_pick suid q) ds) = (prio_map ds)(suid \<mapsto> q)"
proof -
  have "prio_map (map (deleg_pick suid q) ds) u = (if u = suid \<and> suid \<in> set (map tcap_uid ds) then Some q else prio_map ds u)" for u
    by (induction ds) (auto simp: deleg_pick_def)
  then show ?thesis using assms by auto
qed

lemma merged_map:
  assumes "deleg_wf D" "deleg_wf S"
  shows "prio_map (merged p D S) =
    (\<lambda>u. max_opt (deleg_map D u) (deleg_map S u))(tcap_uid (tcap_sched_info S) \<mapsto> eff_prio p S)"
proof -
  have "delegs S ! curr_sched_off S \<in> set (delegs S)" using assms(2) by (intro nth_mem) (simp add: deleg_wf_def)
  then have "tcap_uid (tcap_sched_info S) \<in> set (map tcap_uid (delegs S))"
    using assms(2) by (simp add: deleg_wf_def tcap_sched_info_def)
  then have "tcap_uid (tcap_sched_info S) \<in> set (map tcap_uid (merge_delegs (delegs D) (delegs S)))"
    unfolding merge_uids by blast
  moreover have "prio_map (merge_delegs (delegs D) (delegs S)) = (\<lambda>u. max_opt (deleg_map D u) (deleg_map S u))"
    using prio_map_merge assms by (simp add: deleg_wf_def deleg_map_def fun_eq_iff)
  ultimately show ?thesis by (simp add: merged_def prio_map_pick)
qed

text \<open>The three ways \<^verbatim>\<open>tcap_delegate\<close> returns.\<close>

lemma tcap_delegate_cases:
  assumes "tcap_delegate c dst src cycles p s = Some (r, s')" "deleg_wf (tcaps s dst)"
  obtains (error) D S where "r \<noteq> 0" "\<exists>q. prio_written (tcap_uid (tcap_sched_info (tcaps s src))) q (tcaps s dst) D \<and>
        prio_written (tcap_uid (tcap_sched_info (tcaps s src))) q (tcaps s src) S"
      "s' = s\<lparr>tcaps := (tcaps s)(dst := D, src := S)\<rparr>"
  | (self) "r = 0" "dst = src" "s' = upd_tcap dst (\<lambda>tc. (set_sched_prio p tc)\<lparr>perm_prio := p\<rparr>) s"
  | (ok) D S off where "r = 0" "dst \<noteq> src" "dst \<noteq> 0" "src \<noteq> 0" "tcap_is_active s src"
      "prio_written (tcap_uid (tcap_sched_info (tcaps s src))) (eff_prio p (tcaps s src)) (tcaps s dst) D"
      "prio_written (tcap_uid (tcap_sched_info (tcaps s src))) (eff_prio p (tcaps s src)) (tcaps s src) S"
      "length (merged p (tcaps s dst) (tcaps s src)) \<le> TCAP_MAX_DELEGATIONS"
      "off < length (merged p (tcaps s dst) (tcaps s src))"
      "tcap_uid (merged p (tcaps s dst) (tcaps s src) ! off) = tcap_uid (tcap_sched_info (tcaps s dst))"
      "s' = delegated dst src cycles p D S off s"
proof -
  have same: "s = s\<lparr>tcaps := (tcaps s)(dst := tcaps s dst, src := tcaps s src)\<rparr>" by simp
  note def = tcap_delegate_def [of c dst src cycles p s]
  have nz: "dst \<noteq> 0" "src \<noteq> 0" "tcap_isactive s dst"
    using assms(1) unfolding def by (auto simp: kassert_bind split: if_splits)
  consider "tc_cpuid (tcaps s src) \<noteq> c \<or> tc_cpuid (tcaps s dst) \<noteq> tc_cpuid (tcaps s src) \<or> \<not> tcap_is_active s src"
    | "tc_cpuid (tcaps s src) = c" "tc_cpuid (tcaps s dst) = c" "tcap_is_active s src" "dst = src"
    | "tc_cpuid (tcaps s src) = c" "tc_cpuid (tcaps s dst) = c" "tcap_is_active s src" "dst \<noteq> src" by auto
  then show thesis
  proof cases
    case 1
    then have "r \<noteq> 0 \<and> s' = s"
      using assms nz unfolding def by (auto simp: deleg_wf_def split: if_splits)
    then show thesis using error [of "tcaps s dst" "tcaps s src"] same by auto
  next
    case 2
    then show thesis using self assms nz unfolding def by (auto simp: deleg_wf_def)
  next
    case 3
    obtain D S off where *: "prio_written (tcap_uid (tcap_sched_info (tcaps s src))) (eff_prio p (tcaps s src)) (tcaps s dst) D"
      "prio_written (tcap_uid (tcap_sched_info (tcaps s src))) (eff_prio p (tcaps s src)) (tcaps s src) S"
      "length (merged p (tcaps s dst) (tcaps s src)) \<le> TCAP_MAX_DELEGATIONS \<longrightarrow>
        off < length (merged p (tcaps s dst) (tcaps s src)) \<and>
        tcap_uid (merged p (tcaps s dst) (tcaps s src) ! off) = tcap_uid (tcap_sched_info (tcaps s dst))"
      "Some (r, s') =
      (if TCAP_MAX_DELEGATIONS < length (merged p (tcaps s dst) (tcaps s src))
       then Some (- ENOMEM, s\<lparr>tcaps := (tcaps s)(dst := D, src := S)\<rparr>)
       else if cycles = TCAP_RES_INF \<and> budget (tcaps s src) \<noteq> TCAP_RES_INF
       then Some (- EINVAL, s\<lparr>tcaps := (tcaps s)(dst := D, src := S)\<rparr>)
       else if length (merged p (tcaps s dst) (tcaps s src)) < 2 then None
       else Some (0, delegated dst src cycles p D S off s))"
      using tcap_delegate_eq [OF nz(1,2) 3(4) nz(3) 3(1,2,3) assms(2) refl refl refl refl, of p cycles] assms(1) by auto
    show thesis
    proof (cases "r = 0")
      case True
      then have "\<not> TCAP_MAX_DELEGATIONS < length (merged p (tcaps s dst) (tcaps s src))"
        "s' = delegated dst src cycles p D S off s" using *(4) by (simp_all split: if_splits)
      then show thesis using ok [OF True 3(4) nz(1,2) 3(3) *(1,2)] *(3) unfolding not_less by blast
    next
      case False
      then have "s' = s\<lparr>tcaps := (tcaps s)(dst := D, src := S)\<rparr>" using *(4) by (simp split: if_splits)
      then show thesis using error [of D S] *(1,2) False by blast
    qed
  qed
qed

section \<open>The invariant of the tcaps of a core\<close>

text \<open>
  The tcaps \<open>T\<close> of core \<open>c\<close>: the active list holds exactly those with a budget left, and every
  delegation chain is in order.
\<close>

definition tcap_inv :: "cpuid \<Rightarrow> addr set \<Rightarrow> kst \<Rightarrow> bool" where
  "tcap_inv c T s \<longleftrightarrow> finite T \<and> active_list (lst s) c T (\<lambda>t. budget (tcaps s t)) \<and> (\<forall>t\<in>T. deleg_wf (tcaps s t))"

definition ebudget :: "u32 \<Rightarrow> enat" where
  "ebudget b = (if b = TCAP_RES_INF then \<infinity> else enat (unat b))"

definition total_budget :: "addr set \<Rightarrow> kst \<Rightarrow> enat" where
  "total_budget T s = (\<Sum>t\<in>T. ebudget (budget (tcaps s t)))"

lemma TCAP_RES_INF_top: "b \<noteq> TCAP_RES_INF \<longleftrightarrow> unat b < 2 ^ 32 - 1"
proof -
  have m: "unat TCAP_RES_INF = 2 ^ 32 - 1"
    by (simp add: TCAP_RES_INF_def unsigned_minus_1_eq_mask mask_eq_exp_minus_1)
  have "unat b \<noteq> unat TCAP_RES_INF \<longleftrightarrow> unat b < 2 ^ 32 - 1"
    using unsigned_less [of b, where ?'a = nat] unfolding m by auto
  then show ?thesis by (simp add: word_unat_eq_iff)
qed

lemma unat_credit:
  assumes "credit bd n \<noteq> TCAP_RES_INF"
  shows "unat (credit bd n) = min (unat bd + unat n) (2 ^ 32 - 2)"
proof -
  have f: "n \<noteq> TCAP_RES_INF" "bd \<noteq> TCAP_RES_INF" using assms by (auto simp: credit_def)
  have "unat TCAP_RES_MAX = 2 ^ 32 - 2" by (simp add: TCAP_RES_MAX_def TCAP_RES_INF_def)
  moreover have "unat (bd + n) = unat bd + unat n" if "unat bd + unat n < 2 ^ 32 - 1"
    using that by (simp add: unat_word_ariths)
  ultimately show ?thesis using f by (auto simp: credit_def)
qed

lemma credit_nonzero:
  assumes "n \<noteq> 0" shows "credit bd n \<noteq> 0"
proof (cases "credit bd n = TCAP_RES_INF")
  case True
  then show ?thesis by (simp add: TCAP_RES_INF_def)
next
  case False
  have "0 < unat n" using assms by (simp add: unat_gt_0)
  then have "0 < unat (credit bd n)" using unat_credit [OF False] by simp
  then show ?thesis by (metis unat_0 less_irrefl)
qed

lemma credit_inf: "credit bd n = TCAP_RES_INF \<longleftrightarrow> n = TCAP_RES_INF \<or> bd = TCAP_RES_INF"
proof -
  have "TCAP_RES_MAX \<noteq> TCAP_RES_INF" by (simp add: TCAP_RES_MAX_def TCAP_RES_INF_def)
  moreover have "bd + n \<noteq> TCAP_RES_INF" if "unat bd + unat n < 2 ^ 32 - 1"
    using that by (simp add: TCAP_RES_INF_top unat_word_ariths)
  ultimately show ?thesis by (simp add: credit_def)
qed

lemma ebudget_mono:
  assumes "a \<le> b" shows "ebudget a \<le> ebudget b"
proof (cases "b = TCAP_RES_INF")
  case False
  then have "a \<noteq> TCAP_RES_INF" using assms by (auto simp: TCAP_RES_INF_top word_le_nat_alt)
  then show ?thesis using False assms by (simp add: ebudget_def word_le_nat_alt)
qed (simp add: ebudget_def)

lemma ebudget_xfer:
  assumes "n \<le> bs"
  shows "ebudget (credit bd n) + ebudget (debit bs n) \<le> ebudget bd + ebudget bs"
proof (cases "bd = TCAP_RES_INF \<or> bs = TCAP_RES_INF")
  case False
  then have "n \<noteq> TCAP_RES_INF" using assms by (auto simp: TCAP_RES_INF_top word_le_nat_alt)
  then have "credit bd n \<noteq> TCAP_RES_INF" using False by (simp add: credit_inf)
  moreover have "unat (bs - n) = unat bs - unat n" using assms by (simp add: unat_sub)
  moreover have "unat n \<le> unat bs" using assms by (simp add: word_le_nat_alt)
  moreover have "debit bs n \<noteq> TCAP_RES_INF"
    using False calculation(2) by (auto simp: debit_def TCAP_RES_INF_top)
  ultimately show ?thesis using False unat_credit [of bd n] by (simp add: ebudget_def debit_def)
qed (auto simp: ebudget_def)

lemma relink_active:
  assumes "active_list h c T B" "d \<in> T" "src \<in> T" "d \<noteq> src" "B src \<noteq> 0" "bd \<noteq> 0"
  shows "active_list (relink d src bs h) c T (B(d := bd, src := bs))"
proof -
  define h1 where "h1 = (if list_empty h (LActive d) then list_add_before (LActive src) (LActive d) h else h)"
  have one: "active_list h1 c T (B(d := bd))"
    using assms active_list_empty [OF assms(1,2)] active_list_add [of h c T B src d bd] active_list_keep [of h c T B d bd]
    by (auto simp: h1_def)
  show ?thesis
  proof (cases "bs = 0")
    case True
    then show ?thesis using active_list_rem [OF one assms(3)] by (simp add: relink_def h1_def)
  next
    case False
    then show ?thesis using active_list_keep [OF one, of src bs] assms(4,5) by (simp add: relink_def h1_def)
  qed
qed

lemma total_budget_two:
  assumes "finite T" "d \<in> T" "src \<in> T" "d \<noteq> src" "\<forall>t\<in>T - {d, src}. budget (tcaps s' t) = budget (tcaps s t)"
    "ebudget (budget (tcaps s' d)) + ebudget (budget (tcaps s' src)) \<le> ebudget (budget (tcaps s d)) + ebudget (budget (tcaps s src))"
  shows "total_budget T s' \<le> total_budget T s"
proof -
  have split: "sum f T = f d + f src + sum f (T - {d, src})" for f :: "addr \<Rightarrow> enat"
    using assms(1-4) sum.subset_diff [of "{d, src}" T f] by (simp add: add.commute)
  have "(\<Sum>t\<in>T - {d, src}. ebudget (budget (tcaps s' t))) = (\<Sum>t\<in>T - {d, src}. ebudget (budget (tcaps s t)))"
    by (rule sum.cong [OF refl]) (use assms(5) in simp)
  then show ?thesis unfolding total_budget_def split using assms(6) by (simp add: add_mono)
qed

text \<open>A change of one tcap that does not raise its budget.\<close>

lemma tcap_inv_one:
  assumes "tcap_inv c T s" "t \<in> T" "tcaps s' = (tcaps s)(t := tc)" "deleg_wf tc" "budget tc \<le> budget (tcaps s t)"
    "lst s' = (if budget tc = 0 then list_rem (LActive t) (lst s) else lst s)"
  shows "tcap_inv c T s' \<and> total_budget T s' \<le> total_budget T s"
proof -
  let ?B = "\<lambda>t. budget (tcaps s t)"
  have inv: "finite T" "active_list (lst s) c T ?B" "\<forall>t\<in>T. deleg_wf (tcaps s t)" using assms(1) by (simp_all add: tcap_inv_def)
  have B: "(\<lambda>u. budget (tcaps s' u)) = ?B(t := budget tc)" by (auto simp: assms(3))
  have "budget tc \<noteq> 0 \<Longrightarrow> ?B t \<noteq> 0" using assms(5) by (metis word_coorder.extremum_uniqueI)
  then have "active_list (lst s') c T (?B(t := budget tc))"
    using active_list_rem [OF inv(2) assms(2)] active_list_keep [OF inv(2), of t "budget tc"]
    by (cases "budget tc = 0") (auto simp: assms(6))
  then have "tcap_inv c T s'" using inv assms(3,4) unfolding tcap_inv_def B by simp
  moreover have "total_budget T s' \<le> total_budget T s"
    unfolding total_budget_def by (rule sum_mono) (use assms(3,5) ebudget_mono in auto)
  ultimately show ?thesis ..
qed

lemma delegs_single_wf: "ndelegs t = 1 \<Longrightarrow> curr_sched_off t = 0 \<Longrightarrow> deleg_wf t"
  by (simp add: deleg_wf_def delegs_def)

lemma tcap_inv_consume:
  assumes "tcap_inv c T s" "t \<in> T" "tcap_consume t n s = Some (r, s')"
  shows "tcap_inv c T s' \<and> total_budget T s' \<le> total_budget T s"
proof -
  let ?b = "budget (tcaps s t)"
  have wf: "deleg_wf (tcaps s t)" using assms(1,2) by (simp add: tcap_inv_def)
  have nz: "t \<noteq> 0" using assms(3) by (auto simp: tcap_consume_def kassert_bind split: if_splits)
  consider "?b = TCAP_RES_INF" | "?b \<noteq> TCAP_RES_INF" "?b \<le> n \<or> tcap_cycles_same s (ucast n) (ucast ?b)"
    | "?b \<noteq> TCAP_RES_INF" "\<not> (?b \<le> n \<or> tcap_cycles_same s (ucast n) (ucast ?b))" by auto
  then show ?thesis
  proof cases
    case 1
    then have "s' = s" using assms(3) nz by (simp add: tcap_consume_def TCAP_RES_IS_INF_def)
    then show ?thesis using assms(1) by simp
  next
    case 2
    let ?tc = "tcap_declassify ((tcaps s t)\<lparr>budget := 0\<rparr>)"
    have tc: "deleg_wf ?tc" "budget ?tc = 0"
      by (auto simp: tcap_declassify_def Let_def intro: delegs_single_wf)
    have "s' = upd_tcap t tcap_declassify (tcap_active_rem t (upd_tcap t (\<lambda>c. c\<lparr>budget := 0\<rparr>) s))"
      using assms(3) nz 2 by (simp add: tcap_consume_def TCAP_RES_IS_INF_def Let_def)
    then show ?thesis using assms(1,2) tc
      by (intro tcap_inv_one [of c T s t s' ?tc]) (simp_all add: upd_tcap_def upd_lst_def tcap_active_rem_def)
  next
    case 3
    then have lt: "n < ?b" by (simp add: not_le)
    then have "unat (?b - n) = unat ?b - unat n" by (simp add: unat_sub)
    then have b: "?b - n \<le> ?b" "?b - n \<noteq> 0" using lt by (auto simp: word_le_nat_alt)
    have "s' = upd_tcap t (\<lambda>c. c\<lparr>budget := budget c - n\<rparr>) s"
      using assms(3) nz 3 by (simp add: tcap_consume_def TCAP_RES_IS_INF_def Let_def)
    then show ?thesis using assms(1,2) wf b
      by (intro tcap_inv_one [of c T s t s' "(tcaps s t)\<lparr>budget := ?b - n\<rparr>"])
        (simp_all add: upd_tcap_def deleg_wf_def delegs_def)
  qed
qed

lemma tcap_inv_cong:
  assumes "tcap_inv c T s" "lst s' = lst s" "\<forall>t. budget (tcaps s' t) = budget (tcaps s t)"
    "\<forall>t\<in>T. deleg_wf (tcaps s t) \<longrightarrow> deleg_wf (tcaps s' t)"
  shows "tcap_inv c T s' \<and> total_budget T s' \<le> total_budget T s"
  using assms by (simp add: tcap_inv_def total_budget_def)

lemma set_sched_prio_wf: "deleg_wf (set_sched_prio p t) \<longleftrightarrow> deleg_wf t"
proof -
  have "map tcap_uid (delegs (set_sched_prio p t)) = map tcap_uid (delegs t)"
    by (intro nth_equalityI) (auto simp: delegs_def set_sched_prio_def tcap_sched_info_def)
  then show ?thesis unfolding deleg_wf_def by (simp add: set_sched_prio_def)
qed

lemma set_sched_prio_budget [simp]: "budget (set_sched_prio p t) = budget t" by (simp add: set_sched_prio_def)

lemma perm_prio_wf [simp]: "deleg_wf (t\<lparr>perm_prio := p\<rparr>) \<longleftrightarrow> deleg_wf t" "deleg_wf (t\<lparr>budget := b\<rparr>) \<longleftrightarrow> deleg_wf t"
  by (simp_all add: deleg_wf_def delegs_def)

lemma xfer_amount_le: "xfer_amount cycles bs \<le> bs" by (auto simp: xfer_amount_def)

lemma xfer_amount_nonzero: "bs \<noteq> 0 \<Longrightarrow> xfer_amount cycles bs \<noteq> 0" by (auto simp: xfer_amount_def)

lemma tcap_inv_delegated:
  assumes "tcap_inv c T s" "dst \<in> T" "src \<in> T" "dst \<noteq> src" "tcap_is_active s src"
    "length (merged p (tcaps s dst) (tcaps s src)) \<le> TCAP_MAX_DELEGATIONS"
    "off < length (merged p (tcaps s dst) (tcaps s src))" "prio_written u q (tcaps s src) S"
  shows "tcap_inv c T (delegated dst src cycles p D S off s) \<and>
    total_budget T (delegated dst src cycles p D S off s) \<le> total_budget T s"
proof -
  let ?B = "\<lambda>t. budget (tcaps s t)" and ?s' = "delegated dst src cycles p D S off s"
  define n where "n = xfer_amount cycles (?B src)"
  have inv: "finite T" "active_list (lst s) c T ?B" "\<forall>t\<in>T. deleg_wf (tcaps s t)" using assms(1) by (simp_all add: tcap_inv_def)
  have src: "?B src \<noteq> 0" using active_list_empty [OF inv(2) assms(3)] assms(5) by (simp add: tcap_is_active_def)
  have B: "(\<lambda>t. budget (tcaps ?s' t)) = ?B(dst := credit (?B dst) n, src := debit (?B src) n)"
    using assms(4) by (auto simp: delegated_def Let_def n_def deleg_result_def)
  have bd: "credit (?B dst) n \<noteq> 0" unfolding n_def by (intro credit_nonzero xfer_amount_nonzero src)
  have "active_list (lst ?s') c T (?B(dst := credit (?B dst) n, src := debit (?B src) n))"
    using relink_active [OF inv(2) assms(2-4) src bd, of "debit (?B src) n"] by (simp add: delegated_def Let_def n_def)
  moreover have "\<forall>t\<in>T. deleg_wf (tcaps ?s' t)"
    using inv(3) assms(2-8) deleg_result_wf [OF merged_uids assms(7,6)] prio_written_wf [OF assms(8)]
    by (simp add: delegated_def Let_def)
  moreover have "total_budget T ?s' \<le> total_budget T s"
    by (rule total_budget_two [OF inv(1) assms(2-4)])
      (use assms(4) ebudget_xfer [OF xfer_amount_le, of "?B dst" cycles "?B src"] in
        \<open>auto simp: delegated_def Let_def deleg_result_def\<close>)
  ultimately show ?thesis using inv(1) unfolding tcap_inv_def B by blast
qed

lemma tcap_inv_delegate:
  assumes "tcap_inv c T s" "dst \<in> T" "src \<in> T" "tcap_delegate c dst src cycles p s = Some (r, s')"
  shows "tcap_inv c T s' \<and> total_budget T s' \<le> total_budget T s"
proof -
  have wf: "deleg_wf (tcaps s dst)" using assms(1,2) by (simp add: tcap_inv_def)
  from assms(4) wf show ?thesis
  proof (cases rule: tcap_delegate_cases)
    case (error D S)
    then show ?thesis using prio_written_fields prio_written_wf
      by (intro tcap_inv_cong [OF assms(1)]) auto
  next
    case self
    then show ?thesis by (intro tcap_inv_cong [OF assms(1)]) (auto simp: upd_tcap_def set_sched_prio_wf)
  next
    case (ok D S off)
    then show ?thesis using tcap_inv_delegated [OF assms(1-3)] by blast
  qed
qed

text \<open>Merging a tcap with a finite budget into another, and making a new tcap.\<close>

lemma tcap_delete_eq:
  assumes "tcap_delete c t s = Some (0, s')"
  shows "lst s' = lst s" "u \<noteq> t \<Longrightarrow> tcaps s' u = tcaps s u" "budget (tcaps s' t) = 0"
  using assms by (auto simp: tcap_delete_def Let_def kassert_bind upd_tcap_def thd_next_thdinfo_update_def upd_cli_def split: if_splits)

lemma active_list_drop:
  assumes "active_list h c T B" "B t = 0" "\<forall>u\<in>T - {t}. B' u = B u"
  shows "active_list h c (T - {t}) B'"
proof -
  have "u \<in> T - {t} \<and> B' u \<noteq> 0 \<longleftrightarrow> u \<in> T \<and> B u \<noteq> 0" for u using assms(2,3) by (cases "u = t") auto
  then have "{u \<in> T - {t}. B' u \<noteq> 0} = {u \<in> T. B u \<noteq> 0}" by blast
  then show ?thesis using assms unfolding active_list_def by simp
qed

lemma total_budget_drop:
  assumes "finite T" "\<forall>u\<in>T - {t}. budget (tcaps s' u) = budget (tcaps s u)"
  shows "total_budget (T - {t}) s' \<le> total_budget T s"
proof -
  have "total_budget (T - {t}) s' = total_budget (T - {t}) s"
    unfolding total_budget_def by (rule sum.cong [OF refl]) (use assms(2) in simp)
  also have "\<dots> \<le> total_budget T s" unfolding total_budget_def by (rule sum_mono2 [OF assms(1)]) auto
  finally show ?thesis .
qed

lemma tcap_merge_finite_budget:
  assumes "tcap_inv c T s" "dst \<in> T" "rm \<in> T" "dst \<noteq> rm" "tcap_delegate c dst rm 0 p s = Some (0, s')"
    "budget (tcaps s rm) \<noteq> TCAP_RES_INF"
  shows "budget (tcaps s' rm) = 0"
proof -
  have wf: "deleg_wf (tcaps s dst)" using assms(1,2) by (simp add: tcap_inv_def)
  from assms(5) wf show ?thesis
    by (cases rule: tcap_delegate_cases)
      (use assms(4,6) in \<open>auto simp: delegated_def Let_def xfer_amount_def debit_def\<close>)
qed

lemma tcap_inv_merge:
  assumes "tcap_inv c T s" "dst \<in> T" "rm \<in> T" "tcap_merge c dst rm s = Some (r, s')"
    "budget (tcaps s rm) \<noteq> TCAP_RES_INF"
  shows "tcap_inv c (if r = 0 then T - {rm} else T) s' \<and>
    total_budget (if r = 0 then T - {rm} else T) s' \<le> total_budget T s"
proof (cases "dst = rm \<or> 1 <s tcap_ref s rm")
  case True
  then have "r = - 1 \<and> s' = s" using assms(4) by (cases "dst = rm") (simp_all add: tcap_merge_def)
  then show ?thesis using assms(1) by simp
next
  case False
  let ?p = "prio (tcap_sched_info (tcaps s dst))"
  obtain r1 s1 where d: "tcap_delegate c dst rm 0 ?p s = Some (r1, s1)"
    using assms(4) False by (auto simp: tcap_merge_def bind_prod_Some)
  note one = tcap_inv_delegate [OF assms(1-3) d]
  show ?thesis
  proof (cases "r1 = 0")
    case True
    then have del: "tcap_delete c rm s1 = Some (0, s')" "r = 0"
      using assms(4) False d by (auto simp: tcap_merge_def bind_prod_Some kassert_bind split: if_splits)
    note del' = tcap_delete_eq [OF del(1)]
    have z: "budget (tcaps s1 rm) = 0"
      using tcap_merge_finite_budget [OF assms(1-3) _ _ assms(5)] d True False by blast
    have inv: "finite T" "active_list (lst s1) c T (\<lambda>t. budget (tcaps s1 t))" "\<forall>t\<in>T. deleg_wf (tcaps s1 t)"
      using one by (simp_all add: tcap_inv_def)
    have same: "\<forall>u\<in>T - {rm}. budget (tcaps s' u) = budget (tcaps s1 u)" using del'(2) by simp
    have "active_list (lst s1) c (T - {rm}) (\<lambda>t. budget (tcaps s' t))"
      using active_list_drop [OF inv(2) _ same] z by simp
    then have "tcap_inv c (T - {rm}) s'" using inv del' by (simp add: tcap_inv_def)
    moreover have "total_budget (T - {rm}) s' \<le> total_budget T s"
      using total_budget_drop [OF inv(1) same] one by (meson order_trans)
    ultimately show ?thesis using del(2) by simp
  next
    case False
    then have "r \<noteq> 0" "s' = s1" using assms(4) \<open>\<not> (dst = rm \<or> 1 <s tcap_ref s rm)\<close> d by (auto simp: tcap_merge_def)
    then show ?thesis using one by simp
  qed
qed

lemma tcap_inv_init:
  assumes "tcap_inv c T s" "t \<notin> T" "t \<noteq> 0"
  shows "tcap_inv c (insert t T) (tcap_init c' t s) \<and> total_budget (insert t T) (tcap_init c' t s) = total_budget T s"
proof -
  let ?B = "\<lambda>t. budget (tcaps s t)" and ?s' = "tcap_init c' t s" and ?h = "list_init (LActive t) t (lst s)"
  have inv: "finite T" "active_list (lst s) c T ?B" "\<forall>t\<in>T. deleg_wf (tcaps s t)" using assms(1) by (simp_all add: tcap_inv_def)
  have s': "lst ?s' = ?h" "budget (tcaps ?s' t) = 0" "deleg_wf (tcaps ?s' t)" "u \<noteq> t \<Longrightarrow> tcaps ?s' u = tcaps s u" for u
    by (simp_all add: tcap_init_def Let_def upd_tcap_def upd_cli_def upd_lst_def delegs_single_wf)
  have keep: "\<forall>u\<in>T. tcaps ?s' u = tcaps s u" using s'(4) assms(2) by metis
  obtain ts where ts: "klist (lst s) (LTcaps c) (map LActive ts)" "set ts = {t \<in> T. ?B t \<noteq> 0}"
    using inv(2) by (auto simp: active_list_def)
  have fr: "?h x = lst s x" if "x \<noteq> LActive t" for x using that by (simp add: list_init_def)
  have nt: "?h (LActive u) = lst s (LActive u)" if "u \<in> set ts" for u using ts(2) assms(2) that by (intro fr) auto
  have "chain ?h (LTcaps c) (map LActive ts) (LTcaps c)"
    by (rule chain_cong [of "lst s"]) (use ts(1) nt fr in \<open>auto simp: klist_def\<close>)
  then have k: "klist ?h (LTcaps c) (map LActive ts)" using ts(1) nt fr by (auto simp: klist_def)
  have "active_list ?h c (insert t T) (\<lambda>u. budget (tcaps ?s' u))"
  proof (rule active_listI [OF k])
    show "set ts = {u \<in> insert t T. budget (tcaps ?s' u) \<noteq> 0}" using ts(2) s'(2) keep by auto
    show "\<forall>u\<in>insert t T. u \<noteq> 0 \<and> container (?h (LActive u)) = u \<and>
        (budget (tcaps ?s' u) = 0 \<longrightarrow> detached ?h (LActive u))"
      using inv(2) assms(2,3) keep by (auto simp: active_list_def list_init_def detached_def)
  qed
  moreover have "\<forall>u\<in>insert t T. deleg_wf (tcaps ?s' u)" using inv(3) s'(3,4) assms(2) by (metis insert_iff)
  moreover have "total_budget (insert t T) ?s' = total_budget T ?s'"
    using inv(1) assms(2) s'(2) by (simp add: total_budget_def ebudget_def TCAP_RES_INF_def zero_enat_def)
  moreover have "total_budget T ?s' = total_budget T s"
    unfolding total_budget_def by (rule sum.cong [OF refl]) (use assms(2) s'(4) in metis)
  ultimately show ?thesis using inv(1) s'(1) by (simp add: tcap_inv_def)
qed

text \<open>
  What the kernel does with the tcaps of a core, as transitions of the set of live tcaps and the state:
  charging cycles, transfers and delegations, merges, creation, and the setting of priorities and
  end-points.  A merge whose source has an infinite budget is left out: it breaks the invariant, as shown below.
\<close>

inductive tcap_step :: "cpuid \<Rightarrow> addr set \<times> kst \<Rightarrow> addr set \<times> kst \<Rightarrow> bool" for c where
  consume: "t \<in> T \<Longrightarrow> tcap_consume t n s = Some (r, s') \<Longrightarrow> tcap_step c (T, s) (T, s')"
| delegate: "dst \<in> T \<Longrightarrow> src \<in> T \<Longrightarrow> tcap_delegate c dst src cycles p s = Some (r, s') \<Longrightarrow> tcap_step c (T, s) (T, s')"
| merge: "dst \<in> T \<Longrightarrow> rm \<in> T \<Longrightarrow> budget (tcaps s rm) \<noteq> TCAP_RES_INF \<Longrightarrow> tcap_merge c dst rm s = Some (r, s') \<Longrightarrow>
    tcap_step c (T, s) (if r = 0 then T - {rm} else T, s')"
| create: "t \<notin> T \<Longrightarrow> t \<noteq> 0 \<Longrightarrow> tcap_step c (T, s) (insert t T, tcap_init c t s)"
| setprio: "t \<in> T \<Longrightarrow> tcap_setprio t p s = Some s' \<Longrightarrow> tcap_step c (T, s) (T, s')"
| promote: "t \<in> T \<Longrightarrow> tcap_step c (T, s) (T, tcap_promote t thd s)"

lemma tcap_step_inv:
  assumes "tcap_step c x y" "tcap_inv c (fst x) (snd x)"
  shows "tcap_inv c (fst y) (snd y) \<and> total_budget (fst y) (snd y) \<le> total_budget (fst x) (snd x)"
  using assms
proof (cases rule: tcap_step.cases)
  case (consume t T n s r s')
  then show ?thesis using tcap_inv_consume [of c T s t n r s'] assms(2) by simp
next
  case (delegate dst T src cycles p s r s')
  then show ?thesis using tcap_inv_delegate [of c T s dst src cycles p r s'] assms(2) by simp
next
  case (merge dst T rm s r s')
  then show ?thesis using tcap_inv_merge [of c T s dst rm r s'] assms(2) by simp
next
  case (create t T s)
  then show ?thesis using tcap_inv_init [of c T s t c] assms(2) by simp
next
  case (setprio t T p s s')
  then have s': "s' = upd_tcap t (set_sched_prio p) s" by (simp add: tcap_setprio_def kassert_bind split: if_splits)
  have "tcap_inv c T s" using setprio assms(2) by simp
  from tcap_inv_cong [OF this, of s'] setprio show ?thesis by (simp add: s' upd_tcap_def set_sched_prio_wf)
next
  case (promote t T s thd)
  have "tcap_inv c T s" using promote assms(2) by simp
  from tcap_inv_cong [OF this, of "tcap_promote t thd s"] promote
  show ?thesis by (simp add: tcap_promote_def upd_tcap_def deleg_wf_def delegs_def)
qed

text \<open>When delegation succeeds.\<close>

definition can_delegate :: "cpuid \<Rightarrow> addr \<Rightarrow> addr \<Rightarrow> u32 \<Rightarrow> kst \<Rightarrow> bool" where
  "can_delegate c dst src cycles s \<longleftrightarrow>
     dst \<noteq> 0 \<and> src \<noteq> 0 \<and> dst \<noteq> src \<and> tcap_isactive s dst \<and> tcap_is_active s src \<and>
     tc_cpuid (tcaps s src) = c \<and> tc_cpuid (tcaps s dst) = c \<and> deleg_wf (tcaps s dst) \<and> deleg_wf (tcaps s src) \<and>
     tcap_uid (tcap_sched_info (tcaps s dst)) \<noteq> tcap_uid (tcap_sched_info (tcaps s src)) \<and>
     card (dom (deleg_map (tcaps s dst)) \<union> dom (deleg_map (tcaps s src))) \<le> TCAP_MAX_DELEGATIONS \<and>
     (cycles = TCAP_RES_INF \<longrightarrow> budget (tcaps s src) = TCAP_RES_INF)"

lemma dom_deleg_map: "dom (deleg_map t) = set (map tcap_uid (delegs t))"
proof -
  have "dom (prio_map ds) = set (map tcap_uid ds)" for ds by (simp add: prio_map_def dom_map_of_conv_image_fst image_image)
  then show ?thesis by (simp add: deleg_map_def)
qed

lemma own_uid_dom: "deleg_wf t \<Longrightarrow> tcap_uid (tcap_sched_info t) \<in> dom (deleg_map t)"
  unfolding dom_deleg_map deleg_wf_def
  by (metis delegs_length delegs_nth length_map nth_map nth_mem tcap_sched_info_def)

lemma merged_length:
  assumes "deleg_wf D" "deleg_wf S"
  shows "length (merged p D S) = card (dom (deleg_map D) \<union> dom (deleg_map S))"
proof -
  have "distinct (map tcap_uid (merged p D S))" using merged_uids [OF assms] by (simp add: strict_sorted_iff)
  then have "length (merged p D S) = card (set (map tcap_uid (merged p D S)))"
    by (metis distinct_card length_map)
  also have "set (map tcap_uid (merged p D S)) = dom (deleg_map D) \<union> dom (deleg_map S)"
    using merge_uids [of "delegs D" "delegs S"] by (simp add: merged_def dom_deleg_map image_image)
  finally show ?thesis .
qed

lemma tcap_delegate_ok:
  assumes "can_delegate c dst src cycles s"
  obtains D S off where
    "prio_written (tcap_uid (tcap_sched_info (tcaps s src))) (eff_prio p (tcaps s src)) (tcaps s dst) D"
    "prio_written (tcap_uid (tcap_sched_info (tcaps s src))) (eff_prio p (tcaps s src)) (tcaps s src) S"
    "length (merged p (tcaps s dst) (tcaps s src)) \<le> TCAP_MAX_DELEGATIONS"
    "off < length (merged p (tcaps s dst) (tcaps s src))"
    "tcap_uid (merged p (tcaps s dst) (tcaps s src) ! off) = tcap_uid (tcap_sched_info (tcaps s dst))"
    "tcap_delegate c dst src cycles p s = Some (0, delegated dst src cycles p D S off s)"
proof -
  let ?D = "tcaps s dst" and ?S = "tcaps s src" and ?m = "merged p (tcaps s dst) (tcaps s src)"
  note a = assms [unfolded can_delegate_def]
  have len: "length ?m = card (dom (deleg_map ?D) \<union> dom (deleg_map ?S))" using a by (intro merged_length) simp_all
  have "{tcap_uid (tcap_sched_info ?D), tcap_uid (tcap_sched_info ?S)} \<subseteq> dom (deleg_map ?D) \<union> dom (deleg_map ?S)"
    using a own_uid_dom by simp
  then have "card {tcap_uid (tcap_sched_info ?D), tcap_uid (tcap_sched_info ?S)} \<le> length ?m"
    unfolding len by (rule card_mono [rotated]) (simp add: dom_deleg_map)
  then have two: "\<not> length ?m < 2" using a by simp
  have le: "\<not> TCAP_MAX_DELEGATIONS < length ?m" using a len by simp
  have inf: "\<not> (cycles = TCAP_RES_INF \<and> budget ?S \<noteq> TCAP_RES_INF)" using a by blast
  obtain D S off where *: "prio_written (tcap_uid (tcap_sched_info ?S)) (eff_prio p ?S) ?D D"
    "prio_written (tcap_uid (tcap_sched_info ?S)) (eff_prio p ?S) ?S S"
    "length ?m \<le> TCAP_MAX_DELEGATIONS \<longrightarrow> off < length ?m \<and> tcap_uid (?m ! off) = tcap_uid (tcap_sched_info ?D)"
    "tcap_delegate c dst src cycles p s =
      (if TCAP_MAX_DELEGATIONS < length ?m then Some (- ENOMEM, s\<lparr>tcaps := (tcaps s)(dst := D, src := S)\<rparr>)
       else if cycles = TCAP_RES_INF \<and> budget ?S \<noteq> TCAP_RES_INF
       then Some (- EINVAL, s\<lparr>tcaps := (tcaps s)(dst := D, src := S)\<rparr>)
       else if length ?m < 2 then None
       else Some (0, delegated dst src cycles p D S off s))"
    using tcap_delegate_eq [of dst src s c "eff_prio p ?S" p "tcap_uid (tcap_sched_info ?S)"
        "tcap_uid (tcap_sched_info ?D)" ?m cycles] a by blast
  have "tcap_delegate c dst src cycles p s = Some (0, delegated dst src cycles p D S off s)"
    using *(4) two inf le by (simp only: if_False)
  with *(1-3) le that show thesis by (meson not_le_imp_less)
qed

lemma delegated_map:
  assumes "can_delegate c dst src cycles s" "off < length (merged p (tcaps s dst) (tcaps s src))"
    "tcap_uid (merged p (tcaps s dst) (tcaps s src) ! off) = tcap_uid (tcap_sched_info (tcaps s dst))"
  shows "deleg_map (tcaps (delegated dst src cycles p D S off s) dst) =
    (\<lambda>u. max_opt (deleg_map (tcaps s dst) u) (deleg_map (tcaps s src) u))
      (tcap_uid (tcap_sched_info (tcaps s src)) \<mapsto> eff_prio p (tcaps s src),
       tcap_uid (tcap_sched_info (tcaps s dst)) \<mapsto> eff_prio p (tcaps s src))"
proof -
  have wf: "deleg_wf (tcaps s dst)" "deleg_wf (tcaps s src)" "dst \<noteq> src" using assms(1) by (simp_all add: can_delegate_def)
  show ?thesis using wf(3) prio_map_update [OF merged_uids [OF wf(1,2)] assms(2)] merged_map [OF wf(1,2)] assms(3)
    by (simp add: delegated_def Let_def deleg_map_def delegs_deleg_result)
qed

section \<open>Comparing priorities\<close>

lemma prio_map_mem:
  assumes "sorted_wrt (<) (map tcap_uid ds)"
  shows "prio_map ds u = Some p \<longleftrightarrow> (\<exists>e\<in>set ds. tcap_uid e = u \<and> prio e = p)"
proof -
  have "distinct (map tcap_uid ds)" using assms by (simp add: strict_sorted_iff)
  then have "distinct (map fst (map (\<lambda>e. (tcap_uid e, prio e)) ds))" by (simp add: comp_def)
  then show ?thesis unfolding prio_map_def by (subst map_of_eq_Some_iff) auto
qed

lemma sorted_drop_above:
  assumes "sorted_wrt (<) (map tcap_uid (delegs t))" "i < ndelegs t" "e \<in> set (drop (i + 1) (delegs t))"
  shows "tcap_uid (delegations t i) < tcap_uid e"
proof -
  have "sorted_wrt (<) (map tcap_uid (drop i (delegs t)))" using assms(1) by (metis drop_map sorted_wrt_drop)
  then show ?thesis using assms(2,3) by (simp add: drop_delegs)
qed

lemma higher_prio_loop_iff:
  assumes "sorted_wrt (<) (map tcap_uid (delegs A))" "sorted_wrt (<) (map tcap_uid (delegs C))"
  shows "higher_prio_loop A C i j \<longleftrightarrow>
    (\<forall>a\<in>set (drop i (delegs A)). \<forall>b\<in>set (drop j (delegs C)). tcap_uid a = tcap_uid b \<longrightarrow> prio a \<le> prio b)"
  using assms
proof (induction A C i j rule: higher_prio_loop.induct)
  case (1 A C i j)
  show ?case
  proof (cases "i < ndelegs A \<and> j < ndelegs C")
    case False
    then show ?thesis by (subst higher_prio_loop.simps) auto
  next
    case True
    note da = drop_delegs [OF conjunct1 [OF True]] and dc = drop_delegs [OF conjunct2 [OF True]]
    have a: "\<forall>e\<in>set (drop (i + 1) (delegs A)). tcap_uid (delegations A i) < tcap_uid e"
      and c: "\<forall>e\<in>set (drop (j + 1) (delegs C)). tcap_uid (delegations C j) < tcap_uid e"
      using sorted_drop_above 1(4,5) True by blast+
    consider "tcap_uid (delegations A i) < tcap_uid (delegations C j)"
      | "tcap_uid (delegations C j) < tcap_uid (delegations A i)"
      | "tcap_uid (delegations C j) = tcap_uid (delegations A i)" by fastforce
    then show ?thesis
    proof cases
      case lt: 1
      have "\<forall>b\<in>set (drop j (delegs C)). tcap_uid (delegations A i) < tcap_uid b"
        using c lt by (auto simp: dc intro: less_trans)
      then show ?thesis using 1(2) [OF True _ lt] 1(4,5) True lt
        by (subst higher_prio_loop.simps) (auto simp: da)
    next
      case gt: 2
      have "\<forall>b\<in>set (drop i (delegs A)). tcap_uid (delegations C j) < tcap_uid b"
        using a gt by (auto simp: da intro: less_trans)
      then show ?thesis using 1(1) [OF True gt] 1(4,5) True gt
        by (subst higher_prio_loop.simps) (auto simp: dc)
    next
      case eq: 3
      have ne: "\<not> tcap_uid (delegations C j) < tcap_uid (delegations A i)"
        "\<not> tcap_uid (delegations A i) < tcap_uid (delegations C j)" using eq by simp_all
      show ?thesis
      proof (cases "prio (delegations C j) < prio (delegations A i)")
        case True
        then show ?thesis using \<open>i < ndelegs A \<and> j < ndelegs C\<close> eq
          by (subst higher_prio_loop.simps) (auto simp: da dc not_le)
      next
        case False
        have "higher_prio_loop A C i j = higher_prio_loop A C (i + 1) (j + 1)"
          using True ne False by (subst higher_prio_loop.simps) simp
        also have "\<dots> \<longleftrightarrow> (\<forall>a\<in>set (drop (i + 1) (delegs A)). \<forall>b\<in>set (drop (j + 1) (delegs C)).
            tcap_uid a = tcap_uid b \<longrightarrow> prio a \<le> prio b)"
          by (rule 1(3) [OF True ne False 1(4,5)])
        finally show ?thesis using a c eq False by (auto simp: da dc)
      qed
    qed
  qed
qed

section \<open>The one-shot timer\<close>

lemma unat_time2cyc:
  "unat (tcap_time2cyc c cur) = unat c * 2 ^ 12 + unat cur div 2 ^ 44 * 2 ^ 44"
proof -
  let ?a = "push_bit 12 (ucast c :: u64)" and ?b = "push_bit 44 (drop_bit 44 cur)"
  have "?a AND ?b = 0"
    by (rule bit_word_eqI) (auto simp: bit_and_iff bit_push_bit_iff bit_ucast_iff bit_drop_bit_eq dest: bit_imp_le_length)
  then have "?a OR ?b = ?a + ?b" by (simp add: disjunctive_add_eq_or)
  moreover have a: "unat ?a = unat c * 2 ^ 12"
  proof -
    have "unat c < 2 ^ 32" using unsigned_less [of c, where ?'a = nat] by simp
    then have "unat c * 2 ^ 12 < 2 ^ 64" by simp
    then show ?thesis by (simp add: push_bit_eq_mult unat_word_ariths unsigned_ucast_eq take_bit_nat_eq_self)
  qed
  moreover have b: "unat ?b = unat cur div 2 ^ 44 * 2 ^ 44"
  proof -
    have "unat cur div 2 ^ 44 * 2 ^ 44 < 2 ^ 64"
      using unsigned_less [of cur, where ?'a = nat] div_times_less_eq_dividend [of "unat cur" "2 ^ 44"] by (simp del: div_times_less_eq_dividend)
    then show ?thesis by (simp add: push_bit_eq_mult drop_bit_eq_div unat_word_ariths unat_div)
  qed
  moreover have "unat (?a + ?b) = unat ?a + unat ?b"
  proof -
    have "unat c < 2 ^ 32" "unat cur < 2 ^ 64"
      using unsigned_less [of c, where ?'a = nat] unsigned_less [of cur, where ?'a = nat] by simp_all
    then have "unat c * 2 ^ 12 < 2 ^ 44" "unat cur div 2 ^ 44 < 2 ^ 20" by (simp_all add: less_mult_imp_div_less)
    then have "unat ?a + unat ?b < 2 ^ 64" unfolding a b by simp
    then show ?thesis by (simp add: unat_word_ariths)
  qed
  ultimately show ?thesis by (simp add: tcap_time2cyc_def TCAP_TIME_MAX_BITS_def TCAP_TIME_MAX_ORD_def TCAP_TIME_QUANTUM_ORD_def)
qed

lemma unat_cyc2time:
  "unat (tcap_cyc2time c) = (let t = unat c div 2 ^ 12 mod 2 ^ 32 in if t = 0 then 1 else t)"
proof -
  have "unat (ucast (drop_bit 12 c) :: u32) = unat c div 2 ^ 12 mod 2 ^ 32"
    by (simp add: unsigned_ucast_eq drop_bit_eq_div unat_div take_bit_eq_mod)
  then show ?thesis
    by (simp add: tcap_cyc2time_def TCAP_TIME_QUANTUM_ORD_def TCAP_TIME_NIL_def Let_def word_unat_eq_iff)
qed

lemma cycles_same_nat:
  "cycles_same a b d \<longleftrightarrow> unat a - unat b \<le> unat d \<and> unat b - unat a \<le> unat d"
  by (auto simp: cycles_same_def word_le_nat_alt word_less_nat_alt unat_sub_if')

text \<open>A time-out that is not behind the clock lies in the current quantum or later.\<close>

lemma timeout_not_past:
  assumes "\<not> tcap_time_lessthan tmo (tcap_cyc2time now)" "tmo \<noteq> TCAP_TIME_NIL"
  shows "unat now < unat (tcap_time2cyc tmo now) + 2 ^ 12"
proof -
  let ?q = "unat now div 2 ^ 12"
  have "?q mod 2 ^ 32 \<le> unat tmo"
    using assms(1) unat_cyc2time [of now] by (auto simp: tcap_time_lessthan_def word_less_nat_alt Let_def split: if_splits)
  moreover have "?q = unat now div 2 ^ 44 * 2 ^ 32 + ?q mod 2 ^ 32"
    using div_mult_mod_eq [of ?q "2 ^ 32"] by (simp add: div_mult2_eq [symmetric])
  ultimately have "?q * 2 ^ 12 \<le> unat tmo * 2 ^ 12 + unat now div 2 ^ 44 * 2 ^ 44" by simp
  moreover have "unat now < ?q * 2 ^ 12 + 2 ^ 12" by (simp add: dividend_less_div_times)
  ultimately show ?thesis by (simp add: unat_time2cyc)
qed

lemma tcap_active_next_live:
  assumes "tcap_inv c T s"
  shows "if \<forall>t\<in>T. tcap_expended s t then tcap_active_next s c = 0
    else tcap_active_next s c \<in> T \<and> tcap_active_next s c \<noteq> 0 \<and> \<not> tcap_expended s (tcap_active_next s c)"
proof -
  obtain ts where ts: "klist (lst s) (LTcaps c) (map LActive ts)" "set ts = {t \<in> T. \<not> tcap_expended s t}"
    "\<forall>t\<in>T. t \<noteq> 0 \<and> container (lst s (LActive t)) = t"
    using assms by (auto simp: tcap_inv_def active_list_def tcap_expended_def tcap_left_def)
  show ?thesis using klist_first [OF ts(1)] ts(2,3) by (cases ts) (auto simp: tcap_active_next_def)
qed

section \<open>Properties of temporal capabilities\<close>

text \<open>
  C2. Over every sequence of charges, delegations, transfers, creations, priority changes, promotions and merges
  whose source has a finite budget, on the live tcaps of a core and from a state in which this holds, the active
  list of the core holds exactly the tcaps that have a budget left, the delegation chains stay in order and within
  the array, and no cycles are made: the sum of the budgets never grows.  In particular the tcap that
  \<^verbatim>\<open>tcap_active_next\<close> hands to the scheduler is live and has a budget, and there is none only when all budgets are
  spent.  The code also accepts a merge whose source has an infinite budget, which leaves the deleted source in
  the active list (shown below); such merges are not in the sequences.
\<close>

theorem tcap_run_invariant:
  assumes "rtranclp (tcap_step c) (T, s) (T', s')" "tcap_inv c T s"
  shows "tcap_inv c T' s' \<and> total_budget T' s' \<le> total_budget T s \<and>
    (if \<forall>t\<in>T'. tcap_expended s' t then tcap_active_next s' c = 0
     else tcap_active_next s' c \<in> T' \<and> \<not> tcap_expended s' (tcap_active_next s' c))"
proof -
  have "tcap_inv c (fst y) (snd y) \<and> total_budget (fst y) (snd y) \<le> total_budget T s"
    if "rtranclp (tcap_step c) (T, s) y" for y
    using that
  proof induction
    case (step y z)
    then show ?case using tcap_step_inv [OF step(2)] by (meson order_trans)
  qed (use assms(2) in simp)
  from this [OF assms(1)] have inv: "tcap_inv c T' s'" "total_budget T' s' \<le> total_budget T s" by simp_all
  with tcap_active_next_live [OF inv(1)] show ?thesis by (simp split: if_splits)
qed

text \<open>
  C14. Delegation succeeds when the two tcaps are on this core, the destination has an end-point, the
  source has a budget, and the schedulers of both chains fit into the array.  The destination's chain
  then stands for the pointwise lower priority, that is the numerically greater value, of the two
  chains, with the requested priority for the two schedulers that take part: delegated time never runs
  at a higher priority than a scheduler in the chain gave it.
\<close>

theorem tcap_delegate_prios:
  assumes "can_delegate c dst src cycles s"
  shows "\<exists>s'. tcap_delegate c dst src cycles p s = Some (0, s') \<and>
    deleg_wf (tcaps s' dst) \<and> deleg_wf (tcaps s' src) \<and>
    tcap_uid (tcap_sched_info (tcaps s' dst)) = tcap_uid (tcap_sched_info (tcaps s dst)) \<and>
    deleg_map (tcaps s' dst) =
      (\<lambda>u. max_opt (deleg_map (tcaps s dst) u) (deleg_map (tcaps s src) u))
        (tcap_uid (tcap_sched_info (tcaps s src)) \<mapsto> eff_prio p (tcaps s src),
         tcap_uid (tcap_sched_info (tcaps s dst)) \<mapsto> eff_prio p (tcaps s src))"
proof -
  have wf: "deleg_wf (tcaps s dst)" "deleg_wf (tcaps s src)" "dst \<noteq> src" using assms by (simp_all add: can_delegate_def)
  obtain D S off where ok:
    "prio_written (tcap_uid (tcap_sched_info (tcaps s src))) (eff_prio p (tcaps s src)) (tcaps s src) S"
    "length (merged p (tcaps s dst) (tcaps s src)) \<le> TCAP_MAX_DELEGATIONS"
    "off < length (merged p (tcaps s dst) (tcaps s src))"
    "tcap_uid (merged p (tcaps s dst) (tcaps s src) ! off) = tcap_uid (tcap_sched_info (tcaps s dst))"
    "tcap_delegate c dst src cycles p s = Some (0, delegated dst src cycles p D S off s)"
    using tcap_delegate_ok [OF assms] by metis
  let ?s' = "delegated dst src cycles p D S off s"
  have "deleg_wf (tcaps ?s' dst)" "tcap_uid (tcap_sched_info (tcaps ?s' dst)) = tcap_uid (tcap_sched_info (tcaps s dst))"
    using deleg_result_wf [OF merged_uids [OF wf(1,2)] ok(3,2)] wf(3) ok(4)
    by (simp_all add: delegated_def Let_def tcap_sched_info_def deleg_result_def)
  moreover have "deleg_wf (tcaps ?s' src)"
    using prio_written_wf [OF ok(1)] wf(2) by (simp add: delegated_def Let_def)
  ultimately show ?thesis using delegated_map [OF assms ok(3,4)] ok(5) by blast
qed

text \<open>
  C30. The two-pointer comparison of \<^verbatim>\<open>tcap_higher_prio\<close> agrees with the definition of being able to
  preempt: a tcap with a budget preempts another exactly when every scheduler that appears in both
  chains gives it at least the other's priority.
\<close>

theorem tcap_higher_prio_pointwise:
  assumes "deleg_wf (tcaps s a)" "deleg_wf (tcaps s b)"
  shows "tcap_higher_prio s a b \<longleftrightarrow> \<not> tcap_expended s a \<and>
    (a = b \<or> (\<forall>u p q. deleg_map (tcaps s a) u = Some p \<longrightarrow> deleg_map (tcaps s b) u = Some q \<longrightarrow> p \<le> q))"
proof -
  have st: "sorted_wrt (<) (map tcap_uid (delegs (tcaps s a)))" "sorted_wrt (<) (map tcap_uid (delegs (tcaps s b)))"
    using assms by (simp_all add: deleg_wf_def)
  show ?thesis
    unfolding tcap_higher_prio_def higher_prio_loop_iff [OF st] deleg_map_def prio_map_mem [OF st(1)] prio_map_mem [OF st(2)]
    by auto
qed

text \<open>
  C31. The timer: while the time-stamp counter is not about to wrap, programming the one-shot timer never
  trips its assertion.  Unless the budget is infinite and there is no time-out, the deadline \<open>d\<close> is at
  most the budget, or the smallest programmable interval, ahead of the clock, and at most one quantum
  behind it; the timer is either set to \<open>d\<close> or was already set to within the tolerance of it.
\<close>

theorem tcap_timer_deadline:
  assumes "unat now + 2 ^ 33 < 2 ^ 64" "\<not> (tmo = TCAP_TIME_NIL \<and> tcap_left s t = TCAP_RES_INF)"
  shows "\<exists>d s'. tcap_timer_update c t tmo now s = Some s' \<and>
    unat d \<le> unat now + max (unat (tcap_left s t)) 512 \<and> unat now < unat d + 2 ^ 12 \<and>
    (s' = s \<and> cycles_same (next_timer (cli s c)) d 512 \<or>
     next_timer (cli s' c) = d \<and> timer_deadline (cli s' c) = Some d)"
proof -
  let ?left = "tcap_left s t"
  define t0 where "t0 = now + ucast ?left"
  define t1 where "t1 = (if tmo \<noteq> TCAP_TIME_NIL \<and> tcap_time2cyc tmo now < t0
    then if tcap_time_lessthan tmo (tcap_cyc2time now) then now else tcap_time2cyc tmo now else t0)"
  define d where "d = (if cycles_same now t1 TCAP_TIMER_DIFF then now + TCAP_TIMER_DIFF else t1)"
  have left: "unat (ucast ?left :: u64) = unat ?left" "unat ?left < 2 ^ 32"
    using unsigned_less [of ?left, where ?'a = nat] by (simp_all add: unsigned_ucast_eq take_bit_nat_eq_self)
  have t0: "unat t0 = unat now + unat ?left" using assms(1) left by (simp add: t0_def unat_word_ariths)
  have diff: "unat TCAP_TIMER_DIFF = 512" "unat (now + TCAP_TIMER_DIFF) = unat now + 512"
    using assms(1) by (simp_all add: TCAP_TIMER_DIFF_def unat_word_ariths)
  have t1: "unat t1 \<le> unat now + unat ?left" "unat now < unat t1 + 2 ^ 12"
    using t0 timeout_not_past [of tmo now] by (auto simp: t1_def word_less_nat_alt)
  have d: "unat d \<le> unat now + max (unat ?left) 512" "unat now < unat d + 2 ^ 12" using t1 diff by (auto simp: d_def)
  have nz: "unat tmo = 0 \<Longrightarrow> tmo = 0" by (simp add: word_unat_eq_iff)
  have "d \<noteq> 0"
  proof (cases "cycles_same now t1 TCAP_TIMER_DIFF")
    case False
    then have "0 < unat t1"
      using t1 unat_time2cyc [of tmo now] t0 nz by (auto simp: cycles_same_nat diff t1_def TCAP_TIME_NIL_def unat_gt_0 split: if_splits)
    then show ?thesis using False by (auto simp: d_def)
  qed (use diff in \<open>auto simp: d_def\<close>)
  have "\<not> (tmo = TCAP_TIME_NIL \<and> TCAP_RES_IS_INF ?left)" using assms(2) by (simp add: TCAP_RES_IS_INF_def)
  then have "tcap_timer_update c t tmo now s =
    (if cycles_same (next_timer (cli s c)) d TCAP_TIMER_DIFF \<and> next_timer (cli s c) \<noteq> 0 then Some s
     else Some (upd_cli c (\<lambda>i. i\<lparr>next_timer := d, timer_deadline := Some d\<rparr>) s))"
    using \<open>d \<noteq> 0\<close> unfolding tcap_timer_update_def Let_def t0_def [symmetric] t1_def [symmetric] d_def [symmetric]
    by auto
  moreover have "TCAP_TIMER_DIFF = 512" by (simp add: TCAP_TIMER_DIFF_def)
  ultimately show ?thesis using d by (auto simp: upd_cli_def)
qed

text \<open>
  C36. Merging a tcap whose budget is infinite succeeds, but leaves the deleted tcap in the active list
  with an empty budget: \<^verbatim>\<open>__tcap_budget_xfer\<close> unlinks its source only when the source's budget reached zero,
  which an infinite budget never does, and \<^verbatim>\<open>tcap_delete\<close> then clears the budget without unlinking.
\<close>

theorem tcap_merge_infinite_stale:
  assumes "tcap_inv c T s" "dst \<in> T" "rm \<in> T" "can_delegate c dst rm 0 s" "tc_refcnt (tcaps s rm) = 1"
    "budget (tcaps s rm) = TCAP_RES_INF"
  shows "\<exists>s'. tcap_merge c dst rm s = Some (0, s') \<and> tcap_expended s' rm \<and> tcap_is_active s' rm \<and> \<not> tcap_inv c T s'"
proof -
  let ?p = "prio (tcap_sched_info (tcaps s dst))"
  have ne: "dst \<noteq> rm" "rm \<noteq> 0" using assms(4) by (simp_all add: can_delegate_def)
  obtain D S off where ok:
    "prio_written (tcap_uid (tcap_sched_info (tcaps s rm))) (eff_prio ?p (tcaps s rm)) (tcaps s rm) S"
    "tcap_delegate c dst rm 0 ?p s = Some (0, delegated dst rm 0 ?p D S off s)"
    using tcap_delegate_ok [OF assms(4)] by metis
  define s1 where "s1 = delegated dst rm 0 ?p D S off s"
  have inv: "tcap_inv c T s1" using tcap_inv_delegate [OF assms(1-3) ok(2)] by (simp add: s1_def)
  have rm: "budget (tcaps s1 rm) = TCAP_RES_INF" "tc_refcnt (tcaps s1 rm) = 1"
    using assms(5,6) prio_written_fields [OF ok(1)] ne by (simp_all add: s1_def delegated_def Let_def debit_def)
  have act: "\<not> list_empty (lst s1) (LActive rm)"
    using active_list_empty [of "lst s1" c T "\<lambda>t. budget (tcaps s1 t)" rm] inv assms(3) rm(1)
    by (simp add: tcap_inv_def TCAP_RES_INF_def)
  obtain s' where del: "tcap_delete c rm s1 = Some (0, s')" using ne(2) rm(2) by (simp add: tcap_delete_def tcap_ref_def Let_def)
  note d = tcap_delete_eq [OF del]
  have "tcap_merge c dst rm s = Some (0, s')"
    using ne ok(2) del assms(5) by (simp add: tcap_merge_def tcap_ref_def s1_def [symmetric])
  moreover have "tcap_expended s' rm" "tcap_is_active s' rm"
    using d act by (simp_all add: tcap_expended_def tcap_left_def tcap_is_active_def)
  moreover have "\<not> tcap_inv c T s'"
    using active_list_empty [of "lst s'" c T "\<lambda>t. budget (tcaps s' t)" rm] assms(3) d(1,3) act by (auto simp: tcap_inv_def)
  ultimately show ?thesis by blast
qed

section \<open>Two tcaps on a core\<close>

definition ex_tcap :: "u64 \<Rightarrow> u64 \<Rightarrow> u32 \<Rightarrow> tcap" where
  "ex_tcap uid p b = tcap_zero\<lparr>arcv_ep := 0x9000, tc_refcnt := 1, budget := b, ndelegs := 1,
     delegations := (\<lambda>_. \<lparr>tcap_uid = uid, prio = p\<rparr>)\<rparr>"

definition ex_tc :: "u32 \<Rightarrow> kst" where
  "ex_tc b = (idle_kst ex_kmem)\<lparr>tcaps := (\<lambda>t. if t = 0x1000 then ex_tcap 1 5 100 else ex_tcap 2 7 b),
     lst := list_enqueue (LTcaps 0) (LActive 0x2000) (list_enqueue (LTcaps 0) (LActive 0x1000) idle_node)\<rparr>"

lemma ex_tcap_wf: "deleg_wf (ex_tcap uid p b)" "deleg_map (ex_tcap uid p b) = [uid \<mapsto> p]"
  "tcap_sched_info (ex_tcap uid p b) = \<lparr>tcap_uid = uid, prio = p\<rparr>"
  by (simp_all add: deleg_wf_def deleg_map_def delegs_def ex_tcap_def tcap_zero_def tcap_sched_info_def)

lemma ex_tc_inv:
  assumes "b \<noteq> 0" shows "tcap_inv 0 {0x1000, 0x2000} (ex_tc b)"
proof -
  have "klist idle_node (LTcaps 0) []" by (simp add: klist_def idle_node_def)
  from list_enqueue_klist [OF this, of "LActive 0x1000"]
  have one: "klist (list_enqueue (LTcaps 0) (LActive 0x1000) idle_node) (LTcaps 0) [LActive 0x1000]" by (simp add: idle_node_def)
  from list_enqueue_klist [OF one, of "LActive 0x2000"]
  have two: "klist (lst (ex_tc b)) (LTcaps 0) (map LActive [0x1000, 0x2000])"
    by (simp add: ex_tc_def idle_node_def list_enqueue_def)
  have "active_list (lst (ex_tc b)) 0 {0x1000, 0x2000} (\<lambda>t. budget (tcaps (ex_tc b) t))"
    by (rule active_listI [OF two])
      (use assms in \<open>auto simp: ex_tc_def ex_tcap_def list_enqueue_def idle_node_def\<close>)
  then show ?thesis by (simp add: tcap_inv_def ex_tc_def ex_tcap_wf)
qed

lemma ex_tc_sel:
  "tcaps (ex_tc b) 0x1000 = ex_tcap 1 5 100" "tcaps (ex_tc b) 0x2000 = ex_tcap 2 7 b"
  by (simp_all add: ex_tc_def)

lemma ex_tc_delegate: "b \<noteq> 0 \<Longrightarrow> can_delegate 0 0x1000 0x2000 0 (ex_tc b)"
  using active_list_empty [of "lst (ex_tc b)" 0 "{0x1000, 0x2000}" "\<lambda>t. budget (tcaps (ex_tc b) t)" "0x2000"] ex_tc_inv [of b]
  by (simp add: can_delegate_def ex_tc_sel ex_tcap_wf tcap_inv_def tcap_is_active_def tcap_isactive_def)
    (simp add: ex_tcap_def tcap_zero_def TCAP_RES_INF_def)

theorem tcap_run_invariant_witness:
  "\<exists>s'. rtranclp (tcap_step 0) ({0x1000, 0x2000}, ex_tc 50) ({0x1000, 0x2000}, s') \<and>
    tcap_inv 0 {0x1000, 0x2000} s' \<and> total_budget {0x1000, 0x2000} s' \<le> total_budget {0x1000, 0x2000} (ex_tc 50)"
proof -
  obtain s' where "tcap_consume 0x1000 30 (ex_tc 50) = Some (70, s')"
    by (simp add: tcap_consume_def ex_tc_sel ex_tcap_def TCAP_RES_IS_INF_def TCAP_RES_INF_def tcap_cycles_same_def cycles_same_def
        upd_tcap_def Let_def) (simp add: ex_tc_def upd_tcap_def ex_tcap_def)
  then have "tcap_step 0 ({0x1000, 0x2000}, ex_tc 50) ({0x1000, 0x2000}, s')" by (intro tcap_step.consume) auto
  then have run: "rtranclp (tcap_step 0) ({0x1000, 0x2000}, ex_tc 50) ({0x1000, 0x2000}, s')" by (rule r_into_rtranclp)
  with tcap_run_invariant [OF run] show ?thesis using ex_tc_inv [of 50] by auto
qed

theorem tcap_delegate_prios_witness:
  "\<exists>s'. tcap_delegate 0 0x1000 0x2000 0 9 (ex_tc 50) = Some (0, s') \<and> deleg_map (tcaps s' 0x1000) = [1 \<mapsto> 9, 2 \<mapsto> 9]"
proof -
  have "(\<lambda>u. max_opt (if u = 1 then Some 5 else None) (if u = 2 then Some 7 else None))(2 \<mapsto> 9, 1 \<mapsto> 9) = [1 \<mapsto> 9, 2 \<mapsto> 9 :: u64]"
    by (auto simp: fun_eq_iff)
  then show ?thesis using tcap_delegate_prios [OF ex_tc_delegate, of 50 9]
    by (auto simp: ex_tc_sel ex_tcap_wf eff_prio_def fun_upd_def)
qed

theorem tcap_higher_prio_pointwise_witness:
  "deleg_wf (tcaps (ex_tc 50) 0x1000) \<and> deleg_wf (tcaps (ex_tc 50) 0x2000) \<and> tcap_higher_prio (ex_tc 50) 0x1000 0x2000"
  using tcap_higher_prio_pointwise [of "ex_tc 50" "0x1000" "0x2000"]
  by (auto simp: ex_tc_sel ex_tcap_wf tcap_expended_def tcap_left_def split: if_splits) (simp add: ex_tcap_def)

theorem tcap_timer_deadline_witness:
  "\<exists>d s'. tcap_timer_update 0 0x1000 0 10000 (ex_tc 50) = Some s' \<and> unat d \<le> 10512 \<and>
    (s' = ex_tc 50 \<and> cycles_same (next_timer (cli (ex_tc 50) 0)) d 512 \<or> timer_deadline (cli s' 0) = Some d)"
  using tcap_timer_deadline [of "10000" "0" "ex_tc 50" "0x1000" 0]
  by (auto simp: tcap_left_def ex_tc_sel) (auto simp: ex_tcap_def TCAP_RES_INF_def)

theorem tcap_merge_infinite_stale_witness:
  "\<exists>s'. tcap_merge 0 0x1000 0x2000 (ex_tc TCAP_RES_INF) = Some (0, s') \<and>
    tcap_expended s' 0x2000 \<and> tcap_is_active s' 0x2000"
proof -
  have b: "TCAP_RES_INF \<noteq> 0" by (simp add: TCAP_RES_INF_def)
  show ?thesis
    using tcap_merge_infinite_stale [OF ex_tc_inv [OF b] _ _ ex_tc_delegate [OF b]] by (simp add: ex_tc_sel ex_tcap_def) blast
qed

end
