(* ===== verification/Heap.thy ===== *)
theory Heap
  imports Prelude "HOL-Library.Signed_Division"
begin

text \<open>
  The binary heap of the user-level libraries (\<^verbatim>\<open>components/lib/heap.c\<close>, \<^verbatim>\<open>heap.h\<close>).

  Entries are pointers.  The comparison function \<^verbatim>\<open>h->c\<close> and the update function \<^verbatim>\<open>h->u\<close> of the client
  read and write the structures they point to: they are parameters over the client's memory \<open>'m\<close>.
  The array \<^verbatim>\<open>h->data\<close> is the list of its slots, whose length is the space that the client provides
  behind the structure, so that an access beyond it is \<open>None\<close>, as is a failed assertion.
  The debugging checks \<^verbatim>\<open>heap_verify\<close> are compiled out in the source (\<^verbatim>\<open>HEAP_VERIFY\<close> is undefined).
\<close>

type_synonym 'm cmp_fn = "'m \<Rightarrow> addr \<Rightarrow> addr \<Rightarrow> bool"
type_synonym 'm update_fn = "addr \<Rightarrow> int \<Rightarrow> 'm \<Rightarrow> 'm"

record heap =
  hp_e :: int
  hp_max_sz :: int
  hp_data :: "addr list"

section \<open>Operations\<close>

definition swap_entries :: "'m update_fn \<Rightarrow> int \<Rightarrow> int \<Rightarrow> addr list \<times> 'm \<Rightarrow> (addr list \<times> 'm) option" where
  "swap_entries u a b = (\<lambda>(arr, m). do {
     x \<leftarrow> arr_rd arr a;
     y \<leftarrow> arr_rd arr b;
     arr \<leftarrow> arr_wr arr a y;
     arr \<leftarrow> arr_wr arr b x;
     x \<leftarrow> arr_rd arr a;
     y \<leftarrow> arr_rd arr b;
     Some (arr, u y b (u x a m))
   })"

partial_function (option) swap_down_loop ::
  "'m cmp_fn \<Rightarrow> 'm update_fn \<Rightarrow> int \<Rightarrow> int \<Rightarrow> int \<Rightarrow> addr list \<times> 'm \<Rightarrow> (int \<times> addr list \<times> 'm) option" where
  "swap_down_loop cmp u e l c dm =
     (if c \<le> l sdiv 2
      then do {
        let left = 2 * c;
        let right = 2 * c + 1;
        n \<leftarrow> (if right > l then Some left
             else do {
               a \<leftarrow> arr_rd (fst dm) left;
               b \<leftarrow> arr_rd (fst dm) right;
               Some (if cmp (snd dm) a b then left else right)
             });
        kassert (n < e);
        a \<leftarrow> arr_rd (fst dm) c;
        b \<leftarrow> arr_rd (fst dm) n;
        if cmp (snd dm) a b then Some (c, dm)
        else do {
          dm \<leftarrow> swap_entries u n c dm;
          swap_down_loop cmp u e l n dm
        }
      }
      else Some (c, dm))"

definition swap_down :: "'m cmp_fn \<Rightarrow> 'm update_fn \<Rightarrow> int \<Rightarrow> heap \<times> 'm \<Rightarrow> (int \<times> heap \<times> 'm) option" where
  "swap_down cmp u c = (\<lambda>(h, m). do {
     kassert (c \<noteq> 0);
     kassert (c \<le> hp_e h);
     (c, d, m) \<leftarrow> swap_down_loop cmp u (hp_e h) (hp_e h - 1) c (hp_data h, m);
     Some (c, h\<lparr>hp_data := d\<rparr>, m)
   })"

partial_function (option) swap_up_loop ::
  "'m cmp_fn \<Rightarrow> 'm update_fn \<Rightarrow> int \<Rightarrow> addr list \<times> 'm \<Rightarrow> (int \<times> addr list \<times> 'm) option" where
  "swap_up_loop cmp u c dm =
     (if c > 1
      then do {
        let p = c sdiv 2;
        kassert (p \<noteq> 0);
        a \<leftarrow> arr_rd (fst dm) p;
        b \<leftarrow> arr_rd (fst dm) c;
        if cmp (snd dm) a b then Some (c, dm)
        else do {
          dm \<leftarrow> swap_entries u p c dm;
          swap_up_loop cmp u p dm
        }
      }
      else Some (c, dm))"

definition swap_up :: "'m cmp_fn \<Rightarrow> 'm update_fn \<Rightarrow> int \<Rightarrow> heap \<times> 'm \<Rightarrow> (int \<times> heap \<times> 'm) option" where
  "swap_up cmp u c = (\<lambda>(h, m). do {
     kassert (c \<le> hp_e h);
     kassert (c > 0);
     (c, d, m) \<leftarrow> swap_up_loop cmp u c (hp_data h, m);
     kassert (c \<noteq> 0);
     Some (c, h\<lparr>hp_data := d\<rparr>, m)
   })"

definition heapify :: "'m cmp_fn \<Rightarrow> 'm update_fn \<Rightarrow> int \<Rightarrow> heap \<times> 'm \<Rightarrow> (int \<times> heap \<times> 'm) option" where
  "heapify cmp u c hm = do {
     (c, hm) \<leftarrow> swap_up cmp u c hm;
     swap_down cmp u c hm
   }"

text \<open>\<^verbatim>\<open>heap_init\<close> on a structure that is followed by the slots \<open>space\<close>.\<close>

definition heap_init :: "int \<Rightarrow> addr list \<Rightarrow> heap" where
  "heap_init max_sz space = \<lparr>hp_e = 1, hp_max_sz = max_sz + 1, hp_data = space\<rparr>"

definition heap_size :: "heap \<Rightarrow> int" where
  "heap_size h = hp_e h - 1"

definition heap_empty :: "heap \<Rightarrow> bool" where
  "heap_empty h \<longleftrightarrow> heap_size h = 0"

definition heap_add :: "'m cmp_fn \<Rightarrow> 'm update_fn \<Rightarrow> addr \<Rightarrow> (heap \<times> 'm, int) kop" where
  "heap_add cmp u new = (\<lambda>(h, m).
     if hp_max_sz h = hp_e h then Some (- 1, h, m)
     else do {
       let c = hp_e h;
       d \<leftarrow> arr_wr (hp_data h) c new;
       (_, hm) \<leftarrow> heapify cmp u c (h\<lparr>hp_data := d, hp_e := hp_e h + 1\<rparr>, u new c m);
       Some (0, hm)
     })"

definition heap_highest :: "'m cmp_fn \<Rightarrow> 'm update_fn \<Rightarrow> (heap \<times> 'm, addr) kop" where
  "heap_highest cmp u = (\<lambda>(h, m).
     if hp_e h = 1 then Some (0, h, m)
     else do {
       r \<leftarrow> arr_rd (hp_data h) 1;
       let h = h\<lparr>hp_e := hp_e h - 1\<rparr>;
       x \<leftarrow> arr_rd (hp_data h) (hp_e h);
       d \<leftarrow> arr_wr (hp_data h) 1 x;
       (_, h, m) \<leftarrow> swap_down cmp u 1 (h\<lparr>hp_data := d\<rparr>, u x 1 m);
       Some (r, h, u r 0 m)
     })"

definition heap_peek :: "heap \<Rightarrow> addr option" where
  "heap_peek h = (if hp_e h = 1 then Some 0 else arr_rd (hp_data h) 1)"

definition heap_adjust :: "'m cmp_fn \<Rightarrow> 'm update_fn \<Rightarrow> int \<Rightarrow> heap \<times> 'm \<Rightarrow> (heap \<times> 'm) option" where
  "heap_adjust cmp u c = (\<lambda>(h, m). do {
     kassert (c < hp_e h);
     kassert (c > 0);
     (_, hm) \<leftarrow> heapify cmp u c (h, m);
     Some hm
   })"

definition heap_remove :: "'m cmp_fn \<Rightarrow> 'm update_fn \<Rightarrow> int \<Rightarrow> (heap \<times> 'm, addr) kop" where
  "heap_remove cmp u c = (\<lambda>(h, m). do {
     kassert (c < hp_e h);
     kassert (c \<ge> 1);
     if hp_e h = 1 then Some (0, h, m)
     else do {
       r \<leftarrow> arr_rd (hp_data h) c;
       let h = h\<lparr>hp_e := hp_e h - 1\<rparr>;
       let m = u r 0 m;
       if c = hp_e h then Some (r, h, m)
       else do {
         x \<leftarrow> arr_rd (hp_data h) (hp_e h);
         d \<leftarrow> arr_wr (hp_data h) c x;
         hm \<leftarrow> heap_adjust cmp u c (h\<lparr>hp_data := d\<rparr>, u x c m);
         Some (r, hm)
       }
     }
   })"

section \<open>Specification\<close>

text \<open>The entries of a heap, its order, and the order with a gap around the position \<open>c\<close>.\<close>

definition elems :: "addr list \<Rightarrow> nat \<Rightarrow> addr set" where
  "elems d e = (!) d ` {1..<e}"

definition heap_ord :: "'m cmp_fn \<Rightarrow> 'm \<Rightarrow> addr list \<Rightarrow> nat \<Rightarrow> bool" where
  "heap_ord cmp m d e \<longleftrightarrow> (\<forall>i. 2 \<le> i \<and> i < e \<longrightarrow> cmp m (d ! (i div 2)) (d ! i))"

definition gap_ord :: "'m cmp_fn \<Rightarrow> 'm \<Rightarrow> addr list \<Rightarrow> nat \<Rightarrow> nat \<Rightarrow> nat set \<Rightarrow> bool" where
  "gap_ord cmp m d e c I \<longleftrightarrow>
     (\<forall>i. 2 \<le> i \<and> i < e \<and> i div 2 \<noteq> c \<and> i \<notin> I \<longrightarrow> cmp m (d ! (i div 2)) (d ! i)) \<and>
     (\<forall>i. i < e \<and> i div 2 = c \<and> 2 \<le> c \<longrightarrow> cmp m (d ! (c div 2)) (d ! i))"

definition idx_ok :: "('m \<Rightarrow> addr \<Rightarrow> int) \<Rightarrow> 'm \<Rightarrow> addr list \<Rightarrow> nat \<Rightarrow> bool" where
  "idx_ok idx m d e \<longleftrightarrow> (\<forall>i. 1 \<le> i \<and> i < e \<longrightarrow> idx m (d ! i) = int i)"

text \<open>The effect of moving entries around: the same entries, compared as before, with correct positions.\<close>

definition heap_perm ::
  "'m cmp_fn \<Rightarrow> ('m \<Rightarrow> addr \<Rightarrow> int) \<Rightarrow> ('m \<Rightarrow> 'o) \<Rightarrow> nat \<Rightarrow> addr list \<times> 'm \<Rightarrow> addr list \<times> 'm \<Rightarrow> bool" where
  "heap_perm cmp idx obs e = (\<lambda>(d, m) (d', m').
     length d' = length d \<and> elems d' e = elems d e \<and> cmp m' = cmp m \<and> obs m' = obs m \<and>
     (idx_ok idx m d e \<longrightarrow> idx_ok idx m' d' e) \<and> (\<forall>y. y \<notin> elems d e \<longrightarrow> idx m' y = idx m y))"

lemma heap_perm_refl [simp]: "heap_perm cmp idx obs e dm dm"
  by (cases dm) (simp add: heap_perm_def)

lemma heap_perm_trans: "heap_perm cmp idx obs e a b \<Longrightarrow> heap_perm cmp idx obs e b c \<Longrightarrow> heap_perm cmp idx obs e a c"
  by (cases a; cases b; cases c) (auto simp: heap_perm_def)

lemma idx_ok_inj: "idx_ok idx m d e \<Longrightarrow> i \<in> {1..<e} \<Longrightarrow> j \<in> {1..<e} \<Longrightarrow> d ! i = d ! j \<longleftrightarrow> i = j"
  unfolding idx_ok_def by (metis atLeastLessThan_iff of_nat_eq_iff)

lemma idx_ok_cong: "(\<And>y. idx m y = idx m' y) \<Longrightarrow> idx_ok idx m d e \<longleftrightarrow> idx_ok idx m' d e"
  by (simp add: idx_ok_def)

lemma card_elems: "idx_ok idx m d e \<Longrightarrow> card (elems d e) = e - 1"
proof -
  assume "idx_ok idx m d e"
  then have "inj_on ((!) d) {1..<e}" by (auto simp: inj_on_def idx_ok_inj)
  then show ?thesis by (simp add: elems_def card_image)
qed

lemma elems_at: "idx_ok idx m d e \<Longrightarrow> x \<in> elems d e \<Longrightarrow> \<exists>c. idx m x = int c \<and> d ! c = x \<and> 1 \<le> c \<and> c < e"
  by (auto simp: elems_def idx_ok_def)

lemma elems_swap:
  assumes "a \<in> {1..<e}" "b \<in> {1..<e}" "e \<le> length d"
  shows "elems (d[a := d ! b, b := d ! a]) e = elems d e"
proof -
  have "elems (d[a := d ! b, b := d ! a]) e \<subseteq> elems d e"
    using assms by (auto simp: elems_def nth_list_update)
  moreover have "d ! i \<in> elems (d[a := d ! b, b := d ! a]) e" if "i \<in> {1..<e}" for i
    unfolding elems_def using assms that
    by (intro image_eqI [where x = "if i = a then b else if i = b then a else i"]) (auto simp: nth_list_update)
  ultimately show ?thesis unfolding elems_def by blast
qed

text \<open>A heap in order, with the positions of its entries recorded, in the space it has.\<close>

definition heap_ok :: "'m cmp_fn \<Rightarrow> ('m \<Rightarrow> addr \<Rightarrow> int) \<Rightarrow> heap \<Rightarrow> 'm \<Rightarrow> bool" where
  "heap_ok cmp idx h m \<longleftrightarrow> 1 \<le> hp_e h \<and> hp_e h \<le> hp_max_sz h \<and> hp_e h \<le> int (length (hp_data h)) \<and>
     heap_ord cmp m (hp_data h) (nat (hp_e h)) \<and> idx_ok idx m (hp_data h) (nat (hp_e h))"

lemma heap_ok_e:
  assumes "heap_ok cmp idx h m"
  obtains e where "hp_e h = int e" "1 \<le> e" "e \<le> length (hp_data h)"
    "heap_ord cmp m (hp_data h) e" "idx_ok idx m (hp_data h) e"
  using assms that [of "nat (hp_e h)"] by (auto simp: heap_ok_def)

lemma heap_ok_Suc:
  assumes "heap_ok cmp idx h m" "hp_e h \<noteq> 1"
  obtains k where "hp_e h = int (Suc k)" "1 \<le> k" "k < length (hp_data h)" "int k < hp_max_sz h"
    "heap_ord cmp m (hp_data h) (Suc k)" "idx_ok idx m (hp_data h) (Suc k)"
proof -
  obtain e where e: "hp_e h = int e" "1 \<le> e" "e \<le> length (hp_data h)"
    "heap_ord cmp m (hp_data h) e" "idx_ok idx m (hp_data h) e" using heap_ok_e [OF assms(1)] by blast
  with assms(2) obtain k where "e = Suc k" "1 \<le> k" by (cases e) auto
  with e assms(1) that [of k] show ?thesis by (simp add: heap_ok_def)
qed

definition heap_elems :: "heap \<Rightarrow> addr set" where
  "heap_elems h = elems (hp_data h) (nat (hp_e h))"

lemma heap_ok_local:
  assumes ok: "heap_ok cmp idx h m" and cmp: "\<And>x y. x \<in> heap_elems h \<Longrightarrow> y \<in> heap_elems h \<Longrightarrow> cmp m' x y = cmp m x y"
    and idx: "\<And>x. x \<in> heap_elems h \<Longrightarrow> idx m' x = idx m x"
  shows "heap_ok cmp idx h m'"
proof -
  have el: "hp_data h ! i \<in> heap_elems h" if "1 \<le> i" "i < nat (hp_e h)" for i
    using that by (auto simp: heap_elems_def elems_def)
  have "cmp m' (hp_data h ! (i div 2)) (hp_data h ! i) = cmp m (hp_data h ! (i div 2)) (hp_data h ! i)"
    if "2 \<le> i" "i < nat (hp_e h)" for i using that by (intro cmp el) linarith+
  then show ?thesis using ok idx el by (simp add: heap_ok_def heap_ord_def idx_ok_def)
qed

lemma heap_ok_cong:
  assumes "heap_ok cmp idx h m" "cmp m' = cmp m" "\<And>x. x \<in> heap_elems h \<Longrightarrow> idx m' x = idx m x"
  shows "heap_ok cmp idx h m'"
  by (rule heap_ok_local [OF assms(1)]) (simp_all add: assms(2,3))

lemma card_heap_elems: "heap_ok cmp idx h m \<Longrightarrow> int (card (heap_elems h)) = hp_e h - 1"
  using card_elems [of idx m "hp_data h" "nat (hp_e h)"] by (auto simp: heap_ok_def heap_elems_def of_nat_diff)

lemma finite_heap_elems [simp]: "finite (heap_elems h)"
  by (simp add: heap_elems_def elems_def)

text \<open>What an operation leaves alone outside the entries \<open>X\<close>.\<close>

definition heap_frame :: "'m cmp_fn \<Rightarrow> ('m \<Rightarrow> addr \<Rightarrow> int) \<Rightarrow> ('m \<Rightarrow> 'o) \<Rightarrow> addr set \<Rightarrow> heap \<times> 'm \<Rightarrow> heap \<times> 'm \<Rightarrow> bool" where
  "heap_frame cmp idx obs X = (\<lambda>(h, m) (h', m').
     hp_max_sz h' = hp_max_sz h \<and> length (hp_data h') = length (hp_data h) \<and> cmp m' = cmp m \<and> obs m' = obs m \<and>
     (\<forall>y. y \<notin> X \<longrightarrow> idx m' y = idx m y))"

text \<open>
  What the heap relies on: the client's comparison is a total preorder that does not look at the
  positions, and its update function stores the position of one entry and keeps everything else that
  \<open>obs\<close> sees of the memory.
\<close>

locale heap_entries =
  fixes cmp :: "'m cmp_fn" and upd :: "'m update_fn" and idx :: "'m \<Rightarrow> addr \<Rightarrow> int" and obs :: "'m \<Rightarrow> 'o"
  assumes cmp_total: "cmp m a b \<or> cmp m b a"
    and cmp_trans: "cmp m a b \<Longrightarrow> cmp m b c \<Longrightarrow> cmp m a c"
    and cmp_upd [simp]: "cmp (upd x i m) = cmp m"
    and idx_upd [simp]: "idx (upd x i m) y = (if y = x then i else idx m y)"
    and obs_upd [simp]: "obs (upd x i m) = obs m"
begin

lemma swap_entries_perm:
  assumes "a \<in> {1..<e}" "b \<in> {1..<e}" "a \<noteq> b" "e \<le> length d"
  shows "\<exists>m'. swap_entries upd (int a) (int b) (d, m) = Some (d[a := d ! b, b := d ! a], m') \<and>
    heap_perm cmp idx obs e (d, m) (d[a := d ! b, b := d ! a], m')"
proof -
  let ?d = "d[a := d ! b, b := d ! a]"
  let ?m = "upd (d ! a) (int b) (upd (d ! b) (int a) m)"
  have "swap_entries upd (int a) (int b) (d, m) = Some (?d, ?m)"
    using assms by (simp add: swap_entries_def)
  moreover have "idx_ok idx ?m ?d e" if ok: "idx_ok idx m d e"
  proof -
    have "idx ?m (?d ! i) = int i" if "i \<in> {1..<e}" for i
      using idx_ok_inj [OF ok that assms(1)] idx_ok_inj [OF ok that assms(2)] idx_ok_inj [OF ok assms(1,2)] assms ok that
      by (auto simp: nth_list_update idx_ok_def)
    then show ?thesis by (simp add: idx_ok_def)
  qed
  moreover have "d ! a \<in> elems d e" "d ! b \<in> elems d e" using assms by (auto simp: elems_def)
  then have "idx ?m y = idx m y" if "y \<notin> elems d e" for y using that by auto
  ultimately show ?thesis using elems_swap [OF assms(1,2,4)] by (auto simp: heap_perm_def)
qed

lemma swap_up_step:
  assumes "gap_ord cmp m d e c {c}" "2 \<le> c" "c < e" "e \<le> length d"
  shows "gap_ord cmp m (d[c div 2 := d ! c, c := d ! (c div 2)]) e (c div 2) {c div 2}"
proof -
  let ?p = "c div 2"
  let ?d = "d[?p := d ! c, c := d ! ?p]"
  have p: "?p < c" "1 \<le> ?p" "?p < e" using assms(2,3) by auto
  have nth: "?d ! i = (if i = c then d ! ?p else if i = ?p then d ! c else d ! i)" for i
    using assms p by (auto simp: nth_list_update)
  have o: "cmp m (d ! (i div 2)) (d ! i)" if "2 \<le> i" "i < e" "i div 2 \<noteq> c" "i \<noteq> c" for i
    using assms(1) that by (simp add: gap_ord_def)
  have g: "cmp m (d ! ?p) (d ! i)" if "i < e" "i div 2 = c" for i using assms(1,2) that by (simp add: gap_ord_def)
  have "cmp m (?d ! (i div 2)) (?d ! i)" if "2 \<le> i" "i < e" "i div 2 \<noteq> ?p" "i \<noteq> ?p" for i
    using that o [of i] g [of i] by (auto simp: nth)
  moreover have "cmp m (?d ! (?p div 2)) (?d ! i)" if i: "i < e" "i div 2 = ?p" "2 \<le> ?p" for i
  proof -
    have pp: "cmp m (d ! (?p div 2)) (d ! ?p)" using o [of ?p] p i(3) by force
    have ne: "?p div 2 \<noteq> c" "?p div 2 \<noteq> ?p" "i \<noteq> ?p" using p i by auto
    have "i \<noteq> c \<Longrightarrow> cmp m (d ! ?p) (d ! i)" using o [of i] i p by force
    then show ?thesis using pp ne cmp_trans [OF pp] by (simp add: nth)
  qed
  ultimately show ?thesis by (auto simp: gap_ord_def)
qed

lemma swap_up_loop_ok:
  assumes "gap_ord cmp m d e c {c}" "1 \<le> c" "c < e" "e \<le> length d"
  shows "\<exists>c' d' m'. swap_up_loop cmp upd (int c) (d, m) = Some (int c', d', m') \<and> 1 \<le> c' \<and> c' < e \<and>
    gap_ord cmp m' d' e c' {} \<and> heap_perm cmp idx obs e (d, m) (d', m')"
  using assms
proof (induction c arbitrary: d m rule: less_induct)
  case (less c)
  show ?case
  proof (cases "c = 1")
    case True
    with less.prems(1) have "gap_ord cmp m d e c {}" by (simp add: gap_ord_def)
    with True less.prems show ?thesis by (subst swap_up_loop.simps) auto
  next
    case False
    let ?p = "c div 2"
    have c: "2 \<le> c" "int c sdiv 2 = int ?p" using False less.prems(2) by (simp_all add: signed_divide_int_def sgn_if zdiv_int)
    have p: "?p < c" "1 \<le> ?p" "?p < e" "?p < length d" "c < length d" using c less.prems by auto
    show ?thesis
    proof (cases "cmp m (d ! ?p) (d ! c)")
      case True
      then have "gap_ord cmp m d e c {}" using less.prems(1) by (auto simp: gap_ord_def)
      then show ?thesis using True c p less.prems by (subst swap_up_loop.simps) (auto simp: kassert_bind)
    next
      case nle: False
      obtain m1 where m1: "swap_entries upd (int ?p) (int c) (d, m) = Some (d[?p := d ! c, c := d ! ?p], m1)"
        "heap_perm cmp idx obs e (d, m) (d[?p := d ! c, c := d ! ?p], m1)"
        using swap_entries_perm [of ?p e c d m] p less.prems by auto
      then have "cmp m1 = cmp m" by (simp add: heap_perm_def)
      then have "gap_ord cmp m1 (d[?p := d ! c, c := d ! ?p]) e ?p {?p}"
        using swap_up_step [OF less.prems(1) c(1) less.prems(3,4)] by (simp add: gap_ord_def)
      from less.IH [OF p(1) this p(2,3)] less.prems(4) m1 show ?thesis using nle c p
        by (subst swap_up_loop.simps) (auto simp: kassert_bind intro: heap_perm_trans)
    qed
  qed
qed

lemma swap_down_step:
  assumes "gap_ord cmp m d e c {}" "1 \<le> c" "n div 2 = c" "n < e" "e \<le> length d"
    "cmp m (d ! n) (d ! c)" "\<And>i. i < e \<Longrightarrow> i div 2 = c \<Longrightarrow> cmp m (d ! n) (d ! i)"
  shows "gap_ord cmp m (d[n := d ! c, c := d ! n]) e n {}"
proof -
  let ?d = "d[n := d ! c, c := d ! n]"
  have n: "c < n" "2 \<le> n" "c < e" using assms(2-4) by auto
  have nth: "?d ! i = (if i = c then d ! n else if i = n then d ! c else d ! i)" for i
    using assms n by (auto simp: nth_list_update)
  have o: "cmp m (d ! (i div 2)) (d ! i)" if "2 \<le> i" "i < e" "i div 2 \<noteq> c" for i
    using assms(1) that by (simp add: gap_ord_def)
  have g: "2 \<le> c \<Longrightarrow> cmp m (d ! (c div 2)) (d ! n)" using assms(1,3,4) by (simp add: gap_ord_def)
  have "cmp m (?d ! (i div 2)) (?d ! i)" if "2 \<le> i" "i < e" "i div 2 \<noteq> n" for i
    using that o [of i] g assms(3,6) assms(7) [of i] by (auto simp: nth)
  moreover have "cmp m (?d ! (n div 2)) (?d ! i)" if "i < e" "i div 2 = n" for i
    using that o [of i] n assms(3) by (auto simp: nth)
  ultimately show ?thesis by (auto simp: gap_ord_def)
qed

lemma larger_child:
  assumes "1 \<le> c" "2 * c < e" "e \<le> length d"
  shows "\<exists>n. (if 2 * int c + 1 > int e - 1 then Some (2 * int c)
      else do { a \<leftarrow> arr_rd d (2 * int c); b \<leftarrow> arr_rd d (2 * int c + 1); Some (if cmp m a b then 2 * int c else 2 * int c + 1) }) = Some (int n) \<and>
    n div 2 = c \<and> n < e \<and> (\<forall>i. i < e \<and> i div 2 = c \<longrightarrow> cmp m (d ! n) (d ! i))"
proof -
  have rd: "arr_rd d (2 * int c) = Some (d ! (2 * c))" using arr_rd_nat [of "2 * c" d] assms by simp
  have kids: "i div 2 = c \<longleftrightarrow> i = 2 * c \<or> i = 2 * c + 1" for i by auto
  have refl: "cmp m a a" for a using cmp_total [of m a a] by simp
  show ?thesis
  proof (cases "2 * c + 1 < e")
    case True
    have rd': "arr_rd d (2 * int c + 1) = Some (d ! (2 * c + 1))" using arr_rd_nat [of "2 * c + 1" d] True assms(3) by (simp add: add.commute)
    show ?thesis
    proof (cases "cmp m (d ! (2 * c)) (d ! (2 * c + 1))")
      case left: True
      then show ?thesis using rd rd' True refl by (intro exI [of _ "2 * c"]) (auto simp: kids)
    next
      case right: False
      then have "cmp m (d ! (2 * c + 1)) (d ! (2 * c))" using cmp_total by blast
      then show ?thesis using rd rd' True refl right by (intro exI [of _ "2 * c + 1"]) (auto simp: kids)
    qed
  next
    case False
    then have "i < e \<and> i div 2 = c \<Longrightarrow> i = 2 * c" for i using kids [of i] by auto
    then show ?thesis using False assms refl by (intro exI [of _ "2 * c"]) auto
  qed
qed

lemma gap_ord_leaf: "gap_ord cmp m d e c {} \<Longrightarrow> \<not> 2 * c < e \<Longrightarrow> heap_ord cmp m d e"
  by (auto simp: gap_ord_def heap_ord_def)

lemma gap_ord_top:
  assumes "gap_ord cmp m d e c {}" "cmp m (d ! c) (d ! n)" "\<And>i. i < e \<Longrightarrow> i div 2 = c \<Longrightarrow> cmp m (d ! n) (d ! i)"
  shows "heap_ord cmp m d e"
  using assms cmp_trans [OF assms(2)] by (auto simp: gap_ord_def heap_ord_def)

lemma swap_down_loop_ok:
  assumes "gap_ord cmp m d e c {}" "1 \<le> c" "e \<le> length d" "1 \<le> e"
  shows "\<exists>c' d' m'. swap_down_loop cmp upd (int e) (int e - 1) (int c) (d, m) = Some (int c', d', m') \<and>
    heap_ord cmp m' d' e \<and> heap_perm cmp idx obs e (d, m) (d', m')"
  using assms
proof (induction "e - c" arbitrary: c d m rule: less_induct)
  case less
  have half: "int c \<le> (int e - 1) sdiv 2 \<longleftrightarrow> 2 * c < e"
  proof -
    have "(int e - 1) sdiv 2 = (int e - 1) div 2" using less.prems(4) by (cases "e = 1") (simp_all add: signed_divide_int_def sgn_if)
    then show ?thesis by linarith
  qed
  show ?case
  proof (cases "2 * c < e")
    case False
    then show ?thesis using gap_ord_leaf [OF less.prems(1)] half by (subst swap_down_loop.simps) simp
  next
    case True
    obtain n where n: "(if 2 * int c + 1 > int e - 1 then Some (2 * int c)
        else do { a \<leftarrow> arr_rd d (2 * int c); b \<leftarrow> arr_rd d (2 * int c + 1); Some (if cmp m a b then 2 * int c else 2 * int c + 1) }) = Some (int n)"
      "n div 2 = c" "n < e" "\<And>i. i < e \<Longrightarrow> i div 2 = c \<Longrightarrow> cmp m (d ! n) (d ! i)"
      using larger_child [OF less.prems(2) True less.prems(3)] by blast
    have lt: "c < n" "c < length d" "n < length d" using n(2,3) less.prems(2,3) by auto
    note unfold = swap_down_loop.simps [of cmp upd "int e" "int e - 1" "int c" "(d, m)"]
    show ?thesis
    proof (cases "cmp m (d ! c) (d ! n)")
      case le: True
      then show ?thesis using gap_ord_top [OF less.prems(1) le n(4)] half True n(1,3) lt
        by (simp only: unfold if_True Let_def fst_conv snd_conv) (simp add: kassert_bind)
    next
      case nle: False
      let ?d = "d[n := d ! c, c := d ! n]"
      obtain m1 where m1: "swap_entries upd (int n) (int c) (d, m) = Some (?d, m1)" "heap_perm cmp idx obs e (d, m) (?d, m1)"
        using swap_entries_perm [of n e c d m] lt n(3) less.prems(2,3) by auto
      have "cmp m (d ! n) (d ! c)" using nle cmp_total by blast
      from swap_down_step [OF less.prems(1,2) n(2,3) less.prems(3) this n(4)] m1(2)
      have "gap_ord cmp m1 ?d e n {}" by (simp add: gap_ord_def heap_perm_def)
      moreover have "e - n < e - c" using lt n(3) by simp
      ultimately
      obtain c' d' m' where "swap_down_loop cmp upd (int e) (int e - 1) (int n) (?d, m1) = Some (int c', d', m')"
        "heap_ord cmp m' d' e" "heap_perm cmp idx obs e (?d, m1) (d', m')"
        using less.hyps [of n m1 ?d] lt less.prems(3,4) by auto
      with m1 nle half True n(1,3) lt show ?thesis
        by (simp only: unfold if_True Let_def fst_conv snd_conv) (auto simp: kassert_bind intro: heap_perm_trans)
    qed
  qed
qed

lemma swap_down_ok:
  assumes "gap_ord cmp m (hp_data h) e c {}" "1 \<le> c" "c \<le> e" "e \<le> length (hp_data h)" "hp_e h = int e"
  shows "\<exists>c' d' m'. swap_down cmp upd (int c) (h, m) = Some (int c', h\<lparr>hp_data := d'\<rparr>, m') \<and>
    heap_ord cmp m' d' e \<and> heap_perm cmp idx obs e (hp_data h, m) (d', m')"
  using swap_down_loop_ok [OF assms(1,2,4)] assms(2,3,5) by (force simp: swap_down_def)

lemma heapify_ok:
  assumes "gap_ord cmp m (hp_data h) e c {c}" "1 \<le> c" "c < e" "e \<le> length (hp_data h)" "hp_e h = int e"
  shows "\<exists>c' d' m'. heapify cmp upd (int c) (h, m) = Some (int c', h\<lparr>hp_data := d'\<rparr>, m') \<and>
    heap_ord cmp m' d' e \<and> heap_perm cmp idx obs e (hp_data h, m) (d', m')"
proof -
  obtain c1 d1 m1 where up: "swap_up_loop cmp upd (int c) (hp_data h, m) = Some (int c1, d1, m1)" "1 \<le> c1" "c1 < e"
    "gap_ord cmp m1 d1 e c1 {}" "heap_perm cmp idx obs e (hp_data h, m) (d1, m1)"
    using swap_up_loop_ok [OF assms(1-4)] by blast
  then have "swap_up cmp upd (int c) (h, m) = Some (int c1, h\<lparr>hp_data := d1\<rparr>, m1)"
    using assms(2,3,5) by (simp add: swap_up_def)
  moreover have "e \<le> length d1" using up(5) assms(4) by (simp add: heap_perm_def)
  with swap_down_ok [of m1 "h\<lparr>hp_data := d1\<rparr>" e c1] up(2-4) assms(5)
  obtain c' d' m' where "swap_down cmp upd (int c1) (h\<lparr>hp_data := d1\<rparr>, m1) = Some (int c', h\<lparr>hp_data := d'\<rparr>, m')"
    "heap_ord cmp m' d' e" "heap_perm cmp idx obs e (d1, m1) (d', m')" by auto
  ultimately show ?thesis using up(5) by (auto simp: heapify_def intro: heap_perm_trans)
qed

lemma heap_add_ok:
  assumes ok: "heap_ok cmp idx h m" and room: "hp_e h < hp_max_sz h" "hp_e h < int (length (hp_data h))"
    and new: "new \<notin> heap_elems h"
  shows "\<exists>h' m'. heap_add cmp upd new (h, m) = Some (0, h', m') \<and> heap_ok cmp idx h' m' \<and>
    heap_elems h' = insert new (heap_elems h) \<and> hp_e h' = hp_e h + 1 \<and>
    heap_frame cmp idx obs (insert new (heap_elems h)) (h, m) (h', m')"
proof -
  obtain e where e: "hp_e h = int e" "1 \<le> e" using heap_ok_e [OF ok] by blast
  let ?d = "(hp_data h)[e := new]" and ?h = "h\<lparr>hp_data := (hp_data h)[e := new], hp_e := hp_e h + 1\<rparr>"
  let ?m = "upd new (int e) m"
  have len: "e < length (hp_data h)" using room e by simp
  have nth: "?d ! i = (if i = e then new else hp_data h ! i)" for i using len by (simp add: nth_list_update)
  have ord: "heap_ord cmp m (hp_data h) e" and idx: "idx_ok idx m (hp_data h) e" using ok e(1) by (simp_all add: heap_ok_def)
  have new': "i \<in> {1..<e} \<Longrightarrow> hp_data h ! i \<noteq> new" for i using new e by (auto simp: heap_elems_def elems_def)
  have "gap_ord cmp ?m ?d (Suc e) e {e}" using ord e(2) by (auto simp: gap_ord_def heap_ord_def nth less_Suc_eq)
  with heapify_ok [of ?m ?h "Suc e" e] e len
  obtain c' d' m' where hf: "heapify cmp upd (int e) (?h, ?m) = Some (int c', ?h\<lparr>hp_data := d'\<rparr>, m')"
    "heap_ord cmp m' d' (Suc e)" "heap_perm cmp idx obs (Suc e) (?d, ?m) (d', m')" by auto
  have "idx_ok idx ?m ?d (Suc e)" using idx new' e(2) by (auto simp: idx_ok_def nth less_Suc_eq)
  then have idx': "idx_ok idx m' d' (Suc e)" using hf(3) by (simp add: heap_perm_def)
  have "elems ?d (Suc e) = insert new (elems (hp_data h) e)"
    using e(2) by (auto simp: elems_def nth less_Suc_eq atLeastLessThanSuc)
  then have "heap_elems (?h\<lparr>hp_data := d'\<rparr>) = insert new (heap_elems h)"
    using hf(3) e by (simp add: heap_elems_def heap_perm_def nat_add_distrib)
  moreover have "heap_frame cmp idx obs (insert new (heap_elems h)) (h, m) (?h\<lparr>hp_data := d'\<rparr>, m')"
    using hf(3) e \<open>elems ?d (Suc e) = _\<close> by (auto simp: heap_frame_def heap_perm_def heap_elems_def)
  moreover have "heap_add cmp upd new (h, m) = Some (0, ?h\<lparr>hp_data := d'\<rparr>, m')"
    using hf(1) e len room by (simp add: heap_add_def)
  moreover have "heap_ok cmp idx (?h\<lparr>hp_data := d'\<rparr>) m'"
    using hf idx' e room len by (simp add: heap_ok_def heap_perm_def nat_add_distrib)
  ultimately show ?thesis by fastforce
qed

lemma elems_drop:
  assumes "idx_ok idx m d (Suc k)" "1 \<le> c" "c \<le> k" "k < length d"
  shows "elems (d[c := d ! k]) k = elems d (Suc k) - {d ! c}"
proof -
  have inj: "i \<in> {1..<Suc k} \<Longrightarrow> d ! i = d ! c \<longleftrightarrow> i = c" for i using idx_ok_inj [OF assms(1)] assms(2,3) by simp
  have nth: "d[c := d ! k] ! i = (if i = c then d ! k else d ! i)" for i using assms(3,4) by (simp add: nth_list_update)
  have "x \<in> elems (d[c := d ! k]) k" if x: "x \<in> elems d (Suc k)" "x \<noteq> d ! c" for x
  proof -
    obtain i where i: "i \<in> {1..<Suc k}" "x = d ! i" using x(1) by (auto simp: elems_def)
    with x(2) have ic: "i \<noteq> c" by auto
    then show ?thesis unfolding elems_def using i assms(2,3)
      by (intro image_eqI [where x = "if i = k then c else i"]) (auto simp: nth)
  qed
  moreover have "x \<in> elems d (Suc k) - {d ! c}" if x: "x \<in> elems (d[c := d ! k]) k" for x
  proof -
    obtain i where i: "i \<in> {1..<k}" "x = (if i = c then d ! k else d ! i)" using x by (auto simp: elems_def nth)
    then show ?thesis using inj [of i] inj [of k] assms(2,3) by (auto simp: elems_def split: if_splits)
  qed
  ultimately show ?thesis by blast
qed

lemma idx_ok_drop:
  assumes "idx_ok idx m d (Suc k)" "1 \<le> c" "c < k" "k < length d"
  shows "idx_ok idx (upd (d ! k) (int c) m) (d[c := d ! k]) k"
proof -
  have "d ! i \<noteq> d ! k" if "1 \<le> i" "i < k" for i using idx_ok_inj [OF assms(1), of i k] that by simp
  then show ?thesis using assms by (auto simp: idx_ok_def nth_list_update)
qed

lemma idx_ok_upd: "idx_ok idx m d e \<Longrightarrow> x \<notin> elems d e \<Longrightarrow> idx_ok idx (upd x i m) d e"
  by (auto simp: idx_ok_def elems_def)

lemma gap_ord_drop:
  assumes "heap_ord cmp m d (Suc k)" "1 \<le> c" "c \<le> k" "k < length d"
  shows "gap_ord cmp m (d[c := x]) k c {c}"
proof -
  have nth: "d[c := x] ! i = (if i = c then x else d ! i)" for i using assms(3,4) by (simp add: nth_list_update)
  have o: "cmp m (d ! (i div 2)) (d ! i)" if "2 \<le> i" "i \<le> k" for i using assms(1) that by (simp add: heap_ord_def)
  have g: "cmp m (d ! (c div 2)) (d ! i)" if i: "i < k" "i div 2 = c" "2 \<le> c" for i
    by (rule cmp_trans [of m _ "d ! c"]) (use o [of c] o [of i] i assms(3) in auto)
  show ?thesis unfolding gap_ord_def nth
  proof (intro conjI allI impI)
    show "cmp m (if i div 2 = c then x else d ! (i div 2)) (if i = c then x else d ! i)"
      if "2 \<le> i \<and> i < k \<and> i div 2 \<noteq> c \<and> i \<notin> {c}" for i using o [of i] that by simp
    show "cmp m (if c div 2 = c then x else d ! (c div 2)) (if i = c then x else d ! i)"
      if "i < k \<and> i div 2 = c \<and> 2 \<le> c" for i
    proof -
      have "i \<noteq> c" "c div 2 \<noteq> c" using that by auto
      then show ?thesis using g [of i] that by simp
    qed
  qed
qed

lemma heap_ord_root: "heap_ord cmp m d e \<Longrightarrow> 1 \<le> i \<Longrightarrow> i < e \<Longrightarrow> cmp m (d ! 1) (d ! i)"
proof (induction i rule: less_induct)
  case (less i)
  show ?case
  proof (cases "i = 1")
    case False
    then have "cmp m (d ! (i div 2)) (d ! i)" "1 \<le> i div 2" "i div 2 < i" using less.prems by (auto simp: heap_ord_def)
    with less.IH [of "i div 2"] less.prems have "cmp m (d ! 1) (d ! (i div 2))" by simp
    then show ?thesis by (rule cmp_trans) fact
  qed (use cmp_total [of m "d ! 1" "d ! 1"] in simp)
qed

lemma heap_adjust_ok:
  assumes "gap_ord cmp m (hp_data h) e c {c}" "idx_ok idx m (hp_data h) e" "1 \<le> c" "c < e"
    "hp_e h = int e" "hp_e h \<le> hp_max_sz h" "e \<le> length (hp_data h)"
  shows "\<exists>h' m'. heap_adjust cmp upd (int c) (h, m) = Some (h', m') \<and> heap_ok cmp idx h' m' \<and>
    heap_elems h' = heap_elems h \<and> hp_e h' = hp_e h \<and> heap_frame cmp idx obs (heap_elems h) (h, m) (h', m')"
proof -
  obtain c' d' m' where "heapify cmp upd (int c) (h, m) = Some (int c', h\<lparr>hp_data := d'\<rparr>, m')" "heap_ord cmp m' d' e"
    "heap_perm cmp idx obs e (hp_data h, m) (d', m')"
    using heapify_ok [OF assms(1,3,4,7,5)] by blast
  then show ?thesis using assms(2-)
    by (auto simp: heap_adjust_def heap_ok_def heap_elems_def heap_frame_def heap_perm_def intro!: exI)
qed

lemma heap_remove_ok:
  assumes ok: "heap_ok cmp idx h m" and c: "1 \<le> c" "int c < hp_e h"
  shows "\<exists>h' m'. heap_remove cmp upd (int c) (h, m) = Some (hp_data h ! c, h', m') \<and> heap_ok cmp idx h' m' \<and>
    heap_elems h' = heap_elems h - {hp_data h ! c} \<and> hp_e h' = hp_e h - 1 \<and> idx m' (hp_data h ! c) = 0 \<and>
    heap_frame cmp idx obs (heap_elems h) (h, m) (h', m')"
proof -
  obtain k where e: "hp_e h = int (Suc k)" "k < length (hp_data h)" "heap_ord cmp m (hp_data h) (Suc k)"
    "idx_ok idx m (hp_data h) (Suc k)" "int k < hp_max_sz h"
    using heap_ok_Suc [OF ok] c by force
  let ?d = "hp_data h" and ?r = "hp_data h ! c"
  let ?m = "upd ?r 0 m" and ?h = "h\<lparr>hp_e := int k\<rparr>"
  have ck: "c \<le> k" using c e by simp
  have r: "?r \<in> heap_elems h" using c(1) ck e(1) by (simp add: heap_elems_def elems_def nat_add_distrib)
  note el = elems_drop [OF e(4) c(1) ck e(2)]
  show ?thesis
  proof (cases "c = k")
    case True
    then have same: "?d[c := ?d ! k] = ?d" by simp
    have "idx_ok idx m ?d k" "heap_ord cmp m ?d k" using e(3,4) by (simp_all add: idx_ok_def heap_ord_def)
    then have "heap_ok cmp idx ?h ?m"
      using idx_ok_upd [of m ?d k ?r 0] el same e c ck by (simp add: heap_ok_def heap_ord_def)
    moreover have "heap_elems ?h = heap_elems h - {?r}" using el same e(1) by (simp add: heap_elems_def nat_add_distrib)
    moreover have "heap_remove cmp upd (int c) (h, m) = Some (?r, ?h, ?m)"
      using c ck e(1,2) True by (simp add: heap_remove_def)
    ultimately show ?thesis using e(1) r by (auto simp: heap_frame_def)
  next
    case False
    with ck have lt: "c < k" by simp
    let ?x = "?d ! k" and ?d' = "?d[c := ?d ! k]" and ?h' = "h\<lparr>hp_e := int k, hp_data := ?d[c := ?d ! k]\<rparr>"
    let ?m' = "upd ?x (int c) ?m"
    have ne: "?x \<noteq> ?r" using idx_ok_inj [OF e(4), of k c] lt c(1) by simp
    have "idx_ok idx ?m' ?d' k"
      using idx_ok_upd [OF idx_ok_drop [OF e(4) c(1) lt e(2)], of ?r 0] el ne
      by (subst idx_ok_cong [where m' = "upd ?r 0 (upd ?x (int c) m)"]) auto
    moreover have "gap_ord cmp ?m' ?d' k c {c}" using gap_ord_drop [OF e(3) c(1) ck e(2), of ?x] by (simp add: gap_ord_def)
    ultimately obtain h' m' where adj: "heap_adjust cmp upd (int c) (?h', ?m') = Some (h', m')" "heap_ok cmp idx h' m'"
      "heap_elems h' = heap_elems ?h'" "hp_e h' = int k" "heap_frame cmp idx obs (heap_elems ?h') (?h', ?m') (h', m')"
      using heap_adjust_ok [of ?m' ?h' k c] lt c(1) e by auto
    have els: "heap_elems ?h' = heap_elems h - {?r}" using el e(1) by (simp add: heap_elems_def nat_add_distrib)
    have x: "?x \<in> heap_elems h" using lt e(1) c(1) by (simp add: heap_elems_def elems_def nat_add_distrib)
    have "idx m' ?r = 0" "heap_frame cmp idx obs (heap_elems h) (h, m) (h', m')"
      using adj(5) els ne r x by (auto simp: heap_frame_def)
    moreover have "heap_remove cmp upd (int c) (h, m) = Some (?r, h', m')"
      using adj(1) c lt e(1,2) by (simp add: heap_remove_def)
    ultimately show ?thesis using adj(2-4) els e(1) by simp
  qed
qed

lemma heap_peek_ok:
  assumes "heap_ok cmp idx h m"
  shows "heap_elems h = {} \<longleftrightarrow> hp_e h = 1" "hp_e h = 1 \<Longrightarrow> heap_peek h = Some 0"
    "hp_e h \<noteq> 1 \<Longrightarrow> \<exists>r. heap_peek h = Some r \<and> r = hp_data h ! 1 \<and> r \<in> heap_elems h \<and> (\<forall>x\<in>heap_elems h. cmp m r x) \<and> idx m r = 1"
proof -
  show "heap_elems h = {} \<longleftrightarrow> hp_e h = 1"
    using assms by (auto simp: heap_elems_def elems_def heap_ok_def)
  show "hp_e h = 1 \<Longrightarrow> heap_peek h = Some 0" by (simp add: heap_peek_def)
  assume ne: "hp_e h \<noteq> 1"
  obtain k where k: "hp_e h = int (Suc k)" "1 \<le> k" "k < length (hp_data h)" "heap_ord cmp m (hp_data h) (Suc k)"
    "idx_ok idx m (hp_data h) (Suc k)" using heap_ok_Suc [OF assms ne] by blast
  have els: "heap_elems h = elems (hp_data h) (Suc k)" using k(1) by (simp add: heap_elems_def nat_add_distrib)
  have "heap_peek h = Some (hp_data h ! 1)" using ne k arr_rd_nat [of 1 "hp_data h"] by (simp add: heap_peek_def)
  moreover have "hp_data h ! 1 \<in> heap_elems h" using k(2) by (auto simp: els elems_def)
  moreover have "\<forall>x\<in>heap_elems h. cmp m (hp_data h ! 1) x" using heap_ord_root [OF k(4)] by (auto simp: els elems_def)
  moreover have "idx m (hp_data h ! 1) = 1" using k(2,5) by (simp add: idx_ok_def)
  ultimately show "\<exists>r. heap_peek h = Some r \<and> r = hp_data h ! 1 \<and> r \<in> heap_elems h \<and> (\<forall>x\<in>heap_elems h. cmp m r x) \<and> idx m r = 1"
    by simp
qed

lemma heap_highest_ok:
  assumes ok: "heap_ok cmp idx h m" and ne: "hp_e h \<noteq> 1"
  shows "\<exists>h' m'. heap_highest cmp upd (h, m) = Some (hp_data h ! 1, h', m') \<and> heap_ok cmp idx h' m' \<and>
    heap_elems h' = heap_elems h - {hp_data h ! 1} \<and> hp_e h' = hp_e h - 1 \<and> idx m' (hp_data h ! 1) = 0 \<and>
    heap_frame cmp idx obs (heap_elems h) (h, m) (h', m')"
proof -
  obtain k where k: "hp_e h = int (Suc k)" "1 \<le> k" "k < length (hp_data h)" "heap_ord cmp m (hp_data h) (Suc k)"
    "idx_ok idx m (hp_data h) (Suc k)" "int k < hp_max_sz h" using heap_ok_Suc [OF ok ne] by blast
  let ?d = "hp_data h" and ?r = "hp_data h ! 1" and ?x = "hp_data h ! k"
  let ?d' = "?d[1 := ?x]" and ?m = "upd ?x 1 m"
  let ?h = "h\<lparr>hp_e := int k, hp_data := ?d'\<rparr>"
  note el = elems_drop [OF k(5) _ k(2,3), simplified]
  have "gap_ord cmp ?m ?d' k 1 {}" using gap_ord_drop [OF k(4) _ k(2,3), of ?x] by (simp add: gap_ord_def)
  with swap_down_ok [of ?m ?h k 1] k obtain c' d' m' where
    sd: "swap_down cmp upd 1 (?h, ?m) = Some (int c', ?h\<lparr>hp_data := d'\<rparr>, m')"
    "heap_ord cmp m' d' k" "heap_perm cmp idx obs k (?d', ?m) (d', m')" by auto
  have idx: "idx_ok idx ?m ?d' k"
    using idx_ok_drop [OF k(5), of 1] k(2,3) by (cases "k = 1") (simp_all add: idx_ok_def)
  have els: "elems d' k = elems ?d (Suc k) - {?r}" using sd(3) el by (simp add: heap_perm_def)
  then have "idx_ok idx (upd ?r 0 m') d' k" using sd(3) idx by (intro idx_ok_upd) (auto simp: heap_perm_def)
  then have "heap_ok cmp idx (?h\<lparr>hp_data := d'\<rparr>) (upd ?r 0 m')"
    using sd(2,3) k by (auto simp: heap_ok_def heap_ord_def heap_perm_def)
  moreover have "heap_elems (?h\<lparr>hp_data := d'\<rparr>) = heap_elems h - {?r}" using els k(1) by (simp add: heap_elems_def nat_add_distrib)
  moreover have "?r \<in> heap_elems h" "?x \<in> heap_elems h" using k(1,2) by (auto simp: heap_elems_def elems_def nat_add_distrib)
  then have "heap_frame cmp idx obs (heap_elems h) (h, m) (?h\<lparr>hp_data := d'\<rparr>, upd ?r 0 m')"
    using sd(3) el k(1) by (auto simp: heap_frame_def heap_perm_def heap_elems_def nat_add_distrib)
  moreover have "heap_highest cmp upd (h, m) = Some (?r, ?h\<lparr>hp_data := d'\<rparr>, upd ?r 0 m')"
    using sd(1) k arr_rd_nat [of 1 ?d] arr_wr_nat [of 1 ?d ?x] by (simp add: heap_highest_def)
  ultimately show ?thesis using k(1) by fastforce
qed

text \<open>After the client has changed the key of one entry, the order has a gap at its position only.\<close>

lemma rekey_gap:
  assumes "heap_ord cmp m d e" "idx_ok idx m d e" "1 \<le> c" "c < e"
    "\<And>a b. a \<noteq> d ! c \<Longrightarrow> b \<noteq> d ! c \<Longrightarrow> cmp m' a b \<longleftrightarrow> cmp m a b"
  shows "gap_ord cmp m' d e c {c}"
proof -
  have ne: "d ! i \<noteq> d ! c" if "1 \<le> i" "i < e" "i \<noteq> c" for i using idx_ok_inj [OF assms(2), of i c] assms(3,4) that by simp
  have o: "cmp m (d ! (i div 2)) (d ! i)" if "2 \<le> i" "i < e" for i using assms(1) that by (simp add: heap_ord_def)
  show ?thesis unfolding gap_ord_def
  proof (intro conjI allI impI)
    show "cmp m' (d ! (i div 2)) (d ! i)" if "2 \<le> i \<and> i < e \<and> i div 2 \<noteq> c \<and> i \<notin> {c}" for i
      using assms(5) [OF ne ne, of "i div 2" i] o [of i] that by auto
    show "cmp m' (d ! (c div 2)) (d ! i)" if i: "i < e \<and> i div 2 = c \<and> 2 \<le> c" for i
    proof -
      have "cmp m (d ! (c div 2)) (d ! i)" by (rule cmp_trans [of m _ "d ! c"]) (use o [of c] o [of i] i assms(4) in auto)
      moreover have "c div 2 \<noteq> c" "i \<noteq> c" "1 \<le> c div 2" "c div 2 < e" "1 \<le> i" using i assms(4) by auto
      ultimately show ?thesis using assms(5) [OF ne ne, of "c div 2" i] i by simp
    qed
  qed
qed

lemma heap_init_ok: "0 \<le> n \<Longrightarrow> space \<noteq> [] \<Longrightarrow> heap_ok cmp idx (heap_init n space) m \<and> heap_elems (heap_init n space) = {}"
  by (auto simp: heap_ok_def heap_init_def heap_ord_def idx_ok_def heap_elems_def elems_def Suc_le_eq)

end

end
