(* ===== verification/Sl_Thd.thy ===== *)
theory Sl_Thd
  imports Heap
begin

text \<open>
  The threads of the user-level scheduling library (\<^verbatim>\<open>sl_thd.h\<close>, \<^verbatim>\<open>sl_mod_policy.h\<close>, \<^verbatim>\<open>sl.h\<close>), the encoding
  of scheduling parameters (\<^verbatim>\<open>res_spec.h\<close>), and the interface between the library and a scheduling
  policy (\<^verbatim>\<open>sl_plugins.h\<close>).

  The state is that of one core: \<^verbatim>\<open>cos_cpuid\<close> is fixed while the library runs, and its data is indexed by
  the core.  A \<^verbatim>\<open>struct sl_thd\<close> is the first member of its \<^verbatim>\<open>struct sl_thd_policy\<close>, so that both have one
  address and one record.  The list links of a thread, which belong to a list library outside this
  repository, and the counters kept for measurements are left out.
\<close>

section \<open>Scheduling parameters\<close>

datatype sched_param_type = SCHEDP_NOOP | SCHEDP_PRIO | SCHEDP_PRIO_BLOCK | SCHEDP_RPRIO | SCHEDP_RLPRIO | SCHEDP_DEADLINE
  | SCHEDP_BUDGET | SCHEDP_WINDOW | SCHEDP_PROPORTION | SCHEDP_WEIGHT | SCHEDP_IDLE | SCHEDP_INIT | SCHEDP_IPI_HANDLER
  | SCHEDP_TIMER | SCHEDP_CORE_ID | SCHEDP_MAX

definition sched_param_types :: "sched_param_type list" where
  "sched_param_types = [SCHEDP_NOOP, SCHEDP_PRIO, SCHEDP_PRIO_BLOCK, SCHEDP_RPRIO, SCHEDP_RLPRIO, SCHEDP_DEADLINE,
     SCHEDP_BUDGET, SCHEDP_WINDOW, SCHEDP_PROPORTION, SCHEDP_WEIGHT, SCHEDP_IDLE, SCHEDP_INIT, SCHEDP_IPI_HANDLER,
     SCHEDP_TIMER, SCHEDP_CORE_ID, SCHEDP_MAX]"

text \<open>The numbers of the enumeration; a number that is not in it is no value of the type.\<close>

fun param_code :: "sched_param_type \<Rightarrow> nat" where
  "param_code SCHEDP_NOOP = 0"
| "param_code SCHEDP_PRIO = 1"
| "param_code SCHEDP_PRIO_BLOCK = 2"
| "param_code SCHEDP_RPRIO = 3"
| "param_code SCHEDP_RLPRIO = 4"
| "param_code SCHEDP_DEADLINE = 5"
| "param_code SCHEDP_BUDGET = 6"
| "param_code SCHEDP_WINDOW = 7"
| "param_code SCHEDP_PROPORTION = 8"
| "param_code SCHEDP_WEIGHT = 9"
| "param_code SCHEDP_IDLE = 10"
| "param_code SCHEDP_INIT = 11"
| "param_code SCHEDP_IPI_HANDLER = 12"
| "param_code SCHEDP_TIMER = 13"
| "param_code SCHEDP_CORE_ID = 14"
| "param_code SCHEDP_MAX = 15"

definition param_type :: "nat \<Rightarrow> sched_param_type option" where
  "param_type n = (if n < length sched_param_types then Some (sched_param_types ! n) else None)"

definition SCHED_PARAM_TYPE_BITS :: nat where "SCHED_PARAM_TYPE_BITS = 8"

text \<open>The bit fields of \<^verbatim>\<open>struct sched_param_s\<close>: eight bits of type, then 56 bits of value.\<close>

definition sched_param_pack :: "sched_param_type \<Rightarrow> u64 \<Rightarrow> u64" where
  "sched_param_pack ty v =
     take_bit SCHED_PARAM_TYPE_BITS (of_nat (param_code ty)) OR
     push_bit SCHED_PARAM_TYPE_BITS (take_bit (64 - SCHED_PARAM_TYPE_BITS) v)"

definition sched_param_get :: "u64 \<Rightarrow> (sched_param_type \<times> u64) option" where
  "sched_param_get sp = do {
     ty \<leftarrow> param_type (unat (take_bit SCHED_PARAM_TYPE_BITS sp));
     Some (ty, drop_bit SCHED_PARAM_TYPE_BITS sp)
   }"

section \<open>Threads\<close>

datatype sl_thd_state = SL_THD_FREE | SL_THD_BLOCKED | SL_THD_BLOCKED_TIMEOUT | SL_THD_WOKEN | SL_THD_RUNNABLE | SL_THD_DYING

record event_info =
  ev_blocked :: bool
  ev_cycles :: u64
  ev_timeout :: u32

record cos_aep_info =
  aep_tc :: capid
  aep_thd :: capid
  aep_tid :: u16
  aep_rcv :: capid

record sl_thd =
  sl_state :: sl_thd_state
  sl_rcv_suspended :: bool
  sl_own_tcap :: bool
  sl_send :: bool
  sl_aepinfo :: "cos_aep_info option"
  sl_sndcap :: capid
  sl_schedthd :: addr
  sl_prio :: u64
  sl_budget :: u32
  sl_last_replenish :: u64
  sl_period :: u64
  sl_periodic_cycs :: u64
  sl_timeout_cycs :: u64
  sl_wakeup_cycs :: u64
  sl_timeout_idx :: int
  sl_wakeup_cnt :: u32
  sl_event_info :: event_info
  pol_priority :: u64
  pol_period_usec :: u64
  pol_period :: u64
  pol_deadline :: u64
  pol_prio_idx :: int

type_synonym sl_mem = "addr \<Rightarrow> sl_thd"

record 'p sl_st =
  s_thds :: sl_mem
  s_timeouts :: heap
  s_pol :: 'p
  s_curr :: addr
  g_sched_thd :: addr
  g_sched_tcap :: capid
  g_idle_thd :: addr
  g_cyc_per_usec :: u32
  g_period :: u64
  g_timer_next :: u64
  g_timeout_next :: u32

definition upd_sl :: "addr \<Rightarrow> (sl_thd \<Rightarrow> sl_thd) \<Rightarrow> 'p sl_st \<Rightarrow> 'p sl_st" where
  "upd_sl t f s = s\<lparr>s_thds := (s_thds s)(t := f (s_thds s t))\<rparr>"

definition sl_thd_setprio :: "addr \<Rightarrow> u64 \<Rightarrow> 'p sl_st \<Rightarrow> 'p sl_st" where
  "sl_thd_setprio t p = upd_sl t (\<lambda>x. x\<lparr>sl_prio := p\<rparr>)"

definition sl_thd_is_runnable :: "sl_thd \<Rightarrow> bool" where
  "sl_thd_is_runnable t \<longleftrightarrow> sl_state t = SL_THD_RUNNABLE \<or> sl_state t = SL_THD_WOKEN"

definition sl_thd_event_info_reset :: "sl_thd \<Rightarrow> sl_thd" where
  "sl_thd_event_info_reset t = t\<lparr>sl_event_info := \<lparr>ev_blocked = False, ev_cycles = 0, ev_timeout = 0\<rparr>\<rparr>"

definition TCAP_PRIO_MIN :: u64 where "TCAP_PRIO_MIN = drop_bit 16 (- 1)"

text \<open>
  \<^verbatim>\<open>sl_thd_alloc_init\<close> on the thread structure \<open>t\<close> that the static back end gives for the thread identifier
  of \<open>aep\<close>; the back end never returns \<^verbatim>\<open>NULL\<close> and keeps no index.
\<close>

definition sl_thd_alloc_init :: "addr \<Rightarrow> cos_aep_info \<Rightarrow> capid \<Rightarrow> bool \<Rightarrow> bool \<Rightarrow> 'p sl_st \<Rightarrow> 'p sl_st option" where
  "sl_thd_alloc_init t aep sndcap own_tcap send s = do {
     kassert (aep_tid aep \<noteq> 0);
     Some (upd_sl t (\<lambda>x. sl_thd_event_info_reset (x\<lparr>sl_own_tcap := own_tcap, sl_send := send, sl_aepinfo := Some aep,
       sl_sndcap := sndcap, sl_state := SL_THD_RUNNABLE, sl_rcv_suspended := False, sl_budget := 0, sl_last_replenish := 0,
       sl_period := 0, sl_timeout_cycs := 0, sl_periodic_cycs := 0, sl_wakeup_cycs := 0, sl_timeout_idx := - 1,
       sl_prio := TCAP_PRIO_MIN\<rparr>)) s)
   }"

section \<open>Scheduling policies\<close>

text \<open>The functions that a policy module provides to the library; they are bound when the system is linked.\<close>

record 'p sl_policy =
  sl_mod_block :: "addr \<Rightarrow> 'p sl_st \<Rightarrow> 'p sl_st option"
  sl_mod_wakeup :: "addr \<Rightarrow> 'p sl_st \<Rightarrow> 'p sl_st option"
  sl_mod_schedule :: "'p sl_st \<Rightarrow> addr option"
  sl_mod_yield :: "addr \<Rightarrow> addr \<Rightarrow> 'p sl_st \<Rightarrow> 'p sl_st option"
  sl_mod_thd_create :: "addr \<Rightarrow> 'p sl_st \<Rightarrow> 'p sl_st option"
  sl_mod_thd_delete :: "addr \<Rightarrow> 'p sl_st \<Rightarrow> 'p sl_st option"
  sl_mod_thd_param_set :: "addr \<Rightarrow> sched_param_type \<Rightarrow> u64 \<Rightarrow> 'p sl_st \<Rightarrow> 'p sl_st option"

lemma upd_sl_sel [simp]:
  "s_thds (upd_sl t f s) = (s_thds s)(t := f (s_thds s t))" "s_timeouts (upd_sl t f s) = s_timeouts s"
  "s_pol (upd_sl t f s) = s_pol s" "s_curr (upd_sl t f s) = s_curr s"
  "g_sched_thd (upd_sl t f s) = g_sched_thd s" "g_sched_tcap (upd_sl t f s) = g_sched_tcap s" "g_idle_thd (upd_sl t f s) = g_idle_thd s"
  "g_cyc_per_usec (upd_sl t f s) = g_cyc_per_usec s" "g_period (upd_sl t f s) = g_period s"
  "g_timer_next (upd_sl t f s) = g_timer_next s" "g_timeout_next (upd_sl t f s) = g_timeout_next s"
  by (simp_all add: upd_sl_def)

section \<open>Parameters survive their encoding\<close>

lemma param_type_code: "param_type (param_code ty) = Some ty" "param_code ty < 2 ^ 8"
  by (cases ty; simp add: param_type_def sched_param_types_def)+

text \<open>
  A scheduling parameter that is packed into a word and taken apart again has its type, and its value
  up to the 56 bits that the word has for it.
\<close>

theorem sched_param_roundtrip:
  "sched_param_get (sched_param_pack ty v) = Some (ty, take_bit 56 v)"
proof -
  let ?c = "take_bit 8 (of_nat (param_code ty)) :: u64" and ?v = "push_bit 8 (take_bit 56 v) :: u64"
  have "take_bit 8 (?c OR ?v) = ?c" by (rule bit_word_eqI) (auto simp: bit_simps)
  moreover have "unat ?c = param_code ty"
    using param_type_code(2) [of ty] by (simp add: unsigned_of_nat unsigned_take_bit_eq take_bit_nat_eq_self)
  moreover have "drop_bit 8 (?c OR ?v) = take_bit 56 v" by (rule bit_word_eqI) (auto simp: bit_simps)
  ultimately show ?thesis using param_type_code(1) [of ty]
    by (simp add: sched_param_get_def sched_param_pack_def SCHED_PARAM_TYPE_BITS_def)
qed

end
