(* ===== verification/Sl_Edf.thy ===== *)
theory Sl_Edf
  imports Sl_Thd
begin

text \<open>
  The earliest-deadline-first policy (\<^verbatim>\<open>components/lib/sl/sl_mod_edf.c\<close>): the runnable threads of a core in a
  heap by deadline; and the interface that the scheduling library expects of a policy, as a locale that
  this policy implements.

  The heap lies in \<^verbatim>\<open>struct edf_heap\<close>, whose array has \<^verbatim>\<open>SL_EDF_MAX_THDS\<close> slots.  The cycle counts that the
  module keeps for a report (\<^verbatim>\<open>sl_per_core\<close>, \<^verbatim>\<open>global_start\<close>) are left out.
\<close>

section \<open>The policy\<close>

definition SL_EDF_MAX_THDS :: int where "SL_EDF_MAX_THDS = int MAX_NUM_THREADS"

definition SL_EDF_MAX_DEADLINE :: u64 where "SL_EDF_MAX_DEADLINE = NOT 0"

definition compare_min :: "sl_mem cmp_fn" where
  "compare_min m a b \<longleftrightarrow> pol_deadline (m a) \<le> pol_deadline (m b)"

definition update_idx :: "sl_mem update_fn" where
  "update_idx e pos m = m(e := (m e)\<lparr>pol_prio_idx := pos\<rparr>)"

definition edf_heap_op :: "(heap \<times> sl_mem \<Rightarrow> (heap \<times> sl_mem) option) \<Rightarrow> heap sl_st \<Rightarrow> heap sl_st option" where
  "edf_heap_op f s = do {
     (h, m) \<leftarrow> f (s_pol s, s_thds s);
     Some (s\<lparr>s_pol := h, s_thds := m\<rparr>)
   }"

definition edf_schedule :: "heap sl_st \<Rightarrow> addr option" where
  "edf_schedule s = heap_peek (s_pol s)"

definition edf_block :: "addr \<Rightarrow> heap sl_st \<Rightarrow> heap sl_st option" where
  "edf_block t s = do {
     kassert (pol_prio_idx (s_thds s t) \<ge> 0);
     s \<leftarrow> edf_heap_op (\<lambda>hm. do { (_, hm) \<leftarrow> heap_remove compare_min update_idx (pol_prio_idx (s_thds s t)) hm; Some hm }) s;
     Some (upd_sl t (\<lambda>x. x\<lparr>sl_state := SL_THD_BLOCKED, pol_prio_idx := - 1\<rparr>) s)
   }"

definition edf_wakeup :: "addr \<Rightarrow> heap sl_st \<Rightarrow> heap sl_st option" where
  "edf_wakeup t s = do {
     kassert (pol_deadline (s_thds s t) \<noteq> SL_EDF_MAX_DEADLINE);
     if pol_prio_idx (s_thds s t) < 0
     then edf_heap_op (\<lambda>hm. do { (_, hm) \<leftarrow> heap_add compare_min update_idx t hm; Some hm }) s
     else do {
       kassert (pol_prio_idx (s_thds s t) > 0);
       edf_heap_op (heap_adjust compare_min update_idx (pol_prio_idx (s_thds s t))) s
     }
   }"

definition edf_yield :: "addr \<Rightarrow> addr \<Rightarrow> heap sl_st \<Rightarrow> heap sl_st option" where
  "edf_yield t yield_to s = Some s"

definition edf_thd_create :: "addr \<Rightarrow> heap sl_st \<Rightarrow> heap sl_st option" where
  "edf_thd_create t s = do {
     let s = upd_sl t (\<lambda>x. x\<lparr>pol_period := 0, pol_period_usec := 0, pol_priority := SL_EDF_MAX_DEADLINE,
       pol_deadline := SL_EDF_MAX_DEADLINE, pol_prio_idx := - 1\<rparr>) s;
     kassert (heap_size (s_pol s) + 1 < SL_EDF_MAX_THDS);
     Some s
   }"

definition edf_thd_delete :: "addr \<Rightarrow> heap sl_st \<Rightarrow> heap sl_st option" where
  "edf_thd_delete t s =
     edf_heap_op (\<lambda>hm. do { (_, hm) \<leftarrow> heap_remove compare_min update_idx (pol_prio_idx (s_thds s t)) hm; Some hm }) s"

definition edf_thd_param_set :: "addr \<Rightarrow> sched_param_type \<Rightarrow> u64 \<Rightarrow> heap sl_st \<Rightarrow> heap sl_st option" where
  "edf_thd_param_set t type v s =
     (case type of
        SCHEDP_PRIO \<Rightarrow> do {
          let s = upd_sl t (\<lambda>x. x\<lparr>pol_priority := v\<rparr>) s;
          let s = sl_thd_setprio t (pol_priority (s_thds s t)) s;
          let s = upd_sl t (\<lambda>x. x\<lparr>pol_deadline := SL_EDF_MAX_DEADLINE\<rparr>) s;
          kassert (pol_prio_idx (s_thds s t) < 0);
          edf_heap_op (\<lambda>hm. do { (_, hm) \<leftarrow> heap_add compare_min update_idx t hm; Some hm }) s
        }
      | SCHEDP_PRIO_BLOCK \<Rightarrow> do {
          let s = upd_sl t (\<lambda>x. x\<lparr>pol_priority := v\<rparr>) s;
          let s = sl_thd_setprio t (pol_priority (s_thds s t)) s;
          let s = upd_sl t (\<lambda>x. x\<lparr>sl_state := SL_THD_BLOCKED, pol_deadline := SL_EDF_MAX_DEADLINE\<rparr>) s;
          kassert (pol_prio_idx (s_thds s t) < 0);
          Some s
        }
      | SCHEDP_DEADLINE \<Rightarrow> Some (upd_sl t (\<lambda>x. x\<lparr>pol_deadline := v, pol_priority := v\<rparr>) s)
      | _ \<Rightarrow> None)"

definition edf_init :: "addr list \<Rightarrow> heap sl_st \<Rightarrow> heap sl_st" where
  "edf_init space s = s\<lparr>s_pol := heap_init SL_EDF_MAX_THDS space\<rparr>"

definition edf_policy :: "heap sl_policy" where
  "edf_policy = \<lparr>sl_mod_block = edf_block, sl_mod_wakeup = edf_wakeup, sl_mod_schedule = edf_schedule,
     sl_mod_yield = edf_yield, sl_mod_thd_create = edf_thd_create, sl_mod_thd_delete = edf_thd_delete,
     sl_mod_thd_param_set = edf_thd_param_set\<rparr>"

section \<open>What the library relies on\<close>

text \<open>What the library sees of a thread, and what the policy sees of it.\<close>

definition lib_view :: "sl_thd \<Rightarrow> sl_thd" where
  "lib_view x = x\<lparr>pol_priority := 0, pol_period_usec := 0, pol_period := 0, pol_deadline := 0, pol_prio_idx := 0\<rparr>"

definition pol_view :: "sl_thd \<Rightarrow> u64 \<times> u64 \<times> u64 \<times> u64 \<times> int" where
  "pol_view x = (pol_priority x, pol_period_usec x, pol_period x, pol_deadline x, pol_prio_idx x)"

definition lib_same :: "addr set \<Rightarrow> 'p sl_st \<Rightarrow> 'p sl_st \<Rightarrow> bool" where
  "lib_same X s s' \<longleftrightarrow> s_timeouts s' = s_timeouts s \<and> s_curr s' = s_curr s \<and> g_sched_thd s' = g_sched_thd s \<and> g_sched_tcap s' = g_sched_tcap s \<and>
     g_idle_thd s' = g_idle_thd s \<and> g_timer_next s' = g_timer_next s \<and> g_timeout_next s' = g_timeout_next s \<and>
     g_period s' = g_period s \<and> g_cyc_per_usec s' = g_cyc_per_usec s \<and>
     (\<forall>x. lib_view ((s_thds s' x)\<lparr>sl_state := SL_THD_FREE\<rparr>) = lib_view ((s_thds s x)\<lparr>sl_state := SL_THD_FREE\<rparr>)) \<and>
     (\<forall>x. x \<notin> X \<longrightarrow> sl_state (s_thds s' x) = sl_state (s_thds s x))"

text \<open>
  A policy keeps a set of ready threads.  Blocking takes a thread out of it, waking up puts one into it if the
  policy can take it, and scheduling returns one of them, or none if there is none.  Neither touches what
  belongs to the library, except that blocking may already set the state of the thread; and the policy is
  not affected by what the library does to its part.
\<close>

locale sched_policy =
  fixes P :: "'p sl_policy" and pinv :: "'p sl_st \<Rightarrow> bool" and ready :: "'p sl_st \<Rightarrow> addr set"
    and wakeable :: "addr \<Rightarrow> 'p sl_st \<Rightarrow> bool"
  assumes block_ok: "pinv s \<Longrightarrow> t \<in> ready s \<Longrightarrow>
      \<exists>s'. sl_mod_block P t s = Some s' \<and> pinv s' \<and> ready s' = ready s - {t} \<and> lib_same {t} s s' \<and>
        (\<forall>x. wakeable x s \<longrightarrow> wakeable x s')"
    and wakeup_ok: "pinv s \<Longrightarrow> wakeable t s \<Longrightarrow>
      \<exists>s'. sl_mod_wakeup P t s = Some s' \<and> pinv s' \<and> ready s' = insert t (ready s) \<and> lib_same {} s s' \<and>
        (\<forall>x. wakeable x s \<longrightarrow> wakeable x s')"
    and schedule_ok: "pinv s \<Longrightarrow> \<exists>r. sl_mod_schedule P s = Some r \<and> (if ready s = {} then r = 0 else r \<in> ready s)"
    and pol_only: "s_pol s' = s_pol s \<Longrightarrow> (\<And>x. pol_view (s_thds s' x) = pol_view (s_thds s x)) \<Longrightarrow>
      pinv s' = pinv s \<and> ready s' = ready s \<and> wakeable t s' = wakeable t s"

section \<open>The policy implements the interface\<close>

abbreviation prio_idx :: "sl_mem \<Rightarrow> addr \<Rightarrow> int" where
  "prio_idx m t \<equiv> pol_prio_idx (m t)"

definition but_prio_idx :: "sl_mem \<Rightarrow> addr \<Rightarrow> sl_thd" where
  "but_prio_idx m t = (m t)\<lparr>pol_prio_idx := 0\<rparr>"

interpretation eh: heap_entries compare_min update_idx prio_idx but_prio_idx
  by unfold_locales (auto simp: compare_min_def update_idx_def but_prio_idx_def fun_eq_iff)

text \<open>
  The state of the policy for the threads \<open>T\<close>: a heap of some of them, with space for all of them, where
  the threads that are not in the heap have no position.
\<close>

definition edf_inv :: "addr set \<Rightarrow> heap sl_st \<Rightarrow> bool" where
  "edf_inv T s \<longleftrightarrow> finite T \<and> 0 \<notin> T \<and> heap_ok compare_min prio_idx (s_pol s) (s_thds s) \<and> heap_elems (s_pol s) \<subseteq> T \<and>
     int (card T) < hp_max_sz (s_pol s) \<and> card T < length (hp_data (s_pol s)) \<and>
     (\<forall>t\<in>T - heap_elems (s_pol s). prio_idx (s_thds s) t < 0)"

definition edf_ready :: "heap sl_st \<Rightarrow> addr set" where
  "edf_ready s = heap_elems (s_pol s)"

definition edf_wakeable :: "addr set \<Rightarrow> addr \<Rightarrow> heap sl_st \<Rightarrow> bool" where
  "edf_wakeable T t s \<longleftrightarrow> t \<in> T \<and> pol_deadline (s_thds s t) \<noteq> SL_EDF_MAX_DEADLINE"

lemma edf_position:
  assumes "heap_ok cmp idx h m" "t \<in> heap_elems h"
  obtains c where "idx m t = int c" "hp_data h ! c = t" "1 \<le> c" "int c < hp_e h"
proof -
  obtain e where e: "hp_e h = int e" "idx_ok idx m (hp_data h) e" using heap_ok_e [OF assms(1)] by blast
  then show ?thesis using elems_at [OF e(2), of t] assms(2) that by (auto simp: heap_elems_def)
qed

lemma edf_frame:
  assumes "heap_frame compare_min prio_idx but_prio_idx X (h, m) (h', m')"
  shows "lib_view (m' x) = lib_view (m x)" "pol_deadline (m' x) = pol_deadline (m x)" "sl_state (m' x) = sl_state (m x)"
    "lib_view ((m' x)\<lparr>sl_state := st\<rparr>) = lib_view ((m x)\<lparr>sl_state := st\<rparr>)"
    "x \<notin> X \<Longrightarrow> m' x = m x"
proof -
  have b: "(m' x)\<lparr>pol_prio_idx := 0\<rparr> = (m x)\<lparr>pol_prio_idx := 0\<rparr>" "x \<notin> X \<Longrightarrow> prio_idx m' x = prio_idx m x"
    using assms by (auto simp: heap_frame_def but_prio_idx_def fun_eq_iff)
  then have "lib_view ((m' x)\<lparr>pol_prio_idx := 0\<rparr>) = lib_view ((m x)\<lparr>pol_prio_idx := 0\<rparr>)" by simp
  then show "lib_view (m' x) = lib_view (m x)" by (simp add: lib_view_def)
  show "pol_deadline (m' x) = pol_deadline (m x)" "sl_state (m' x) = sl_state (m x)"
    "lib_view ((m' x)\<lparr>sl_state := st\<rparr>) = lib_view ((m x)\<lparr>sl_state := st\<rparr>)" "x \<notin> X \<Longrightarrow> m' x = m x"
    using b by (cases "m' x"; cases "m x"; simp add: lib_view_def)+
qed

lemma edf_block_ok:
  assumes inv: "edf_inv T s" and t: "t \<in> edf_ready s"
  shows "\<exists>s'. edf_block t s = Some s' \<and> edf_inv T s' \<and> edf_ready s' = edf_ready s - {t} \<and> lib_same {t} s s' \<and>
    (\<forall>x. edf_wakeable T x s \<longrightarrow> edf_wakeable T x s')"
proof -
  have ok: "heap_ok compare_min prio_idx (s_pol s) (s_thds s)" and th: "t \<in> heap_elems (s_pol s)"
    using inv t by (simp_all add: edf_inv_def edf_ready_def)
  obtain c where c: "prio_idx (s_thds s) t = int c" "hp_data (s_pol s) ! c = t" "1 \<le> c" "int c < hp_e (s_pol s)"
    using edf_position [OF ok th] by metis
  obtain h' m' where rm: "heap_remove compare_min update_idx (int c) (s_pol s, s_thds s) = Some (t, h', m')"
    "heap_ok compare_min prio_idx h' m'" "heap_elems h' = heap_elems (s_pol s) - {t}"
    "heap_frame compare_min prio_idx but_prio_idx (heap_elems (s_pol s)) (s_pol s, s_thds s) (h', m')"
    using eh.heap_remove_ok [OF ok c(3,4)] c(2) by auto
  note fr = edf_frame [OF rm(4)]
  let ?s = "upd_sl t (\<lambda>x. x\<lparr>sl_state := SL_THD_BLOCKED, pol_prio_idx := - 1\<rparr>) (s\<lparr>s_pol := h', s_thds := m'\<rparr>)"
  have "edf_block t s = Some ?s" using c(1) rm(1) by (simp add: edf_block_def edf_heap_op_def)
  moreover have "heap_ok compare_min prio_idx h' (s_thds ?s)"
    by (rule heap_ok_cong [OF rm(2)]) (auto simp: compare_min_def fun_eq_iff rm(3))
  then have "edf_inv T ?s" using inv rm(3,4) fr(5) by (auto simp: edf_inv_def heap_frame_def)
  moreover have "edf_ready ?s = edf_ready s - {t}" using rm(3) by (simp add: edf_ready_def)
  moreover have "lib_same {t} s ?s" using fr(3,4) by (auto simp: lib_same_def lib_view_def)
  moreover have "\<forall>x. edf_wakeable T x s \<longrightarrow> edf_wakeable T x ?s" using fr(2) by (simp add: edf_wakeable_def)
  ultimately show ?thesis by blast
qed

lemma edf_wakeup_ok:
  assumes inv: "edf_inv T s" and t: "edf_wakeable T t s"
  shows "\<exists>s'. edf_wakeup t s = Some s' \<and> edf_inv T s' \<and> edf_ready s' = insert t (edf_ready s) \<and> lib_same {} s s' \<and>
    (\<forall>x. edf_wakeable T x s \<longrightarrow> edf_wakeable T x s')"
proof -
  have ok: "heap_ok compare_min prio_idx (s_pol s) (s_thds s)" and sub: "heap_elems (s_pol s) \<subseteq> T" "finite T"
    using inv by (simp_all add: edf_inv_def)
  have "\<exists>h' m'. edf_wakeup t s = Some (s\<lparr>s_pol := h', s_thds := m'\<rparr>) \<and> heap_ok compare_min prio_idx h' m' \<and>
    heap_elems h' = insert t (heap_elems (s_pol s)) \<and>
    heap_frame compare_min prio_idx but_prio_idx (insert t (heap_elems (s_pol s))) (s_pol s, s_thds s) (h', m')"
  proof (cases "t \<in> heap_elems (s_pol s)")
    case True
    obtain c where c: "prio_idx (s_thds s) t = int c" "1 \<le> c" "int c < hp_e (s_pol s)" using edf_position [OF ok True] by metis
    obtain e where e: "hp_e (s_pol s) = int e" "e \<le> length (hp_data (s_pol s))" "heap_ord compare_min (s_thds s) (hp_data (s_pol s)) e"
      "idx_ok prio_idx (s_thds s) (hp_data (s_pol s)) e" using heap_ok_e [OF ok] by blast
    have "gap_ord compare_min (s_thds s) (hp_data (s_pol s)) e c {c}" using eh.rekey_gap [OF e(3,4) c(2)] c(3) e(1) by simp
    moreover have "hp_e (s_pol s) \<le> hp_max_sz (s_pol s)" "c < e" using ok c(3) e(1) by (simp_all add: heap_ok_def)
    ultimately obtain h' m' where "heap_adjust compare_min update_idx (int c) (s_pol s, s_thds s) = Some (h', m')"
      "heap_ok compare_min prio_idx h' m'" "heap_elems h' = heap_elems (s_pol s)"
      "heap_frame compare_min prio_idx but_prio_idx (heap_elems (s_pol s)) (s_pol s, s_thds s) (h', m')"
      using eh.heap_adjust_ok [OF _ e(4) c(2) _ e(1) _ e(2)] by blast
    then show ?thesis using c(1,2) t True
      by (intro exI [of _ h'] exI [of _ m']) (simp add: edf_wakeup_def edf_heap_op_def edf_wakeable_def insert_absorb)
  next
    case False
    then have neg: "prio_idx (s_thds s) t < 0" using inv t by (auto simp: edf_inv_def edf_wakeable_def)
    have "card (heap_elems (s_pol s)) < card T"
      using sub False t by (intro psubset_card_mono) (auto simp: edf_wakeable_def)
    then have "hp_e (s_pol s) < hp_max_sz (s_pol s)" "hp_e (s_pol s) < int (length (hp_data (s_pol s)))"
      using card_heap_elems [OF ok] inv by (auto simp: edf_inv_def)
    then obtain h' m' where "heap_add compare_min update_idx t (s_pol s, s_thds s) = Some (0, h', m')"
      "heap_ok compare_min prio_idx h' m'" "heap_elems h' = insert t (heap_elems (s_pol s))"
      "heap_frame compare_min prio_idx but_prio_idx (insert t (heap_elems (s_pol s))) (s_pol s, s_thds s) (h', m')"
      using eh.heap_add_ok [OF ok _ _ False] by blast
    then show ?thesis using neg t
      by (intro exI [of _ h'] exI [of _ m']) (simp add: edf_wakeup_def edf_heap_op_def edf_wakeable_def)
  qed
  then obtain h' m' where w: "edf_wakeup t s = Some (s\<lparr>s_pol := h', s_thds := m'\<rparr>)" "heap_ok compare_min prio_idx h' m'"
    "heap_elems h' = insert t (heap_elems (s_pol s))"
    "heap_frame compare_min prio_idx but_prio_idx (insert t (heap_elems (s_pol s))) (s_pol s, s_thds s) (h', m')" by blast
  note fr = edf_frame [OF w(4)]
  let ?s = "s\<lparr>s_pol := h', s_thds := m'\<rparr>"
  have "edf_inv T ?s" using inv w(2-4) fr(5) t by (auto simp: edf_inv_def edf_wakeable_def heap_frame_def)
  moreover have "lib_same {} s ?s" using fr(3,4) by (simp add: lib_same_def)
  moreover have "edf_ready ?s = insert t (edf_ready s)" using w(3) by (simp add: edf_ready_def)
  moreover have "\<forall>x. edf_wakeable T x s \<longrightarrow> edf_wakeable T x ?s" using fr(2) by (simp add: edf_wakeable_def)
  ultimately show ?thesis using w(1) by blast
qed

lemma edf_schedule_ok:
  assumes "edf_inv T s"
  shows "\<exists>r. edf_schedule s = Some r \<and> (if edf_ready s = {} then r = 0 else r \<in> edf_ready s) \<and>
    (\<forall>x\<in>edf_ready s. pol_deadline (s_thds s r) \<le> pol_deadline (s_thds s x))"
proof -
  have ok: "heap_ok compare_min prio_idx (s_pol s) (s_thds s)" using assms by (simp add: edf_inv_def)
  show ?thesis using eh.heap_peek_ok [OF ok] by (cases "hp_e (s_pol s) = 1") (auto simp: edf_schedule_def edf_ready_def compare_min_def)
qed

lemma edf_pol_only:
  assumes "s_pol s' = s_pol s" "\<And>x. pol_view (s_thds s' x) = pol_view (s_thds s x)"
  shows "edf_inv T s' = edf_inv T s" "edf_ready s' = edf_ready s" "edf_wakeable T t s' = edf_wakeable T t s"
proof -
  have v: "pol_deadline (s_thds s' x) = pol_deadline (s_thds s x)" "prio_idx (s_thds s') x = prio_idx (s_thds s) x" for x
    using assms(2) [of x] by (simp_all add: pol_view_def)
  have "compare_min (s_thds s') = compare_min (s_thds s)" by (simp add: fun_eq_iff compare_min_def v)
  then have "heap_ok compare_min prio_idx (s_pol s) (s_thds s') = heap_ok compare_min prio_idx (s_pol s) (s_thds s)"
    using heap_ok_cong [of compare_min prio_idx "s_pol s" "s_thds s" "s_thds s'"]
      heap_ok_cong [of compare_min prio_idx "s_pol s" "s_thds s'" "s_thds s"] v(2) by auto
  then show "edf_inv T s' = edf_inv T s" "edf_ready s' = edf_ready s" "edf_wakeable T t s' = edf_wakeable T t s"
    by (simp_all add: edf_inv_def edf_ready_def edf_wakeable_def assms(1) v)
qed

lemma edf_policy_sel [simp]:
  "sl_mod_block edf_policy = edf_block" "sl_mod_wakeup edf_policy = edf_wakeup" "sl_mod_schedule edf_policy = edf_schedule"
  by (simp_all add: edf_policy_def)

interpretation edf: sched_policy edf_policy "edf_inv T" edf_ready "edf_wakeable T" for T
proof (unfold_locales, unfold edf_policy_sel)
  fix s s' :: "heap sl_st" and t
  show "\<exists>s'. edf_block t s = Some s' \<and> edf_inv T s' \<and> edf_ready s' = edf_ready s - {t} \<and> lib_same {t} s s' \<and>
    (\<forall>x. edf_wakeable T x s \<longrightarrow> edf_wakeable T x s')" if "edf_inv T s" "t \<in> edf_ready s"
    by (rule edf_block_ok [OF that])
  show "\<exists>s'. edf_wakeup t s = Some s' \<and> edf_inv T s' \<and> edf_ready s' = insert t (edf_ready s) \<and> lib_same {} s s' \<and>
    (\<forall>x. edf_wakeable T x s \<longrightarrow> edf_wakeable T x s')" if "edf_inv T s" "edf_wakeable T t s"
    by (rule edf_wakeup_ok [OF that])
  show "\<exists>r. edf_schedule s = Some r \<and> (if edf_ready s = {} then r = 0 else r \<in> edf_ready s)" if "edf_inv T s"
    using edf_schedule_ok [OF that] by blast
  show "edf_inv T s' = edf_inv T s \<and> edf_ready s' = edf_ready s \<and> edf_wakeable T t s' = edf_wakeable T t s"
    if "s_pol s' = s_pol s" "\<And>x. pol_view (s_thds s' x) = pol_view (s_thds s x)"
    using edf_pol_only [OF that] by blast
qed

end
