(* ===== verification/Sl_Sched.thy ===== *)
theory Sl_Sched
  imports Sl_Edf Tcap
begin

text \<open>
  Blocking, waking up and time-outs in the user-level scheduling library (\<^verbatim>\<open>components/lib/sl/sl_sched.c\<close>,
  \<^verbatim>\<open>components/include/sl.h\<close>), over a policy \<open>P\<close>.

  The operations are those that run inside the critical section of the core (\<^verbatim>\<open>..._no_cs\<close>), or the part
  of an operation between entering and leaving it.  The notification of a child scheduler
  (\<^verbatim>\<open>sl_parent_notif_block_no_cs\<close>, \<^verbatim>\<open>sl_parent_notif_wakeup_no_cs\<close>) goes to a ring in memory shared with the
  child, which is not part of this state; what it asserts of the threads is kept.
\<close>

section \<open>Threads and time\<close>

definition SL_MAX_NUM_THDS :: int where "SL_MAX_NUM_THDS = int MAX_NUM_THREADS"

definition sl_thd_thdid :: "'p sl_st \<Rightarrow> addr \<Rightarrow> u16 option" where
  "sl_thd_thdid s t = do { aep \<leftarrow> sl_aepinfo (s_thds s t); Some (aep_tid aep) }"

definition sl_usec2cyc :: "'p sl_st \<Rightarrow> u64 \<Rightarrow> u64" where
  "sl_usec2cyc s usec = usec * scast (g_cyc_per_usec s)"

definition sl_timeout_oneshot :: "u64 \<Rightarrow> 'p sl_st \<Rightarrow> 'p sl_st" where
  "sl_timeout_oneshot absolute_us s = s\<lparr>g_timer_next := absolute_us, g_timeout_next := tcap_cyc2time absolute_us\<rparr>"

definition sl_timeout_relative :: "u64 \<Rightarrow> u64 \<Rightarrow> 'p sl_st \<Rightarrow> 'p sl_st" where
  "sl_timeout_relative now offset s = sl_timeout_oneshot (now + offset) s"

definition sl_timeout_expended :: "u64 \<Rightarrow> u64 \<Rightarrow> 'p sl_st \<Rightarrow> 'p sl_st option" where
  "sl_timeout_expended now oldtimeout s = do {
     kassert (now \<ge> oldtimeout);
     kassert (g_period s \<noteq> 0);
     let offset = (now - oldtimeout) mod g_period s;
     Some (sl_timeout_oneshot (now + g_period s - offset) s)
   }"

definition sl_timeout_period :: "u64 \<Rightarrow> u64 \<Rightarrow> 'p sl_st \<Rightarrow> 'p sl_st" where
  "sl_timeout_period now period s =
     (let p = sl_usec2cyc s period in sl_timeout_relative now p (s\<lparr>g_period := p\<rparr>))"

section \<open>Time-outs\<close>

definition sl_timeout_compare_min :: "sl_mem cmp_fn" where
  "sl_timeout_compare_min m a b \<longleftrightarrow> sl_timeout_cycs (m a) \<le> sl_timeout_cycs (m b)"

definition sl_timeout_update_idx :: "sl_mem update_fn" where
  "sl_timeout_update_idx e pos m = m(e := (m e)\<lparr>sl_timeout_idx := pos\<rparr>)"

text \<open>\<^verbatim>\<open>struct timeout_heap\<close> has \<open>space\<close> behind its heap.\<close>

definition sl_timeout_init :: "u64 \<Rightarrow> u64 \<Rightarrow> addr list \<Rightarrow> 'p sl_st \<Rightarrow> 'p sl_st option" where
  "sl_timeout_init now period space s = do {
     kassert (period \<ge> 500);
     Some ((sl_timeout_period now period s)\<lparr>s_timeouts := heap_init SL_MAX_NUM_THDS space\<rparr>)
   }"

definition sl_timeout_block :: "addr \<Rightarrow> u64 \<Rightarrow> 'p sl_st \<Rightarrow> 'p sl_st option" where
  "sl_timeout_block t tmo s = do {
     kassert (t \<noteq> 0 \<and> sl_timeout_idx (s_thds s t) = - 1);
     kassert (heap_size (s_timeouts s) < SL_MAX_NUM_THDS);
     s \<leftarrow> (if tmo = 0
          then do {
            let tmp = sl_periodic_cycs (s_thds s t);
            kassert (sl_period (s_thds s t) \<noteq> 0);
            let s = upd_sl t (\<lambda>x. x\<lparr>sl_periodic_cycs := sl_periodic_cycs x + sl_period x\<rparr>) s;
            kassert (tmp < sl_periodic_cycs (s_thds s t));
            Some (upd_sl t (\<lambda>x. x\<lparr>sl_timeout_cycs := sl_periodic_cycs x\<rparr>) s)
          }
          else Some (upd_sl t (\<lambda>x. x\<lparr>sl_timeout_cycs := tmo\<rparr>) s));
     let s = upd_sl t (\<lambda>x. x\<lparr>sl_wakeup_cycs := 0\<rparr>) s;
     (_, h, m) \<leftarrow> heap_add sl_timeout_compare_min sl_timeout_update_idx t (s_timeouts s, s_thds s);
     Some (s\<lparr>s_timeouts := h, s_thds := m\<rparr>)
   }"

definition sl_timeout_remove :: "addr \<Rightarrow> 'p sl_st \<Rightarrow> 'p sl_st option" where
  "sl_timeout_remove t s = do {
     kassert (t \<noteq> 0 \<and> sl_timeout_idx (s_thds s t) > 0);
     kassert (heap_size (s_timeouts s) \<noteq> 0);
     (_, h, m) \<leftarrow> heap_remove sl_timeout_compare_min sl_timeout_update_idx (sl_timeout_idx (s_thds s t)) (s_timeouts s, s_thds s);
     Some (upd_sl t (\<lambda>x. x\<lparr>sl_timeout_idx := - 1\<rparr>) (s\<lparr>s_timeouts := h, s_thds := m\<rparr>))
   }"

section \<open>Blocking and waking up\<close>

text \<open>The ring and its buffer are set together when the child is made, so that the assertion on the buffer is void.\<close>

abbreviation is_blocked :: "sl_thd_state \<Rightarrow> bool" where
  "is_blocked st \<equiv> st = SL_THD_BLOCKED \<or> st = SL_THD_BLOCKED_TIMEOUT"

definition sl_parent_notif :: "addr \<Rightarrow> addr \<Rightarrow> 'p sl_st \<Rightarrow> 'p sl_st option" where
  "sl_parent_notif child t s = do {
     _ \<leftarrow> sl_thd_thdid s t;
     kassert (child \<noteq> 0);
     kassert (sl_send (s_thds s child));
     Some s
   }"

definition timeout_remove_if :: "addr \<Rightarrow> 'p sl_st \<Rightarrow> 'p sl_st option" where
  "timeout_remove_if t s =
     (if sl_state (s_thds s t) = SL_THD_BLOCKED_TIMEOUT then sl_timeout_remove t s else Some s)"

definition timeout_block_if :: "addr \<Rightarrow> sl_thd_state \<Rightarrow> u64 \<Rightarrow> 'p sl_st \<Rightarrow> 'p sl_st option" where
  "timeout_block_if t block_type tmo s =
     (if block_type = SL_THD_BLOCKED_TIMEOUT then sl_timeout_block t tmo s else Some s)"

definition sl_thd_sched_block_no_cs :: "'p sl_policy \<Rightarrow> addr \<Rightarrow> sl_thd_state \<Rightarrow> u64 \<Rightarrow> ('p sl_st, int) kop" where
  "sl_thd_sched_block_no_cs P t block_type tmo s = do {
     kassert (t \<noteq> 0);
     kassert (is_blocked block_type);
     if sl_schedthd (s_thds s t) \<noteq> 0
     then do { s \<leftarrow> sl_parent_notif (sl_schedthd (s_thds s t)) t s; Some (0, s) }
     else do {
       s \<leftarrow> (if is_blocked (sl_state (s_thds s t)) then timeout_remove_if t s
            else do {
              kassert (sl_thd_is_runnable (s_thds s t));
              sl_mod_block P t s
            });
       let s = upd_sl t (\<lambda>x. x\<lparr>sl_state := block_type\<rparr>) s;
       s \<leftarrow> timeout_block_if t block_type tmo s;
       Some (0, upd_sl t (\<lambda>x. x\<lparr>sl_rcv_suspended := True\<rparr>) s)
     }
   }"

definition sl_thd_wakeup_no_cs_rm :: "'p sl_policy \<Rightarrow> addr \<Rightarrow> ('p sl_st, int) kop" where
  "sl_thd_wakeup_no_cs_rm P t s = do {
     kassert (t \<noteq> 0);
     let s = upd_sl t (\<lambda>x. x\<lparr>sl_state := SL_THD_RUNNABLE\<rparr>) s;
     s \<leftarrow> sl_mod_wakeup P t s;
     let ret = sint (sl_wakeup_cnt (s_thds s t));
     let s = upd_sl t (\<lambda>x. x\<lparr>sl_wakeup_cnt := sl_wakeup_cnt x + 1\<rparr>) s;
     kassert (ret \<ge> 0);
     Some (0, upd_sl t (\<lambda>x. x\<lparr>sl_rcv_suspended := False\<rparr>) s)
   }"

definition sl_thd_sched_unblock_no_cs :: "'p sl_policy \<Rightarrow> addr \<Rightarrow> ('p sl_st, int) kop" where
  "sl_thd_sched_unblock_no_cs P t s =
     (if \<not> sl_rcv_suspended (s_thds s t) then Some (0, s)
      else do {
        let s = upd_sl t (\<lambda>x. x\<lparr>sl_rcv_suspended := False\<rparr>) s;
        if \<not> is_blocked (sl_state (s_thds s t)) then Some (0, s)
        else do {
          s \<leftarrow> timeout_remove_if t s;
          (_, s) \<leftarrow> sl_thd_wakeup_no_cs_rm P t s;
          Some (1, s)
        }
      })"

definition sl_thd_block_no_cs :: "'p sl_policy \<Rightarrow> addr \<Rightarrow> sl_thd_state \<Rightarrow> u64 \<Rightarrow> ('p sl_st, int) kop" where
  "sl_thd_block_no_cs P t block_type tmo s = do {
     kassert (t \<noteq> 0);
     tid \<leftarrow> sl_thd_thdid s t;
     cur \<leftarrow> sl_thd_thdid s (s_curr s);
     kassert (cur = tid);
     kassert (is_blocked block_type);
     if sl_state (s_thds s t) = SL_THD_WOKEN
     then do {
       kassert (\<not> sl_rcv_suspended (s_thds s t));
       Some (1, upd_sl t (\<lambda>x. x\<lparr>sl_state := SL_THD_RUNNABLE\<rparr>) s)
     }
     else do {
       (_, s) \<leftarrow> sl_thd_sched_unblock_no_cs P t s;
       kassert (sl_state (s_thds s t) = SL_THD_RUNNABLE);
       s \<leftarrow> sl_mod_block P t s;
       let s = upd_sl t (\<lambda>x. x\<lparr>sl_state := block_type\<rparr>) s;
       s \<leftarrow> timeout_block_if t block_type tmo s;
       Some (0, s)
     }
   }"

text \<open>\<^verbatim>\<open>sl_thd_block\<close> inside its critical section: 1 if it returns to the caller, 0 if it goes on to schedule.\<close>

definition sl_thd_block :: "'p sl_policy \<Rightarrow> ('p sl_st, int) kop" where
  "sl_thd_block P s = do {
     let t = s_curr s;
     let cnt = sint (sl_wakeup_cnt (s_thds s t));
     let s = upd_sl t (\<lambda>x. x\<lparr>sl_wakeup_cnt := sl_wakeup_cnt x - 1\<rparr>) s;
     kassert (cnt \<ge> 1);
     if cnt = 1 then sl_thd_block_no_cs P t SL_THD_BLOCKED 0 s else Some (0, s)
   }"

definition sl_thd_block_expiry :: "'p sl_policy \<Rightarrow> addr \<Rightarrow> 'p sl_st \<Rightarrow> 'p sl_st option" where
  "sl_thd_block_expiry P t s = do {
     kassert (t \<noteq> g_sched_thd s);
     if \<not> sl_own_tcap (s_thds s t)
     then do { kassert (\<not> sl_rcv_suspended (s_thds s t)); Some s }
     else do {
       kassert (sl_period (s_thds s t) \<noteq> 0);
       (_, s) \<leftarrow> sl_thd_sched_unblock_no_cs P t s;
       (_, s) \<leftarrow> sl_thd_sched_block_no_cs P t SL_THD_BLOCKED_TIMEOUT 0 s;
       Some (upd_sl t (\<lambda>x. x\<lparr>sl_rcv_suspended := False\<rparr>) s)
     }
   }"

definition sl_thd_sched_wakeup_no_cs :: "'p sl_policy \<Rightarrow> addr \<Rightarrow> ('p sl_st, int) kop" where
  "sl_thd_sched_wakeup_no_cs P t s = do {
     kassert (t \<noteq> 0);
     if \<not> sl_rcv_suspended (s_thds s t) then Some (1, s)
     else do {
       let s = upd_sl t (\<lambda>x. x\<lparr>sl_rcv_suspended := False\<rparr>) s;
       if sl_thd_is_runnable (s_thds s t) then Some (1, s)
       else do {
         kassert (is_blocked (sl_state (s_thds s t)));
         s \<leftarrow> timeout_remove_if t s;
         let s = upd_sl t (\<lambda>x. x\<lparr>sl_state := SL_THD_RUNNABLE\<rparr>) s;
         s \<leftarrow> sl_mod_wakeup P t s;
         Some (0, s)
       }
     }
   }"

definition sl_thd_wakeup_no_cs :: "'p sl_policy \<Rightarrow> addr \<Rightarrow> ('p sl_st, int) kop" where
  "sl_thd_wakeup_no_cs P t s = do {
     kassert (t \<noteq> 0);
     kassert (s_curr s \<noteq> t);
     if sl_schedthd (s_thds s t) \<noteq> 0
     then do { s \<leftarrow> sl_parent_notif (sl_schedthd (s_thds s t)) t s; Some (0, s) }
     else if sl_thd_is_runnable (s_thds s t)
     then Some (1, upd_sl t (\<lambda>x. x\<lparr>sl_state := SL_THD_WOKEN\<rparr>) s)
     else do {
       kassert (is_blocked (sl_state (s_thds s t)));
       s \<leftarrow> timeout_remove_if t s;
       sl_thd_wakeup_no_cs_rm P t s
     }
   }"

partial_function (option) sl_timeout_wakeup_loop :: "'p sl_policy \<Rightarrow> u64 \<Rightarrow> 'p sl_st \<Rightarrow> 'p sl_st option" where
  "sl_timeout_wakeup_loop P now s = do {
     tp \<leftarrow> heap_peek (s_timeouts s);
     kassert (tp \<noteq> 0);
     if sl_timeout_cycs (s_thds s tp) > now then Some s
     else do {
       (th, h, m) \<leftarrow> heap_highest sl_timeout_compare_min sl_timeout_update_idx (s_timeouts s, s_thds s);
       let s = s\<lparr>s_timeouts := h, s_thds := m\<rparr>;
       kassert (th \<noteq> 0 \<and> th = tp);
       let s = upd_sl th (\<lambda>x. x\<lparr>sl_timeout_idx := - 1\<rparr>) s;
       kassert (sl_wakeup_cycs (s_thds s th) = 0);
       let s = upd_sl th (\<lambda>x. x\<lparr>sl_wakeup_cycs := now\<rparr>) s;
       (_, s) \<leftarrow> sl_thd_wakeup_no_cs_rm P th s;
       if heap_size (s_timeouts s) \<noteq> 0 then sl_timeout_wakeup_loop P now s else Some s
     }
   }"

definition sl_timeout_wakeup_expired :: "'p sl_policy \<Rightarrow> u64 \<Rightarrow> 'p sl_st \<Rightarrow> 'p sl_st option" where
  "sl_timeout_wakeup_expired P now s = (if heap_size (s_timeouts s) = 0 then Some s else sl_timeout_wakeup_loop P now s)"

section \<open>Parameters, freeing, scheduling\<close>

definition sl_thd_param_set :: "'p sl_policy \<Rightarrow> u64 \<Rightarrow> addr \<Rightarrow> u64 \<Rightarrow> 'p sl_st \<Rightarrow> 'p sl_st option" where
  "sl_thd_param_set P now t sp s = do {
     kassert (t \<noteq> 0);
     (type, value) \<leftarrow> sched_param_get sp;
     let s = (case type of
         SCHEDP_WINDOW \<Rightarrow> upd_sl t (\<lambda>x. x\<lparr>sl_period := sl_usec2cyc s value, sl_periodic_cycs := now\<rparr>) s
       | SCHEDP_BUDGET \<Rightarrow> upd_sl t (\<lambda>x. x\<lparr>sl_budget := ucast (sl_usec2cyc s value)\<rparr>) s
       | _ \<Rightarrow> s);
     sl_mod_thd_param_set P t type value s
   }"

text \<open>\<^verbatim>\<open>sl_thd_free_no_cs\<close>; a thread that frees itself does not return from it but schedules for ever.\<close>

definition sl_thd_free_no_cs :: "'p sl_policy \<Rightarrow> addr \<Rightarrow> 'p sl_st \<Rightarrow> 'p sl_st option" where
  "sl_thd_free_no_cs P t s = do {
     kassert (t \<noteq> 0);
     kassert (sl_state (s_thds s t) \<noteq> SL_THD_FREE);
     s \<leftarrow> timeout_remove_if t s;
     s \<leftarrow> sl_mod_thd_delete P t s;
     Some (upd_sl t (\<lambda>x. x\<lparr>sl_state := SL_THD_FREE\<rparr>) s)
   }"

text \<open>
  \<^verbatim>\<open>sl_cs_exit_schedule_nospin_arg\<close> up to the choice of the thread, which is the decision that the scheduler
  takes inside the critical section.
\<close>

definition sl_schedule_choose :: "'p sl_policy \<Rightarrow> u64 \<Rightarrow> addr \<Rightarrow> ('p sl_st, addr) kop" where
  "sl_schedule_choose P now to s = do {
     let offset = sint (g_timer_next s - now);
     s \<leftarrow> (if g_timer_next s \<noteq> 0 \<and> offset \<le> 0 then sl_timeout_expended now (g_timer_next s) s else Some s);
     s \<leftarrow> sl_timeout_wakeup_expired P now s;
     if to \<noteq> 0 \<and> sl_thd_is_runnable (s_thds s to) then Some (to, s)
     else do {
       pt \<leftarrow> sl_mod_schedule P s;
       Some (if pt = 0 then g_idle_thd s else pt, s)
     }
   }"

text \<open>
  The budget of a chosen thread that is replenished by the scheduler, at most once in each of its periods;
  \<open>introspect\<close> and \<open>tcap_transfer\<close> are the system calls that read and fill its capability for time.
\<close>

definition SL_CYCS_DIFF :: u64 where "SL_CYCS_DIFF = push_bit 14 1"

definition sl_replenish :: "(capid \<Rightarrow> u64) \<Rightarrow> (capid \<Rightarrow> capid \<Rightarrow> u32 \<Rightarrow> u64 \<Rightarrow> int) \<Rightarrow> u64 \<Rightarrow> addr \<Rightarrow> 'p sl_st \<Rightarrow> 'p sl_st option" where
  "sl_replenish introspect tcap_transfer now t s = (let x = s_thds s t in
     if sl_own_tcap x \<and> sl_budget x \<noteq> 0
     then do {
       kassert (sl_period x \<noteq> 0);
       aep \<leftarrow> sl_aepinfo x;
       kassert (aep_tc aep \<noteq> g_sched_tcap s);
       if sl_last_replenish x = 0 \<or> sl_last_replenish x + sl_period x \<le> now
       then do {
         let replenish = now - (now - sl_last_replenish x) mod sl_period x;
         let currbudget = (ucast (introspect (aep_tc aep)) :: u32);
         let ret = (if \<not> cycles_same (ucast currbudget) (ucast (sl_budget x)) SL_CYCS_DIFF \<and> currbudget < sl_budget x
                    then tcap_transfer (aep_rcv aep) (g_sched_tcap s) (sl_budget x - currbudget) (sl_prio x) else 0);
         Some (if ret = 0 then upd_sl t (\<lambda>x. x\<lparr>sl_last_replenish := replenish\<rparr>) s else s)
       }
       else Some s
     }
     else Some s)"

definition sl_thd_yield_cs :: "'p sl_policy \<Rightarrow> addr \<Rightarrow> 'p sl_st \<Rightarrow> 'p sl_st option" where
  "sl_thd_yield_cs P to s = do {
     (_, s) \<leftarrow> sl_thd_sched_unblock_no_cs P (s_curr s) s;
     if to \<noteq> 0 then Some s else sl_mod_yield P (s_curr s) 0 s
   }"

text \<open>What the two blocking calls with a time-out report after the thread has been woken up.\<close>

definition sl_thd_block_timeout_jitter :: "sl_thd \<Rightarrow> u64" where
  "sl_thd_block_timeout_jitter x =
     (if sl_wakeup_cycs x > sl_timeout_cycs x then sl_wakeup_cycs x - sl_timeout_cycs x else 0)"

definition sl_thd_block_periodic_jitter :: "sl_thd \<Rightarrow> u32" where
  "sl_thd_block_periodic_jitter x =
     (if sl_wakeup_cycs x > sl_periodic_cycs x
      then ucast ((sl_wakeup_cycs x - sl_periodic_cycs x) div sl_period x) + 1 else 0)"

text \<open>One event of the scheduler loop, taken from the list of pending events.\<close>

definition sl_sched_event :: "'p sl_policy \<Rightarrow> u64 \<Rightarrow> addr \<Rightarrow> 'p sl_st \<Rightarrow> 'p sl_st option" where
  "sl_sched_event P now t s = (let e = sl_event_info (s_thds s t); s = upd_sl t sl_thd_event_info_reset s in
     if sl_state (s_thds s t) = SL_THD_FREE then Some s
     else if ev_blocked e
     then if ev_cycles e \<noteq> 0
          then do {
            (_, s) \<leftarrow> (if ev_timeout e \<noteq> 0
              then sl_thd_sched_block_no_cs P t SL_THD_BLOCKED_TIMEOUT (tcap_time2cyc (ev_timeout e) now) s
              else sl_thd_sched_block_no_cs P t SL_THD_BLOCKED 0 s);
            Some s
          }
          else Some s
     else do { (_, s) \<leftarrow> sl_thd_sched_wakeup_no_cs P t s; Some s })"

text \<open>A notification from the parent scheduler, handled in the loop of the scheduler thread.\<close>

datatype sl_child_notification = SL_CHILD_THD_BLOCK addr | SL_CHILD_THD_WAKEUP addr

fun sl_child_notif :: "'p sl_policy \<Rightarrow> sl_child_notification \<Rightarrow> ('p sl_st, int) kop" where
  "sl_child_notif P (SL_CHILD_THD_BLOCK t) s = sl_thd_block_no_cs P t SL_THD_BLOCKED 0 s"
| "sl_child_notif P (SL_CHILD_THD_WAKEUP t) s = sl_thd_wakeup_no_cs P t s"

text \<open>Requests from other cores (\<^verbatim>\<open>sl_xcpu_process_no_cs\<close>) that change an existing thread.\<close>

datatype sl_xcpu_request = SL_XCPU_THD_SET_PARAM addr u64 | SL_XCPU_THD_WAKEUP addr | SL_XCPU_THD_WAKEUP_WITH_DL addr u64

fun sl_xcpu_process :: "'p sl_policy \<Rightarrow> u64 \<Rightarrow> sl_xcpu_request \<Rightarrow> 'p sl_st \<Rightarrow> 'p sl_st option" where
  "sl_xcpu_process P now (SL_XCPU_THD_SET_PARAM t sp) s = do {
     kassert (t \<noteq> 0);
     sl_thd_param_set P now t sp s
   }"
| "sl_xcpu_process P now (SL_XCPU_THD_WAKEUP t) s = do {
     kassert (t \<noteq> 0);
     (_, s) \<leftarrow> sl_thd_wakeup_no_cs_rm P t s;
     Some s
   }"
| "sl_xcpu_process P now (SL_XCPU_THD_WAKEUP_WITH_DL t sp) s = do {
     kassert (t \<noteq> 0);
     s \<leftarrow> sl_thd_param_set P now t sp s;
     (_, s) \<leftarrow> sl_thd_wakeup_no_cs_rm P t s;
     Some s
   }"

section \<open>The heap of time-outs\<close>

abbreviation timeout_idx :: "sl_mem \<Rightarrow> addr \<Rightarrow> int" where
  "timeout_idx m t \<equiv> sl_timeout_idx (m t)"

definition but_timeout_idx :: "sl_mem \<Rightarrow> addr \<Rightarrow> sl_thd" where
  "but_timeout_idx m t = (m t)\<lparr>sl_timeout_idx := 0\<rparr>"

interpretation th: heap_entries sl_timeout_compare_min sl_timeout_update_idx timeout_idx but_timeout_idx
  by unfold_locales (auto simp: sl_timeout_compare_min_def sl_timeout_update_idx_def but_timeout_idx_def fun_eq_iff)

text \<open>The time-outs of the threads \<open>T\<close>, of which \<open>B\<close> wait for one.\<close>

definition to_inv :: "addr set \<Rightarrow> addr set \<Rightarrow> 'p sl_st \<Rightarrow> bool" where
  "to_inv T B s \<longleftrightarrow> finite T \<and> 0 \<notin> T \<and> B \<subseteq> T \<and> heap_ok sl_timeout_compare_min timeout_idx (s_timeouts s) (s_thds s) \<and>
     heap_elems (s_timeouts s) = B \<and> int (card T) < hp_max_sz (s_timeouts s) \<and> card T < length (hp_data (s_timeouts s)) \<and>
     int (card T) \<le> SL_MAX_NUM_THDS \<and> (\<forall>t\<in>T - B. timeout_idx (s_thds s) t = - 1) \<and> (\<forall>t\<in>B. sl_wakeup_cycs (s_thds s t) = 0)"

definition to_view :: "sl_thd \<Rightarrow> u64 \<times> int \<times> u64" where
  "to_view x = (sl_timeout_cycs x, sl_timeout_idx x, sl_wakeup_cycs x)"

lemma to_inv_cong:
  assumes "s_timeouts s' = s_timeouts s" "\<And>x. to_view (s_thds s' x) = to_view (s_thds s x)"
  shows "to_inv T B s' = to_inv T B s"
proof -
  have v: "sl_timeout_cycs (s_thds s' x) = sl_timeout_cycs (s_thds s x)" "timeout_idx (s_thds s') x = timeout_idx (s_thds s) x"
    "sl_wakeup_cycs (s_thds s' x) = sl_wakeup_cycs (s_thds s x)" for x using assms(2) [of x] by (simp_all add: to_view_def)
  have "sl_timeout_compare_min (s_thds s') = sl_timeout_compare_min (s_thds s)" by (simp add: fun_eq_iff sl_timeout_compare_min_def v)
  then have "heap_ok sl_timeout_compare_min timeout_idx (s_timeouts s) (s_thds s') =
    heap_ok sl_timeout_compare_min timeout_idx (s_timeouts s) (s_thds s)"
    using heap_ok_cong [of sl_timeout_compare_min timeout_idx "s_timeouts s" "s_thds s" "s_thds s'"]
      heap_ok_cong [of sl_timeout_compare_min timeout_idx "s_timeouts s" "s_thds s'" "s_thds s"] v(2) by auto
  then show ?thesis by (simp add: to_inv_def assms(1) v)
qed

text \<open>
  What an operation on the thread \<open>t\<close> keeps: of other threads everything but their positions and what belongs
  to the policy, and of \<open>t\<close> what is not changed by blocking and waking up.
\<close>

definition sl_view :: "sl_thd \<Rightarrow> sl_thd" where
  "sl_view x = lib_view (x\<lparr>sl_timeout_idx := 0\<rparr>)"

definition sl_fixed :: "sl_thd \<Rightarrow> sl_thd" where
  "sl_fixed x = sl_view (x\<lparr>sl_state := SL_THD_FREE, sl_rcv_suspended := False, sl_wakeup_cnt := 0, sl_timeout_cycs := 0,
     sl_periodic_cycs := 0, sl_wakeup_cycs := 0\<rparr>)"

definition g_same :: "'p sl_st \<Rightarrow> 'p sl_st \<Rightarrow> bool" where
  "g_same s s' \<longleftrightarrow> s_curr s' = s_curr s \<and> g_sched_thd s' = g_sched_thd s \<and> g_sched_tcap s' = g_sched_tcap s \<and>
     g_idle_thd s' = g_idle_thd s \<and> g_timer_next s' = g_timer_next s \<and> g_timeout_next s' = g_timeout_next s \<and>
     g_period s' = g_period s \<and> g_cyc_per_usec s' = g_cyc_per_usec s"

definition sl_frame :: "addr set \<Rightarrow> 'p sl_st \<Rightarrow> 'p sl_st \<Rightarrow> bool" where
  "sl_frame X s s' \<longleftrightarrow> g_same s s' \<and> (\<forall>x. x \<notin> X \<longrightarrow> sl_view (s_thds s' x) = sl_view (s_thds s x)) \<and>
     (\<forall>x. sl_fixed (s_thds s' x) = sl_fixed (s_thds s x))"

lemma sl_view_eqD:
  assumes "sl_view x = sl_view y"
  shows "sl_state x = sl_state y" "sl_rcv_suspended x = sl_rcv_suspended y" "sl_wakeup_cnt x = sl_wakeup_cnt y"
    "sl_timeout_cycs x = sl_timeout_cycs y" "sl_wakeup_cycs x = sl_wakeup_cycs y" "sl_periodic_cycs x = sl_periodic_cycs y"
    "sl_fixed x = sl_fixed y"
  using assms by (cases x; cases y; simp add: sl_fixed_def sl_view_def lib_view_def)+

lemma sl_fixed_eqD:
  assumes "sl_fixed x = sl_fixed y"
  shows "sl_schedthd x = sl_schedthd y" "sl_send x = sl_send y" "sl_aepinfo x = sl_aepinfo y" "sl_own_tcap x = sl_own_tcap y"
    "sl_period x = sl_period y"
  using assms by (cases x; cases y; simp add: sl_fixed_def sl_view_def lib_view_def)+

lemma sl_frame_refl [simp]: "sl_frame X s s"
  by (simp add: sl_frame_def g_same_def)

lemma sl_frame_trans [trans]: "sl_frame X s s' \<Longrightarrow> sl_frame X s' s'' \<Longrightarrow> sl_frame X s s''"
  by (simp add: sl_frame_def g_same_def)

lemma sl_frame_mono: "sl_frame X s s' \<Longrightarrow> X \<subseteq> Y \<Longrightarrow> sl_frame Y s s'"
  by (auto simp: sl_frame_def)

lemma sl_frame_upd: "(\<And>x. sl_fixed (f x) = sl_fixed x) \<Longrightarrow> sl_frame {t} s (upd_sl t f s)"
  by (simp add: sl_frame_def g_same_def)

lemma lib_same_frame:
  assumes "lib_same X s s'"
  shows "sl_frame X s s'" "to_view (s_thds s' x) = to_view (s_thds s x)" "s_timeouts s' = s_timeouts s"
    "sl_rcv_suspended (s_thds s' x) = sl_rcv_suspended (s_thds s x)" "sl_wakeup_cnt (s_thds s' x) = sl_wakeup_cnt (s_thds s x)"
    "x \<notin> X \<Longrightarrow> sl_state (s_thds s' x) = sl_state (s_thds s x)"
    "sl_periodic_cycs (s_thds s' x) = sl_periodic_cycs (s_thds s x)"
proof -
  have e: "lib_view ((s_thds s' x)\<lparr>sl_state := SL_THD_FREE\<rparr>) = lib_view ((s_thds s x)\<lparr>sl_state := SL_THD_FREE\<rparr>)" for x
    using assms by (simp add: lib_same_def)
  have "sl_fixed (s_thds s' x) = sl_fixed (s_thds s x)" for x
    using e [of x] by (cases "s_thds s' x"; cases "s_thds s x"; simp add: sl_fixed_def sl_view_def lib_view_def)
  moreover have "sl_view (s_thds s' x) = sl_view (s_thds s x)" if "x \<notin> X" for x
  proof -
    have "sl_state (s_thds s' x) = sl_state (s_thds s x)" using assms that by (simp add: lib_same_def)
    then show ?thesis using e [of x] by (cases "s_thds s' x"; cases "s_thds s x"; simp add: sl_view_def lib_view_def)
  qed
  ultimately show "sl_frame X s s'" using assms by (auto simp: sl_frame_def g_same_def lib_same_def)
  show "to_view (s_thds s' x) = to_view (s_thds s x)" "sl_rcv_suspended (s_thds s' x) = sl_rcv_suspended (s_thds s x)"
    "sl_wakeup_cnt (s_thds s' x) = sl_wakeup_cnt (s_thds s x)" "sl_periodic_cycs (s_thds s' x) = sl_periodic_cycs (s_thds s x)"
    using e [of x] by (cases "s_thds s' x"; cases "s_thds s x"; simp add: to_view_def lib_view_def)+
  show "s_timeouts s' = s_timeouts s" "x \<notin> X \<Longrightarrow> sl_state (s_thds s' x) = sl_state (s_thds s x)"
    using assms by (auto simp: lib_same_def)
qed

lemma th_frame:
  assumes "heap_frame sl_timeout_compare_min timeout_idx but_timeout_idx X (h, m) (h', m')"
  shows "sl_view (m' x) = sl_view (m x)" "pol_view (m' x) = pol_view (m x)" "x \<notin> X \<Longrightarrow> m' x = m x"
proof -
  have b: "(m' x)\<lparr>sl_timeout_idx := 0\<rparr> = (m x)\<lparr>sl_timeout_idx := 0\<rparr>" "x \<notin> X \<Longrightarrow> timeout_idx m' x = timeout_idx m x"
    using assms by (auto simp: heap_frame_def but_timeout_idx_def fun_eq_iff)
  then show "sl_view (m' x) = sl_view (m x)" by (simp add: sl_view_def)
  show "pol_view (m' x) = pol_view (m x)" "x \<notin> X \<Longrightarrow> m' x = m x"
    using b by (cases "m' x"; cases "m x"; simp add: pol_view_def)+
qed

text \<open>What the operations on time-outs keep: everything of the policy, and who is blocked.\<close>

definition th_same :: "addr \<Rightarrow> 'p sl_st \<Rightarrow> 'p sl_st \<Rightarrow> bool" where
  "th_same t s s' \<longleftrightarrow> sl_frame {t} s s' \<and> s_pol s' = s_pol s \<and> (\<forall>x. pol_view (s_thds s' x) = pol_view (s_thds s x)) \<and>
     sl_state (s_thds s' t) = sl_state (s_thds s t) \<and> sl_rcv_suspended (s_thds s' t) = sl_rcv_suspended (s_thds s t) \<and>
     sl_wakeup_cnt (s_thds s' t) = sl_wakeup_cnt (s_thds s t)"

definition tmo_ok :: "u64 \<Rightarrow> sl_thd \<Rightarrow> bool" where
  "tmo_ok tmo x \<longleftrightarrow> (tmo = 0 \<longrightarrow> sl_period x \<noteq> 0 \<and> sl_periodic_cycs x < sl_periodic_cycs x + sl_period x)"

lemma sl_timeout_block_ok:
  assumes inv: "to_inv T B s" and t: "t \<in> T" "t \<notin> B" and tmo: "tmo_ok tmo (s_thds s t)"
  shows "\<exists>s'. sl_timeout_block t tmo s = Some s' \<and> to_inv T (insert t B) s' \<and> th_same t s s' \<and>
    sl_timeout_cycs (s_thds s' t) = (if tmo = 0 then sl_periodic_cycs (s_thds s t) + sl_period (s_thds s t) else tmo)"
proof -
  define f where "f x = (if tmo = 0 then x\<lparr>sl_periodic_cycs := sl_periodic_cycs x + sl_period x,
      sl_timeout_cycs := sl_periodic_cycs x + sl_period x, sl_wakeup_cycs := 0\<rparr>
    else x\<lparr>sl_timeout_cycs := tmo, sl_wakeup_cycs := 0\<rparr>)" for x :: sl_thd
  let ?m = "(s_thds s)(t := f (s_thds s t))"
  have fin: "finite T" "B \<subseteq> T" "heap_elems (s_timeouts s) = B" using inv by (auto simp: to_inv_def)
  have ok: "heap_ok sl_timeout_compare_min timeout_idx (s_timeouts s) ?m"
    by (rule heap_ok_local [of _ _ _ "s_thds s"]) (use inv t(2) in \<open>auto simp: to_inv_def sl_timeout_compare_min_def f_def\<close>)
  have "card B < card T" using fin t by (intro psubset_card_mono) auto
  then have room: "hp_e (s_timeouts s) < hp_max_sz (s_timeouts s)" "hp_e (s_timeouts s) < int (length (hp_data (s_timeouts s)))"
    "heap_size (s_timeouts s) < SL_MAX_NUM_THDS" using card_heap_elems [OF ok] inv by (auto simp: to_inv_def heap_size_def)
  obtain h' m' where add: "heap_add sl_timeout_compare_min sl_timeout_update_idx t (s_timeouts s, ?m) = Some (0, h', m')"
    "heap_ok sl_timeout_compare_min timeout_idx h' m'" "heap_elems h' = insert t B"
    "heap_frame sl_timeout_compare_min timeout_idx but_timeout_idx (insert t B) (s_timeouts s, ?m) (h', m')"
    using th.heap_add_ok [OF ok room(1,2)] t(2) fin(3) by blast
  note fr = th_frame [OF add(4)]
  let ?s = "s\<lparr>s_timeouts := h', s_thds := m'\<rparr>"
  have "t \<noteq> 0" "timeout_idx (s_thds s) t = - 1" using inv t by (auto simp: to_inv_def)
  then have "sl_timeout_block t tmo s = Some ?s"
    using add(1) room(3) tmo by (cases "tmo = 0") (simp_all add: sl_timeout_block_def upd_sl_def f_def tmo_ok_def)
  moreover have v: "sl_view (m' x) = sl_view (if x = t then f (s_thds s t) else s_thds s x)" for x using fr(1) [of x] by simp
  have "to_inv T (insert t B) ?s" using inv add(2-4) t fr(3) sl_view_eqD(5) [OF v]
    by (auto simp: to_inv_def heap_frame_def f_def)
  moreover have "sl_frame {t} s ?s" using v sl_view_eqD(7) [OF v]
    by (auto simp: sl_frame_def g_same_def f_def sl_fixed_def sl_view_def lib_view_def)
  then have "th_same t s ?s" using fr(2) sl_view_eqD(1-3) [OF v]
    by (auto simp: th_same_def f_def pol_view_def)
  moreover have "sl_timeout_cycs (m' t) = (if tmo = 0 then sl_periodic_cycs (s_thds s t) + sl_period (s_thds s t) else tmo)"
    using sl_view_eqD(4) [OF v [of t]] by (simp add: f_def)
  ultimately show ?thesis by auto
qed

lemma th_popped:
  assumes inv: "to_inv T B s" and rm: "heap_ok sl_timeout_compare_min timeout_idx h' m'" "heap_elems h' = B - {t}"
    "heap_frame sl_timeout_compare_min timeout_idx but_timeout_idx B (s_timeouts s, s_thds s) (h', m')"
  defines "s' \<equiv> upd_sl t (\<lambda>x. x\<lparr>sl_timeout_idx := - 1\<rparr>) (s\<lparr>s_timeouts := h', s_thds := m'\<rparr>)"
  shows "to_inv T (B - {t}) s'" "th_same t s s'" "sl_view (s_thds s' t) = sl_view (s_thds s t)"
proof -
  note fr = th_frame [OF rm(3)]
  have "heap_ok sl_timeout_compare_min timeout_idx h' (s_thds s')"
    unfolding s'_def by (rule heap_ok_cong [OF rm(1)]) (auto simp: sl_timeout_compare_min_def fun_eq_iff rm(2))
  then show "to_inv T (B - {t}) s'" using inv rm(2,3) fr(3) sl_view_eqD(5) [OF fr(1)] by (auto simp: to_inv_def heap_frame_def s'_def)
  have v: "sl_view (s_thds s' x) = sl_view (s_thds s x)" for x using fr(1) by (auto simp: sl_view_def s'_def)
  have "sl_frame {t} s s'" using fr(1) sl_view_eqD(7) [OF v] by (simp add: sl_frame_def g_same_def s'_def)
  then show "th_same t s s'" using fr(2) sl_view_eqD(1-3) [OF v [of t]] by (simp add: th_same_def pol_view_def s'_def)
  show "sl_view (s_thds s' t) = sl_view (s_thds s t)" by (rule v)
qed

lemma sl_timeout_remove_ok:
  assumes inv: "to_inv T B s" and t: "t \<in> B"
  shows "\<exists>s'. sl_timeout_remove t s = Some s' \<and> to_inv T (B - {t}) s' \<and> th_same t s s' \<and>
    sl_view (s_thds s' t) = sl_view (s_thds s t)"
proof -
  have ok: "heap_ok sl_timeout_compare_min timeout_idx (s_timeouts s) (s_thds s)" "heap_elems (s_timeouts s) = B" "t \<noteq> 0"
    using inv t by (auto simp: to_inv_def)
  obtain c where c: "timeout_idx (s_thds s) t = int c" "hp_data (s_timeouts s) ! c = t" "1 \<le> c" "int c < hp_e (s_timeouts s)"
    using edf_position [OF ok(1)] ok(2) t by metis
  obtain h' m' where rm: "heap_remove sl_timeout_compare_min sl_timeout_update_idx (int c) (s_timeouts s, s_thds s) = Some (t, h', m')"
    "heap_ok sl_timeout_compare_min timeout_idx h' m'" "heap_elems h' = B - {t}"
    "heap_frame sl_timeout_compare_min timeout_idx but_timeout_idx B (s_timeouts s, s_thds s) (h', m')"
    using th.heap_remove_ok [OF ok(1) c(3,4)] c(2) ok(2) by auto
  have "heap_size (s_timeouts s) \<noteq> 0" using c(3,4) by (simp add: heap_size_def)
  then show ?thesis using c(1,3) rm(1) ok(3) th_popped [OF inv rm(2-4)] by (simp add: sl_timeout_remove_def)
qed

text \<open>The time-out that \<^verbatim>\<open>heap_highest\<close> returns is the first.\<close>

lemma sl_timeout_first_ok:
  assumes inv: "to_inv T B s" and ne: "B \<noteq> {}"
  obtains t h' m' where "heap_peek (s_timeouts s) = Some t" "t \<in> B" "t \<noteq> 0"
    "\<And>x. x \<in> B \<Longrightarrow> sl_timeout_cycs (s_thds s t) \<le> sl_timeout_cycs (s_thds s x)"
    "heap_highest sl_timeout_compare_min sl_timeout_update_idx (s_timeouts s, s_thds s) = Some (t, h', m')"
    "heap_ok sl_timeout_compare_min timeout_idx h' m'" "heap_elems h' = B - {t}"
    "heap_frame sl_timeout_compare_min timeout_idx but_timeout_idx B (s_timeouts s, s_thds s) (h', m')"
proof -
  have ok: "heap_ok sl_timeout_compare_min timeout_idx (s_timeouts s) (s_thds s)" "heap_elems (s_timeouts s) = B" "0 \<notin> B"
    using inv by (auto simp: to_inv_def)
  then have ne1: "hp_e (s_timeouts s) \<noteq> 1" using th.heap_peek_ok(1) [OF ok(1)] ne by simp
  obtain t where t: "heap_peek (s_timeouts s) = Some t" "t = hp_data (s_timeouts s) ! 1" "t \<in> B"
    "\<forall>x\<in>B. sl_timeout_compare_min (s_thds s) t x" using th.heap_peek_ok(3) [OF ok(1) ne1] ok(2) by auto
  obtain h' m' where "heap_highest sl_timeout_compare_min sl_timeout_update_idx (s_timeouts s, s_thds s) = Some (t, h', m')"
    "heap_ok sl_timeout_compare_min timeout_idx h' m'" "heap_elems h' = B - {t}"
    "heap_frame sl_timeout_compare_min timeout_idx but_timeout_idx B (s_timeouts s, s_thds s) (h', m')"
    using th.heap_highest_ok [OF ok(1) ne1] unfolding ok(2) t(2) [symmetric] by blast
  then show ?thesis using t ok(3) by (intro that [of t h' m']) (auto simp: sl_timeout_compare_min_def)
qed

end
