(* ===== verification/Sl_Inv.thy ===== *)
theory Sl_Inv
  imports Sl_Sched
begin

text \<open>
  The invariant of the user-level scheduling library: the policy holds exactly the runnable threads, the heap
  of time-outs exactly the threads that are blocked with one, and no thread is marked as suspended in the
  kernel unless it is blocked.  The operations of \<^verbatim>\<open>sl_sched.c\<close> are shown to keep it over any policy that
  meets the interface \<open>sched_policy\<close>, and the results are used for the earliest-deadline-first policy.
\<close>

section \<open>The invariant\<close>

definition sl_core :: "('p sl_st \<Rightarrow> bool) \<Rightarrow> ('p sl_st \<Rightarrow> addr set) \<Rightarrow> addr set \<Rightarrow> addr set \<Rightarrow> addr set \<Rightarrow> 'p sl_st \<Rightarrow> bool" where
  "sl_core pinv ready T B R s \<longleftrightarrow> to_inv T B s \<and> pinv s \<and> ready s = R"

definition timed :: "addr set \<Rightarrow> 'p sl_st \<Rightarrow> addr set" where
  "timed T s = {t\<in>T. sl_state (s_thds s t) = SL_THD_BLOCKED_TIMEOUT}"

definition runnable :: "addr set \<Rightarrow> 'p sl_st \<Rightarrow> addr set" where
  "runnable T s = {t\<in>T. sl_thd_is_runnable (s_thds s t)}"

definition sl_thd_ok :: "sl_thd \<Rightarrow> bool" where
  "sl_thd_ok x \<longleftrightarrow> (is_blocked (sl_state x) \<or> sl_thd_is_runnable x) \<and> (sl_rcv_suspended x \<longrightarrow> is_blocked (sl_state x))"

definition sl_inv :: "('p sl_st \<Rightarrow> bool) \<Rightarrow> ('p sl_st \<Rightarrow> addr set) \<Rightarrow> addr set \<Rightarrow> 'p sl_st \<Rightarrow> bool" where
  "sl_inv pinv ready T s \<longleftrightarrow> sl_core pinv ready T (timed T s) (runnable T s) s \<and> (\<forall>t\<in>T. sl_thd_ok (s_thds s t))"

definition sl_keeps :: "(addr \<Rightarrow> 'p sl_st \<Rightarrow> bool) \<Rightarrow> addr set \<Rightarrow> 'p sl_st \<Rightarrow> 'p sl_st \<Rightarrow> bool" where
  "sl_keeps wakeable X s s' \<longleftrightarrow> sl_frame X s s' \<and> (\<forall>x. wakeable x s \<longrightarrow> wakeable x s')"

lemma sl_keeps_refl [simp]: "sl_keeps w X s s"
  by (simp add: sl_keeps_def)

lemma sl_keeps_trans [trans]: "sl_keeps w X s s' \<Longrightarrow> sl_keeps w X s' s'' \<Longrightarrow> sl_keeps w X s s''"
  by (auto simp: sl_keeps_def intro: sl_frame_trans)

lemma sl_keeps_mono: "sl_keeps w X s s' \<Longrightarrow> X \<subseteq> Y \<Longrightarrow> sl_keeps w Y s s'"
  by (auto simp: sl_keeps_def intro: sl_frame_mono)

lemma sl_keeps_other:
  "sl_keeps w X s s' \<Longrightarrow> x \<notin> X \<Longrightarrow> sl_view (s_thds s' x) = sl_view (s_thds s x)"
  by (simp add: sl_keeps_def sl_frame_def)

lemma sl_keeps_fixed: "sl_keeps w X s s' \<Longrightarrow> sl_fixed (s_thds s' x) = sl_fixed (s_thds s x)"
  by (simp add: sl_keeps_def sl_frame_def)

text \<open>An operation on \<open>t\<close> that puts it into the sets that its new state asks for restores the invariant.\<close>

lemma sl_inv_close:
  assumes inv: "sl_inv pinv ready T s" and k: "sl_keeps w {t} s s'" and core: "sl_core pinv ready T B R s'" and t: "t \<in> T"
    and ok: "sl_thd_ok (s_thds s' t)"
    and B: "B = (if sl_state (s_thds s' t) = SL_THD_BLOCKED_TIMEOUT then insert t (timed T s) else timed T s - {t})"
    and R: "R = (if sl_thd_is_runnable (s_thds s' t) then insert t (runnable T s) else runnable T s - {t})"
  shows "sl_inv pinv ready T s'"
proof -
  have v: "sl_state (s_thds s' x) = sl_state (s_thds s x)" "sl_rcv_suspended (s_thds s' x) = sl_rcv_suspended (s_thds s x)"
    if "x \<noteq> t" for x using sl_view_eqD(1,2) [OF sl_keeps_other [OF k]] that by auto
  have "x \<in> timed T s' \<longleftrightarrow> x \<in> B" "x \<in> runnable T s' \<longleftrightarrow> x \<in> R" for x
    using B R t v [of x] by (cases "x = t"; auto simp: timed_def runnable_def sl_thd_is_runnable_def)+
  then have "timed T s' = B" "runnable T s' = R" by blast+
  moreover have "sl_thd_ok (s_thds s' x)" if "x \<in> T" for x
    using inv that ok v by (cases "x = t") (auto simp: sl_inv_def sl_thd_ok_def sl_thd_is_runnable_def)
  ultimately show ?thesis using core by (simp add: sl_inv_def)
qed

lemma sl_inv_core:
  assumes "sl_inv pinv ready T s"
  shows "sl_core pinv ready T (timed T s) (runnable T s) s"
  using assms by (simp add: sl_inv_def)

lemma sl_inv_thd: "sl_inv pinv ready T s \<Longrightarrow> t \<in> T \<Longrightarrow> sl_thd_ok (s_thds s t) \<and> t \<noteq> 0"
  by (auto simp: sl_inv_def sl_core_def to_inv_def)

lemma tmo_ok_cong:
  "sl_fixed x = sl_fixed y \<Longrightarrow> sl_periodic_cycs x = sl_periodic_cycs y \<Longrightarrow> tmo_ok tmo x = tmo_ok tmo y"
  using sl_fixed_eqD(5) [of x y] by (simp add: tmo_ok_def)

definition expired :: "addr set \<Rightarrow> u64 \<Rightarrow> 'p sl_st \<Rightarrow> addr set" where
  "expired T now s = {t\<in>timed T s. sl_timeout_cycs (s_thds s t) \<le> now}"

lemma to_inv_wake:
  assumes "to_inv T B s" "t \<notin> B"
  shows "to_inv T B (upd_sl t (\<lambda>x. x\<lparr>sl_wakeup_cycs := v\<rparr>) s)"
proof -
  have "heap_ok sl_timeout_compare_min timeout_idx (s_timeouts s) (s_thds (upd_sl t (\<lambda>x. x\<lparr>sl_wakeup_cycs := v\<rparr>) s))"
    by (rule heap_ok_cong [of _ _ _ "s_thds s"]) (use assms in \<open>auto simp: to_inv_def sl_timeout_compare_min_def fun_eq_iff\<close>)
  then show ?thesis using assms by (auto simp: to_inv_def)
qed

lemma heap_size_0: "to_inv T B s \<Longrightarrow> heap_size (s_timeouts s) = 0 \<longleftrightarrow> B = {}"
  using th.heap_peek_ok(1) [of "s_timeouts s" "s_thds s"] by (auto simp: to_inv_def heap_size_def)

text \<open>The timer of the core has not wrapped around, and has a period to go on with.\<close>

definition timer_ok :: "u64 \<Rightarrow> 'p sl_st \<Rightarrow> bool" where
  "timer_ok now s \<longleftrightarrow> (g_timer_next s \<noteq> 0 \<and> sint (g_timer_next s - now) \<le> 0 \<longrightarrow> g_timer_next s \<le> now \<and> g_period s \<noteq> 0)"

text \<open>A thread of a child scheduler is reported to that scheduler, which takes notifications.\<close>

definition notif_ok :: "addr \<Rightarrow> 'p sl_st \<Rightarrow> bool" where
  "notif_ok t s \<longleftrightarrow> (sl_schedthd (s_thds s t) \<noteq> 0 \<longrightarrow>
     sl_aepinfo (s_thds s t) \<noteq> None \<and> sl_send (s_thds s (sl_schedthd (s_thds s t))))"

lemma sl_parent_notif_ok: "notif_ok t s \<Longrightarrow> sl_schedthd (s_thds s t) \<noteq> 0 \<Longrightarrow> sl_parent_notif (sl_schedthd (s_thds s t)) t s = Some s"
  by (auto simp: notif_ok_def sl_parent_notif_def sl_thd_thdid_def)

lemmas st_views = to_view_def pol_view_def sl_fixed_def sl_view_def lib_view_def

section \<open>The steps of the operations\<close>

context sched_policy
begin

lemma upd_core:
  assumes "\<And>x. to_view (f x) = to_view x" "\<And>x. pol_view (f x) = pol_view x" "\<And>x. sl_fixed (f x) = sl_fixed x"
  shows "sl_core pinv ready T B R (upd_sl t f s) = sl_core pinv ready T B R s" "sl_keeps wakeable {t} s (upd_sl t f s)"
    "wakeable x (upd_sl t f s) = wakeable x s"
proof -
  have p: "pinv (upd_sl t f s) = pinv s \<and> ready (upd_sl t f s) = ready s \<and> wakeable x (upd_sl t f s) = wakeable x s" for x
    by (rule pol_only) (simp_all add: assms(2))
  moreover have "to_inv T B (upd_sl t f s) = to_inv T B s" by (rule to_inv_cong) (simp_all add: assms(1))
  ultimately show "sl_core pinv ready T B R (upd_sl t f s) = sl_core pinv ready T B R s" "wakeable x (upd_sl t f s) = wakeable x s"
    by (simp_all add: sl_core_def)
  show "sl_keeps wakeable {t} s (upd_sl t f s)" using p sl_frame_upd [of f t s, OF assms(3)] by (simp add: sl_keeps_def)
qed

lemma mod_block_core:
  assumes "sl_core pinv ready T B R s" "t \<in> R"
  shows "\<exists>s'. sl_mod_block P t s = Some s' \<and> sl_core pinv ready T B (R - {t}) s' \<and> sl_keeps wakeable {t} s s' \<and>
    sl_rcv_suspended (s_thds s' t) = sl_rcv_suspended (s_thds s t) \<and> sl_wakeup_cnt (s_thds s' t) = sl_wakeup_cnt (s_thds s t) \<and>
    sl_periodic_cycs (s_thds s' t) = sl_periodic_cycs (s_thds s t)"
proof -
  obtain s' where s: "sl_mod_block P t s = Some s'" "pinv s'" "ready s' = R - {t}" "lib_same {t} s s'"
    "\<forall>x. wakeable x s \<longrightarrow> wakeable x s'" using block_ok [of s t] assms by (auto simp: sl_core_def)
  note l = lib_same_frame [OF s(4)]
  have "to_inv T B s' = to_inv T B s" by (rule to_inv_cong [OF l(3,2)])
  then show ?thesis using s assms l(1,4,5,7) by (intro exI [of _ s']) (simp add: sl_core_def sl_keeps_def)
qed

lemma mod_wakeup_core:
  assumes "sl_core pinv ready T B R s" "wakeable t s"
  shows "\<exists>s'. sl_mod_wakeup P t s = Some s' \<and> sl_core pinv ready T B (insert t R) s' \<and> sl_keeps wakeable {} s s' \<and>
    (\<forall>x. to_view (s_thds s' x) = to_view (s_thds s x))"
proof -
  obtain s' where s: "sl_mod_wakeup P t s = Some s'" "pinv s'" "ready s' = insert t R" "lib_same {} s s'"
    "\<forall>x. wakeable x s \<longrightarrow> wakeable x s'" using wakeup_ok [of s t] assms by (auto simp: sl_core_def)
  note l = lib_same_frame [OF s(4)]
  have "to_inv T B s' = to_inv T B s" by (rule to_inv_cong [OF l(3,2)])
  then show ?thesis using s assms l(1,2) by (intro exI [of _ s']) (simp add: sl_core_def sl_keeps_def)
qed

lemma th_same_core:
  assumes "th_same t s s'" "to_inv T B' s'" "sl_core pinv ready T B R s"
  shows "sl_core pinv ready T B' R s'" "sl_keeps wakeable {t} s s'"
proof -
  have "pinv s' = pinv s \<and> ready s' = ready s \<and> wakeable x s' = wakeable x s" for x
    using assms(1) by (intro pol_only) (auto simp: th_same_def)
  then show "sl_core pinv ready T B' R s'" "sl_keeps wakeable {t} s s'"
    using assms by (auto simp: sl_core_def sl_keeps_def th_same_def)
qed

text \<open>Leaving the heap of time-outs, and entering it, as the state of the thread asks for.\<close>

lemma timeout_remove_if_ok:
  assumes core: "sl_core pinv ready T B R s" and t: "sl_state (s_thds s t) = SL_THD_BLOCKED_TIMEOUT \<longleftrightarrow> t \<in> B"
  shows "\<exists>s'. timeout_remove_if t s = Some s' \<and> sl_core pinv ready T (B - {t}) R s' \<and> sl_keeps wakeable {t} s s' \<and>
    sl_view (s_thds s' t) = sl_view (s_thds s t)"
proof (cases "t \<in> B")
  case True
  then obtain s' where s: "sl_timeout_remove t s = Some s'" "to_inv T (B - {t}) s'" "th_same t s s'"
    "sl_view (s_thds s' t) = sl_view (s_thds s t)" using sl_timeout_remove_ok [of T B s t] core by (auto simp: sl_core_def)
  then show ?thesis using th_same_core [OF s(3,2) core] True t by (intro exI [of _ s']) (simp add: timeout_remove_if_def)
next
  case False
  then show ?thesis using core t by (simp add: timeout_remove_if_def)
qed

lemma timeout_block_if_ok:
  assumes core: "sl_core pinv ready T B R s" and t: "t \<in> T" "t \<notin> B"
    and tmo: "bt = SL_THD_BLOCKED_TIMEOUT \<Longrightarrow> tmo_ok tmo (s_thds s t)"
  shows "\<exists>s'. timeout_block_if t bt tmo s = Some s' \<and> sl_keeps wakeable {t} s s' \<and>
    sl_core pinv ready T (if bt = SL_THD_BLOCKED_TIMEOUT then insert t B else B) R s' \<and>
    sl_state (s_thds s' t) = sl_state (s_thds s t) \<and> sl_rcv_suspended (s_thds s' t) = sl_rcv_suspended (s_thds s t)"
proof (cases "bt = SL_THD_BLOCKED_TIMEOUT")
  case True
  obtain s' where s: "sl_timeout_block t tmo s = Some s'" "to_inv T (insert t B) s'" "th_same t s s'"
    using sl_timeout_block_ok [of T B s t, OF _ t tmo [OF True]] core by (auto simp: sl_core_def)
  show ?thesis using th_same_core [OF s(3,2) core] s(1,3) True
    by (intro exI [of _ s']) (simp add: timeout_block_if_def th_same_def)
qed (use core in \<open>simp add: timeout_block_if_def\<close>)

lemma wakeup_no_cs_rm_ok:
  assumes core: "sl_core pinv ready T B R s" and t: "t \<noteq> 0" "wakeable t s" "0 \<le> sint (sl_wakeup_cnt (s_thds s t))"
  shows "\<exists>s'. sl_thd_wakeup_no_cs_rm P t s = Some (0, s') \<and> sl_core pinv ready T B (insert t R) s' \<and> sl_keeps wakeable {t} s s' \<and>
    sl_state (s_thds s' t) = SL_THD_RUNNABLE \<and> \<not> sl_rcv_suspended (s_thds s' t) \<and>
    to_view (s_thds s' t) = to_view (s_thds s t) \<and> sl_periodic_cycs (s_thds s' t) = sl_periodic_cycs (s_thds s t)"
proof -
  let ?s1 = "upd_sl t (\<lambda>x. x\<lparr>sl_state := SL_THD_RUNNABLE\<rparr>) s"
  have u1: "sl_core pinv ready T B R ?s1" "wakeable t ?s1" "sl_keeps wakeable {t} s ?s1"
    using core t(2) by (simp_all add: upd_core st_views)
  obtain s2 where s2: "sl_mod_wakeup P t ?s1 = Some s2" "sl_core pinv ready T B (insert t R) s2" "sl_keeps wakeable {} ?s1 s2"
    "\<And>x. to_view (s_thds s2 x) = to_view (s_thds ?s1 x)"
    using mod_wakeup_core [OF u1(1,2)] by blast
  note v = sl_view_eqD [OF sl_keeps_other [OF s2(3), of t]]
  let ?s4 = "upd_sl t (\<lambda>x. x\<lparr>sl_wakeup_cnt := sl_wakeup_cnt x + 1, sl_rcv_suspended := False\<rparr>) s2"
  have u4: "sl_core pinv ready T B (insert t R) ?s4" "sl_keeps wakeable {t} s2 ?s4"
    using s2(2) by (simp_all add: upd_core st_views)
  have "sl_thd_wakeup_no_cs_rm P t s = Some (0, ?s4)"
    using t(1,3) s2(1) v(3) by (simp add: sl_thd_wakeup_no_cs_rm_def upd_sl_def)
  moreover have "sl_keeps wakeable {t} s ?s4"
    using sl_keeps_trans [OF u1(3) sl_keeps_trans [OF sl_keeps_mono [OF s2(3)] u4(2)]] by simp
  ultimately show ?thesis using u4(1) v s2(4) [of t] by (intro exI [of _ ?s4]) (simp add: to_view_def)
qed

section \<open>The operations\<close>

lemma upd_inv:
  assumes f: "\<And>x. to_view (f x) = to_view x" "\<And>x. pol_view (f x) = pol_view x" "\<And>x. sl_fixed (f x) = sl_fixed x"
      "\<And>x. sl_state (f x) = sl_state x" "\<And>x. sl_rcv_suspended (f x) \<Longrightarrow> sl_rcv_suspended x"
    and inv: "sl_inv pinv ready T s" "t \<in> T"
  shows "sl_inv pinv ready T (upd_sl t f s)"
  by (rule sl_inv_close [OF inv(1) upd_core(2) upd_core(1) [THEN iffD2, OF _ _ _ sl_inv_core [OF inv(1)]] inv(2)])
    (use f sl_inv_thd [OF inv] inv(2) in \<open>auto simp: sl_thd_ok_def sl_thd_is_runnable_def timed_def runnable_def\<close>)

lemma clear_rcv_ok:
  assumes "sl_inv pinv ready T s" "t \<in> T"
  shows "sl_inv pinv ready T (upd_sl t (\<lambda>x. x\<lparr>sl_rcv_suspended := False\<rparr>) s)"
    "sl_keeps wakeable {t} s (upd_sl t (\<lambda>x. x\<lparr>sl_rcv_suspended := False\<rparr>) s)"
    "wakeable x (upd_sl t (\<lambda>x. x\<lparr>sl_rcv_suspended := False\<rparr>) s) = wakeable x s"
  by (rule upd_inv) (use assms in \<open>simp_all add: upd_core st_views\<close>)

text \<open>Taking a blocked thread out of the heap of time-outs, if it is there, and waking it up.\<close>

lemma leave_ok:
  assumes inv: "sl_inv pinv ready T s" and t: "t \<in> T" "is_blocked (sl_state (s_thds s t))" "wakeable t s"
    "0 \<le> sint (sl_wakeup_cnt (s_thds s t))"
  shows "\<exists>s1 s'. timeout_remove_if t s = Some s1 \<and> sl_thd_wakeup_no_cs_rm P t s1 = Some (0, s') \<and> sl_inv pinv ready T s' \<and>
    sl_keeps wakeable {t} s s' \<and> sl_state (s_thds s' t) = SL_THD_RUNNABLE \<and> \<not> sl_rcv_suspended (s_thds s' t) \<and>
    sl_periodic_cycs (s_thds s' t) = sl_periodic_cycs (s_thds s t)"
proof -
  note core = sl_inv_core [OF inv] and t0 = sl_inv_thd [OF inv t(1)]
  obtain s1 where s1: "timeout_remove_if t s = Some s1" "sl_core pinv ready T (timed T s - {t}) (runnable T s) s1"
    "sl_keeps wakeable {t} s s1" "sl_view (s_thds s1 t) = sl_view (s_thds s t)"
    using timeout_remove_if_ok [OF core, of t] t(1) by (auto simp: timed_def)
  note v = sl_view_eqD [OF s1(4)]
  have "wakeable t s1" using s1(3) t(3) by (simp add: sl_keeps_def)
  then obtain s' where s': "sl_thd_wakeup_no_cs_rm P t s1 = Some (0, s')"
    "sl_core pinv ready T (timed T s - {t}) (insert t (runnable T s)) s'" "sl_keeps wakeable {t} s1 s'"
    "sl_state (s_thds s' t) = SL_THD_RUNNABLE" "\<not> sl_rcv_suspended (s_thds s' t)"
    "sl_periodic_cycs (s_thds s' t) = sl_periodic_cycs (s_thds s1 t)"
    using wakeup_no_cs_rm_ok [OF s1(2), of t] t0 t(4) v(3) by auto
  have k: "sl_keeps wakeable {t} s s'" by (rule sl_keeps_trans [OF s1(3) s'(3)])
  have "sl_inv pinv ready T s'"
    by (rule sl_inv_close [OF inv k s'(2) t(1)]) (use s'(4,5) in \<open>auto simp: sl_thd_ok_def sl_thd_is_runnable_def\<close>)
  then show ?thesis using s1(1) s' k v(6) by (intro exI [of _ s1] exI [of _ s']) simp
qed

lemma sched_unblock_ok:
  assumes inv: "sl_inv pinv ready T s" and t: "t \<in> T"
    and w: "sl_rcv_suspended (s_thds s t) \<Longrightarrow> wakeable t s \<and> 0 \<le> sint (sl_wakeup_cnt (s_thds s t))"
  shows "\<exists>r s'. sl_thd_sched_unblock_no_cs P t s = Some (r, s') \<and> sl_inv pinv ready T s' \<and> sl_keeps wakeable {t} s s' \<and>
    \<not> sl_rcv_suspended (s_thds s' t) \<and> sl_periodic_cycs (s_thds s' t) = sl_periodic_cycs (s_thds s t) \<and>
    (if sl_rcv_suspended (s_thds s t) then r = 1 \<and> sl_state (s_thds s' t) = SL_THD_RUNNABLE else r = 0 \<and> s' = s)"
proof (cases "sl_rcv_suspended (s_thds s t)")
  case True
  let ?s = "upd_sl t (\<lambda>x. x\<lparr>sl_rcv_suspended := False\<rparr>) s"
  note c = clear_rcv_ok [OF inv t]
  have b: "is_blocked (sl_state (s_thds s t))" using sl_inv_thd [OF inv t] True by (auto simp: sl_thd_ok_def)
  obtain s1 s' where s': "timeout_remove_if t ?s = Some s1" "sl_thd_wakeup_no_cs_rm P t s1 = Some (0, s')" "sl_inv pinv ready T s'"
    "sl_keeps wakeable {t} ?s s'" "sl_state (s_thds s' t) = SL_THD_RUNNABLE" "\<not> sl_rcv_suspended (s_thds s' t)"
    "sl_periodic_cycs (s_thds s' t) = sl_periodic_cycs (s_thds ?s t)"
    using leave_ok [OF c(1) t] b w [OF True] c(3) by auto
  moreover have "sl_thd_sched_unblock_no_cs P t s = Some (1, s')"
    using True b s'(1,2) by (auto simp: sl_thd_sched_unblock_no_cs_def Let_def)
  ultimately show ?thesis using True sl_keeps_trans [OF c(2) s'(4)] by (intro exI [of _ 1] exI [of _ s']) simp
qed (use inv in \<open>simp add: sl_thd_sched_unblock_no_cs_def\<close>)

lemma enter_ok:
  assumes core: "sl_core pinv ready T (timed T s - {t}) (runnable T s - {t}) s1" and k: "sl_keeps wakeable {t} s s1" and t: "t \<in> T"
    and bt: "is_blocked bt" "bt = SL_THD_BLOCKED_TIMEOUT \<Longrightarrow> tmo_ok tmo (s_thds s1 t)"
  shows "\<exists>s'. timeout_block_if t bt tmo (upd_sl t (\<lambda>x. x\<lparr>sl_state := bt\<rparr>) s1) = Some s' \<and> sl_keeps wakeable {t} s s' \<and>
    sl_state (s_thds s' t) = bt \<and> sl_rcv_suspended (s_thds s' t) = sl_rcv_suspended (s_thds s1 t) \<and>
    sl_core pinv ready T (if bt = SL_THD_BLOCKED_TIMEOUT then insert t (timed T s) else timed T s - {t}) (runnable T s - {t}) s'"
proof -
  let ?s = "upd_sl t (\<lambda>x. x\<lparr>sl_state := bt\<rparr>) s1"
  have u: "sl_core pinv ready T (timed T s - {t}) (runnable T s - {t}) ?s" "sl_keeps wakeable {t} s1 ?s"
    using core by (simp_all add: upd_core st_views)
  obtain s' where s': "timeout_block_if t bt tmo ?s = Some s'" "sl_keeps wakeable {t} ?s s'"
    "sl_core pinv ready T (if bt = SL_THD_BLOCKED_TIMEOUT then insert t (timed T s - {t}) else timed T s - {t}) (runnable T s - {t}) s'"
    "sl_state (s_thds s' t) = bt" "sl_rcv_suspended (s_thds s' t) = sl_rcv_suspended (s_thds s1 t)"
    using timeout_block_if_ok [OF u(1) t, of bt tmo] bt(2) by (auto simp: tmo_ok_def)
  then show ?thesis using sl_keeps_trans [OF k sl_keeps_trans [OF u(2) s'(2)]] by (intro exI [of _ s']) (simp split: if_splits)
qed

text \<open>Both ways out of running: of a runnable thread, and of one that is already blocked.\<close>

lemma unready_ok:
  assumes inv: "sl_inv pinv ready T s" and t: "t \<in> T"
  shows "\<exists>s1. (if is_blocked (sl_state (s_thds s t)) then timeout_remove_if t s
      else do { kassert (sl_thd_is_runnable (s_thds s t)); sl_mod_block P t s }) = Some s1 \<and>
    sl_core pinv ready T (timed T s - {t}) (runnable T s - {t}) s1 \<and> sl_keeps wakeable {t} s s1 \<and>
    (\<forall>tmo. tmo_ok tmo (s_thds s t) \<longrightarrow> tmo_ok tmo (s_thds s1 t)) \<and> sl_rcv_suspended (s_thds s1 t) = sl_rcv_suspended (s_thds s t)"
proof (cases "is_blocked (sl_state (s_thds s t))")
  case True
  then have R: "runnable T s - {t} = runnable T s" by (auto simp: runnable_def sl_thd_is_runnable_def)
  obtain s1 where s1: "timeout_remove_if t s = Some s1" "sl_core pinv ready T (timed T s - {t}) (runnable T s) s1"
    "sl_keeps wakeable {t} s s1" "sl_view (s_thds s1 t) = sl_view (s_thds s t)"
    using timeout_remove_if_ok [OF sl_inv_core [OF inv], of t] t by (auto simp: timed_def)
  then show ?thesis using True R tmo_ok_cong [OF sl_view_eqD(7,6) [OF s1(4)]] sl_view_eqD(2) [OF s1(4)]
    by (intro exI [of _ s1]) simp
next
  case False
  then have r: "sl_thd_is_runnable (s_thds s t)" using sl_inv_thd [OF inv t] by (auto simp: sl_thd_ok_def)
  have B: "timed T s - {t} = timed T s" using False by (auto simp: timed_def)
  obtain s1 where s1: "sl_mod_block P t s = Some s1" "sl_core pinv ready T (timed T s) (runnable T s - {t}) s1"
    "sl_keeps wakeable {t} s s1" "sl_rcv_suspended (s_thds s1 t) = sl_rcv_suspended (s_thds s t)"
    "sl_periodic_cycs (s_thds s1 t) = sl_periodic_cycs (s_thds s t)"
    using mod_block_core [OF sl_inv_core [OF inv], of t] t r by (auto simp: runnable_def)
  then show ?thesis using False r B tmo_ok_cong [OF sl_keeps_fixed [OF s1(3)] s1(5)] by (intro exI [of _ s1]) simp
qed

lemma sched_block_ok:
  assumes inv: "sl_inv pinv ready T s" and t: "t \<in> T" "notif_ok t s" "is_blocked bt"
    and tmo: "bt = SL_THD_BLOCKED_TIMEOUT \<Longrightarrow> tmo_ok tmo (s_thds s t)"
  shows "\<exists>s'. sl_thd_sched_block_no_cs P t bt tmo s = Some (0, s') \<and> sl_inv pinv ready T s' \<and> sl_keeps wakeable {t} s s' \<and>
    (if sl_schedthd (s_thds s t) = 0 then sl_state (s_thds s' t) = bt \<and> sl_rcv_suspended (s_thds s' t) else s' = s)"
proof (cases "sl_schedthd (s_thds s t) = 0")
  case True
  obtain s1 where s1: "(if is_blocked (sl_state (s_thds s t)) then timeout_remove_if t s
      else do { kassert (sl_thd_is_runnable (s_thds s t)); sl_mod_block P t s }) = Some s1"
    "sl_core pinv ready T (timed T s - {t}) (runnable T s - {t}) s1" "sl_keeps wakeable {t} s s1" "tmo_ok tmo (s_thds s t) \<longrightarrow> tmo_ok tmo (s_thds s1 t)"
    using unready_ok [OF inv t(1)] by blast
  obtain s2 where s2: "timeout_block_if t bt tmo (upd_sl t (\<lambda>x. x\<lparr>sl_state := bt\<rparr>) s1) = Some s2" "sl_keeps wakeable {t} s s2"
    "sl_state (s_thds s2 t) = bt"
    "sl_core pinv ready T (if bt = SL_THD_BLOCKED_TIMEOUT then insert t (timed T s) else timed T s - {t}) (runnable T s - {t}) s2"
    using enter_ok [OF s1(2,3) t(1,3)] s1(4) tmo by blast
  let ?s = "upd_sl t (\<lambda>x. x\<lparr>sl_rcv_suspended := True\<rparr>) s2"
  have u: "sl_keeps wakeable {t} s2 ?s"
    "sl_core pinv ready T (if bt = SL_THD_BLOCKED_TIMEOUT then insert t (timed T s) else timed T s - {t}) (runnable T s - {t}) ?s"
    using s2(4) by (simp_all add: upd_core st_views)
  note k = sl_keeps_trans [OF s2(2) u(1)]
  have "sl_inv pinv ready T ?s"
    by (rule sl_inv_close [OF inv k u(2) t(1)]) (use s2(3) t(3) in \<open>auto simp: sl_thd_ok_def sl_thd_is_runnable_def\<close>)
  moreover have "sl_thd_sched_block_no_cs P t bt tmo s = Some (0, ?s)"
    using True s1(1) s2(1) t(3) sl_inv_thd [OF inv t(1)] by (simp add: sl_thd_sched_block_no_cs_def)
  ultimately show ?thesis using True k s2(3) by (intro exI [of _ ?s]) simp
next
  case False
  then show ?thesis using inv t sl_parent_notif_ok [OF t(2)] sl_inv_thd [OF inv t(1)] by (simp add: sl_thd_sched_block_no_cs_def)
qed

lemma block_no_cs_ok:
  assumes inv: "sl_inv pinv ready T s" and t: "t \<in> T" "s_curr s = t" "sl_aepinfo (s_thds s t) \<noteq> None" "is_blocked bt"
    and r: "sl_thd_is_runnable (s_thds s t) \<or> sl_rcv_suspended (s_thds s t)"
    and w: "sl_rcv_suspended (s_thds s t) \<Longrightarrow> wakeable t s \<and> 0 \<le> sint (sl_wakeup_cnt (s_thds s t))"
    and tmo: "bt = SL_THD_BLOCKED_TIMEOUT \<Longrightarrow> tmo_ok tmo (s_thds s t)"
  shows "\<exists>r s'. sl_thd_block_no_cs P t bt tmo s = Some (r, s') \<and> sl_inv pinv ready T s' \<and> sl_keeps wakeable {t} s s' \<and>
    (if sl_state (s_thds s t) = SL_THD_WOKEN then r = 1 \<and> sl_state (s_thds s' t) = SL_THD_RUNNABLE
     else r = 0 \<and> sl_state (s_thds s' t) = bt)"
proof (cases "sl_state (s_thds s t) = SL_THD_WOKEN")
  case True
  let ?s = "upd_sl t (\<lambda>x. x\<lparr>sl_state := SL_THD_RUNNABLE\<rparr>) s"
  have u: "sl_keeps wakeable {t} s ?s" "sl_core pinv ready T (timed T s) (runnable T s) ?s"
    using sl_inv_core [OF inv] by (simp_all add: upd_core st_views)
  have nr: "\<not> sl_rcv_suspended (s_thds s t)" using sl_inv_thd [OF inv t(1)] True by (auto simp: sl_thd_ok_def)
  have "sl_inv pinv ready T ?s"
    by (rule sl_inv_close [OF inv u t(1)]) (use t(1) True nr in \<open>auto simp: sl_thd_ok_def sl_thd_is_runnable_def timed_def runnable_def\<close>)
  moreover have "sl_thd_block_no_cs P t bt tmo s = Some (1, ?s)"
    using True nr t sl_inv_thd [OF inv t(1)] by (auto simp: sl_thd_block_no_cs_def sl_thd_thdid_def)
  ultimately show ?thesis using True u(1) by (intro exI [of _ 1] exI [of _ ?s]) simp
next
  case False
  obtain r' s1 where s1: "sl_thd_sched_unblock_no_cs P t s = Some (r', s1)" "sl_inv pinv ready T s1" "sl_keeps wakeable {t} s s1"
    "\<not> sl_rcv_suspended (s_thds s1 t)" "sl_periodic_cycs (s_thds s1 t) = sl_periodic_cycs (s_thds s t)"
    "if sl_rcv_suspended (s_thds s t) then r' = 1 \<and> sl_state (s_thds s1 t) = SL_THD_RUNNABLE else r' = 0 \<and> s1 = s"
    using sched_unblock_ok [OF inv t(1) w] by blast
  have run: "sl_state (s_thds s1 t) = SL_THD_RUNNABLE" using s1(6) r False by (auto simp: sl_thd_is_runnable_def split: if_splits)
  obtain s2 where s2: "sl_mod_block P t s1 = Some s2"
    "sl_core pinv ready T (timed T s1 - {t}) (runnable T s1 - {t}) s2" "sl_keeps wakeable {t} s1 s2"
    "tmo_ok tmo (s_thds s1 t) \<longrightarrow> tmo_ok tmo (s_thds s2 t)" "sl_rcv_suspended (s_thds s2 t) = sl_rcv_suspended (s_thds s1 t)"
    using unready_ok [OF s1(2) t(1)] run by (auto simp: sl_thd_is_runnable_def)
  have "bt = SL_THD_BLOCKED_TIMEOUT \<Longrightarrow> tmo_ok tmo (s_thds s2 t)"
    using s2(4) tmo tmo_ok_cong [OF sl_keeps_fixed [OF s1(3)] s1(5)] by blast
  then obtain s' where s': "timeout_block_if t bt tmo (upd_sl t (\<lambda>x. x\<lparr>sl_state := bt\<rparr>) s2) = Some s'" "sl_keeps wakeable {t} s1 s'"
    "sl_state (s_thds s' t) = bt" "sl_rcv_suspended (s_thds s' t) = sl_rcv_suspended (s_thds s2 t)"
    "sl_core pinv ready T (if bt = SL_THD_BLOCKED_TIMEOUT then insert t (timed T s1) else timed T s1 - {t}) (runnable T s1 - {t}) s'"
    using enter_ok [OF s2(2,3) t(1,4)] by blast
  have "sl_inv pinv ready T s'"
    by (rule sl_inv_close [OF s1(2) s'(2,5) t(1)])
      (use s'(3,4) s2(5) s1(4) t(4) in \<open>auto simp: sl_thd_ok_def sl_thd_is_runnable_def\<close>)
  moreover have "sl_thd_block_no_cs P t bt tmo s = Some (0, s')"
    using False t s1(1) s2(1) s'(1) run sl_inv_thd [OF inv t(1)] by (auto simp: sl_thd_block_no_cs_def sl_thd_thdid_def)
  ultimately show ?thesis using False sl_keeps_trans [OF s1(3) s'(2)] s'(3) by (intro exI [of _ 0] exI [of _ s']) simp
qed

lemma sched_wakeup_ok:
  assumes inv: "sl_inv pinv ready T s" and t: "t \<in> T" and w: "sl_rcv_suspended (s_thds s t) \<Longrightarrow> wakeable t s"
  shows "\<exists>r s'. sl_thd_sched_wakeup_no_cs P t s = Some (r, s') \<and> sl_inv pinv ready T s' \<and> sl_keeps wakeable {t} s s' \<and>
    (if sl_rcv_suspended (s_thds s t) then r = 0 \<and> sl_state (s_thds s' t) = SL_THD_RUNNABLE else r = 1 \<and> s' = s)"
proof (cases "sl_rcv_suspended (s_thds s t)")
  case True
  let ?s = "upd_sl t (\<lambda>x. x\<lparr>sl_rcv_suspended := False\<rparr>) s"
  note c = clear_rcv_ok [OF inv t]
  have b: "is_blocked (sl_state (s_thds s t))" using sl_inv_thd [OF inv t] True by (auto simp: sl_thd_ok_def)
  obtain s1 where s1: "timeout_remove_if t ?s = Some s1" "sl_core pinv ready T (timed T ?s - {t}) (runnable T ?s) s1"
    "sl_keeps wakeable {t} ?s s1" "sl_view (s_thds s1 t) = sl_view (s_thds ?s t)"
    using timeout_remove_if_ok [OF sl_inv_core [OF c(1)], of t] t by (auto simp: timed_def)
  have w1: "wakeable t s1" using s1(3) w [OF True] c(3) [of t] by (simp only: sl_keeps_def)
  let ?s2 = "upd_sl t (\<lambda>x. x\<lparr>sl_state := SL_THD_RUNNABLE\<rparr>) s1"
  have u: "sl_core pinv ready T (timed T ?s - {t}) (runnable T ?s) ?s2" "wakeable t ?s2" "sl_keeps wakeable {t} s1 ?s2"
    using s1(2) w1 by (simp_all add: upd_core st_views)
  obtain s' where s': "sl_mod_wakeup P t ?s2 = Some s'" "sl_core pinv ready T (timed T ?s - {t}) (insert t (runnable T ?s)) s'"
    "sl_keeps wakeable {} ?s2 s'" using mod_wakeup_core [OF u(1,2)] by blast
  note v = sl_view_eqD [OF sl_keeps_other [OF s'(3), of t]] and v1 = sl_view_eqD [OF s1(4)]
  have k: "sl_keeps wakeable {t} ?s s'" using sl_keeps_trans [OF s1(3) sl_keeps_trans [OF u(3) sl_keeps_mono [OF s'(3)]]] by simp
  have "sl_inv pinv ready T s'"
    by (rule sl_inv_close [OF c(1) k s'(2) t]) (use v(1,2) v1(2) in \<open>auto simp: sl_thd_ok_def sl_thd_is_runnable_def\<close>)
  moreover have "sl_thd_sched_wakeup_no_cs P t s = Some (0, s')"
    using True b s1(1) s'(1) sl_inv_thd [OF inv t] by (auto simp: sl_thd_sched_wakeup_no_cs_def Let_def sl_thd_is_runnable_def)
  ultimately show ?thesis using True sl_keeps_trans [OF c(2) k] v(1) by (intro exI [of _ 0] exI [of _ s']) simp
next
  case False
  then show ?thesis using inv sl_inv_thd [OF inv t] by (simp add: sl_thd_sched_wakeup_no_cs_def)
qed

lemma wakeup_no_cs_ok:
  assumes inv: "sl_inv pinv ready T s" and t: "t \<in> T" "s_curr s \<noteq> t" "notif_ok t s"
    and w: "is_blocked (sl_state (s_thds s t)) \<Longrightarrow> wakeable t s \<and> 0 \<le> sint (sl_wakeup_cnt (s_thds s t))"
  shows "\<exists>r s'. sl_thd_wakeup_no_cs P t s = Some (r, s') \<and> sl_inv pinv ready T s' \<and> sl_keeps wakeable {t} s s' \<and>
    (sl_schedthd (s_thds s t) = 0 \<longrightarrow> sl_thd_is_runnable (s_thds s' t))"
proof -
  note t0 = sl_inv_thd [OF inv t(1)]
  consider "sl_schedthd (s_thds s t) \<noteq> 0" | "sl_schedthd (s_thds s t) = 0" "sl_thd_is_runnable (s_thds s t)"
    | "sl_schedthd (s_thds s t) = 0" "\<not> sl_thd_is_runnable (s_thds s t)" "is_blocked (sl_state (s_thds s t))"
    using t0 by (auto simp: sl_thd_ok_def)
  then show ?thesis
  proof cases
    case 1
    then show ?thesis using inv t t0 sl_parent_notif_ok [OF t(3)] by (simp add: sl_thd_wakeup_no_cs_def)
  next
    case 2
    let ?s = "upd_sl t (\<lambda>x. x\<lparr>sl_state := SL_THD_WOKEN\<rparr>) s"
    have u: "sl_keeps wakeable {t} s ?s" "sl_core pinv ready T (timed T s) (runnable T s) ?s"
      using sl_inv_core [OF inv] by (simp_all add: upd_core st_views)
    have "sl_inv pinv ready T ?s"
      by (rule sl_inv_close [OF inv u t(1)])
        (use t(1) t0 2 in \<open>auto simp: sl_thd_ok_def sl_thd_is_runnable_def timed_def runnable_def\<close>)
    then show ?thesis using 2 t t0 u(1) by (simp add: sl_thd_wakeup_no_cs_def) (simp add: sl_thd_is_runnable_def)
  next
    case 3
    obtain s1 s' where "timeout_remove_if t s = Some s1" "sl_thd_wakeup_no_cs_rm P t s1 = Some (0, s')" "sl_inv pinv ready T s'"
      "sl_keeps wakeable {t} s s'" "sl_state (s_thds s' t) = SL_THD_RUNNABLE" using leave_ok [OF inv t(1) 3(3)] w [OF 3(3)] by blast
    then show ?thesis using 3 t t0
      by (intro exI [of _ 0] exI [of _ s']) (simp add: sl_thd_wakeup_no_cs_def sl_thd_is_runnable_def)
  qed
qed

lemma block_expiry_ok:
  assumes inv: "sl_inv pinv ready T s" and t: "t \<in> T" "t \<noteq> g_sched_thd s" "notif_ok t s"
    and own: "sl_own_tcap (s_thds s t) \<Longrightarrow> tmo_ok 0 (s_thds s t)" "\<not> sl_own_tcap (s_thds s t) \<Longrightarrow> \<not> sl_rcv_suspended (s_thds s t)"
    and w: "sl_rcv_suspended (s_thds s t) \<Longrightarrow> wakeable t s \<and> 0 \<le> sint (sl_wakeup_cnt (s_thds s t))"
  shows "\<exists>s'. sl_thd_block_expiry P t s = Some s' \<and> sl_inv pinv ready T s' \<and> sl_keeps wakeable {t} s s'"
proof (cases "sl_own_tcap (s_thds s t)")
  case True
  obtain r s1 where s1: "sl_thd_sched_unblock_no_cs P t s = Some (r, s1)" "sl_inv pinv ready T s1" "sl_keeps wakeable {t} s s1"
    "sl_periodic_cycs (s_thds s1 t) = sl_periodic_cycs (s_thds s t)" using sched_unblock_ok [OF inv t(1) w] by blast
  note f = sl_fixed_eqD [OF sl_keeps_fixed [OF s1(3)]]
  have "tmo_ok 0 (s_thds s1 t)" using own(1) [OF True] tmo_ok_cong [OF sl_keeps_fixed [OF s1(3)] s1(4)] by blast
  moreover have "notif_ok t s1" using t(3) f by (simp add: notif_ok_def)
  ultimately obtain s2 where s2: "sl_thd_sched_block_no_cs P t SL_THD_BLOCKED_TIMEOUT 0 s1 = Some (0, s2)" "sl_inv pinv ready T s2"
    "sl_keeps wakeable {t} s1 s2" using sched_block_ok [OF s1(2) t(1), of SL_THD_BLOCKED_TIMEOUT 0] by blast
  note c = clear_rcv_ok [OF s2(2) t(1)]
  show ?thesis using True s1(1) s2(1) c(1) sl_keeps_trans [OF s1(3) sl_keeps_trans [OF s2(3) c(2)]] t(2) own(1)
    by (simp add: sl_thd_block_expiry_def tmo_ok_def)
qed (use inv t(2) own(2) in \<open>simp add: sl_thd_block_expiry_def\<close>)

lemma block_cs_ok:
  assumes inv: "sl_inv pinv ready T s" and t: "s_curr s \<in> T" "sl_aepinfo (s_thds s (s_curr s)) \<noteq> None"
    and cnt: "1 \<le> sint (sl_wakeup_cnt (s_thds s (s_curr s)))"
    and r: "sl_thd_is_runnable (s_thds s (s_curr s))"
  shows "\<exists>r s'. sl_thd_block P s = Some (r, s') \<and> sl_inv pinv ready T s' \<and> sl_keeps wakeable {s_curr s} s s'"
proof -
  let ?t = "s_curr s" and ?s = "upd_sl (s_curr s) (\<lambda>x. x\<lparr>sl_wakeup_cnt := sl_wakeup_cnt x - 1\<rparr>) s"
  have i: "sl_inv pinv ready T ?s" by (rule upd_inv) (use inv t(1) in \<open>simp_all add: st_views\<close>)
  have k: "sl_keeps wakeable {?t} s ?s" by (simp add: upd_core st_views)
  have "\<not> sl_rcv_suspended (s_thds s ?t)" using sl_inv_thd [OF inv t(1)] r by (auto simp: sl_thd_ok_def sl_thd_is_runnable_def)
  then obtain r' s' where "sl_thd_block_no_cs P ?t SL_THD_BLOCKED 0 ?s = Some (r', s')" "sl_inv pinv ready T s'" "sl_keeps wakeable {?t} ?s s'"
    using block_no_cs_ok [OF i, of ?t SL_THD_BLOCKED 0] t r by (auto simp: sl_thd_is_runnable_def)
  then show ?thesis using cnt i k sl_keeps_trans [OF k]
    by (cases "sint (sl_wakeup_cnt (s_thds s ?t)) = 1") (auto simp: sl_thd_block_def Let_def)
qed

text \<open>One turn of the loop over the time-outs.\<close>

lemma wakeup_first_ok:
  assumes inv: "sl_inv pinv ready T s" and ne: "expired T now s \<noteq> {}"
    and w: "\<And>t. t \<in> expired T now s \<Longrightarrow> wakeable t s \<and> 0 \<le> sint (sl_wakeup_cnt (s_thds s t))"
  shows "\<exists>t s'. t \<in> expired T now s \<and> sl_inv pinv ready T s' \<and> sl_keeps wakeable {t} s s' \<and> timed T s' = timed T s - {t} \<and>
    sl_state (s_thds s' t) = SL_THD_RUNNABLE \<and> sl_wakeup_cycs (s_thds s' t) = now \<and>
    sl_timeout_wakeup_loop P now s = (if timed T s' \<noteq> {} then sl_timeout_wakeup_loop P now s' else Some s')"
proof -
  note core = sl_inv_core [OF inv]
  have ti: "to_inv T (timed T s) s" and ne': "timed T s \<noteq> {}" using core ne by (auto simp: sl_core_def expired_def)
  obtain t h' m' where t: "heap_peek (s_timeouts s) = Some t" "t \<in> timed T s" "t \<noteq> 0"
    "\<And>x. x \<in> timed T s \<Longrightarrow> sl_timeout_cycs (s_thds s t) \<le> sl_timeout_cycs (s_thds s x)"
    "heap_highest sl_timeout_compare_min sl_timeout_update_idx (s_timeouts s, s_thds s) = Some (t, h', m')"
    "heap_ok sl_timeout_compare_min timeout_idx h' m'" "heap_elems h' = timed T s - {t}"
    "heap_frame sl_timeout_compare_min timeout_idx but_timeout_idx (timed T s) (s_timeouts s, s_thds s) (h', m')"
    using sl_timeout_first_ok [OF ti ne'] by blast
  have x: "t \<in> expired T now s" and tT: "t \<in> T"
    using ne t(2,4) by (auto simp: expired_def timed_def intro: order_trans)
  let ?s1 = "upd_sl t (\<lambda>x. x\<lparr>sl_timeout_idx := - 1\<rparr>) (s\<lparr>s_timeouts := h', s_thds := m'\<rparr>)"
  note p = th_popped [OF ti t(6-8)] and c1 = th_same_core [OF th_popped(2,1) [OF ti t(6-8)] core]
  let ?s2 = "upd_sl t (\<lambda>x. x\<lparr>sl_wakeup_cycs := now\<rparr>) ?s1"
  have "pinv ?s2 = pinv ?s1 \<and> ready ?s2 = ready ?s1 \<and> wakeable y ?s2 = wakeable y ?s1" for y
    by (rule pol_only) (simp_all add: pol_view_def)
  then have c2: "sl_core pinv ready T (timed T s - {t}) (runnable T s) ?s2" "sl_keeps wakeable {t} ?s1 ?s2"
    using c1(1) to_inv_wake [OF p(1)] sl_frame_upd [of "\<lambda>x. x\<lparr>sl_wakeup_cycs := now\<rparr>" t ?s1]
    by (simp_all add: sl_core_def sl_keeps_def st_views)
  note k2 = sl_keeps_trans [OF c1(2) c2(2)] and v = sl_view_eqD [OF p(3)]
  have "wakeable t ?s2" using k2 w [OF x] by (simp add: sl_keeps_def)
  then obtain s' where s': "sl_thd_wakeup_no_cs_rm P t ?s2 = Some (0, s')" "sl_keeps wakeable {t} ?s2 s'"
    "sl_core pinv ready T (timed T s - {t}) (insert t (runnable T s)) s'"
    "sl_state (s_thds s' t) = SL_THD_RUNNABLE" "\<not> sl_rcv_suspended (s_thds s' t)" "to_view (s_thds s' t) = to_view (s_thds ?s2 t)"
    using wakeup_no_cs_rm_ok [OF c2(1) t(3)] w [OF x] v(3) by auto
  note k = sl_keeps_trans [OF k2 s'(2)]
  have i: "sl_inv pinv ready T s'"
    by (rule sl_inv_close [OF inv k s'(3) tT]) (use s'(4,5) in \<open>auto simp: sl_thd_ok_def sl_thd_is_runnable_def\<close>)
  have ti': "to_inv T (timed T s') s'" using sl_inv_core [OF i] by (simp add: sl_core_def)
  have tm: "timed T s' = timed T s - {t}" using ti' s'(3) by (simp add: sl_core_def to_inv_def)
  have "sl_wakeup_cycs (s_thds s t) = 0" "\<not> now < sl_timeout_cycs (s_thds s t)" using ti t(2) x by (auto simp: to_inv_def expired_def)
  then have "sl_timeout_wakeup_loop P now s = (if timed T s' \<noteq> {} then sl_timeout_wakeup_loop P now s' else Some s')"
    using t(1,3,5) s'(1) v(5) heap_size_0 [OF ti'] by (subst sl_timeout_wakeup_loop.simps) simp
  then show ?thesis using x i k tm s'(4,6) by (intro exI [of _ t] exI [of _ s']) (simp add: to_view_def)
qed

lemma wakeup_loop_ok:
  assumes "sl_inv pinv ready T s" "timed T s \<noteq> {}"
    "\<And>t. t \<in> expired T now s \<Longrightarrow> wakeable t s \<and> 0 \<le> sint (sl_wakeup_cnt (s_thds s t))"
  shows "\<exists>s'. sl_timeout_wakeup_loop P now s = Some s' \<and> sl_inv pinv ready T s' \<and> sl_keeps wakeable (expired T now s) s s' \<and>
    (\<forall>t\<in>expired T now s. sl_state (s_thds s' t) = SL_THD_RUNNABLE \<and> sl_wakeup_cycs (s_thds s' t) = now)"
  using assms
proof (induction "card (timed T s)" arbitrary: s rule: less_induct)
  case less
  note ti = sl_inv_core [OF less.prems(1), unfolded sl_core_def, THEN conjunct1]
  show ?case
  proof (cases "expired T now s = {}")
    case True
    obtain t where t: "heap_peek (s_timeouts s) = Some t" "t \<in> timed T s" "t \<noteq> 0"
      by (rule sl_timeout_first_ok [OF ti less.prems(2)])
    then have "now < sl_timeout_cycs (s_thds s t)" using True by (auto simp: expired_def)
    then show ?thesis using less.prems(1) True t(1,3) by (subst sl_timeout_wakeup_loop.simps) simp
  next
    case False
    obtain t s1 where t: "t \<in> expired T now s" "sl_inv pinv ready T s1" "sl_keeps wakeable {t} s s1" "timed T s1 = timed T s - {t}"
      "sl_state (s_thds s1 t) = SL_THD_RUNNABLE" "sl_wakeup_cycs (s_thds s1 t) = now"
      "sl_timeout_wakeup_loop P now s = (if timed T s1 \<noteq> {} then sl_timeout_wakeup_loop P now s1 else Some s1)"
      using wakeup_first_ok [OF less.prems(1) False less.prems(3)] by blast
    have v: "sl_view (s_thds s1 x) = sl_view (s_thds s x)" if "x \<noteq> t" for x using sl_keeps_other [OF t(3)] that by blast
    have ex: "expired T now s1 = expired T now s - {t}" using sl_view_eqD(4) [OF v] by (auto simp: expired_def t(4))
    have k1: "sl_keeps wakeable (expired T now s) s s1" by (rule sl_keeps_mono [OF t(3)]) (use t(1) in blast)
    show ?thesis
    proof (cases "timed T s1 = {}")
      case True
      then have "expired T now s = {t}" using ex t(1) by (auto simp: expired_def)
      then show ?thesis using True t(2,5-7) k1 by simp
    next
      case F2: False
      have "finite (timed T s)" "t \<in> timed T s" using ti t(1) by (auto simp: to_inv_def expired_def intro: finite_subset)
      then have c: "card (timed T s1) < card (timed T s)" unfolding t(4) by (rule card_Diff1_less)
      have w: "wakeable x s1 \<and> 0 \<le> sint (sl_wakeup_cnt (s_thds s1 x))" if "x \<in> expired T now s1" for x
        using that less.prems(3) [of x] t(3) sl_view_eqD(3) [OF v, of x] by (auto simp: ex sl_keeps_def)
      obtain s' where s': "sl_timeout_wakeup_loop P now s1 = Some s'" "sl_inv pinv ready T s'" "sl_keeps wakeable (expired T now s1) s1 s'"
        "\<forall>t\<in>expired T now s1. sl_state (s_thds s' t) = SL_THD_RUNNABLE \<and> sl_wakeup_cycs (s_thds s' t) = now"
        using less.hyps [OF c t(2) F2 w] by blast
      have v': "sl_view (s_thds s' t) = sl_view (s_thds s1 t)" using sl_keeps_other [OF s'(3), of t] ex by simp
      have "sl_state (s_thds s' t) = SL_THD_RUNNABLE" "sl_wakeup_cycs (s_thds s' t) = now"
        using t(5,6) sl_view_eqD(1,5) [OF v'] by simp_all
      moreover have "sl_keeps wakeable (expired T now s) s s'" 
        by (rule sl_keeps_trans [OF k1 sl_keeps_mono [OF s'(3)]]) (simp add: ex)
      ultimately show ?thesis using F2 t(7) s'(1,2,4) unfolding ex by (intro exI [of _ s']) auto
    qed
  qed
qed

lemma wakeup_expired_ok:
  assumes "sl_inv pinv ready T s"
    "\<And>t. t \<in> expired T now s \<Longrightarrow> wakeable t s \<and> 0 \<le> sint (sl_wakeup_cnt (s_thds s t))"
  shows "\<exists>s'. sl_timeout_wakeup_expired P now s = Some s' \<and> sl_inv pinv ready T s' \<and> sl_keeps wakeable (expired T now s) s s' \<and>
    (\<forall>t\<in>expired T now s. sl_state (s_thds s' t) = SL_THD_RUNNABLE \<and> sl_wakeup_cycs (s_thds s' t) = now)"
proof -
  have "heap_size (s_timeouts s) = 0 \<longleftrightarrow> timed T s = {}"
    using sl_inv_core [OF assms(1)] by (intro heap_size_0 [of T]) (simp add: sl_core_def)
  then show ?thesis using wakeup_loop_ok [OF assms(1) _ assms(2)] assms(1)
    by (cases "timed T s = {}") (auto simp: sl_timeout_wakeup_expired_def expired_def)
qed

lemma globals_inv:
  assumes "s_thds s' = s_thds s" "s_timeouts s' = s_timeouts s" "s_pol s' = s_pol s"
  shows "sl_inv pinv ready T s' = sl_inv pinv ready T s" "wakeable x s' = wakeable x s"
proof -
  have "pinv s' = pinv s \<and> ready s' = ready s \<and> wakeable x s' = wakeable x s" by (rule pol_only) (simp_all add: assms)
  moreover have "to_inv T B s' = to_inv T B s" for B by (rule to_inv_cong) (simp_all add: assms)
  ultimately show "sl_inv pinv ready T s' = sl_inv pinv ready T s" "wakeable x s' = wakeable x s"
    using assms(1) by (simp_all add: sl_inv_def sl_core_def timed_def runnable_def)
qed

text \<open>The decision of the scheduler wakes up every thread whose time has come before it chooses.\<close>

lemma schedule_choose_ok:
  assumes inv: "sl_inv pinv ready T s" and tm: "timer_ok now s"
    and w: "\<And>t. t \<in> expired T now s \<Longrightarrow> wakeable t s \<and> 0 \<le> sint (sl_wakeup_cnt (s_thds s t))"
  shows "\<exists>t s'. sl_schedule_choose P now to s = Some (t, s') \<and> sl_inv pinv ready T s' \<and> expired T now s' = {} \<and>
    (\<forall>x\<in>expired T now s. sl_state (s_thds s' x) = SL_THD_RUNNABLE) \<and>
    (\<forall>x. x \<notin> expired T now s \<longrightarrow> sl_view (s_thds s' x) = sl_view (s_thds s x)) \<and>
    (if to \<noteq> 0 \<and> sl_thd_is_runnable (s_thds s' to) then t = to
     else if runnable T s' = {} then t = g_idle_thd s' else t \<in> runnable T s' \<and> sl_mod_schedule P s' = Some t)"
proof -
  obtain s1 where s1: "(if g_timer_next s \<noteq> 0 \<and> sint (g_timer_next s - now) \<le> 0
      then sl_timeout_expended now (g_timer_next s) s else Some s) = Some s1"
    "s_thds s1 = s_thds s" "s_timeouts s1 = s_timeouts s" "s_pol s1 = s_pol s"
  proof (cases "g_timer_next s \<noteq> 0 \<and> sint (g_timer_next s - now) \<le> 0")
    case True
    then show ?thesis using tm that [of "sl_timeout_oneshot (now + g_period s - (now - g_timer_next s) mod g_period s) s"]
      by (simp add: sl_timeout_expended_def timer_ok_def sl_timeout_oneshot_def Let_def)
  next
    case False
    then show ?thesis using that [of s] by (simp only: if_False)
  qed
  note g = globals_inv [OF s1(2-4)]
  have ex: "expired T now s1 = expired T now s" by (simp add: expired_def timed_def s1(2))
  obtain s' where s': "sl_timeout_wakeup_expired P now s1 = Some s'" "sl_inv pinv ready T s'" "sl_keeps wakeable (expired T now s) s1 s'"
    "\<forall>x\<in>expired T now s. sl_state (s_thds s' x) = SL_THD_RUNNABLE \<and> sl_wakeup_cycs (s_thds s' x) = now"
    using wakeup_expired_ok [of T s1 now] inv w g ex s1(2) by auto
  have v: "sl_view (s_thds s' x) = sl_view (s_thds s x)" if "x \<notin> expired T now s" for x
    using sl_keeps_other [OF s'(3) that] s1(2) by simp
  have "x \<notin> expired T now s'" for x
    using s'(4) sl_view_eqD(1,4) [OF v, of x] by (cases "x \<in> expired T now s") (auto simp: expired_def timed_def)
  then have none: "expired T now s' = {}" by blast
  obtain r where r: "sl_mod_schedule P s' = Some r" "if runnable T s' = {} then r = 0 else r \<in> runnable T s'"
    using schedule_ok [of s'] sl_inv_core [OF s'(2)] unfolding sl_core_def by metis
  have nz: "r \<noteq> 0" if "runnable T s' \<noteq> {}" 
  proof -
    have "r \<in> runnable T s'" using r(2) that by simp
    then have "r \<in> T" by (simp add: runnable_def)
    then show ?thesis using sl_inv_thd [OF s'(2)] by blast
  qed
  let ?t = "if to \<noteq> 0 \<and> sl_thd_is_runnable (s_thds s' to) then to else if r = 0 then g_idle_thd s' else r"
  have "sl_schedule_choose P now to s = Some (?t, s')"
    unfolding sl_schedule_choose_def Let_def s1(1) using s'(1) r(1) by simp
  moreover have "if to \<noteq> 0 \<and> sl_thd_is_runnable (s_thds s' to) then ?t = to
     else if runnable T s' = {} then ?t = g_idle_thd s' else ?t \<in> runnable T s' \<and> sl_mod_schedule P s' = Some ?t"
    using r nz by simp
  ultimately show ?thesis using s'(2,4) v none by blast
qed

end

end
