(* ===== verification/Sl_Runs.thy ===== *)
theory Sl_Runs
  imports Sl_Inv
begin

text \<open>
  Runs of the scheduling library with the earliest-deadline-first policy on one core: the calls that
  threads, the scheduler loop and other cores make, in any order, from the state after initialisation.
\<close>

section \<open>Calls\<close>

text \<open>
  \<open>Sl_dispatch\<close> stands for the switch to another thread, by the library or by the kernel; the others are the
  operations of the library, where \<open>now\<close> is the time at which the call reads the clock.
\<close>

datatype sl_call = Sl_block | Sl_block_timeout u64 | Sl_wakeup addr | Sl_sched_block addr sl_thd_state u64 | Sl_sched_wakeup addr
  | Sl_block_expiry addr | Sl_schedule u64 | Sl_param_set u64 addr u64 | Sl_xcpu_wakeup_with_dl u64 addr u64 | Sl_dispatch addr

fun sl_call_do :: "sl_call \<Rightarrow> heap sl_st \<Rightarrow> heap sl_st option" where
  "sl_call_do Sl_block s = map_option snd (sl_thd_block edf_policy s)"
| "sl_call_do (Sl_block_timeout tmo) s = map_option snd (sl_thd_block_no_cs edf_policy (s_curr s) SL_THD_BLOCKED_TIMEOUT tmo s)"
| "sl_call_do (Sl_wakeup t) s = map_option snd (sl_thd_wakeup_no_cs edf_policy t s)"
| "sl_call_do (Sl_sched_block t bt tmo) s = map_option snd (sl_thd_sched_block_no_cs edf_policy t bt tmo s)"
| "sl_call_do (Sl_sched_wakeup t) s = map_option snd (sl_thd_sched_wakeup_no_cs edf_policy t s)"
| "sl_call_do (Sl_block_expiry t) s = sl_thd_block_expiry edf_policy t s"
| "sl_call_do (Sl_schedule now) s = map_option snd (sl_schedule_choose edf_policy now 0 s)"
| "sl_call_do (Sl_param_set now t sp) s = sl_thd_param_set edf_policy now t sp s"
| "sl_call_do (Sl_xcpu_wakeup_with_dl now t sp) s = sl_xcpu_process edf_policy now (SL_XCPU_THD_WAKEUP_WITH_DL t sp) s"
| "sl_call_do (Sl_dispatch t) s = Some (s\<lparr>s_curr := t\<rparr>)"

text \<open>
  When a call may be made.  The current thread blocks itself while it is runnable and has been woken up
  before; a thread that is to be woken up has a deadline and a counter of wake-ups that has not run over;
  deadlines change while the thread is blocked without a time-out.
\<close>

definition wake_ok :: "addr set \<Rightarrow> addr \<Rightarrow> heap sl_st \<Rightarrow> bool" where
  "wake_ok T t s \<longleftrightarrow> edf_wakeable T t s \<and> 0 \<le> sint (sl_wakeup_cnt (s_thds s t))"

definition deadline_param :: "u64 \<Rightarrow> bool" where
  "deadline_param sp \<longleftrightarrow> (case sched_param_get sp of Some (SCHEDP_DEADLINE, v) \<Rightarrow> v \<noteq> SL_EDF_MAX_DEADLINE | _ \<Rightarrow> False)"

lemma deadline_paramE:
  assumes "deadline_param sp"
  obtains v where "sched_param_get sp = Some (SCHEDP_DEADLINE, v)" "v \<noteq> SL_EDF_MAX_DEADLINE"
  using assms that by (auto simp: deadline_param_def split: option.splits prod.splits sched_param_type.splits)

fun sl_call_ok :: "addr set \<Rightarrow> sl_call \<Rightarrow> heap sl_st \<Rightarrow> bool" where
  "sl_call_ok T Sl_block s \<longleftrightarrow> s_curr s \<in> T \<and> sl_aepinfo (s_thds s (s_curr s)) \<noteq> None \<and>
     sl_thd_is_runnable (s_thds s (s_curr s)) \<and> 1 \<le> sint (sl_wakeup_cnt (s_thds s (s_curr s)))"
| "sl_call_ok T (Sl_block_timeout tmo) s \<longleftrightarrow> s_curr s \<in> T \<and> sl_aepinfo (s_thds s (s_curr s)) \<noteq> None \<and>
     (sl_thd_is_runnable (s_thds s (s_curr s)) \<or> sl_rcv_suspended (s_thds s (s_curr s)) \<and> wake_ok T (s_curr s) s) \<and>
     tmo_ok tmo (s_thds s (s_curr s))"
| "sl_call_ok T (Sl_wakeup t) s \<longleftrightarrow> t \<in> T \<and> s_curr s \<noteq> t \<and> notif_ok t s \<and> (is_blocked (sl_state (s_thds s t)) \<longrightarrow> wake_ok T t s)"
| "sl_call_ok T (Sl_sched_block t bt tmo) s \<longleftrightarrow> t \<in> T \<and> notif_ok t s \<and> is_blocked bt \<and>
     (bt = SL_THD_BLOCKED_TIMEOUT \<longrightarrow> tmo_ok tmo (s_thds s t))"
| "sl_call_ok T (Sl_sched_wakeup t) s \<longleftrightarrow> t \<in> T \<and> (sl_rcv_suspended (s_thds s t) \<longrightarrow> wake_ok T t s)"
| "sl_call_ok T (Sl_block_expiry t) s \<longleftrightarrow> t \<in> T \<and> t \<noteq> g_sched_thd s \<and> notif_ok t s \<and>
     (if sl_own_tcap (s_thds s t) then tmo_ok 0 (s_thds s t) else \<not> sl_rcv_suspended (s_thds s t)) \<and>
     (sl_rcv_suspended (s_thds s t) \<longrightarrow> wake_ok T t s)"
| "sl_call_ok T (Sl_schedule now) s \<longleftrightarrow> timer_ok now s \<and> (\<forall>t\<in>expired T now s. wake_ok T t s)"
| "sl_call_ok T (Sl_param_set now t sp) s \<longleftrightarrow> t \<in> T \<and> \<not> sl_thd_is_runnable (s_thds s t) \<and> deadline_param sp"
| "sl_call_ok T (Sl_xcpu_wakeup_with_dl now t sp) s \<longleftrightarrow> t \<in> T \<and> sl_state (s_thds s t) = SL_THD_BLOCKED \<and> deadline_param sp \<and>
     0 \<le> sint (sl_wakeup_cnt (s_thds s t))"
| "sl_call_ok T (Sl_dispatch t) s \<longleftrightarrow> t \<in> T"

text \<open>
  The state after initialisation: both heaps are empty, and the threads have been created and are blocked, as
  the parameter \<^verbatim>\<open>SCHEDP_PRIO_BLOCK\<close> leaves them.
\<close>

definition edf_start :: "addr set \<Rightarrow> heap sl_st \<Rightarrow> bool" where
  "edf_start T s \<longleftrightarrow> finite T \<and> 0 \<notin> T \<and> card T < MAX_NUM_THREADS \<and>
     s_timeouts s = heap_init SL_MAX_NUM_THDS (replicate MAX_NUM_THREADS 0) \<and>
     s_pol s = heap_init SL_EDF_MAX_THDS (replicate MAX_NUM_THREADS 0) \<and>
     (\<forall>t\<in>T. sl_state (s_thds s t) = SL_THD_BLOCKED \<and> \<not> sl_rcv_suspended (s_thds s t) \<and> sl_timeout_idx (s_thds s t) = - 1 \<and>
        pol_prio_idx (s_thds s t) = - 1)"

inductive edf_reach :: "addr set \<Rightarrow> heap sl_st \<Rightarrow> heap sl_st \<Rightarrow> bool" for T s0 where
  start: "edf_reach T s0 s0"
| call: "edf_reach T s0 s \<Longrightarrow> sl_call_ok T c s \<Longrightarrow> sl_call_do c s = Some s' \<Longrightarrow> edf_reach T s0 s'"

abbreviation edf_sl_inv :: "addr set \<Rightarrow> heap sl_st \<Rightarrow> bool" where
  "edf_sl_inv T \<equiv> sl_inv (edf_inv T) edf_ready T"

section \<open>Example states\<close>

definition ex_thd :: sl_thd where
  "ex_thd = \<lparr>sl_state = SL_THD_BLOCKED, sl_rcv_suspended = False, sl_own_tcap = False, sl_send = False,
     sl_aepinfo = Some \<lparr>aep_tc = 0, aep_thd = 0, aep_tid = 1, aep_rcv = 0\<rparr>, sl_sndcap = 0, sl_schedthd = 0, sl_prio = 0,
     sl_budget = 0, sl_last_replenish = 0, sl_period = 0, sl_periodic_cycs = 0, sl_timeout_cycs = 0, sl_wakeup_cycs = 0,
     sl_timeout_idx = - 1, sl_wakeup_cnt = 0, sl_event_info = \<lparr>ev_blocked = False, ev_cycles = 0, ev_timeout = 0\<rparr>,
     pol_priority = 0, pol_period_usec = 0, pol_period = 0, pol_deadline = 20, pol_prio_idx = - 1\<rparr>"

text \<open>Two threads after initialisation.\<close>

definition ex_start :: "heap sl_st" where
  "ex_start = \<lparr>s_thds = (\<lambda>_. ex_thd), s_timeouts = heap_init SL_MAX_NUM_THDS (replicate MAX_NUM_THREADS 0),
     s_pol = heap_init SL_EDF_MAX_THDS (replicate MAX_NUM_THREADS 0), s_curr = 3, g_sched_thd = 3, g_sched_tcap = 0,
     g_idle_thd = 4, g_cyc_per_usec = 1, g_period = 1000, g_timer_next = 0, g_timeout_next = 0\<rparr>"

text \<open>Thread 1 is runnable, and thread 2 waits until time 100.\<close>

definition ex_timed :: "heap sl_st" where
  "ex_timed = ex_start\<lparr>s_thds := (\<lambda>_. ex_thd)(1 := ex_thd\<lparr>sl_state := SL_THD_RUNNABLE, pol_deadline := 50, pol_prio_idx := 1\<rparr>,
       2 := ex_thd\<lparr>sl_state := SL_THD_BLOCKED_TIMEOUT, sl_timeout_cycs := 100, sl_timeout_idx := 1\<rparr>),
     s_timeouts := \<lparr>hp_e = 2, hp_max_sz = SL_MAX_NUM_THDS + 1, hp_data = (replicate MAX_NUM_THREADS 0)[1 := 2]\<rparr>,
     s_pol := \<lparr>hp_e = 2, hp_max_sz = SL_EDF_MAX_THDS + 1, hp_data = (replicate MAX_NUM_THREADS 0)[1 := 1]\<rparr>\<rparr>"

section \<open>Every call keeps the invariant\<close>

lemma edf_start_inv:
  assumes "edf_start T s"
  shows "edf_sl_inv T s"
proof -
  have n: "0 < MAX_NUM_THREADS" "replicate MAX_NUM_THREADS (0::addr) \<noteq> []" by (simp_all add: MAX_NUM_THREADS_def)
  have h: "heap_ok cmp idx (heap_init (int MAX_NUM_THREADS) (replicate MAX_NUM_THREADS 0)) (s_thds s) \<and>
    heap_elems (heap_init (int MAX_NUM_THREADS) (replicate MAX_NUM_THREADS 0)) = {}"
    if "cmp = compare_min \<and> idx = prio_idx \<or> cmp = sl_timeout_compare_min \<and> idx = timeout_idx" for cmp idx
    using that eh.heap_init_ok th.heap_init_ok n by auto
  have "timed T s = {}" "runnable T s = {}" using assms by (auto simp: edf_start_def timed_def runnable_def sl_thd_is_runnable_def)
  then show ?thesis using assms h [of compare_min prio_idx] h [of sl_timeout_compare_min timeout_idx]
    by (simp add: edf_start_def sl_inv_def sl_core_def to_inv_def edf_inv_def edf_ready_def SL_MAX_NUM_THDS_def
      SL_EDF_MAX_THDS_def heap_init_def sl_thd_ok_def)
qed

lemma edf_deadline_ok:
  assumes inv: "edf_sl_inv T s" and t: "t \<in> T" "\<not> sl_thd_is_runnable (s_thds s t)" and sp: "sched_param_get sp = Some (SCHEDP_DEADLINE, v)"
  defines "s' \<equiv> upd_sl t (\<lambda>x. x\<lparr>pol_deadline := v, pol_priority := v\<rparr>) s"
  shows "sl_thd_param_set edf_policy now t sp s = Some s'" "edf_sl_inv T s'"
proof -
  have t0: "t \<noteq> 0" using sl_inv_thd [OF inv t(1)] by blast
  then show "sl_thd_param_set edf_policy now t sp s = Some s'"
    using sp by (simp add: sl_thd_param_set_def edf_policy_def edf_thd_param_set_def s'_def)
  note c = sl_inv_core [OF inv, unfolded sl_core_def]
  have nt: "t \<notin> heap_elems (s_pol s)" using c t(2) by (auto simp: edf_ready_def runnable_def)
  have "heap_ok compare_min prio_idx (s_pol s) (s_thds s')"
    by (rule heap_ok_local [of _ _ _ "s_thds s"]) (use c nt in \<open>auto simp: edf_inv_def compare_min_def s'_def\<close>)
  then have "edf_inv T s'" using c by (auto simp: edf_inv_def s'_def)
  moreover have "to_inv T B s' = to_inv T B s" for B by (rule to_inv_cong) (simp_all add: s'_def to_view_def)
  moreover have "edf_ready s' = edf_ready s" by (simp add: edf_ready_def s'_def)
  moreover have "timed T s' = timed T s" "runnable T s' = runnable T s"
    by (auto simp: timed_def runnable_def s'_def sl_thd_is_runnable_def)
  moreover have "\<forall>x\<in>T. sl_thd_ok (s_thds s' x)" using inv by (auto simp: sl_inv_def s'_def sl_thd_ok_def sl_thd_is_runnable_def)
  ultimately show "edf_sl_inv T s'" using c by (simp add: sl_inv_def sl_core_def)
qed

lemma sl_call_inv:
  assumes inv: "edf_sl_inv T s" and ok: "sl_call_ok T c s"
  shows "\<exists>s'. sl_call_do c s = Some s' \<and> edf_sl_inv T s'"
proof (cases c)
  case Sl_block
  then show ?thesis using edf.block_cs_ok [OF inv] ok by auto
next
  case (Sl_block_timeout tmo)
  have "sl_rcv_suspended (s_thds s (s_curr s)) \<Longrightarrow> edf_wakeable T (s_curr s) s \<and> 0 \<le> sint (sl_wakeup_cnt (s_thds s (s_curr s)))"
    using ok Sl_block_timeout sl_inv_thd [OF inv, of "s_curr s"] by (auto simp: wake_ok_def sl_thd_ok_def sl_thd_is_runnable_def)
  then show ?thesis using edf.block_no_cs_ok [OF inv _ refl, of SL_THD_BLOCKED_TIMEOUT tmo] ok Sl_block_timeout by auto
next
  case (Sl_wakeup t)
  then show ?thesis using edf.wakeup_no_cs_ok [OF inv, of t] ok by (auto simp: wake_ok_def)
next
  case (Sl_sched_block t bt tmo)
  then show ?thesis using edf.sched_block_ok [OF inv, of t bt tmo] ok by auto
next
  case (Sl_sched_wakeup t)
  then show ?thesis using edf.sched_wakeup_ok [OF inv, of t] ok by (auto simp: wake_ok_def)
next
  case (Sl_block_expiry t)
  then show ?thesis using edf.block_expiry_ok [OF inv, of t] ok by (auto simp: wake_ok_def split: if_splits)
next
  case (Sl_schedule now)
  then show ?thesis using edf.schedule_choose_ok [OF inv, of now 0] ok by (auto simp: wake_ok_def)
next
  case (Sl_param_set now t sp)
  then obtain v where v: "sched_param_get sp = Some (SCHEDP_DEADLINE, v)" using ok deadline_paramE by auto
  then show ?thesis using edf_deadline_ok [OF inv _ _ v] ok Sl_param_set by auto
next
  case (Sl_xcpu_wakeup_with_dl now t sp)
  then obtain v where v: "sched_param_get sp = Some (SCHEDP_DEADLINE, v)" "v \<noteq> SL_EDF_MAX_DEADLINE" and t: "t \<in> T"
    "sl_state (s_thds s t) = SL_THD_BLOCKED" "0 \<le> sint (sl_wakeup_cnt (s_thds s t))" using ok deadline_paramE by auto
  let ?s = "upd_sl t (\<lambda>x. x\<lparr>pol_deadline := v, pol_priority := v\<rparr>) s"
  have d: "sl_thd_param_set edf_policy now t sp s = Some ?s" "edf_sl_inv T ?s"
    using edf_deadline_ok [OF inv t(1) _ v(1)] t(2) by (simp_all add: sl_thd_is_runnable_def)
  have "edf_wakeable T t ?s" using t(1) v(2) by (simp add: edf_wakeable_def)
  then obtain s' where "sl_thd_wakeup_no_cs_rm edf_policy t ?s = Some (0, s')" "edf_sl_inv T s'"
    using edf.leave_ok [OF d(2) t(1)] t(2,3) by (auto simp: timeout_remove_if_def)
  then show ?thesis using d(1) Sl_xcpu_wakeup_with_dl sl_inv_thd [OF inv t(1)] by simp
next
  case (Sl_dispatch t)
  then show ?thesis using inv edf.globals_inv(1) [of "s\<lparr>s_curr := t\<rparr>" s T] by simp
qed

lemma ex_start_ok: "edf_start {1, 2} ex_start"
  by (simp add: edf_start_def ex_start_def ex_thd_def MAX_NUM_THREADS_def)

definition ex_heap :: "addr \<Rightarrow> heap" where
  "ex_heap x = \<lparr>hp_e = 2, hp_max_sz = int MAX_NUM_THREADS + 1, hp_data = (replicate MAX_NUM_THREADS 0)[1 := x]\<rparr>"

lemma ex_heap_ok:
  assumes "idx m x = 1"
  shows "heap_ok cmp idx (ex_heap x) m" "heap_elems (ex_heap x) = {x}"
proof -
  have n: "1 < MAX_NUM_THREADS" by (simp add: MAX_NUM_THREADS_def)
  have "idx_ok idx m ((replicate MAX_NUM_THREADS 0)[1 := x]) 2"
    unfolding idx_ok_def
  proof (intro allI impI)
    fix i :: nat assume "1 \<le> i \<and> i < 2"
    then have "i = 1" by simp
    then show "idx m ((replicate MAX_NUM_THREADS 0)[1 := x] ! i) = int i" using assms n by simp
  qed
  moreover have "heap_ord cmp m ((replicate MAX_NUM_THREADS 0)[1 := x]) 2" unfolding heap_ord_def by (metis not_le)
  ultimately show "heap_ok cmp idx (ex_heap x) m" using n by (simp add: heap_ok_def ex_heap_def)
  have "{1..<2} = {1::nat}" by auto
  then show "heap_elems (ex_heap x) = {x}" using n by (simp add: heap_elems_def elems_def ex_heap_def)
qed

lemma ex_timed_inv: "edf_sl_inv {1, 2} ex_timed"
proof -
  have h: "s_timeouts ex_timed = ex_heap 2" "s_pol ex_timed = ex_heap 1"
    by (simp_all add: ex_timed_def ex_heap_def SL_MAX_NUM_THDS_def SL_EDF_MAX_THDS_def)
  have ix: "timeout_idx (s_thds ex_timed) 2 = 1" "prio_idx (s_thds ex_timed) 1 = 1" by (simp_all add: ex_timed_def)
  note ok = ex_heap_ok [of timeout_idx "s_thds ex_timed", OF ix(1)] ex_heap_ok [of prio_idx "s_thds ex_timed", OF ix(2)]
  have tm: "timed {1, 2} ex_timed = {2}" "runnable {1, 2} ex_timed = {1}"
    by (auto simp: timed_def runnable_def sl_thd_is_runnable_def ex_timed_def ex_thd_def)
  have sz: "2 < MAX_NUM_THREADS" "length (hp_data (ex_heap x)) = MAX_NUM_THREADS" "hp_max_sz (ex_heap x) = int MAX_NUM_THREADS + 1" for x
    by (simp_all add: ex_heap_def) (simp add: MAX_NUM_THREADS_def)
  have "to_inv {1, 2} {2} ex_timed"
    using ok(1,2) sz by (simp add: to_inv_def h SL_MAX_NUM_THDS_def) (auto simp: ex_timed_def ex_thd_def)
  moreover have "edf_inv {1, 2} ex_timed"
    using ok(3,4) sz by (simp add: edf_inv_def h) (auto simp: ex_timed_def ex_thd_def)
  moreover have "edf_ready ex_timed = {1}" using ok(4) by (simp add: edf_ready_def h)
  moreover have "\<forall>x\<in>{1, 2}. sl_thd_ok (s_thds ex_timed x)"
    by (simp add: ex_timed_def ex_thd_def sl_thd_ok_def sl_thd_is_runnable_def)
  ultimately show ?thesis by (simp add: sl_inv_def sl_core_def tm)
qed

section \<open>Properties\<close>

text \<open>
  C3. In every state that the scheduling library reaches with the earliest-deadline-first policy, the heap
  of the policy holds exactly the runnable threads, the heap of time-outs exactly the threads that are
  blocked with one, both in order and with correct positions; and every call that may be made returns, so
  that no assertion of the library, the policy or the heaps fails.
\<close>

theorem edf_sched_runs:
  assumes "edf_start T s0" "edf_reach T s0 s"
  shows "sl_inv (edf_inv T) edf_ready T s \<and> (\<forall>c. sl_call_ok T c s \<longrightarrow> sl_call_do c s \<noteq> None)"
proof -
  from assms(2) have "edf_sl_inv T s"
    by (induction rule: edf_reach.induct) (use edf_start_inv [OF assms(1)] sl_call_inv in force)+
  then show ?thesis using sl_call_inv by blast
qed

theorem edf_sched_runs_witness:
  "\<exists>s1. sl_call_do (Sl_xcpu_wakeup_with_dl 0 1 (sched_param_pack SCHEDP_DEADLINE 7)) ex_start = Some s1 \<and>
     edf_reach {1, 2} ex_start s1 \<and> sl_inv (edf_inv {1, 2}) edf_ready {1, 2} s1"
proof -
  let ?c = "Sl_xcpu_wakeup_with_dl 0 1 (sched_param_pack SCHEDP_DEADLINE 7)"
  have ok: "sl_call_ok {1, 2} ?c ex_start"
    by (simp add: deadline_param_def sched_param_pack_def sched_param_get_def SCHED_PARAM_TYPE_BITS_def param_type_def
      sched_param_types_def SL_EDF_MAX_DEADLINE_def ex_start_def ex_thd_def)
  obtain s1 where s1: "sl_call_do ?c ex_start = Some s1"
    using edf_sched_runs [OF ex_start_ok edf_reach.start] ok by (auto simp del: sl_call_do.simps sl_call_ok.simps)
  have r: "edf_reach {1, 2} ex_start s1" by (rule edf_reach.call [OF edf_reach.start ok s1])
  show ?thesis using edf_sched_runs [OF ex_start_ok r] s1 r by blast
qed



text \<open>
  C38. A request from another core to wake up a thread that is blocked with a time-out leaves the thread in the
  heap of time-outs although it is runnable, and the next time that the thread blocks with a time-out an
  assertion fails.
\<close>

theorem xcpu_wakeup_leaves_timeout:
  assumes "edf_sl_inv T s" "t \<in> T" "sl_state (s_thds s t) = SL_THD_BLOCKED_TIMEOUT" "wake_ok T t s"
  shows "\<exists>s'. sl_xcpu_process edf_policy now (SL_XCPU_THD_WAKEUP t) s = Some s' \<and> sl_state (s_thds s' t) = SL_THD_RUNNABLE \<and>
    t \<in> heap_elems (s_timeouts s') \<and> \<not> edf_sl_inv T s' \<and> sl_timeout_block t tmo s' = None"
proof -
  note c = sl_inv_core [OF assms(1)] and t0 = sl_inv_thd [OF assms(1,2)]
  have tm: "t \<in> timed T s" using assms(2,3) by (simp add: timed_def)
  obtain s' where s': "sl_thd_wakeup_no_cs_rm edf_policy t s = Some (0, s')" "sl_core (edf_inv T) edf_ready T (timed T s) (insert t (runnable T s)) s'"
    "sl_state (s_thds s' t) = SL_THD_RUNNABLE"
    using edf.wakeup_no_cs_rm_ok [OF c, of t] t0 assms(4) by (auto simp: wake_ok_def)
  then have ti: "to_inv T (timed T s) s'" by (simp add: sl_core_def)
  then have he: "heap_elems (s_timeouts s') = timed T s" "heap_ok sl_timeout_compare_min timeout_idx (s_timeouts s') (s_thds s')"
    by (auto simp: to_inv_def)
  obtain k where "timeout_idx (s_thds s') t = int k" "1 \<le> k" using edf_position [OF he(2), of t] tm he(1) by metis
  then have "sl_timeout_block t tmo s' = None" by (simp add: sl_timeout_block_def)
  moreover have "t \<notin> timed T s'" using s'(3) by (simp add: timed_def)
  then have "\<not> edf_sl_inv T s'" using tm he(1) sl_inv_core [of "edf_inv T" edf_ready T s'] by (auto simp: sl_core_def to_inv_def)
  ultimately show ?thesis using s'(1,3) he(1) tm t0 by simp
qed

theorem xcpu_wakeup_leaves_timeout_witness:
  "\<exists>s'. sl_xcpu_process edf_policy 0 (SL_XCPU_THD_WAKEUP 2) ex_timed = Some s' \<and> sl_timeout_block 2 500 s' = None"
proof -
  have "sl_state (s_thds ex_timed 2) = SL_THD_BLOCKED_TIMEOUT" "wake_ok {1, 2} 2 ex_timed"
    by (simp_all add: ex_timed_def wake_ok_def edf_wakeable_def ex_thd_def SL_EDF_MAX_DEADLINE_def)
  then show ?thesis using xcpu_wakeup_leaves_timeout [OF ex_timed_inv, of 2 0 500] by blast
qed

text \<open>
  C33. When the timer of the core has run out, the next one is set strictly after the present, at most one
  period away, and a whole number of periods after the old one, however many periods have been missed.
\<close>

theorem timer_keeps_phase:
  assumes "g_timer_next s \<le> now" "g_period s \<noteq> 0" "unat now + unat (g_period s) < 2 ^ 64"
  shows "\<exists>s' k. sl_timeout_expended now (g_timer_next s) s = Some s' \<and> now < g_timer_next s' \<and>
    unat (g_timer_next s') \<le> unat now + unat (g_period s) \<and>
    unat (g_timer_next s') = unat (g_timer_next s) + Suc k * unat (g_period s) \<and> g_timeout_next s' = tcap_cyc2time (g_timer_next s')"
proof -
  let ?n = "unat now" and ?p = "unat (g_period s)" and ?o = "unat (g_timer_next s)"
  let ?k = "(?n - ?o) div ?p"
  have le: "?o \<le> ?n" "0 < ?p" using assms(1,2) by (simp_all add: word_le_nat_alt unat_gt_0)
  let ?off = "(now - g_timer_next s) mod g_period s"
  have off: "unat ?off = (?n - ?o) mod ?p" using assms(1) by (simp add: unat_mod unat_sub)
  then have lt: "unat ?off < ?p" using le(2) by simp
  have "unat (now + g_period s) = ?n + ?p" using assms(3) by (simp add: unat_word_ariths)
  moreover have "?off \<le> now + g_period s" using lt calculation by (simp add: word_le_nat_alt)
  ultimately have u: "unat (now + g_period s - ?off) = ?n + ?p - (?n - ?o) mod ?p" using off by (simp add: unat_sub)
  have "?n - ?o = ?k * ?p + (?n - ?o) mod ?p" by simp
  then have "?n + ?p - (?n - ?o) mod ?p = ?o + Suc ?k * ?p" using le(1) unfolding mult_Suc by linarith
  moreover have "?n < ?n + ?p - (?n - ?o) mod ?p" using lt off by simp
  ultimately show ?thesis using assms(1,2) u
    by (intro exI [of _ "sl_timeout_oneshot (now + g_period s - ?off) s"] exI [of _ ?k])
      (simp add: sl_timeout_expended_def sl_timeout_oneshot_def Let_def word_less_nat_alt)
qed

theorem timer_keeps_phase_witness:
  "\<exists>s' k. sl_timeout_expended 4500 2000 (ex_start\<lparr>g_timer_next := 2000\<rparr>) = Some s' \<and> unat (g_timer_next s') = 2000 + Suc k * 1000"
  using timer_keeps_phase [of "ex_start\<lparr>g_timer_next := 2000\<rparr>" 4500] by (auto simp: ex_start_def)


section \<open>Calls that cannot succeed\<close>

text \<open>
  The scheduler thread cannot carry out a notification to block another thread, since blocking asserts that
  the thread blocks itself.
\<close>

lemma child_block_notif_fails:
  assumes "sl_thd_thdid s t \<noteq> sl_thd_thdid s (s_curr s)"
  shows "sl_child_notif P (SL_CHILD_THD_BLOCK t) s = None"
  using assms by (auto simp: sl_thd_block_no_cs_def kassert_def split: Option.bind_splits)

text \<open>A thread that has never been woken up cannot block: its counter of wake-ups is still zero.\<close>

lemma first_block_fails: "sl_wakeup_cnt (s_thds s (s_curr s)) = 0 \<Longrightarrow> sl_thd_block P s = None"
  by (simp add: sl_thd_block_def kassert_def)

text \<open>A thread that is woken up exactly at the end of its period is told that no period has elapsed.\<close>

lemma periodic_jitter_exact: "sl_wakeup_cycs x = sl_periodic_cycs x \<Longrightarrow> sl_thd_block_periodic_jitter x = 0"
  by (simp add: sl_thd_block_periodic_jitter_def)

end
