(* ===== verification/Endpoints.thy ===== *)
theory Endpoints
  imports Capinv
begin

text \<open>
  Receive end-points over sequences of activations and deactivations (\<^verbatim>\<open>inv.h\<close>, \<^verbatim>\<open>capinv.c\<close>): the hierarchy of
  notifications stays a forest of bounded depth, so that a notification travels up to a root and ends; and what
  happens when a deactivation removes the end-point of a thread and not its capability.
\<close>

section \<open>Notification hierarchies\<close>

text \<open>
  \<open>rk\<close> gives every bound end-point its depth in the hierarchy of notifications: the end-point it
  notifies is itself, none, or a bound one that is less deep, and no end-point is deeper than the bound
  that \<^verbatim>\<open>arcv_activate\<close> enforces.
\<close>

definition notif_ranked :: "(addr \<Rightarrow> nat) \<Rightarrow> kst \<Rightarrow> bool" where
  "notif_ranked rk s \<longleftrightarrow> (\<forall>t. thd_bound2rcvcap s t \<longrightarrow> rk t < ARCV_NOTIF_DEPTH \<and>
     (let n = arcv_thd_notif s t in n = 0 \<or> n = t \<or> thd_bound2rcvcap s n \<and> rk n < rk t))"

lemma evt_enqueue_thds [simp]: "thds (thd_rcvcap_evt_enqueue q t s) = thds s"
  by (simp add: thd_rcvcap_evt_enqueue_def upd_lst_def)

lemma evt_enqueue_lst: "thd_rcvcap_evt_enqueue q t s = s\<lparr>lst := lst (thd_rcvcap_evt_enqueue q t s)\<rparr>"
  by (simp add: thd_rcvcap_evt_enqueue_def upd_lst_def)

lemma notif_ranked_cong: "thds s' = thds s \<Longrightarrow> notif_ranked rk s' = notif_ranked rk s"
  by (simp add: notif_ranked_def thd_bound2rcvcap_def arcv_thd_notif_def)

lemma notify_loop_ranked:
  assumes "notif_ranked rk s" "thd_bound2rcvcap s prev" "curr_notif = arcv_thd_notif s prev" "depth + rk prev \<le> ARCV_NOTIF_DEPTH"
  shows "\<exists>h. notify_loop depth curr_notif prev s = Some (s\<lparr>lst := h\<rparr>)"
  using assms
proof (induction "rk prev" arbitrary: prev curr_notif depth s rule: less_induct)
  case less
  show ?case
  proof (cases "curr_notif \<noteq> 0 \<and> curr_notif \<noteq> prev")
    case False
    then have "notify_loop depth curr_notif prev s = Some (s\<lparr>lst := lst s\<rparr>)" by (subst notify_loop.simps) auto
    then show ?thesis by blast
  next
    case True
    then have n: "thd_bound2rcvcap s curr_notif" "rk curr_notif < rk prev"
      using less.prems(1-3) unfolding notif_ranked_def by (auto simp: Let_def)
    then have d: "depth < ARCV_NOTIF_DEPTH" using less.prems(4) by linarith
    obtain h1 where s1: "thd_rcvcap_evt_enqueue curr_notif prev s = s\<lparr>lst := h1\<rparr>" using evt_enqueue_lst by blast
    have "notif_ranked rk (s\<lparr>lst := h1\<rparr>)" using less.prems(1) notif_ranked_cong [of "s\<lparr>lst := h1\<rparr>" s] by simp
    moreover have "thd_bound2rcvcap (s\<lparr>lst := h1\<rparr>) curr_notif" using n(1) by (simp add: thd_bound2rcvcap_def)
    moreover have "depth + 1 + rk curr_notif \<le> ARCV_NOTIF_DEPTH" using n(2) less.prems(4) by linarith
    ultimately obtain h where h: "notify_loop (depth + 1) (arcv_thd_notif (s\<lparr>lst := h1\<rparr>) curr_notif) curr_notif (s\<lparr>lst := h1\<rparr>) =
        Some (s\<lparr>lst := h1\<rparr>\<lparr>lst := h\<rparr>)"
      using less.hyps [OF n(2) _ _ refl] by blast
    have "notify_loop depth curr_notif prev s = (if \<not> st_rcving (thds (s\<lparr>lst := h1\<rparr>) curr_notif) then Some (s\<lparr>lst := h1\<rparr>)
        else notify_loop (depth + 1) (arcv_thd_notif (s\<lparr>lst := h1\<rparr>) curr_notif) curr_notif (s\<lparr>lst := h1\<rparr>))"
      using True d by (subst notify_loop.simps) (simp add: Let_def s1)
    then show ?thesis unfolding h by (cases "st_rcving (thds (s\<lparr>lst := h1\<rparr>) curr_notif)") auto
  qed
qed

lemma rcvcap_upd:
  "rcvcap (thds (upd_rcvcap t f s) u) = (if u = t then f (rcvcap (thds s t)) else rcvcap (thds s u))"
  "rcvcap (thds (thd_scheduler_set t p s) u) = rcvcap (thds s u)"
  "thds (tcap_ref_take tc s) = thds s" "thds (tcap_promote tc t s) = thds s" "thds (s\<lparr>arcvs := a\<rparr>) = thds s"
  by (simp_all add: upd_defs thd_scheduler_set_def tcap_ref_take_def tcap_promote_def)

lemma ep_op_sel:
  "mem (upd_rcvcap t f s) = mem s" "hdr (upd_rcvcap t f s) = hdr s" "tbls (upd_rcvcap t f s) = tbls s" "arcvs (upd_rcvcap t f s) = arcvs s"
  "mem (tcap_ref_take tc s) = mem s" "hdr (tcap_ref_take tc s) = hdr s" "tbls (tcap_ref_take tc s) = tbls s" "arcvs (tcap_ref_take tc s) = arcvs s"
  "mem (tcap_promote tc t s) = mem s" "hdr (tcap_promote tc t s) = hdr s" "tbls (tcap_promote tc t s) = tbls s" "arcvs (tcap_promote tc t s) = arcvs s"
  "mem (thd_scheduler_set t p s) = mem s" "hdr (thd_scheduler_set t p s) = hdr s" "tbls (thd_scheduler_set t p s) = tbls s"
  "arcvs (thd_scheduler_set t p s) = arcvs s"
  by (simp_all add: upd_defs thd_scheduler_set_def tcap_ref_take_def tcap_promote_def)

lemma arcv_setup_eq:
  assumes "arcv_setup arcv thd tc notif s = Some s'"
  shows "s' = (let s1 = thd_scheduler_set thd notif (upd_rcvcap thd (\<lambda>rc. rc\<lparr>rcvcap_thd_notif := notif\<rparr>)
        (s\<lparr>arcvs := (arcvs s)(arcv := (arcvs s arcv)\<lparr>ar_thd := thd\<rparr>)\<rparr>));
      s2 = (if notif \<noteq> 0 then upd_rcvcap notif (\<lambda>rc. rc\<lparr>rc_refcnt := rc_refcnt rc + 1\<rparr>) s1 else s1)
    in tcap_promote tc thd (tcap_ref_take tc (upd_rcvcap thd (\<lambda>rc. rc\<lparr>rcvcap_tcap := tc\<rparr>) (upd_rcvcap thd (\<lambda>rc. rc\<lparr>isbound := True\<rparr>) s2))))"
    and "thd \<noteq> 0" "\<not> isbound (rcvcap (thds s thd))"
  using assms by (auto simp: arcv_setup_def kassert_bind Let_def thd_bound2rcvcap_def thd_rcvcap_take_def split: if_splits)

lemma arcv_setup_state:
  assumes "arcv_setup arcv thd tc notif s = Some s'"
  shows "mem s' = mem s" "hdr s' = hdr s" "tbls s' = tbls s" "arcvs s' = (arcvs s)(arcv := (arcvs s arcv)\<lparr>ar_thd := thd\<rparr>)"
    "rc_refcnt (rcvcap (thds s' t)) = rc_refcnt (rcvcap (thds s t)) + (if t = notif \<and> notif \<noteq> 0 then 1 else 0)"
    "rcvcap_thd_notif (rcvcap (thds s' t)) = (if t = thd then notif else rcvcap_thd_notif (rcvcap (thds s t)))"
    "isbound (rcvcap (thds s' t)) \<longleftrightarrow> t = thd \<or> isbound (rcvcap (thds s t))"
  unfolding arcv_setup_eq(1) [OF assms] Let_def by (simp_all add: ep_op_sel rcvcap_upd)

section \<open>Capabilities for end-points\<close>

text \<open>A slot is in use when it is aligned and its bit in the map of its cache-line is set.\<close>

definition live_slot :: "'z kmem_scheme \<Rightarrow> addr \<Rightarrow> bool" where
  "live_slot s a \<longleftrightarrow> 16 dvd unat a \<and> bit (h_amap (hdr s (CT_MSK a 6))) (slot_ix a)"

definition ep :: "'z kmem_scheme \<Rightarrow> addr \<Rightarrow> bool" where
  "ep s a \<longleftrightarrow> live_slot s a \<and> h_type (hdr s a) = CAP_ARCV"

lemma captbl_lkup_table: "captbl_lkup s t c = Some a \<Longrightarrow> t \<noteq> 0"
  by (auto simp: captbl_lkup_def captbl_lkup_lvl_def ert_lookup_def kassert_bind lkup_addr_def)

lemma mask_lt_maxid: "(c :: u32) AND 0xFFFF < captbl_maxid"
proof -
  have "c AND 0xFFFF = take_bit 16 c" by (simp add: take_bit_eq_mask mask_eq_exp_minus_1)
  then have "unat (c AND 0xFFFF) < 2 ^ 16" by (simp only: unsigned_take_bit_eq take_bit_nat_less_exp)
  then show ?thesis by (simp add: captbl_maxid word_less_nat_alt)
qed

lemma lkup_live:
  assumes "lines_ok s" "captbl_lkup s t c = Some a" "a \<noteq> 0"
  shows "live_slot s a"
proof -
  have "captbl_lkup s t (c AND 0xFFFF) = Some a" using assms(2) captbl_lkup_masked by metis
  note nz = captbl_lkup_nonzero [OF this assms(3) captbl_lkup_table [OF assms(2)] mask_lt_maxid]
  let ?q = "captbl_slot s t (c AND 0xFFFF)"
  let ?l = "hdr s (CT_MSK ?q 6)"
  have sz: "h_size ?l \<noteq> CAP_SZ_ERR" using assms(1) by (simp add: lines_ok_def line_ok_def)
  have a: "a = CT_MSK ?q (cap_sz_code (h_size ?l) + 4)" "bit (h_amap ?l) (ent_ix (h_size ?l) (slot_ix ?q))"
    using nz(1) assms(3) getleaf_lines_ok [OF assms(1), of ?q] by (auto simp: Let_def split: if_splits)
  have "CT_MSK a 6 = CT_MSK ?q 6" "slot_ix a = ent_ix (h_size ?l) (slot_ix ?q)"
    unfolding a(1) using slot_ix_ent [OF sz] CT_MSK_CT_MSK [OF cap_code_le [OF sz]] by auto
  then show ?thesis using a(2) getleaf_aligned [OF assms(1) nz(1)] by (simp add: live_slot_def)
qed

lemma ep_added:
  assumes "16 dvd unat p"
  shows "ep (added p CAP_ARCV s) a \<longleftrightarrow> ep s a \<or> a = p"
proof (cases "a = p")
  case True
  then show ?thesis using assms by (simp add: ep_def live_slot_def added_hdr bit_or_iff bit_exp_iff)
next
  case False
  have "slot_ix a \<noteq> slot_ix p" if "16 dvd unat a" "CT_MSK a 6 = CT_MSK p 6"
    using aligned_slot_eq [OF that(1) assms _ that(2)] False by blast
  then show ?thesis using False added_hdr(1) [OF False, of CAP_ARCV s] by (auto simp: ep_def live_slot_def bit_or_iff bit_exp_iff)
qed

lemma ep_removed:
  assumes "16 dvd unat p"
  shows "ep (removed CAP_FREE p lid s) a \<longleftrightarrow> ep s a \<and> a \<noteq> p"
proof (cases "a = p")
  case True
  then show ?thesis by (simp add: ep_def removed_hdr)
next
  case False
  have ne: "slot_ix a \<noteq> slot_ix p" if "16 dvd unat a" "CT_MSK a 6 = CT_MSK p 6"
    using aligned_slot_eq [OF that(1) assms _ that(2)] False by blast
  then have live: "live_slot (removed CAP_FREE p lid s) a = live_slot s a" unfolding live_slot_def removed_bit by blast
  show ?thesis
  proof (cases "live_slot s a")
    case True
    have "a \<noteq> CT_MSK p 6 \<or> h_amap (hdr s (CT_MSK p 6)) AND NOT (push_bit (slot_ix p) 1) \<noteq> 0"
    proof (rule ccontr)
      assume "\<not> ?thesis"
      then have a: "a = CT_MSK p 6" and z: "h_amap (hdr s (CT_MSK p 6)) AND NOT (push_bit (slot_ix p) 1) = 0" by simp_all
      then have m: "CT_MSK a 6 = CT_MSK p 6" by (simp add: CT_MSK_CT_MSK)
      have "\<not> bit (h_amap (hdr (removed CAP_FREE p lid s) (CT_MSK a 6))) (slot_ix a)" using m z by simp
      then show False using True live by (simp add: live_slot_def)
    qed
    from removed_hdr(1) [OF False this] show ?thesis using False live by (simp add: ep_def)
  qed (simp add: ep_def live)
qed

text \<open>Tables are aligned, and every table capability has one.\<close>

definition tables_ok :: "'z kmem_scheme \<Rightarrow> bool" where
  "tables_ok s \<longleftrightarrow> lines_ok s \<and> (\<forall>c. h_type (hdr s c) = CAP_CAPTBL \<longrightarrow> tbl (tbls s c) \<noteq> 0 \<and> captbl_aligned s (tbl (tbls s c)))"

section \<open>The invariant\<close>

abbreviation "ep_thd s a \<equiv> ar_thd (arcvs s a)"
abbreviation "ep_depth s a \<equiv> unat (ar_depth (arcvs s a))"

definition notified_by :: "kst \<Rightarrow> addr \<Rightarrow> addr set" where
  "notified_by s t = {u. thd_bound2rcvcap s u \<and> arcv_thd_notif s u = t}"

text \<open>
  Every end-point capability belongs to a bound thread, every bound thread has one; the thread that is notified is the
  thread itself or that of a less deep end-point; and the reference count of a thread is the number of end-points
  that notify it.
\<close>

definition ep_ok :: "kst \<Rightarrow> addr \<Rightarrow> bool" where
  "ep_ok s a \<longleftrightarrow> thd_bound2rcvcap s (ep_thd s a) \<and> ep_depth s a < ARCV_NOTIF_DEPTH \<and>
     (arcv_thd_notif s (ep_thd s a) = ep_thd s a \<or>
      (\<exists>b. ep s b \<and> ep_thd s b = arcv_thd_notif s (ep_thd s a) \<and> ep_depth s b < ep_depth s a))"

definition eps_inv :: "kst \<Rightarrow> bool" where
  "eps_inv s \<longleftrightarrow> tables_ok s \<and> (\<forall>a. ep s a \<longrightarrow> ep_ok s a) \<and> inj_on (ar_thd \<circ> arcvs s) {a. ep s a} \<and>
     (\<forall>t. thd_bound2rcvcap s t \<longrightarrow> t \<noteq> 0 \<and> (\<exists>a. ep s a \<and> ep_thd s a = t)) \<and>
     (\<forall>t. rc_refcnt (rcvcap (thds s t)) = of_nat (card (notified_by s t)))"

text \<open>Operations that leave the end-points alone.\<close>

definition eps_same :: "kst \<Rightarrow> kst \<Rightarrow> bool" where
  "eps_same s s' \<longleftrightarrow> tables_ok s' \<and> (\<forall>a. ep s' a = ep s a) \<and> (\<forall>a. ep s a \<longrightarrow> arcvs s' a = arcvs s a) \<and>
     (\<forall>t. let r = rcvcap (thds s t); r' = rcvcap (thds s' t)
          in isbound r' = isbound r \<and> rcvcap_thd_notif r' = rcvcap_thd_notif r \<and> rc_refcnt r' = rc_refcnt r)"

lemma eps_inv_same:
  assumes "eps_inv s" "eps_same s s'"
  shows "eps_inv s'" "notified_by s' = notified_by s" "thd_bound2rcvcap s' = thd_bound2rcvcap s"
proof -
  have b: "thd_bound2rcvcap s' t = thd_bound2rcvcap s t" "arcv_thd_notif s' t = arcv_thd_notif s t"
    "rc_refcnt (rcvcap (thds s' t)) = rc_refcnt (rcvcap (thds s t))" for t
    using assms(2) by (simp_all add: eps_same_def Let_def thd_bound2rcvcap_def arcv_thd_notif_def)
  have e: "tables_ok s'" "ep s' a = ep s a" "ep s a \<Longrightarrow> arcvs s' a = arcvs s a" for a using assms(2) by (simp_all add: eps_same_def)
  show n: "notified_by s' = notified_by s" by (simp add: notified_by_def b fun_eq_iff)
  show "thd_bound2rcvcap s' = thd_bound2rcvcap s" using b(1) by (simp add: fun_eq_iff)
  have "ep_ok s' a" if "ep s a" for a
  proof -
    have "ep_ok s a" using assms(1) that by (simp add: eps_inv_def)
    then show ?thesis using e that by (auto simp: ep_ok_def b)
  qed
  moreover have "inj_on (ar_thd \<circ> arcvs s') {a. ep s' a}"
    using assms(1) e(2,3) by (auto simp: eps_inv_def inj_on_def)
  moreover have "\<exists>a. ep s' a \<and> ep_thd s' a = t" if "thd_bound2rcvcap s t" for t
    using assms(1) that e(2,3) unfolding eps_inv_def by metis
  ultimately show "eps_inv s'" using assms(1) e(1,2) by (simp add: eps_inv_def b n)
qed

text \<open>The effects of \<^verbatim>\<open>__arcv_teardown\<close>.\<close>

lemma arcv_teardown_state:
  assumes "arcv_teardown arcv thd s = Some (0, s')"
  shows "mem s' = mem s" "hdr s' = hdr s" "tbls s' = tbls s" "arcvs s' = arcvs s"
    "isbound (rcvcap (thds s' t)) \<longleftrightarrow> t \<noteq> thd \<and> isbound (rcvcap (thds s t))"
    "rcvcap_thd_notif (rcvcap (thds s' t)) = rcvcap_thd_notif (rcvcap (thds s t))"
    "rc_refcnt (rcvcap (thds s' t)) = rc_refcnt (rcvcap (thds s t)) -
      (if t = rcvcap_thd_notif (rcvcap (thds s thd)) \<and> t \<noteq> 0 then 1 else 0)"
  using assms
  by (auto simp: arcv_teardown_def kassert_bind Let_def thd_rcvcap_release_def upd_defs tcap_ref_release_def split: if_splits)

section \<open>Activation and deactivation\<close>

lemma notified_card_bind:
  assumes "\<And>u. thd_bound2rcvcap s' u \<longleftrightarrow> u = thd \<or> thd_bound2rcvcap s u" "\<not> thd_bound2rcvcap s thd"
    "\<And>u. arcv_thd_notif s' u = (if u = thd then notif else arcv_thd_notif s u)"
  shows "card (notified_by s' t) = card (notified_by s t) + (if t = notif then 1 else 0)"
proof -
  have "notified_by s' t = (if t = notif then insert thd (notified_by s t) else notified_by s t)" "thd \<notin> notified_by s t"
    using assms by (auto simp: notified_by_def)
  moreover have "finite (notified_by s t)" by (rule finite_subset [OF subset_UNIV]) simp
  ultimately show ?thesis by auto
qed

text \<open>A new end-point in slot \<open>p\<close> for an unbound thread.\<close>

lemma eps_inv_bind:
  assumes inv: "eps_inv s" and tab: "tables_ok s'" and p: "\<not> ep s p" and eps: "\<And>a. ep s' a \<longleftrightarrow> ep s a \<or> a = p"
    and arc: "\<And>a. a \<noteq> p \<Longrightarrow> arcvs s' a = arcvs s a" "ep_thd s' p = thd" "ep_depth s' p < ARCV_NOTIF_DEPTH"
    and nb: "\<not> thd_bound2rcvcap s thd" "thd \<noteq> 0"
    and bnd: "\<And>u. thd_bound2rcvcap s' u \<longleftrightarrow> u = thd \<or> thd_bound2rcvcap s u"
    and ntf: "\<And>u. arcv_thd_notif s' u = (if u = thd then notif else arcv_thd_notif s u)"
    and ref: "\<And>t. rc_refcnt (rcvcap (thds s' t)) = rc_refcnt (rcvcap (thds s t)) + (if t = notif \<and> notif \<noteq> 0 then 1 else 0)"
    and up: "notif = thd \<or> (\<exists>b. ep s b \<and> ep_thd s b = notif \<and> ep_depth s b < ep_depth s' p)"
  shows "eps_inv s'"
proof -
  have old: "ep_ok s a" "ep_thd s a \<noteq> thd" "a \<noteq> p" if "ep s a" for a
    using inv that nb(1) p by (auto simp: eps_inv_def ep_ok_def)
  have "ep_ok s' p"
    using up arc old(3) by (auto simp: ep_ok_def bnd ntf eps)
  moreover have "ep_ok s' a" if a: "ep s a" for a
  proof -
    have "thd_bound2rcvcap s' (ep_thd s' a)" "ep_depth s' a < ARCV_NOTIF_DEPTH" "arcv_thd_notif s' (ep_thd s' a) = arcv_thd_notif s (ep_thd s a)"
      "arcvs s' a = arcvs s a" using old [OF a] arc(1) by (simp_all add: ep_ok_def bnd ntf)
    moreover have "arcv_thd_notif s (ep_thd s a) = ep_thd s a \<or> (\<exists>b. ep s' b \<and> ep_thd s' b = arcv_thd_notif s (ep_thd s a) \<and> ep_depth s' b < ep_depth s a)"
      using old(1) [OF a] old(3) arc(1) eps unfolding ep_ok_def by metis
    ultimately show ?thesis by (simp add: ep_ok_def)
  qed
  moreover have "inj_on (ar_thd \<circ> arcvs s') {a. ep s' a}"
  proof -
    have "a = b" if "ep s' a" "ep s' b" "ep_thd s' a = ep_thd s' b" for a b
      using that eps old(2,3) arc inv unfolding eps_inv_def inj_on_def comp_def by (metis mem_Collect_eq)
    then show ?thesis by (simp add: inj_on_def)
  qed
  moreover have "t \<noteq> 0 \<and> (\<exists>a. ep s' a \<and> ep_thd s' a = t)" if "thd_bound2rcvcap s' t" for t
    using that bnd nb(2) arc eps old(3) inv unfolding eps_inv_def by metis
  moreover have "notif \<noteq> 0" using up nb(2) inv by (auto simp: eps_inv_def ep_ok_def)
  moreover have "rc_refcnt (rcvcap (thds s t)) = of_nat (card (notified_by s t))" for t using inv by (simp add: eps_inv_def)
  ultimately show ?thesis
    using tab eps by (auto simp: eps_inv_def ref notified_card_bind [OF bnd nb(1) ntf])
qed

lemma tables_ok_added:
  assumes "tables_ok s" "captbl_cap2sz type \<noteq> CAP_SZ_ERR" "type \<noteq> CAP_CAPTBL"
    "(h_amap (hdr s (CT_MSK p 6)) OR push_bit (slot_ix p) 1) AND NOT (cap_mask (captbl_cap2sz type)) = 0"
  shows "tables_ok (added p type s)"
proof -
  have "h_type (hdr s c) = CAP_CAPTBL" if "h_type (hdr (added p type s) c) = CAP_CAPTBL" for c
    using that assms(3) added_hdr(1) [of c p type s] added_hdr(2) [of p type s] by (cases "c = p") simp_all
  then show ?thesis using assms lines_ok_added [of s type p] by (auto simp: tables_ok_def captbl_aligned_def)
qed

lemma tables_ok_removed:
  assumes "tables_ok s" "m \<noteq> CAP_CAPTBL" shows "tables_ok (removed m p lid s)"
proof -
  have "h_type (hdr s c) = CAP_CAPTBL" if "h_type (hdr (removed m p lid s) c) = CAP_CAPTBL" for c
    using that assms(2) by (auto simp: removed_def Let_def split: if_splits)
  then show ?thesis using assms lines_ok_removed [of s m p lid] by (auto simp: tables_ok_def captbl_aligned_def)
qed

lemma tables_ok_cong: "mem s' = mem s \<Longrightarrow> hdr s' = hdr s \<Longrightarrow> tbls s' = tbls s \<Longrightarrow> tables_ok s' = tables_ok s"
  by (simp add: tables_ok_def lines_ok_def captbl_aligned_def)

lemma ep_cong: "hdr s' = hdr s \<Longrightarrow> ep s' = ep s"
  by (simp add: ep_def live_slot_def fun_eq_iff)

text \<open>What a call of \<^verbatim>\<open>arcv_activate\<close> that changes the state has done.\<close>

lemma arcv_activate_cases:
  assumes "arcv_activate E t cap capin comp_cap thd_cap tcap_cap arcv_cap init s = Some (r, s')" "tables_ok s"
  obtains (unchanged) "s' = s"
  | (bound) ct p ret thd tc q s1 s2 where "h_type (hdr s ct) = CAP_CAPTBL" "\<not> thd_bound2rcvcap s thd"
      "captbl_add (ke_tsc E 0) (tbl (tbls s ct)) capin CAP_ARCV s = Some ((p, ret), s1)" "p \<noteq> 0"
      "init \<or> captbl_lkup s t arcv_cap = Some q \<and> q \<noteq> 0 \<and> h_type (hdr s q) = CAP_ARCV \<and> unat (ar_depth (arcvs s q) + 1) < ARCV_NOTIF_DEPTH"
      "hdr s2 = hdr s1" "mem s2 = mem s1" "tbls s2 = tbls s1" "thds s2 = thds s1" "\<And>a. a \<noteq> p \<Longrightarrow> arcvs s2 a = arcvs s1 a"
      "ar_depth (arcvs s2 p) = (if init then 0 else ar_depth (arcvs s q) + 1)"
      "arcv_setup p thd tc (if init then thd else ep_thd s2 q) s2 = Some s'"
proof (cases "s' = s")
  case False
  note act = assms(1) [unfolded arcv_activate_def]
  obtain compc where 1: "captbl_lkup s t comp_cap = Some compc" using act by (cases "captbl_lkup s t comp_cap") auto
  have 2: "CAP_TYPECHK s compc CAP_COMP" using act 1 False by (cases "CAP_TYPECHK s compc CAP_COMP") auto
  obtain thdc where 3: "captbl_lkup s t thd_cap = Some thdc" using act 1 2 by (cases "captbl_lkup s t thd_cap") auto
  have 4: "CAP_TYPECHK_CORE E s thdc CAP_THD (ct_cpuid (cthds s thdc))"
    using act 1 2 3 False by (cases "CAP_TYPECHK_CORE E s thdc CAP_THD (ct_cpuid (cthds s thdc))") auto
  let ?thd = "ct_t (cthds s thdc)"
  obtain tcapc where 5: "captbl_lkup s t tcap_cap = Some tcapc" using act 1 2 3 4 by (cases "captbl_lkup s t tcap_cap") auto
  have 6: "CAP_TYPECHK_CORE E s tcapc CAP_TCAP (cc_cpuid (ctcaps s tcapc))"
    using act 1 2 3 4 5 False by (cases "CAP_TYPECHK_CORE E s tcapc CAP_TCAP (cc_cpuid (ctcaps s tcapc))") auto
  have 7: "\<not> thd_bound2rcvcap s ?thd" using act 1 2 3 4 5 6 False by (cases "thd_bound2rcvcap s ?thd") auto
  note facts = 1 2 3 4 5 6 7
  have 8: "rcvcap_tcap (rcvcap (thds s ?thd)) = 0"
    using act facts by (cases "rcvcap_tcap (rcvcap (thds s ?thd)) = 0") (auto simp: kassert_def)
  obtain q where 9: "(if init then Some 0 else captbl_lkup s t arcv_cap) = Some q"
    using act facts 8 by (cases "if init then Some 0 else captbl_lkup s t arcv_cap") (auto simp: kassert_def)
  define depth where "depth = (if init then 0 else ar_depth (arcvs s q) + 1)"
  have run: "(if \<not> init \<and> \<not> CAP_TYPECHK_CORE E s q CAP_ARCV (ar_cpuid (arcvs s q)) then Some (- EINVAL, s)
      else if \<not> init \<and> ARCV_NOTIF_DEPTH \<le> unat depth then Some (- EINVAL, s)
      else cap_capactivate_pre E t cap capin CAP_ARCV s \<bind> (\<lambda>((arcvc, ret), sa).
        if arcvc = 0 then Some (ret, sa)
        else let sb = sa\<lparr>arcvs := (arcvs sa)(arcvc := (arcvs sa arcvc)\<lparr>ar_comp_info := co_info (comps sa compc),
                   ar_epoch := 0, ar_cpuid := ke_cpu E, ar_depth := depth\<rparr>)\<rparr>
             in arcv_setup arcvc ?thd (cc_tcap (ctcaps sb tcapc)) (if init then ?thd else ep_thd sb q) sb \<bind> (\<lambda>sb. Some (0, sb)))) = Some (r, s')"
    using act facts 8 9 unfolding depth_def by (simp only: bind.bind_lunit Let_def not_False_eq_True not_True_eq_False if_False if_True kassert_def simp_thms)
  have 10: "init \<or> CAP_TYPECHK_CORE E s q CAP_ARCV (ar_cpuid (arcvs s q))" "init \<or> unat depth < ARCV_NOTIF_DEPTH"
    using run False by (auto simp: not_le split: if_splits)
  obtain ct where ct: "captbl_lkup s t cap = Some ct"
    using run 10 by (cases "captbl_lkup s t cap") (auto simp: cap_capactivate_pre_def)
  have ct': "CAP_TYPECHK s ct CAP_CAPTBL" "\<not> is_frozen s ct"
    using run 10 ct False by (auto simp: cap_capactivate_pre_def split: if_splits)
  obtain p ret s1 where add: "captbl_add (ke_tsc E 0) (tbl (tbls s ct)) capin CAP_ARCV s = Some ((p, ret), s1)"
    using run 10 ct ct' by (cases "captbl_add (ke_tsc E 0) (tbl (tbls s ct)) capin CAP_ARCV s") (auto simp: cap_capactivate_pre_def split: if_splits)
  have t0: "tbl (tbls s ct) \<noteq> 0" using assms(2) ct'(1) by (simp add: tables_ok_def CAP_TYPECHK_def)
  have p: "p \<noteq> 0"
  proof
    assume "p = 0"
    then have "s' = s1" "s1 = s" using run 10 ct ct' add captbl_add_failure [of "ke_tsc E 0" "tbl (tbls s ct)" capin CAP_ARCV s ret s1] t0
      by (auto simp: cap_capactivate_pre_def split: if_splits)
    then show False using False by simp
  qed
  define s2 where "s2 = s1\<lparr>arcvs := (arcvs s1)(p := (arcvs s1 p)\<lparr>ar_comp_info := co_info (comps s1 compc),
    ar_epoch := 0, ar_cpuid := ke_cpu E, ar_depth := depth\<rparr>)\<rparr>"
  have "arcv_setup p ?thd (cc_tcap (ctcaps s2 tcapc)) (if init then ?thd else ep_thd s2 q) s2 = Some s'"
    using run 10 ct ct' add p by (auto simp: cap_capactivate_pre_def bind_eq_Some_conv s2_def Let_def split: if_splits)
  then show thesis
    using bound [of ct ?thd p ret s1 q s2 "cc_tcap (ctcaps s2 tcapc)"] ct' 7 add p 9 10
    by (auto simp: CAP_TYPECHK_def CAP_TYPECHK_CORE_def s2_def depth_def split: if_splits)
qed (use unchanged in blast)

lemma eps_inv_activate:
  assumes inv: "eps_inv s" and act: "arcv_activate E t cap capin comp_cap thd_cap tcap_cap arcv_cap init s = Some (r, s')"
  shows "eps_inv s'" "card {u. thd_bound2rcvcap s' u} \<le> card {u. thd_bound2rcvcap s u} + 1"
proof -
  have tab: "tables_ok s" using inv by (simp add: eps_inv_def)
  have "eps_inv s' \<and> card {u. thd_bound2rcvcap s' u} \<le> card {u. thd_bound2rcvcap s u} + 1"
    using act tab
  proof (cases rule: arcv_activate_cases)
    case unchanged
    then show ?thesis using inv by simp
  next
    case (bound ct p ret thd tc q s1 s2)
    have t0: "tbl (tbls s ct) \<noteq> 0" "captbl_aligned s (tbl (tbls s ct))" using tab bound(1) by (simp_all add: tables_ok_def)
    note add = bound(3,4) t0(1)
    have s1: "s1 = added p CAP_ARCV s" by (rule captbl_add_state [OF add])
    have p16: "16 dvd unat p" unfolding captbl_add_slot [OF add] by (rule captbl_slot_aligned [OF t0(2)])
    have free: "\<not> ep s p" using captbl_add_free [OF add] by (simp add: ep_def live_slot_def)
    have m: "thds s1 = thds s" "arcvs s1 = arcvs s" unfolding s1 added_def Let_def wr_hdr_def by (simp_all split: if_splits)
    note st = arcv_setup_state [OF bound(12)]
    have hdr: "hdr s' = hdr (added p CAP_ARCV s)" using st(2) bound(6) s1 by simp
    have eps: "ep s' a \<longleftrightarrow> ep s a \<or> a = p" for a using ep_cong [OF hdr] ep_added [OF p16] by metis
    have tab': "tables_ok s'"
    proof -
      have "tables_ok (added p CAP_ARCV s)" using tables_ok_added [OF tab _ _ captbl_add_mask [OF add]] by simp
      moreover have "mem s' = mem (added p CAP_ARCV s)" "tbls s' = tbls (added p CAP_ARCV s)" using st(1,3) bound(7,8) s1 by simp_all
      ultimately show ?thesis using hdr by (simp add: tables_ok_def lines_ok_def captbl_aligned_def)
    qed
    have arc: "a \<noteq> p \<Longrightarrow> arcvs s' a = arcvs s a" "ep_thd s' p = thd" "ar_depth (arcvs s' p) = (if init then 0 else ar_depth (arcvs s q) + 1)" for a
      using st(4) bound(10,11) m(2) by simp_all
    have q: "ep s q" "q \<noteq> p" if "\<not> init" using that bound(5) free lkup_live tab by (auto simp: ep_def tables_ok_def)
    then have dq: "unat (ar_depth (arcvs s q) + 1) = ep_depth s q + 1" if "\<not> init"
    proof -
      have "ep_depth s q < 8" using q(1) [OF that] inv by (simp add: eps_inv_def ep_ok_def)
      then show ?thesis by (simp add: unat_word_ariths)
    qed
    have bnd: "thd_bound2rcvcap s' u \<longleftrightarrow> u = thd \<or> thd_bound2rcvcap s u" for u
      using st(7) bound(9) m(1) by (simp add: thd_bound2rcvcap_def)
    have "eps_inv s'"
    proof (rule eps_inv_bind [OF inv tab' free eps arc(1,2)])
      show "ep_depth s' p < ARCV_NOTIF_DEPTH" using arc(3) bound(5) by auto
      show "\<not> thd_bound2rcvcap s thd" "thd \<noteq> 0" by (rule bound(2), rule arcv_setup_eq(2) [OF bound(12)])
      show "thd_bound2rcvcap s' u \<longleftrightarrow> u = thd \<or> thd_bound2rcvcap s u" for u by (rule bnd)
      show "arcv_thd_notif s' u = (if u = thd then if init then thd else ep_thd s2 q else arcv_thd_notif s u)" for u
        using st(6) bound(9) m(1) by (simp add: arcv_thd_notif_def)
      show "rc_refcnt (rcvcap (thds s' t)) = rc_refcnt (rcvcap (thds s t)) +
          (if t = (if init then thd else ep_thd s2 q) \<and> (if init then thd else ep_thd s2 q) \<noteq> 0 then 1 else 0)" for t
        using st(5) bound(9) m(1) by simp
      show "(if init then thd else ep_thd s2 q) = thd \<or> (\<exists>b. ep s b \<and> ep_thd s b = (if init then thd else ep_thd s2 q) \<and> ep_depth s b < ep_depth s' p)"
        using q dq arc(3) bound(10) m(2) by (cases init) auto
    qed
    moreover have "{u. thd_bound2rcvcap s' u} = insert thd {u. thd_bound2rcvcap s u}" using bnd by auto
    moreover have "finite {u. thd_bound2rcvcap s u}" by (rule finite_subset [OF subset_UNIV]) simp
    ultimately show ?thesis by (simp add: card_insert_if)
  qed
  then show "eps_inv s'" "card {u. thd_bound2rcvcap s' u} \<le> card {u. thd_bound2rcvcap s u} + 1" by simp_all
qed

text \<open>The end-point in slot \<open>p\<close> of a thread that no other end-point notifies is removed.\<close>

lemma eps_inv_unbind:
  assumes inv: "eps_inv s" and tab: "tables_ok s'" and p: "ep s p" and eps: "\<And>a. ep s' a \<longleftrightarrow> ep s a \<and> a \<noteq> p"
    and arc: "arcvs s' = arcvs s" and none: "notified_by s (ep_thd s p) = {}"
    and bnd: "\<And>u. thd_bound2rcvcap s' u \<longleftrightarrow> u \<noteq> ep_thd s p \<and> thd_bound2rcvcap s u"
    and ntf: "\<And>u. arcv_thd_notif s' u = arcv_thd_notif s u"
    and ref: "\<And>t. rc_refcnt (rcvcap (thds s' t)) = rc_refcnt (rcvcap (thds s t)) - (if t = arcv_thd_notif s (ep_thd s p) \<and> t \<noteq> 0 then 1 else 0)"
  shows "eps_inv s'"
proof -
  let ?thd = "ep_thd s p" and ?n = "arcv_thd_notif s (ep_thd s p)"
  have pb: "thd_bound2rcvcap s ?thd" and ok: "\<And>a. ep s a \<Longrightarrow> ep_ok s a" using inv p by (auto simp: eps_inv_def ep_ok_def)
  have other: "ep_thd s a \<noteq> ?thd" if "ep s a" "a \<noteq> p" for a
    using that inv p by (auto simp: eps_inv_def inj_on_def)
  have nt: "arcv_thd_notif s u \<noteq> ?thd" if "thd_bound2rcvcap s u" for u using none that by (auto simp: notified_by_def)
  have "ep_ok s' a" if a: "ep s a" "a \<noteq> p" for a
  proof -
    have o: "thd_bound2rcvcap s (ep_thd s a)" "ep_depth s a < ARCV_NOTIF_DEPTH"
      "arcv_thd_notif s (ep_thd s a) = ep_thd s a \<or> (\<exists>b. ep s b \<and> ep_thd s b = arcv_thd_notif s (ep_thd s a) \<and> ep_depth s b < ep_depth s a)"
      using ok [OF a(1)] by (simp_all add: ep_ok_def)
    have "b \<noteq> p" if "ep_thd s b = arcv_thd_notif s (ep_thd s a)" for b using nt [OF o(1)] that by auto
    then have "arcv_thd_notif s (ep_thd s a) = ep_thd s a \<or> (\<exists>b. (ep s b \<and> b \<noteq> p) \<and> ep_thd s b = arcv_thd_notif s (ep_thd s a) \<and> ep_depth s b < ep_depth s a)"
      using o(3) by blast
    then show ?thesis using o(1,2) other [OF a] by (simp add: ep_ok_def arc bnd ntf eps)
  qed
  moreover have "inj_on (ar_thd \<circ> arcvs s') {a. ep s' a}" using inv by (auto simp: eps_inv_def arc eps inj_on_def)
  moreover have "t \<noteq> 0 \<and> (\<exists>a. ep s' a \<and> ep_thd s' a = t)" if t: "thd_bound2rcvcap s' t" for t
  proof -
    have "t \<noteq> ?thd" "thd_bound2rcvcap s t" using t bnd by simp_all
    then obtain a where "t \<noteq> 0" "ep s a" "ep_thd s a = t" "a \<noteq> p" using inv unfolding eps_inv_def by metis
    then show ?thesis using arc eps by auto
  qed
  moreover have "rc_refcnt (rcvcap (thds s' t)) = of_nat (card (notified_by s' t))" for t
  proof -
    have fin: "finite (notified_by s t)" by (rule finite_subset [OF subset_UNIV]) simp
    have rt: "rc_refcnt (rcvcap (thds s t)) = of_nat (card (notified_by s t))" using inv by (simp add: eps_inv_def)
    have n0: "?n \<noteq> 0"
    proof -
      have "\<exists>b. ep s b \<and> ep_thd s b = ?n" using ok [OF p] p by (auto simp: ep_ok_def)
      then show ?thesis using ok inv by (auto simp: ep_ok_def eps_inv_def)
    qed
    show ?thesis
    proof (cases "t = ?n")
      case True
      have "notified_by s' t = notified_by s t - {?thd}" "?thd \<in> notified_by s t"
        using pb by (auto simp: notified_by_def bnd ntf True)
      then have "card (notified_by s t) = Suc (card (notified_by s' t))" using fin card_Suc_Diff1 by metis
      then show ?thesis using True n0 rt by (simp add: ref)
    next
      case False
      then have "notified_by s' t = notified_by s t" by (auto simp: notified_by_def bnd ntf)
      then show ?thesis using False rt by (simp add: ref)
    qed
  qed
  ultimately show ?thesis using tab eps by (simp add: eps_inv_def)
qed

lemma eps_inv_deactivate:
  assumes inv: "eps_inv s" and de: "arcv_deactivate E t capin lid s = Some (0, s')" and few: "card {u. thd_bound2rcvcap s u} < 2 ^ 31"
  shows "eps_inv s'" "card {u. thd_bound2rcvcap s' u} \<le> card {u. thd_bound2rcvcap s u}"
proof -
  have tab: "tables_ok s" "lines_ok s" using inv by (simp_all add: eps_inv_def tables_ok_def)
  obtain a where a: "captbl_lkup s (tbl (tbls s t)) capin = Some a" using de by (cases "captbl_lkup s (tbl (tbls s t)) capin") (auto simp: arcv_deactivate_def)
  have ty: "a \<noteq> 0" "h_type (hdr s a) = CAP_ARCV" and nr: "\<not> thd_rcvcap_isreferenced s (ep_thd s a)"
    using de a by (auto simp: arcv_deactivate_def CAP_TYPECHK_CORE_def CAP_TYPECHK_def split: if_splits)
  obtain s1 where td: "arcv_teardown a (ep_thd s a) s = Some (0, s1)" and cl: "cap_capdeactivate t capin CAP_ARCV lid s1 = Some (0, s')"
    using de a ty nr by (auto simp: arcv_deactivate_def bind_eq_Some_conv split: if_splits)
  note st = arcv_teardown_state [OF td]
  have ct: "t \<noteq> 0" "h_type (hdr s t) = CAP_CAPTBL" "captbl_clear (tbl (tbls s t)) capin CAP_ARCV lid s1 = Some (0, s')"
    using cl st by (auto simp: cap_capdeactivate_def split: if_splits)
  have t0: "tbl (tbls s t) \<noteq> 0" using tab ct(2) by (simp add: tables_ok_def)
  note clr = captbl_clear_success [OF ct(3) t0 refl]
  have lk1: "captbl_lkup s1 (tbl (tbls s t)) capin = captbl_lkup s (tbl (tbls s t)) capin" by (rule captbl_lkup_cong [OF st(1,2) t0])
  have pa: "captbl_slot s1 (tbl (tbls s t)) capin = a" using captbl_lkup_leaf [OF t0, of capin s1] clr lk1 a by simp
  have s': "s' = removed CAP_FREE a lid s1" using clr pa by simp
  have ep: "ep s a" using lkup_live [OF tab(2) a ty(1)] ty(2) by (simp add: ep_def)
  then have a16: "16 dvd unat a" by (simp add: ep_def live_slot_def)
  have m: "thds s' = thds s1" "arcvs s' = arcvs s1" unfolding s' removed_def Let_def wr_hdr_def by (simp_all split: if_splits)
  have bnd: "thd_bound2rcvcap s' u \<longleftrightarrow> u \<noteq> ep_thd s a \<and> thd_bound2rcvcap s u" for u using st(5) m(1) by (simp add: thd_bound2rcvcap_def)
  have none: "notified_by s (ep_thd s a) = {}"
  proof -
    have fin: "finite {u. thd_bound2rcvcap s u}" by (rule finite_subset [OF subset_UNIV]) simp
    have "card (notified_by s (ep_thd s a)) \<le> card {u. thd_bound2rcvcap s u}" by (rule card_mono [OF fin]) (auto simp: notified_by_def)
    then have lt: "card (notified_by s (ep_thd s a)) < 2 ^ 31" using few by simp
    have "\<not> 0 <s (of_nat (card (notified_by s (ep_thd s a))) :: u32)"
      using nr inv by (simp add: thd_rcvcap_isreferenced_def eps_inv_def)
    then have "card (notified_by s (ep_thd s a)) = 0"
      using lt by (simp add: word_sless_alt signed_of_nat signed_take_bit_int_eq_self)
    moreover have "finite (notified_by s (ep_thd s a))" by (rule finite_subset [OF subset_UNIV]) simp
    ultimately show ?thesis by simp
  qed
  show "eps_inv s'"
  proof (rule eps_inv_unbind [OF inv _ ep _ _ none bnd])
    have "tables_ok s1" using tab(1) tables_ok_cong [OF st(1,2,3)] by simp
    then show "tables_ok s'" unfolding s' by (rule tables_ok_removed) simp
    show "ep s' b \<longleftrightarrow> ep s b \<and> b \<noteq> a" for b unfolding s' ep_removed [OF a16] ep_cong [OF st(2)] ..
    show "arcvs s' = arcvs s" using m(2) st(4) by simp
    show "arcv_thd_notif s' u = arcv_thd_notif s u" for u using m(1) st(6) by (simp add: arcv_thd_notif_def)
    show "rc_refcnt (rcvcap (thds s' t)) = rc_refcnt (rcvcap (thds s t)) - (if t = arcv_thd_notif s (ep_thd s a) \<and> t \<noteq> 0 then 1 else 0)" for t
      using m(1) st(7) by (simp add: arcv_thd_notif_def)
  qed
  have "finite {u. thd_bound2rcvcap s u}" by (rule finite_subset [OF subset_UNIV]) simp
  then show "card {u. thd_bound2rcvcap s' u} \<le> card {u. thd_bound2rcvcap s u}" by (rule card_mono) (auto simp: bnd)
qed

section \<open>Sequences of operations\<close>

text \<open>
  Activations with any result, deactivations that succeed, and anything that leaves the end-points alone.  The copying of
  end-point capabilities is not among these operations, nor a deactivation that fails after it has removed the end-point.
\<close>

inductive ep_step :: "kst \<Rightarrow> kst \<Rightarrow> bool" where
  activate: "arcv_activate E t cap capin comp_cap thd_cap tcap_cap arcv_cap init s = Some (r, s') \<Longrightarrow> ep_step s s'"
| deactivate: "arcv_deactivate E t capin lid s = Some (0, s') \<Longrightarrow> ep_step s s'"
| other: "eps_same s s' \<Longrightarrow> ep_step s s'"

inductive_cases ep_stepE: "ep_step s s'"

lemma ep_step_inv:
  assumes "ep_step s s'" "eps_inv s" "card {u. thd_bound2rcvcap s u} < 2 ^ 31"
  shows "eps_inv s' \<and> card {u. thd_bound2rcvcap s' u} \<le> card {u. thd_bound2rcvcap s u} + 1"
proof (rule ep_stepE [OF assms(1)])
  show ?thesis if "arcv_activate E t cap capin comp_cap thd_cap tcap_cap arcv_cap init s = Some (r, s')"
    for E t cap capin comp_cap thd_cap tcap_cap arcv_cap init r using eps_inv_activate [OF assms(2) that] by simp
  show ?thesis if "arcv_deactivate E t capin lid s = Some (0, s')" for E t capin lid
    using eps_inv_deactivate [OF assms(2) that assms(3)] by simp
  show ?thesis if "eps_same s s'" using eps_inv_same [OF assms(2) that] by simp
qed

lemma ep_run_inv:
  assumes "(ep_step ^^ n) s s'" "eps_inv s" "\<forall>u. \<not> thd_bound2rcvcap s u" "n < 2 ^ 31"
  shows "eps_inv s' \<and> card {u. thd_bound2rcvcap s' u} \<le> n"
  using assms(1,4)
proof (induction n arbitrary: s')
  case 0
  then show ?case using assms(2,3) by simp
next
  case (Suc n)
  then obtain s1 where s1: "(ep_step ^^ n) s s1" "ep_step s1 s'" by auto
  then have "eps_inv s1 \<and> card {u. thd_bound2rcvcap s1 u} \<le> n" using Suc by simp
  then show ?case using ep_step_inv [OF s1(2)] Suc.prems(2) by fastforce
qed

lemma eps_inv_ranked:
  assumes "eps_inv s"
  obtains rk where "notif_ranked rk s"
proof
  define slot_of where "slot_of t = (THE a. ep s a \<and> ep_thd s a = t)" for t
  have so: "slot_of (ep_thd s a) = a" if "ep s a" for a
    unfolding slot_of_def using that assms by (intro the_equality) (auto simp: eps_inv_def inj_on_def)
  show "notif_ranked (\<lambda>t. ep_depth s (slot_of t)) s"
    unfolding notif_ranked_def
  proof (intro allI impI)
    fix t assume "thd_bound2rcvcap s t"
    then obtain a where a: "ep s a" "ep_thd s a = t" using assms by (auto simp: eps_inv_def)
    then have ok: "ep_ok s a" using assms by (simp add: eps_inv_def)
    let ?n = "arcv_thd_notif s t"
    have "?n = t \<or> thd_bound2rcvcap s ?n \<and> ep_depth s (slot_of ?n) < ep_depth s a"
    proof (cases "?n = t")
      case False
      then obtain b where b: "ep s b" "ep_thd s b = ?n" "ep_depth s b < ep_depth s a" using ok a(2) by (auto simp: ep_ok_def)
      then have "thd_bound2rcvcap s ?n" using assms by (auto simp: eps_inv_def ep_ok_def)
      then show ?thesis using so [OF b(1)] b by simp
    qed simp
    then show "ep_depth s (slot_of t) < ARCV_NOTIF_DEPTH \<and>
        (let n = ?n in n = 0 \<or> n = t \<or> thd_bound2rcvcap s n \<and> ep_depth s (slot_of n) < ep_depth s (slot_of t))"
      using ok so [OF a(1)] a(2) by (auto simp: ep_ok_def Let_def)
  qed
qed

section \<open>Properties of end-points\<close>

text \<open>
  C19. Notification up the hierarchy of end-points ends and never trips its assertion.  From a state without end-points,
  after any sequence of fewer than \<open>2 ^ 31\<close> calls of \<^verbatim>\<open>arcv_activate\<close> with any arguments and results, calls of
  \<^verbatim>\<open>arcv_deactivate\<close> that return 0, and operations that leave the end-points alone, \<^verbatim>\<open>notify_parent\<close> returns from
  every thread with an end-point, whatever threads are waiting, with the thread to be notified first, having
  changed the event lists only.  Copies of end-point capabilities are not made in these sequences.
\<close>

theorem notify_parent_returns:
  assumes "tables_ok s" "\<forall>a. \<not> ep s a" "\<forall>t. \<not> thd_bound2rcvcap s t \<and> rc_refcnt (rcvcap (thds s t)) = 0"
    "(ep_step ^^ n) s s'" "n < 2 ^ 31" "thd_bound2rcvcap s' t"
  shows "\<exists>h. notify_parent t s' = Some (arcv_thd_notif s' t, s'\<lparr>lst := h\<rparr>)"
proof -
  have "eps_inv s" using assms(1-3) by (simp add: eps_inv_def notified_by_def)
  then have "eps_inv s'" using ep_run_inv [OF assms(4) _ _ assms(5)] assms(3) by blast
  then obtain rk where rk: "notif_ranked rk s'" by (rule eps_inv_ranked)
  then have "rk t < ARCV_NOTIF_DEPTH" using assms(6) unfolding notif_ranked_def by blast
  then have "0 + rk t \<le> ARCV_NOTIF_DEPTH" by linarith
  from notify_loop_ranked [OF rk assms(6) refl this] show ?thesis by (auto simp: notify_parent_def)
qed

section \<open>A table with an end-point\<close>

text \<open>
  The table at 0x1000 holds a capability for itself in slot 4, a component in slot 8, a thread in slot 12, a tcap in slot 16,
  and, in the second version, an end-point in slot 20.
\<close>

definition ex_ek :: kmem where
  "ex_ek = added 0x1900 CAP_TCAP (added 0x18c0 CAP_THD (added 0x1880 CAP_COMP (added 0x1840 CAP_CAPTBL ex_kmem)))"

definition ex_ep :: kst where
  "ex_ep = (idle_kst ex_ek)\<lparr>cthds := \<lambda>_. \<lparr>ct_t = 0x5000, ct_cpuid = 3\<rparr>, ctcaps := \<lambda>_. \<lparr>cc_tcap = 0x6000, cc_cpuid = 3\<rparr>\<rparr>"

lemma ex_ek_msk: "CT_MSK 0x1880 6 = 0x1880" "CT_MSK 0x18c0 6 = 0x18c0" "CT_MSK 0x1900 6 = 0x1900" "CT_MSK 0x1940 6 = 0x1940"
  "slot_ix 0x1880 = 0" "slot_ix 0x18c0 = 0" "slot_ix 0x1900 = 0" "slot_ix 0x1940 = 0"
  "CT_MSK 0x1840 5 = 0x1840" "CT_MSK 0x18c0 4 = 0x18c0" "CT_MSK 0x1900 4 = 0x1900" "CT_MSK 0x1940 5 = 0x1940"
  by (simp_all add: CT_MSK_def mask_eq_exp_minus_1 slot_ix_def)

lemma ex_ek_hdr: "hdr ex_ek a =
    (if a = 0x1840 then \<lparr>h_liveness_id = 0, h_amap = 1, h_size = CAP_SZ_32B, h_flags = 0, h_type = CAP_CAPTBL\<rparr>
     else if a = 0x1880 then \<lparr>h_liveness_id = 0, h_amap = 1, h_size = CAP_SZ_64B, h_flags = 0, h_type = CAP_COMP\<rparr>
     else if a = 0x18c0 then \<lparr>h_liveness_id = 0, h_amap = 1, h_size = CAP_SZ_16B, h_flags = 0, h_type = CAP_THD\<rparr>
     else if a = 0x1900 then \<lparr>h_liveness_id = 0, h_amap = 1, h_size = CAP_SZ_16B, h_flags = 0, h_type = CAP_TCAP\<rparr>
     else captbl_free_hdr)"
  by (simp add: ex_ek_def added_def ex_msk ex_ek_msk) (simp add: ex_kmem_def captbl_free_hdr_def)

lemma ex_ek_mem: "mem ex_ek = mem ex_kmem" "tbls ex_ek = ex_tbls"
  by (simp_all add: ex_ek_def) (simp add: ex_kmem_def)

lemma ex_ek_slots: "captbl_slot ex_ek 0x1000 4 = 0x1840" "captbl_slot ex_ek 0x1000 8 = 0x1880" "captbl_slot ex_ek 0x1000 12 = 0x18c0"
  "captbl_slot ex_ek 0x1000 16 = 0x1900" "captbl_slot ex_ek 0x1000 20 = 0x1940"
  by (simp_all add: captbl_slot_def ex_ek_mem ex_kmem_def mask_eq_exp_minus_1 drop_bit_eq_div)

lemma ex_ek_ok: "tables_ok ex_ek"
proof -
  have "lines_ok ex_ek" by (simp add: lines_ok_def line_ok_def ex_ek_hdr captbl_free_hdr_def)
  moreover have "captbl_aligned ex_ek 0x1000" using ex_kmem_ok(2) by (simp add: captbl_aligned_def ex_ek_mem)
  ultimately show ?thesis by (auto simp: tables_ok_def ex_ek_hdr ex_ek_mem captbl_free_hdr_def ex_tbls_def split: if_splits)
qed

lemma ex_ek_lkup: "captbl_lkup ex_ek 0x1000 4 = Some 0x1840" "captbl_lkup ex_ek 0x1000 8 = Some 0x1880"
  "captbl_lkup ex_ek 0x1000 12 = Some 0x18c0" "captbl_lkup ex_ek 0x1000 16 = Some 0x1900"
proof -
  have l: "lines_ok ex_ek" using ex_ek_ok by (simp add: tables_ok_def)
  show "captbl_lkup ex_ek 0x1000 4 = Some 0x1840" "captbl_lkup ex_ek 0x1000 8 = Some 0x1880"
    "captbl_lkup ex_ek 0x1000 12 = Some 0x18c0" "captbl_lkup ex_ek 0x1000 16 = Some 0x1900"
    using captbl_lkup_leaf [of "0x1000" 4 ex_ek] captbl_lkup_leaf [of "0x1000" 8 ex_ek] captbl_lkup_leaf [of "0x1000" 12 ex_ek]
      captbl_lkup_leaf [of "0x1000" 16 ex_ek]
    by (simp_all add: ex_ek_slots getleaf_lines_ok [OF l] ex_msk ex_ek_msk ex_ek_hdr Let_def)
qed

lemma ex_ep_sel [simp]:
  "mem ex_ep = mem ex_ek" "hdr ex_ep = hdr ex_ek" "tbls ex_ep = ex_tbls" "thds ex_ep = (\<lambda>_. thread_zero)"
  "cthds ex_ep = (\<lambda>_. \<lparr>ct_t = 0x5000, ct_cpuid = 3\<rparr>)" "ctcaps ex_ep = (\<lambda>_. \<lparr>cc_tcap = 0x6000, cc_cpuid = 3\<rparr>)"
  by (simp_all add: ex_ep_def ex_ek_mem)

lemma ex_ep_lkup: "captbl_lkup ex_ep 0x1000 c = captbl_lkup ex_ek 0x1000 c"
  by (rule captbl_lkup_cong) simp_all

lemma added_kst [simp]:
  "thds (added p ty (s :: kst)) = thds s" "ctcaps (added p ty s) = ctcaps s" "arcvs (added p ty s) = arcvs s"
  by (simp_all add: added_def Let_def wr_hdr_def)

lemma ex_ep_activate:
  "\<exists>s'. arcv_activate ex_env 0x1000 4 20 8 12 16 0 True ex_ep = Some (0, s') \<and> thd_bound2rcvcap s' 0x5000"
proof -
  have slot: "captbl_slot ex_ep 0x1000 20 = 0x1940" using ex_ek_slots(5) by (simp add: captbl_slot_def)
  have add: "captbl_add (ke_tsc ex_env 0) 0x1000 20 CAP_ARCV ex_ep = Some ((0x1940, 0), added 0x1940 CAP_ARCV ex_ep)"
    by (rule added_intro) (simp_all add: slot ex_ek_msk ex_ek_hdr captbl_free_hdr_def CAP_FLAG_RO_def)
  show ?thesis
    using add
    by (simp add: arcv_activate_def ex_ep_lkup ex_ek_lkup CAP_TYPECHK_def CAP_TYPECHK_CORE_def ex_ek_hdr thd_bound2rcvcap_def
        thread_zero_def rcvcap_zero_def cap_capactivate_pre_def is_frozen_def ex_tbls_def CAP_MEM_FROZEN_FLAG_def CAP_MEM_REFCNT_SZ_def
        arcv_setup_def Let_def rcvcap_upd)
qed

theorem notify_parent_returns_witness:
  "\<exists>s' h. arcv_activate ex_env 0x1000 4 20 8 12 16 0 True ex_ep = Some (0, s') \<and>
    notify_parent 0x5000 s' = Some (arcv_thd_notif s' 0x5000, s'\<lparr>lst := h\<rparr>)"
proof -
  obtain s' where s': "arcv_activate ex_env 0x1000 4 20 8 12 16 0 True ex_ep = Some (0, s')" "thd_bound2rcvcap s' 0x5000"
    using ex_ep_activate by blast
  have step: "(ep_step ^^ 1) ex_ep s'" using ep_step.activate [OF s'(1)] by (simp add: eq_OO)
  have "\<exists>h. notify_parent 0x5000 s' = Some (arcv_thd_notif s' 0x5000, s'\<lparr>lst := h\<rparr>)"
  proof (rule notify_parent_returns [OF _ _ _ step _ s'(2)])
    show "tables_ok ex_ep" using ex_ek_ok by (simp add: tables_ok_def lines_ok_def captbl_aligned_def ex_ek_mem)
    show "\<forall>a. \<not> ep ex_ep a" by (simp add: ep_def ex_ek_hdr captbl_free_hdr_def)
    show "\<forall>t. \<not> thd_bound2rcvcap ex_ep t \<and> rc_refcnt (rcvcap (thds ex_ep t)) = 0"
      by (simp add: thd_bound2rcvcap_def thread_zero_def rcvcap_zero_def)
  qed simp
  then show ?thesis using s'(1) by blast
qed

section \<open>An end-point without its capability\<close>

text \<open>Two threads that notify each other while both wait: the loop runs into its assertion.\<close>

lemma notify_cycle_fails:
  assumes "arcv_thd_notif s t = u" "arcv_thd_notif s u = t" "t \<noteq> u" "t \<noteq> 0" "u \<noteq> 0" "st_rcving (thds s t)" "st_rcving (thds s u)"
  shows "notify_parent t s = None"
proof -
  have "notify_loop d v w s' = None"
    if "thds s' = thds s" "v = t \<and> w = u \<or> v = u \<and> w = t" for d v w s'
    using that
  proof (induction "ARCV_NOTIF_DEPTH - d" arbitrary: d v w s')
    case 0
    then show ?case using assms by (subst notify_loop.simps) auto
  next
    case (Suc n)
    have "notify_loop (d + 1) (arcv_thd_notif s' v) v (thd_rcvcap_evt_enqueue v w s') = None"
    proof (rule Suc.hyps(1))
      show "n = ARCV_NOTIF_DEPTH - (d + 1)" using Suc.hyps(2) by simp
      show "thds (thd_rcvcap_evt_enqueue v w s') = thds s" using Suc.prems(1) by simp
      show "arcv_thd_notif s' v = t \<and> v = u \<or> arcv_thd_notif s' v = u \<and> v = t"
        using Suc.prems assms(1,2) by (auto simp: arcv_thd_notif_def)
    qed
    then show ?case using Suc.prems assms by (subst notify_loop.simps) (auto simp: Let_def arcv_thd_notif_def)
  qed
  then show ?thesis using assms(1) by (simp add: notify_parent_def)
qed

text \<open>
  A deactivation can remove the end-point of a thread and leave its capability: identifiers are masked to 16
  bits when they are looked up, but an identifier above is refused when the slot is cleared, after the end-point has
  been torn down.  So \<^verbatim>\<open>arcv_deactivate\<close> of identifier \<open>c + 0x10000\<close> returns \<^verbatim>\<open>-EINVAL\<close>, the thread is unbound,
  and identifier \<open>c\<close> still finds the end-point capability with the thread in it.  The thread can then be bound again
  below an end-point made with the stale capability, which makes the hierarchy of notifications cyclic.
\<close>

theorem arcv_deactivate_stale:
  assumes "captbl_lkup s (tbl (tbls s t)) c = Some a" "c < captbl_maxid" "CAP_TYPECHK_CORE E s a CAP_ARCV (ar_cpuid (arcvs s a))"
    "\<not> thd_rcvcap_isreferenced s (ar_thd (arcvs s a))" "rcvcap_tcap (rcvcap (thds s (ar_thd (arcvs s a)))) = tc" "tc \<noteq> 0"
    "\<not> 1 <s tcap_ref s tc" "CAP_TYPECHK s t CAP_CAPTBL"
  shows "\<exists>s'. arcv_deactivate E t (c + 0x10000) lid s = Some (- EINVAL, s') \<and> \<not> thd_bound2rcvcap s' (ar_thd (arcvs s a)) \<and>
    captbl_lkup s' (tbl (tbls s t)) c = Some a \<and> h_type (hdr s' a) = CAP_ARCV \<and> arcvs s' a = arcvs s a"
proof -
  have c: "(c + 0x10000) AND 0xFFFF = c AND 0xFFFF" "\<not> c + 0x10000 < captbl_maxid"
  proof -
    have "take_bit 16 (c + 0x10000) = take_bit 16 c" 
      by (simp add: take_bit_eq_mod word_unat_eq_iff unat_word_ariths mod_mod_cancel [of 65536 4294967296])
    then show "(c + 0x10000) AND 0xFFFF = c AND 0xFFFF" by (simp add: take_bit_eq_mask mask_eq_exp_minus_1)
    have "unat c < 0x10000" using assms(2) by (simp add: captbl_maxid word_less_nat_alt)
    then have "unat (c + 0x10000) = unat c + 0x10000" by (simp add: unat_word_ariths)
    then show "\<not> c + 0x10000 < captbl_maxid" by (simp add: captbl_maxid word_less_nat_alt)
  qed
  have lk: "captbl_lkup s (tbl (tbls s t)) (c + 0x10000) = Some a"
    using assms(1) captbl_lkup_masked [of s "tbl (tbls s t)"] c(1) by metis
  obtain s' where td: "arcv_teardown a (ar_thd (arcvs s a)) s = Some (0, s')"
    using assms(5-7) by (auto simp: arcv_teardown_def kassert_bind Let_def)
  note st = arcv_teardown_state [OF td]
  have "arcv_deactivate E t (c + 0x10000) lid s = Some (- EINVAL, s')"
    using lk assms(3,4,8) td st c(2)
    by (simp add: arcv_deactivate_def cap_capdeactivate_def captbl_clear_def CAP_TYPECHK_CORE_def CAP_TYPECHK_def not_less)
  moreover have "captbl_lkup s' (tbl (tbls s t)) c = Some a"
    using captbl_lkup_cong [OF st(1,2) captbl_lkup_table [OF assms(1)]] assms(1) by simp
  ultimately show ?thesis using st assms(3) by (simp add: thd_bound2rcvcap_def CAP_TYPECHK_CORE_def CAP_TYPECHK_def)
qed

text \<open>The end-point in slot 20 belongs to the thread at 0x5000, with the tcap at 0x6000.\<close>

definition ex_stale :: kst where
  "ex_stale = (idle_kst (added 0x1940 CAP_ARCV ex_ek))\<lparr>
     arcvs := \<lambda>_. \<lparr>ar_comp_info = comp_info_zero, ar_epoch = 0, ar_cpuid = 3, ar_thd = 0x5000, ar_event_notif = 0, ar_depth = 1\<rparr>,
     thds := (\<lambda>_. thread_zero)(0x5000 := thread_zero\<lparr>rcvcap := rcvcap_zero\<lparr>isbound := True, rcvcap_tcap := 0x6000, rcvcap_thd_notif := 0x7000\<rparr>\<rparr>)\<rparr>"

theorem arcv_deactivate_stale_witness:
  "thd_bound2rcvcap ex_stale 0x5000 \<and>
   (\<exists>s'. arcv_deactivate ex_env 0x1840 0x10014 0 ex_stale = Some (- EINVAL, s') \<and> \<not> thd_bound2rcvcap s' 0x5000 \<and>
     captbl_lkup s' 0x1000 20 = Some 0x1940)"
proof -
  let ?k = "added 0x1940 CAP_ARCV ex_ek"
  have l: "lines_ok ?k"
    using lines_ok_added [of ex_ek CAP_ARCV "0x1940"] ex_ek_ok by (simp add: tables_ok_def ex_ek_msk ex_ek_hdr captbl_free_hdr_def)
  have h: "hdr ?k 0x1940 = \<lparr>h_liveness_id = 0, h_amap = 1, h_size = captbl_cap2sz CAP_ARCV, h_flags = 0, h_type = CAP_ARCV\<rparr>"
    "h_type (hdr ?k 0x1840) = CAP_CAPTBL"
    by (simp_all add: added_def ex_ek_msk ex_ek_hdr captbl_free_hdr_def)
  have "captbl_slot ?k 0x1000 20 = 0x1940" using ex_ek_slots(5) captbl_slot_cong [of ?k ex_ek] by simp
  then have "captbl_lkup ?k 0x1000 20 = Some 0x1940"
    using captbl_lkup_leaf [of "0x1000" 20 ?k] by (simp add: getleaf_lines_ok [OF l] ex_ek_msk h Let_def)
  moreover have sel: "mem ex_stale = mem ?k" "hdr ex_stale = hdr ?k" "tbl (tbls ex_stale 0x1840) = 0x1000" "ar_thd (arcvs ex_stale a) = 0x5000"
    "ar_cpuid (arcvs ex_stale a) = 3" "tcaps ex_stale = (\<lambda>_. tcap_zero)"
    "rcvcap (thds ex_stale 0x5000) = rcvcap_zero\<lparr>isbound := True, rcvcap_tcap := 0x6000, rcvcap_thd_notif := 0x7000\<rparr>" for a
    by (simp_all add: ex_stale_def ex_ek_mem ex_tbls_def)
  ultimately have lk: "captbl_lkup ex_stale (tbl (tbls ex_stale 0x1840)) 20 = Some 0x1940"
    using captbl_lkup_cong [OF sel(1,2), of "0x1000" 20] by simp
  from arcv_deactivate_stale [OF lk, of ex_env "0x6000" 0] show ?thesis
    by (auto simp: sel h CAP_TYPECHK_CORE_def CAP_TYPECHK_def thd_rcvcap_isreferenced_def thd_bound2rcvcap_def rcvcap_zero_def tcap_ref_def tcap_zero_def word_sless_alt)
qed

end
