(* ===== verification/Eos_Ring.thy ===== *)
theory Eos_Ring
  imports Kernel_Api
begin

text \<open>
  The rings by which the network functions of EOS exchange packets
  (\<^verbatim>\<open>components/implementation/no_interface/fwp_manager\<close>: \<^verbatim>\<open>eos_ring.h\<close>, \<^verbatim>\<open>eos_pkt.h\<close>).  A network function has
  an input and an output ring in one shared segment.  An entry of a ring is a node with up to eight packets
  and a state; who may change a node depends on its state.  The agent that copies packets from an output ring
  to the input ring of the next function (\<^verbatim>\<open>Eos_Mca\<close>) moves \<^verbatim>\<open>mca_head\<close> and \<^verbatim>\<open>free_head\<close>, the network function
  \<^verbatim>\<open>head\<close> and \<^verbatim>\<open>tail\<close>.

  The state has the structures \<^verbatim>\<open>struct eos_ring\<close> by address, the nodes by the array that they are in and their
  index, and the bytes of packets.  The counters of a ring are words that wrap around, as is the index of a node:
  their lower bits.
\<close>

section \<open>Data\<close>

abbreviation (input) EOS_PKT_MAX_SZ :: nat where "EOS_PKT_MAX_SZ \<equiv> 256"
abbreviation (input) EOS_RING_SIZE :: nat where "EOS_RING_SIZE \<equiv> 128"
abbreviation (input) EOS_PKT_PER_ENTRY :: nat where "EOS_PKT_PER_ENTRY \<equiv> 8"

definition EOS_RING_MASK :: u32 where "EOS_RING_MASK = of_nat (EOS_RING_SIZE - 1)"

text \<open>The sizes of \<^verbatim>\<open>struct eos_ring\<close> and \<^verbatim>\<open>struct eos_ring_node\<close>: five and one pairs of cache lines.\<close>

abbreviation (input) sizeof_eos_ring :: u32 where "sizeof_eos_ring \<equiv> 640"
abbreviation (input) sizeof_eos_ring_node :: u32 where "sizeof_eos_ring_node \<equiv> 128"

abbreviation (input) EBLOCK :: int where "EBLOCK \<equiv> 1"
abbreviation (input) ECOLLET :: int where "ECOLLET \<equiv> 2"
abbreviation (input) ESENT :: int where "ESENT \<equiv> 3"

datatype pkt_states = PKT_EMPTY | PKT_FREE | PKT_RECV_READY | PKT_RECV_DONE | PKT_SENT_READY | PKT_SENT_DONE | PKT_TXING

record pkt_meta =
  m_pkt :: addr
  m_len :: u32
  m_port :: u32

record eos_ring_node =
  rn_cnt :: u16
  rn_idx :: u16
  rn_alloc_idx :: u16
  rn_deadline :: u64
  rn_arrive :: u64
  rn_pkts :: "pkt_meta list"
  rn_state :: pkt_states

record eos_ring =
  er_ring :: addr
  er_phy_addr :: addr
  er_coreid :: u32
  er_thdid :: u32
  er_free_head :: u32
  er_pkt_cnt :: u32
  er_mca_head :: u32
  er_head :: u32
  er_tail :: u32
  er_cached :: eos_ring_node

type_synonym node_ptr = "addr \<times> u32"

record eos_st =
  rings :: "addr \<Rightarrow> eos_ring"
  nodes :: "node_ptr \<Rightarrow> eos_ring_node"
  bytes :: "addr \<Rightarrow> u8"

definition zero_meta :: pkt_meta where
  "zero_meta = \<lparr>m_pkt = 0, m_len = 0, m_port = 0\<rparr>"

definition zero_node :: eos_ring_node where
  "zero_node = \<lparr>rn_cnt = 0, rn_idx = 0, rn_alloc_idx = 0, rn_deadline = 0, rn_arrive = 0,
     rn_pkts = replicate EOS_PKT_PER_ENTRY zero_meta, rn_state = PKT_EMPTY\<rparr>"

definition zero_ring :: eos_ring where
  "zero_ring = \<lparr>er_ring = 0, er_phy_addr = 0, er_coreid = 0, er_thdid = 0, er_free_head = 0, er_pkt_cnt = 0,
     er_mca_head = 0, er_head = 0, er_tail = 0, er_cached = zero_node\<rparr>"

definition upd_rg :: "addr \<Rightarrow> (eos_ring \<Rightarrow> eos_ring) \<Rightarrow> eos_st \<Rightarrow> eos_st" where
  "upd_rg r f s = s\<lparr>rings := (rings s)(r := f (rings s r))\<rparr>"

definition upd_node :: "node_ptr \<Rightarrow> (eos_ring_node \<Rightarrow> eos_ring_node) \<Rightarrow> eos_st \<Rightarrow> eos_st" where
  "upd_node p f s = s\<lparr>nodes := (nodes s)(p := f (nodes s p))\<rparr>"

definition upd_cached :: "addr \<Rightarrow> (eos_ring_node \<Rightarrow> eos_ring_node) \<Rightarrow> eos_st \<Rightarrow> eos_st" where
  "upd_cached r f = upd_rg r (\<lambda>x. x\<lparr>er_cached := f (er_cached x)\<rparr>)"

abbreviation cached :: "eos_st \<Rightarrow> addr \<Rightarrow> eos_ring_node" where
  "cached s r \<equiv> er_cached (rings s r)"

definition GET_RING_NODE :: "eos_st \<Rightarrow> addr \<Rightarrow> u32 \<Rightarrow> node_ptr" where
  "GET_RING_NODE s r h = (er_ring (rings s r), h)"

definition faa_pkt_cnt :: "addr \<Rightarrow> u32 \<Rightarrow> eos_st \<Rightarrow> eos_st" where
  "faa_pkt_cnt r d = upd_rg r (\<lambda>x. x\<lparr>er_pkt_cnt := er_pkt_cnt x + d\<rparr>)"

section \<open>Initialization\<close>

definition get_input_ring :: "addr \<Rightarrow> addr" where
  "get_input_ring rh = rh"

definition get_output_ring :: "addr \<Rightarrow> addr" where
  "get_output_ring rh = rh + sizeof_eos_ring + of_nat EOS_RING_SIZE * sizeof_eos_ring_node"

text \<open>
  The inner loop of \<^verbatim>\<open>eos_rings_init\<close> gives the packets of a node their buffers, from the address \<open>p\<close> on; the outer
  one sets up the nodes of both rings.
\<close>

fun init_pkts :: "nat \<Rightarrow> addr \<Rightarrow> pkt_meta list" where
  "init_pkts 0 p = []"
| "init_pkts (Suc n) p = \<lparr>m_pkt = p, m_len = of_nat EOS_PKT_MAX_SZ, m_port = 0\<rparr> # init_pkts n (p + of_nat EOS_PKT_MAX_SZ)"

fun init_nodes :: "nat \<Rightarrow> nat \<Rightarrow> addr \<Rightarrow> addr \<Rightarrow> addr \<Rightarrow> eos_st \<Rightarrow> eos_st" where
  "init_nodes 0 i inp out p s = s"
| "init_nodes (Suc n) i inp out p s =
     init_nodes n (i + 1) inp out (p + of_nat (EOS_PKT_PER_ENTRY * EOS_PKT_MAX_SZ))
       (upd_node (GET_RING_NODE s inp (of_nat i)) (\<lambda>_. zero_node\<lparr>rn_state := PKT_FREE, rn_pkts := init_pkts EOS_PKT_PER_ENTRY p\<rparr>)
         (upd_node (GET_RING_NODE s out (of_nat i)) (\<lambda>_. zero_node) s))"

text \<open>\<open>v2p\<close> is the physical address of a page, \<^verbatim>\<open>cos_map_virt_to_phys\<close>.\<close>

definition eos_rings_init :: "(addr \<Rightarrow> addr) \<Rightarrow> addr \<Rightarrow> eos_st \<Rightarrow> eos_st option" where
  "eos_rings_init v2p rh s = do {
     kassert (rh AND 0xfff = 0);
     let inp = get_input_ring rh; out = get_output_ring rh;
         s1 = upd_rg inp (\<lambda>_. zero_ring\<lparr>er_ring := inp + sizeof_eos_ring, er_phy_addr := v2p rh\<rparr>) s;
         s2 = upd_rg out (\<lambda>_. zero_ring\<lparr>er_ring := out + sizeof_eos_ring, er_phy_addr := er_phy_addr (rings s1 inp) + (out - rh)\<rparr>) s1;
         s3 = upd_cached out (rn_state_update (\<lambda>_. PKT_SENT_READY)) s2;
         end_of_rings = er_ring (rings s3 out) + of_nat EOS_RING_SIZE * sizeof_eos_ring_node
     in Some (init_nodes EOS_RING_SIZE 0 inp out (round_up_to_page end_of_rings) s3)
   }"

section \<open>Packets\<close>

definition eos_pkt_allocate :: "addr \<Rightarrow> u32 \<Rightarrow> (eos_st, addr) kop" where
  "eos_pkt_allocate rg len s = do {
     kassert (sint len \<le> int EOS_PKT_MAX_SZ);
     kassert (if rn_cnt (cached s rg) = rn_idx (cached s rg) then sint (rn_alloc_idx (cached s rg)) < int EOS_PKT_PER_ENTRY
              else sint (rn_alloc_idx (cached s rg)) < sint (rn_idx (cached s rg)));
     meta \<leftarrow> arr_rd (rn_pkts (cached s rg)) (sint (rn_alloc_idx (cached s rg)));
     Some (m_pkt meta, upd_cached rg (\<lambda>c. c\<lparr>rn_alloc_idx := rn_alloc_idx c + 1\<rparr>) s)
   }"

text \<open>The part that the two functions which flush the cache of an output ring share.\<close>

definition flush_node :: "addr \<Rightarrow> (eos_st, int) kop" where
  "flush_node rg s =
     (if sint (rn_idx (cached s rg)) < sint (rn_cnt (cached s rg)) then Some (- ESENT, s)
      else let rn = GET_RING_NODE s rg (er_tail (rings s rg) AND EOS_RING_MASK); st = rn_state (nodes s rn)
        in if st = PKT_SENT_DONE then Some (- ECOLLET, s)
        else if st \<noteq> PKT_EMPTY then Some (- EBLOCK, s)
        else let s1 = upd_cached rg (\<lambda>c. c\<lparr>rn_idx := 0\<rparr>) s;
                 s2 = upd_node rn (\<lambda>_. cached s1 rg) s1;
                 s3 = upd_rg rg (\<lambda>x. x\<lparr>er_tail := er_tail x + 1\<rparr>) s2;
                 s4 = upd_cached rg (\<lambda>c. c\<lparr>rn_cnt := 0\<rparr>) s3
          in Some (0, faa_pkt_cnt rg 1 s4))"

definition eos_pkt_send_flush_force :: "addr \<Rightarrow> (eos_st, int) kop" where
  "eos_pkt_send_flush_force rg s = do {
     kassert (sint (rn_cnt (cached s rg)) \<le> int EOS_PKT_PER_ENTRY);
     flush_node rg s
   }"

definition eos_pkt_send_flush :: "addr \<Rightarrow> (eos_st, int) kop" where
  "eos_pkt_send_flush rg s = do {
     kassert (sint (rn_cnt (cached s rg)) \<le> int EOS_PKT_PER_ENTRY);
     if rn_cnt (cached s rg) = 0 then Some (0, s) else flush_node rg s
   }"

text \<open>The packet is put at the index of the cache.\<close>

definition cache_put :: "addr \<Rightarrow> addr \<Rightarrow> u32 \<Rightarrow> u32 \<Rightarrow> eos_st \<Rightarrow> eos_st option" where
  "cache_put rg pkt len port s = do {
     ps \<leftarrow> arr_wr (rn_pkts (cached s rg)) (sint (rn_idx (cached s rg))) \<lparr>m_pkt = pkt, m_len = len, m_port = port\<rparr>;
     Some (upd_cached rg (\<lambda>c. c\<lparr>rn_pkts := ps, rn_idx := rn_idx c + 1\<rparr>) s)
   }"

definition eos_pkt_send_test :: "addr \<Rightarrow> addr \<Rightarrow> u32 \<Rightarrow> u32 \<Rightarrow> u64 \<Rightarrow> u64 \<Rightarrow> (eos_st, int) kop" where
  "eos_pkt_send_test rg pkt len port deadline arrive s = do {
     let s0 = upd_cached rg (\<lambda>c. c\<lparr>rn_deadline := deadline, rn_arrive := arrive\<rparr>) s;
     let full = (rn_cnt (cached s0 rg) = rn_idx (cached s0 rg));
     (r, s1) \<leftarrow> (if full then eos_pkt_send_flush rg s0 else Some (0, s0));
     if r \<noteq> 0 then Some (r, s1) else do {
       s2 \<leftarrow> cache_put rg pkt len port s1;
       (r', s3) \<leftarrow> (if rn_cnt (cached s2 rg) = rn_idx (cached s2 rg) then eos_pkt_send_flush rg s2 else Some (- 1, s2));
       kassert (\<not> (full \<and> r' = 0));
       Some (0, s3)
     }
   }"

definition eos_pkt_send :: "addr \<Rightarrow> addr \<Rightarrow> u32 \<Rightarrow> u32 \<Rightarrow> (eos_st, int) kop" where
  "eos_pkt_send rg pkt len port s = do {
     (r, s1) \<leftarrow> (if rn_cnt (cached s rg) = rn_idx (cached s rg) then eos_pkt_send_flush rg s else Some (0, s));
     if r \<noteq> 0 then Some (r, s1) else do {
       s2 \<leftarrow> cache_put rg pkt len port s1;
       (r', s3) \<leftarrow> (if rn_cnt (cached s2 rg) = rn_idx (cached s2 rg) then eos_pkt_send_flush rg s2 else Some (0, s2));
       Some (r', s3)
     }
   }"

text \<open>The loop of \<^verbatim>\<open>eos_pkt_recv_slow\<close> that passes over the empty nodes at the tail.\<close>

partial_function (option) recv_skip :: "addr \<Rightarrow> eos_st \<Rightarrow> (node_ptr \<times> eos_st) option" where
  "recv_skip rg s =
     (let rn = GET_RING_NODE s rg (er_tail (rings s rg) AND EOS_RING_MASK)
      in if rn_state (nodes s rn) \<noteq> PKT_EMPTY then Some (rn, s)
         else recv_skip rg (upd_rg rg (\<lambda>x. x\<lparr>er_tail := er_tail x + 1\<rparr>) s))"

definition eos_pkt_recv_slow :: "addr \<Rightarrow> addr \<Rightarrow> (eos_st, int) kop" where
  "eos_pkt_recv_slow rg sent s = do {
     kassert (rn_cnt (cached s rg) = rn_idx (cached s rg));
     (rn, s0) \<leftarrow> recv_skip rg s;
     if rn_state (nodes s0 rn) = PKT_RECV_READY then do {
       let s1 = upd_cached rg (\<lambda>_. nodes s0 rn) s0;
       kassert (rn_cnt (cached s1 rg) \<noteq> 0);
       kassert (rn_idx (cached s1 rg) = 0);
       kassert (rn_cnt (cached s1 sent) = 0);
       kassert (rn_idx (cached s1 sent) = 0);
       let s2 = upd_cached sent (rn_pkts_update (\<lambda>_. rn_pkts (cached s1 rg))) s1;
       let s3 = upd_cached rg (rn_alloc_idx_update (\<lambda>_. 0)) s2;
       let s4 = upd_cached sent (rn_cnt_update (\<lambda>_. rn_cnt (cached s3 rg))) s3;
       let s5 = upd_node rn (rn_state_update (\<lambda>_. PKT_RECV_DONE)) s4;
       let s6 = upd_rg rg (\<lambda>x. x\<lparr>er_tail := er_tail x + 1\<rparr>) s5;
       Some (0, faa_pkt_cnt rg (- scast (rn_cnt (nodes s6 rn))) s6)
     }
     else if rn_state (nodes s0 rn) = PKT_RECV_DONE then Some (- ECOLLET, s0)
     else Some (- EBLOCK, s0)
   }"

text \<open>A received packet, or the error that is stored in \<^verbatim>\<open>*err\<close> when the function returns a null pointer.\<close>

record rcvd_pkt =
  rp_pkt :: addr
  rp_len :: u32
  rp_port :: u32
  rp_deadline :: u64
  rp_arrive :: u64

definition eos_pkt_recv_test :: "addr \<Rightarrow> addr \<Rightarrow> (eos_st, int + rcvd_pkt) kop" where
  "eos_pkt_recv_test rg sent s = do {
     (r, s1) \<leftarrow> (if rn_cnt (cached s rg) = rn_idx (cached s rg) then eos_pkt_recv_slow rg sent s else Some (0, s));
     if r \<noteq> 0 then Some (Inl r, s1) else do {
       meta \<leftarrow> arr_rd (rn_pkts (cached s1 rg)) (sint (rn_idx (cached s1 rg)));
       kassert (m_pkt meta \<noteq> 0);
       kassert (m_len meta \<noteq> 0);
       Some (Inr \<lparr>rp_pkt = m_pkt meta, rp_len = m_len meta, rp_port = m_port meta, rp_deadline = rn_deadline (cached s1 rg),
               rp_arrive = rn_arrive (cached s1 rg)\<rparr>, upd_cached rg (\<lambda>c. c\<lparr>rn_idx := rn_idx c + 1\<rparr>) s1)
     }
   }"

definition eos_pkt_recv :: "addr \<Rightarrow> addr \<Rightarrow> (eos_st, int + addr \<times> u32 \<times> u32) kop" where
  "eos_pkt_recv rg sent s = do {
     (r, s1) \<leftarrow> (if rn_cnt (cached s rg) = rn_idx (cached s rg) then eos_pkt_recv_slow rg sent s else Some (0, s));
     if r \<noteq> 0 then Some (Inl r, s1) else do {
       meta \<leftarrow> arr_rd (rn_pkts (cached s1 rg)) (sint (rn_idx (cached s1 rg)));
       kassert (m_pkt meta \<noteq> 0);
       kassert (m_len meta \<noteq> 0);
       Some (Inr (m_pkt meta, m_len meta, m_port meta), upd_cached rg (\<lambda>c. c\<lparr>rn_idx := rn_idx c + 1\<rparr>) s1)
     }
   }"

text \<open>
  Nodes that have been received and sent are given back: the loop of \<^verbatim>\<open>eos_pkt_collect\<close>, with the number \<open>r\<close> of nodes
  collected so far.
\<close>

partial_function (option) collect_loop :: "addr \<Rightarrow> addr \<Rightarrow> int \<Rightarrow> eos_st \<Rightarrow> (int \<times> eos_st) option" where
  "collect_loop recv sent r s =
     (let rn = GET_RING_NODE s recv (er_head (rings s recv) AND EOS_RING_MASK);
          sn = GET_RING_NODE s sent (er_head (rings s sent) AND EOS_RING_MASK);
          st = rn_state (nodes s rn)
      in if (st = PKT_EMPTY \<or> st = PKT_RECV_DONE) \<and> rn_state (nodes s sn) = PKT_SENT_DONE then do {
           let scache = nodes s sn;
           let rcache = nodes s rn;
           kassert (er_head (rings s recv) = er_head (rings s sent));
           kassert (map m_pkt (rn_pkts rcache) = map m_pkt (rn_pkts scache));
           let s1 = upd_node sn (rn_state_update (\<lambda>_. PKT_EMPTY)) s;
           let s2 = upd_node rn (\<lambda>_. scache\<lparr>rn_cnt := 0, rn_idx := 0, rn_state := PKT_FREE\<rparr>) s1;
           let s3 = upd_rg recv (\<lambda>x. x\<lparr>er_head := er_head x + 1\<rparr>) s2;
           collect_loop recv sent (r + 1) (upd_rg sent (\<lambda>x. x\<lparr>er_head := er_head x + 1\<rparr>) s3)
         }
         else Some (r, s))"

definition eos_pkt_collect :: "addr \<Rightarrow> addr \<Rightarrow> (eos_st, int) kop" where
  "eos_pkt_collect recv sent s = collect_loop recv sent 0 s"

end
