(* ===== verification/Bitmap.thy ===== *)
theory Bitmap
  imports Prelude "HOL-Library.Signed_Division"
begin

text \<open>
  Bit tricks on words and bitmaps over arrays of words (\<^verbatim>\<open>components/include/bitmap.h\<close>).

  A bitmap is the list of its 32-bit words; a read or write outside the list is \<open>None\<close>.  Offsets are
  the \<^verbatim>\<open>int\<close>s of the source, with the division that rounds towards zero; the pointer \<^verbatim>\<open>x + words\<close> is
  \<open>drop words x\<close>.
\<close>

section \<open>Operations on a word\<close>

definition WORD_SIZE :: int where "WORD_SIZE = 32"

definition ones :: "u32 \<Rightarrow> u32" where
  "ones x =
     (let x = x - (drop_bit 1 x AND 0x55555555);
          x = (drop_bit 2 x AND 0x33333333) + (x AND 0x33333333);
          x = (drop_bit 4 x + x) AND 0x0F0F0F0F;
          x = x + drop_bit 8 x;
          x = x + drop_bit 16 x
      in x AND 0x0000003f)"

definition smear :: "u32 \<Rightarrow> u32" where
  "smear x =
     (let x = x OR drop_bit 1 x;
          x = x OR drop_bit 2 x;
          x = x OR drop_bit 4 x;
          x = x OR drop_bit 8 x
      in x OR drop_bit 16 x)"

definition nlpow2 :: "u32 \<Rightarrow> u32" where
  "nlpow2 x = smear x + 1"

definition leqpow2 :: "u32 \<Rightarrow> u32" where
  "leqpow2 orig = (let v = smear (orig - 1) + 1 in if v = orig then v else drop_bit 1 v)"

definition pow2 :: "u32 \<Rightarrow> u32" where
  "pow2 x = of_bool (x AND (x - 1) = 0)"

definition power_2 :: "u32 \<Rightarrow> bool" where
  "power_2 v = (let smallest_set_bit = v AND (- v) in v > 1 \<and> smallest_set_bit = v)"

definition nlepow2 :: "u32 \<Rightarrow> u32" where
  "nlepow2 x = drop_bit (unat (pow2 x)) (nlpow2 x)"

definition ls_one :: "u32 \<Rightarrow> u32" where
  "ls_one x = x AND (- x)"

definition u_log32 :: "u32 \<Rightarrow> u32" where
  "u_log32 x =
     (let y = x AND (x - 1);
          y = y OR (- y);
          y = drop_bit (nat (WORD_SIZE - 1)) y
      in ones (drop_bit 1 (smear x)) - y)"

definition log32 :: "u32 \<Rightarrow> u32" where
  "log32 x = ones (drop_bit 1 (smear x))"

definition log32up :: "u32 \<Rightarrow> u32" where
  "log32up x = log32 x + 1 - pow2 x"

definition bitmap_set_w :: "u32 \<Rightarrow> int \<Rightarrow> u32" where
  "bitmap_set_w x v = x OR push_bit (nat v) 1"

definition bitmap_check_w :: "u32 \<Rightarrow> int \<Rightarrow> int" where
  "bitmap_check_w x v = sint (x AND push_bit (nat v) 1)"

definition bitmap_unset_w :: "u32 \<Rightarrow> int \<Rightarrow> u32" where
  "bitmap_unset_w x v = x AND NOT (push_bit (nat v) 1)"

section \<open>Bitmaps\<close>

definition bitmap_set :: "u32 list \<Rightarrow> int \<Rightarrow> u32 list option" where
  "bitmap_set x v = do {
     let idx = v sdiv WORD_SIZE;
     let off = v AND (WORD_SIZE - 1);
     w \<leftarrow> arr_rd x idx;
     arr_wr x idx (bitmap_set_w w off)
   }"

definition bitmap_check :: "u32 list \<Rightarrow> int \<Rightarrow> int option" where
  "bitmap_check x v = do {
     let idx = v sdiv WORD_SIZE;
     let off = v AND (WORD_SIZE - 1);
     w \<leftarrow> arr_rd x idx;
     Some (bitmap_check_w w off)
   }"

definition bitmap_unset :: "u32 list \<Rightarrow> int \<Rightarrow> u32 list option" where
  "bitmap_unset x v = do {
     let idx = v sdiv WORD_SIZE;
     let off = v AND (WORD_SIZE - 1);
     w \<leftarrow> arr_rd x idx;
     arr_wr x idx (bitmap_unset_w w off)
   }"

fun bitmap_one_loop :: "u32 list \<Rightarrow> nat \<Rightarrow> int \<Rightarrow> int option" where
  "bitmap_one_loop x 0 i = Some (- 1)"
| "bitmap_one_loop x (Suc n) i = do {
     w \<leftarrow> arr_rd x i;
     if w = 0 then bitmap_one_loop x n (i + 1)
     else Some (i * WORD_SIZE + sint (u_log32 (ls_one w)))
   }"

definition bitmap_one :: "u32 list \<Rightarrow> int \<Rightarrow> int option" where
  "bitmap_one x mx = bitmap_one_loop x (nat mx) 0"

definition bitmap_one_words :: "u32 list \<Rightarrow> int \<Rightarrow> int \<Rightarrow> int option" where
  "bitmap_one_words x words mx = do {
     ret \<leftarrow> bitmap_one (drop (nat words) x) (mx - words);
     Some (if ret \<noteq> - 1 then ret + words * WORD_SIZE else ret)
   }"

definition bitmap_one_offset :: "u32 list \<Rightarrow> int \<Rightarrow> int \<Rightarrow> int option" where
  "bitmap_one_offset x off mx = do {
     let subword = off AND (WORD_SIZE - 1);
     let words = off sdiv WORD_SIZE;
     if subword \<noteq> 0
     then do {
       w \<leftarrow> arr_rd x words;
       let v = drop_bit (nat subword) w;
       if v \<noteq> 0 then Some (sint (u_log32 (ls_one v) + word_of_int off))
       else bitmap_one_words x (words + 1) mx
     }
     else bitmap_one_words x words mx
   }"

fun set_contig_loop :: "int \<Rightarrow> nat \<Rightarrow> bool \<Rightarrow> u32 list \<Rightarrow> u32 list option" where
  "set_contig_loop i 0 one x = Some x"
| "set_contig_loop i (Suc n) one x = do {
     x \<leftarrow> (if one then bitmap_set x i else bitmap_unset x i);
     set_contig_loop (i + 1) n one x
   }"

definition bitmap_set_contig :: "u32 list \<Rightarrow> int \<Rightarrow> int \<Rightarrow> bool \<Rightarrow> u32 list option" where
  "bitmap_set_contig x off extent one = set_contig_loop off (nat extent) one x"

text \<open>The loop of \<^verbatim>\<open>bitmap_contiguous_ones\<close>; its counter only moves forward, so \<open>max * 32\<close> turns are enough.\<close>

fun contiguous_loop :: "nat \<Rightarrow> u32 list \<Rightarrow> int \<Rightarrow> int \<Rightarrow> int \<Rightarrow> int \<Rightarrow> int option" where
  "contiguous_loop n x extent mx i start =
     (if \<not> i < mx * 32 then Some (- 1)
      else case n of
        0 \<Rightarrow> None
      | Suc n \<Rightarrow> do {
          let prev = i;
          i \<leftarrow> bitmap_one_offset x i mx;
          if i < 0 then Some (- 1)
          else if i \<noteq> prev then contiguous_loop n x extent mx (i + 1) i
          else if i - start + 1 \<ge> extent then Some start
          else contiguous_loop n x extent mx (i + 1) start
        })"

declare contiguous_loop.simps [simp del]

definition bitmap_contiguous_ones :: "u32 list \<Rightarrow> int \<Rightarrow> int \<Rightarrow> int \<Rightarrow> int option" where
  "bitmap_contiguous_ones x off extent mx = contiguous_loop (nat (mx * 32 - off)) x extent mx off off"

definition bitmap_extent_find_set :: "int \<Rightarrow> int \<Rightarrow> int \<Rightarrow> (u32 list, int) kop" where
  "bitmap_extent_find_set off extent mx x = do {
     r \<leftarrow> bitmap_contiguous_ones x off extent mx;
     if r < 0 then Some (r, x)
     else do { x \<leftarrow> bitmap_set_contig x r extent False; Some (r, x) }
   }"

definition bitmap_extent_set_at :: "int \<Rightarrow> int \<Rightarrow> int \<Rightarrow> (u32 list, int) kop" where
  "bitmap_extent_set_at off extent mx x = do {
     r \<leftarrow> bitmap_one_offset x off mx;
     if r \<noteq> off then Some (- 1, x)
     else do { x \<leftarrow> bitmap_set_contig x r extent False; Some (0, x) }
   }"

section \<open>Words\<close>

definition smeared :: "u32 \<Rightarrow> nat \<Rightarrow> u32 \<Rightarrow> bool" where
  "smeared x k y \<longleftrightarrow> (\<forall>n. bit y n \<longleftrightarrow> (\<exists>m. (n \<le> m \<and> m < n + k) \<and> bit x m))"

lemma smeared_1: "smeared x 1 x"
proof -
  have "(n \<le> m \<and> m < n + 1) \<longleftrightarrow> m = n" for m n :: nat by linarith
  then show ?thesis by (simp add: smeared_def)
qed

lemma smeared_double:
  assumes "smeared x k y" "l = 2 * k"
  shows "smeared x l (y OR drop_bit k y)"
proof -
  have l: "(n \<le> m \<and> m < n + l) \<longleftrightarrow> (n \<le> m \<and> m < n + k) \<or> (k + n \<le> m \<and> m < k + n + k)" for m n
    using assms(2) by linarith
  have y: "bit y n \<longleftrightarrow> (\<exists>m. (n \<le> m \<and> m < n + k) \<and> bit x m)" for n using assms(1) by (simp add: smeared_def)
  show ?thesis unfolding smeared_def l by (simp only: bit_or_iff bit_drop_bit_eq o_apply y) blast
qed

lemma bit_smear: "bit (smear x) n \<longleftrightarrow> (\<exists>m\<ge>n. bit x m)"
proof -
  have "smeared x 32 (smear x)"
    unfolding smear_def Let_def by (rule smeared_double, rule smeared_double, rule smeared_double, rule smeared_double,
      rule smeared_double, rule smeared_1) simp_all
  then have "bit (smear x) n \<longleftrightarrow> (\<exists>m. (n \<le> m \<and> m < n + 32) \<and> bit x m)" by (simp add: smeared_def)
  also have "\<dots> \<longleftrightarrow> (\<exists>m\<ge>n. bit x m)" using bit_imp_le_length [of x] by fastforce
  finally show ?thesis .
qed

text \<open>The position of the most significant bit.\<close>

definition top_bit :: "u32 \<Rightarrow> nat" where
  "top_bit x = Max {n. bit x n}"

lemma top_bit:
  assumes "x \<noteq> 0"
  shows "bit x (top_bit x)" "bit x n \<Longrightarrow> n \<le> top_bit x" "top_bit x < 32"
proof -
  have fin: "finite {n. bit x n}" 
    by (rule finite_subset [of _ "{..<32}"]) (auto dest: bit_imp_le_length)
  have "{n. bit x n} \<noteq> {}" using assms bit_eq_iff [of x 0] by auto
  then show "bit x (top_bit x)" using Max_in [OF fin] by (simp add: top_bit_def)
  then show "top_bit x < 32" by (auto dest: bit_imp_le_length)
  show "bit x n \<Longrightarrow> n \<le> top_bit x" using Max_ge [OF fin] by (simp add: top_bit_def)
qed

lemma smear_mask: "x \<noteq> 0 \<Longrightarrow> smear x = mask (Suc (top_bit x))"
  using top_bit [of x] by (intro bit_word_eqI) (auto simp: bit_smear bit_mask_iff less_Suc_eq_le intro: le_trans)

lemma ones_mask_all: "list_all (\<lambda>n. ones (mask n) = of_nat n) [0..<32]"
  by code_simp

lemma ones_mask: "n < 32 \<Longrightarrow> ones (mask n) = of_nat n"
  using ones_mask_all by (simp add: list_all_iff)

lemma log32_top: "x \<noteq> 0 \<Longrightarrow> log32 x = of_nat (top_bit x)"
proof -
  assume x: "x \<noteq> 0"
  have "drop_bit 1 (mask (Suc (top_bit x)) :: u32) = mask (top_bit x)"
    using top_bit(3) [OF x] by (intro bit_word_eqI) (auto simp: bit_simps)
  then show ?thesis using ones_mask [OF top_bit(3) [OF x]] by (simp add: log32_def smear_mask [OF x])
qed

text \<open>The position of the least significant bit.\<close>

definition low_bit :: "u32 \<Rightarrow> nat" where
  "low_bit x = (LEAST n. bit x n)"

lemma low_bit:
  assumes "x \<noteq> 0"
  shows "bit x (low_bit x)" "n < low_bit x \<Longrightarrow> \<not> bit x n" "low_bit x < 32"
proof -
  obtain m where "bit x m" using assms bit_eq_iff [of x 0] by auto
  then show "bit x (low_bit x)" unfolding low_bit_def by (rule LeastI)
  then show "low_bit x < 32" by (auto dest: bit_imp_le_length)
  show "n < low_bit x \<Longrightarrow> \<not> bit x n" unfolding low_bit_def by (rule not_less_Least)
qed

lemma odd_and_minus: "odd (y :: u32) \<Longrightarrow> y AND (- y) = 1"
proof -
  assume odd: "odd y"
  then have "y = (y AND NOT 1) OR 1" by (intro bit_word_eqI) (auto simp: bit_simps bit_1_iff bit_0)
  also have "\<dots> = (y AND NOT 1) + 1" by (rule disjunctive_add_eq_or [symmetric]) (simp add: and.assoc)
  finally have "- y = NOT (y AND NOT 1)" by (metis add_diff_cancel_right' minus_eq_not_minus_1)
  then show ?thesis using odd by (intro bit_word_eqI) (auto simp: bit_simps bit_1_iff bit_0)
qed

lemma ls_one_low: "x \<noteq> 0 \<Longrightarrow> ls_one x = 2 ^ low_bit x"
proof -
  assume x: "x \<noteq> 0"
  define y where "y = drop_bit (low_bit x) x"
  have "bit x n \<Longrightarrow> low_bit x \<le> n" for n using low_bit(2) [OF x, of n] by (meson not_less)
  then have x_y: "x = push_bit (low_bit x) y" by (intro bit_word_eqI) (auto simp: y_def bit_simps)
  have "odd y" using low_bit(1) [OF x] by (simp add: y_def flip: bit_0) (simp add: bit_simps)
  have "- x = push_bit (low_bit x) (- y)" by (subst x_y) (simp add: push_bit_eq_mult)
  then have "ls_one x = push_bit (low_bit x) y AND push_bit (low_bit x) (- y)" unfolding ls_one_def by (metis x_y)
  also have "\<dots> = push_bit (low_bit x) 1" using odd_and_minus [OF \<open>odd y\<close>] by (metis push_bit_and)
  finally show ?thesis by simp
qed

lemma u_log32_pow2:
  assumes "k < 32"
  shows "u_log32 (2 ^ k) = of_nat k"
proof -
  let ?x = "2 ^ k :: u32"
  have "?x AND (?x - 1) = 0"
    by (rule bit_word_eqI) (auto simp: bit_simps simp flip: mask_eq_exp_minus_1)
  moreover have x: "bit ?x n \<longleftrightarrow> n = k" for n using assms by (auto simp: bit_simps)
  moreover have nz: "?x \<noteq> 0" using assms by (simp add: not_le)
  moreover have "top_bit ?x = k" using top_bit(1) [OF nz] x by blast
  ultimately show ?thesis using log32_top [of ?x] by (simp add: u_log32_def log32_def Let_def)
qed

lemma u_log32_ls_one: "x \<noteq> 0 \<Longrightarrow> u_log32 (ls_one x) = of_nat (low_bit x)"
  by (simp add: ls_one_low u_log32_pow2 low_bit(3))

lemma unat_exp: "j < 32 \<Longrightarrow> unat (2 ^ j :: u32) = 2 ^ j"
proof -
  assume "j < 32"
  then have "unat (of_nat (2 ^ j) :: u32) = 2 ^ j" by (simp only: unsigned_of_nat) (simp add: take_bit_nat_eq_self)
  then show ?thesis by simp
qed

lemma top_bit_bounds:
  assumes "x \<noteq> 0"
  shows "2 ^ top_bit x \<le> unat x" "unat x < 2 ^ Suc (top_bit x)"
proof -
  have "x = take_bit (Suc (top_bit x)) x"
    using top_bit(2) [OF assms] by (intro bit_word_eqI) (auto simp: bit_simps less_Suc_eq_le)
  then show "unat x < 2 ^ Suc (top_bit x)" by (metis take_bit_nat_less_exp unsigned_take_bit_eq)
  have "drop_bit (top_bit x) x \<noteq> 0"
  proof
    assume "drop_bit (top_bit x) x = 0"
    then have "\<not> bit (drop_bit (top_bit x) x) 0" by simp
    then show False using top_bit(1) [OF assms] by (simp add: bit_drop_bit_eq)
  qed
  then have "unat (drop_bit (top_bit x) x) \<noteq> 0" by (simp only: unsigned_eq_0_iff not_False_eq_True)
  then have "drop_bit (top_bit x) (unat x) \<noteq> 0" by (simp only: unat_drop_bit_eq not_False_eq_True)
  then have "unat x div 2 ^ top_bit x \<noteq> 0" by (simp only: drop_bit_eq_div not_False_eq_True)
  then show "2 ^ top_bit x \<le> unat x" by (simp add: div_eq_0_iff)
qed

lemma top_bit_unique:
  assumes "2 ^ k \<le> unat x" "unat x < 2 ^ Suc k"
  shows "top_bit x = k"
proof -
  have "x \<noteq> 0" using assms(1) by (metis le_zero_eq power_not_zero unsigned_0 zero_neq_numeral)
  note b = top_bit_bounds [OF this]
  from b(1) assms(2) have "(2 :: nat) ^ top_bit x < 2 ^ Suc k" by (rule le_less_trans)
  then have "top_bit x < Suc k" by (rule power_less_imp_less_exp [rotated]) simp
  moreover from assms(1) b(2) have "(2 :: nat) ^ k < 2 ^ Suc (top_bit x)" by (rule le_less_trans)
  then have "k < Suc (top_bit x)" by (rule power_less_imp_less_exp [rotated]) simp
  ultimately show ?thesis by simp
qed

lemma nlpow2_top: "x \<noteq> 0 \<Longrightarrow> nlpow2 x = 2 ^ Suc (top_bit x)"
  by (simp add: nlpow2_def smear_mask mask_eq_exp_minus_1)

text \<open>
  \<^verbatim>\<open>leqpow2\<close> is the greatest power of two that is not greater than its argument, up to \<open>2\<^sup>31\<close>; above, the
  next power of two wraps to zero and so does the result.
\<close>

lemma leqpow2_step: "1 < x \<Longrightarrow> leqpow2 x = (if 2 ^ Suc (top_bit (x - 1)) = x then x else drop_bit 1 (2 ^ Suc (top_bit (x - 1))))"
  using nlpow2_top [of "x - 1"] by (auto simp: leqpow2_def nlpow2_def Let_def)

lemma leqpow2_correct:
  assumes "0 < x" "x \<le> 0x80000000"
  shows "leqpow2 x = 2 ^ top_bit x"
proof (cases "x = 1")
  case True
  then have "top_bit x = 0" by (intro top_bit_unique) simp_all
  then show ?thesis using True by (simp add: leqpow2_def smear_def)
next
  case False
  with assms(1) have gt: "1 < x" by (simp add: word_less_nat_alt word_unat_eq_iff)
  then have nz: "x - 1 \<noteq> 0" and x: "unat (x - 1) = unat x - 1" "0 < unat x"
    using unat_minus_one [of x] assms(1) by (auto simp: unat_gt_0)
  let ?k = "top_bit (x - 1)"
  note b = top_bit_bounds [OF nz]
  have "unat x \<le> 2 ^ 31" using assms(2) by (simp add: word_le_nat_alt)
  with b(1) x have "(2 :: nat) ^ ?k < 2 ^ 31" by linarith
  then have k: "?k < 31" by (rule power_less_imp_less_exp [rotated]) simp
  show ?thesis
  proof (cases "2 ^ Suc ?k = x")
    case True
    then have "unat x = 2 ^ Suc ?k" using unat_exp [of "Suc ?k"] k by auto
    then have "top_bit x = Suc ?k" by (intro top_bit_unique) simp_all
    with True show ?thesis using leqpow2_step [OF gt] by simp
  next
    case False
    then have "unat x \<noteq> unat (2 ^ Suc ?k :: u32)" by (simp only: word_unat_eq_iff)
    then have "unat x \<noteq> 2 ^ Suc ?k" using unat_exp [of "Suc ?k"] k by simp
    then have "top_bit x = ?k" using b x by (intro top_bit_unique) simp_all
    moreover have "drop_bit 1 (2 ^ Suc ?k :: u32) = 2 ^ ?k" using k by (intro bit_word_eqI) (auto simp: bit_simps)
    ultimately show ?thesis using leqpow2_step [OF gt] False by simp
  qed
qed

lemma leqpow2_wraps:
  assumes "0x80000000 < x"
  shows "leqpow2 x = 0"
proof -
  have "1 < x" using assms by (rule less_trans [rotated]) simp
  have "unat x > 2 ^ 31" using assms by (simp add: word_less_nat_alt)
  then have "2 ^ 31 \<le> unat (x - 1)" using unat_minus_one [of x] \<open>1 < x\<close> by force
  then have "top_bit (x - 1) = 31" using unsigned_less [of "x - 1", where ?'a = nat] by (intro top_bit_unique) simp_all
  then show ?thesis using leqpow2_step [OF \<open>1 < x\<close>] \<open>1 < x\<close> by simp
qed

section \<open>Bits of a bitmap\<close>

definition bm_bit :: "u32 list \<Rightarrow> nat \<Rightarrow> bool" where
  "bm_bit x n \<longleftrightarrow> n div 32 < length x \<and> bit (x ! (n div 32)) (n mod 32)"

lemma int_idx: "int n sdiv WORD_SIZE = int (n div 32)" "int n AND (WORD_SIZE - 1) = int (n mod 32)"
proof -
  show "int n sdiv WORD_SIZE = int (n div 32)" by (simp add: WORD_SIZE_def signed_divide_int_def sgn_if zdiv_int)
  have "int n AND (WORD_SIZE - 1) = take_bit 5 (int n)" by (simp add: WORD_SIZE_def take_bit_eq_mask mask_numeral)
  then show "int n AND (WORD_SIZE - 1) = int (n mod 32)" by (simp add: take_bit_eq_mod zmod_int)
qed

lemma bm_bit_update:
  assumes "n div 32 < length x"
  shows "bm_bit (x[n div 32 := w]) m \<longleftrightarrow> (if m div 32 = n div 32 then bit w (m mod 32) else bm_bit x m)"
  using assms by (auto simp: bm_bit_def)

lemma div_mod_32_eq: "m div 32 = n div 32 \<and> m mod 32 = n mod 32 \<longleftrightarrow> m = (n :: nat)"
  by (metis div_mult_mod_eq)

lemma bm_bit_word:
  assumes "n < 32 * length x" "\<And>k. bit w k \<longleftrightarrow> (if k = n mod 32 then b else bit (x ! (n div 32)) k)"
  shows "bm_bit (x[n div 32 := w]) m \<longleftrightarrow> (if m = n then b else bm_bit x m)"
proof -
  have n: "n div 32 < length x" using assms(1) by (simp add: div_less_iff_less_mult mult.commute)
  show ?thesis
  proof (cases "m div 32 = n div 32")
    case True
    then have "bm_bit x m \<longleftrightarrow> bit (x ! (n div 32)) (m mod 32)" using n by (simp add: bm_bit_def)
    then show ?thesis using True div_mod_32_eq [of m n] by (auto simp: bm_bit_update [OF n] assms(2))
  qed (auto simp: bm_bit_update [OF n])
qed

lemma rd_idx: "n < 32 * length x \<Longrightarrow> arr_rd x (int (n div 32)) = Some (x ! (n div 32))"
  "n < 32 * length x \<Longrightarrow> arr_wr x (int (n div 32)) w = Some (x[n div 32 := w])"
  by (simp_all add: arr_rd_def arr_wr_def div_less_iff_less_mult mult.commute)

lemma bitmap_set_bit:
  assumes "n < 32 * length x"
  shows "\<exists>y. bitmap_set x (int n) = Some y \<and> length y = length x \<and> (\<forall>m. bm_bit y m \<longleftrightarrow> m = n \<or> bm_bit x m)"
proof -
  let ?w = "bitmap_set_w (x ! (n div 32)) (int (n mod 32))"
  have "bit ?w k \<longleftrightarrow> (if k = n mod 32 then True else bit (x ! (n div 32)) k)" for k
    by (auto simp: bitmap_set_w_def bit_simps)
  from bm_bit_word [OF assms this] show ?thesis by (simp add: bitmap_set_def int_idx rd_idx [OF assms])
qed

lemma bitmap_unset_bit:
  assumes "n < 32 * length x"
  shows "\<exists>y. bitmap_unset x (int n) = Some y \<and> length y = length x \<and> (\<forall>m. bm_bit y m \<longleftrightarrow> m \<noteq> n \<and> bm_bit x m)"
proof -
  let ?w = "bitmap_unset_w (x ! (n div 32)) (int (n mod 32))"
  have "bit ?w k \<longleftrightarrow> (if k = n mod 32 then False else bit (x ! (n div 32)) k)" for k
    by (auto simp: bitmap_unset_w_def bit_simps dest: bit_imp_le_length)
  from bm_bit_word [OF assms this] show ?thesis by (simp add: bitmap_unset_def int_idx rd_idx [OF assms])
qed

lemma bitmap_check_bit:
  assumes "n < 32 * length x"
  shows "\<exists>v. bitmap_check x (int n) = Some v \<and> (v \<noteq> 0 \<longleftrightarrow> bm_bit x n)"
proof -
  have "sint (w AND 2 ^ (n mod 32)) \<noteq> 0 \<longleftrightarrow> bit w (n mod 32)" for w :: u32
    using and_exp_eq_0_iff_not_bit [of w "n mod 32"] by (metis signed_0 signed_word_eqI)
  then show ?thesis using assms
    by (simp add: bitmap_check_def int_idx rd_idx [OF assms] bitmap_check_w_def bm_bit_def div_less_iff_less_mult mult.commute)
qed

section \<open>Searching\<close>

text \<open>\<open>r\<close> is the first set bit at \<open>lo\<close> or above and below \<open>hi\<close>, or \<open>- 1\<close> if there is none.\<close>

definition is_first :: "u32 list \<Rightarrow> nat \<Rightarrow> nat \<Rightarrow> int \<Rightarrow> bool" where
  "is_first x lo hi r \<longleftrightarrow>
     (\<exists>n. r = int n \<and> lo \<le> n \<and> n < hi \<and> bm_bit x n \<and> (\<forall>m. lo \<le> m \<and> m < n \<longrightarrow> \<not> bm_bit x m)) \<or>
     r = - 1 \<and> (\<forall>m. lo \<le> m \<and> m < hi \<longrightarrow> \<not> bm_bit x m)"

lemma is_first_extend:
  assumes "is_first x mid hi r" "lo \<le> mid" "\<And>m. lo \<le> m \<Longrightarrow> m < mid \<Longrightarrow> \<not> bm_bit x m"
  shows "is_first x lo hi r"
proof -
  have "\<not> bm_bit x m" if "lo \<le> m" "m < n" "\<forall>m. mid \<le> m \<and> m < n \<longrightarrow> \<not> bm_bit x m" for m n
    using assms(3) [of m] that by (cases "m < mid") auto
  then show ?thesis using assms(1,2) by (fastforce simp: is_first_def)
qed

lemma bm_bit_at: "i < length x \<Longrightarrow> k < 32 \<Longrightarrow> bm_bit x (32 * i + k) \<longleftrightarrow> bit (x ! i) k"
  by (simp add: bm_bit_def)

lemma word_range: "32 * i \<le> m \<Longrightarrow> m < 32 * i + 32 \<Longrightarrow> \<exists>k<32. m = 32 * i + (k :: nat)"
  by (intro exI [of _ "m - 32 * i"]) simp

lemma sint_small: "k < 2 ^ 31 \<Longrightarrow> sint (of_nat k :: u32) = int k"
  by (simp add: sint_uint unsigned_of_nat take_bit_nat_eq_self signed_take_bit_int_eq_self)

lemma word_first:
  assumes "i < length x" "k < 32" "drop_bit k (x ! i) \<noteq> 0" "i < hi"
  shows "is_first x (32 * i + k) (32 * hi) (int (32 * i + k) + int (low_bit (drop_bit k (x ! i))))"
proof -
  let ?v = "drop_bit k (x ! i)"
  note l = low_bit [OF assms(3)]
  have b: "bit (x ! i) (k + low_bit ?v)" using l(1) by (simp add: bit_simps)
  then have lt: "k + low_bit ?v < 32" by (auto dest: bit_imp_le_length)
  have hi: "32 * i + 32 \<le> 32 * hi" using assms(4) by simp
  have "\<not> bm_bit x m" if m: "32 * i + k \<le> m" "m < 32 * i + (k + low_bit ?v)" for m
  proof -
    obtain j where "j < 32" "m = 32 * i + j" using word_range [of i m] m lt by auto
    then show ?thesis using l(2) [of "j - k"] m assms(1) by (simp add: bm_bit_at bit_simps)
  qed
  moreover have "bm_bit x (32 * i + (k + low_bit ?v))" using b lt assms(1) by (simp add: bm_bit_at)
  ultimately show ?thesis using lt hi unfolding is_first_def
    by (intro disjI1 exI [of _ "32 * i + (k + low_bit ?v)"]) (simp add: add.assoc)
qed

lemma word_none:
  assumes "i < length x" "drop_bit k (x ! i) = 0" "32 * i + k \<le> m" "m < 32 * i + 32"
  shows "\<not> bm_bit x m"
proof -
  obtain j where "j < 32" "m = 32 * i + j" using word_range [of i m] assms(3,4) by auto
  moreover have "bit (drop_bit k (x ! i)) (j - k) \<longleftrightarrow> False" by (simp add: assms(2))
  ultimately show ?thesis using assms(1,3) by (simp add: bm_bit_at bit_simps)
qed

lemma bitmap_one_loop_first:
  "i + n \<le> length x \<Longrightarrow> \<exists>r. bitmap_one_loop x n (int i) = Some r \<and> is_first x (32 * i) (32 * (i + n)) r"
proof (induction n arbitrary: i)
  case 0
  then show ?case by (auto simp: is_first_def)
next
  case (Suc n)
  have i: "i < length x" "arr_rd x (int i) = Some (x ! i)" using Suc.prems by (simp_all add: arr_rd_def)
  show ?case
  proof (cases "x ! i = 0")
    case True
    obtain r where "bitmap_one_loop x n (int (Suc i)) = Some r" "is_first x (32 * Suc i) (32 * (Suc i + n)) r"
      using Suc.IH [of "Suc i"] Suc.prems by auto
    moreover have "\<not> bm_bit x m" if "32 * i \<le> m" "m < 32 * Suc i" for m
      using word_none [of i x 0 m] i True that by simp
    ultimately show ?thesis using i True is_first_extend [of x "32 * Suc i" "32 * (Suc i + n)" r "32 * i"] by (simp add: add.commute)
  next
    case False
    have "sint (u_log32 (ls_one (x ! i))) = int (low_bit (x ! i))"
      using low_bit(3) [OF False] by (simp add: u_log32_ls_one [OF False] sint_small)
    then show ?thesis using i False word_first [of i x 0 "i + Suc n"] by (simp add: WORD_SIZE_def mult.commute)
  qed
qed

lemma bm_bit_drop: "bm_bit (drop w x) m \<longleftrightarrow> bm_bit x (32 * w + m)"
  by (auto simp: bm_bit_def less_diff_conv nth_append_right)

lemma bitmap_one_words_first:
  assumes "mx \<le> length x"
  shows "\<exists>r. bitmap_one_words x (int w) (int mx) = Some r \<and> is_first x (32 * w) (32 * mx) r"
proof (cases "w \<le> mx")
  case True
  then have "0 + (mx - w) \<le> length (drop w x)" using assms by simp
  from bitmap_one_loop_first [OF this]
  obtain r where r: "bitmap_one_loop (drop w x) (mx - w) 0 = Some r" "is_first (drop w x) 0 (32 * (mx - w)) r" by auto
  have "is_first x (32 * w) (32 * mx) (if r \<noteq> - 1 then r + int w * WORD_SIZE else r)"
  proof (cases "r = - 1")
    case True
    then have none: "\<not> bm_bit x (32 * w + m)" if "m < 32 * (mx - w)" for m
      using r(2) that by (auto simp: is_first_def bm_bit_drop)
    have "\<not> bm_bit x m" if "32 * w \<le> m" "m < 32 * mx" for m
      using none [of "m - 32 * w"] that by (simp add: diff_mult_distrib2)
    with True show ?thesis by (simp add: is_first_def)
  next
    case False
    with r(2) obtain n where n: "r = int n" "n < 32 * (mx - w)" "bm_bit x (32 * w + n)"
      "\<And>m. m < n \<Longrightarrow> \<not> bm_bit x (32 * w + m)" by (auto simp: is_first_def bm_bit_drop)
    have "\<not> bm_bit x m" if "32 * w \<le> m" "m < 32 * w + n" for m using n(4) [of "m - 32 * w"] that by simp
    with n(1-3) False \<open>w \<le> mx\<close> show ?thesis
      by (auto simp: is_first_def WORD_SIZE_def diff_mult_distrib2 intro!: exI [of _ "32 * w + n"])
  qed
  with r(1) True show ?thesis by (simp add: bitmap_one_words_def bitmap_one_def nat_diff_distrib)
next
  case False
  then show ?thesis by (auto simp: bitmap_one_words_def bitmap_one_def is_first_def)
qed

lemma bitmap_one_offset_first:
  assumes "mx \<le> length x" "off \<le> 32 * mx" "off < 2 ^ 31 - 32"
  shows "\<exists>r. bitmap_one_offset x (int off) (int mx) = Some r \<and> is_first x off (32 * mx) r"
proof (cases "off mod 32 = 0")
  case True
  then have "32 * (off div 32) = off" using mult_div_mod_eq [of 32 off] by simp
  with True show ?thesis using bitmap_one_words_first [OF assms(1), of "off div 32"] by (simp add: bitmap_one_offset_def int_idx)
next
  case False
  let ?i = "off div 32" and ?k = "off mod 32"
  let ?v = "drop_bit ?k (x ! ?i)"
  have off: "off = 32 * ?i + ?k" by simp
  have "32 * ?i < 32 * mx" using False assms(2) off by linarith
  then have i: "?i < length x" "?i < mx" using assms(1) by simp_all
  then have rd: "arr_rd x (int ?i) = Some (x ! ?i)" by (simp add: arr_rd_def)
  show ?thesis
  proof (cases "?v = 0")
    case True
    obtain r where r: "bitmap_one_words x (int (Suc ?i)) (int mx) = Some r" "is_first x (32 * Suc ?i) (32 * mx) r"
      using bitmap_one_words_first [OF assms(1), of "Suc ?i"] by blast
    have "is_first x off (32 * mx) r"
    proof (rule is_first_extend [OF r(2)])
      show "off \<le> 32 * Suc ?i" by presburger
      show "\<not> bm_bit x m" if "off \<le> m" "m < 32 * Suc ?i" for m
        by (rule word_none [OF i(1) True]) (use that off in simp_all)
    qed
    with r(1) show ?thesis using False True rd by (simp add: bitmap_one_offset_def int_idx add.commute)
  next
    case nz: False
    have "sint (u_log32 (ls_one ?v) + word_of_int (int off)) = int off + int (low_bit ?v)"
      using low_bit(3) [OF nz] assms(3) sint_small [of "off + low_bit ?v"] by (simp add: u_log32_ls_one [OF nz] add.commute)
    then show ?thesis using False nz rd word_first [of ?i x ?k mx] i by (simp add: bitmap_one_offset_def int_idx)
  qed
qed

section \<open>Extents\<close>

definition is_extent :: "u32 list \<Rightarrow> nat \<Rightarrow> nat \<Rightarrow> bool" where
  "is_extent x n len \<longleftrightarrow> (\<forall>m. n \<le> m \<and> m < n + len \<longrightarrow> bm_bit x m)"

definition first_extent :: "u32 list \<Rightarrow> nat \<Rightarrow> nat \<Rightarrow> nat \<Rightarrow> int \<Rightarrow> bool" where
  "first_extent x off len hi r \<longleftrightarrow>
     (\<exists>n. r = int n \<and> off \<le> n \<and> n + len \<le> hi \<and> is_extent x n len \<and> (\<forall>m. off \<le> m \<and> m < n \<longrightarrow> \<not> is_extent x m len)) \<or>
     r = - 1 \<and> (\<forall>n. off \<le> n \<and> n + len \<le> hi \<longrightarrow> \<not> is_extent x n len)"

lemma not_extent: "\<not> bm_bit x m \<Longrightarrow> n \<le> m \<Longrightarrow> m < n + len \<Longrightarrow> \<not> is_extent x n len"
  by (auto simp: is_extent_def)

text \<open>What the loop knows at position \<open>i\<close>: the bits from \<open>start\<close> to \<open>i\<close> are set, and no extent starts earlier.\<close>

definition scan_inv :: "u32 list \<Rightarrow> nat \<Rightarrow> nat \<Rightarrow> nat \<Rightarrow> nat \<Rightarrow> bool" where
  "scan_inv x off len i start \<longleftrightarrow> off \<le> start \<and> start \<le> i \<and> i < start + len \<and>
     is_extent x start (i - start) \<and> (\<forall>n. off \<le> n \<and> n < start \<longrightarrow> \<not> is_extent x n len)"

lemma scan_inv_none:
  assumes "scan_inv x off len i start" "2 \<le> len" "\<And>m. i \<le> m \<Longrightarrow> m < hi \<Longrightarrow> \<not> bm_bit x m" "off \<le> n" "n + len \<le> hi"
  shows "\<not> is_extent x n len"
proof -
  consider "n < start" | "start \<le> n" "n \<le> i" | "i < n" by linarith
  then show ?thesis
  proof cases
    case 2
    then have "i < n + len" using assms(1) by (auto simp: scan_inv_def)
    then show ?thesis using not_extent [of x "n + len - 1" n len] assms(2,3,5) by simp
  next
    case 3
    then show ?thesis using not_extent [of x n n len] assms(2,3,5) by simp
  qed (use assms(1,4) in \<open>simp add: scan_inv_def\<close>)
qed

lemma scan_inv_skip:
  assumes "scan_inv x off len i start" "2 \<le> len" "i < n" "bm_bit x n" "\<And>m. i \<le> m \<Longrightarrow> m < n \<Longrightarrow> \<not> bm_bit x m"
  shows "scan_inv x off len (Suc n) n"
proof -
  have "\<not> is_extent x m len" if "off \<le> m" "m < n" for m
  proof -
    consider "m < start" | "start \<le> m" "m \<le> i" | "i < m" by linarith
    then show ?thesis
    proof cases
      case 2
      then show ?thesis using not_extent [of x i m len] assms(1,3) assms(5) [of i] by (simp add: scan_inv_def)
    next
      case 3
      then show ?thesis using not_extent [of x m m len] assms(2) assms(5) [of m] that by simp
    qed (use assms(1) that in \<open>simp add: scan_inv_def\<close>)
  qed
  moreover have "is_extent x n (Suc n - n)" using assms(4) by (auto simp: is_extent_def less_Suc_eq dest: le_antisym)
  ultimately show ?thesis using assms(1-3) by (auto simp: scan_inv_def)
qed

lemma scan_inv_extend:
  assumes "scan_inv x off len i start" "bm_bit x i"
  shows "is_extent x start (Suc i - start)"
  using assms unfolding is_extent_def scan_inv_def
  by (metis Suc_diff_le Suc_leI add_Suc_right le_add_diff_inverse less_Suc_eq)

lemma is_first_cases:
  assumes "is_first x i hi r"
  obtains (none) "r = - 1" "\<And>m. i \<le> m \<Longrightarrow> m < hi \<Longrightarrow> \<not> bm_bit x m"
  | (here) "r = int i" "bm_bit x i"
  | (later) n where "r = int n" "i < n" "n < hi" "bm_bit x n" "\<And>m. i \<le> m \<Longrightarrow> m < n \<Longrightarrow> \<not> bm_bit x m"
  using assms unfolding is_first_def by (metis le_neq_implies_less)

lemma contiguous_loop_first:
  assumes "mx \<le> length x" "32 * mx < 2 ^ 31 - 32" "2 \<le> len" "32 * mx - i \<le> k" "i \<le> 32 * mx" "scan_inv x off len i start"
  shows "\<exists>r. contiguous_loop k x (int len) (int mx) (int i) (int start) = Some r \<and> first_extent x off len (32 * mx) r"
  using assms(4-)
proof (induction k arbitrary: i start)
  case 0
  then show ?case using scan_inv_none [OF 0(3) assms(3), of "32 * mx"]
    by (subst contiguous_loop.simps) (auto simp: first_extent_def)
next
  case (Suc k)
  note unfold = contiguous_loop.simps [of "Suc k"]
  show ?case
  proof (cases "i = 32 * mx")
    case True
    then show ?thesis using scan_inv_none [OF Suc.prems(3) assms(3), of "32 * mx"] by (simp add: unfold first_extent_def)
  next
    case False
    with Suc.prems have i: "i < 32 * mx" by simp
    obtain r where r: "bitmap_one_offset x (int i) (int mx) = Some r" "is_first x i (32 * mx) r"
      using bitmap_one_offset_first [OF assms(1), of i] i assms(2) by auto
    from r(2) show ?thesis
    proof (cases rule: is_first_cases)
      case none
      then show ?thesis using r(1) i scan_inv_none [OF Suc.prems(3) assms(3), of "32 * mx"] by (simp add: unfold first_extent_def)
    next
      case here
      note ext = scan_inv_extend [OF Suc.prems(3) here(2)]
      have le: "start \<le> i" using Suc.prems(3) by (simp add: scan_inv_def)
      show ?thesis
      proof (cases "int i - int start + 1 \<ge> int len")
        case True
        then have "Suc i = start + len" using Suc.prems(3) by (simp add: scan_inv_def)
        then have "first_extent x off len (32 * mx) (int start)"
          using ext i Suc.prems(3) by (auto simp: first_extent_def scan_inv_def)
        with r(1) here(1) i True show ?thesis by (simp add: unfold)
      next
        case more: False
        then have "scan_inv x off len (Suc i) start" using Suc.prems(3) ext by (auto simp: scan_inv_def)
        from Suc.IH [OF _ _ this] r(1) here(1) i more Suc.prems(1) show ?thesis by (simp add: unfold add.commute)
      qed
    next
      case (later n)
      from Suc.IH [OF _ _ scan_inv_skip [OF Suc.prems(3) assms(3) later(2,4,5)]] r(1) later(1-3) i Suc.prems(1)
      show ?thesis by (simp add: unfold add.commute)
    qed
  qed
qed

lemma bitmap_contiguous_ones_first:
  assumes "mx \<le> length x" "32 * mx < 2 ^ 31 - 32" "2 \<le> len" "off \<le> 32 * mx"
  shows "\<exists>r. bitmap_contiguous_ones x (int off) (int len) (int mx) = Some r \<and> first_extent x off len (32 * mx) r"
proof -
  have "scan_inv x off len off off" using assms(3) by (auto simp: scan_inv_def is_extent_def)
  moreover have "nat (int mx * 32 - int off) = 32 * mx - off" by linarith
  ultimately show ?thesis
    using contiguous_loop_first [OF assms(1-3) le_refl assms(4)] by (simp add: bitmap_contiguous_ones_def)
qed

lemma clear_extent:
  assumes "n + len \<le> 32 * length x"
  shows "\<exists>y. set_contig_loop (int n) len False x = Some y \<and> length y = length x \<and>
    (\<forall>m. bm_bit y m \<longleftrightarrow> bm_bit x m \<and> \<not> (n \<le> m \<and> m < n + len))"
  using assms
proof (induction len arbitrary: n x)
  case (Suc len)
  obtain y where y: "bitmap_unset x (int n) = Some y" "length y = length x" "\<And>m. bm_bit y m \<longleftrightarrow> m \<noteq> n \<and> bm_bit x m"
    using bitmap_unset_bit [of n x] Suc.prems by auto
  obtain z where z: "set_contig_loop (int (Suc n)) len False y = Some z" "length z = length y"
    "\<And>m. bm_bit z m \<longleftrightarrow> bm_bit y m \<and> \<not> (Suc n \<le> m \<and> m < Suc n + len)"
    using Suc.IH [of "Suc n" y] Suc.prems y(2) by auto
  have "bm_bit z m \<longleftrightarrow> bm_bit x m \<and> \<not> (n \<le> m \<and> m < n + Suc len)" for m
    using y(3) [of m] z(3) [of m] by (cases "m = n") auto
  with y(1,2) z(1,2) show ?case by (simp add: add.commute)
qed simp

text \<open>
  C21. Allocation of extents of at least two bits from a bitmap: when the bitmap has the \<open>mx\<close> words that are to be
  searched, their bits can be counted in an \<^verbatim>\<open>int\<close>, and the offset is not beyond them,
  \<^verbatim>\<open>bitmap_extent_find_set\<close> for \<open>len \<ge> 2\<close> bits returns the first position, at or after the offset, where the
  whole extent is set, and clears exactly these bits; it returns \<^verbatim>\<open>-1\<close> and leaves the bitmap alone only if there is
  no such position.  Extents of a single bit are excluded: the search misses them, as is shown below.
\<close>

theorem bitmap_extent_find_set_correct:
  assumes "mx \<le> length x" "32 * mx < 2 ^ 31 - 32" "2 \<le> len" "off \<le> 32 * mx"
  shows "\<exists>r y. bitmap_extent_find_set (int off) (int len) (int mx) x = Some (r, y) \<and> first_extent x off len (32 * mx) r \<and>
    length y = length x \<and> (\<forall>m. bm_bit y m \<longleftrightarrow> bm_bit x m \<and> \<not> (r \<le> int m \<and> int m < r + int len \<and> 0 \<le> r))"
proof -
  obtain r where r: "bitmap_contiguous_ones x (int off) (int len) (int mx) = Some r" "first_extent x off len (32 * mx) r"
    using bitmap_contiguous_ones_first [OF assms] by blast
  show ?thesis
  proof (cases "r < 0")
    case False
    then obtain n where n: "r = int n" "n + len \<le> 32 * length x" using r(2) assms(1) by (auto simp: first_extent_def)
    from clear_extent [OF n(2)] r show ?thesis by (auto simp: bitmap_extent_find_set_def bitmap_set_contig_def n(1))
  qed (use r in \<open>auto simp: bitmap_extent_find_set_def\<close>)
qed

theorem bitmap_extent_find_set_correct_witness:
  "bitmap_extent_find_set 0 3 2 [0x80000006, 7] = Some (31, [6, 4]) \<and> first_extent [0x80000006, 7] 0 3 64 31"
proof -
  have "bitmap_extent_find_set 0 3 2 [0x80000006, 7] = Some (31, [6, 4])" by code_simp
  then show ?thesis using bitmap_extent_find_set_correct [of 2 "[0x80000006, 7]" 3 0] by simp
qed

text \<open>
  An extent of one bit is missed when it does not lie at the offset itself: the loop notes the position
  of the next set bit as a possible start, but does not compare the extent with one before it goes on.
\<close>

theorem bitmap_single_missed:
  "bitmap_contiguous_ones [8] 0 1 1 = Some (- 1) \<and> bitmap_contiguous_ones [8] 3 1 1 = Some 3 \<and> is_extent [8] 3 1"
proof -
  have "is_extent [8] 3 1 \<longleftrightarrow> bm_bit [8] 3" by (auto simp: is_extent_def less_Suc_eq_le dest: le_antisym)
  moreover have "bm_bit [8] 3" "bitmap_contiguous_ones [8] 0 1 1 = Some (- 1)" "bitmap_contiguous_ones [8] 3 1 1 = Some 3"
    by code_simp+
  ultimately show ?thesis by simp
qed

end
