(* ===== verification/Eos_Mca.thy ===== *)
theory Eos_Mca
  imports Eos_Ring Sl_Thd Bitmap
begin

text \<open>
  The message copy agent of EOS (\<^verbatim>\<open>eos_mca.c\<close>, \<^verbatim>\<open>eos_mca.h\<close> in \<^verbatim>\<open>components/implementation/no_interface/fwp_manager\<close>).  A
  connection joins the output ring of one network function to the input ring of the next.  The agent copies
  packets along all connections, inherits the deadline of a source to its destination, and wakes the thread of the
  destination up on its core (\<^verbatim>\<open>eos_sched.c\<close>, \<^verbatim>\<open>sl_xcpu.c\<close>).

  The rings between cores are those of the library \<^verbatim>\<open>ck\<close>, and the cycle counter and the atomic load those of the
  library \<^verbatim>\<open>ps\<close>; both are parameters, collected in the environment, and \<open>'q\<close> is the state of the rings between cores.
  A pointer to an element of \<^verbatim>\<open>global_info\<close> is its index.
\<close>

section \<open>Data\<close>

abbreviation (input) MCA_CONN_MAX_NUM :: nat where "MCA_CONN_MAX_NUM \<equiv> 2048"
abbreviation (input) MCA_BURST_CNT :: nat where "MCA_BURST_CNT \<equiv> 4"
abbreviation (input) NF_MIN_CORE :: nat where "NF_MIN_CORE \<equiv> 4"
abbreviation (input) EOS_MAX_CHAIN_NUM_PER_CORE :: nat where "EOS_MAX_CHAIN_NUM_PER_CORE \<equiv> 1"
abbreviation (input) EOS_MAX_NF_CHAIN_TYPE_NUM :: nat where "EOS_MAX_NF_CHAIN_TYPE_NUM \<equiv> 3"
abbreviation (input) EOS_MAX_DEADLINE :: u64 where "EOS_MAX_DEADLINE \<equiv> NOT 0"

definition EOS_MAX_CHAIN_NUM :: nat where
  "EOS_MAX_CHAIN_NUM = EOS_MAX_CHAIN_NUM_PER_CORE * (NUM_CPU - NF_MIN_CORE) + EOS_MAX_NF_CHAIN_TYPE_NUM"

lemma EOS_MAX_CHAIN_NUM_eq [simp]: "EOS_MAX_CHAIN_NUM = 15"
  by (simp add: EOS_MAX_CHAIN_NUM_def NUM_CPU_def)

text \<open>\<open>OFFSET_US\<close> microseconds, and half a second, in cycles.\<close>

definition MCA_OFFSET :: u64 where "MCA_OFFSET = 1000 * 2100"
definition MCA_HORIZON :: u64 where "MCA_HORIZON = 500 * 1000 * 2100"

record mca_info =
  mi_deadline :: u64
  mi_info_idx :: int
  mi_used :: bool
  mi_empty_flag :: bool

record mca_conn =
  cn_src_ring :: addr
  cn_dst_ring :: addr
  cn_next :: addr
  cn_src_info :: nat
  cn_dst_info :: nat
  cn_used :: bool

record mca_op =
  op_tid :: u16
  op_shmem_addr :: addr

record 'q mca_env =
  ck_dequeue_mca :: "int \<Rightarrow> 'q \<Rightarrow> (mca_op \<times> 'q) option"
  ck_enqueue_mca :: "int \<Rightarrow> mca_op \<Rightarrow> 'q \<Rightarrow> bool \<times> 'q"
  ck_enqueue_xcpu :: "int \<Rightarrow> u16 \<times> u64 \<Rightarrow> 'q \<Rightarrow> bool \<times> 'q"
  ck_init_mca :: "int \<Rightarrow> 'q \<Rightarrow> 'q"
  ps_tsc :: "nat \<Rightarrow> u64"
  ps_ld :: "addr \<Rightarrow> addr"
  me_cpu :: int
  cpu_bmp :: "u32 list"

record 'q mca_st =
  shm :: eos_st
  conns :: "addr \<Rightarrow> mca_conn"
  g_fl :: addr
  g_lh :: addr
  g_info :: "nat \<Rightarrow> mca_info"
  xq :: 'q
  tsc_reads :: nat

definition upd_info :: "nat \<Rightarrow> (mca_info \<Rightarrow> mca_info) \<Rightarrow> 'q mca_st \<Rightarrow> 'q mca_st" where
  "upd_info i f s = s\<lparr>g_info := (g_info s)(i := f (g_info s i))\<rparr>"

definition upd_conn :: "addr \<Rightarrow> (mca_conn \<Rightarrow> mca_conn) \<Rightarrow> 'q mca_st \<Rightarrow> 'q mca_st" where
  "upd_conn c f s = s\<lparr>conns := (conns s)(c := f (conns s c))\<rparr>"

definition read_tsc :: "'q mca_env \<Rightarrow> 'q mca_st \<Rightarrow> u64 \<times> 'q mca_st" where
  "read_tsc E s = (ps_tsc E (tsc_reads s), s\<lparr>tsc_reads := tsc_reads s + 1\<rparr>)"

abbreviation info_dl :: "'q mca_st \<Rightarrow> nat \<Rightarrow> u64" where
  "info_dl s i \<equiv> mi_deadline (g_info s i)"

section \<open>Deadlines\<close>

text \<open>
  A network function that blocks asks the agent, through the ring of its core, to forget its deadline
  (\<^verbatim>\<open>fwp_sinv.c\<close>); the agent does so when its output ring has been emptied.
\<close>

definition mca_xcpu_thd_dl_reset :: "'q mca_env \<Rightarrow> u16 \<Rightarrow> int \<Rightarrow> addr \<Rightarrow> ('q mca_st, int) kop" where
  "mca_xcpu_thd_dl_reset E td cpu shmem_addr s = do {
     let (ok, q) = ck_enqueue_mca E cpu \<lparr>op_tid = td, op_shmem_addr = shmem_addr\<rparr> (xq s);
     kassert ok;
     Some (0, s\<lparr>xq := q\<rparr>)
   }"

partial_function (option) xcpu_drain :: "'q mca_env \<Rightarrow> int \<Rightarrow> int \<Rightarrow> 'q mca_st \<Rightarrow> (int \<times> 'q mca_st) option" where
  "xcpu_drain E cpu num s = (case ck_dequeue_mca E cpu (xq s) of
       None \<Rightarrow> Some (num, s)
     | Some (op, q) \<Rightarrow> do {
         kassert (unat (op_tid op) < MCA_CONN_MAX_NUM);
         let i = unat (op_tid op) + EOS_MAX_CHAIN_NUM;
         let s1 = s\<lparr>xq := q\<rparr>;
         if sint (er_pkt_cnt (rings (shm s) (get_output_ring (op_shmem_addr op)))) > 0
         then xcpu_drain E cpu num (upd_info i (mi_empty_flag_update (\<lambda>_. True)) s1)
         else xcpu_drain E cpu (num + 1) (upd_info i (mi_deadline_update (\<lambda>_. EOS_MAX_DEADLINE)) s1)
       })"

fun xcpu_cpus :: "'q mca_env \<Rightarrow> nat list \<Rightarrow> int \<Rightarrow> 'q mca_st \<Rightarrow> (int \<times> 'q mca_st) option" where
  "xcpu_cpus E [] num s = Some (num, s)"
| "xcpu_cpus E (c # cs) num s = do { (num', s') \<leftarrow> xcpu_drain E (int c) num s; xcpu_cpus E cs num' s' }"

definition mca_xcpu_process :: "'q mca_env \<Rightarrow> ('q mca_st, int) kop" where
  "mca_xcpu_process E s = xcpu_cpus E [NF_MIN_CORE..<NUM_CPU] 0 s"

definition mca_info_get :: "int \<Rightarrow> ('q mca_st, nat) kop" where
  "mca_info_get td s = do {
     kassert (0 \<le> td \<and> td < int (MCA_CONN_MAX_NUM + EOS_MAX_CHAIN_NUM));
     let i = nat td;
     let s1 = upd_info i (mi_info_idx_update (\<lambda>_. td)) s;
     let fresh = upd_info i (\<lambda>x. x\<lparr>mi_info_idx := td, mi_deadline := EOS_MAX_DEADLINE, mi_used := True\<rparr>) s1;
     if td < int EOS_MAX_CHAIN_NUM then do { kassert (\<not> mi_used (g_info s1 i)); Some (i, fresh) }
     else Some (i, if mi_used (g_info s1 i) then s1 else fresh)
   }"

section \<open>Connections\<close>

text \<open>The heads of the two lists of connections, \<^verbatim>\<open>fl\<close> and \<^verbatim>\<open>lh\<close>.\<close>

datatype conn_list = FL | LH

fun list_head :: "conn_list \<Rightarrow> 'q mca_st \<Rightarrow> addr" where
  "list_head FL s = g_fl s"
| "list_head LH s = g_lh s"

fun set_head :: "conn_list \<Rightarrow> addr \<Rightarrow> 'q mca_st \<Rightarrow> 'q mca_st" where
  "set_head FL c s = s\<lparr>g_fl := c\<rparr>"
| "set_head LH c s = s\<lparr>g_lh := c\<rparr>"

partial_function (option) mca_push_l :: "'q mca_env \<Rightarrow> conn_list \<Rightarrow> addr \<Rightarrow> 'q mca_st \<Rightarrow> 'q mca_st option" where
  "mca_push_l E l c s = (
     let t = ps_ld E (list_head l s); s1 = upd_conn c (cn_next_update (\<lambda>_. t)) s;
         (ok, h) = cos_cas (list_head l s1) t c; s2 = set_head l h s1
     in if ok = 0 then mca_push_l E l c s2 else Some s2)"

partial_function (option) conn_pop :: "'q mca_env \<Rightarrow> 'q mca_st \<Rightarrow> (addr \<times> 'q mca_st) option" where
  "conn_pop E s = (
     let r = ps_ld E (g_fl s); t = cn_next (conns s r); (ok, h) = cos_cas (g_fl s) r t; s1 = s\<lparr>g_fl := h\<rparr>
     in if ok = 0 then conn_pop E s1 else Some (r, s1))"

definition mca_conn_alloc :: "'q mca_env \<Rightarrow> ('q mca_st, addr) kop" where
  "mca_conn_alloc E s = do { kassert (g_fl s \<noteq> 0); conn_pop E s }"

definition mca_conn_collect :: "'q mca_env \<Rightarrow> addr \<Rightarrow> 'q mca_st \<Rightarrow> 'q mca_st option" where
  "mca_conn_collect E c s = mca_push_l E FL c s"

definition mca_conn_create :: "'q mca_env \<Rightarrow> addr \<Rightarrow> addr \<Rightarrow> int \<Rightarrow> int \<Rightarrow> ('q mca_st, addr) kop" where
  "mca_conn_create E src dst src_thdid dst_thdid s = do {
     (conn, s1) \<leftarrow> mca_conn_alloc E s;
     kassert (conn \<noteq> 0);
     let s2 = upd_conn conn (\<lambda>c. c\<lparr>cn_src_ring := src, cn_dst_ring := dst\<rparr>) s1;
     (i, s3) \<leftarrow> mca_info_get src_thdid s2;
     let s4 = upd_conn conn (cn_src_info_update (\<lambda>_. i)) s3;
     kassert (mi_info_idx (g_info s4 i) = src_thdid);
     (j, s5) \<leftarrow> mca_info_get dst_thdid s4;
     let s6 = upd_conn conn (cn_dst_info_update (\<lambda>_. j)) s5;
     kassert (mi_info_idx (g_info s6 j) = dst_thdid);
     s7 \<leftarrow> mca_push_l E LH conn (upd_conn conn (cn_used_update (\<lambda>_. True)) s6);
     Some (conn, s7)
   }"

definition mca_conn_free :: "addr \<Rightarrow> 'q mca_st \<Rightarrow> 'q mca_st" where
  "mca_conn_free conn s = upd_conn conn (cn_used_update (\<lambda>_. False)) s"

abbreviation (input) sizeof_mca_conn :: u32 where "sizeof_mca_conn \<equiv> 40"

definition zero_conn :: mca_conn where
  "zero_conn = \<lparr>cn_src_ring = 0, cn_dst_ring = 0, cn_next = 0, cn_src_info = 0, cn_dst_info = 0, cn_used = False\<rparr>"

definition zero_info :: mca_info where
  "zero_info = \<lparr>mi_deadline = 0, mi_info_idx = 0, mi_used = False, mi_empty_flag = False\<rparr>"

text \<open>\<open>pgs\<close> is the memory that \<^verbatim>\<open>cos_page_bump_allocn\<close> returns.\<close>

fun init_conns :: "addr \<Rightarrow> nat \<Rightarrow> nat \<Rightarrow> (addr \<Rightarrow> mca_conn) \<Rightarrow> addr \<Rightarrow> mca_conn" where
  "init_conns pgs 0 i m = m(pgs + of_nat i * sizeof_mca_conn := zero_conn)"
| "init_conns pgs (Suc n) i m =
     init_conns pgs n (i + 1) (m(pgs + of_nat i * sizeof_mca_conn := zero_conn\<lparr>cn_next := pgs + of_nat (i + 1) * sizeof_mca_conn\<rparr>))"

definition mca_init :: "'q mca_env \<Rightarrow> addr \<Rightarrow> 'q mca_st \<Rightarrow> 'q mca_st option" where
  "mca_init E pgs s = do {
     kassert (pgs \<noteq> 0);
     Some (s\<lparr>g_lh := 0, g_fl := pgs, conns := init_conns pgs (MCA_CONN_MAX_NUM - 1) 0 (conns s),
       xq := fold (\<lambda>c. ck_init_mca E (int c)) [NF_MIN_CORE..<NUM_CPU] (xq s),
       g_info := (\<lambda>i. if i < EOS_MAX_CHAIN_NUM + MCA_CONN_MAX_NUM then zero_info else g_info s i)\<rparr>)
   }"

section \<open>Copying\<close>

definition mca_copy :: "addr \<Rightarrow> addr \<Rightarrow> u32 \<Rightarrow> (addr \<Rightarrow> u8) \<Rightarrow> addr \<Rightarrow> u8" where
  "mca_copy dst src sl b = (\<lambda>a. if a - dst < sl then b (src + (a - dst)) else b a)"

definition transfer_pkt :: "eos_ring_node \<Rightarrow> int \<Rightarrow> eos_ring_node \<Rightarrow> (addr \<Rightarrow> u8) \<Rightarrow> (eos_ring_node \<times> (addr \<Rightarrow> u8)) option" where
  "transfer_pkt sn i rn b = do {
     smeta \<leftarrow> arr_rd (rn_pkts sn) i;
     rmeta \<leftarrow> arr_rd (rn_pkts rn) i;
     ps \<leftarrow> arr_wr (rn_pkts rn) i (rmeta\<lparr>m_len := m_len smeta, m_port := m_port smeta\<rparr>);
     Some (rn\<lparr>rn_pkts := ps\<rparr>, mca_copy (m_pkt rmeta) (m_pkt smeta) (m_len smeta) b)
   }"

fun transfer_loop :: "eos_ring_node \<Rightarrow> nat \<Rightarrow> nat \<Rightarrow> eos_ring_node \<Rightarrow> (addr \<Rightarrow> u8) \<Rightarrow> (eos_ring_node \<times> (addr \<Rightarrow> u8)) option" where
  "transfer_loop sn 0 i rn b = Some (rn, b)"
| "transfer_loop sn (Suc n) i rn b = do {
     smeta \<leftarrow> arr_rd (rn_pkts sn) (int i);
     kassert (sint (m_len smeta) \<le> int EOS_PKT_MAX_SZ);
     (rn', b') \<leftarrow> transfer_pkt sn (int i) rn b;
     transfer_loop sn n (i + 1) rn' b'
   }"

definition mca_transfer :: "eos_ring_node \<Rightarrow> eos_ring_node \<Rightarrow> (addr \<Rightarrow> u8) \<Rightarrow> (eos_ring_node \<times> (addr \<Rightarrow> u8)) option" where
  "mca_transfer sn rn b = do {
     let cnt = sint (rn_cnt sn) - 1;
     (rn1, b1) \<leftarrow> transfer_loop sn (nat cnt) 0 (rn\<lparr>rn_deadline := rn_deadline sn, rn_arrive := rn_arrive sn\<rparr>) b;
     (rn2, b2) \<leftarrow> transfer_pkt sn cnt rn1 b1;
     Some (rn2\<lparr>rn_cnt := rn_cnt sn, rn_state := PKT_RECV_READY\<rparr>, b2)
   }"

text \<open>One node is copied from the ring \<open>src\<close> to the ring \<open>dst\<close>: the part of \<^verbatim>\<open>mca_process\<close> that changes the rings.\<close>

definition mca_move :: "addr \<Rightarrow> addr \<Rightarrow> eos_st \<Rightarrow> eos_st option" where
  "mca_move src dst s = do {
     let sn = GET_RING_NODE s src (er_mca_head (rings s src) AND EOS_RING_MASK);
     let rn = GET_RING_NODE s dst (er_free_head (rings s dst) AND EOS_RING_MASK);
     (rcache, b) \<leftarrow> mca_transfer (nodes s sn) (nodes s rn) (bytes s);
     let s1 = upd_node sn (rn_state_update (\<lambda>_. PKT_SENT_DONE)) (s\<lparr>bytes := b\<rparr>);
     let s2 = upd_node rn (\<lambda>_. rcache) s1;
     let s3 = upd_rg dst (\<lambda>x. x\<lparr>er_free_head := er_free_head x + 1\<rparr>) s2;
     let s4 = upd_rg src (\<lambda>x. x\<lparr>er_mca_head := er_mca_head x + 1\<rparr>) s3;
     let s5 = faa_pkt_cnt src (- scast (rn_cnt (nodes s4 sn))) s4;
     Some (faa_pkt_cnt dst (scast (rn_cnt (nodes s5 sn))) s5)
   }"

text \<open>Whether a node is there to be copied, and one to copy it to.\<close>

definition mca_ready :: "addr \<Rightarrow> addr \<Rightarrow> eos_st \<Rightarrow> bool option" where
  "mca_ready src dst s =
     (let sn = GET_RING_NODE s src (er_mca_head (rings s src) AND EOS_RING_MASK);
          rn = GET_RING_NODE s dst (er_free_head (rings s dst) AND EOS_RING_MASK)
      in if rn_state (nodes s sn) \<noteq> PKT_SENT_READY then Some False
         else if rn_state (nodes s rn) \<noteq> PKT_FREE then Some False
         else do { kassert (rn_cnt (nodes s sn) \<noteq> 0); kassert (rn_cnt (nodes s rn) = 0); Some True })"

text \<open>
  Whether the deadlines allow the copy, in the \<open>r\<close>-th iteration: the destination must not be busy with packets that
  are due earlier.  \<open>dl\<close> is the deadline of the node.
\<close>

definition mca_admit :: "'q mca_env \<Rightarrow> addr \<Rightarrow> nat \<Rightarrow> nat \<Rightarrow> u64 \<Rightarrow> nat \<Rightarrow> ('q mca_st, bool) kop" where
  "mca_admit E dst src_info dst_info dl r s = do {
     (num, s1) \<leftarrow> mca_xcpu_process E s;
     let s2 = (if mi_empty_flag (g_info s1 dst_info) \<and> er_pkt_cnt (rings (shm s1) (get_output_ring dst)) = 0 \<and>
                 er_pkt_cnt (rings (shm s1) (get_input_ring dst)) = 0
               then upd_info dst_info (\<lambda>x. x\<lparr>mi_deadline := EOS_MAX_DEADLINE, mi_empty_flag := False\<rparr>) s1 else s1);
     s3 \<leftarrow> (if mi_info_idx (g_info s2 src_info) < int EOS_MAX_CHAIN_NUM then do {
              let s' = upd_info src_info (mi_deadline_update (\<lambda>_. dl)) s2;
              kassert (info_dl s' src_info < EOS_MAX_DEADLINE);
              let (curr, s'') = read_tsc E s';
              kassert (info_dl s'' src_info \<le> MCA_HORIZON + curr);
              Some s''
            } else Some s2);
     kassert (info_dl s3 src_info \<noteq> 0);
     let s4 = (if info_dl s3 src_info = EOS_MAX_DEADLINE then upd_info src_info (mi_deadline_update (\<lambda>_. dl)) s3 else s3);
     kassert (info_dl s4 src_info < EOS_MAX_DEADLINE);
     if mi_info_idx (g_info s4 src_info) \<ge> int EOS_MAX_CHAIN_NUM \<and> info_dl s4 src_info > info_dl s4 dst_info then Some (False, s4)
     else if info_dl s4 src_info - MCA_OFFSET > info_dl s4 dst_info \<or> r > 1 then Some (False, s4)
     else Some (True, s4)
   }"

definition sl_xcpu_thd_wakeup_with_dl :: "'q mca_env \<Rightarrow> int \<Rightarrow> u16 \<Rightarrow> u64 \<Rightarrow> ('q mca_st, int) kop" where
  "sl_xcpu_thd_wakeup_with_dl E cpu td sp s =
     (if cpu = me_cpu E then Some (- EINVAL, s)
      else do {
        b \<leftarrow> bitmap_check (cpu_bmp E) cpu;
        if b = 0 then Some (- EINVAL, s)
        else let (ok, q) = ck_enqueue_xcpu E cpu (td, sp) (xq s) in Some (if ok then 0 else - ENOMEM, s\<lparr>xq := q\<rparr>)
      })"

definition eos_thd_wakeup_with_dl :: "'q mca_env \<Rightarrow> int \<Rightarrow> u16 \<Rightarrow> u64 \<Rightarrow> ('q mca_st, int) kop" where
  "eos_thd_wakeup_with_dl E cpu td deadline s = do {
     kassert (cpu \<noteq> me_cpu E);
     sl_xcpu_thd_wakeup_with_dl E cpu td (sched_param_pack SCHEDP_DEADLINE deadline) s
   }"

text \<open>The destination inherits the deadline of the source, and its thread is woken up.\<close>

definition mca_wakeup :: "'q mca_env \<Rightarrow> addr \<Rightarrow> nat \<Rightarrow> nat \<Rightarrow> 'q mca_st \<Rightarrow> 'q mca_st option" where
  "mca_wakeup E dst src_info dst_info s = do {
     let dst_tid = word_of_int (mi_info_idx (g_info s dst_info) - int EOS_MAX_CHAIN_NUM);
     s1 \<leftarrow> (if info_dl s dst_info > info_dl s src_info then do {
              kassert (info_dl s src_info < EOS_MAX_DEADLINE);
              kassert (info_dl s dst_info = EOS_MAX_DEADLINE);
              let s' = upd_info dst_info (mi_deadline_update (\<lambda>_. info_dl s src_info)) s;
              kassert (info_dl s' dst_info \<noteq> 0);
              Some s'
            } else do {
              kassert (info_dl s src_info \<noteq> EOS_MAX_DEADLINE);
              kassert (info_dl s dst_info \<noteq> EOS_MAX_DEADLINE);
              Some s
            });
     let (curr, s2) = read_tsc E s1;
     kassert (info_dl s2 dst_info \<le> curr + MCA_HORIZON);
     (ret, s3) \<leftarrow> eos_thd_wakeup_with_dl E (sint (er_coreid (rings (shm s2) dst))) dst_tid (info_dl s2 dst_info) s2;
     kassert (ret = 0);
     Some s3
   }"

definition mca_body :: "'q mca_env \<Rightarrow> mca_conn \<Rightarrow> nat \<Rightarrow> ('q mca_st, bool) kop" where
  "mca_body E c r s = do {
     ready \<leftarrow> mca_ready (cn_src_ring c) (cn_dst_ring c) (shm s);
     if \<not> ready then Some (False, s) else do {
       let sn = GET_RING_NODE (shm s) (cn_src_ring c) (er_mca_head (rings (shm s) (cn_src_ring c)) AND EOS_RING_MASK);
       (ok, s1) \<leftarrow> mca_admit E (cn_dst_ring c) (cn_src_info c) (cn_dst_info c) (rn_deadline (nodes (shm s) sn)) r s;
       if \<not> ok then Some (False, s1) else do {
         m \<leftarrow> mca_move (cn_src_ring c) (cn_dst_ring c) (shm s1);
         s2 \<leftarrow> mca_wakeup E (cn_dst_ring c) (cn_src_info c) (cn_dst_info c) (s1\<lparr>shm := m\<rparr>);
         Some (True, s2)
       }
     }
   }"

text \<open>The loop of \<^verbatim>\<open>mca_process\<close>; \<open>n\<close> is how many iterations may follow this one.\<close>

fun mca_loop :: "'q mca_env \<Rightarrow> addr \<Rightarrow> nat \<Rightarrow> nat \<Rightarrow> ('q mca_st, int) kop" where
  "mca_loop E conn n r s = do {
     (ok, s1) \<leftarrow> mca_body E (conns s conn) r s;
     if \<not> ok then Some (- 1, s1)
     else case n of 0 \<Rightarrow> Some (int r + 1, s1) | Suc m \<Rightarrow> mca_loop E conn m (r + 1) s1
   }"

definition mca_process :: "'q mca_env \<Rightarrow> addr \<Rightarrow> nat \<Rightarrow> ('q mca_st, int) kop" where
  "mca_process E conn burst s = mca_loop E conn (burst - 1) 0 s"

text \<open>
  The scan of the list of connections.  The pointer \<^verbatim>\<open>p\<close> to a cell is \<open>None\<close> for the head \<^verbatim>\<open>lh\<close>, otherwise the connection
  whose field \<^verbatim>\<open>next\<close> it points to.
\<close>

definition cell :: "addr option \<Rightarrow> 'q mca_st \<Rightarrow> addr" where
  "cell p s = (case p of None \<Rightarrow> g_lh s | Some c \<Rightarrow> cn_next (conns s c))"

definition set_cell :: "addr option \<Rightarrow> addr \<Rightarrow> 'q mca_st \<Rightarrow> 'q mca_st" where
  "set_cell p v s = (case p of None \<Rightarrow> s\<lparr>g_lh := v\<rparr> | Some c \<Rightarrow> upd_conn c (cn_next_update (\<lambda>_. v)) s)"

partial_function (option) scan_loop :: "'q mca_env \<Rightarrow> addr option \<Rightarrow> addr \<Rightarrow> 'q mca_st \<Rightarrow> 'q mca_st option" where
  "scan_loop E p c s = (if c = 0 then Some s
     else if cn_used (conns s c) then do {
       (r, s1) \<leftarrow> mca_process E c MCA_BURST_CNT s;
       scan_loop E (Some c) (cell (Some c) s1) s1
     }
     else do {
       s1 \<leftarrow> mca_conn_collect E c (set_cell p (cn_next (conns s c)) s);
       scan_loop E p (cell p s1) s1
     })"

definition mca_scan :: "'q mca_env \<Rightarrow> 'q mca_st \<Rightarrow> 'q mca_st option" where
  "mca_scan E s = scan_loop E None (ps_ld E (cell None s)) s"

end
