(* ===== verification/Eos_Ninf.thy ===== *)
theory Eos_Ninf
  imports Eos_Mca
begin

text \<open>
  The two ends of the data path (\<^verbatim>\<open>ninf_rx.c\<close>, \<^verbatim>\<open>ninf_tx.c\<close>, \<^verbatim>\<open>ninf.c\<close> in
  \<^verbatim>\<open>components/implementation/no_interface/fwp_manager\<close>).  A received frame is put into the ring of its flow, whose
  cache is used for one packet at a time; the ring of the last network function is emptied into bursts of frames
  for the ports of the network card.  The driver of the card, DPDK, is not part of the repository; what it is
  handed is part of the result, and how many frames of a burst it accepts is a parameter.
\<close>

abbreviation (input) BURST_SIZE :: nat where "BURST_SIZE \<equiv> 32"
abbreviation (input) NUM_NIC_PORTS :: nat where "NUM_NIC_PORTS \<equiv> 4"
abbreviation (input) DPDK_PKT_OFF :: u32 where "DPDK_PKT_OFF \<equiv> 256"

section \<open>Reception\<close>

text \<open>The second component of the result are the buffers that are given back to the driver.\<close>

definition ninf_pkt_collect :: "addr \<Rightarrow> (eos_st, int \<times> addr list) kop" where
  "ninf_pkt_collect r s =
     (let p = GET_RING_NODE s r (er_head (rings s r) AND EOS_RING_MASK); n = nodes s p
      in if rn_state n = PKT_SENT_DONE then do {
           freed \<leftarrow> those (map (\<lambda>i. map_option (\<lambda>mt. m_pkt mt - DPDK_PKT_OFF) (arr_rd (rn_pkts n) i))
             ([0..sint (rn_cnt n) - 1] @ (if sint (rn_cnt n) < 0 \<and> odd (sint (rn_cnt n)) then [sint (rn_cnt n) - 1] else [])));
           Some ((1, freed), upd_rg r (\<lambda>x. x\<lparr>er_head := er_head x + 1\<rparr>) (upd_node p (rn_state_update (\<lambda>_. PKT_EMPTY)) s))
         }
         else Some ((0, []), s))"

text \<open>
  The loop of \<^verbatim>\<open>ninf_rx_proc_mbuf\<close> for a packet of a flow with the ring \<open>r\<close>.  A packet for which the ring has no room
  fails the assertion at the end of that function.
\<close>

partial_function (option) rx_loop :: "addr \<Rightarrow> addr \<Rightarrow> u32 \<Rightarrow> u32 \<Rightarrow> u64 \<Rightarrow> u64 \<Rightarrow> eos_st \<Rightarrow> (int \<times> eos_st) option" where
  "rx_loop r pkt len port deadline arrive s = do {
     (c, s1) \<leftarrow> ninf_pkt_collect r s;
     let s2 = upd_cached r (rn_cnt_update (\<lambda>_. 1)) s1;
     kassert (sint len \<le> int EOS_PKT_MAX_SZ);
     (ret, s3) \<leftarrow> eos_pkt_send_test r pkt len port deadline arrive s2;
     if ret = - ECOLLET then rx_loop r pkt len port deadline arrive s3 else Some (ret, s3)
   }"

definition ninf_rx_proc_pkt :: "addr \<Rightarrow> addr \<Rightarrow> u32 \<Rightarrow> u32 \<Rightarrow> u64 \<Rightarrow> u64 \<Rightarrow> eos_st \<Rightarrow> eos_st option" where
  "ninf_rx_proc_pkt r pkt len port deadline arrive s = do {
     (ret, s1) \<leftarrow> rx_loop r pkt len port deadline arrive s;
     kassert (ret = 0);
     Some s1
   }"

section \<open>Transmission\<close>

text \<open>
  An element of \<^verbatim>\<open>send_batch\<close>.  Its pointer \<^verbatim>\<open>meta\<close> is to an element of the array of packets in \<^verbatim>\<open>scache\<close>, a local variable
  of \<^verbatim>\<open>ninf_tx_process\<close>, and is the index of that element here.
\<close>

record tx_pkt_batch =
  tb_rn :: node_ptr
  tb_meta :: nat
  tb_phy_addr :: addr

text \<open>What is filled into a buffer of the driver.\<close>

record tx_mbuf =
  mb_port :: nat
  mb_buf_addr :: addr
  mb_buf_physaddr :: addr
  mb_userdata :: node_ptr
  mb_len :: u16

record tx_st =
  tx_mm :: eos_st
  tx_batch :: "nat \<Rightarrow> tx_pkt_batch list"
  tx_wire :: "tx_mbuf list"
  tx_calls :: nat
  tx_missed :: int
  tx_latency :: u64
  tx_tsc :: nat

text \<open>\<open>nic n left\<close> is the number of frames that the driver accepts of \<open>left\<close> ones in the \<open>n\<close>-th call of \<^verbatim>\<open>rte_eth_tx_burst\<close>.\<close>

partial_function (option) burst_loop :: "(nat \<Rightarrow> nat \<Rightarrow> nat) \<Rightarrow> tx_mbuf list \<Rightarrow> tx_st \<Rightarrow> tx_st option" where
  "burst_loop nic mbs s = (if mbs = [] then Some s
     else let k = nic (tx_calls s) (length mbs)
       in burst_loop nic (drop k mbs) (s\<lparr>tx_wire := tx_wire s @ take k mbs, tx_calls := tx_calls s + 1\<rparr>))"

definition fill_mbuf :: "nat \<Rightarrow> eos_ring_node \<Rightarrow> tx_pkt_batch \<Rightarrow> tx_mbuf option" where
  "fill_mbuf port scache b = do {
     meta \<leftarrow> arr_rd (rn_pkts scache) (int (tb_meta b));
     kassert (sint (m_len meta) \<le> int EOS_PKT_MAX_SZ);
     Some \<lparr>mb_port = port, mb_buf_addr = m_pkt meta, mb_buf_physaddr = tb_phy_addr b, mb_userdata = tb_rn b, mb_len = ucast (m_len meta)\<rparr>
   }"

definition ninf_tx_nf_send_burst :: "(nat \<Rightarrow> nat \<Rightarrow> nat) \<Rightarrow> nat \<Rightarrow> eos_ring_node \<Rightarrow> tx_st \<Rightarrow> tx_st option" where
  "ninf_tx_nf_send_burst nic port scache s =
     (if tx_batch s port = [] then Some s
      else do {
        mbs \<leftarrow> those (map (fill_mbuf port scache) (tx_batch s port));
        s1 \<leftarrow> burst_loop nic mbs s;
        Some (s1\<lparr>tx_batch := (tx_batch s1)(port := [])\<rparr>)
      })"

definition get_phy_addr_ring_node :: "eos_ring \<Rightarrow> addr \<Rightarrow> pkt_meta \<Rightarrow> addr" where
  "get_phy_addr_ring_node nf r meta = er_phy_addr nf + (m_pkt meta - r)"

definition ninf_tx_add_pkt :: "(nat \<Rightarrow> nat \<Rightarrow> nat) \<Rightarrow> addr \<Rightarrow> node_ptr \<Rightarrow> eos_ring_node \<Rightarrow> nat \<Rightarrow> tx_st \<Rightarrow> tx_st option" where
  "ninf_tx_add_pkt nic r p scache i s = do {
     meta \<leftarrow> arr_rd (rn_pkts scache) (int i);
     kassert (unat (m_port meta) < NUM_NIC_PORTS);
     let port = unat (m_port meta);
     s1 \<leftarrow> (if length (tx_batch s port) = BURST_SIZE then ninf_tx_nf_send_burst nic port scache s else Some s);
     Some (s1\<lparr>tx_batch := (tx_batch s1)(port := tx_batch s1 port @
       [\<lparr>tb_rn = p, tb_meta = i, tb_phy_addr = get_phy_addr_ring_node (rings (tx_mm s1) r) r meta\<rparr>])\<rparr>)
   }"

definition ninf_tx_deadline_check :: "(nat \<Rightarrow> u64) \<Rightarrow> eos_ring_node \<Rightarrow> tx_st \<Rightarrow> tx_st option" where
  "ninf_tx_deadline_check tsc scache s = do {
     let now = tsc (tx_tsc s);
     kassert (rn_deadline scache \<noteq> 0);
     Some (s\<lparr>tx_tsc := tx_tsc s + 1, tx_latency := tx_latency s + (now - rn_arrive scache),
       tx_missed := tx_missed s + (if now > rn_deadline scache then 1 else 0)\<rparr>)
   }"

fun tx_add_pkts :: "(nat \<Rightarrow> nat \<Rightarrow> nat) \<Rightarrow> (nat \<Rightarrow> u64) \<Rightarrow> addr \<Rightarrow> node_ptr \<Rightarrow> eos_ring_node \<Rightarrow> nat \<Rightarrow> nat \<Rightarrow> tx_st \<Rightarrow> tx_st option" where
  "tx_add_pkts nic tsc r p scache 0 i s = Some s"
| "tx_add_pkts nic tsc r p scache (Suc n) i s = do {
     s1 \<leftarrow> ninf_tx_add_pkt nic r p scache i s;
     s2 \<leftarrow> ninf_tx_deadline_check tsc scache s1;
     tx_add_pkts nic tsc r p scache n (i + 1) s2
   }"

text \<open>The change of the rings when a node is taken for transmission.\<close>

definition tx_take :: "addr \<Rightarrow> eos_st \<Rightarrow> eos_st" where
  "tx_take r s =
     (let p = GET_RING_NODE s r (er_mca_head (rings s r) AND EOS_RING_MASK)
      in upd_rg r (\<lambda>x. x\<lparr>er_mca_head := er_mca_head x + 1\<rparr>)
           (upd_node p (rn_state_update (\<lambda>_. if rn_cnt (nodes s p) \<noteq> 0 then PKT_TXING else PKT_SENT_DONE)) s))"

partial_function (option) tx_loop ::
  "(nat \<Rightarrow> nat \<Rightarrow> nat) \<Rightarrow> (nat \<Rightarrow> u64) \<Rightarrow> addr \<Rightarrow> eos_ring_node \<Rightarrow> nat \<Rightarrow> tx_st \<Rightarrow> ((nat \<times> eos_ring_node) \<times> tx_st) option" where
  "tx_loop nic tsc r scache ret s =
     (let p = GET_RING_NODE (tx_mm s) r (er_mca_head (rings (tx_mm s) r) AND EOS_RING_MASK); n = nodes (tx_mm s) p
      in if rn_state n \<noteq> PKT_SENT_READY then Some ((ret, scache), s)
         else do {
           s1 \<leftarrow> tx_add_pkts nic tsc r p n (nat (sint (rn_cnt n))) 0 s;
           tx_loop nic tsc r n (ret + 1) (s1\<lparr>tx_mm := tx_take r (tx_mm s1)\<rparr>)
         })"

fun tx_flush :: "(nat \<Rightarrow> nat \<Rightarrow> nat) \<Rightarrow> nat list \<Rightarrow> eos_ring_node \<Rightarrow> tx_st \<Rightarrow> tx_st option" where
  "tx_flush nic [] scache s = Some s"
| "tx_flush nic (port # ports) scache s = do { s1 \<leftarrow> ninf_tx_nf_send_burst nic port scache s; tx_flush nic ports scache s1 }"

text \<open>\<open>scache\<close> is what the local variable holds at first.\<close>

definition ninf_tx_process :: "(nat \<Rightarrow> nat \<Rightarrow> nat) \<Rightarrow> (nat \<Rightarrow> u64) \<Rightarrow> eos_ring_node \<Rightarrow> addr \<Rightarrow> (tx_st, nat) kop" where
  "ninf_tx_process nic tsc scache r s = do {
     ((ret, last), s1) \<leftarrow> tx_loop nic tsc r scache 0 s;
     let s2 = (if ret \<noteq> 0 then s1\<lparr>tx_mm := faa_pkt_cnt r (- of_nat ret) (tx_mm s1)\<rparr> else s1);
     s3 \<leftarrow> tx_flush nic [0..<NUM_NIC_PORTS] last s2;
     Some (ret, s3)
   }"

text \<open>The driver calls this function when it has sent a frame of the node \<open>p\<close>.\<close>

definition cos_tx_cb :: "node_ptr \<Rightarrow> eos_st \<Rightarrow> eos_st" where
  "cos_tx_cb p s = (let s1 = upd_node p (\<lambda>n. n\<lparr>rn_cnt := rn_cnt n - 1\<rparr>) s
     in if rn_cnt (nodes s1 p) = 0 then upd_node p (rn_state_update (\<lambda>_. PKT_SENT_DONE)) s1 else s1)"

end
