(* ===== verification/Eos_Chain.thy ===== *)
theory Eos_Chain
  imports Eos_Ninf
begin

text \<open>
  A chain of network functions from the reception of packets to their transmission.  Every producer -- the
  receiver, then each function -- has an output ring, and every function an input ring; the agent moves nodes from
  the ring of producer \<open>k\<close> to the input of function \<open>k\<close>, and the last ring is emptied by the transmitter.  All parties
  work at the same time: a run is any sequence of their operations.

  The invariant describes both rings of a function by the natural numbers that their counters count to, and says
  of every node who holds it.  It implies that no assertion of the code fails, that sending never blocks, and that
  the packets which arrive at a consumer are those that the producer has sent, in the same order, with the same
  contents.
\<close>

section \<open>Counters and slots\<close>

lemma ring_mask: "(of_nat i :: u32) AND EOS_RING_MASK = of_nat (i mod 128)"
proof -
  have "(of_nat i :: u32) AND mask 7 = take_bit 7 (of_nat i)" by (simp add: take_bit_eq_mask)
  also have "\<dots> = of_nat (take_bit 7 i)" by (simp only: take_bit_of_nat)
  finally show ?thesis by (simp add: EOS_RING_MASK_def mask_eq_exp_minus_1 take_bit_eq_mod)
qed

lemma unat_slot: "unat (of_nat (i mod 128) :: u32) = i mod 128"
proof -
  have "i mod 128 < 128" by simp
  then have "i mod 128 < 2 ^ 32" by (rule less_trans) simp
  then show ?thesis by (simp add: unsigned_of_nat take_bit_nat_eq_self)
qed

lemma slot_index: "(of_nat (i mod 128) :: u32) = of_nat (j mod 128) \<longleftrightarrow> i mod 128 = j mod 128"
  by (metis unat_slot)

lemma window_eq:
  fixes h i j :: nat
  assumes "h \<le> i" "i < h + 128" "h \<le> j" "j < h + 128"
  shows "i mod 128 = j mod 128 \<longleftrightarrow> i = j"
proof
  assume eq: "i mod 128 = j mod 128"
  show "i = j"
  proof (cases "i \<le> j")
    case True
    then have "128 dvd j - i" using eq mod_eq_dvd_iff_nat [OF True, of 128] by simp
    moreover have "j - i < 128" using assms by linarith
    ultimately show ?thesis using True by (auto dest: dvd_imp_le)
  next
    case False
    then have le: "j \<le> i" by simp
    then have "128 dvd i - j" using eq mod_eq_dvd_iff_nat [OF le, of 128] by simp
    moreover have "i - j < 128" using assms by linarith
    ultimately show ?thesis using le by (auto dest: dvd_imp_le)
  qed
qed simp

definition slot :: "eos_st \<Rightarrow> addr \<Rightarrow> nat \<Rightarrow> eos_ring_node" where
  "slot s r i = nodes s (er_ring (rings s r), of_nat (i mod 128))"

lemma get_slot: "GET_RING_NODE s r (of_nat i AND EOS_RING_MASK) = (er_ring (rings s r), of_nat (i mod 128))"
  by (simp add: GET_RING_NODE_def ring_mask)

lemma slot_wrap [simp]: "slot s r (i + 128) = slot s r i"
  by (simp add: slot_def)

section \<open>Packets\<close>

type_synonym packet = "u8 list \<times> u32"

definition pkt_data :: "(addr \<Rightarrow> u8) \<Rightarrow> addr \<Rightarrow> u32 \<Rightarrow> u8 list" where
  "pkt_data b p len = map (\<lambda>k. b (p + of_nat k)) [0..<unat len]"

definition meta_data :: "(addr \<Rightarrow> u8) \<Rightarrow> pkt_meta \<Rightarrow> packet" where
  "meta_data b mt = (pkt_data b (m_pkt mt) (m_len mt), m_port mt)"

definition node_data :: "(addr \<Rightarrow> u8) \<Rightarrow> eos_ring_node \<Rightarrow> packet list" where
  "node_data b n = map (meta_data b) (take (unat (rn_cnt n)) (rn_pkts n))"

text \<open>Buffers of 256 bytes that do not overlap.\<close>

definition apart :: "addr \<Rightarrow> addr \<Rightarrow> bool" where
  "apart p q \<longleftrightarrow> 256 \<le> p - q \<and> 256 \<le> q - p"

definition write_bytes :: "addr \<Rightarrow> u8 list \<Rightarrow> (addr \<Rightarrow> u8) \<Rightarrow> addr \<Rightarrow> u8" where
  "write_bytes p xs b = (\<lambda>a. if unat (a - p) < length xs then xs ! unat (a - p) else b a)"

section \<open>The chain and its operations\<close>

text \<open>
  The shared segments of the functions, and the pages of the receiver for its rings.  Function \<open>k\<close> reads from \<open>c_in k\<close>
  and writes to \<open>c_out (k + 1)\<close>; the receiver writes to \<open>c_out 0\<close>.
\<close>

record chain =
  c_rx :: addr
  c_segs :: "addr list"

definition c_len :: "chain \<Rightarrow> nat" where "c_len C = length (c_segs C)"

definition c_in :: "chain \<Rightarrow> nat \<Rightarrow> addr" where
  "c_in C k = get_input_ring (c_segs C ! k)"

definition c_out :: "chain \<Rightarrow> nat \<Rightarrow> addr" where
  "c_out C k = get_output_ring (case k of 0 \<Rightarrow> c_rx C | Suc j \<Rightarrow> c_segs C ! j)"

record chain_st =
  c_mm :: eos_st
  c_hold :: "nat \<Rightarrow> addr option"
  c_sent :: "nat \<Rightarrow> packet list"
  c_got :: "nat \<Rightarrow> packet list"

text \<open>
  The calls: the receiver gets a frame that the card has put at an address; a function collects nodes, receives the next
  packet, changes the packet it holds, sends it on; the agent moves a node; the transmitter takes a node, and the card
  reports a frame as sent.  \<open>c_sent\<close> and \<open>c_got\<close> record what producers send and consumers get.
\<close>

datatype eos_call = Rx addr "u8 list" u32 u64 u64 | Collect nat | Recv nat | Work nat "u8 list" | Send nat u32 u32 | Move nat
  | Tx_take | Tx_done u32

definition add_log :: "nat \<Rightarrow> packet list \<Rightarrow> (nat \<Rightarrow> packet list) \<Rightarrow> nat \<Rightarrow> packet list" where
  "add_log k xs l = l(k := l k @ xs)"

fun eos_do :: "chain \<Rightarrow> eos_call \<Rightarrow> chain_st \<Rightarrow> chain_st option" where
  "eos_do C (Rx p xs port deadline arrive) y = do {
     s \<leftarrow> ninf_rx_proc_pkt (c_out C 0) p (of_nat (length xs)) port deadline arrive ((c_mm y)\<lparr>bytes := write_bytes p xs (bytes (c_mm y))\<rparr>);
     Some (y\<lparr>c_mm := s, c_sent := add_log 0 [(xs, port)] (c_sent y)\<rparr>)
   }"
| "eos_do C (Collect k) y = do {
     (r, s) \<leftarrow> eos_pkt_collect (c_in C k) (c_out C (k + 1)) (c_mm y);
     Some (y\<lparr>c_mm := s\<rparr>)
   }"
| "eos_do C (Recv k) y = do {
     (r, s) \<leftarrow> eos_pkt_recv (c_in C k) (c_out C (k + 1)) (c_mm y);
     Some (case r of Inl err \<Rightarrow> y\<lparr>c_mm := s\<rparr>
       | Inr (p, len, port) \<Rightarrow> y\<lparr>c_mm := s, c_hold := (c_hold y)(k := Some p), c_got := add_log k [(pkt_data (bytes s) p len, port)] (c_got y)\<rparr>)
   }"
| "eos_do C (Work k xs) y = do {
     p \<leftarrow> c_hold y k;
     Some (y\<lparr>c_mm := (c_mm y)\<lparr>bytes := write_bytes p xs (bytes (c_mm y))\<rparr>\<rparr>)
   }"
| "eos_do C (Send k len port) y = do {
     p \<leftarrow> c_hold y k;
     (r, s) \<leftarrow> eos_pkt_send (c_out C (k + 1)) p len port (c_mm y);
     kassert (r = 0);
     Some (y\<lparr>c_mm := s, c_hold := (c_hold y)(k := None), c_sent := add_log (k + 1) [(pkt_data (bytes (c_mm y)) p len, port)] (c_sent y)\<rparr>)
   }"
| "eos_do C (Move k) y = do {
     ready \<leftarrow> mca_ready (c_out C k) (c_in C k) (c_mm y);
     s \<leftarrow> (if ready then mca_move (c_out C k) (c_in C k) (c_mm y) else Some (c_mm y));
     Some (y\<lparr>c_mm := s\<rparr>)
   }"
| "eos_do C Tx_take y =
     (let r = c_out C (c_len C); n = nodes (c_mm y) (GET_RING_NODE (c_mm y) r (er_mca_head (rings (c_mm y) r) AND EOS_RING_MASK))
      in Some (if rn_state n = PKT_SENT_READY
           then y\<lparr>c_mm := tx_take r (c_mm y), c_got := add_log (c_len C) (node_data (bytes (c_mm y)) n) (c_got y)\<rparr> else y))"
| "eos_do C (Tx_done i) y = Some (y\<lparr>c_mm := cos_tx_cb (er_ring (rings (c_mm y) (c_out C (c_len C))), i) (c_mm y)\<rparr>)"

section \<open>Runs\<close>

text \<open>The sizes of the rings and of the whole segment of a function (\<^verbatim>\<open>fwp_manager.h\<close>), and its buffers.\<close>

definition FWP_RINGS_SIZE :: nat where
  "FWP_RINGS_SIZE = 2 * unat sizeof_eos_ring + 2 * EOS_RING_SIZE * unat sizeof_eos_ring_node"

definition FWP_MEMSEG_SIZE :: nat where
  "FWP_MEMSEG_SIZE = unat (round_up_to_page (of_nat FWP_RINGS_SIZE)) +
     unat (round_up_to_page (of_nat (EOS_RING_SIZE * EOS_PKT_PER_ENTRY * EOS_PKT_MAX_SZ)))"

definition nf_buf :: "chain \<Rightarrow> nat \<Rightarrow> nat \<Rightarrow> nat \<Rightarrow> addr" where
  "nf_buf C k i j = c_segs C ! k + round_up_to_page (of_nat FWP_RINGS_SIZE) + of_nat ((i * EOS_PKT_PER_ENTRY + j) * EOS_PKT_MAX_SZ)"

definition chain_ok :: "chain \<Rightarrow> bool" where
  "chain_ok C \<longleftrightarrow>
     (\<forall>p\<in>set (c_segs C). p AND 0xfff = 0 \<and> p \<noteq> 0 \<and> unat p + FWP_MEMSEG_SIZE \<le> 2 ^ 32) \<and>
     c_rx C AND 0xfff = 0 \<and> unat (c_rx C) + unat (round_up_to_page (of_nat FWP_RINGS_SIZE)) \<le> 2 ^ 32 \<and>
     (\<forall>i<c_len C. \<forall>j<i. unat (c_segs C ! i) + FWP_MEMSEG_SIZE \<le> unat (c_segs C ! j) \<or>
        unat (c_segs C ! j) + FWP_MEMSEG_SIZE \<le> unat (c_segs C ! i)) \<and>
     (\<forall>p\<in>set (c_segs C). unat p + FWP_MEMSEG_SIZE \<le> unat (c_rx C) \<or>
        unat (c_rx C) + unat (round_up_to_page (of_nat FWP_RINGS_SIZE)) \<le> unat p)"

fun boot_rings :: "(addr \<Rightarrow> addr) \<Rightarrow> addr list \<Rightarrow> eos_st \<Rightarrow> eos_st option" where
  "boot_rings v2p [] s = Some s"
| "boot_rings v2p (p # ps) s = do { s1 \<leftarrow> eos_rings_init v2p p s; boot_rings v2p ps s1 }"

definition chain_start :: "(addr \<Rightarrow> addr) \<Rightarrow> chain \<Rightarrow> eos_st \<Rightarrow> chain_st option" where
  "chain_start v2p C s = do {
     s1 \<leftarrow> boot_rings v2p (c_rx C # c_segs C) s;
     Some \<lparr>c_mm = s1, c_hold = (\<lambda>_. None), c_sent = (\<lambda>_. []), c_got = (\<lambda>_. [])\<rparr>
   }"

text \<open>
  What is expected of the clients.  A frame that arrives is in a buffer of the card that is not in use, and the
  receiver may be called when its ring does not hold 128 nodes that the agent has not yet taken, or when no
  packet is left over in its cache.  A function receives a packet when it holds none, changes only the one it holds,
  and sends it with a length between 1 and 256.
\<close>

definition foreign :: "chain \<Rightarrow> addr \<Rightarrow> bool" where
  "foreign C p \<longleftrightarrow> p \<noteq> 0 \<and> (\<forall>k<c_len C. \<forall>i<128. \<forall>j<8. apart p (nf_buf C k i j))"

fun eos_call_ok :: "chain \<Rightarrow> eos_call \<Rightarrow> chain_st \<Rightarrow> bool" where
  "eos_call_ok C (Rx p xs port deadline arrive) y \<longleftrightarrow>
     (let s = c_mm y; r = c_out C 0; c = cached s r
      in 0 < length xs \<and> length xs \<le> 256 \<and> foreign C p \<and>
        (\<forall>i<128. rn_state (slot s r i) = PKT_SENT_READY \<longrightarrow>
           (\<forall>mt\<in>set (take (unat (rn_cnt (slot s r i))) (rn_pkts (slot s r i))). apart p (m_pkt mt))) \<and>
        (\<forall>mt\<in>set (take (unat (rn_idx c)) (rn_pkts c)). apart p (m_pkt mt)) \<and>
        (rn_idx c = 0 \<or>
         rn_state (nodes s (GET_RING_NODE s r (er_tail (rings s r) AND EOS_RING_MASK))) \<in> {PKT_EMPTY, PKT_SENT_DONE}))"
| "eos_call_ok C (Collect k) y \<longleftrightarrow> k < c_len C"
| "eos_call_ok C (Recv k) y \<longleftrightarrow> k < c_len C \<and> c_hold y k = None"
| "eos_call_ok C (Work k xs) y \<longleftrightarrow> k < c_len C \<and> c_hold y k \<noteq> None \<and> length xs \<le> 256"
| "eos_call_ok C (Send k len port) y \<longleftrightarrow> k < c_len C \<and> c_hold y k \<noteq> None \<and> 0 < len \<and> len \<le> 256"
| "eos_call_ok C (Move k) y \<longleftrightarrow> k < c_len C"
| "eos_call_ok C Tx_take y \<longleftrightarrow> True"
| "eos_call_ok C (Tx_done i) y \<longleftrightarrow> i < 128 \<and> rn_state (slot (c_mm y) (c_out C (c_len C)) (unat i)) = PKT_TXING"

fun eos_run :: "chain \<Rightarrow> eos_call list \<Rightarrow> chain_st \<Rightarrow> chain_st option" where
  "eos_run C [] y = Some y"
| "eos_run C (c # cs) y = do { y1 \<leftarrow> eos_do C c y; eos_run C cs y1 }"

fun eos_run_ok :: "chain \<Rightarrow> eos_call list \<Rightarrow> chain_st \<Rightarrow> bool" where
  "eos_run_ok C [] y \<longleftrightarrow> True"
| "eos_run_ok C (c # cs) y \<longleftrightarrow> eos_call_ok C c y \<and> (case eos_do C c y of None \<Rightarrow> True | Some y1 \<Rightarrow> eos_run_ok C cs y1)"

text \<open>
  The packets that are under way from producer \<open>k\<close> to its consumer: the rest of the batch that the consumer is at, the
  nodes that wait in its input ring, those that wait in the output ring of the producer, and what the producer has
  put into its cache.
\<close>

definition waiting :: "eos_st \<Rightarrow> addr \<Rightarrow> u32 \<Rightarrow> pkt_states \<Rightarrow> eos_ring_node list" where
  "waiting s r h st = takeWhile (\<lambda>n. rn_state n = st) (map (\<lambda>i. nodes s (GET_RING_NODE s r ((h + of_nat i) AND EOS_RING_MASK))) [0..<128])"

definition in_flight :: "chain \<Rightarrow> chain_st \<Rightarrow> nat \<Rightarrow> packet list" where
  "in_flight C y k = (let s = c_mm y; b = bytes s; i = cached s (c_in C k); out = cached s (c_out C k) in
     (if k < c_len C
      then map (meta_data b) (drop (unat (rn_idx i)) (take (unat (rn_cnt i)) (rn_pkts i))) @
        concat (map (node_data b) (waiting s (c_in C k) (er_tail (rings s (c_in C k))) PKT_RECV_READY))
      else []) @
     concat (map (node_data b) (waiting s (c_out C k) (er_mca_head (rings s (c_out C k))) PKT_SENT_READY)) @
     map (meta_data b) (take (unat (rn_idx out)) (rn_pkts out)))"

end
