(* ===== verification/Eos_Inv.thy ===== *)
theory Eos_Inv
  imports Eos_Chain
begin

text \<open>
  The invariant of a chain of network functions and its preservation by every operation.
\<close>

section \<open>Buffers\<close>

lemma apart_sym: "apart p q \<longleftrightarrow> apart q p"
  by (auto simp: apart_def)

lemma apart_offset:
  assumes "apart p q" "k < 256"
  shows "256 \<le> unat (q + of_nat k - p)"
proof -
  have k: "unat (of_nat k :: u32) = k" using assms(2) by (simp add: unsigned_of_nat take_bit_nat_eq_self)
  have "256 \<le> unat (p - q)" "256 \<le> unat (q - p)" using assms(1) by (simp_all add: apart_def word_le_nat_alt)
  moreover have "unat (q + of_nat k - p) = unat ((q - p) + of_nat k)" by (simp add: algebra_simps)
  moreover have "unat (p - q) + unat (q - p) \<le> 2 ^ 32"
  proof -
    have "unat p < 4294967296" "unat q < 4294967296" using unsigned_less [of p] unsigned_less [of q] by simp_all
    then show ?thesis by (cases "unat q \<le> unat p") (simp_all add: unat_sub_if')
  qed
  ultimately show ?thesis using assms(2) by (simp add: unat_plus_if' k split: if_splits)
qed

lemma pkt_data_write:
  assumes "apart p q" "length xs \<le> 256" "unat len \<le> 256"
  shows "pkt_data (write_bytes p xs b) q len = pkt_data b q len"
proof -
  have "\<not> unat (q + of_nat k - p) < length xs" if "k < unat len" for k
    using apart_offset [OF assms(1), of k] that assms(2,3) by simp
  then show ?thesis by (simp add: pkt_data_def write_bytes_def)
qed

lemma pkt_data_copy:
  assumes "apart dst q" "unat n \<le> 256" "unat len \<le> 256"
  shows "pkt_data (mca_copy dst src n b) q len = pkt_data b q len"
proof -
  have "\<not> q + of_nat k - dst < n" if "k < unat len" for k
    using apart_offset [OF assms(1), of k] that assms(2,3) by (simp add: word_less_nat_alt)
  then show ?thesis by (simp add: pkt_data_def mca_copy_def)
qed

lemma pkt_data_copied: "pkt_data (mca_copy dst src n b) dst n = pkt_data b src n"
proof -
  have "unat (of_nat k :: u32) = k" if "k < unat n" for k
    using that less_trans [OF that unsigned_less [of n]] by (simp add: unsigned_of_nat take_bit_nat_eq_self)
  then show ?thesis by (simp add: pkt_data_def mca_copy_def word_less_nat_alt)
qed

lemma pkt_data_written:
  assumes "length xs \<le> 256"
  shows "pkt_data (write_bytes p xs b) p (of_nat (length xs)) = xs"
proof -
  have "unat (of_nat k :: u32) = k" if "k \<le> length xs" for k
    using that assms by (simp add: unsigned_of_nat take_bit_nat_eq_self)
  then show ?thesis by (auto simp: pkt_data_def write_bytes_def intro: nth_equalityI)
qed

section \<open>Copying a batch\<close>

definition meta_ok :: "pkt_meta \<Rightarrow> bool" where
  "meta_ok mt \<longleftrightarrow> m_pkt mt \<noteq> 0 \<and> m_len mt \<noteq> 0 \<and> m_len mt \<le> 256"

definition batch_ok :: "eos_ring_node \<Rightarrow> bool" where
  "batch_ok n \<longleftrightarrow> 1 \<le> unat (rn_cnt n) \<and> unat (rn_cnt n) \<le> 8 \<and> length (rn_pkts n) = 8 \<and>
     (\<forall>mt\<in>set (take (unat (rn_cnt n)) (rn_pkts n)). meta_ok mt)"

lemma sint_small16: "k < 2 ^ 15 \<Longrightarrow> sint (of_nat k :: u16) = int k"
  by (simp add: sint_uint unsigned_of_nat take_bit_nat_eq_self signed_take_bit_int_eq_self)

lemma sint_unat16: "unat (x :: u16) < 32768 \<Longrightarrow> sint x = int (unat x)"
  using sint_small16 [of "unat x"] by simp

lemma sint_unat32: "unat (x :: u32) < 2147483648 \<Longrightarrow> sint x = int (unat x)"
  using sint_small [of "unat x"] by simp

definition xfer :: "pkt_meta \<Rightarrow> pkt_meta \<Rightarrow> pkt_meta" where
  "xfer sp rp = rp\<lparr>m_len := m_len sp, m_port := m_port sp\<rparr>"

lemma xfer_simps [simp]: "m_pkt (xfer sp rp) = m_pkt rp" "m_len (xfer sp rp) = m_len sp" "m_port (xfer sp rp) = m_port sp"
  by (simp_all add: xfer_def)

definition copy_all :: "(addr \<times> addr \<times> u32) list \<Rightarrow> (addr \<Rightarrow> u8) \<Rightarrow> addr \<Rightarrow> u8" where
  "copy_all = fold (\<lambda>(d, s, n). mca_copy d s n)"

definition copies :: "eos_ring_node \<Rightarrow> eos_ring_node \<Rightarrow> nat list \<Rightarrow> (addr \<times> addr \<times> u32) list" where
  "copies sn rn js = map (\<lambda>j. (m_pkt (rn_pkts rn ! j), m_pkt (rn_pkts sn ! j), m_len (rn_pkts sn ! j))) js"

lemma transfer_pkt_ok:
  assumes "i < length (rn_pkts sn)" "i < length (rn_pkts rn)"
  shows "transfer_pkt sn (int i) rn b = Some (rn\<lparr>rn_pkts := (rn_pkts rn)[i := xfer (rn_pkts sn ! i) (rn_pkts rn ! i)]\<rparr>,
    copy_all (copies sn rn [i]) b)"
  using assms by (simp add: transfer_pkt_def xfer_def copy_all_def copies_def)

lemma transfer_loop_ok:
  assumes "i + n \<le> length (rn_pkts sn)" "length (rn_pkts rn) = length (rn_pkts sn)"
    "\<And>j. i \<le> j \<Longrightarrow> j < i + n \<Longrightarrow> m_len (rn_pkts sn ! j) \<le> 256"
  shows "transfer_loop sn n i rn b = Some (rn\<lparr>rn_pkts := map (\<lambda>j. if i \<le> j \<and> j < i + n then xfer (rn_pkts sn ! j) (rn_pkts rn ! j)
    else rn_pkts rn ! j) [0..<length (rn_pkts sn)]\<rparr>, copy_all (copies sn rn [i..<i + n]) b)"
  using assms
proof (induction n arbitrary: i rn b)
  case 0
  have "map (\<lambda>j. if i \<le> j \<and> j < i + 0 then xfer (rn_pkts sn ! j) (rn_pkts rn ! j) else rn_pkts rn ! j) [0..<length (rn_pkts sn)] = rn_pkts rn"
    using "0.prems"(2) by (intro nth_equalityI) auto
  then show ?case by (simp only:) (simp add: copy_all_def copies_def)
next
  case (Suc n)
  let ?rn = "rn\<lparr>rn_pkts := (rn_pkts rn)[i := xfer (rn_pkts sn ! i) (rn_pkts rn ! i)]\<rparr>"
  have i: "i < length (rn_pkts sn)" "i < length (rn_pkts rn)" using Suc.prems by simp_all
  have "unat (m_len (rn_pkts sn ! i)) \<le> 256" using Suc.prems(3) [of i] by (simp add: word_le_nat_alt)
  then have len: "sint (m_len (rn_pkts sn ! i)) \<le> 256" using sint_unat32 [of "m_len (rn_pkts sn ! i)"] by linarith
  have ih: "transfer_loop sn n (i + 1) ?rn (copy_all (copies sn rn [i]) b) = Some (?rn\<lparr>rn_pkts :=
      map (\<lambda>j. if i + 1 \<le> j \<and> j < i + 1 + n then xfer (rn_pkts sn ! j) (rn_pkts ?rn ! j) else rn_pkts ?rn ! j) [0..<length (rn_pkts sn)]\<rparr>,
      copy_all (copies sn ?rn [i + 1..<i + 1 + n]) (copy_all (copies sn rn [i]) b))"
    using Suc.prems by (intro Suc.IH) simp_all
  have e1: "copies sn ?rn [i + 1..<i + 1 + n] = copies sn rn [i + 1..<i + 1 + n]"
    using i by (auto simp: copies_def nth_list_update)
  have e2: "[i..<i + Suc n] = i # [i + 1..<i + 1 + n]" by (simp add: upt_conv_Cons)
  have cp: "copy_all (copies sn rn [i..<i + Suc n]) b = copy_all (copies sn ?rn [i + 1..<i + 1 + n]) (copy_all (copies sn rn [i]) b)"
    unfolding e1 e2 by (simp add: copy_all_def copies_def)
  have mp: "map (\<lambda>j. if i \<le> j \<and> j < i + Suc n then xfer (rn_pkts sn ! j) (rn_pkts rn ! j) else rn_pkts rn ! j) [0..<length (rn_pkts sn)] =
      map (\<lambda>j. if i + 1 \<le> j \<and> j < i + 1 + n then xfer (rn_pkts sn ! j) (rn_pkts ?rn ! j) else rn_pkts ?rn ! j) [0..<length (rn_pkts sn)]"
    using i by (auto simp: nth_list_update)
  have step: "transfer_loop sn (Suc n) i rn b = transfer_loop sn n (i + 1) ?rn (copy_all (copies sn rn [i]) b)"
    using i len by (simp add: transfer_pkt_ok)
  show ?case unfolding step ih cp mp by simp
qed

definition moved :: "eos_ring_node \<Rightarrow> eos_ring_node \<Rightarrow> eos_ring_node" where
  "moved sn rn = rn\<lparr>rn_cnt := rn_cnt sn, rn_deadline := rn_deadline sn, rn_arrive := rn_arrive sn,
     rn_pkts := map (\<lambda>j. if j < unat (rn_cnt sn) then xfer (rn_pkts sn ! j) (rn_pkts rn ! j) else rn_pkts rn ! j) [0..<8],
     rn_state := PKT_RECV_READY\<rparr>"

lemma mca_transfer_ok:
  assumes "batch_ok sn" "length (rn_pkts rn) = 8"
  shows "mca_transfer sn rn b = Some (moved sn rn, copy_all (copies sn rn [0..<unat (rn_cnt sn)]) b)"
proof -
  define n where "n = unat (rn_cnt sn)"
  have n: "1 \<le> n" "n \<le> 8" "length (rn_pkts sn) = 8" using assms(1) by (simp_all add: batch_ok_def n_def)
  have c: "sint (rn_cnt sn) - 1 = int (n - 1)" using n by (simp add: n_def sint_unat16)
  have len: "m_len (rn_pkts sn ! j) \<le> 256" if "j < n" for j
  proof -
    have "rn_pkts sn ! j \<in> set (take n (rn_pkts sn))" using that n by (auto simp: in_set_conv_nth)
    then show ?thesis using assms(1) by (auto simp: batch_ok_def meta_ok_def n_def)
  qed
  let ?rn = "rn\<lparr>rn_deadline := rn_deadline sn, rn_arrive := rn_arrive sn\<rparr>"
  define ps where "ps = map (\<lambda>j. if j < n - 1 then xfer (rn_pkts sn ! j) (rn_pkts rn ! j) else rn_pkts rn ! j) [0..<8]"
  define qs where "qs = map (\<lambda>j. if j < n then xfer (rn_pkts sn ! j) (rn_pkts rn ! j) else rn_pkts rn ! j) [0..<8]"
  have ps: "length ps = 8" "ps ! (n - 1) = rn_pkts rn ! (n - 1)" "ps[n - 1 := xfer (rn_pkts sn ! (n - 1)) (ps ! (n - 1))] = qs"
    using n by (auto simp: ps_def qs_def nth_list_update intro!: nth_equalityI)
  have loop: "transfer_loop sn (n - 1) 0 ?rn b = Some (?rn\<lparr>rn_pkts := ps\<rparr>, copy_all (copies sn rn [0..<n - 1]) b)"
    using transfer_loop_ok [of 0 "n - 1" sn ?rn b] n assms(2) len by (simp add: copies_def ps_def)
  have "[0..<n] = [0..<n - 1] @ [n - 1]" using n by (metis Suc_diff_1 less_eq_Suc_le One_nat_def upt_Suc_append zero_le)
  then have cp: "copy_all (copies sn rn [0..<n]) b = copy_all (copies sn (?rn\<lparr>rn_pkts := ps\<rparr>) [n - 1]) (copy_all (copies sn rn [0..<n - 1]) b)"
    using ps(2) by (simp add: copy_all_def copies_def)
  have tp: "transfer_pkt sn (int (n - 1)) (?rn\<lparr>rn_pkts := ps\<rparr>) b' =
      Some (?rn\<lparr>rn_pkts := qs\<rparr>, copy_all (copies sn (?rn\<lparr>rn_pkts := ps\<rparr>) [n - 1]) b')" for b'
    using transfer_pkt_ok [of "n - 1" sn "?rn\<lparr>rn_pkts := ps\<rparr>" b'] n ps by simp
  show ?thesis
    by (simp only: mca_transfer_def Let_def c nat_int loop bind.bind_lunit prod.case tp cp moved_def flip: n_def qs_def) simp
qed

lemma copy_all_Cons: "copy_all (c # cs) b = copy_all cs (copy_all [c] b)"
  by (simp add: copy_all_def)

lemma copy_all_frame:
  assumes "\<forall>(d, s, n)\<in>set cs. apart d q \<and> unat n \<le> 256" "unat len \<le> 256"
  shows "pkt_data (copy_all cs b) q len = pkt_data b q len"
  using assms
proof (induction cs arbitrary: b)
  case Nil
  then show ?case by (simp add: copy_all_def)
next
  case (Cons c cs)
  obtain d s n where c: "c = (d, s, n)" by (cases c) auto
  have "pkt_data (copy_all [c] b) q len = pkt_data b q len" using Cons.prems c by (simp add: copy_all_def pkt_data_copy)
  then show ?case using Cons by (subst copy_all_Cons) simp
qed

lemma copy_all_copied:
  assumes "\<forall>(d, s, n)\<in>set cs. unat n \<le> 256" "sorted_wrt (\<lambda>x y. apart (fst x) (fst y)) cs"
    "\<forall>x\<in>set cs. \<forall>y\<in>set cs. apart (fst x) (fst (snd y))" "(d, s, n) \<in> set cs"
  shows "pkt_data (copy_all cs b) d n = pkt_data b s n"
  using assms
proof (induction cs arbitrary: b)
  case (Cons c cs)
  obtain d' s' n' where c: "c = (d', s', n')" by (cases c) auto
  show ?case
  proof (cases "(d, s, n) = c")
    case True
    have "\<forall>(d2, s2, n2)\<in>set cs. apart d2 d \<and> unat n2 \<le> 256" "unat n \<le> 256"
      using Cons.prems(1,2) by (auto simp: True [symmetric] apart_sym [of _ d])
    then have "pkt_data (copy_all cs (copy_all [c] b)) d n = pkt_data (copy_all [c] b) d n" by (rule copy_all_frame)
    also have "\<dots> = pkt_data b s n" using True by (auto simp: copy_all_def pkt_data_copied)
    finally show ?thesis by (subst copy_all_Cons)
  next
    case False
    then have mem: "(d, s, n) \<in> set cs" using Cons.prems(4) by simp
    have "pkt_data (copy_all cs (copy_all [c] b)) d n = pkt_data (copy_all [c] b) s n"
      using Cons.prems mem by (intro Cons.IH) simp_all
    also have "\<dots> = pkt_data b s n"
    proof (rule copy_all_frame)
      have "apart (fst c) (fst (snd (d, s, n)))" using Cons.prems(3) mem by (meson list.set_intros)
      then show "\<forall>(d2, s2, n2)\<in>set [c]. apart d2 s \<and> unat n2 \<le> 256" using Cons.prems(1) c by simp
      show "unat n \<le> 256" using Cons.prems(1) mem by auto
    qed
    finally show ?thesis by (subst copy_all_Cons)
  qed
qed simp

lemma moved_data:
  assumes "batch_ok sn" "length (rn_pkts rn) = 8"
    "\<And>i j. i < 8 \<Longrightarrow> j < 8 \<Longrightarrow> i \<noteq> j \<Longrightarrow> apart (m_pkt (rn_pkts rn ! i)) (m_pkt (rn_pkts rn ! j))"
    "\<And>i j. i < 8 \<Longrightarrow> j < unat (rn_cnt sn) \<Longrightarrow> apart (m_pkt (rn_pkts rn ! i)) (m_pkt (rn_pkts sn ! j))"
  shows "node_data (copy_all (copies sn rn [0..<unat (rn_cnt sn)]) b) (moved sn rn) = node_data b sn"
proof -
  let ?n = "unat (rn_cnt sn)" and ?cs = "copies sn rn [0..<unat (rn_cnt sn)]"
  have n: "?n \<le> 8" "length (rn_pkts sn) = 8" using assms(1) by (simp_all add: batch_ok_def)
  have len: "unat (m_len (rn_pkts sn ! j)) \<le> 256" if "j < ?n" for j
  proof -
    have "rn_pkts sn ! j \<in> set (take ?n (rn_pkts sn))" using that n by (auto simp: in_set_conv_nth)
    then show ?thesis using assms(1) by (auto simp: batch_ok_def meta_ok_def word_le_nat_alt)
  qed
  have "pkt_data (copy_all ?cs b) (m_pkt (rn_pkts rn ! j)) (m_len (rn_pkts sn ! j)) = pkt_data b (m_pkt (rn_pkts sn ! j)) (m_len (rn_pkts sn ! j))"
    if "j < ?n" for j
  proof (rule copy_all_copied)
    show "\<forall>(d, s, n)\<in>set ?cs. unat n \<le> 256" using len by (auto simp: copies_def)
    show "sorted_wrt (\<lambda>x y. apart (fst x) (fst y)) ?cs" using assms(3) n by (simp add: copies_def sorted_wrt_map sorted_wrt_iff_nth_less)
    show "\<forall>x\<in>set ?cs. \<forall>y\<in>set ?cs. apart (fst x) (fst (snd y))" using assms(4) n by (auto simp: copies_def)
  qed (use that in \<open>auto simp: copies_def\<close>)
  then show ?thesis using n by (auto simp: node_data_def moved_def meta_data_def intro!: nth_equalityI)
qed

lemma moved_ok:
  assumes "batch_ok sn" "length (rn_pkts rn) = 8" "\<forall>mt\<in>set (rn_pkts rn). m_pkt mt \<noteq> 0"
  shows "batch_ok (moved sn rn)"
proof -
  have n: "unat (rn_cnt sn) \<le> 8" "length (rn_pkts sn) = 8" using assms(1) by (simp_all add: batch_ok_def)
  have "meta_ok (rn_pkts sn ! j)" if "j < unat (rn_cnt sn)" for j
  proof -
    have "rn_pkts sn ! j \<in> set (take (unat (rn_cnt sn)) (rn_pkts sn))" using that n by (auto simp: in_set_conv_nth)
    then show ?thesis using assms(1) by (simp add: batch_ok_def)
  qed
  moreover have "m_pkt (rn_pkts rn ! j) \<noteq> 0" if "j < 8" for j using that assms(2,3) by simp
  ultimately show ?thesis using assms(1) n by (auto simp: batch_ok_def moved_def meta_ok_def in_set_conv_nth)
qed

section \<open>Rings\<close>

text \<open>
  The nodes of an input ring whose counters have counted to \<open>h\<close>, \<open>t\<close> and \<open>f\<close>: received, waiting, free.  \<open>B\<close> has the buffers that
  belong to a slot.
\<close>

definition in_node :: "(nat \<Rightarrow> nat \<Rightarrow> addr) \<Rightarrow> nat \<Rightarrow> nat \<Rightarrow> nat \<Rightarrow> eos_ring_node \<Rightarrow> bool" where
  "in_node B t f i n \<longleftrightarrow> map m_pkt (rn_pkts n) = map (B (i mod 128)) [0..<8] \<and>
     rn_state n = (if i < t then PKT_RECV_DONE else if i < f then PKT_RECV_READY else PKT_FREE) \<and>
     (t \<le> i \<longrightarrow> rn_idx n = 0) \<and> (t \<le> i \<and> i < f \<longrightarrow> batch_ok n) \<and> (f \<le> i \<longrightarrow> rn_cnt n = 0)"

definition in_ok :: "eos_st \<Rightarrow> addr \<Rightarrow> addr \<Rightarrow> (nat \<Rightarrow> nat \<Rightarrow> addr) \<Rightarrow> nat \<Rightarrow> nat \<Rightarrow> nat \<Rightarrow> bool" where
  "in_ok s r a B h t f \<longleftrightarrow> er_ring (rings s r) = a \<and> er_head (rings s r) = of_nat h \<and> er_tail (rings s r) = of_nat t \<and>
     er_free_head (rings s r) = of_nat f \<and> h \<le> t \<and> t \<le> f \<and> f \<le> h + 128 \<and>
     (\<forall>i. h \<le> i \<and> i < h + 128 \<longrightarrow> in_node B t f i (slot s r i))"

text \<open>
  The nodes of an output ring: taken by the consumer, waiting, empty.  \<open>Q\<close> holds of all nodes in use, \<open>P\<close> of those that wait.
\<close>

definition out_node :: "(nat \<Rightarrow> eos_ring_node \<Rightarrow> bool) \<Rightarrow> (eos_ring_node \<Rightarrow> bool) \<Rightarrow> nat \<Rightarrow> nat \<Rightarrow> nat \<Rightarrow> eos_ring_node \<Rightarrow> bool" where
  "out_node Q P m u i n \<longleftrightarrow>
     (if i < m then rn_state n = PKT_SENT_DONE \<or> rn_state n = PKT_TXING \<and> rn_cnt n \<noteq> 0
      else rn_state n = (if i < u then PKT_SENT_READY else PKT_EMPTY)) \<and>
     (i < u \<longrightarrow> length (rn_pkts n) = 8 \<and> unat (rn_cnt n) \<le> 8 \<and> Q i n) \<and> (m \<le> i \<and> i < u \<longrightarrow> batch_ok n \<and> P n)"

definition out_ok :: "eos_st \<Rightarrow> addr \<Rightarrow> addr \<Rightarrow> (nat \<Rightarrow> eos_ring_node \<Rightarrow> bool) \<Rightarrow> (eos_ring_node \<Rightarrow> bool) \<Rightarrow> nat \<Rightarrow> nat \<Rightarrow> nat \<Rightarrow> bool" where
  "out_ok s r a Q P h m u \<longleftrightarrow> er_ring (rings s r) = a \<and> er_head (rings s r) = of_nat h \<and> er_mca_head (rings s r) = of_nat m \<and>
     er_tail (rings s r) = of_nat u \<and> h \<le> m \<and> m \<le> u \<and> u \<le> h + 128 \<and>
     (\<forall>i. h \<le> i \<and> i < h + 128 \<longrightarrow> out_node Q P m u i (slot s r i))"

definition own :: "(nat \<Rightarrow> nat \<Rightarrow> addr) \<Rightarrow> nat \<Rightarrow> eos_ring_node \<Rightarrow> bool" where
  "own B i n \<longleftrightarrow> map m_pkt (rn_pkts n) = map (B (i mod 128)) [0..<8]"

lemma own_update [simp]:
  "own B i (n\<lparr>rn_state := st\<rparr>) = own B i n" "own B i (n\<lparr>rn_cnt := c\<rparr>) = own B i n" "own B i (n\<lparr>rn_idx := c\<rparr>) = own B i n"
  "own B (i + 128) n = own B i n"
  by (simp_all add: own_def)

lemma bufs_nth:
  assumes "map m_pkt ps = map b [0..<8]"
  shows "length ps = 8" "j < 8 \<Longrightarrow> m_pkt (ps ! j) = b j"
proof -
  show len: "length ps = 8" using arg_cong [OF assms, of length] by simp
  show "m_pkt (ps ! j) = b j" if "j < 8" using arg_cong [OF assms, of "\<lambda>l. l ! j"] that len by simp
qed

lemma in_node_bufs:
  assumes "in_node B t f i n"
  shows "length (rn_pkts n) = 8" "j < 8 \<Longrightarrow> m_pkt (rn_pkts n ! j) = B (i mod 128) j"
  using assms bufs_nth [of "rn_pkts n" "B (i mod 128)"] by (simp_all add: in_node_def)

lemma in_ok_bounds: "in_ok s r a B h t f \<Longrightarrow> h \<le> t \<and> t \<le> f \<and> f \<le> h + 128"
  by (simp add: in_ok_def)

lemma out_ok_bounds: "out_ok s r a Q P h m u \<Longrightarrow> h \<le> m \<and> m \<le> u \<and> u \<le> h + 128"
  by (simp add: out_ok_def)

lemma in_ok_slot: "in_ok s r a B h t f \<Longrightarrow> h \<le> i \<Longrightarrow> i < h + 128 \<Longrightarrow> in_node B t f i (slot s r i)"
  by (simp add: in_ok_def)

lemma out_ok_slot: "out_ok s r a Q P h m u \<Longrightarrow> h \<le> i \<Longrightarrow> i < h + 128 \<Longrightarrow> out_node Q P m u i (slot s r i)"
  by (simp add: out_ok_def)

text \<open>The node behind the last one of a full ring is the first one.\<close>

lemma in_state_free:
  assumes "in_ok s r a B h t f"
  shows "rn_state (slot s r f) = (if f < h + 128 then PKT_FREE else if h < t then PKT_RECV_DONE else PKT_RECV_READY)"
proof (cases "f < h + 128")
  case True
  then show ?thesis using in_ok_slot [OF assms, of f] assms by (auto simp: in_ok_def in_node_def)
next
  case False
  then have f: "f = h + 128" using assms by (simp add: in_ok_def)
  then show ?thesis using in_ok_slot [OF assms, of h] by (simp add: in_node_def)
qed

lemma in_state_tail:
  assumes "in_ok s r a B h t f"
  shows "rn_state (slot s r t) = (if t < f then PKT_RECV_READY else if t < h + 128 then PKT_FREE else PKT_RECV_DONE)"
proof (cases "t < h + 128")
  case True
  then show ?thesis using in_ok_slot [OF assms, of t] assms by (auto simp: in_ok_def in_node_def)
next
  case False
  then have "t = h + 128" "f = t" using assms by (auto simp: in_ok_def)
  then show ?thesis using in_ok_slot [OF assms, of h] by (simp add: in_node_def)
qed

lemma out_state_mca:
  assumes "out_ok s r a Q P h m u"
  shows "rn_state (slot s r m) = PKT_SENT_READY \<longleftrightarrow> m < u"
proof (cases "m < h + 128")
  case True
  then show ?thesis using out_ok_slot [OF assms, of m] assms by (auto simp: out_ok_def out_node_def)
next
  case False
  then have "m = h + 128" "u = m" using assms by (auto simp: out_ok_def)
  then show ?thesis using out_ok_slot [OF assms, of h] by (auto simp: out_node_def)
qed

text \<open>An array of nodes of which one has changed.\<close>

definition node_set :: "eos_st \<Rightarrow> addr \<Rightarrow> nat \<Rightarrow> eos_ring_node \<Rightarrow> eos_st \<Rightarrow> bool" where
  "node_set s a j n s' \<longleftrightarrow> (\<forall>i. nodes s' (a, i) = (if i = of_nat (j mod 128) then n else nodes s (a, i)))"

lemma slot_set:
  assumes "node_set s a j n s'" "er_ring (rings s r) = a" "er_ring (rings s' r) = a"
  shows "slot s' r i = (if i mod 128 = j mod 128 then n else slot s r i)"
  using assms by (simp add: slot_def node_set_def slot_index)

lemma slot_set_window:
  assumes "node_set s a j n s'" "er_ring (rings s r) = a" "er_ring (rings s' r) = a" "h \<le> j" "j < h + 128" "h \<le> i" "i < h + 128"
  shows "slot s' r i = (if i = j then n else slot s r i)"
  using slot_set [OF assms(1-3)] window_eq [OF assms(6,7,4,5)] by simp

lemma in_ok_fill:
  assumes "in_ok s r a B h t f" "f < h + 128" "node_set s a f n s'" "in_node B t (f + 1) f n"
    "rings s' r = (rings s r)\<lparr>er_free_head := of_nat (f + 1), er_pkt_cnt := c\<rparr>"
  shows "in_ok s' r a B h t (f + 1)"
proof -
  have "in_node B t (f + 1) i (slot s' r i)" if "h \<le> i" "i < h + 128" for i
    using slot_set_window [OF assms(3), of r h i] in_ok_slot [OF assms(1) that] assms(1,2,4,5) that
    by (cases "i = f") (auto simp: in_ok_def in_node_def)
  then show ?thesis using assms(1,2,5) by (simp add: in_ok_def)
qed

lemma out_ok_take:
  assumes "out_ok s r a Q P h m u" "m < u" "node_set s a m n s'" "out_node Q P (m + 1) u m n"
    "rings s' r = (rings s r)\<lparr>er_mca_head := of_nat (m + 1), er_pkt_cnt := c\<rparr>"
  shows "out_ok s' r a Q P h (m + 1) u"
proof -
  have "out_node Q P (m + 1) u i (slot s' r i)" if "h \<le> i" "i < h + 128" for i
    using slot_set_window [OF assms(3), of r h i] out_ok_slot [OF assms(1) that] assms(1,2,4,5) that
    by (cases "i = m") (auto simp: out_ok_def out_node_def)
  then show ?thesis using assms(1,2,5) by (simp add: out_ok_def)
qed

section \<open>The agent\<close>

definition mca_after :: "addr \<Rightarrow> addr \<Rightarrow> nat \<Rightarrow> nat \<Rightarrow> eos_st \<Rightarrow> eos_st" where
  "mca_after src dst m f s = (let sn = slot s src m; rn = slot s dst f in
     s\<lparr>bytes := copy_all (copies sn rn [0..<unat (rn_cnt sn)]) (bytes s),
       nodes := (nodes s)((er_ring (rings s src), of_nat (m mod 128)) := sn\<lparr>rn_state := PKT_SENT_DONE\<rparr>,
         (er_ring (rings s dst), of_nat (f mod 128)) := moved sn rn),
       rings := (rings s)(dst := (rings s dst)\<lparr>er_free_head := of_nat (f + 1), er_pkt_cnt := er_pkt_cnt (rings s dst) + scast (rn_cnt sn)\<rparr>,
         src := (rings s src)\<lparr>er_mca_head := of_nat (m + 1), er_pkt_cnt := er_pkt_cnt (rings s src) - scast (rn_cnt sn)\<rparr>)\<rparr>)"

lemma mca_ready_eq:
  assumes "out_ok s src a Q P h m u" "in_ok s dst a' B h' t f"
  shows "mca_ready src dst s = Some (m < u \<and> f < h' + 128)"
proof -
  have p: "nodes s (GET_RING_NODE s src (er_mca_head (rings s src) AND EOS_RING_MASK)) = slot s src m"
    "nodes s (GET_RING_NODE s dst (er_free_head (rings s dst) AND EOS_RING_MASK)) = slot s dst f"
    using assms by (simp_all add: out_ok_def in_ok_def get_slot slot_def)
  have "rn_cnt (slot s src m) \<noteq> 0" if "m < u" using out_ok_slot [OF assms(1), of m] that assms(1) by (auto simp: out_ok_def out_node_def batch_ok_def)
  moreover have "rn_cnt (slot s dst f) = 0" if "f < h' + 128" using in_ok_slot [OF assms(2), of f] that assms(2) by (auto simp: in_ok_def in_node_def)
  ultimately show ?thesis using out_state_mca [OF assms(1)] in_state_free [OF assms(2)]
    by (auto simp: mca_ready_def Let_def p kassert_bind)
qed

lemma mca_move_eq:
  assumes "out_ok s src a Q P h m u" "in_ok s dst a' B h' t f" "m < u" "f < h' + 128" "src \<noteq> dst" "a \<noteq> a'"
  shows "mca_move src dst s = Some (mca_after src dst m f s)"
proof -
  have p: "GET_RING_NODE s src (er_mca_head (rings s src) AND EOS_RING_MASK) = (a, of_nat (m mod 128))"
    "GET_RING_NODE s dst (er_free_head (rings s dst) AND EOS_RING_MASK) = (a', of_nat (f mod 128))"
    "er_ring (rings s src) = a" "er_ring (rings s dst) = a'" "er_mca_head (rings s src) = of_nat m" "er_free_head (rings s dst) = of_nat f"
    using assms by (simp_all add: out_ok_def in_ok_def get_slot)
  have n: "nodes s (a, of_nat (m mod 128)) = slot s src m" "nodes s (a', of_nat (f mod 128)) = slot s dst f" by (simp_all add: slot_def p)
  have "batch_ok (slot s src m)" using out_ok_slot [OF assms(1), of m] assms(1,3) by (auto simp: out_ok_def out_node_def)
  moreover have "length (rn_pkts (slot s dst f)) = 8"
    using in_node_bufs(1) [OF in_ok_slot [OF assms(2), of f]] in_ok_bounds [OF assms(2)] assms(4) by simp
  ultimately show ?thesis using assms(5,6)
    by (simp add: mca_move_def get_slot n mca_transfer_ok mca_after_def Let_def upd_node_def upd_rg_def faa_pkt_cnt_def p(3-6) fun_upd_twist
        add.commute [of 1])
qed

lemma mca_after_ok:
  assumes "out_ok s src a Q P h m u" "in_ok s dst a' B h' t f" "m < u" "f < h' + 128" "src \<noteq> dst" "a \<noteq> a'"
    "\<And>i n st. Q i (n\<lparr>rn_state := st\<rparr>) = Q i n" "\<And>j. j < 8 \<Longrightarrow> B (f mod 128) j \<noteq> 0"
  shows "out_ok (mca_after src dst m f s) src a Q P h (m + 1) u" "in_ok (mca_after src dst m f s) dst a' B h' t (f + 1)"
proof -
  let ?sn = "slot s src m" and ?rn = "slot s dst f"
  have sn: "out_node Q P m u m ?sn" using out_ok_slot [OF assms(1), of m] out_ok_bounds [OF assms(1)] assms(3) by simp
  have rn: "in_node B t f f ?rn" using in_ok_slot [OF assms(2), of f] in_ok_bounds [OF assms(2)] assms(4) by simp
  have e: "er_ring (rings s src) = a" "er_ring (rings s dst) = a'" using assms(1,2) by (simp_all add: out_ok_def in_ok_def)
  show "out_ok (mca_after src dst m f s) src a Q P h (m + 1) u"
  proof (rule out_ok_take [OF assms(1,3)])
    show "node_set s a m (?sn\<lparr>rn_state := PKT_SENT_DONE\<rparr>) (mca_after src dst m f s)"
      using assms(6) by (simp add: node_set_def mca_after_def Let_def e)
    show "out_node Q P (m + 1) u m (?sn\<lparr>rn_state := PKT_SENT_DONE\<rparr>)" using sn assms(3,7) by (simp add: out_node_def)
  qed (simp add: mca_after_def Let_def)
  have "batch_ok ?sn" using sn assms(3) by (simp add: out_node_def)
  moreover have "\<forall>mt\<in>set (rn_pkts ?rn). m_pkt mt \<noteq> 0"
    using in_node_bufs [OF rn] assms(8) by (metis in_set_conv_nth)
  ultimately have mv: "batch_ok (moved ?sn ?rn)" using moved_ok in_node_bufs(1) [OF rn] by blast
  have "map m_pkt (rn_pkts (moved ?sn ?rn)) = map (\<lambda>j. m_pkt (rn_pkts ?rn ! j)) [0..<8]" by (simp add: moved_def)
  also have "\<dots> = map (B (f mod 128)) [0..<8]" using in_node_bufs(2) [OF rn] by simp
  finally have bufs: "map m_pkt (rn_pkts (moved ?sn ?rn)) = map (B (f mod 128)) [0..<8]" .
  show "in_ok (mca_after src dst m f s) dst a' B h' t (f + 1)"
  proof (rule in_ok_fill [OF assms(2,4)])
    show "node_set s a' f (moved ?sn ?rn) (mca_after src dst m f s)"
      using assms(6) by (simp add: node_set_def mca_after_def Let_def e)
    show "in_node B t (f + 1) f (moved ?sn ?rn)"
      using rn mv bufs in_ok_bounds [OF assms(2)] by (auto simp: in_node_def moved_def)
  qed (use assms(5) in \<open>simp add: mca_after_def Let_def\<close>)
qed

section \<open>Collecting\<close>

text \<open>One iteration gives the node at \<open>h\<close> back to both rings.\<close>

definition collect_after :: "addr \<Rightarrow> addr \<Rightarrow> nat \<Rightarrow> eos_st \<Rightarrow> eos_st" where
  "collect_after recv sent h s =
     s\<lparr>nodes := (nodes s)((er_ring (rings s sent), of_nat (h mod 128)) := (slot s sent h)\<lparr>rn_state := PKT_EMPTY\<rparr>,
         (er_ring (rings s recv), of_nat (h mod 128)) := (slot s sent h)\<lparr>rn_cnt := 0, rn_idx := 0, rn_state := PKT_FREE\<rparr>),
       rings := (rings s)(recv := (rings s recv)\<lparr>er_head := of_nat (h + 1)\<rparr>, sent := (rings s sent)\<lparr>er_head := of_nat (h + 1)\<rparr>)\<rparr>"

lemma collect_step:
  assumes "in_ok s recv a B h t f" "out_ok s sent a' (own B) P h m u"
    "u \<le> t" "recv \<noteq> sent" "a \<noteq> a'"
  shows "collect_loop recv sent r s = (if h < m \<and> rn_state (slot s sent h) = PKT_SENT_DONE
    then collect_loop recv sent (r + 1) (collect_after recv sent h s) else Some (r, s))"
proof -
  have e: "er_ring (rings s recv) = a" "er_ring (rings s sent) = a'" "er_head (rings s recv) = of_nat h" "er_head (rings s sent) = of_nat h"
    using assms(1,2) by (simp_all add: out_ok_def in_ok_def)
  have n: "nodes s (a, of_nat (h mod 128)) = slot s recv h" "nodes s (a', of_nat (h mod 128)) = slot s sent h" by (simp_all add: slot_def e)
  have i: "in_node B t f h (slot s recv h)" and o: "out_node (own B) P m u h (slot s sent h)"
    using in_ok_slot [OF assms(1), of h] out_ok_slot [OF assms(2), of h] by simp_all
  note b = out_ok_bounds [OF assms(2)] in_ok_bounds [OF assms(1)]
  show ?thesis
  proof (cases "h < m \<and> rn_state (slot s sent h) = PKT_SENT_DONE")
    case True
    then have "rn_state (slot s recv h) = PKT_RECV_DONE" "map m_pkt (rn_pkts (slot s recv h)) = map m_pkt (rn_pkts (slot s sent h))"
      using i o b assms(3) by (auto simp: in_node_def out_node_def own_def)
    then show ?thesis using True assms(4,5)
      by (subst collect_loop.simps) (simp add: Let_def get_slot e n collect_after_def upd_node_def upd_rg_def fun_upd_twist add.commute [of 1])
  next
    case False
    then have "rn_state (slot s sent h) \<noteq> PKT_SENT_DONE" using o by (auto simp: out_node_def split: if_splits)
    then show ?thesis by (subst collect_loop.simps) (simp add: Let_def get_slot e n)
  qed
qed

lemma collect_after_ok:
  assumes "in_ok s recv a B h t f" "out_ok s sent a' (own B) P h m u" "h < m" "u \<le> t" "recv \<noteq> sent" "a \<noteq> a'"
  shows "in_ok (collect_after recv sent h s) recv a B (h + 1) t f" "out_ok (collect_after recv sent h s) sent a' (own B) P (h + 1) m u"
proof -
  let ?s = "collect_after recv sent h s"
  have e: "er_ring (rings s recv) = a" "er_ring (rings s sent) = a'" "er_ring (rings ?s recv) = a" "er_ring (rings ?s sent) = a'"
    using assms by (auto simp: out_ok_def in_ok_def collect_after_def)
  have o: "out_node (own B) P m u h (slot s sent h)" using out_ok_slot [OF assms(2), of h] by simp
  note b = out_ok_bounds [OF assms(2)] in_ok_bounds [OF assms(1)]
  have w: "i = h + 128 \<or> h \<le> i \<and> i < h + 128 \<and> i mod 128 \<noteq> h mod 128" if "h + 1 \<le> i" "i < h + 1 + 128" for i
    using window_eq [of h i h] that by auto
  have "node_set s a h ((slot s sent h)\<lparr>rn_cnt := 0, rn_idx := 0, rn_state := PKT_FREE\<rparr>) ?s"
    "node_set s a' h ((slot s sent h)\<lparr>rn_state := PKT_EMPTY\<rparr>) ?s"
    using assms(6) by (simp_all add: node_set_def collect_after_def e)
  note sl = slot_set [OF this(1) e(1,3)] slot_set [OF this(2) e(2,4)]
  have "own B h (slot s sent h)" using o assms(3) b by (simp add: out_node_def)
  then have "in_node B t f (h + 128) ((slot s sent h)\<lparr>rn_cnt := 0, rn_idx := 0, rn_state := PKT_FREE\<rparr>)"
    "out_node (own B) P m u (h + 128) ((slot s sent h)\<lparr>rn_state := PKT_EMPTY\<rparr>)"
    using b assms(3,4) by (auto simp: in_node_def out_node_def own_def)
  then have n: "in_node B t f i (slot ?s recv i)" "out_node (own B) P m u i (slot ?s sent i)" if "h + 1 \<le> i" "i < h + 1 + 128" for i
    using w [OF that] in_ok_slot [OF assms(1), of i] out_ok_slot [OF assms(2), of i] by (auto simp: sl)
  show "in_ok ?s recv a B (h + 1) t f" using assms(1,3-5) b n(1) by (simp add: in_ok_def collect_after_def)
  show "out_ok ?s sent a' (own B) P (h + 1) m u" using assms(2,3) b n(2) by (simp add: out_ok_def collect_after_def)
qed

section \<open>A network function\<close>

text \<open>
  The caches of the two rings, when the function has sent all it has received (\<open>idle\<close>) and when it is in the middle of a batch,
  whose buffers are \<open>b\<close>; \<open>hold\<close> is the packet that it has received and not yet sent.
\<close>

definition nf_cache :: "(nat \<Rightarrow> addr) \<Rightarrow> bool \<Rightarrow> eos_ring_node \<Rightarrow> eos_ring_node \<Rightarrow> addr option \<Rightarrow> bool" where
  "nf_cache b idle ci co hold \<longleftrightarrow> rn_state co = PKT_SENT_READY \<and>
     (if idle then rn_cnt ci = rn_idx ci \<and> rn_cnt co = 0 \<and> rn_idx co = 0 \<and> hold = None \<and> length (rn_pkts co) = 8
      else batch_ok ci \<and> map m_pkt (rn_pkts ci) = map b [0..<8] \<and> map m_pkt (rn_pkts co) = map b [0..<8] \<and> rn_cnt co = rn_cnt ci \<and>
        unat (rn_idx co) < unat (rn_cnt ci) \<and> (\<forall>mt\<in>set (take (unat (rn_idx co)) (rn_pkts co)). meta_ok mt) \<and>
        (case hold of None \<Rightarrow> rn_idx ci = rn_idx co | Some p \<Rightarrow> rn_idx ci = rn_idx co + 1 \<and> p = b (unat (rn_idx co))))"

definition nf_ok :: "eos_st \<Rightarrow> addr \<Rightarrow> addr \<Rightarrow> addr \<Rightarrow> addr \<Rightarrow> (nat \<Rightarrow> nat \<Rightarrow> addr) \<Rightarrow> nat \<Rightarrow> nat \<Rightarrow> nat \<Rightarrow> nat \<Rightarrow> nat \<Rightarrow> addr option \<Rightarrow> bool" where
  "nf_ok s r a q a' B h t f m u hold \<longleftrightarrow> in_ok s r a B h t f \<and> out_ok s q a' (own B) (\<lambda>_. True) h m u \<and> u \<le> t \<and> t \<le> u + 1 \<and>
     nf_cache (B ((t - 1) mod 128)) (u = t) (cached s r) (cached s q) hold"

definition recv_load :: "addr \<Rightarrow> addr \<Rightarrow> nat \<Rightarrow> eos_st \<Rightarrow> eos_st" where
  "recv_load r q t s = (let n = slot s r t in
     s\<lparr>nodes := (nodes s)((er_ring (rings s r), of_nat (t mod 128)) := n\<lparr>rn_state := PKT_RECV_DONE\<rparr>),
       rings := (rings s)(r := (rings s r)\<lparr>er_cached := n\<lparr>rn_alloc_idx := 0\<rparr>, er_tail := of_nat (t + 1),
           er_pkt_cnt := er_pkt_cnt (rings s r) - scast (rn_cnt n)\<rparr>,
         q := (rings s q)\<lparr>er_cached := (cached s q)\<lparr>rn_pkts := rn_pkts n, rn_cnt := rn_cnt n\<rparr>\<rparr>)\<rparr>)"

lemma recv_skip_eq:
  assumes "in_ok s r a B h t f"
  shows "recv_skip r s = Some ((a, of_nat (t mod 128)), s)"
proof -
  have e: "er_ring (rings s r) = a" "er_tail (rings s r) = of_nat t" using assms by (simp_all add: in_ok_def)
  have "rn_state (slot s r t) \<noteq> PKT_EMPTY" using in_state_tail [OF assms] by (simp split: if_splits)
  then show ?thesis by (subst recv_skip.simps) (simp add: Let_def get_slot e slot_def)
qed

lemma recv_slow_load:
  assumes "nf_ok s r a q a' B h t f m u hold" "u = t" "t < f" "r \<noteq> q"
  shows "eos_pkt_recv_slow r q s = Some (0, recv_load r q t s)"
proof -
  have i: "in_ok s r a B h t f" and c: "nf_cache (B ((t - 1) mod 128)) True (cached s r) (cached s q) hold"
    using assms(1,2) by (simp_all add: nf_ok_def)
  have e: "er_ring (rings s r) = a" "er_tail (rings s r) = of_nat t" using i by (simp_all add: in_ok_def)
  have n: "nodes s (a, of_nat (t mod 128)) = slot s r t" by (simp add: slot_def e)
  have "in_node B t f t (slot s r t)" using in_ok_slot [OF i, of t] in_ok_bounds [OF i] assms(3) by simp
  then have "rn_state (slot s r t) = PKT_RECV_READY" "rn_cnt (slot s r t) \<noteq> 0" "rn_idx (slot s r t) = 0"
    using assms(3) by (auto simp: in_node_def batch_ok_def)
  moreover have "rn_cnt (cached s r) = rn_idx (cached s r)" "rn_cnt (cached s q) = 0" "rn_idx (cached s q) = 0"
    using c by (simp_all add: nf_cache_def)
  ultimately show ?thesis using assms(4)
    by (simp add: eos_pkt_recv_slow_def recv_skip_eq [OF i] n recv_load_def Let_def upd_cached_def upd_rg_def upd_node_def
        faa_pkt_cnt_def e fun_upd_twist add.commute [of 1])
qed

lemma recv_slow_blocked:
  assumes "nf_ok s r a q a' B h t f m u hold" "u = t" "t = f"
  shows "eos_pkt_recv_slow r q s = Some (if t < h + 128 then - EBLOCK else - ECOLLET, s)"
proof -
  have i: "in_ok s r a B h t f" and c: "rn_cnt (cached s r) = rn_idx (cached s r)"
    using assms(1,2) by (simp_all add: nf_ok_def nf_cache_def)
  have e: "er_ring (rings s r) = a" using i by (simp add: in_ok_def)
  have n: "nodes s (a, of_nat (i mod 128)) = slot s r i" for i by (simp add: slot_def e)
  show ?thesis using in_state_tail [OF i] assms(3) by (simp add: eos_pkt_recv_slow_def c recv_skip_eq [OF i] n)
qed

lemma in_ok_cong:
  assumes "in_ok s r a B h t f" "er_ring (rings s' r) = er_ring (rings s r)" "er_head (rings s' r) = er_head (rings s r)"
    "er_tail (rings s' r) = er_tail (rings s r)" "er_free_head (rings s' r) = er_free_head (rings s r)" "\<And>i. nodes s' (a, i) = nodes s (a, i)"
  shows "in_ok s' r a B h t f"
  using assms by (auto simp: in_ok_def slot_def)

lemma out_ok_cong:
  assumes "out_ok s r a Q P h m u" "er_ring (rings s' r) = er_ring (rings s r)" "er_head (rings s' r) = er_head (rings s r)"
    "er_tail (rings s' r) = er_tail (rings s r)" "er_mca_head (rings s' r) = er_mca_head (rings s r)" "\<And>i. nodes s' (a, i) = nodes s (a, i)"
  shows "out_ok s' r a Q P h m u"
  using assms by (auto simp: out_ok_def slot_def)

lemma recv_load_ok:
  assumes "nf_ok s r a q a' B h t f m u hold" "u = t" "t < f" "r \<noteq> q" "a \<noteq> a'"
  shows "nf_ok (recv_load r q t s) r a q a' B h (t + 1) f m u None"
proof -
  let ?s = "recv_load r q t s" and ?n = "slot s r t"
  have i: "in_ok s r a B h t f" and o: "out_ok s q a' (own B) (\<lambda>_. True) h m u"
    and c: "nf_cache (B ((t - 1) mod 128)) True (cached s r) (cached s q) hold"
    using assms(1,2) by (simp_all add: nf_ok_def)
  have e: "er_ring (rings s r) = a" "er_ring (rings ?s r) = a" using i assms(4) by (simp_all add: in_ok_def recv_load_def Let_def)
  note b = in_ok_bounds [OF i]
  have n: "in_node B t f t ?n" using in_ok_slot [OF i, of t] b assms(3) by simp
  have "node_set s a t (?n\<lparr>rn_state := PKT_RECV_DONE\<rparr>) ?s" by (simp add: node_set_def recv_load_def Let_def e)
  note sl = slot_set_window [OF this e, of h]
  have "in_node B (t + 1) f j (slot ?s r j)" if "h \<le> j" "j < h + 128" for j
    using sl [of j] in_ok_slot [OF i that] n that b assms(3) by (cases "j = t") (auto simp: in_node_def)
  then have "in_ok ?s r a B h (t + 1) f" using i assms(3,4) by (simp add: in_ok_def recv_load_def Let_def)
  moreover have "out_ok ?s q a' (own B) (\<lambda>_. True) h m u"
    using o assms(4,5) by (rule_tac out_ok_cong) (simp_all add: recv_load_def Let_def e)
  moreover have "nf_cache (B (t mod 128)) False (cached ?s r) (cached ?s q) None"
    using n c assms(3,4) by (simp add: nf_cache_def recv_load_def Let_def in_node_def batch_ok_def)
  ultimately show ?thesis using assms(2) by (simp add: nf_ok_def)
qed

text \<open>Receiving the next packet of a batch.\<close>

definition recv_next :: "addr \<Rightarrow> eos_st \<Rightarrow> eos_st" where
  "recv_next r = upd_cached r (\<lambda>c. c\<lparr>rn_idx := rn_idx c + 1\<rparr>)"

lemma unat_inc16: "unat (x :: u16) < 8 \<Longrightarrow> unat (x + 1) = unat x + 1"
  by (simp add: unat_plus_if')

lemma take_nth_ok: "\<forall>x\<in>set (take n xs). P x \<Longrightarrow> i < n \<Longrightarrow> i < length xs \<Longrightarrow> P (xs ! i)"
  by (metis in_set_conv_nth length_take min_less_iff_conj nth_take)

lemma recv_next_eq:
  assumes "nf_ok s r a q a' B h t f m u None" "t = u + 1" "r \<noteq> q"
  shows "eos_pkt_recv r q s = (let mt = rn_pkts (cached s r) ! unat (rn_idx (cached s q)) in
      Some (Inr (m_pkt mt, m_len mt, m_port mt), recv_next r s))"
    "nf_ok (recv_next r s) r a q a' B h t f m u (Some (m_pkt (rn_pkts (cached s r) ! unat (rn_idx (cached s q)))))"
proof -
  let ?ci = "cached s r" and ?co = "cached s q"
  have c: "nf_cache (B (u mod 128)) False ?ci ?co None" using assms(1,2) by (simp add: nf_ok_def)
  define k where "k = unat (rn_idx ?co)"
  have ci: "batch_ok ?ci" "rn_idx ?ci = rn_idx ?co" "k < unat (rn_cnt ?ci)" "map m_pkt (rn_pkts ?ci) = map (B (u mod 128)) [0..<8]"
    using c by (simp_all add: nf_cache_def k_def)
  have k: "k < 8" "unat (rn_cnt ?ci) \<le> 8" using ci(1,3) by (simp_all add: batch_ok_def)
  note bufs = bufs_nth [OF ci(4)]
  have neq: "rn_cnt ?ci \<noteq> rn_idx ?ci" using ci(2,3) by (auto simp: k_def)
  have sk: "sint (rn_idx ?co) = int k" using k by (simp add: k_def sint_unat16)
  have "meta_ok (rn_pkts ?ci ! k)" 
    using take_nth_ok [of "unat (rn_cnt ?ci)" "rn_pkts ?ci" meta_ok k] ci(1,3) k by (simp add: batch_ok_def)
  then show "eos_pkt_recv r q s = (let mt = rn_pkts ?ci ! unat (rn_idx ?co) in Some (Inr (m_pkt mt, m_len mt, m_port mt), recv_next r s))"
    using neq bufs k by (simp add: eos_pkt_recv_def ci(2) sk meta_ok_def recv_next_def Let_def flip: k_def)
  have "in_ok (recv_next r s) r a B h t f" "out_ok (recv_next r s) q a' (own B) (\<lambda>_. True) h m u"
    using assms(1,3) by (auto simp: nf_ok_def recv_next_def upd_cached_def upd_rg_def intro: in_ok_cong out_ok_cong)
  moreover have "nf_cache (B (u mod 128)) False (cached (recv_next r s) r) (cached (recv_next r s) q) (Some (m_pkt (rn_pkts ?ci ! k)))"
    using c assms(3) bufs k by (simp add: nf_cache_def recv_next_def upd_cached_def upd_rg_def batch_ok_def flip: k_def)
  ultimately show "nf_ok (recv_next r s) r a q a' B h t f m u (Some (m_pkt (rn_pkts ?ci ! unat (rn_idx ?co))))"
    using assms(1,2) by (simp add: nf_ok_def k_def)
qed

lemma recv_first:
  assumes "nf_ok s r a q a' B h t f m u hold" "u = t" "t < f" "r \<noteq> q" "a \<noteq> a'"
  shows "eos_pkt_recv r q s = eos_pkt_recv r q (recv_load r q t s)"
proof -
  let ?s = "recv_load r q t s"
  have "rn_cnt (cached s r) = rn_idx (cached s r)" using assms(1,2) by (simp add: nf_ok_def nf_cache_def)
  moreover have "rn_cnt (cached ?s r) \<noteq> rn_idx (cached ?s r)"
    using recv_load_ok [OF assms] assms(2) by (auto simp: nf_ok_def nf_cache_def)
  ultimately show ?thesis by (simp add: eos_pkt_recv_def recv_slow_load [OF assms(1-4)])
qed

lemma recv_blocked:
  assumes "nf_ok s r a q a' B h t f m u hold" "u = t" "t = f"
  shows "eos_pkt_recv r q s = Some (Inl (if t < h + 128 then - EBLOCK else - ECOLLET), s)"
proof -
  have "rn_cnt (cached s r) = rn_idx (cached s r)" using assms(1,2) by (simp add: nf_ok_def nf_cache_def)
  then show ?thesis by (simp add: eos_pkt_recv_def recv_slow_blocked [OF assms])
qed

text \<open>Sending: the packet goes into the cache, which is flushed with the last packet of the batch.\<close>

definition put_after :: "addr \<Rightarrow> addr \<Rightarrow> u32 \<Rightarrow> u32 \<Rightarrow> eos_st \<Rightarrow> eos_st" where
  "put_after q p len port = upd_cached q (\<lambda>c. c\<lparr>rn_pkts := (rn_pkts c)[unat (rn_idx c) := \<lparr>m_pkt = p, m_len = len, m_port = port\<rparr>],
     rn_idx := rn_idx c + 1\<rparr>)"

definition flush_after :: "addr \<Rightarrow> nat \<Rightarrow> eos_st \<Rightarrow> eos_st" where
  "flush_after q u s =
     s\<lparr>nodes := (nodes s)((er_ring (rings s q), of_nat (u mod 128)) := (cached s q)\<lparr>rn_idx := 0\<rparr>),
       rings := (rings s)(q := (rings s q)\<lparr>er_tail := of_nat (u + 1), er_cached := (cached s q)\<lparr>rn_idx := 0, rn_cnt := 0\<rparr>,
         er_pkt_cnt := er_pkt_cnt (rings s q) + 1\<rparr>)\<rparr>"

lemma cache_put_eq:
  assumes "unat (rn_idx (cached s q)) < 8" "length (rn_pkts (cached s q)) = 8"
  shows "cache_put q p len port s = Some (put_after q p len port s)"
proof -
  define k where "k = unat (rn_idx (cached s q))"
  have "sint (rn_idx (cached s q)) = int k" using assms(1) unfolding k_def by (intro sint_unat16) simp
  then show ?thesis using assms by (simp add: cache_put_def put_after_def upd_cached_def upd_rg_def flip: k_def)
qed

lemma out_state_tail:
  assumes "out_ok s q a Q P h m u"
  shows "u < h + 128 \<Longrightarrow> rn_state (slot s q u) = PKT_EMPTY" "u = h + 128 \<Longrightarrow> slot s q u = slot s q h"
  using out_ok_slot [OF assms, of u] out_ok_bounds [OF assms] by (auto simp: out_node_def)

lemma flush_eq:
  assumes "out_ok s q a Q P h m u" "u < h + 128" "rn_cnt (cached s q) \<noteq> 0" "unat (rn_cnt (cached s q)) \<le> 8" "rn_idx (cached s q) = rn_cnt (cached s q)"
  shows "eos_pkt_send_flush q s = Some (0, flush_after q u s)"
proof -
  have e: "er_ring (rings s q) = a" "er_tail (rings s q) = of_nat u" using assms(1) by (simp_all add: out_ok_def)
  have n: "nodes s (a, of_nat (u mod 128)) = slot s q u" by (simp add: slot_def e)
  have "sint (rn_cnt (cached s q)) = int (unat (rn_cnt (cached s q)))" using assms(4) by (intro sint_unat16) simp
  then have "sint (rn_cnt (cached s q)) \<le> 8" using assms(4) by linarith
  then show ?thesis using assms(3,5) out_state_tail(1) [OF assms(1,2)]
    by (simp add: eos_pkt_send_flush_def flush_node_def Let_def get_slot e n flush_after_def upd_cached_def upd_rg_def upd_node_def
        faa_pkt_cnt_def add.commute [of 1])
qed

lemma flush_ok:
  assumes "out_ok s q a Q P h m u" "u < h + 128" "out_node Q P m (u + 1) u ((cached s q)\<lparr>rn_idx := 0\<rparr>)"
  shows "out_ok (flush_after q u s) q a Q P h m (u + 1)"
proof -
  let ?s = "flush_after q u s"
  have e: "er_ring (rings s q) = a" "er_ring (rings ?s q) = a" using assms(1) by (simp_all add: out_ok_def flush_after_def)
  have "node_set s a u ((cached s q)\<lparr>rn_idx := 0\<rparr>) ?s" by (simp add: node_set_def flush_after_def e)
  note sl = slot_set_window [OF this e, of h]
  have "out_node Q P m (u + 1) j (slot ?s q j)" if "h \<le> j" "j < h + 128" for j
    using sl [of j] out_ok_slot [OF assms(1) that] assms(2,3) that out_ok_bounds [OF assms(1)] by (cases "j = u") (auto simp: out_node_def)
  then show ?thesis using assms(1,2) by (simp add: out_ok_def flush_after_def)
qed

lemma send_eq:
  assumes "nf_ok s r a q a' B h t f m u (Some p)" "r \<noteq> q" "a \<noteq> a'" "0 < len" "len \<le> 256"
  defines "k \<equiv> unat (rn_idx (cached s q))"
  shows "t = u + 1" "u < h + 128" "k < 8"
    "eos_pkt_send q p len port s = Some (0, if k + 1 < unat (rn_cnt (cached s r)) then put_after q p len port s
      else flush_after q u (put_after q p len port s))"
proof -
  have o: "out_ok s q a' (own B) (\<lambda>_. True) h m u" and b: "u \<le> t" "t \<le> u + 1" "t \<le> h + 128"
    using assms(1) in_ok_bounds by (force simp: nf_ok_def)+
  have "u \<noteq> t" using assms(1) by (auto simp: nf_ok_def nf_cache_def)
  then show tu: "t = u + 1" using b by simp
  then show uh: "u < h + 128" using b by simp
  have c: "nf_cache (B (u mod 128)) False (cached s r) (cached s q) (Some p)" using assms(1) tu by (simp add: nf_ok_def)
  then have cn: "rn_cnt (cached s q) = rn_cnt (cached s r)" "k < unat (rn_cnt (cached s r))" "unat (rn_cnt (cached s r)) \<le> 8"
    "length (rn_pkts (cached s q)) = 8"
    using bufs_nth(1) [of "rn_pkts (cached s q)" "B (u mod 128)"] by (simp_all add: nf_cache_def k_def batch_ok_def)
  then show k: "k < 8" by simp
  let ?s1 = "put_after q p len port s"
  have p: "cache_put q p len port s = Some ?s1" using k cn(4) by (intro cache_put_eq) (simp_all add: k_def)
  have c1: "rn_cnt (cached ?s1 q) = rn_cnt (cached s q)" "unat (rn_idx (cached ?s1 q)) = k + 1"
    using k unat_inc16 [of "rn_idx (cached s q)"] by (simp_all add: put_after_def upd_cached_def upd_rg_def k_def)
  have o1: "out_ok ?s1 q a' (own B) (\<lambda>_. True) h m u"
    by (rule out_ok_cong [OF o]) (simp_all add: put_after_def upd_cached_def upd_rg_def)
  have ne: "rn_cnt (cached s q) \<noteq> rn_idx (cached s q)" using cn by (auto simp: k_def)
  show "eos_pkt_send q p len port s = Some (0, if k + 1 < unat (rn_cnt (cached s r)) then ?s1 else flush_after q u ?s1)"
  proof (cases "k + 1 < unat (rn_cnt (cached s r))")
    case True
    then have "rn_cnt (cached ?s1 q) \<noteq> rn_idx (cached ?s1 q)" using c1 cn by auto
    then show ?thesis using True ne p by (simp add: eos_pkt_send_def)
  next
    case False
    then have "unat (rn_idx (cached ?s1 q)) = unat (rn_cnt (cached ?s1 q))" using c1 cn by simp
    then have eq: "rn_idx (cached ?s1 q) = rn_cnt (cached ?s1 q)" by (simp only: word_unat_eq_iff)
    have "rn_cnt (cached ?s1 q) \<noteq> 0" "unat (rn_cnt (cached ?s1 q)) \<le> 8" using c1 cn by auto
    from flush_eq [OF o1 uh this eq] show ?thesis using False ne p eq by (simp add: eos_pkt_send_def)
  qed
qed

lemma put_pkts:
  assumes "map m_pkt ps = map b [0..<8]" "k < 8" "m_pkt mt = b k"
  shows "map m_pkt (ps[k := mt]) = map b [0..<8]" "take (k + 1) (ps[k := mt]) = take k ps @ [mt]"
proof -
  have "(map b [0..<8])[k := b k] = map b [0..<8]" using assms(2) by (metis (no_types, lifting) diff_zero length_map length_upt list_update_id nth_map_upt add_0)
  then show "map m_pkt (ps[k := mt]) = map b [0..<8]" using assms by (simp add: map_update)
  show "take (k + 1) (ps[k := mt]) = take k ps @ [mt]" using bufs_nth(1) [OF assms(1)] assms(2) by (simp add: take_Suc_conv_app_nth)
qed

lemma send_ok:
  fixes port :: u32
  assumes "nf_ok s r a q a' B h t f m u (Some p)" "r \<noteq> q" "a \<noteq> a'" "0 < len" "len \<le> 256" "\<And>i j. i < 128 \<Longrightarrow> j < 8 \<Longrightarrow> B i j \<noteq> 0"
  defines "s1 \<equiv> put_after q p len port s" and "fin \<equiv> unat (rn_idx (cached s q)) + 1 = unat (rn_cnt (cached s r))"
  shows "\<not> fin \<Longrightarrow> nf_ok s1 r a q a' B h t f m u None" "fin \<Longrightarrow> nf_ok (flush_after q u s1) r a q a' B h t f m (u + 1) None"
proof -
  have i: "in_ok s r a B h t f" and o: "out_ok s q a' (own B) (\<lambda>_. True) h m u" using assms(1) by (simp_all add: nf_ok_def)
  note se = send_eq [OF assms(1-5)]
  let ?ci = "cached s r" and ?co = "cached s q" and ?b = "B (u mod 128)" and ?mt = "\<lparr>m_pkt = p, m_len = len, m_port = port\<rparr>"
  define k where "k = unat (rn_idx ?co)"
  have c: "nf_cache ?b False ?ci ?co (Some p)" using assms(1) se(1) by (simp add: nf_ok_def)
  have k: "k < 8" "k < unat (rn_cnt ?ci)" "unat (rn_cnt ?ci) \<le> 8" using c by (auto simp: nf_cache_def k_def batch_ok_def)
  have p: "p = ?b k" using c by (simp add: nf_cache_def k_def)
  have mt: "meta_ok ?mt" using assms(4-6) k(1) p by (auto simp: meta_ok_def)
  have ps: "map m_pkt ((rn_pkts ?co)[k := ?mt]) = map ?b [0..<8]" "take (k + 1) ((rn_pkts ?co)[k := ?mt]) = take k (rn_pkts ?co) @ [?mt]"
    using put_pkts [of "rn_pkts ?co" ?b k ?mt] c k(1) p by (simp_all add: nf_cache_def)
  have c1: "cached s1 r = ?ci" "cached s1 q = ?co\<lparr>rn_pkts := (rn_pkts ?co)[k := ?mt], rn_idx := rn_idx ?co + 1\<rparr>" "unat (rn_idx ?co + 1) = k + 1"
    using assms(2) k(1) unat_inc16 [of "rn_idx ?co"] by (simp_all add: s1_def put_after_def upd_cached_def upd_rg_def k_def)
  have ok: "\<forall>mt\<in>set (take (k + 1) ((rn_pkts ?co)[k := ?mt])). meta_ok mt"
    using c mt unfolding ps(2) by (auto simp: nf_cache_def k_def)
  have i1: "in_ok s1 r a B h t f" and o1: "out_ok s1 q a' (own B) (\<lambda>_. True) h m u"
    using assms(2) by (auto intro: in_ok_cong [OF i] out_ok_cong [OF o] simp: s1_def put_after_def upd_cached_def upd_rg_def)
  show "nf_ok s1 r a q a' B h t f m u None" if "\<not> fin"
  proof -
    have "nf_cache ?b False (cached s1 r) (cached s1 q) None"
      using that c k ps(1) ok by (simp add: nf_cache_def c1 fin_def flip: k_def)
    then show ?thesis using i1 o1 se(1) by (simp add: nf_ok_def)
  qed
  show "nf_ok (flush_after q u s1) r a q a' B h t f m (u + 1) None" if "fin"
  proof -
    let ?s = "flush_after q u s1"
    have l: "k + 1 = unat (rn_cnt ?ci)" using that by (simp add: fin_def k_def)
    have "rn_cnt ?co = rn_cnt ?ci" "rn_state ?co = PKT_SENT_READY" "rn_idx ?ci = rn_idx ?co + 1" using c by (simp_all add: nf_cache_def)
    moreover from this(3) have "rn_cnt ?ci = rn_idx ?ci" using c1(3) l by (simp add: word_unat_eq_iff)
    ultimately have "out_node (own B) (\<lambda>_. True) m (u + 1) u ((cached s1 q)\<lparr>rn_idx := 0\<rparr>)" "rn_cnt ?ci = rn_idx ?ci"
      using out_ok_bounds [OF o] k ps(1) ok bufs_nth(1) [OF ps(1)] by (simp_all add: out_node_def c1 own_def batch_ok_def flip: l)
    then have "out_ok ?s q a' (own B) (\<lambda>_. True) h m (u + 1)" "rn_cnt ?ci = rn_idx ?ci" using flush_ok [OF o1 se(2)] by simp_all
    moreover have "in_ok ?s r a B h t f"
      using assms(2,3) o1 by (intro in_ok_cong [OF i1]) (auto simp: flush_after_def out_ok_def)
    moreover have "rn_state ?co = PKT_SENT_READY" "length (rn_pkts ?co) = 8" "cached ?s r = ?ci"
      "cached ?s q = (cached s1 q)\<lparr>rn_idx := 0, rn_cnt := 0\<rparr>"
      using c bufs_nth(1) [of "rn_pkts ?co" ?b] assms(2) c1(1) by (simp_all add: nf_cache_def flush_after_def)
    ultimately show ?thesis using se(1) by (simp add: nf_ok_def nf_cache_def c1(2))
  qed
qed

section \<open>What an operation leaves alone\<close>

definition touches :: "addr set \<Rightarrow> addr set \<Rightarrow> eos_st \<Rightarrow> eos_st \<Rightarrow> bool" where
  "touches R A s s' \<longleftrightarrow> (\<forall>r. r \<notin> R \<longrightarrow> rings s' r = rings s r) \<and> (\<forall>a i. a \<notin> A \<longrightarrow> nodes s' (a, i) = nodes s (a, i))"

lemma touches_refl: "touches R A s s"
  by (simp add: touches_def)

lemma touches_trans: "touches R A s s' \<Longrightarrow> touches R A s' s'' \<Longrightarrow> touches R A s s''"
  by (simp add: touches_def)

lemma touches_mono: "touches R A s s' \<Longrightarrow> R \<subseteq> R' \<Longrightarrow> A \<subseteq> A' \<Longrightarrow> touches R' A' s s'"
  by (auto simp: touches_def)

lemma touches_upd_cached: "touches {r} {} s (upd_cached r f s)"
  by (simp add: touches_def upd_cached_def upd_rg_def)

lemma touches_recv_load: "er_ring (rings s r) = a \<Longrightarrow> touches {r, q} {a} s (recv_load r q t s)"
  by (auto simp: touches_def recv_load_def Let_def)

lemma touches_flush: "er_ring (rings s q) = a \<Longrightarrow> touches {q} {a} s (flush_after q u s)"
  by (auto simp: touches_def flush_after_def)

lemma touches_mca: "er_ring (rings s src) = a \<Longrightarrow> er_ring (rings s dst) = a' \<Longrightarrow> touches {src, dst} {a, a'} s (mca_after src dst m f s)"
  by (auto simp: touches_def mca_after_def Let_def)

lemma touches_collect:
  "er_ring (rings s recv) = a \<Longrightarrow> er_ring (rings s sent) = a' \<Longrightarrow> touches {recv, sent} {a, a'} s (collect_after recv sent h s)"
  by (auto simp: touches_def collect_after_def)

text \<open>The loop that collects nodes returns; nodes that wait, caches and packets are as before.\<close>

definition keeps :: "addr \<Rightarrow> addr \<Rightarrow> nat \<Rightarrow> nat \<Rightarrow> eos_st \<Rightarrow> eos_st \<Rightarrow> bool" where
  "keeps r q lo hi s s' \<longleftrightarrow> bytes s' = bytes s \<and> cached s' r = cached s r \<and> cached s' q = cached s q \<and>
     (\<forall>i. lo \<le> i \<and> i < hi \<longrightarrow> slot s' r i = slot s r i \<and> slot s' q i = slot s q i)"

lemma collect_after_keeps:
  assumes "er_ring (rings s recv) = a" "er_ring (rings s sent) = a'" "recv \<noteq> sent" "a \<noteq> a'"
  shows "keeps recv sent (h + 1) (h + 128) s (collect_after recv sent h s)"
proof -
  let ?s = "collect_after recv sent h s"
  have e: "er_ring (rings ?s recv) = a" "er_ring (rings ?s sent) = a'" using assms by (simp_all add: collect_after_def)
  have "node_set s a h ((slot s sent h)\<lparr>rn_cnt := 0, rn_idx := 0, rn_state := PKT_FREE\<rparr>) ?s"
    "node_set s a' h ((slot s sent h)\<lparr>rn_state := PKT_EMPTY\<rparr>) ?s"
    using assms by (simp_all add: node_set_def collect_after_def)
  note sl = slot_set_window [OF this(1) assms(1) e(1), of h] slot_set_window [OF this(2) assms(2) e(2), of h]
  show ?thesis using assms(3) by (auto simp: keeps_def sl) (simp_all add: collect_after_def)
qed

lemma collect_ok:
  assumes "nf_ok s r a q a' B h t f m u hold" "r \<noteq> q" "a \<noteq> a'"
  shows "\<exists>n' s' h'. collect_loop r q n s = Some (n', s') \<and> h \<le> h' \<and> nf_ok s' r a q a' B h' t f m u hold \<and>
    touches {r, q} {a, a'} s s' \<and> keeps r q m (h + 128) s s'"
  using assms
proof (induction "m - h" arbitrary: h s n rule: less_induct)
  case less
  have i: "in_ok s r a B h t f" and o: "out_ok s q a' (own B) (\<lambda>_. True) h m u" and b: "u \<le> t" "t \<le> u + 1"
    and c: "nf_cache (B ((t - 1) mod 128)) (u = t) (cached s r) (cached s q) hold"
    using less.prems(1) by (simp_all add: nf_ok_def)
  have e: "er_ring (rings s r) = a" "er_ring (rings s q) = a'" using i o by (simp_all add: in_ok_def out_ok_def)
  note st = collect_step [OF i o b(1) assms(2,3), of n]
  show ?case
  proof (cases "h < m \<and> rn_state (slot s q h) = PKT_SENT_DONE")
    case True
    let ?s = "collect_after r q h s"
    note k = collect_after_keeps [OF e assms(2,3), of h] and tc = touches_collect [OF e, of h]
    have "nf_ok ?s r a q a' B (h + 1) t f m u hold"
      using collect_after_ok [OF i o _ b(1) assms(2,3)] True b c k by (simp add: nf_ok_def keeps_def)
    moreover have "m - (h + 1) < m - h" using True by linarith
    ultimately obtain n' s' h' where ih: "collect_loop r q (n + 1) ?s = Some (n', s')" "h + 1 \<le> h'" "nf_ok s' r a q a' B h' t f m u hold"
      "touches {r, q} {a, a'} ?s s'" "keeps r q m (h + 1 + 128) ?s s'"
      using less.hyps [of "h + 1" ?s "n + 1"] assms(2,3) by blast
    have "keeps r q m (h + 128) s s'" using ih(5) k True by (auto simp: keeps_def)
    then show ?thesis using st True ih touches_trans [OF tc ih(4)]
      by (intro exI [of _ n'] exI [of _ s'] exI [of _ h']) auto
  next
    case False
    then have "collect_loop r q n s = Some (n, s)" unfolding st by (rule if_not_P)
    moreover have "keeps r q m (h + 128) s s" by (simp add: keeps_def)
    ultimately show ?thesis using less.prems(1) touches_refl by blast
  qed
qed

section \<open>Reception and transmission\<close>

lemma those_Some: "\<forall>x\<in>set xs. x \<noteq> None \<Longrightarrow> \<exists>ys. those xs = Some ys"
  by (induction xs) auto

lemma tx_take_ok:
  assumes "out_ok s q a Q P h m u" "m < u" "\<And>i n st. Q i (n\<lparr>rn_state := st\<rparr>) = Q i n"
  shows "out_ok (tx_take q s) q a Q P h (m + 1) u" "touches {q} {a} s (tx_take q s)" "bytes (tx_take q s) = bytes s"
    "cached (tx_take q s) q = cached s q" "\<And>i. m < i \<Longrightarrow> i < h + 128 \<Longrightarrow> slot (tx_take q s) q i = slot s q i"
proof -
  let ?s = "tx_take q s" and ?n = "slot s q m"
  have e: "er_ring (rings s q) = a" "er_mca_head (rings s q) = of_nat m" "er_ring (rings ?s q) = a"
    using assms(1) by (simp_all add: out_ok_def tx_take_def upd_rg_def upd_node_def Let_def)
  have n: "nodes s (a, of_nat (m mod 128)) = ?n" by (simp add: slot_def e)
  have on: "out_node Q P m u m ?n" using out_ok_slot [OF assms(1), of m] out_ok_bounds [OF assms(1)] assms(2) by simp
  then have c: "rn_cnt ?n \<noteq> 0" using assms(2) by (auto simp: out_node_def batch_ok_def)
  then have s: "?s = s\<lparr>nodes := (nodes s)((a, of_nat (m mod 128)) := ?n\<lparr>rn_state := PKT_TXING\<rparr>),
      rings := (rings s)(q := (rings s q)\<lparr>er_mca_head := of_nat (m + 1)\<rparr>)\<rparr>"
    by (simp add: tx_take_def get_slot e n Let_def upd_rg_def upd_node_def add.commute [of 1])
  have ns: "node_set s a m (?n\<lparr>rn_state := PKT_TXING\<rparr>) ?s" by (simp add: node_set_def s)
  have "out_node Q P (m + 1) u m (?n\<lparr>rn_state := PKT_TXING\<rparr>)" using on c assms(2,3) by (simp add: out_node_def)
  then show "out_ok ?s q a Q P h (m + 1) u" by (rule out_ok_take [OF assms(1,2) ns, of "er_pkt_cnt (rings s q)"]) (simp add: s)
  show "touches {q} {a} s ?s" "bytes ?s = bytes s" "cached ?s q = cached s q" by (auto simp: touches_def s)
  show "slot ?s q i = slot s q i" if "m < i" "i < h + 128" for i
    using slot_set_window [OF ns e(1,3), of h i] that out_ok_bounds [OF assms(1)] by auto
qed

text \<open>The driver reports the transmission of a packet of the node at an index.\<close>

lemma window_of:
  fixes h :: nat
  assumes "k < 128"
  obtains i where "h \<le> i" "i < h + 128" "i mod 128 = k"
proof -
  define d where "d = (if h mod 128 \<le> k then k - h mod 128 else 128 + k - h mod 128)"
  have m: "h mod 128 < 128" by simp
  have d: "d < 128" "h mod 128 + d = (if h mod 128 \<le> k then k else k + 128)" using assms m by (auto simp: d_def)
  have "(h + d) mod 128 = (h mod 128 + d) mod 128" by (simp add: mod_add_left_eq)
  also have "\<dots> = k" using assms by (simp add: d(2))
  finally show ?thesis using that [of "h + d"] d(1) by simp
qed

lemma tx_cb_ok:
  assumes "out_ok s q a Q P h m u" "k < 128" "rn_state (slot s q k) = PKT_TXING" "\<And>i n st. Q i (n\<lparr>rn_state := st\<rparr>) = Q i n"
    "\<And>i n c. Q i (n\<lparr>rn_cnt := c\<rparr>) = Q i n"
  defines "s' \<equiv> cos_tx_cb (a, of_nat k) s"
  shows "out_ok s' q a Q P h m u" "touches {} {a} s s'" "bytes s' = bytes s" "\<And>i. m \<le> i \<Longrightarrow> i < h + 128 \<Longrightarrow> slot s' q i = slot s q i"
proof -
  obtain j where j: "h \<le> j" "j < h + 128" "j mod 128 = k" using window_of [OF assms(2)] by blast
  have e: "er_ring (rings s q) = a" using assms(1) by (simp add: out_ok_def)
  let ?n = "slot s q j"
  have n: "nodes s (a, of_nat k) = ?n" "slot s q k = ?n" using j(3) assms(2) by (simp_all add: slot_def e)
  have on: "out_node Q P m u j ?n" using out_ok_slot [OF assms(1) j(1,2)] .
  then have jm: "j < m" "rn_cnt ?n \<noteq> 0" using assms(3) n(2) by (auto simp: out_node_def split: if_splits)
  define n' where "n' = (if rn_cnt ?n - 1 = 0 then ?n\<lparr>rn_cnt := rn_cnt ?n - 1, rn_state := PKT_SENT_DONE\<rparr> else ?n\<lparr>rn_cnt := rn_cnt ?n - 1\<rparr>)"
  have nst: "rn_state ?n = PKT_TXING" using assms(3) n(2) by simp
  have s: "s' = s\<lparr>nodes := (nodes s)((a, of_nat k) := n')\<rparr>"
    using nst by (simp add: s'_def cos_tx_cb_def Let_def upd_node_def n n'_def)
  have ns: "node_set s a j n' s'" by (simp add: node_set_def s j(3))
  have e': "er_ring (rings s' q) = a" by (simp add: s e)
  have "unat (rn_cnt ?n - 1) \<le> 8"
  proof -
    have "unat (rn_cnt ?n) \<le> 8" using on jm out_ok_bounds [OF assms(1)] by (simp add: out_node_def)
    moreover have "1 \<le> unat (rn_cnt ?n)" using jm(2) by (simp add: Suc_le_eq unat_gt_0)
    ultimately show ?thesis by (simp add: unat_sub_if')
  qed
  then have on': "out_node Q P m u j n'" using on jm nst assms(4,5) by (simp add: out_node_def n'_def)
  note sl = slot_set_window [OF ns e e' j(1,2)]
  have "out_node Q P m u i (slot s' q i)" if "h \<le> i" "i < h + 128" for i
    using sl [OF that] on' out_ok_slot [OF assms(1) that] by auto
  then show "out_ok s' q a Q P h m u" using assms(1) by (simp add: out_ok_def s)
  show "touches {} {a} s s'" "bytes s' = bytes s" by (auto simp: touches_def s)
  show "slot s' q i = slot s q i" if "m \<le> i" "i < h + 128" for i
    using sl [of i] that jm(1) out_ok_bounds [OF assms(1)] by auto
qed

end
