(* ===== verification/Spec2Isabelle.thy ===== *)
theory Spec2Isabelle
  imports Kernel_Abi Kernel_Api_Caps Tcap_Inv Sl_Runs Endpoints Eos_Inv
begin

text \<open>
  A model of the Composite kernel and of the user-level scheduling library that runs on it, with the
  properties that make them correct.  All paths below are under \<^verbatim>\<open>src/src/\<close>.

  \<^bold>\<open>The program.\<close>  Composite is a component-based operating system.  Its kernel (\<^verbatim>\<open>kernel/\<close>) manages physical
  memory through a retype table, components through capability tables and page tables that are made of
  user-provided memory, execution through threads that migrate between components on an invocation stack,
  and time through temporal capabilities (tcaps) that schedulers delegate to one another.  Scheduling policy
  is left to user level: the library \<^verbatim>\<open>components/lib/sl\<close> keeps the threads of a core, blocks and wakes them,
  and asks a policy module which of them to run; the kernel informs it of events and enforces its choice.

  \<^bold>\<open>Conventions\<close> (\<^verbatim>\<open>Prelude\<close>).  Machine integers are words of their width.  An operation returns \<open>None\<close> where the
  code fails an assertion, dereferences a null pointer or leaves an array; otherwise \<open>Some (ret, s)\<close> with the
  C return value and the new state.  Compare-and-swap and fetch-and-add are atomic updates of the state.
  Memory is a map from addresses; where the code overlays structures on one page, the state has one map for
  each view.

  \<^bold>\<open>The kernel.\<close>
  \<^item> \<^verbatim>\<open>Retype_Table\<close> (\<^verbatim>\<open>retype_tbl.c\<close>, \<^verbatim>\<open>retype_tbl.h\<close>): the type and the reference counts of every memory set, per core
    and global.  Every reachable state is consistent and no assertion fails; any sequence of operations returns
    what a specification with one type, one count and the unmap times for each set returns, and leaves its
    state; retyping is atomic.  The locale \<open>ref_counting\<close> states what clients rely on.
  \<^item> \<^verbatim>\<open>Liveness\<close> (\<^verbatim>\<open>liveness_tbl.h\<close>, \<^verbatim>\<open>pgtbl.c\<close>): epochs that revoke references, and the time stamps of TLB flushes.
  \<^item> \<^verbatim>\<open>Ertrie\<close> (\<^verbatim>\<open>ertrie.h\<close>): radix tries, generic in the functions for nodes; the locale \<open>ert2\<close> gives lookup
    after expansion for tries of two levels and is interpreted for both tables below.
  \<^item> \<^verbatim>\<open>Captbl\<close> (\<^verbatim>\<open>captbl.h\<close>, \<^verbatim>\<open>captbl.c\<close>): capability slots in cache lines.  Lookup after addition and removal, the frame of
    both, quiescence of removed slots.
  \<^item> \<^verbatim>\<open>Pgtbl\<close> (\<^verbatim>\<open>pgtbl.h\<close>, \<^verbatim>\<open>pgtbl.c\<close>): mappings.  The reference counts of the retype table agree with the entries that
    hold a frame; entries are reused only after a flush.
  \<^item> \<^verbatim>\<open>Klist\<close> (\<^verbatim>\<open>list.h\<close>): rings of nodes; the locale \<open>bounded_queue\<close> is the contract of a queue.
  \<^item> \<^verbatim>\<open>Kernel_State\<close>, \<^verbatim>\<open>Thread\<close> (\<^verbatim>\<open>thd.h\<close>): kernel objects, invocation stacks, receive end-points with their event
    queues, which implement a queue without duplicates.
  \<^item> \<^verbatim>\<open>Tcap\<close>, \<^verbatim>\<open>Tcap_Inv\<close> (\<^verbatim>\<open>tcap.c\<close>, \<^verbatim>\<open>tcap.h\<close>): budgets, delegation chains, the active list of a core, the timer.  The
    invariant holds over every sequence of operations; the loops over chains compute their pointwise meaning.
  \<^item> \<^verbatim>\<open>Cap_Ops\<close> (\<^verbatim>\<open>cap_ops.h\<close>), \<^verbatim>\<open>Kobj\<close> (\<^verbatim>\<open>component.h\<close>, \<^verbatim>\<open>inv.h\<close>, \<^verbatim>\<open>hw.h\<close>): construction, copying, freezing and
    release of tables, and what a freeze stops; activation and deactivation of objects; synchronous invocation
    and return.
  \<^item> \<^verbatim>\<open>Ipi\<close> (\<^verbatim>\<open>ipi_cap.h\<close>): rings of notifications between cores, a second \<open>bounded_queue\<close>.
  \<^item> \<^verbatim>\<open>Capinv\<close>, \<^verbatim>\<open>Syscall\<close> (\<^verbatim>\<open>capinv.c\<close>): switching, asynchronous send and receive, timer interrupts, and the
    handler of system calls that dispatches to all of the above.
  \<^item> \<^verbatim>\<open>Endpoints\<close> (\<^verbatim>\<open>inv.h\<close>, \<^verbatim>\<open>capinv.c\<close>): the hierarchy of receive end-points over sequences of activations and deactivations,
    on which notification ends.

  \<^bold>\<open>The scheduling library.\<close>
  \<^item> \<^verbatim>\<open>Bitmap\<close> (\<^verbatim>\<open>components/include/bitmap.h\<close>): arithmetic on bits and the search for extents of set bits.
  \<^item> \<^verbatim>\<open>Heap\<close> (\<^verbatim>\<open>components/lib/heap.c\<close>): binary heaps whose entries know their positions.  The locale \<open>heap_entries\<close>
    states what the comparison and the update of positions must satisfy; it is interpreted for the two
    heaps of the library.
  \<^item> \<^verbatim>\<open>Sl_Thd\<close> (\<^verbatim>\<open>sl_thd.h\<close>, \<^verbatim>\<open>res_spec.h\<close>), \<^verbatim>\<open>Sl_Edf\<close> (\<^verbatim>\<open>sl_mod_edf.c\<close>): threads, scheduling parameters, and the policy of the
    earliest deadline.  The locale \<open>sched_policy\<close> is the contract between the library and a policy.
  \<^item> \<^verbatim>\<open>Sl_Sched\<close> (\<^verbatim>\<open>sl_sched.c\<close>, \<^verbatim>\<open>sl.h\<close>, \<^verbatim>\<open>sl_xcpu.c\<close>): blocking, waking up, time-outs and the scheduling decision,
    over any policy.  \<^verbatim>\<open>Sl_Inv\<close> shows inside \<open>sched_policy\<close> that every operation keeps the run queue and the heap
    of time-outs in step with the states of the threads; \<^verbatim>\<open>Sl_Runs\<close> concludes for runs over the policy of the
    earliest deadline that no assertion fails and that the decision is the right one.

  \<^bold>\<open>The user-level interface of the kernel\<close> (\<^verbatim>\<open>components/lib/cos_kernel_api.c\<close>).
  \<^item> \<^verbatim>\<open>Kernel_Api\<close>: the allocators of pages, of virtual addresses and of capability identifiers by which a component
    builds kernel objects out of untyped memory, the creation of and the operations on these objects, and the
    encoding of system calls in registers.  A system call is a parameter; the state records the calls made.
  \<^item> \<^verbatim>\<open>Kernel_Abi\<close>: the calls meet the handler of \<^verbatim>\<open>Syscall\<close>; what the kernel decodes is what the caller passed for
    a dispatch, and is not for a wakeup of a tcap.  The records of initial functions of threads.
  \<^item> \<^verbatim>\<open>Kernel_Api_Mem\<close>, \<^verbatim>\<open>Kernel_Api_Vas\<close>, \<^verbatim>\<open>Kernel_Api_Caps\<close>: over every sequence of allocations no page is handed out
    twice, the nodes of page-tables are constructed once, and capability identifiers are disjoint and share
    a cache line only with capabilities of their size.

  \<^bold>\<open>The data path of EOS\<close> (\<^verbatim>\<open>components/implementation/no_interface/fwp_manager\<close>), by which packets pass through a chain of
  network functions.
  \<^item> \<^verbatim>\<open>Eos_Ring\<close> (\<^verbatim>\<open>eos_ring.h\<close>, \<^verbatim>\<open>eos_pkt.h\<close>): rings of nodes with eight packets each, sending, receiving, collecting.
  \<^item> \<^verbatim>\<open>Eos_Mca\<close> (\<^verbatim>\<open>eos_mca.c\<close>, \<^verbatim>\<open>eos_sched.c\<close>): the agent that copies packets from an output ring to the next input ring.
  \<^item> \<^verbatim>\<open>Eos_Ninf\<close> (\<^verbatim>\<open>ninf_rx.c\<close>, \<^verbatim>\<open>ninf_tx.c\<close>): reception and transmission.
  \<^item> \<^verbatim>\<open>Eos_Chain\<close>, \<^verbatim>\<open>Eos_Inv\<close>: chains of functions, the invariant of their rings, and its preservation by the agent, by
    sending and receiving, and by the collection of nodes.

  \<^bold>\<open>Loops.\<close>  Loops over arrays and lists are structural recursion.  The loops over delegation chains and over the
  hierarchy of end-points terminate by a measure.  The loops of the heap, of the rings, of the allocators, of
  EOS and over the time-outs are partial functions; the theorems about them show that they return.  The search for an extent
  (\<open>contiguous_loop\<close>) has as fuel the number of bits that are left, which no iteration can exceed, since each
  moves on by at least one bit.  No other definition uses fuel.

  \<^bold>\<open>Parameters.\<close>  The time-stamp counter, the identity of the core, and the registers of the hardware enter as
  components of an environment.  System calls made by the library are parameters where their result matters.
  The atomic operations of the library \<^verbatim>\<open>ps\<close> that the allocators use are parameters with the laws \<open>ps_ok\<close>.
  In EOS the rings between cores of the library \<^verbatim>\<open>ck\<close> and the driver of the network card are parameters.

  \<^bold>\<open>Not modelled.\<close>  The platform (\<^verbatim>\<open>platform/i386\<close>: descriptor tables, interrupt controllers, boot, console), which is
  device access; floating-point state, which is compiled out; the Linux port and the host tools.  Of the user
  level: the default component (\<^verbatim>\<open>cos_defkernel_api.c\<close>), whose functions only forward to \<^verbatim>\<open>cos_kernel_api.c\<close>; the policies with fixed priorities
  and with bitmaps, the list of pending events, and the rings between cores and to child schedulers, which
  rest on the lists and rings of libraries that are not part of the repository; components other than EOS, applications
  and vendored packages; of EOS, the set-up of the functions (\<^verbatim>\<open>fwp_manager.c\<close>), the lookup of flows and the driver.  Interleavings of cores inside one operation are not modelled: an operation is one step.
\<close>

section \<open>Switching on an empty budget\<close>

lemma tcap_inv_frame:
  assumes "tcap_inv c T s" "lst s' = lst s" "tcaps s' = tcaps s"
  shows "tcap_inv c T s'"
  using assms by (simp add: tcap_inv_def)

lemma tcap_budgets_update_inv:
  assumes "tcap_inv (ke_cpu E) T s" "tcap_current s (ke_cpu E) \<in> T" "tcap_budgets_update E thd s = Some ((expended, now), s')"
  shows "tcap_inv (ke_cpu E) T s'" "expended \<longleftrightarrow> tcap_expended s' (tcap_current s (ke_cpu E))"
proof -
  let ?c = "ke_cpu E"
  define s1 where "s1 = thd_exec_add thd (ke_tsc E 0 - cli_cycles (cli s ?c)) (upd_cli ?c (\<lambda>i. i\<lparr>cli_cycles := ke_tsc E 0\<rparr>) s)"
  have keep: "lst s1 = lst s" "tcaps s1 = tcaps s" by (simp_all add: s1_def thd_exec_add_def upd_thd_def upd_cli_def)
  obtain r where cons: "tcap_consume (tcap_current s ?c) (ucast (ke_tsc E 0 - cli_cycles (cli s ?c))) s1 = Some (r, s')"
    and ex: "expended = tcap_expended s' (tcap_current s ?c)"
    using assms(3) by (auto simp: tcap_budgets_update_def Let_def bind_prod_Some s1_def)
  show "tcap_inv ?c T s'" using tcap_inv_consume [OF tcap_inv_frame [OF assms(1) keep] assms(2) cons] by blast
  show "expended \<longleftrightarrow> tcap_expended s' (tcap_current s ?c)" by (rule ex)
qed

text \<open>
  C18. When the budget of the running tcap is spent the kernel finds another one: as long as some tcap of
  the core has a budget, the choice that \<^verbatim>\<open>cap_update\<close> makes after charging the current tcap trips neither of
  its assertions, and the tcap it switches to has a budget.
\<close>

theorem cap_update_choice_has_budget:
  assumes "tcap_inv (ke_cpu E) T s" "tcap_current s (ke_cpu E) \<in> T"
    "tcap_budgets_update E thd_curr s = Some ((expended, now), s')" "\<exists>t\<in>T. \<not> tcap_expended s' t"
  shows "\<exists>n tc tmo' sw. cap_update_choose E expended thd_curr thd_next (tcap_current s (ke_cpu E)) tc_next tmo timer_intr s' =
      Some (n, tc, tmo', sw) \<and> (expended \<longrightarrow> \<not> tcap_expended s' tc)"
proof -
  let ?c = "ke_cpu E" and ?t = "tcap_current s (ke_cpu E)"
  note upd = tcap_budgets_update_inv [OF assms(1-3)]
  have "active_list (lst s') ?c T (\<lambda>t. budget (tcaps s' t))" using upd(1) by (simp add: tcap_inv_def)
  from active_list_empty [OF this assms(2)] have act: "expended \<Longrightarrow> \<not> tcap_is_active s' ?t"
    using upd(2) by (simp add: tcap_is_active_def tcap_expended_def tcap_left_def)
  have "tcap_active_next s' ?c \<noteq> 0 \<and> \<not> tcap_expended s' (tcap_active_next s' ?c)"
    using tcap_active_next_live [OF upd(1)] assms(4) by (auto split: if_splits)
  then show ?thesis using act upd(2) by (auto simp: cap_update_choose_def Let_def kassert_bind)
qed

definition ex_env :: "kenv" where
  "ex_env = \<lparr>ke_kpa = 0, ke_cpu = 0, ke_tsc = (\<lambda>_. 200)\<rparr>"

definition ex_running :: "kst" where
  "ex_running = (ex_tc 50)\<lparr>cli := (\<lambda>_. cli_zero\<lparr>curr_tcap := 0x1000\<rparr>)\<rparr>"

theorem cap_update_choice_has_budget_witness:
  "\<exists>now s' n tc tmo sw. tcap_budgets_update ex_env 0x3000 ex_running = Some ((True, now), s') \<and>
    cap_update_choose ex_env True 0x3000 0x3000 0x1000 0x1000 0 True s' = Some (n, tc, tmo, sw) \<and> \<not> tcap_expended s' tc"
proof -
  have inv: "tcap_inv (ke_cpu ex_env) {0x1000, 0x2000} ex_running"
    using tcap_inv_frame [OF ex_tc_inv [of 50], of ex_running] by (simp add: ex_running_def ex_env_def)
  have cur: "tcap_current ex_running (ke_cpu ex_env) = 0x1000" by (simp add: tcap_current_def ex_running_def)
  have "tcaps ex_running 0x1000 = ex_tcap 1 5 100" "tcaps ex_running 0x2000 = ex_tcap 2 7 50"
    "cli_cycles (cli ex_running 0) = 0" "tcap_current ex_running 0 = 0x1000"
    by (simp_all add: ex_running_def ex_tc_sel cli_zero_def tcap_current_def)
  then obtain now s' where upd: "tcap_budgets_update ex_env 0x3000 ex_running = Some ((True, now), s')"
    and left: "\<not> tcap_expended s' 0x2000"
    by (simp add: tcap_budgets_update_def Let_def tcap_consume_def thd_exec_add_def upd_thd_def upd_cli_def upd_tcap_def
        tcap_active_rem_def TCAP_RES_IS_INF_def TCAP_RES_INF_def ex_tcap_def ex_env_def tcap_expended_def tcap_left_def
        tcap_declassify_def upd_lst_def tcap_zero_def)
  show ?thesis
    using cap_update_choice_has_budget [OF inv _ upd, of "0x3000" "0x1000" 0 True] left upd by (simp add: cur)
qed

end
